(* ===== verification/Prelude.thy ===== *)
theory Prelude
  imports Main "HOL-Library.Word"
begin

text \<open>
  Shared vocabulary of the development: the integer widths of the C++ sources, the exceptions
  they throw as a datatype, the error monad in which every fallible routine is written, and the
  little-endian byte encodings that the packet, RMC and NEX codecs all rest on.
\<close>

unbundle bit_operations_syntax

section \<open>Widths, exceptions and the error monad\<close>

type_synonym byte = "8 word"
type_synonym u8 = "8 word"
type_synonym u16 = "16 word"
type_synonym u32 = "32 word"
type_synonym u64 = "64 word"
type_synonym bytes = "byte list"

text \<open>
  The exceptions of \<^verbatim>\<open>src/exceptions.hpp\<close> and of the standard library that the modelled code
  throws. \<open>UndefinedAccess\<close> is not an exception of the program: it marks a step whose C++
  behaviour is undefined (a read past the end of a span or vector, a null pointer), so that such
  steps are visible branches of the model and never silently totalised.
\<close>

datatype exn =
    MalformedException
  | NotCompleteException
  | RuntimeError
  | LengthError
  | InvalidArgument
  | OutOfRange
  | LogicError
  | LengthUnknownException
  | VersionNotSupportedException
  | MethodNotSupportedException
  | UndefinedAccess

type_synonym 'a result = "exn + 'a"

definition bindE :: "'e + 'a \<Rightarrow> ('a \<Rightarrow> 'e + 'b) \<Rightarrow> 'e + 'b" where
  "bindE m f = (case m of Inl e \<Rightarrow> Inl e | Inr x \<Rightarrow> f x)"

definition throw_if :: "bool \<Rightarrow> 'e \<Rightarrow> 'e + unit" where
  "throw_if b e = (if b then Inl e else Inr ())"

named_theorems codec_simps \<open>equations that evaluate encoders and decoders on encoded input\<close>
named_theorems inv_intros \<open>one fact per operation: it preserves its component's invariant\<close>

lemma bindE_simps [simp]:
  "bindE (Inl e) f = Inl e"
  "bindE (Inr x) f = f x"
  by (simp_all add: bindE_def)

lemma bindE_eq_Inr_iff:
  "bindE m f = Inr y \<longleftrightarrow> (\<exists>x. m = Inr x \<and> f x = Inr y)"
  by (cases m) auto

lemma bindE_eq_Inl_iff:
  "bindE m f = Inl e \<longleftrightarrow> m = Inl e \<or> (\<exists>x. m = Inr x \<and> f x = Inl e)"
  by (cases m) auto

text \<open>A chain of steps ends in a given error only if one of the steps does.\<close>

lemma bindE_not_Inl:
  "m \<noteq> Inl e \<Longrightarrow> (\<And>x. m = Inr x \<Longrightarrow> f x \<noteq> Inl e) \<Longrightarrow> bindE m f \<noteq> Inl e"
  by (cases m) auto

lemma bindE_pair_not_Inl:
  "m \<noteq> Inl e \<Longrightarrow> (\<And>x n. m = Inr (x, n) \<Longrightarrow> f x n \<noteq> Inl e) \<Longrightarrow>
   bindE m (\<lambda>(x, n). f x n) \<noteq> Inl e"
  by (cases m) auto

lemma bindE_cong [fundef_cong]:
  "m = m' \<Longrightarrow> (\<And>x. m' = Inr x \<Longrightarrow> f x = f' x) \<Longrightarrow> bindE m f = bindE m' f'"
  by (cases m') auto

lemma throw_if_simps [simp]:
  "throw_if True e = Inl e"
  "throw_if False e = Inr ()"
  by (simp_all add: throw_if_def)

lemma throw_if_eq_Inr_iff [simp]: "throw_if b e = Inr u \<longleftrightarrow> \<not> b"
  by (simp add: throw_if_def)

section \<open>Little-endian bytes of a word\<close>

text \<open>
  \<open>le_bytes n w\<close> lists the \<open>n\<close> low bytes of \<open>w\<close>, the least significant first: what the sources
  write with \<^verbatim>\<open>push_back (x & 0xFF); push_back ((x >> 8) & 0xFF)\<close> or by copying the object
  representation after \<^verbatim>\<open>util::getu32Little\<close>. \<open>le_word\<close> reads bytes back, as
  \<^verbatim>\<open>data[0] | (data[1] << 8) | \<dots>\<close> does.
\<close>

definition le_bytes :: "nat \<Rightarrow> 'a::len word \<Rightarrow> bytes" where
  "le_bytes n w = map (\<lambda>i. ucast (drop_bit (8 * i) w)) [0..<n]"

primrec le_word :: "bytes \<Rightarrow> 'a::len word" where
  "le_word [] = 0"
| "le_word (b # bs) = ucast b OR push_bit 8 (le_word bs)"

lemma length_le_bytes [simp]: "length (le_bytes n w) = n"
  by (simp add: le_bytes_def)

lemma le_bytes_eq_Nil_iff [simp]: "le_bytes n w = [] \<longleftrightarrow> n = 0"
  by (simp add: le_bytes_def)

lemma nth_le_bytes: "i < n \<Longrightarrow> le_bytes n w ! i = ucast (drop_bit (8 * i) w)"
  by (simp add: le_bytes_def)

lemma bit_nth_le_bytes:
  "i < n \<Longrightarrow> bit (le_bytes n (w :: 'a::len word) ! i) j \<longleftrightarrow> j < 8 \<and> bit w (8 * i + j)"
  by (auto simp: nth_le_bytes bit_simps add.commute dest: bit_imp_le_length)

lemma bit_le_word:
  "bit (le_word bs :: 'a::len word) i \<longleftrightarrow>
     i < LENGTH('a) \<and> i div 8 < length bs \<and> bit (bs ! (i div 8)) (i mod 8)"
proof (induction bs arbitrary: i)
  case Nil
  show ?case by simp
next
  case (Cons b bs)
  have small: "\<not> bit b i" if "8 \<le> i"
    using that by (auto dest: bit_imp_le_length)
  show ?case
  proof (cases "i < 8")
    case True
    then show ?thesis by (auto simp: bit_simps)
  next
    case False
    then have "i div 8 = Suc ((i - 8) div 8)" and "i mod 8 = (i - 8) mod 8"
      by (simp_all add: div_if mod_if)
    with False small show ?thesis
      by (auto simp: bit_simps Cons.IH)
  qed
qed

lemma le_word_le_bytes:
  assumes "LENGTH('a::len) \<le> 8 * n"
  shows "le_word (le_bytes n w) = (w :: 'a word)"
proof (rule bit_word_eqI)
  fix i assume i: "i < LENGTH('a)"
  then have "i div 8 < n" using assms by linarith
  then show "bit (le_word (le_bytes n w) :: 'a word) i = bit w i"
    using i by (simp add: bit_le_word bit_nth_le_bytes)
qed

lemma le_bytes_le_word:
  assumes "8 * length bs = LENGTH('a::len)"
  shows "le_bytes (length bs) (le_word bs :: 'a word) = bs"
proof (rule nth_equalityI)
  show "length (le_bytes (length bs) (le_word bs :: 'a word)) = length bs" by simp
next
  fix i assume "i < length (le_bytes (length bs) (le_word bs :: 'a word))"
  then have i: "i < length bs" by simp
  show "le_bytes (length bs) (le_word bs :: 'a word) ! i = bs ! i"
  proof (rule bit_word_eqI)
    fix j assume j: "j < LENGTH(8)"
    then have "(8 * i + j) div 8 = i" "(8 * i + j) mod 8 = j" by simp_all
    moreover have "8 * i + j < LENGTH('a)"
      using i j assms by simp
    ultimately show "bit (le_bytes (length bs) (le_word bs :: 'a word) ! i) j = bit (bs ! i) j"
      using i j by (simp add: bit_nth_le_bytes bit_le_word)
  qed
qed

lemma le_word_le_bytes_word [simp, codec_simps]:
  "le_word (le_bytes 1 (w :: 8 word)) = w"
  "le_word (le_bytes (Suc 0) (w :: 8 word)) = w"
  "le_word (le_bytes 2 (w2 :: 16 word)) = w2"
  "le_word (le_bytes 4 (w4 :: 32 word)) = w4"
  "le_word (le_bytes 8 (w8 :: 64 word)) = w8"
  by (rule le_word_le_bytes; simp)+

lemma le_bytes_one: "le_bytes (Suc 0) (w :: 8 word) = [w]"
  by (simp add: le_bytes_def)

text \<open>The two-byte and four-byte forms, for reading fields out of a fixed position.\<close>

lemma le_bytes_two: "le_bytes 2 w = [ucast w, ucast (drop_bit 8 w)]"
  by (simp add: le_bytes_def upt_rec)

lemma le_bytes_four:
  "le_bytes 4 w = [ucast w, ucast (drop_bit 8 w), ucast (drop_bit 16 w), ucast (drop_bit 24 w)]"
  by (simp add: le_bytes_def upt_rec)

lemma unat_word_bounds [simp]:
  "unat (b :: 8 word) < 256"
  "unat (h :: 16 word) < 65536"
  "unat (w :: 32 word) < 4294967296"
proof -
  have "unat (x :: 'n::len word) < 2 ^ LENGTH('n)" for x by (rule unsigned_less)
  from this [of b] this [of h] this [of w] show
    "unat b < 256" "unat h < 65536" "unat w < 4294967296" by simp_all
qed

text \<open>A word below \<open>2 ^ n\<close> has no bit from \<open>n\<close> on.\<close>

lemma high_bits: "(a :: 'a::len word) < 2 ^ n \<Longrightarrow> n \<le> i \<Longrightarrow> \<not> bit a i"
proof
  assume a: "a < 2 ^ n" and i: "n \<le> i" "bit a i"
  then have n: "n < LENGTH('a)" using bit_imp_le_length [of a i] by simp
  have "unat (2 ^ n :: 'a word) = 2 ^ n"
    using n by (simp add: unat_of_nat [of "2 ^ n", simplified] take_bit_nat_eq_self)
  then have "unat a < 2 ^ n" using a by (simp add: word_less_nat_alt)
  then have "take_bit n (unat a) = unat a" by (simp add: take_bit_nat_eq_self)
  moreover have "bit (unat a) i" using i by (simp add: bit_unsigned_iff)
  ultimately show False using i by (metis bit_take_bit_iff leD)
qed

section \<open>Spans\<close>

text \<open>
  \<open>subspan d n\<close> is \<^verbatim>\<open>std::span::subspan(n)\<close>, undefined past the end. \<open>slice d i n\<close> is the vector
  constructed from \<^verbatim>\<open>d.begin() + i\<close> to \<^verbatim>\<open>d.begin() + i + n\<close>.
\<close>

definition subspan :: "bytes \<Rightarrow> nat \<Rightarrow> bytes result" where
  "subspan d n = (if n \<le> length d then Inr (drop n d) else Inl UndefinedAccess)"

definition slice :: "'a list \<Rightarrow> nat \<Rightarrow> nat \<Rightarrow> 'a list" where
  "slice d i n = take n (drop i d)"

lemma length_slice [simp]: "i + n \<le> length d \<Longrightarrow> length (slice d i n) = n"
  by (simp add: slice_def)

lemma slice_prefix: "slice (a @ b) 0 (length a) = a"
  by (simp add: slice_def)

lemma slice_append_skip: "length a \<le> i \<Longrightarrow> slice (a @ b) i n = slice b (i - length a) n"
  by (simp add: slice_def)

lemma subspan_length [simp]: "subspan (a @ b) (length a) = Inr b"
  by (simp add: subspan_def)

end
