(* ===== verification/Codec.thy ===== *)
theory Codec
  imports Prelude "HOL-Library.List_Lexorder" "HOL-Library.Char_ord"
begin

text \<open>
  The NEX wire types of \<^verbatim>\<open>src/nex/types/common\<close> that other types are built from: integers,
  strings, buffers, lists, maps and the versioned header of a \<^verbatim>\<open>Structure\<close>. Every
  \<^verbatim>\<open>decode(span)\<close> of the sources returns the number of bytes it consumed and leaves the value in
  the object; here it returns both. The interface that all of them promise is the locale
  \<open>wire_codec\<close>; lists and structures are its clients.
\<close>

type_synonym 'a decoder = "bytes \<Rightarrow> ('a \<times> nat) result"

section \<open>The codec interface\<close>

text \<open>
  \<open>dec_at dec d pos\<close> is the idiom \<^verbatim>\<open>size += field.decode(data.subspan(size))\<close> of every structure:
  decode a field at the running position and advance it.
\<close>

definition dec_at :: "'a decoder \<Rightarrow> bytes \<Rightarrow> nat \<Rightarrow> ('a \<times> nat) result" where
  "dec_at dec d pos =
     bindE (subspan d pos) (\<lambda>s. bindE (dec s) (\<lambda>(x, n). Inr (x, pos + n)))"

text \<open>\<open>rest_at d pos r\<close>: the part of \<open>d\<close> from \<open>pos\<close> on is \<open>r\<close>.\<close>

definition rest_at :: "bytes \<Rightarrow> nat \<Rightarrow> bytes \<Rightarrow> bool" where
  "rest_at d pos r \<longleftrightarrow> pos \<le> length d \<and> drop pos d = r"

lemma rest_at_0 [simp]: "rest_at d 0 r \<longleftrightarrow> r = d"
  by (auto simp: rest_at_def)

lemma rest_at_append: "rest_at d pos (a @ r) \<Longrightarrow> rest_at d (pos + length a) r"
  unfolding rest_at_def
  by (metis add.commute append_eq_conv_conj drop_drop le_add_diff_inverse length_append length_drop
      nat_add_left_cancel_le le_add1)

locale wire_codec =
  fixes enc :: "'a \<Rightarrow> bytes"
    and dec :: "'a decoder"
    and ok :: "'a \<Rightarrow> bool"
  assumes roundtrip: "ok x \<Longrightarrow> dec (enc x @ rest) = Inr (x, length (enc x))"
begin

lemma roundtrip_exact: "ok x \<Longrightarrow> dec (enc x) = Inr (x, length (enc x))"
  using roundtrip [of x "[]"] by simp

lemma prefix_free:
  assumes "ok x" and "ok y" and "enc x @ r = enc y @ r'"
  shows "x = y \<and> r = r'"
  using roundtrip [OF assms(1), of r] roundtrip [OF assms(2), of r'] assms(3) by auto

lemma enc_inject: "ok x \<Longrightarrow> ok y \<Longrightarrow> enc x = enc y \<longleftrightarrow> x = y"
  using prefix_free [of x y "[]" "[]"] by auto

lemma dec_at_roundtrip:
  "ok x \<Longrightarrow> rest_at d pos (enc x @ r) \<Longrightarrow> dec_at dec d pos = Inr (x, pos + length (enc x))"
  by (simp add: dec_at_def subspan_def rest_at_def roundtrip)

text \<open>One field of a structure: decode it, and go on with the rest of the fields.\<close>

lemma dec_field:
  assumes "rest_at d pos (enc x @ r)" and "ok x"
    and "rest_at d (pos + length (enc x)) r \<Longrightarrow> f (x, pos + length (enc x)) = R"
  shows "bindE (dec_at dec d pos) f = R"
  using dec_at_roundtrip [OF assms(2,1)] rest_at_append [OF assms(1)] assms(3) by simp

text \<open>The last field of a structure, with nothing but foreign bytes behind it.\<close>

lemma dec_field_last:
  assumes "rest_at d pos (enc x @ r)" and "ok x"
    and "f (x, pos + length (enc x)) = R"
  shows "bindE (dec_at dec d pos) f = R"
  using dec_at_roundtrip [OF assms(2,1)] assms(3) by simp

end

text \<open>A codec whose decoder never claims more bytes than it was given.\<close>

definition consumes_within :: "'a decoder \<Rightarrow> bool" where
  "consumes_within dec \<longleftrightarrow> (\<forall>d x n. dec d = Inr (x, n) \<longrightarrow> n \<le> length d)"

lemma dec_at_within:
  "consumes_within dec \<Longrightarrow> dec_at dec d pos = Inr (x, n) \<Longrightarrow> pos \<le> n \<and> n \<le> length d"
  by (fastforce simp: consumes_within_def dec_at_def subspan_def bindE_eq_Inr_iff split: if_splits)

text \<open>No decoder runs past its input when its parts do not: then no read is undefined.\<close>

definition never_undefined :: "'a decoder \<Rightarrow> bool" where
  "never_undefined dec \<longleftrightarrow> (\<forall>d. dec d \<noteq> Inl UndefinedAccess)"

lemma dec_at_defined:
  "never_undefined dec \<Longrightarrow> pos \<le> length d \<Longrightarrow> dec_at dec d pos \<noteq> Inl UndefinedAccess"
  by (auto simp: never_undefined_def dec_at_def subspan_def bindE_eq_Inl_iff split: prod.splits)

text \<open>
  Both at once, for a run of a decoder on \<open>d\<close>: no undefined read, and no more consumed than there is.
\<close>

definition safe_run :: "bytes \<Rightarrow> ('a \<times> nat) result \<Rightarrow> bool" where
  "safe_run d r \<longleftrightarrow> r \<noteq> Inl UndefinedAccess \<and> (\<forall>x n. r = Inr (x, n) \<longrightarrow> n \<le> length d)"

lemma safe_run_all:
  "consumes_within dec \<and> never_undefined dec \<longleftrightarrow> (\<forall>d. safe_run d (dec d))"
  by (auto simp: consumes_within_def never_undefined_def safe_run_def)

lemma safe_run_Inr [simp]: "safe_run d (Inr (x, n)) \<longleftrightarrow> n \<le> length d"
  by (auto simp: safe_run_def)

lemma safe_run_Inl [simp]: "safe_run d (Inl e) \<longleftrightarrow> e \<noteq> UndefinedAccess"
  by (auto simp: safe_run_def)

lemma safe_run_field:
  assumes "consumes_within dec" and "never_undefined dec" and "pos \<le> length d"
    and "\<And>x n. n \<le> length d \<Longrightarrow> safe_run d (f (x, n))"
  shows "safe_run d (bindE (dec_at dec d pos) f)"
  using dec_at_within [OF assms(1), of d pos] dec_at_defined [OF assms(2,3)] assms(4)
  by (cases "dec_at dec d pos") auto

locale safe_codec = wire_codec +
  assumes within: "consumes_within dec"
    and defined: "never_undefined dec"
begin

lemma safe_field:
  "pos \<le> length d \<Longrightarrow> (\<And>x n. n \<le> length d \<Longrightarrow> safe_run d (f x n)) \<Longrightarrow>
   safe_run d (bindE (dec_at dec d pos) (\<lambda>(x, n). f x n))"
  by (rule safe_run_field [OF within defined]) simp_all

lemma field_within: "dec_at dec d pos = Inr (x, n) \<Longrightarrow> pos \<le> n \<and> n \<le> length d"
  by (rule dec_at_within [OF within])

lemma field_defined: "pos \<le> length d \<Longrightarrow> dec_at dec d pos \<noteq> Inl UndefinedAccess"
  by (rule dec_at_defined [OF defined])

end

section \<open>Integers and booleans\<close>

text \<open>\<^verbatim>\<open>Int<T>\<close> for the integral types: the object representation in little-endian order.\<close>

definition encode_int :: "'a::len word \<Rightarrow> bytes" where
  "encode_int w = le_bytes (LENGTH('a) div 8) w"

definition decode_int :: "'a::len word decoder" where
  "decode_int d =
     (let n = LENGTH('a) div 8
      in if length d < n then Inl MalformedException else Inr (le_word (take n d), n))"

text \<open>
  \<^verbatim>\<open>Int<bool>\<close>: one byte. A byte other than 0 or 1 does not represent a \<^verbatim>\<open>bool\<close> in C++; the model
  reads it as true, as the generated code does.
\<close>

definition encode_bool :: "bool \<Rightarrow> bytes" where
  "encode_bool b = [if b then 1 else 0]"

definition decode_bool :: "bool decoder" where
  "decode_bool d = (if length d < 1 then Inl MalformedException else Inr (d ! 0 \<noteq> 0, 1))"

lemma length_encode_int [simp]: "length (encode_int (w :: 'a::len word)) = LENGTH('a) div 8"
  by (simp add: encode_int_def)

lemma decode_int_encode_int:
  assumes "8 dvd LENGTH('a::len)"
  shows "decode_int (encode_int (w :: 'a word) @ rest) = Inr (w, LENGTH('a) div 8)"
  using assms by (auto simp: decode_int_def encode_int_def Let_def le_word_le_bytes)

lemma decode_int_within: "consumes_within (decode_int :: 'a::len word decoder)"
  by (auto simp: consumes_within_def decode_int_def Let_def split: if_splits)

lemma decode_int_defined: "never_undefined (decode_int :: 'a::len word decoder)"
  by (auto simp: never_undefined_def decode_int_def Let_def)

lemma int_codec:
  "8 dvd LENGTH('a::len) \<Longrightarrow>
   safe_codec (encode_int :: 'a word \<Rightarrow> bytes) decode_int (\<lambda>_. True)"
  by unfold_locales (simp_all add: decode_int_encode_int decode_int_within decode_int_defined)

interpretation u8_codec: safe_codec "encode_int :: u8 \<Rightarrow> bytes" decode_int "\<lambda>_. True"
  by (rule int_codec) simp

interpretation u16_codec: safe_codec "encode_int :: u16 \<Rightarrow> bytes" decode_int "\<lambda>_. True"
  by (rule int_codec) simp

interpretation u32_codec: safe_codec "encode_int :: u32 \<Rightarrow> bytes" decode_int "\<lambda>_. True"
  by (rule int_codec) simp

interpretation u64_codec: safe_codec "encode_int :: u64 \<Rightarrow> bytes" decode_int "\<lambda>_. True"
  by (rule int_codec) simp

interpretation bool_codec: safe_codec encode_bool decode_bool "\<lambda>_. True"
  by unfold_locales
     (auto simp: encode_bool_def decode_bool_def consumes_within_def never_undefined_def Suc_le_eq
        split: if_splits)

section \<open>Strings\<close>

text \<open>A C++ \<^verbatim>\<open>std::string\<close> is a list of bytes, here the 8-bit \<open>char\<close>s of HOL.\<close>

definition byte_of_char :: "char \<Rightarrow> byte" where
  "byte_of_char c = of_char c"

definition char_of_byte :: "byte \<Rightarrow> char" where
  "char_of_byte b = char_of (unat b)"

lemma char_of_byte_of_char [simp]: "char_of_byte (byte_of_char c) = c"
proof -
  have "unat (of_nat (of_char c) :: byte) = (of_char c :: nat)"
    by (simp add: unat_of_nat)
  then have "unat (of_char c :: byte) = (of_char c :: nat)"
    by (simp only: of_nat_of_char)
  then show ?thesis by (simp add: char_of_byte_def byte_of_char_def)
qed

lemma map_char_of_byte_of_char [simp]: "map (char_of_byte \<circ> byte_of_char) s = s"
  by (induction s) simp_all

text \<open>
  The length field is \<^verbatim>\<open>(uint16_t)(value.size() + 1)\<close>. On decoding, a length of 0 makes
  \<^verbatim>\<open>value.resize(length - 1)\<close> throw \<^verbatim>\<open>std::length_error\<close>; the terminating zero is not looked at.
\<close>

definition encode_string :: "string \<Rightarrow> bytes" where
  "encode_string s =
     le_bytes 2 (of_nat (length s + 1) :: u16) @ map byte_of_char s @ [0]"

definition decode_string :: "string decoder" where
  "decode_string d =
     (if length d < 2 then Inl MalformedException
      else let len = unat (le_word (take 2 d) :: u16)
           in if length d < len + 2 then Inl MalformedException
              else if len = 0 then Inl LengthError
              else Inr (map char_of_byte (slice d 2 (len - 1)), len + 2))"

definition string_ok :: "string \<Rightarrow> bool" where
  "string_ok s \<longleftrightarrow> length s < 65535"

lemma length_encode_string [simp]: "length (encode_string s) = length s + 3"
  by (simp add: encode_string_def)

lemma decode_string_encode_string:
  assumes "string_ok s"
  shows "decode_string (encode_string s @ rest) = Inr (s, length s + 3)"
proof -
  have len: "unat (word_of_nat (Suc (length s)) :: u16) = Suc (length s)"
    using assms unat_of_nat [of "Suc (length s)", where ?'a = 16] by (simp add: string_ok_def)
  show ?thesis
    unfolding decode_string_def encode_string_def slice_def Let_def
    by (simp add: len del: of_nat_Suc)
qed

interpretation string_codec: safe_codec encode_string decode_string string_ok
proof unfold_locales
  fix x rest assume "string_ok x"
  then show "decode_string (encode_string x @ rest) = Inr (x, length (encode_string x))"
    by (simp add: decode_string_encode_string)
qed (auto simp: consumes_within_def never_undefined_def decode_string_def Let_def split: if_splits)

section \<open>Buffers\<close>

text \<open>\<^verbatim>\<open>BufferT<LengthT>\<close> with a 32-bit (\<^verbatim>\<open>Buffer\<close>) or 16-bit (\<^verbatim>\<open>qBuffer\<close>) length field.\<close>

definition encode_buffer :: "'l::len itself \<Rightarrow> bytes \<Rightarrow> bytes" where
  "encode_buffer _ b = encode_int (of_nat (length b) :: 'l word) @ b"

definition decode_buffer :: "'l::len itself \<Rightarrow> bytes decoder" where
  "decode_buffer _ d =
     (if length d < LENGTH('l) div 8 then Inl MalformedException
      else bindE (decode_int d) (\<lambda>(len :: 'l word, k).
        if length d < LENGTH('l) div 8 + unat len then Inl MalformedException
        else Inr (slice d (LENGTH('l) div 8) (unat len), LENGTH('l) div 8 + unat len)))"

lemma buffer_codec:
  assumes "8 dvd LENGTH('l::len)"
  shows "safe_codec (encode_buffer TYPE('l)) (decode_buffer TYPE('l)) (\<lambda>b. length b < 2 ^ LENGTH('l))"
proof unfold_locales
  fix x rest assume "length (x :: bytes) < 2 ^ LENGTH('l)"
  then have "unat (of_nat (length x) :: 'l word) = length x"
    by (simp add: unat_of_nat)
  then show "decode_buffer TYPE('l) (encode_buffer TYPE('l) x @ rest) =
             Inr (x, length (encode_buffer TYPE('l) x))"
    by (simp add: decode_buffer_def encode_buffer_def decode_int_encode_int [OF assms] slice_def)
qed (auto simp: consumes_within_def never_undefined_def decode_buffer_def decode_int_def Let_def
      split: if_splits)

interpretation buffer_codec: safe_codec "encode_buffer TYPE(32)" "decode_buffer TYPE(32)"
    "\<lambda>b. length b < 2 ^ LENGTH(32)"
  by (rule buffer_codec) simp

interpretation qbuffer_codec: safe_codec "encode_buffer TYPE(16)" "decode_buffer TYPE(16)"
    "\<lambda>b. length b < 2 ^ LENGTH(16)"
  by (rule buffer_codec) simp

lemma length_encode_buffer [simp]:
  "length (encode_buffer TYPE('l::len) b) = LENGTH('l) div 8 + length b"
  by (simp add: encode_buffer_def)

section \<open>Lists\<close>

definition encode_list :: "('a \<Rightarrow> bytes) \<Rightarrow> 'a list \<Rightarrow> bytes" where
  "encode_list enc xs = encode_int (of_nat (length xs) :: u32) @ concat (map enc xs)"

text \<open>The loop over the announced number of items, on a span that shrinks by what each consumed.\<close>

fun decode_items :: "'a decoder \<Rightarrow> nat \<Rightarrow> 'a list decoder" where
  "decode_items dec 0 d = Inr ([], 0)"
| "decode_items dec (Suc n) d =
     bindE (dec d) (\<lambda>(x, k).
     bindE (subspan d k) (\<lambda>d'.
     bindE (decode_items dec n d') (\<lambda>(xs, m).
     Inr (x # xs, k + m))))"

definition decode_list :: "'a decoder \<Rightarrow> 'a list decoder" where
  "decode_list dec d =
     (if length d < 4 then Inl MalformedException
      else bindE (decode_int d) (\<lambda>(len :: u32, k).
           bindE (subspan d 4) (\<lambda>d'.
           bindE (decode_items dec (unat len) d') (\<lambda>(xs, m).
           Inr (xs, 4 + m)))))"

definition list_ok :: "('a \<Rightarrow> bool) \<Rightarrow> 'a list \<Rightarrow> bool" where
  "list_ok ok xs \<longleftrightarrow> length xs < 2 ^ 32 \<and> list_all ok xs"

lemma decode_items_within:
  "consumes_within dec \<Longrightarrow> decode_items dec n d = Inr (xs, m) \<Longrightarrow> m \<le> length d"
proof (induction n arbitrary: d xs m)
  case 0
  then show ?case by simp
next
  case (Suc n)
  from Suc.prems(2) obtain x k ys j where
    step: "k \<le> length d" "decode_items dec n (drop k d) = Inr (ys, j)" and m: "m = k + j"
    by (auto simp: bindE_eq_Inr_iff subspan_def split: if_splits)
  from Suc.IH [OF Suc.prems(1) step(2)] step(1) m show ?case by simp
qed

lemma decode_items_length: "decode_items dec n d = Inr (xs, m) \<Longrightarrow> length xs = n"
  by (induction n arbitrary: d xs m) (auto simp: bindE_eq_Inr_iff)

lemma decode_items_defined:
  "consumes_within dec \<Longrightarrow> never_undefined dec \<Longrightarrow> decode_items dec n d \<noteq> Inl UndefinedAccess"
proof (induction n arbitrary: d)
  case 0
  show ?case by simp
next
  case (Suc n)
  show ?case
  proof (cases "dec d")
    case (Inl e)
    then show ?thesis using Suc.prems(2) by (auto simp: never_undefined_def)
  next
    case (Inr r)
    obtain x k where r: "r = (x, k)" by (cases r)
    with Inr Suc.prems(1) have "k \<le> length d" by (auto simp: consumes_within_def)
    with Inr r Suc.IH [OF Suc.prems, of "drop k d"] show ?thesis
      by (cases "decode_items dec n (drop k d)") (auto simp: subspan_def)
  qed
qed

lemma decode_list_within: "consumes_within dec \<Longrightarrow> consumes_within (decode_list dec)"
  unfolding consumes_within_def [of "decode_list dec"]
  by (auto simp: decode_list_def bindE_eq_Inr_iff subspan_def dest!: decode_items_within
      split: if_splits)

lemma decode_list_defined:
  assumes "consumes_within dec" and "never_undefined dec"
  shows "never_undefined (decode_list dec)"
  unfolding never_undefined_def [of "decode_list dec"]
proof
  fix d
  show "decode_list dec d \<noteq> Inl UndefinedAccess"
    using decode_items_defined [OF assms]
    by (auto simp: decode_list_def bindE_eq_Inl_iff subspan_def decode_int_def)
qed

context wire_codec
begin

lemma decode_items_roundtrip:
  "list_all ok xs \<Longrightarrow>
   decode_items dec (length xs) (concat (map enc xs) @ rest) =
     Inr (xs, length (concat (map enc xs)))"
  by (induction xs) (simp_all add: roundtrip)

lemma list_codec: "wire_codec (encode_list enc) (decode_list dec) (list_ok ok)"
proof unfold_locales
  fix xs rest assume "list_ok ok xs"
  then have len: "unat (of_nat (length xs) :: u32) = length xs" and all: "list_all ok xs"
    by (simp_all add: list_ok_def unat_of_nat)
  have "decode_int (encode_list enc xs @ rest) = Inr (of_nat (length xs) :: u32, 4)"
    using decode_int_encode_int [of "of_nat (length xs) :: u32"] by (simp add: encode_list_def)
  moreover have "subspan (encode_list enc xs @ rest) 4 = Inr (concat (map enc xs) @ rest)"
    by (simp add: encode_list_def subspan_def)
  ultimately show "decode_list dec (encode_list enc xs @ rest) = Inr (xs, length (encode_list enc xs))"
    unfolding decode_list_def
    by (simp add: len decode_items_roundtrip [OF all]) (simp add: encode_list_def)
qed

end

context safe_codec
begin

lemma safe_list_codec: "safe_codec (encode_list enc) (decode_list dec) (list_ok ok)"
  by (intro safe_codec.intro list_codec safe_codec_axioms.intro
      decode_list_within decode_list_defined within defined)

end

interpretation u32_list_codec:
  safe_codec "encode_list (encode_int :: u32 \<Rightarrow> bytes)" "decode_list decode_int" "list_ok (\<lambda>_. True)"
  by (rule u32_codec.safe_list_codec)

interpretation string_list_codec:
  safe_codec "encode_list encode_string" "decode_list decode_string" "list_ok string_ok"
  by (rule string_codec.safe_list_codec)

end
