(* ===== verification/Rmc.thy ===== *)
theory Rmc
  imports Codec
begin

text \<open>
  The remote method calls of \<^verbatim>\<open>src/nex/rmc\<close>: the headers of requests and responses, and the
  server that dispatches what the PRUDP layer hands it (\<^verbatim>\<open>server.cpp\<close>). The methods themselves are
  parameters here: a registered call is its parameter parser, and running a call is a step that
  returns what it sent or the exception it threw. Logging is left out. The record \<open>RmcServer\<close> is
  the state of one server object; the locks of the sources make every operation below atomic.
\<close>

section \<open>Addresses\<close>

record IPv4Addr =
  ip_a :: u8
  ip_b :: u8
  ip_c :: u8
  ip_d :: u8
  ip_port :: u16

record PRUDPAddress =
  pa_address :: IPv4Addr
  vPort :: u8
  streamType :: u8
  srcVPort :: u8
  pa_srcStreamType :: u8

section \<open>Requests\<close>

record Request =
  rq_protocolId :: u8
  rq_extendedProtocolId :: u16
  rq_callId :: u32
  rq_methodId :: u32

definition new_request :: Request where
  "new_request = \<lparr>rq_protocolId = 0, rq_extendedProtocolId = 0, rq_callId = 0, rq_methodId = 0\<rparr>"

text \<open>The header of a request in front of \<open>paramLength\<close> bytes of parameters.\<close>

definition encode_Request :: "Request \<Rightarrow> nat \<Rightarrow> bytes" where
  "encode_Request r paramLength =
     (let body = [rq_protocolId r OR 0x80]
            @ (if rq_protocolId r = 0x7F then le_bytes 2 (rq_extendedProtocolId r) else [])
            @ le_bytes 4 (rq_callId r) @ le_bytes 4 (rq_methodId r)
      in le_bytes 4 (of_nat (length body + paramLength) :: u32) @ body)"

definition decode_Request :: "bytes \<Rightarrow> (Request \<times> bytes) result" where
  "decode_Request d =
     (if length d < 13 then Inl NotCompleteException
      else let len = unat (le_word (take 4 d) :: u32)
           in if len \<noteq> length d - 4 then Inl NotCompleteException
              else if len < 9 then Inl MalformedException
              else let proto = d ! 4 AND 0x7F
                   in if proto = 0x7F \<and> len < 11 then Inl MalformedException
                      else let ext = (if proto = 0x7F then le_word (slice d 5 2) else 0);
                               r = drop (if proto = 0x7F then 7 else 5) d
                           in Inr (\<lparr>rq_protocolId = proto, rq_extendedProtocolId = ext,
                                    rq_callId = le_word (slice r 0 4),
                                    rq_methodId = le_word (slice r 4 4)\<rparr>, drop 8 r))"

section \<open>Responses\<close>

record Response =
  rs_protocolId :: u8
  rs_extendedProtocolId :: u16
  rs_success :: bool
  rs_callId :: u32
  rs_methodId :: u32
  rs_error :: u32

definition new_response :: Response where
  "new_response = \<lparr>rs_protocolId = 0, rs_extendedProtocolId = 0, rs_success = True, rs_callId = 0,
     rs_methodId = 0, rs_error = 0\<rparr>"

definition encode_Response :: "Response \<Rightarrow> nat \<Rightarrow> bytes" where
  "encode_Response r paramLength =
     (let body = [rs_protocolId r]
            @ (if rs_protocolId r = 0x7F then le_bytes 2 (rs_extendedProtocolId r) else [])
            @ [if rs_success r then 1 else 0]
            @ (if rs_success r
               then le_bytes 4 (rs_callId r) @ le_bytes 4 (rs_methodId r OR 0x8000)
               else le_bytes 4 (rs_error r OR 0x80000000) @ le_bytes 4 (rs_callId r))
      in le_bytes 4 (of_nat (length body + paramLength) :: u32) @ body)"

definition decode_Response :: "bytes \<Rightarrow> (Response \<times> bytes) result" where
  "decode_Response d =
     (if length d < 14 then Inl NotCompleteException
      else let len = unat (le_word (take 4 d) :: u32)
           in if len \<noteq> length d - 4 then Inl NotCompleteException
              else if len < 10 then Inl MalformedException
              else let proto = d ! 4
                   in if proto = 0x7F \<and> len < 12 then Inl MalformedException
                      else let ext = (if proto = 0x7F then le_word (slice d 5 2) else 0);
                               r = drop (if proto = 0x7F then 7 else 5) d;
                               res = new_response\<lparr>rs_protocolId := proto, rs_extendedProtocolId := ext\<rparr>
                           in Inr (if r ! 0 = 1
                                   then res\<lparr>rs_success := True, rs_callId := le_word (slice r 1 4),
                                            rs_methodId := le_word (slice r 5 4) AND 0x7FFF\<rparr>
                                   else res\<lparr>rs_success := False, rs_error := le_word (slice r 1 4),
                                            rs_callId := le_word (slice r 5 4)\<rparr>, drop 9 r))"

definition createError :: "Request \<Rightarrow> u32 \<Rightarrow> Response" where
  "createError req err =
     \<lparr>rs_protocolId = rq_protocolId req, rs_extendedProtocolId = rq_extendedProtocolId req,
      rs_success = False, rs_callId = rq_callId req, rs_methodId = rq_methodId req, rs_error = err\<rparr>"

section \<open>The server\<close>

definition CORE__NOT_IMPLEMENTED :: u32 where "CORE__NOT_IMPLEMENTED = 0x10002"
definition CORE__EXCEPTION :: u32 where "CORE__EXCEPTION = 0x10005"
definition CORE__INVALID_ARGUMENT :: u32 where "CORE__INVALID_ARGUMENT = 0x1000a"
definition CORE__UNKNOWN :: u32 where "CORE__UNKNOWN = 0x10001"
definition RENDEZ_VOUS__NOT_AUTHENTICATED :: u32 where "RENDEZ_VOUS__NOT_AUTHENTICATED = 0x30002"
definition RENDEZ_VOUS__INVALID_GID :: u32 where "RENDEZ_VOUS__INVALID_GID = 0x3006d"
definition RENDEZ_VOUS__SESSION_VOID :: u32 where "RENDEZ_VOUS__SESSION_VOID = 0x30073"
definition RENDEZ_VOUS__SESSION_FULL :: u32 where "RENDEZ_VOUS__SESSION_FULL = 0x300c8"
definition RENDEZ_VOUS__MATCHMAKE_SESSION_USER_PASSWORD_UNMATCH :: u32 where
  "RENDEZ_VOUS__MATCHMAKE_SESSION_USER_PASSWORD_UNMATCH = 0x300d5"
definition RENDEZ_VOUS__USER_IS_OFFLINE :: u32 where "RENDEZ_VOUS__USER_IS_OFFLINE = 0x300d7"
definition RENDEZ_VOUS__PERMISSION_DENIED :: u32 where "RENDEZ_VOUS__PERMISSION_DENIED = 0x300d9"
definition RENDEZ_VOUS__SESSION_CLOSED :: u32 where "RENDEZ_VOUS__SESSION_CLOSED = 0x300db"
definition CORE__ACCESS_DENIED :: u32 where "CORE__ACCESS_DENIED = 0x10006"
definition RENDEZ_VOUS__INVALID_USERNAME :: u32 where "RENDEZ_VOUS__INVALID_USERNAME = 0x30064"
definition RENDEZ_VOUS__DATABASE_TEMPORARILY_UNAVAILABLE :: u32 where
  "RENDEZ_VOUS__DATABASE_TEMPORARILY_UNAVAILABLE = 0x300dc"

record ClientInfo =
  ci_address :: PRUDPAddress
  ci_minorVersion :: u8
  ci_substreamId :: u8
  ci_serverId :: u32
  ci_pid :: u32

record 'p RequestInfo =
  ri_client :: ClientInfo
  ri_request :: Request
  ri_params :: 'p

type_synonym call_key = "u8 \<times> u16 \<times> u32"

record 'p RmcServer =
  shouldStop :: bool
  rmc_serverId :: u32
  pidMap :: "PRUDPAddress \<rightharpoonup> u32"
  calls :: "call_key \<rightharpoonup> (u8 \<Rightarrow> bytes \<Rightarrow> 'p result)"
  requestsQueue :: "'p RequestInfo list"

text \<open>What goes out: \<^verbatim>\<open>sendData(address, data, substreamId)\<close>.\<close>

type_synonym sent = "PRUDPAddress \<times> bytes \<times> u8"

definition call_key :: "Request \<Rightarrow> call_key" where
  "call_key r = (rq_protocolId r, rq_extendedProtocolId r, rq_methodId r)"

definition sendRequest :: "'p RmcServer \<Rightarrow> ClientInfo \<Rightarrow> Request \<Rightarrow> bytes list \<Rightarrow> sent list" where
  "sendRequest s client msg params =
     (if shouldStop s then []
      else [(ci_address client, encode_Request msg (length (concat params)) @ concat params,
             ci_substreamId client)])"

definition sendResponse :: "'p RmcServer \<Rightarrow> ClientInfo \<Rightarrow> Response \<Rightarrow> bytes list \<Rightarrow> sent list" where
  "sendResponse s client msg params =
     (if shouldStop s then []
      else [(ci_address client, encode_Response msg (length (concat params)) @ concat params,
             ci_substreamId client)])"

definition rmc_onConnect :: "'p RmcServer \<Rightarrow> PRUDPAddress \<Rightarrow> u32 \<Rightarrow> 'p RmcServer" where
  "rmc_onConnect s addr pid = (if shouldStop s then s else s\<lparr>pidMap := (pidMap s)(addr \<mapsto> pid)\<rparr>)"

definition rmc_onDisconnect :: "'p RmcServer \<Rightarrow> PRUDPAddress \<Rightarrow> 'p RmcServer" where
  "rmc_onDisconnect s addr = (if shouldStop s then s else s\<lparr>pidMap := (pidMap s)(addr := None)\<rparr>)"

text \<open>\<^verbatim>\<open>std::map::emplace\<close> does not replace a call that is already registered.\<close>

definition registerCall ::
  "call_key \<Rightarrow> (u8 \<Rightarrow> bytes \<Rightarrow> 'p result) \<Rightarrow> 'p RmcServer \<Rightarrow> 'p RmcServer" where
  "registerCall k parser s =
     (case calls s k of None \<Rightarrow> s\<lparr>calls := (calls s)(k \<mapsto> parser)\<rparr> | Some _ \<Rightarrow> s)"

definition rmc_start :: "'p RmcServer \<Rightarrow> 'p RmcServer" where
  "rmc_start s = s\<lparr>shouldStop := False\<rparr>"

definition rmc_stop :: "'p RmcServer \<Rightarrow> 'p RmcServer" where
  "rmc_stop s = (if shouldStop s then s else s\<lparr>shouldStop := True, requestsQueue := []\<rparr>)"

definition enqueue ::
  "'p RmcServer \<Rightarrow> PRUDPAddress \<Rightarrow> u8 \<Rightarrow> u8 \<Rightarrow> Request \<Rightarrow> 'p \<Rightarrow> 'p RmcServer" where
  "enqueue s addr mv sub req params =
     (let pid = (case pidMap s addr of None \<Rightarrow> 0 | Some p \<Rightarrow> p)
      in s\<lparr>requestsQueue := requestsQueue s @
           [\<lparr>ri_client = \<lparr>ci_address = addr, ci_minorVersion = mv, ci_substreamId = sub,
                ci_serverId = rmc_serverId s, ci_pid = pid\<rparr>,
             ri_request = req, ri_params = params\<rparr>]\<rparr>)"

definition error_client :: "'p RmcServer \<Rightarrow> PRUDPAddress \<Rightarrow> u8 \<Rightarrow> u8 \<Rightarrow> ClientInfo" where
  "error_client s addr mv sub =
     \<lparr>ci_address = addr, ci_minorVersion = mv, ci_substreamId = sub, ci_serverId = rmc_serverId s,
      ci_pid = 0\<rparr>"

text \<open>A decoded request: look the method up, parse its parameters, queue it or answer an error.\<close>

definition handle_request ::
  "'p RmcServer \<Rightarrow> PRUDPAddress \<Rightarrow> u8 \<Rightarrow> u8 \<Rightarrow> Request \<Rightarrow> bytes \<Rightarrow> ('p RmcServer \<times> sent list) result"
where
  "handle_request s addr mv sub req payload =
     (let fail = (\<lambda>err. Inr (s, sendResponse s (error_client s addr mv sub) (createError req err) []))
      in case calls s (call_key req) of
           None \<Rightarrow> fail CORE__NOT_IMPLEMENTED
         | Some parser \<Rightarrow>
             (case parser mv payload of
                Inr params \<Rightarrow> Inr (enqueue s addr mv sub req params, [])
              | Inl UndefinedAccess \<Rightarrow> Inl UndefinedAccess
              | Inl MalformedException \<Rightarrow> fail CORE__INVALID_ARGUMENT
              | Inl _ \<Rightarrow> fail CORE__EXCEPTION))"

definition is_response :: "bytes \<Rightarrow> bool" where
  "is_response d \<longleftrightarrow> 5 \<le> length d \<and> d ! 4 AND 0x80 = 0"

definition rmc_onData ::
  "'p RmcServer \<Rightarrow> PRUDPAddress \<Rightarrow> u8 \<Rightarrow> u8 \<Rightarrow> bytes \<Rightarrow> ('p RmcServer \<times> sent list) result"
where
  "rmc_onData s addr mv sub d =
     (if shouldStop s then Inr (s, [])
      else if is_response d then Inr (s, [])
      else case decode_Request d of
          Inr (req, payload) \<Rightarrow> handle_request s addr mv sub req payload
        | Inl NotCompleteException \<Rightarrow> Inl NotCompleteException
        | Inl _ \<Rightarrow> Inr (s, []))"

text \<open>
  The worker drains the queue into tasks, in order, skipping calls that are not registered.
\<close>

definition drain_queue :: "'p RmcServer \<Rightarrow> 'p RmcServer \<times> 'p RequestInfo list" where
  "drain_queue s =
     (if shouldStop s then (s, [])
      else (s\<lparr>requestsQueue := []\<rparr>,
            filter (\<lambda>r. calls s (call_key (ri_request r)) \<noteq> None) (requestsQueue s)))"

section \<open>Round trips\<close>

lemma request_protocol:
  assumes "(p :: u8) \<le> 0x7F"
  shows "(p OR 0x80) AND 0x7F = p" and "(p OR 0x80) AND 0x80 \<noteq> 0"
proof -
  have "p < 2 ^ 7" using assms by (simp add: word_le_nat_alt word_less_nat_alt)
  then have hi: "\<And>i. bit p i \<Longrightarrow> i < 7" using high_bits [of p 7] by (auto simp: not_le [symmetric])
  have m: "(0x7F :: u8) = mask 7" by (simp add: mask_eq_exp_minus_1)
  have top: "bit (0x80 :: u8) n \<longleftrightarrow> n = 7" for n
    using bit_push_bit_iff [of 7 "1 :: u8" n] by (auto simp: bit_1_iff)
  show "(p OR 0x80) AND 0x7F = p"
    unfolding m by (rule bit_word_eqI, simp only: bit_and_iff bit_or_iff bit_mask_iff top, auto dest: hi)
  show "(p OR 0x80) AND 0x80 \<noteq> 0" by (simp add: bit.conj_disj_distrib2)
qed

text \<open>A message is its body behind the length of the body.\<close>

lemma message_prefix:
  assumes "length body < 2 ^ 32"
  defines "d \<equiv> le_bytes 4 (of_nat (length body) :: u32) @ body"
  shows "unat (le_word (take 4 d) :: u32) = length body" and "length d = length body + 4"
    and "d ! 4 = body ! 0" and "slice d 5 2 = slice body 1 2"
    and "drop 5 d = drop 1 body" and "drop 7 d = drop 3 body"
  using assms by (simp_all add: unat_of_nat nth_append slice_def)

definition request_ok :: "Request \<Rightarrow> bool" where
  "request_ok r \<longleftrightarrow> rq_protocolId r \<le> 0x7F \<and>
     (rq_protocolId r \<noteq> 0x7F \<longrightarrow> rq_extendedProtocolId r = 0)"

definition request_body :: "Request \<Rightarrow> bytes" where
  "request_body r = [rq_protocolId r OR 0x80]
     @ (if rq_protocolId r = 0x7F then le_bytes 2 (rq_extendedProtocolId r) else [])
     @ le_bytes 4 (rq_callId r) @ le_bytes 4 (rq_methodId r)"

lemma encode_Request_message:
  "encode_Request r (length params) @ params =
     le_bytes 4 (of_nat (length (request_body r @ params)) :: u32) @ request_body r @ params"
  by (simp add: encode_Request_def request_body_def Let_def)

lemma decode_Request_encode:
  assumes ok: "request_ok r" and small: "length params + 11 < 2 ^ 32"
  shows "decode_Request (encode_Request r (length params) @ params) = Inr (r, params)"
proof -
  let ?b = "request_body r @ params"
  note proto = request_protocol(1) [OF ok [unfolded request_ok_def, THEN conjunct1]]
  have "length ?b < 2 ^ 32" using small by (simp add: request_body_def)
  note pre = message_prefix [OF this]
  have b0: "?b ! 0 = rq_protocolId r OR 0x80" by (simp add: request_body_def)
  show ?thesis
    unfolding encode_Request_message decode_Request_def pre Let_def b0 proto
    using ok by (cases r) (auto simp: request_body_def slice_def request_ok_def)
qed

definition response_body :: "Response \<Rightarrow> bytes" where
  "response_body r = [rs_protocolId r]
     @ (if rs_protocolId r = 0x7F then le_bytes 2 (rs_extendedProtocolId r) else [])
     @ [if rs_success r then 1 else 0]
     @ (if rs_success r then le_bytes 4 (rs_callId r) @ le_bytes 4 (rs_methodId r OR 0x8000)
        else le_bytes 4 (rs_error r OR 0x80000000) @ le_bytes 4 (rs_callId r))"

lemma encode_Response_message:
  "encode_Response r (length params) @ params =
     le_bytes 4 (of_nat (length (response_body r @ params)) :: u32) @ response_body r @ params"
  by (simp add: encode_Response_def response_body_def Let_def)

text \<open>
  What the client reads: the method id without its flag, or the error with its failure bit and no
  method id.
\<close>

definition seen_response :: "Response \<Rightarrow> Response" where
  "seen_response r =
     (if rs_success r then r\<lparr>rs_methodId := (rs_methodId r OR 0x8000) AND 0x7FFF, rs_error := 0\<rparr>
      else r\<lparr>rs_methodId := 0, rs_error := rs_error r OR 0x80000000\<rparr>)"

lemma decode_Response_encode:
  assumes ext: "rs_protocolId r \<noteq> 0x7F \<Longrightarrow> rs_extendedProtocolId r = 0"
    and small: "length params + 12 < 2 ^ 32"
  shows "decode_Response (encode_Response r (length params) @ params) = Inr (seen_response r, params)"
proof -
  let ?b = "response_body r @ params"
  have "length ?b < 2 ^ 32" using small by (simp add: response_body_def)
  note pre = message_prefix [OF this]
  have b0: "?b ! 0 = rs_protocolId r" by (simp add: response_body_def)
  show ?thesis
    unfolding encode_Response_message decode_Response_def pre Let_def b0
    using ext
    by (cases r; cases "rs_success r")
       (auto simp: response_body_def slice_def seen_response_def new_response_def nth_append)
qed

section \<open>Dispatch\<close>

text \<open>Everything queued is a registered call: the worker never has to skip one.\<close>

definition queue_ok :: "'p RmcServer \<Rightarrow> bool" where
  "queue_ok s \<longleftrightarrow> (\<forall>r \<in> set (requestsQueue s). calls s (call_key (ri_request r)) \<noteq> None)"

lemma enqueue_ok [inv_intros]:
  "queue_ok s \<Longrightarrow> calls s (call_key req) \<noteq> None \<Longrightarrow> queue_ok (enqueue s addr mv sub req ps)"
  by (auto simp: queue_ok_def enqueue_def Let_def)

lemma handle_request_cases:
  assumes "handle_request s addr mv sub req payload = Inr (s', out)"
  obtains (queued) ps where "s' = enqueue s addr mv sub req ps" "out = []"
      "calls s (call_key req) \<noteq> None"
  | (refused) err where "s' = s"
      "out = sendResponse s (error_client s addr mv sub) (createError req err) []"
  using assms that
  by (auto simp: handle_request_def Let_def split: option.splits sum.splits exn.splits)

lemma handle_request_ok [inv_intros]:
  "queue_ok s \<Longrightarrow> handle_request s addr mv sub req payload = Inr (s', out) \<Longrightarrow> queue_ok s'"
  by (erule handle_request_cases) (simp_all add: enqueue_ok)

lemma rmc_onData_ok [inv_intros]:
  "queue_ok s \<Longrightarrow> rmc_onData s addr mv sub d = Inr (s', out) \<Longrightarrow> queue_ok s'"
  by (auto simp: rmc_onData_def split: if_splits sum.splits exn.splits intro: handle_request_ok)

lemma rmc_onConnect_ok [inv_intros]: "queue_ok s \<Longrightarrow> queue_ok (rmc_onConnect s addr pid)"
  by (simp add: queue_ok_def rmc_onConnect_def)

lemma rmc_onDisconnect_ok [inv_intros]: "queue_ok s \<Longrightarrow> queue_ok (rmc_onDisconnect s addr)"
  by (simp add: queue_ok_def rmc_onDisconnect_def)

lemma registerCall_ok [inv_intros]: "queue_ok s \<Longrightarrow> queue_ok (registerCall k parser s)"
  by (auto simp: queue_ok_def registerCall_def split: option.splits)

lemma rmc_start_ok [inv_intros]: "queue_ok s \<Longrightarrow> queue_ok (rmc_start s)"
  by (simp add: queue_ok_def rmc_start_def)

lemma rmc_stop_ok [inv_intros]: "queue_ok s \<Longrightarrow> queue_ok (rmc_stop s)"
  by (simp add: queue_ok_def rmc_stop_def)

lemma drain_queue_ok [inv_intros]: "queue_ok s \<Longrightarrow> queue_ok (fst (drain_queue s))"
  by (simp add: queue_ok_def drain_queue_def)

lemma drain_queue_all:
  "queue_ok s \<Longrightarrow> \<not> shouldStop s \<Longrightarrow> drain_queue s = (s\<lparr>requestsQueue := []\<rparr>, requestsQueue s)"
  by (simp add: drain_queue_def queue_ok_def)

lemma rmc_onData_response:
  "is_response d \<Longrightarrow> rmc_onData s addr mv sub d = Inr (s, [])"
  by (simp add: rmc_onData_def)

lemma rmc_onData_request:
  assumes "\<not> shouldStop s" and ok: "request_ok req" and small: "length params + 11 < 2 ^ 32"
  shows "rmc_onData s addr mv sub (encode_Request req (length params) @ params) =
    handle_request s addr mv sub req params"
proof -
  let ?d = "encode_Request req (length params) @ params"
  have "length (request_body req @ params) < 2 ^ 32" using small by (simp add: request_body_def)
  from message_prefix(3) [OF this] have "?d ! 4 = rq_protocolId req OR 0x80"
    unfolding encode_Request_message by (simp add: request_body_def)
  then have "\<not> is_response ?d"
    using request_protocol(2) ok by (simp add: is_response_def request_ok_def)
  then show ?thesis
    using assms(1) decode_Request_encode [OF ok small] by (simp add: rmc_onData_def)
qed

text \<open>The error a client is sent is for its call, with its failure code.\<close>

lemma error_response_decodes:
  assumes "request_ok req" and "\<not> shouldStop s"
    and "out = sendResponse s (error_client s addr mv sub) (createError req err) []"
  shows "\<exists>d. out = [(addr, d, sub)] \<and>
    decode_Response d = Inr (seen_response (createError req err), [])"
  using assms decode_Response_encode [of "createError req err" "[]"]
  by (simp add: sendResponse_def error_client_def createError_def request_ok_def)

end
