(* ===== verification/Structures.thy ===== *)
theory Structures
  imports Codec
begin

text \<open>
  The versioned header of \<^verbatim>\<open>Structure\<close> and the small structures of \<^verbatim>\<open>src/nex/types/common\<close>:
  \<^verbatim>\<open>Data\<close>, \<^verbatim>\<open>Result\<close>, \<^verbatim>\<open>ResultRange\<close>, \<^verbatim>\<open>AnyDataHolder\<close>, and \<^verbatim>\<open>AuthenticationInfo\<close> of
  \<^verbatim>\<open>src/nex/types/auth\<close>. A structure carries the minor version of the connection; below version 3
  the wire has no header.
\<close>

section \<open>The structure header\<close>

definition encodeHeader :: "u8 \<Rightarrow> u8 \<Rightarrow> u32 \<Rightarrow> bytes" where
  "encodeHeader mv version len = (if mv < 3 then [] else version # le_bytes 4 len)"

definition decodeHeader :: "u8 \<Rightarrow> u8 \<Rightarrow> bytes \<Rightarrow> nat result" where
  "decodeHeader mv expected d =
     (if mv < 3 then Inr 0
      else if length d < 5 then Inl MalformedException
      else if d ! 0 \<noteq> expected then Inl MalformedException
      else if length d < unat (le_word (slice d 1 4) :: u32) + 5 then Inl MalformedException
      else Inr 5)"

text \<open>The body of a structure behind its header; \<^verbatim>\<open>data.size()\<close> is truncated to 32 bits.\<close>

definition with_header :: "u8 \<Rightarrow> u8 \<Rightarrow> bytes \<Rightarrow> bytes" where
  "with_header mv version body = encodeHeader mv version (of_nat (length body)) @ body"

lemma decodeHeader_encodeHeader:
  "unat len \<le> length r \<Longrightarrow>
   decodeHeader mv version (encodeHeader mv version len @ r) = Inr (length (encodeHeader mv version len))"
  by (simp add: decodeHeader_def encodeHeader_def slice_def)

lemma decodeHeader_within: "decodeHeader mv version d = Inr n \<Longrightarrow> n \<le> length d"
  by (auto simp: decodeHeader_def split: if_splits)

lemma decodeHeader_defined [simp]: "decodeHeader mv version d \<noteq> Inl UndefinedAccess"
  by (simp add: decodeHeader_def)

text \<open>
  A header in front of a structure's fields: the decoder finds it and leaves the position at the
  first field. The announced length only has to fit in what follows.
\<close>

lemma header_step:
  assumes "rest_at d 0 (encodeHeader mv version len @ r)" and "unat len \<le> length r"
    and "rest_at d (length (encodeHeader mv version len)) r \<Longrightarrow>
      f (length (encodeHeader mv version len)) = R"
  shows "bindE (decodeHeader mv version d) f = R"
proof -
  have d: "d = encodeHeader mv version len @ r" using assms(1) by simp
  show ?thesis
    using assms(3) rest_at_append [OF assms(1)] decodeHeader_encodeHeader [OF assms(2), of mv version]
    unfolding d by (simp only: bindE_simps add_0)
qed

lemma unat_of_nat_length: "unat (of_nat n :: 'a::len word) \<le> n"
  by (metis of_nat_le_iff of_nat_unat unsigned_of_nat take_bit_nat_less_eq_self)

lemma with_header_step:
  assumes "rest_at d 0 (with_header mv version body @ r)"
    and "rest_at d (length (encodeHeader mv version (of_nat (length body)))) (body @ r) \<Longrightarrow>
      f (length (encodeHeader mv version (of_nat (length body)))) = R"
  shows "bindE (decodeHeader mv version d) f = R"
  by (rule header_step [where len = "of_nat (length body)" and r = "body @ r"])
     (use assms in \<open>auto simp: with_header_def intro: le_trans [OF unat_of_nat_length]\<close>)

lemma length_with_header:
  "length (with_header mv version body) =
     length (encodeHeader mv version (of_nat (length body))) + length body"
  by (simp add: with_header_def)

text \<open>The same for a header that stands behind a parent's fields.\<close>

definition header_at :: "u8 \<Rightarrow> u8 \<Rightarrow> bytes \<Rightarrow> nat \<Rightarrow> nat result" where
  "header_at mv version d pos =
     bindE (subspan d pos) (\<lambda>s. bindE (decodeHeader mv version s) (\<lambda>n. Inr (pos + n)))"

lemma with_header_at_step:
  assumes "rest_at d pos (with_header mv version body @ r)"
    and "rest_at d (pos + length (encodeHeader mv version (of_nat (length body)))) (body @ r) \<Longrightarrow>
      f (pos + length (encodeHeader mv version (of_nat (length body)))) = R"
  shows "bindE (header_at mv version d pos) f = R"
proof -
  let ?h = "encodeHeader mv version (of_nat (length body))"
  have sub: "subspan d pos = Inr (?h @ body @ r)"
    using assms(1) by (simp add: subspan_def rest_at_def with_header_def)
  have "decodeHeader mv version (?h @ body @ r) = Inr (length ?h)"
    by (rule decodeHeader_encodeHeader) (simp add: le_trans [OF unat_of_nat_length])
  moreover have "rest_at d (pos + length ?h) (body @ r)"
    using assms(1) by (intro rest_at_append) (simp add: with_header_def)
  ultimately show ?thesis using assms(2) by (simp add: header_at_def sub)
qed

lemma safe_header:
  "(\<And>n. n \<le> length d \<Longrightarrow> safe_run d (f n)) \<Longrightarrow> safe_run d (bindE (decodeHeader mv version d) f)"
  by (cases "decodeHeader mv version d")
     (auto dest: decodeHeader_within simp: safe_run_def intro: decodeHeader_defined [THEN notE])

lemma safe_header_at:
  assumes "pos \<le> length d" and "\<And>n. n \<le> length d \<Longrightarrow> safe_run d (f n)"
  shows "safe_run d (bindE (header_at mv version d pos) f)"
proof (cases "decodeHeader mv version (drop pos d)")
  case (Inl e)
  then have "e \<noteq> UndefinedAccess" using decodeHeader_defined by metis
  with Inl show ?thesis using assms(1) by (simp add: header_at_def subspan_def)
next
  case (Inr n)
  then have "pos + n \<le> length d" using decodeHeader_within [OF Inr] assms(1) by simp
  with Inr show ?thesis using assms by (simp add: header_at_def subspan_def)
qed

text \<open>The rules that step over one field, one per type of field.\<close>

lemmas safe_steps =
  safe_header safe_header_at
  u8_codec.safe_field u16_codec.safe_field u32_codec.safe_field u64_codec.safe_field
  bool_codec.safe_field string_codec.safe_field buffer_codec.safe_field qbuffer_codec.safe_field
  u32_list_codec.safe_field string_list_codec.safe_field

lemmas field_steps =
  u8_codec.dec_field u16_codec.dec_field u32_codec.dec_field u64_codec.dec_field
  bool_codec.dec_field string_codec.dec_field buffer_codec.dec_field qbuffer_codec.dec_field
  u32_list_codec.dec_field string_list_codec.dec_field

section \<open>Data, Result and ResultRange\<close>

definition encode_Data :: "u8 \<Rightarrow> bytes" where
  "encode_Data mv = encodeHeader mv 0 0"

definition decode_Data :: "u8 \<Rightarrow> bytes \<Rightarrow> nat result" where
  "decode_Data mv d = decodeHeader mv 0 d"

text \<open>
  \<^verbatim>\<open>Result\<close>: an error code of \<^verbatim>\<open>src/nex/rmc/errors.hpp\<close> whose top bit on the wire says failure.
\<close>

record rmc_result =
  res_code :: u32
  res_success :: bool

definition encode_Result :: "rmc_result \<Rightarrow> bytes" where
  "encode_Result r = le_bytes 4 (res_code r OR (if res_success r then 0 else 0x80000000))"

definition decode_Result :: "rmc_result decoder" where
  "decode_Result d =
     (if length d < 4 then Inl MalformedException
      else let v = (le_word (take 4 d) :: u32)
           in Inr (\<lparr>res_code = v AND 0x7FFFFFFF, res_success = (v AND 0x80000000 = 0)\<rparr>, 4))"

definition result_ok :: "rmc_result \<Rightarrow> bool" where
  "result_ok r \<longleftrightarrow> res_code r AND 0x80000000 = 0"

lemma mask31:
  "(c :: u32) AND 0x80000000 = 0 \<Longrightarrow> c AND 0x7FFFFFFF = c"
  "((c :: u32) OR 0x80000000) AND 0x7FFFFFFF = c AND 0x7FFFFFFF"
  "((c :: u32) OR 0x80000000) AND 0x80000000 = 0x80000000"
proof -
  have ones: "(0x80000000 OR 0x7FFFFFFF :: u32) = - 1" by simp
  have split: "c = (c AND 0x80000000) OR (c AND 0x7FFFFFFF)" for c :: u32
    by (simp only: ones and.right_neutral flip: bit.conj_disj_distrib)
  show "c AND 0x80000000 = 0 \<Longrightarrow> c AND 0x7FFFFFFF = c"
    using split [of c] by simp
qed (simp_all add: bit.conj_disj_distrib2)

interpretation result_codec: safe_codec encode_Result decode_Result result_ok
proof unfold_locales
  fix x rest assume ok: "result_ok x"
  then show "decode_Result (encode_Result x @ rest) = Inr (x, length (encode_Result x))"
    by (cases x) (auto simp: decode_Result_def encode_Result_def result_ok_def Let_def mask31)
qed (auto simp: consumes_within_def never_undefined_def decode_Result_def Let_def split: if_splits)

record ResultRange =
  rr_offset :: u32
  rr_length :: u32

definition encode_ResultRange :: "u8 \<Rightarrow> ResultRange \<Rightarrow> bytes" where
  "encode_ResultRange mv r =
     with_header mv 0 (encode_int (rr_offset r) @ encode_int (rr_length r))"

definition decode_ResultRange :: "u8 \<Rightarrow> ResultRange decoder" where
  "decode_ResultRange mv d =
     bindE (decodeHeader mv 0 d) (\<lambda>size.
     bindE (dec_at decode_int d size) (\<lambda>(off, size).
     bindE (dec_at decode_int d size) (\<lambda>(len, size).
     Inr (\<lparr>rr_offset = off, rr_length = len\<rparr>, size))))"

lemma ResultRange_roundtrip:
  "decode_ResultRange mv (encode_ResultRange mv r @ rest) = Inr (r, length (encode_ResultRange mv r))"
proof -
  define d where "d = encode_ResultRange mv r @ rest"
  have "rest_at d 0 (encode_ResultRange mv r @ rest)" by (simp add: d_def)
  then have "decode_ResultRange mv d = Inr (r, length (encode_ResultRange mv r))"
    unfolding decode_ResultRange_def encode_ResultRange_def
    apply (elim with_header_step)
    apply (simp only: append_assoc prod.case)
    apply ((erule field_steps, (rule TrueI | assumption), simp only: prod.case)+)
    apply (simp add: length_with_header)
    done
  then show ?thesis by (simp add: d_def)
qed

section \<open>AnyDataHolder\<close>

record AnyDataHolder =
  adh_type :: string
  adh_data :: bytes

definition encode_AnyDataHolder :: "AnyDataHolder \<Rightarrow> bytes" where
  "encode_AnyDataHolder a =
     encode_string (adh_type a)
     @ le_bytes 4 (of_nat (length (adh_data a) + 4) :: u32)
     @ le_bytes 4 (of_nat (length (adh_data a)) :: u32)
     @ adh_data a"

text \<open>
  The inner length is read at \<open>typeLength + 4\<close> after checking only that \<open>dataLength\<close> bytes are
  there: with \<open>dataLength < 4\<close> that read can pass the end of the input.
\<close>

definition decode_AnyDataHolder :: "AnyDataHolder decoder" where
  "decode_AnyDataHolder d =
     bindE (decode_string d) (\<lambda>(ty, typeLength).
       if length d < typeLength + 4 then Inl MalformedException
       else let dataLength = unat (le_word (slice d typeLength 4) :: u32)
            in if length d < typeLength + dataLength + 4 then Inl MalformedException
               else if length d < typeLength + 8 then Inl UndefinedAccess
               else let len = unat (le_word (slice d (typeLength + 4) 4) :: u32)
                    in if dataLength \<noteq> len + 4 then Inl MalformedException
                       else Inr (\<lparr>adh_type = ty, adh_data = slice d (typeLength + 8) len\<rparr>,
                                 typeLength + dataLength + 4))"

definition AnyDataHolder_ok :: "AnyDataHolder \<Rightarrow> bool" where
  "AnyDataHolder_ok a \<longleftrightarrow> string_ok (adh_type a) \<and> length (adh_data a) + 4 < 2 ^ 32"

lemma decode_AnyDataHolder_encode:
  assumes "AnyDataHolder_ok a"
  shows "decode_AnyDataHolder (encode_AnyDataHolder a @ rest) = Inr (a, length (encode_AnyDataHolder a))"
proof -
  let ?n = "length (adh_data a)" and ?t = "length (encode_string (adh_type a))"
  let ?d = "encode_AnyDataHolder a @ rest"
  have n: "unat (of_nat (?n + 4) :: u32) = ?n + 4" "unat (of_nat ?n :: u32) = ?n"
    using assms unat_of_nat [of "?n + 4", where ?'a = 32] unat_of_nat [of ?n, where ?'a = 32]
    by (simp_all add: AnyDataHolder_ok_def del: of_nat_add)
  have ty: "decode_string ?d = Inr (adh_type a, ?t)"
    unfolding encode_AnyDataHolder_def append_assoc
    by (rule string_codec.roundtrip) (use assms in \<open>simp add: AnyDataHolder_ok_def\<close>)
  have dl: "slice ?d ?t 4 = le_bytes 4 (of_nat (?n + 4) :: u32)"
    and il: "slice ?d (?t + 4) 4 = le_bytes 4 (of_nat ?n :: u32)"
    and dat: "slice ?d (?t + 8) ?n = adh_data a"
    and len: "length ?d = ?t + 8 + ?n + length rest"
    by (simp_all add: encode_AnyDataHolder_def slice_def)
  show ?thesis
    unfolding decode_AnyDataHolder_def ty bindE_simps prod.case dl il
      le_word_le_bytes_word n Let_def len dat
    by (simp add: encode_AnyDataHolder_def dat)
qed

interpretation adh_codec: wire_codec encode_AnyDataHolder decode_AnyDataHolder AnyDataHolder_ok
  by unfold_locales (rule decode_AnyDataHolder_encode)

lemma decode_AnyDataHolder_within: "consumes_within decode_AnyDataHolder"
  using string_codec.within
  by (fastforce simp: consumes_within_def decode_AnyDataHolder_def bindE_eq_Inr_iff Let_def split: if_splits)

section \<open>AuthenticationInfo\<close>

record AuthenticationInfo =
  authToken :: string
  ai_version :: u32
  tokenType :: u8
  serverVersion :: u32

definition encode_AuthenticationInfo :: "u8 \<Rightarrow> AuthenticationInfo \<Rightarrow> bytes" where
  "encode_AuthenticationInfo mv a =
     encode_Data mv @
     with_header mv 0 (encode_string (authToken a) @ encode_int (ai_version a)
       @ encode_int (tokenType a) @ encode_int (serverVersion a))"

text \<open>The size returned does not count the parent's header.\<close>

definition decode_AuthenticationInfo :: "u8 \<Rightarrow> AuthenticationInfo decoder" where
  "decode_AuthenticationInfo mv d0 =
     bindE (decode_Data mv d0) (\<lambda>parentSize.
     bindE (subspan d0 parentSize) (\<lambda>d.
     bindE (decodeHeader mv 0 d) (\<lambda>size.
     bindE (dec_at decode_string d size) (\<lambda>(tok, size).
     bindE (dec_at decode_int d size) (\<lambda>(ver, size).
     bindE (dec_at decode_int d size) (\<lambda>(tt, size).
     bindE (dec_at decode_int d size) (\<lambda>(sv, size).
     Inr (\<lparr>authToken = tok, ai_version = ver, tokenType = tt, serverVersion = sv\<rparr>, size))))))))"

lemma AuthenticationInfo_decode_encode:
  assumes "string_ok (authToken a)"
  shows "decode_AuthenticationInfo mv (encode_AuthenticationInfo mv a @ rest) =
         Inr (a, length (encode_AuthenticationInfo mv a) - length (encode_Data mv))"
proof -
  define d where "d = drop (length (encode_Data mv)) (encode_AuthenticationInfo mv a @ rest)"
  have parent: "decode_Data mv (encode_AuthenticationInfo mv a @ rest) = Inr (length (encode_Data mv))"
    by (simp add: decode_Data_def encode_Data_def encode_AuthenticationInfo_def decodeHeader_encodeHeader)
  have sub: "subspan (encode_AuthenticationInfo mv a @ rest) (length (encode_Data mv)) = Inr d"
    by (simp add: subspan_def d_def encode_AuthenticationInfo_def)
  have body: "rest_at d 0 (with_header mv 0 (encode_string (authToken a) @ encode_int (ai_version a)
      @ encode_int (tokenType a) @ encode_int (serverVersion a)) @ rest)"
    by (simp add: d_def encode_AuthenticationInfo_def)
  show ?thesis
    unfolding decode_AuthenticationInfo_def parent bindE_simps sub
    using body assms
    apply (elim with_header_step)
    apply (simp only: append_assoc prod.case)
    apply ((erule field_steps, (rule TrueI | assumption), simp only: prod.case)+)
    apply (simp add: encode_AuthenticationInfo_def length_with_header)
    done
qed

end
