(* ===== verification/Datetime.thy ===== *)
theory Datetime
  imports Codec
begin

text \<open>
  \<^verbatim>\<open>nex::rmc::Datetime\<close> (\<^verbatim>\<open>src/nex/types/common/datetime.hpp\<close>): a point in time packed into the bit
  fields of a 64-bit word. A \<^verbatim>\<open>time_point\<close> is the number of nanoseconds since the epoch; the
  overflow of its 64-bit representation is not modelled. The proleptic Gregorian calendar of
  \<^verbatim>\<open>std::chrono\<close> (\<^verbatim>\<open>year_month_day\<close> and \<^verbatim>\<open>sys_days\<close>) is written out on unbounded integers. For a
  month outside 1..12 the standard leaves \<^verbatim>\<open>sys_days\<close> unspecified: the model uses the same formula.
\<close>

section \<open>The calendar\<close>

type_synonym time_point = int

definition days_from_civil :: "int \<Rightarrow> int \<Rightarrow> int \<Rightarrow> int" where
  "days_from_civil y0 m d =
     (let y = (if m \<le> 2 then y0 - 1 else y0);
          era = y div 400;
          yoe = y mod 400;
          doy = (153 * (if m > 2 then m - 3 else m + 9) + 2) div 5 + d - 1;
          doe = yoe * 365 + yoe div 4 - yoe div 100 + doy
      in era * 146097 + doe - 719468)"

definition year_of_era :: "int \<Rightarrow> int" where
  "year_of_era doe = (doe - doe div 1460 + doe div 36524 - doe div 146096) div 365"

definition civil_from_days :: "int \<Rightarrow> int \<times> int \<times> int" where
  "civil_from_days z0 =
     (let z = z0 + 719468;
          era = z div 146097;
          doe = z mod 146097;
          yoe = year_of_era doe;
          doy = doe - (365 * yoe + yoe div 4 - yoe div 100);
          mp = (5 * doy + 2) div 153;
          d = doy - (153 * mp + 2) div 5 + 1;
          m = (if mp < 10 then mp + 3 else mp - 9)
      in (if m \<le> 2 then yoe + era * 400 + 1 else yoe + era * 400, m, d))"

text \<open>The first day of a year within its 400-year era, and the adjusted day count it is found by.\<close>

definition year_start :: "int \<Rightarrow> int" where
  "year_start q = 365 * q + q div 4 - q div 100"

definition day_count :: "int \<Rightarrow> int" where
  "day_count doe = doe - doe div 1460 + doe div 36524 - doe div 146096"

lemma div_bounds:
  fixes a c :: int
  assumes "0 < c"
  shows "c * (a div c) \<le> a" and "a < c * (a div c) + c"
  using assms pos_mod_bound [of c a] pos_mod_sign [of c a] mult_div_mod_eq [of c a] by linarith+

lemma day_count_mono:
  assumes "0 \<le> a" and "a \<le> b" and "b < 146097"
  shows "day_count a \<le> day_count b"
proof (cases "a = b")
  case False
  with assms have lt: "a < b" by simp
  have "B - A \<le> b - a" if "a < 1460 * A + 1460" "1460 * B \<le> b" for A B :: int
    using that lt by linarith
  then have s: "b div 1460 - a div 1460 \<le> b - a"
    using div_bounds(2) [of 1460 a] div_bounds(1) [of 1460 b] zero_less_numeral by blast
  have c: "b div 146096 - a div 146096 \<le> b div 36524 - a div 36524"
  proof (cases "b = 146096")
    case True
    with lt assms have "a \<le> 146095" by simp
    then have "a div 36524 \<le> 3" "a div 146096 = 0"
      using assms(1) zdiv_mono1 [of a 146095 36524] by simp_all
    with True show ?thesis by simp
  next
    case False
    with assms lt have "b div 146096 = 0" "a div 146096 = 0" by simp_all
    moreover have "a div 36524 \<le> b div 36524" using lt by (intro zdiv_mono1) simp_all
    ultimately show ?thesis by simp
  qed
  have "a - A + B - C \<le> b - A' + B' - C'"
    if "A' - A \<le> b - a" "C' - C \<le> B' - B" for A B C A' B' C' :: int
    using that by linarith
  from this [OF s c] show ?thesis unfolding day_count_def .
qed simp

text \<open>The count brackets every year of the era: one evaluation per year.\<close>

definition year_brackets :: "int \<Rightarrow> bool" where
  "year_brackets q \<longleftrightarrow>
     365 * q \<le> day_count (year_start q) \<and>
     day_count (year_start (q + 1) - 1) < 365 * (q + 1)"

lemma year_brackets_all: "list_all year_brackets [0..399]"
  by code_simp

lemma year_brackets: "0 \<le> q \<Longrightarrow> q < 400 \<Longrightarrow> year_brackets q"
  using year_brackets_all by (simp add: list_all_iff)

lemma year_start_mono: "p \<le> q \<Longrightarrow> year_start p \<le> year_start q"
  using zdiv_mono1 [of p q 4] div_bounds [of 100 p] div_bounds [of 100 q]
  by (cases "p = q") (simp_all add: year_start_def)

lemma year_of_era_bounds:
  assumes "0 \<le> doe" and "doe < 146097"
  shows "0 \<le> year_of_era doe" and "year_of_era doe < 400"
    and "year_start (year_of_era doe) \<le> doe"
    and "doe \<le> year_start (year_of_era doe) + 365"
proof -
  let ?q = "year_of_era doe"
  have q: "?q = day_count doe div 365" by (simp add: year_of_era_def day_count_def)
  have "day_count 0 \<le> day_count doe" "day_count doe \<le> day_count 146096"
    using assms by (auto intro!: day_count_mono)
  then have g: "0 \<le> day_count doe" "day_count doe \<le> 145999"
    by (simp_all add: day_count_def)
  then show lo: "0 \<le> ?q" and hi: "?q < 400" by (simp_all add: q)
  have rem: "365 * ?q \<le> day_count doe" "day_count doe < 365 * (?q + 1)"
    using g by (simp_all add: q)
  show "year_start ?q \<le> doe"
  proof (rule ccontr)
    assume "\<not> year_start ?q \<le> doe"
    then have lt: "doe \<le> year_start ?q - 1" by simp
    have "1 \<le> ?q"
    proof (rule ccontr)
      assume "\<not> 1 \<le> ?q"
      with lo have "?q = 0" by simp
      with lt assms(1) show False by (simp add: year_start_def)
    qed
    then have "day_count (year_start ?q - 1) < 365 * ?q"
      using year_brackets [of "?q - 1"] hi by (simp add: year_brackets_def)
    moreover have "year_start ?q - 1 < 146097"
      using hi lo by (simp add: year_start_def)
    ultimately show False
      using day_count_mono [OF assms(1) lt] rem by simp
  qed
  show "doe \<le> year_start ?q + 365"
  proof (cases "?q = 399")
    case True
    then show ?thesis using assms by (simp add: year_start_def)
  next
    case False
    with hi have lt: "?q + 1 < 400" by simp
    have "doe < year_start (?q + 1)"
    proof (rule ccontr)
      assume "\<not> doe < year_start (?q + 1)"
      then have le: "year_start (?q + 1) \<le> doe" by simp
      have "0 \<le> year_start (?q + 1)"
        using lo year_start_mono [of 0 "?q + 1"] by (simp add: year_start_def)
      from day_count_mono [OF this le assms(2)]
      have "365 * (?q + 1) \<le> day_count doe"
        using year_brackets [of "?q + 1"] lo lt by (simp add: year_brackets_def)
      with rem show False by simp
    qed
    moreover have "year_start (?q + 1) \<le> year_start ?q + 366"
      using div_bounds [of 4 ?q] div_bounds [of 4 "?q + 1"] zdiv_mono1 [of ?q "?q + 1" 100]
      by (simp add: year_start_def)
    ultimately show ?thesis by simp
  qed
qed

lemma month_of_day:
  fixes doy :: int
  assumes "0 \<le> doy" and "doy \<le> 365"
  defines "mp \<equiv> (5 * doy + 2) div 153"
  shows "0 \<le> mp" and "mp \<le> 11"
    and "1 \<le> doy - (153 * mp + 2) div 5 + 1" and "doy - (153 * mp + 2) div 5 + 1 \<le> 31"
proof -
  let ?e = "(153 * mp + 2) div 5"
  have mp: "153 * mp \<le> 5 * doy + 2" "5 * doy + 2 < 153 * mp + 153"
    using div_bounds [of 153 "5 * doy + 2"] by (simp_all add: mp_def)
  have e: "5 * ?e \<le> 153 * mp + 2" "153 * mp + 2 < 5 * ?e + 5"
    using div_bounds [of 5 "153 * mp + 2"] by simp_all
  show "0 \<le> mp" "mp \<le> 11" "1 \<le> doy - ?e + 1" "doy - ?e + 1 \<le> 31"
    using assms(1,2) mp e by linarith+
qed

lemma civil_from_days_eq:
  fixes z :: int
  defines "doe \<equiv> (z + 719468) mod 146097"
  defines "doy \<equiv> doe - year_start (year_of_era doe)"
  defines "mp \<equiv> (5 * doy + 2) div 153"
  defines "mon \<equiv> (if mp < 10 then mp + 3 else mp - 9)"
  defines "yr \<equiv> year_of_era doe + (z + 719468) div 146097 * 400"
  shows "civil_from_days z =
    (if mon \<le> 2 then yr + 1 else yr, mon, doy - (153 * mp + 2) div 5 + 1)"
  unfolding civil_from_days_def Let_def mon_def yr_def mp_def doy_def doe_def year_start_def
  by (rule refl)

lemma civil_from_days_bounds:
  assumes "civil_from_days z = (y, m, d)"
  shows "1 \<le> m" and "m \<le> 12" and "1 \<le> d" and "d \<le> 31"
proof -
  let ?doe = "(z + 719468) mod 146097"
  define doy where "doy = ?doe - year_start (year_of_era ?doe)"
  define mp where "mp = (5 * doy + 2) div 153"
  have "0 \<le> doy" "doy \<le> 365" using year_of_era_bounds [of ?doe] by (simp_all add: doy_def)
  note b = month_of_day [OF this, folded mp_def]
  have "m = (if mp < 10 then mp + 3 else mp - 9)" and "d = doy - (153 * mp + 2) div 5 + 1"
    using assms [unfolded civil_from_days_eq, folded doy_def, folded mp_def]
    by (simp_all only: prod.inject)
  with b show "1 \<le> m" "m \<le> 12" "1 \<le> d" "d \<le> 31" by simp_all
qed

lemma civil_triple:
  "((if mon \<le> 2 then a else b), mon, e) = (y, m, d) \<Longrightarrow>
   y = (if m \<le> 2 then a else b) \<and> m = mon \<and> d = e" for mon :: int
  by auto

lemma days_from_civil_from_days:
  assumes "civil_from_days z = (y, m, d)"
  shows "days_from_civil y m d = z"
proof -
  define doe where "doe = (z + 719468) mod 146097"
  define era where "era = (z + 719468) div 146097"
  define yoe where "yoe = year_of_era doe"
  define doy where "doy = doe - year_start yoe"
  define mp where "mp = (5 * doy + 2) div 153"
  have "0 \<le> doe" "doe < 146097" by (simp_all add: doe_def)
  from year_of_era_bounds [OF this, folded yoe_def]
  have yoe: "0 \<le> yoe" "yoe < 400" and doy: "0 \<le> doy" "doy \<le> 365"
    by (simp_all add: doy_def)
  have mp: "0 \<le> mp" "mp \<le> 11" using month_of_day [OF doy] by (simp_all add: mp_def)
  note raw = assms [unfolded civil_from_days_eq, folded doe_def era_def, folded yoe_def,
      folded doy_def, folded mp_def]
  have eqs: "y = (if m \<le> 2 then yoe + era * 400 + 1 else yoe + era * 400) \<and>
      m = (if mp < 10 then mp + 3 else mp - 9) \<and> d = doy - (153 * mp + 2) div 5 + 1"
    using civil_triple [OF raw] .
  then have "y = (if m \<le> 2 then yoe + era * 400 + 1 else yoe + era * 400)" by (rule conjunct1)
  then have yr: "(if m \<le> 2 then y - 1 else y) = yoe + 400 * era"
    by (simp split: if_splits)
  have month: "(if m > 2 then m - 3 else m + 9) = mp" using eqs mp by simp
  have div_mod: "(yoe + 400 * era) div 400 = era" "(yoe + 400 * era) mod 400 = yoe"
    using yoe by simp_all
  have d: "(153 * mp + 2) div 5 + d - 1 = doy" using eqs by simp
  have "days_from_civil y m d = era * 146097 + (yoe * 365 + yoe div 4 - yoe div 100 + doy) - 719468"
    unfolding days_from_civil_def Let_def yr month div_mod d by (rule refl)
  also have "yoe * 365 + yoe div 4 - yoe div 100 + doy = doe"
    by (simp only: doy_def year_start_def mult.commute [of yoe])
  also have "era * 146097 + doe - 719468 = z"
    unfolding era_def doe_def div_mult_mod_eq by simp
  finally show ?thesis .
qed

section \<open>The wire format\<close>

abbreviation ns_per_sec :: int where "ns_per_sec \<equiv> 1000000000"
abbreviation ns_per_day :: int where "ns_per_day \<equiv> 86400000000000"

definition pack_datetime :: "int \<Rightarrow> int \<Rightarrow> int \<Rightarrow> int \<Rightarrow> int \<Rightarrow> int \<Rightarrow> u64" where
  "pack_datetime y mo d h mi s =
     push_bit 26 (word_of_int y) OR push_bit 22 (word_of_int mo) OR push_bit 17 (word_of_int d)
     OR push_bit 12 (word_of_int h) OR push_bit 6 (word_of_int mi) OR word_of_int s"

definition encode_Datetime :: "time_point \<Rightarrow> bytes" where
  "encode_Datetime t =
     (case civil_from_days (t div ns_per_day) of (y, mo, d) \<Rightarrow>
        let sec = (t mod ns_per_day) div ns_per_sec
        in le_bytes 8 (pack_datetime y mo d (sec div 3600) (sec div 60 mod 60) (sec mod 60)))"

text \<open>The year is converted to \<^verbatim>\<open>int\<close> and stored in the 16 bits of \<^verbatim>\<open>std::chrono::year\<close>.\<close>

definition decode_Datetime :: "time_point decoder" where
  "decode_Datetime data =
     (if length data < 8 then Inl MalformedException
      else let w = (le_word (take 8 data) :: u64);
               year = sint (ucast (drop_bit 26 w) :: 16 word);
               month = uint (drop_bit 22 w AND 15);
               day = uint (drop_bit 17 w AND 31);
               hour = uint (drop_bit 12 w AND 31);
               minute = uint (drop_bit 6 w AND 63);
               second = uint (w AND 63)
           in Inr (days_from_civil year month day * ns_per_day
                   + (hour * 3600 + minute * 60 + second) * ns_per_sec, 8))"

lemma length_encode_Datetime [simp]: "length (encode_Datetime t) = 8"
  by (simp add: encode_Datetime_def Let_def split: prod.splits)

text \<open>A word below \<open>2 ^ n\<close> has no bit from \<open>n\<close> on.\<close>

lemma no_high_bits: "0 \<le> k \<Longrightarrow> k < 2 ^ n \<Longrightarrow> n \<le> i \<Longrightarrow> \<not> bit (word_of_int k :: u64) i"
proof
  assume k: "0 \<le> k" "k < 2 ^ n" and "n \<le> i" and b: "bit (word_of_int k :: u64) i"
  then have "bit k i" by (simp add: bit_word_of_int_iff)
  moreover have "take_bit n k = k" using k by (simp add: take_bit_int_eq_self)
  ultimately show False using \<open>n \<le> i\<close> by (metis bit_take_bit_iff leD)
qed

lemma field_masks: "(15 :: u64) = mask 4" "(31 :: u64) = mask 5" "(63 :: u64) = mask 6"
  by (simp_all add: mask_eq_exp_minus_1)

definition fields_ok :: "int \<Rightarrow> int \<Rightarrow> int \<Rightarrow> int \<Rightarrow> int \<Rightarrow> bool" where
  "fields_ok mo d h mi s \<longleftrightarrow>
     0 \<le> mo \<and> mo < 2 ^ 4 \<and> 0 \<le> d \<and> d < 2 ^ 5 \<and> 0 \<le> h \<and> h < 2 ^ 5 \<and>
     0 \<le> mi \<and> mi < 2 ^ 6 \<and> 0 \<le> s \<and> s < 2 ^ 6"

lemma fields_high_bits:
  assumes "fields_ok mo d h mi s"
  shows "bit (word_of_int mo :: u64) i \<Longrightarrow> i < 4" "bit (word_of_int d :: u64) i \<Longrightarrow> i < 5"
    "bit (word_of_int h :: u64) i \<Longrightarrow> i < 5" "bit (word_of_int mi :: u64) i \<Longrightarrow> i < 6"
    "bit (word_of_int s :: u64) i \<Longrightarrow> i < 6"
  using assms unfolding fields_ok_def by (meson no_high_bits not_le)+

lemmas pack_bits = pack_datetime_def bit_or_iff bit_and_iff bit_drop_bit_eq bit_push_bit_iff
  bit_mask_iff field_masks comp_def

lemma unpack_words:
  assumes "fields_ok mo d h mi s"
  shows "drop_bit 22 (pack_datetime y mo d h mi s) AND 15 = word_of_int mo"
    and "drop_bit 17 (pack_datetime y mo d h mi s) AND 31 = word_of_int d"
    and "drop_bit 12 (pack_datetime y mo d h mi s) AND 31 = word_of_int h"
    and "drop_bit 6 (pack_datetime y mo d h mi s) AND 63 = word_of_int mi"
    and "pack_datetime y mo d h mi s AND 63 = word_of_int s"
  by (rule bit_word_eqI; simp only: pack_bits; auto dest: fields_high_bits [OF assms])+

lemma bit_year: "i < 16 \<Longrightarrow> bit (word_of_int y :: u64) i = bit (word_of_int y :: 16 word) i"
  by (simp add: bit_word_of_int_iff)

lemma unpack_year:
  assumes "fields_ok mo d h mi s"
  shows "ucast (drop_bit 26 (pack_datetime y mo d h mi s)) = (word_of_int y :: 16 word)"
  by (rule bit_word_eqI; simp only: pack_bits bit_ucast_iff;
      auto simp: bit_year dest: fields_high_bits [OF assms])

text \<open>The time of day of a \<open>time_point\<close>, to whole seconds, and its clock fields.\<close>

definition second_of_day :: "time_point \<Rightarrow> int" where
  "second_of_day t = (t mod ns_per_day) div ns_per_sec"

lemma second_of_day_bounds: "0 \<le> second_of_day t" "second_of_day t < 86400"
proof -
  have "0 \<le> t mod ns_per_day" "t mod ns_per_day < ns_per_day" by simp_all
  then show "0 \<le> second_of_day t" "second_of_day t < 86400"
    using zdiv_mono1 [of 0 "t mod ns_per_day" ns_per_sec]
      zdiv_mono1 [of "t mod ns_per_day" "ns_per_day - 1" ns_per_sec]
    by (simp_all add: second_of_day_def)
qed

lemma clock_fields:
  fixes sec :: int
  assumes "0 \<le> sec" and "sec < 86400"
  shows "0 \<le> sec div 3600" and "sec div 3600 < 24"
    and "0 \<le> sec div 60 mod 60" and "sec div 60 mod 60 < 60"
    and "0 \<le> sec mod 60" and "sec mod 60 < 60"
    and "sec div 3600 * 3600 + sec div 60 mod 60 * 60 + sec mod 60 = sec"
proof -
  show "0 \<le> sec div 3600" "sec div 3600 < 24"
    using assms zdiv_mono1 [of 0 sec 3600] zdiv_mono1 [of sec 86399 3600] by simp_all
  have "sec div 3600 = sec div 60 div 60" using zdiv_zmult2_eq [of 60 sec 60] by simp
  then have "sec div 3600 * 3600 + sec div 60 mod 60 * 60 =
      (sec div 60 div 60 * 60 + sec div 60 mod 60) * 60"
    by (simp only: distrib_right)
  then show "sec div 3600 * 3600 + sec div 60 mod 60 * 60 + sec mod 60 = sec"
    by (simp only: div_mult_mod_eq)
qed simp_all

lemma second_split:
  "t div ns_per_day * ns_per_day + second_of_day t * ns_per_sec = t div ns_per_sec * ns_per_sec"
proof -
  have "t div ns_per_sec = (t div ns_per_day * ns_per_day + t mod ns_per_day) div ns_per_sec"
    by simp
  also have "\<dots> = t div ns_per_day * 86400 + second_of_day t"
    unfolding second_of_day_def
    using div_mult_self3 [of ns_per_sec "t div ns_per_day * 86400" "t mod ns_per_day"]
    by (simp add: algebra_simps)
  finally show ?thesis by (simp add: algebra_simps)
qed

text \<open>
  A time whose year fits the wire comes back as the same second: the encoding drops the fraction.
\<close>

definition year_of :: "time_point \<Rightarrow> int" where
  "year_of t = fst (civil_from_days (t div ns_per_day))"

definition datetime_ok :: "time_point \<Rightarrow> bool" where
  "datetime_ok t \<longleftrightarrow> 0 \<le> year_of t \<and> year_of t < 32768"

lemma sint_word_of_int_year:
  assumes "0 \<le> y" and "y < 32768"
  shows "sint (word_of_int y :: 16 word) = y"
  using assms by (simp add: signed_of_int signed_take_bit_int_eq_self)

lemma uint_word_of_int_small:
  "0 \<le> k \<Longrightarrow> k < 64 \<Longrightarrow> uint (word_of_int k :: u64) = k"
  by (simp add: unsigned_of_int take_bit_int_eq_self)

lemma decode_encode_Datetime:
  assumes "datetime_ok t"
  shows "decode_Datetime (encode_Datetime t @ rest) = Inr (t div ns_per_sec * ns_per_sec, 8)"
proof -
  obtain y mo d where civil: "civil_from_days (t div ns_per_day) = (y, mo, d)"
    by (metis prod_cases3)
  define sec where "sec = second_of_day t"
  define h mi s where "h = sec div 3600" and "mi = sec div 60 mod 60" and "s = sec mod 60"
  have y: "0 \<le> y" "y < 32768" using assms by (simp_all add: datetime_ok_def year_of_def civil)
  have md: "1 \<le> mo" "mo \<le> 12" "1 \<le> d" "d \<le> 31" by (rule civil_from_days_bounds [OF civil])+
  have hms: "0 \<le> h" "h < 24" "0 \<le> mi" "mi < 60" "0 \<le> s" "s < 60"
    and sum: "h * 3600 + mi * 60 + s = sec"
    using clock_fields [OF second_of_day_bounds, of t] unfolding h_def mi_def s_def sec_def by simp_all
  have ok: "fields_ok mo d h mi s" using md hms by (simp add: fields_ok_def)
  have enc: "encode_Datetime t = le_bytes 8 (pack_datetime y mo d h mi s)"
    unfolding encode_Datetime_def civil prod.case Let_def h_def mi_def s_def sec_def second_of_day_def ..
  have "decode_Datetime (encode_Datetime t @ rest) =
      Inr (days_from_civil y mo d * ns_per_day + (h * 3600 + mi * 60 + s) * ns_per_sec, 8)"
    using md hms y
    by (simp add: decode_Datetime_def enc Let_def unpack_words [OF ok] unpack_year [OF ok]
        sint_word_of_int_year uint_word_of_int_small)
  then show ?thesis
    unfolding days_from_civil_from_days [OF civil] sum sec_def second_split .
qed

definition whole_seconds :: "time_point \<Rightarrow> bool" where
  "whole_seconds t \<longleftrightarrow> datetime_ok t \<and> t mod ns_per_sec = 0"

interpretation datetime_codec: safe_codec encode_Datetime decode_Datetime whole_seconds
proof unfold_locales
  fix x rest assume "whole_seconds x"
  then have "datetime_ok x" and "x div ns_per_sec * ns_per_sec = x"
    by (auto simp: whole_seconds_def)
  then show "decode_Datetime (encode_Datetime x @ rest) = Inr (x, length (encode_Datetime x))"
    by (simp only: decode_encode_Datetime length_encode_Datetime)
qed (auto simp: consumes_within_def never_undefined_def decode_Datetime_def Let_def split: if_splits)

end
