(* ===== verification/Params.thy ===== *)
theory Params
  imports Structures Datetime
begin

text \<open>
  \<^verbatim>\<open>Variant\<close>, \<^verbatim>\<open>Map\<close> (\<^verbatim>\<open>src/nex/types/common\<close>) and \<^verbatim>\<open>MatchmakeParam\<close>
  (\<^verbatim>\<open>src/nex/types/splatoonSecure/matchmakeParam.hpp\<close>). A \<^verbatim>\<open>std::map\<close> is an association list in
  ascending order of its keys. \<^verbatim>\<open>Map::encode\<close> passes the number of entries as the \<^verbatim>\<open>minorVersion\<close>
  argument of \<^verbatim>\<open>Int\<close>, so that the count on the wire is always 0, and \<^verbatim>\<open>Map::decode\<close> reads the
  entries from the start of its input, the count included: the model says both.
\<close>

section \<open>Variant\<close>

datatype Variant =
    VNone
  | VInt64 u64
  | VDouble u64
  | VBool bool
  | VString string
  | VDatetime time_point
  | VUInt64 u64

primrec encode_Variant :: "Variant \<Rightarrow> bytes" where
  "encode_Variant VNone = [0]"
| "encode_Variant (VInt64 i) = 1 # encode_int i"
| "encode_Variant (VDouble w) = 2 # encode_int w"
| "encode_Variant (VBool b) = 3 # encode_bool b"
| "encode_Variant (VString s) = 4 # encode_string s"
| "encode_Variant (VDatetime t) = 5 # encode_Datetime t"
| "encode_Variant (VUInt64 u) = 6 # encode_int u"

definition as_variant :: "('a \<Rightarrow> Variant) \<Rightarrow> 'a decoder \<Rightarrow> bytes \<Rightarrow> (Variant \<times> nat) result" where
  "as_variant con dec d =
     bindE (subspan d 1) (\<lambda>s. bindE (dec s) (\<lambda>(x, n). Inr (con x, n + 1)))"

definition decode_Variant :: "Variant decoder" where
  "decode_Variant d =
     (if d = [] then Inl MalformedException
      else if d ! 0 = 0 then Inr (VNone, 1)
      else if d ! 0 = 1 then as_variant VInt64 decode_int d
      else if d ! 0 = 2 then as_variant VDouble decode_int d
      else if d ! 0 = 3 then as_variant VBool decode_bool d
      else if d ! 0 = 4 then as_variant VString decode_string d
      else if d ! 0 = 5 then as_variant VDatetime decode_Datetime d
      else if d ! 0 = 6 then as_variant VUInt64 decode_int d
      else Inl MalformedException)"

primrec variant_ok :: "Variant \<Rightarrow> bool" where
  "variant_ok VNone = True"
| "variant_ok (VInt64 i) = True"
| "variant_ok (VDouble w) = True"
| "variant_ok (VBool b) = True"
| "variant_ok (VString s) = string_ok s"
| "variant_ok (VDatetime t) = whole_seconds t"
| "variant_ok (VUInt64 u) = True"

lemma as_variant_Cons [simp]:
  "as_variant con dec (b # s) = bindE (dec s) (\<lambda>(x, n). Inr (con x, n + 1))"
  by (simp add: as_variant_def subspan_def)

lemma safe_as_variant:
  assumes "consumes_within dec" and "never_undefined dec" and "d \<noteq> []"
  shows "safe_run d (as_variant con dec d)"
proof -
  obtain b s where d: "d = b # s" using assms(3) by (cases d) simp_all
  have "safe_run s (dec s)" using assms(1,2) safe_run_all by blast
  then show ?thesis
    by (cases "dec s") (auto simp: d safe_run_def split: prod.splits)
qed

interpretation variant_codec: safe_codec encode_Variant decode_Variant variant_ok
proof (unfold_locales)
  fix x rest assume "variant_ok x"
  then show "decode_Variant (encode_Variant x @ rest) = Inr (x, length (encode_Variant x))"
    by (cases x)
       (simp_all add: decode_Variant_def u64_codec.roundtrip encode_bool_def decode_bool_def
         string_codec.roundtrip datetime_codec.roundtrip)
next
  have "safe_run d (decode_Variant d)" for d
    unfolding decode_Variant_def
    by (auto intro!: safe_as_variant u64_codec.within u64_codec.defined bool_codec.within
        bool_codec.defined string_codec.within string_codec.defined datetime_codec.within
        datetime_codec.defined simp: Suc_le_eq)
  then show "consumes_within decode_Variant" "never_undefined decode_Variant"
    using safe_run_all by blast+
qed

section \<open>Map\<close>

text \<open>\<^verbatim>\<open>std::map::insert\<close>: an existing key keeps its value.\<close>

fun map_insert :: "'k::linorder \<Rightarrow> 'v \<Rightarrow> ('k \<times> 'v) list \<Rightarrow> ('k \<times> 'v) list" where
  "map_insert k v [] = [(k, v)]"
| "map_insert k v ((k', v') # m) =
     (if k < k' then (k, v) # (k', v') # m
      else if k = k' then (k', v') # m
      else (k', v') # map_insert k v m)"

definition encode_map :: "('k \<Rightarrow> bytes) \<Rightarrow> ('v \<Rightarrow> bytes) \<Rightarrow> ('k \<times> 'v) list \<Rightarrow> bytes" where
  "encode_map enck encv m =
     encode_int (0 :: u32) @ concat (map (\<lambda>(k, v). enck k @ encv v) m)"

primrec decode_entries ::
  "'k::linorder decoder \<Rightarrow> 'v decoder \<Rightarrow> nat \<Rightarrow> ('k \<times> 'v) list \<Rightarrow> bytes \<Rightarrow> (('k \<times> 'v) list \<times> nat) result"
where
  "decode_entries deck decv 0 m d = Inr (m, 0)"
| "decode_entries deck decv (Suc n) m d =
     bindE (deck d) (\<lambda>(k, kn).
     bindE (subspan d kn) (\<lambda>d'.
     bindE (decv d') (\<lambda>(v, vn).
     bindE (subspan d (kn + vn)) (\<lambda>d''.
     bindE (decode_entries deck decv n (map_insert k v m) d'') (\<lambda>(m', size).
     Inr (m', kn + vn + size))))))"

definition decode_map :: "'k::linorder decoder \<Rightarrow> 'v decoder \<Rightarrow> ('k \<times> 'v) list decoder" where
  "decode_map deck decv d =
     (if length d < 4 then Inl MalformedException
      else bindE (decode_int d) (\<lambda>(len :: u32, _).
           bindE (decode_entries deck decv (unat len) [] d) (\<lambda>(m, size).
           Inr (m, 4 + size))))"

lemma decode_map_encode_map:
  "decode_map deck decv (encode_map enck encv m @ rest) = Inr ([], 4)"
  by (simp add: decode_map_def encode_map_def u32_codec.roundtrip)

text \<open>
  Reading the entries from behind the count is the danger: nothing bounds the size returned by the
  size of the input. Two empty bytes and a count of \<open>1\<close> already give a map and leave 8 as consumed.
\<close>

lemma decode_map_counts_twice:
  "decode_map decode_string decode_Variant [1, 0, 0, 0] = Inr ([('''', VNone)], 8)"
  by code_simp

lemma map_insert_keys: "fst ` set (map_insert k v m) = insert k (fst ` set m)"
  by (induction k v m rule: map_insert.induct) auto

lemma map_insert_sorted:
  "sorted_wrt (<) (map fst m) \<Longrightarrow> sorted_wrt (<) (map fst (map_insert k v m))"
proof (induction k v m rule: map_insert.induct)
  case (2 k v k' v' m)
  have "k' < x" if "x \<in> fst ` set (map_insert k v m)" "\<not> k < k'" "k \<noteq> k'" for x
    using that 2(2) by (auto simp: map_insert_keys)
  with 2 show ?case by (force simp: order_less_trans)
qed simp

lemma decode_entries_sorted:
  "sorted_wrt (<) (map fst m) \<Longrightarrow> decode_entries deck decv n m d = Inr (m', k) \<Longrightarrow>
   sorted_wrt (<) (map fst m')"
proof (induction n arbitrary: m d m' k)
  case (Suc n)
  from Suc.prems(2) obtain key v d' j where
    "decode_entries deck decv n (map_insert key v m) d' = Inr (m', j)"
    by (auto simp: bindE_eq_Inr_iff)
  with Suc.IH [OF map_insert_sorted [OF Suc.prems(1)]] show ?case by blast
qed simp

section \<open>MatchmakeParam\<close>

record MatchmakeParam =
  mp_minorVersion :: u8
  mp_params :: "(string \<times> Variant) list"

definition encode_MatchmakeParam :: "MatchmakeParam \<Rightarrow> bytes" where
  "encode_MatchmakeParam p =
     with_header (mp_minorVersion p) 0 (encode_map encode_string encode_Variant (mp_params p))"

definition decode_MatchmakeParam :: "u8 \<Rightarrow> MatchmakeParam decoder" where
  "decode_MatchmakeParam mv d =
     bindE (decodeHeader mv 0 d) (\<lambda>size.
     bindE (dec_at (decode_map decode_string decode_Variant) d size) (\<lambda>(ps, size).
     Inr (\<lparr>mp_minorVersion = mv, mp_params = ps\<rparr>, size)))"

text \<open>
  What the wire carries: only an empty parameter map. A parameter with entries is read back as one
  without, and its entries are taken for the fields that follow.
\<close>

definition matchmakeParam_ok :: "u8 \<Rightarrow> MatchmakeParam \<Rightarrow> bool" where
  "matchmakeParam_ok mv p \<longleftrightarrow> mp_minorVersion p = mv \<and> mp_params p = []"

lemma decode_MatchmakeParam_encode:
  assumes "mp_minorVersion p = mv"
  shows "decode_MatchmakeParam mv (encode_MatchmakeParam p @ rest) =
    Inr (p\<lparr>mp_params := []\<rparr>, length (encodeHeader mv 0 0) + 4)"
proof -
  define d where "d = encode_MatchmakeParam p @ rest"
  let ?b = "encode_map encode_string encode_Variant (mp_params p)"
  let ?n = "length (encodeHeader mv 0 (of_nat (length ?b)))"
  have step: "dec_at (decode_map decode_string decode_Variant) d ?n = Inr ([], ?n + 4)"
    if "rest_at d ?n (?b @ rest)"
  proof -
    from that have "subspan d ?n = Inr (?b @ rest)" by (simp add: rest_at_def subspan_def)
    then show ?thesis by (simp add: dec_at_def decode_map_encode_map)
  qed
  have "rest_at d 0 (with_header mv 0 ?b @ rest)"
    using assms by (simp add: d_def encode_MatchmakeParam_def)
  then have "decode_MatchmakeParam mv d = Inr (p\<lparr>mp_params := []\<rparr>, ?n + 4)"
    unfolding decode_MatchmakeParam_def
    apply (elim with_header_step)
    apply (drule step)
    apply (use assms in \<open>simp\<close>)
    done
  moreover have "?n = length (encodeHeader mv 0 0)" by (simp add: encodeHeader_def)
  ultimately show ?thesis by (simp only: d_def)
qed

interpretation matchmakeParam_codec:
  wire_codec encode_MatchmakeParam "decode_MatchmakeParam mv" "matchmakeParam_ok mv" for mv
proof unfold_locales
  fix x rest assume ok: "matchmakeParam_ok mv x"
  then have "length (encode_MatchmakeParam x) = length (encodeHeader mv 0 0) + 4"
    by (simp add: encode_MatchmakeParam_def matchmakeParam_ok_def encode_map_def with_header_def
        encodeHeader_def)
  with ok show "decode_MatchmakeParam mv (encode_MatchmakeParam x @ rest) =
      Inr (x, length (encode_MatchmakeParam x))"
    by (simp add: decode_MatchmakeParam_encode matchmakeParam_ok_def)
qed

end
