(* ===== verification/Strings.thy ===== *)
theory Strings
  imports Prelude "HOL-Library.Char_ord"
begin

text \<open>
  The text routines of the C++ standard library that the sources call: \<^verbatim>\<open>std::to_string\<close> on
  unsigned integers and \<^verbatim>\<open>std::stoi\<close>, which skips white space, takes an optional sign, reads the
  longest run of digits, ignores what follows, and throws \<^verbatim>\<open>std::invalid_argument\<close> without digits
  and \<^verbatim>\<open>std::out_of_range\<close> outside \<^verbatim>\<open>int\<close>. A \<^verbatim>\<open>std::string\<close> is a list of 8-bit \<open>char\<close>s.
\<close>

section \<open>Decimal numbers\<close>

definition digit_char :: "nat \<Rightarrow> char" where
  "digit_char d = char_of (48 + d)"

definition is_digit :: "char \<Rightarrow> bool" where
  "is_digit c \<longleftrightarrow> 48 \<le> (of_char c :: nat) \<and> (of_char c :: nat) \<le> 57"

definition digit_value :: "char \<Rightarrow> nat" where
  "digit_value c = of_char c - 48"

definition is_space :: "char \<Rightarrow> bool" where
  "is_space c \<longleftrightarrow> (of_char c :: nat) \<in> {9, 10, 11, 12, 13, 32}"

fun to_string :: "nat \<Rightarrow> string" where
  "to_string n =
     (if n < 10 then [digit_char n] else to_string (n div 10) @ [digit_char (n mod 10)])"

declare to_string.simps [simp del]

definition read_digits :: "string \<Rightarrow> nat" where
  "read_digits ds = foldl (\<lambda>n c. 10 * n + digit_value c) 0 ds"

definition int_max :: int where "int_max = 2147483647"
definition int_min :: int where "int_min = -2147483648"

definition stoi :: "string \<Rightarrow> int result" where
  "stoi s0 =
     (let s = dropWhile is_space s0;
          neg = (s \<noteq> [] \<and> hd s = CHR ''-'');
          s' = (if s \<noteq> [] \<and> (hd s = CHR ''-'' \<or> hd s = CHR ''+'') then tl s else s);
          ds = takeWhile is_digit s';
          v = (if neg then - int (read_digits ds) else int (read_digits ds))
      in if ds = [] then Inl InvalidArgument
         else if v < int_min \<or> int_max < v then Inl OutOfRange
         else Inr v)"

lemma digit_char_code: "d < 10 \<Longrightarrow> (of_char (digit_char d) :: nat) = 48 + d"
  by (simp add: digit_char_def)

lemma digit_char_facts [simp]:
  assumes "d < 10"
  shows "is_digit (digit_char d)" "digit_value (digit_char d) = d" "\<not> is_space (digit_char d)"
    "digit_char d \<noteq> CHR ''-''" "digit_char d \<noteq> CHR ''+''"
  using digit_char_code [OF assms] assms
  by (auto simp: is_digit_def digit_value_def is_space_def dest: arg_cong [where f = of_char])

lemma to_string_not_Nil [simp]: "to_string n \<noteq> []"
  by (subst to_string.simps) simp

lemma to_string_digits: "list_all is_digit (to_string n)"
proof (induction n rule: to_string.induct)
  case (1 n)
  show ?case by (subst to_string.simps) (simp add: 1)
qed

lemma digits_chars:
  "list_all is_digit s \<Longrightarrow> \<not> is_digit c \<Longrightarrow> c \<notin> set s"
  by (auto simp: list_all_iff)

lemma read_digits_to_string: "read_digits (to_string n) = n"
proof (induction n rule: to_string.induct)
  case (1 n)
  show ?case by (subst to_string.simps) (use 1 in \<open>simp add: read_digits_def\<close>)
qed

lemma to_string_hd:
  "\<not> is_space (hd (to_string n)) \<and> hd (to_string n) \<noteq> CHR ''-'' \<and> hd (to_string n) \<noteq> CHR ''+''"
proof (induction n rule: to_string.induct)
  case (1 n)
  show ?case by (subst (1 2 3) to_string.simps) (use 1 in simp)
qed

text \<open>Reading a printed number back: it must fit a signed 32-bit \<^verbatim>\<open>int\<close>.\<close>

lemma stoi_to_string:
  "stoi (to_string n) = (if n < 2 ^ 31 then Inr (int n) else Inl OutOfRange)"
proof -
  have "dropWhile is_space (to_string n) = to_string n"
    using to_string_hd by (metis dropWhile_eq_self_iff)
  moreover have "takeWhile is_digit (to_string n) = to_string n"
    using to_string_digits by (simp add: list_all_iff takeWhile_eq_all_conv)
  ultimately show ?thesis
    using to_string_hd [of n]
    by (simp add: stoi_def read_digits_to_string int_max_def int_min_def del: takeWhile_eq_all_conv)
qed

lemma length_to_string: "n < 10 ^ Suc k \<Longrightarrow> length (to_string n) \<le> Suc k"
proof (induction k arbitrary: n)
  case 0
  then show ?case by (subst to_string.simps) simp
next
  case (Suc k)
  then have "n div 10 < 10 ^ Suc k" by (simp add: less_mult_imp_div_less)
  from Suc.IH [OF this] show ?case by (subst to_string.simps) simp
qed

section \<open>Numbers in a base\<close>

text \<open>
  \<^verbatim>\<open>std::stoul\<close> with a base of at most 16: as \<^verbatim>\<open>stoi\<close>, in 64 bits, where a minus sign negates the
  number modulo \<open>2 ^ 64\<close>; in base 16 the digits can have \<^verbatim>\<open>0x\<close> in front of them.
\<close>

definition char_digit :: "char \<Rightarrow> nat" where
  "char_digit c =
     (let n = of_char c :: nat
      in if 48 \<le> n \<and> n \<le> 57 then n - 48
         else if 65 \<le> n \<and> n \<le> 90 then n - 55
         else if 97 \<le> n \<and> n \<le> 122 then n - 87 else 36)"

definition read_base :: "nat \<Rightarrow> string \<Rightarrow> nat" where
  "read_base b ds = foldl (\<lambda>n c. b * n + char_digit c) 0 ds"

definition drop_prefix :: "nat \<Rightarrow> string \<Rightarrow> string" where
  "drop_prefix b s =
     (if b = 16 \<and> 3 \<le> length s \<and> s ! 0 = CHR ''0'' \<and> s ! 1 \<in> {CHR ''x'', CHR ''X''} \<and> char_digit (s ! 2) < 16
      then drop 2 s else s)"

definition stoul :: "nat \<Rightarrow> string \<Rightarrow> nat result" where
  "stoul b s0 =
     (let s = dropWhile is_space s0;
          neg = (s \<noteq> [] \<and> hd s = CHR ''-'');
          s' = drop_prefix b (if s \<noteq> [] \<and> (hd s = CHR ''-'' \<or> hd s = CHR ''+'') then tl s else s);
          ds = takeWhile (\<lambda>c. char_digit c < b) s';
          v = read_base b ds
      in if ds = [] then Inl InvalidArgument
         else if 2 ^ 64 \<le> v then Inl OutOfRange
         else Inr (if neg then (2 ^ 64 - v) mod 2 ^ 64 else v))"

end
