(* ===== verification/StationUrl.thy ===== *)
theory StationUrl
  imports Structures Strings
begin

text \<open>
  \<^verbatim>\<open>nex::rmc::StationURL\<close> (\<^verbatim>\<open>src/nex/types/common/stationURL.hpp\<close>) and \<^verbatim>\<open>RVConnectionData\<close>: the
  textual address of a peer. \<^verbatim>\<open>inet_pton\<close> is a function of the operating system and a parameter
  of the parser; what the round trip needs of it is a hypothesis there.
\<close>

section \<open>Data\<close>

datatype Protocol = NONE | UDP | PRUDP | PRUDPS

type_synonym ip4 = "u8 \<times> u8 \<times> u8 \<times> u8"

type_synonym inet_pton = "string \<Rightarrow> ip4 option"

record StationURL =
  su_proto :: Protocol
  su_ip :: "ip4 option"
  su_port :: "u16 option"
  su_stream :: "u8 option"
  su_sid :: "u8 option"
  su_CID :: "u32 option"
  su_PID :: "u32 option"
  su_type :: "u8 option"
  su_RVCID :: "u32 option"
  su_natm :: "u8 option"
  su_natf :: "u8 option"
  su_upnp :: "bool option"
  su_pmp :: "bool option"
  su_probeinit :: "bool option"
  su_Pl :: "u8 option"

definition empty_url :: "Protocol \<Rightarrow> StationURL" where
  "empty_url p = \<lparr>su_proto = p, su_ip = None, su_port = None, su_stream = None, su_sid = None,
     su_CID = None, su_PID = None, su_type = None, su_RVCID = None, su_natm = None,
     su_natf = None, su_upnp = None, su_pmp = None, su_probeinit = None, su_Pl = None\<rparr>"

section \<open>Printing\<close>

definition ipv4ToString :: "ip4 \<Rightarrow> string" where
  "ipv4ToString ip = (case ip of (a, b, c, d) \<Rightarrow>
     to_string (unat a) @ ''.'' @ to_string (unat b) @ ''.'' @ to_string (unat c)
     @ ''.'' @ to_string (unat d))"

definition show_num :: "'a::len word \<Rightarrow> string" where
  "show_num w = to_string (unat w)"

definition show_bool :: "bool \<Rightarrow> string" where
  "show_bool b = to_string (if b then 1 else 0)"

definition seg :: "string \<Rightarrow> ('a \<Rightarrow> string) \<Rightarrow> 'a option \<Rightarrow> string list" where
  "seg key shw x = (case x of None \<Rightarrow> [] | Some v \<Rightarrow> [key @ ''='' @ shw v])"

definition url_segments :: "StationURL \<Rightarrow> string list" where
  "url_segments u =
     seg ''address'' ipv4ToString (su_ip u) @
     seg ''port'' show_num (su_port u) @
     seg ''Pl'' show_num (su_Pl u) @
     seg ''stream'' show_num (su_stream u) @
     seg ''sid'' show_num (su_sid u) @
     seg ''CID'' show_num (su_CID u) @
     seg ''PID'' show_num (su_PID u) @
     seg ''type'' show_num (su_type u) @
     seg ''RVCID'' show_num (su_RVCID u) @
     seg ''natm'' show_num (su_natm u) @
     seg ''natf'' show_num (su_natf u) @
     seg ''probeinit'' show_bool (su_probeinit u) @
     seg ''upnp'' show_bool (su_upnp u) @
     seg ''pmp'' show_bool (su_pmp u)"

primrec url_prefix :: "Protocol \<Rightarrow> string" where
  "url_prefix NONE = ''''"
| "url_prefix UDP = ''udp:/''"
| "url_prefix PRUDP = ''prudp:/''"
| "url_prefix PRUDPS = ''prudps:/''"

text \<open>\<^verbatim>\<open>url.pop_back()\<close> drops the last semicolon; with no parameter it drops the slash.\<close>

definition encodeString :: "StationURL \<Rightarrow> string" where
  "encodeString u =
     (if su_proto u = NONE then ''''
      else butlast (url_prefix (su_proto u) @ concat (map (\<lambda>s. s @ '';'') (url_segments u))))"

definition encode_StationURL :: "StationURL \<Rightarrow> bytes" where
  "encode_StationURL u = encode_string (encodeString u)"

section \<open>Parsing\<close>

definition as_malformed :: "'a result \<Rightarrow> 'a result" where
  "as_malformed r = (case r of
       Inl InvalidArgument \<Rightarrow> Inl MalformedException
     | Inl OutOfRange \<Rightarrow> Inl MalformedException
     | _ \<Rightarrow> r)"

definition with_int :: "string \<Rightarrow> (int \<Rightarrow> StationURL) \<Rightarrow> StationURL result" where
  "with_int value f = bindE (stoi value) (\<lambda>v. Inr (f v))"

text \<open>\<open>inet_pton\<close> is given \<^verbatim>\<open>std::string(value).c_str()\<close>, which ends at the first zero byte.\<close>

definition set_key :: "inet_pton \<Rightarrow> string \<Rightarrow> string \<Rightarrow> StationURL \<Rightarrow> StationURL result" where
  "set_key inet key value u =
     (if key = ''address'' then
        (case inet (takeWhile (\<lambda>c. c \<noteq> CHR 0x00) value) of
           None \<Rightarrow> Inl MalformedException
         | Some ip \<Rightarrow> Inr (u\<lparr>su_ip := Some ip\<rparr>))
      else if key = ''port'' then with_int value (\<lambda>v. u\<lparr>su_port := Some (word_of_int v)\<rparr>)
      else if key = ''stream'' then with_int value (\<lambda>v. u\<lparr>su_stream := Some (word_of_int v)\<rparr>)
      else if key = ''sid'' then with_int value (\<lambda>v. u\<lparr>su_sid := Some (word_of_int v)\<rparr>)
      else if key = ''CID'' then with_int value (\<lambda>v. u\<lparr>su_CID := Some (word_of_int v)\<rparr>)
      else if key = ''PID'' then with_int value (\<lambda>v. u\<lparr>su_PID := Some (word_of_int v)\<rparr>)
      else if key = ''type'' then with_int value (\<lambda>v. u\<lparr>su_type := Some (word_of_int v)\<rparr>)
      else if key = ''RVCID'' then with_int value (\<lambda>v. u\<lparr>su_RVCID := Some (word_of_int v)\<rparr>)
      else if key = ''natm'' then with_int value (\<lambda>v. u\<lparr>su_natm := Some (word_of_int v)\<rparr>)
      else if key = ''natf'' then with_int value (\<lambda>v. u\<lparr>su_natf := Some (word_of_int v)\<rparr>)
      else if key = ''probeinit'' then with_int value (\<lambda>v. u\<lparr>su_probeinit := Some (v \<noteq> 0)\<rparr>)
      else if key = ''upnp'' then with_int value (\<lambda>v. u\<lparr>su_upnp := Some (v \<noteq> 0)\<rparr>)
      else if key = ''pmp'' then with_int value (\<lambda>v. u\<lparr>su_pmp := Some (v \<noteq> 0)\<rparr>)
      else if key = ''Pl'' then with_int value (\<lambda>v. u\<lparr>su_Pl := Some (word_of_int v)\<rparr>)
      else Inl MalformedException)"

definition set_param :: "inet_pton \<Rightarrow> string \<Rightarrow> StationURL \<Rightarrow> StationURL result" where
  "set_param inet param u =
     (if CHR ''='' \<notin> set param then Inl MalformedException
      else as_malformed (set_key inet (takeWhile (\<lambda>c. c \<noteq> CHR ''='') param)
             (tl (dropWhile (\<lambda>c. c \<noteq> CHR ''='') param)) u))"

function parse_params :: "inet_pton \<Rightarrow> string \<Rightarrow> StationURL \<Rightarrow> StationURL result" where
  "parse_params inet s u =
     (if s = [] then Inr u
      else bindE (set_param inet (takeWhile (\<lambda>c. c \<noteq> CHR '';'') s) u)
             (\<lambda>u'. parse_params inet (tl (dropWhile (\<lambda>c. c \<noteq> CHR '';'') s)) u'))"
  by pat_completeness auto
termination
proof (relation "measure (\<lambda>(_, s, _). length s)", goal_cases)
  case 1
  show ?case by simp
next
  case (2 inet s u u')
  have "length (dropWhile (\<lambda>c. c \<noteq> CHR '';'') s) \<le> length s" by (rule length_dropWhile_le)
  moreover have "0 < length s" using 2 by simp
  ultimately have "length (tl (dropWhile (\<lambda>c. c \<noteq> CHR '';'') s)) < length s"
    by (simp only: length_tl)
  then show ?case by simp
qed

declare parse_params.simps [simp del]

definition decode_StationURL :: "inet_pton \<Rightarrow> StationURL decoder" where
  "decode_StationURL inet data =
     bindE (decode_string data) (\<lambda>(url, size).
       if url = [] then Inr (empty_url NONE, size)
       else if take 5 url = ''udp:/'' then
         bindE (parse_params inet (drop 5 url) (empty_url UDP)) (\<lambda>u. Inr (u, size))
       else if take 7 url = ''prudp:/'' then
         bindE (parse_params inet (drop 7 url) (empty_url PRUDP)) (\<lambda>u. Inr (u, size))
       else if take 8 url = ''prudps:/'' then
         bindE (parse_params inet (drop 8 url) (empty_url PRUDPS)) (\<lambda>u. Inr (u, size))
       else Inl MalformedException)"

section \<open>Reading a printed URL back\<close>

fun set_params :: "inet_pton \<Rightarrow> string list \<Rightarrow> StationURL \<Rightarrow> StationURL result" where
  "set_params inet [] u = Inr u"
| "set_params inet (p # ps) u = bindE (set_param inet p u) (set_params inet ps)"

lemma parse_params_segments:
  assumes "list_all (\<lambda>s. s \<noteq> [] \<and> CHR '';'' \<notin> set s) segs"
  shows "parse_params inet (butlast (concat (map (\<lambda>s. s @ '';'') segs))) u = set_params inet segs u"
  using assms
proof (induction segs arbitrary: u)
  case Nil
  show ?case by (simp add: parse_params.simps)
next
  case (Cons s segs)
  then have s: "s \<noteq> []" "\<forall>c \<in> set s. c \<noteq> CHR '';''" by auto
  have nil: "parse_params inet [] w = Inr w" for w by (simp add: parse_params.simps)
  show ?case
  proof (cases segs)
    case Nil
    have tw: "takeWhile (\<lambda>c. c \<noteq> CHR '';'') s = s" and dw: "dropWhile (\<lambda>c. c \<noteq> CHR '';'') s = []"
      using s by (simp_all add: takeWhile_eq_all_conv)
    have "parse_params inet s u = bindE (set_param inet s u) (parse_params inet [])"
      using s(1) unfolding parse_params.simps [of inet s u] tw dw by simp
    then have "parse_params inet s u = bindE (set_param inet s u) Inr"
      using nil by (simp add: bindE_def split: sum.splits)
    with Nil show ?thesis by (simp add: bindE_def split: sum.splits)
  next
    case (Cons s' ss)
    let ?r = "butlast (concat (map (\<lambda>s. s @ '';'') segs))"
    have "butlast (concat (map (\<lambda>s. s @ '';'') (s # segs))) = s @ CHR '';'' # ?r"
      using Cons by (simp add: butlast_append)
    moreover have "takeWhile (\<lambda>c. c \<noteq> CHR '';'') (s @ CHR '';'' # ?r) = s"
      and "tl (dropWhile (\<lambda>c. c \<noteq> CHR '';'') (s @ CHR '';'' # ?r)) = ?r"
      using s by (simp_all add: takeWhile_append2 dropWhile_append2)
    ultimately show ?thesis
      using Cons.IH Cons.prems
      by (subst parse_params.simps) (simp add: bindE_def split: sum.splits)
  qed
qed

lemma set_param_key:
  assumes "CHR ''='' \<notin> set key" and "set_key inet key value u = Inr u'"
  shows "set_param inet (key @ ''='' @ value) u = Inr u'"
proof -
  have "\<forall>c \<in> set key. c \<noteq> CHR ''=''" using assms(1) by auto
  then have "takeWhile (\<lambda>c. c \<noteq> CHR ''='') (key @ ''='' @ value) = key"
    and "tl (dropWhile (\<lambda>c. c \<noteq> CHR ''='') (key @ ''='' @ value)) = value"
    by (simp_all add: takeWhile_append2 dropWhile_append2)
  then show ?thesis using assms(2) by (simp add: set_param_def as_malformed_def)
qed

lemma set_params_seg:
  assumes "CHR ''='' \<notin> set key" and "x = None \<Longrightarrow> u' = u"
    and "\<And>v. x = Some v \<Longrightarrow> set_key inet key (shw v) u = Inr u'"
  shows "set_params inet (seg key shw x @ segs) u = set_params inet segs u'"
  using assms set_param_key [of key inet] by (cases x) (auto simp: seg_def)

definition num_ok :: "'a::len word option \<Rightarrow> bool" where
  "num_ok x \<longleftrightarrow> (case x of None \<Rightarrow> True | Some w \<Rightarrow> unat w < 2 ^ 31)"

lemma num_ok_small:
  assumes "LENGTH('a::len) \<le> 31"
  shows "num_ok (x :: 'a word option)"
proof -
  have "unat (w :: 'a word) < 2 ^ LENGTH('a)" for w by (rule unsigned_less)
  moreover have "(2 :: nat) ^ LENGTH('a) \<le> 2 ^ 31" using assms by (intro power_increasing) simp_all
  ultimately have "unat (w :: 'a word) < 2 ^ 31" for w by (rule less_le_trans)
  then show ?thesis by (simp add: num_ok_def split: option.splits)
qed

lemma with_int_num: "num_ok (Some w) \<Longrightarrow> with_int (show_num w) f = Inr (f (uint w))"
  by (simp add: with_int_def show_num_def stoi_to_string num_ok_def)

lemma with_int_bool: "with_int (show_bool b) f = Inr (f (if b then 1 else 0))"
  by (simp add: with_int_def show_bool_def stoi_to_string)

text \<open>One rule per parameter: it fills the field it names.\<close>

lemma set_params_num:
  "su_port u = None \<Longrightarrow>
   set_params inet (seg ''port'' show_num p @ segs) u = set_params inet segs (u\<lparr>su_port := p\<rparr>)"
  "su_Pl u = None \<Longrightarrow>
   set_params inet (seg ''Pl'' show_num b @ segs) u = set_params inet segs (u\<lparr>su_Pl := b\<rparr>)"
  "su_stream u = None \<Longrightarrow>
   set_params inet (seg ''stream'' show_num b @ segs) u = set_params inet segs (u\<lparr>su_stream := b\<rparr>)"
  "su_sid u = None \<Longrightarrow>
   set_params inet (seg ''sid'' show_num b @ segs) u = set_params inet segs (u\<lparr>su_sid := b\<rparr>)"
  "num_ok c \<Longrightarrow> su_CID u = None \<Longrightarrow>
   set_params inet (seg ''CID'' show_num c @ segs) u = set_params inet segs (u\<lparr>su_CID := c\<rparr>)"
  "num_ok c \<Longrightarrow> su_PID u = None \<Longrightarrow>
   set_params inet (seg ''PID'' show_num c @ segs) u = set_params inet segs (u\<lparr>su_PID := c\<rparr>)"
  "su_type u = None \<Longrightarrow>
   set_params inet (seg ''type'' show_num b @ segs) u = set_params inet segs (u\<lparr>su_type := b\<rparr>)"
  "num_ok c \<Longrightarrow> su_RVCID u = None \<Longrightarrow>
   set_params inet (seg ''RVCID'' show_num c @ segs) u = set_params inet segs (u\<lparr>su_RVCID := c\<rparr>)"
  "su_natm u = None \<Longrightarrow>
   set_params inet (seg ''natm'' show_num b @ segs) u = set_params inet segs (u\<lparr>su_natm := b\<rparr>)"
  "su_natf u = None \<Longrightarrow>
   set_params inet (seg ''natf'' show_num b @ segs) u = set_params inet segs (u\<lparr>su_natf := b\<rparr>)"
  by (rule set_params_seg; simp add: set_key_def with_int_num num_ok_small)+

lemma set_params_bool:
  "su_probeinit u = None \<Longrightarrow>
   set_params inet (seg ''probeinit'' show_bool f @ segs) u =
     set_params inet segs (u\<lparr>su_probeinit := f\<rparr>)"
  "su_upnp u = None \<Longrightarrow>
   set_params inet (seg ''upnp'' show_bool f @ segs) u = set_params inet segs (u\<lparr>su_upnp := f\<rparr>)"
  "su_pmp u = None \<Longrightarrow>
   set_params inet (seg ''pmp'' show_bool f @ segs) u = set_params inet segs (u\<lparr>su_pmp := f\<rparr>)"
  by (rule set_params_seg; simp add: set_key_def with_int_bool)+

text \<open>What the round trip needs of \<open>inet_pton\<close>: it reads a dotted quad as its four numbers.\<close>

definition inet_inverse :: "inet_pton \<Rightarrow> bool" where
  "inet_inverse inet \<longleftrightarrow> (\<forall>ip. inet (ipv4ToString ip) = Some ip)"

lemma printed_chars:
  "\<not> is_digit c \<Longrightarrow> c \<notin> set (to_string n)"
  using digits_chars [OF to_string_digits] .

lemma ipv4_chars:
  "\<not> is_digit c \<Longrightarrow> c \<noteq> CHR ''.'' \<Longrightarrow> c \<notin> set (ipv4ToString ip)"
  by (auto simp: ipv4ToString_def printed_chars split: prod.splits)

lemma takeWhile_ipv4: "takeWhile (\<lambda>c. c \<noteq> CHR 0x00) (ipv4ToString ip) = ipv4ToString ip"
proof -
  have "CHR 0x00 \<notin> set (ipv4ToString ip)" by (rule ipv4_chars) (simp_all add: is_digit_def)
  then show ?thesis by (auto simp: takeWhile_eq_all_conv)
qed

lemma set_params_ip:
  "inet_inverse inet \<Longrightarrow> su_ip u = None \<Longrightarrow>
   set_params inet (seg ''address'' ipv4ToString x @ segs) u = set_params inet segs (u\<lparr>su_ip := x\<rparr>)"
  by (rule set_params_seg; simp add: set_key_def takeWhile_ipv4 inet_inverse_def del: split_paired_All)

definition url_ok :: "StationURL \<Rightarrow> bool" where
  "url_ok u \<longleftrightarrow>
     (if su_proto u = NONE then u = empty_url NONE
      else url_segments u \<noteq> [] \<and> num_ok (su_CID u) \<and> num_ok (su_PID u) \<and> num_ok (su_RVCID u)
        \<and> string_ok (encodeString u))"

lemma set_params_all:
  assumes "inet_inverse inet" and "num_ok (su_CID u)" "num_ok (su_PID u)" "num_ok (su_RVCID u)"
  shows "set_params inet (url_segments u) (empty_url (su_proto u)) = Inr u"
proof -
  have pmp: "set_params inet (seg ''pmp'' show_bool f) w = Inr (w\<lparr>su_pmp := f\<rparr>)"
    if "su_pmp w = None" for f w
    using set_params_bool(3) [OF that, of inet f "[]"] by simp
  show ?thesis
    unfolding url_segments_def empty_url_def
    by (simp add: set_params_num set_params_bool set_params_ip pmp assms)
qed

lemma seg_no_semicolon:
  assumes "\<And>v. CHR '';'' \<notin> set (shw v)" and "CHR '';'' \<notin> set key"
  shows "list_all (\<lambda>s. s \<noteq> [] \<and> CHR '';'' \<notin> set s) (seg key shw x)"
  using assms by (auto simp: seg_def split: option.splits)

lemma url_segments_no_semicolon:
  "list_all (\<lambda>s. s \<noteq> [] \<and> CHR '';'' \<notin> set s) (url_segments u)"
proof -
  have nd: "\<not> is_digit (CHR '';'')" by (simp add: is_digit_def)
  have ip: "CHR '';'' \<notin> set (ipv4ToString v)" for v by (rule ipv4_chars [OF nd]) simp
  have num: "CHR '';'' \<notin> set (show_num v)" for v :: "'a::len word"
    by (simp add: show_num_def printed_chars [OF nd])
  have bl: "CHR '';'' \<notin> set (show_bool v)" for v
    by (simp add: show_bool_def printed_chars [OF nd])
  show ?thesis
    unfolding url_segments_def list_all_append
    by (intro conjI; rule seg_no_semicolon; (rule ip | rule num | rule bl | simp))
qed

lemma decode_StationURL_encode:
  assumes "inet_inverse inet" and "url_ok u"
  shows "decode_StationURL inet (encode_StationURL u @ rest) = Inr (u, length (encode_StationURL u))"
proof (cases "su_proto u = NONE")
  case True
  then have u: "u = empty_url NONE" using assms(2) by (simp add: url_ok_def)
  have "decode_string (encode_string [] @ rest) = Inr ([], 3)"
    by (simp add: decode_string_encode_string string_ok_def)
  then show ?thesis
    by (simp add: u decode_StationURL_def encode_StationURL_def encodeString_def empty_url_def)
next
  case False
  let ?body = "butlast (concat (map (\<lambda>s. s @ '';'') (url_segments u)))"
  have ok: "string_ok (encodeString u)" and segs: "url_segments u \<noteq> []"
    and nums: "num_ok (su_CID u)" "num_ok (su_PID u)" "num_ok (su_RVCID u)"
    using assms(2) False by (simp_all add: url_ok_def)
  have "concat (map (\<lambda>s. s @ '';'') (url_segments u)) \<noteq> []" using segs by (cases "url_segments u") auto
  then have str: "encodeString u = url_prefix (su_proto u) @ ?body"
    using False by (simp add: encodeString_def butlast_append)
  have "parse_params inet ?body (empty_url (su_proto u)) = Inr u"
    unfolding parse_params_segments [OF url_segments_no_semicolon]
    by (rule set_params_all [OF assms(1) nums])
  then have parsed: "parse_params inet ?body (empty_url (su_proto u)) = Inr u" .
  have "decode_StationURL inet (encode_StationURL u @ rest) =
    (if encodeString u = [] then Inr (empty_url NONE, length (encode_StationURL u))
     else if take 5 (encodeString u) = ''udp:/'' then
       bindE (parse_params inet (drop 5 (encodeString u)) (empty_url UDP))
         (\<lambda>u'. Inr (u', length (encode_StationURL u)))
     else if take 7 (encodeString u) = ''prudp:/'' then
       bindE (parse_params inet (drop 7 (encodeString u)) (empty_url PRUDP))
         (\<lambda>u'. Inr (u', length (encode_StationURL u)))
     else if take 8 (encodeString u) = ''prudps:/'' then
       bindE (parse_params inet (drop 8 (encodeString u)) (empty_url PRUDPS))
         (\<lambda>u'. Inr (u', length (encode_StationURL u)))
     else Inl MalformedException)"
    by (simp only: decode_StationURL_def encode_StationURL_def string_codec.roundtrip [OF ok]
        bindE_simps prod.case)
  then show ?thesis
    unfolding str using False parsed by (cases "su_proto u") simp_all
qed

end
