(* ===== verification/MatchTypes.thy ===== *)
theory MatchTypes
  imports Params StationUrl Rmc
begin

text \<open>
  The matchmaking structures of \<^verbatim>\<open>src/nex/types/splatoonSecure\<close>, in the order of their classes.
  A class that the server keeps and sends on later (\<^verbatim>\<open>Gathering\<close>, \<^verbatim>\<open>MatchmakeSession\<close>) carries the
  minor version it was made with; the others are encoded for the version of the client they go to.
  The decoder of every class that holds no map reads within its input (\<open>safe_codec\<close>).
\<close>

section \<open>Gathering\<close>

record Gathering =
  minorVersion :: u8
  g_id :: u32
  ownerPid :: u32
  hostPid :: u32
  minParticipants :: u16
  maxParticipants :: u16
  participationPolicy :: u32
  policyArgument :: u32
  g_flags :: u32
  g_state :: u32
  description :: string

definition encode_Gathering :: "'a Gathering_scheme \<Rightarrow> bytes" where
  "encode_Gathering g =
     with_header (minorVersion g) 0
       (encode_int (g_id g) @ encode_int (ownerPid g) @ encode_int (hostPid g) @
        encode_int (minParticipants g) @ encode_int (maxParticipants g) @
        encode_int (participationPolicy g) @ encode_int (policyArgument g) @
        encode_int (g_flags g) @ encode_int (g_state g) @ encode_string (description g))"

definition decode_Gathering :: "u8 \<Rightarrow> Gathering decoder" where
  "decode_Gathering mv d =
     bindE (decodeHeader mv 0 d) (\<lambda>pos.
     bindE (dec_at decode_int d pos) (\<lambda>(g_id, pos).
     bindE (dec_at decode_int d pos) (\<lambda>(ownerPid, pos).
     bindE (dec_at decode_int d pos) (\<lambda>(hostPid, pos).
     bindE (dec_at decode_int d pos) (\<lambda>(minParticipants, pos).
     bindE (dec_at decode_int d pos) (\<lambda>(maxParticipants, pos).
     bindE (dec_at decode_int d pos) (\<lambda>(participationPolicy, pos).
     bindE (dec_at decode_int d pos) (\<lambda>(policyArgument, pos).
     bindE (dec_at decode_int d pos) (\<lambda>(g_flags, pos).
     bindE (dec_at decode_int d pos) (\<lambda>(g_state, pos).
     bindE (dec_at decode_string d pos) (\<lambda>(description, pos).
     Inr (\<lparr>minorVersion = mv, g_id = g_id, ownerPid = ownerPid, hostPid = hostPid,
       minParticipants = minParticipants, maxParticipants = maxParticipants,
       participationPolicy = participationPolicy, policyArgument = policyArgument,
       g_flags = g_flags, g_state = g_state, description = description\<rparr>, pos))))))))))))"

definition gathering_ok :: "u8 \<Rightarrow> Gathering \<Rightarrow> bool" where
  "gathering_ok mv g \<longleftrightarrow>
     minorVersion g = mv \<and>
     string_ok (description g)"

interpretation gathering_codec: safe_codec encode_Gathering "decode_Gathering mv" "gathering_ok mv" for mv
proof unfold_locales
  fix x rest assume "gathering_ok mv x"
  then have ok: "minorVersion x = mv" "string_ok (description x)"
    by (simp_all add: gathering_ok_def)
  have "rest_at (encode_Gathering x @ rest) 0 (encode_Gathering x @ rest)" by simp
  then show "decode_Gathering mv (encode_Gathering x @ rest) = Inr (x, length (encode_Gathering x))"
    unfolding decode_Gathering_def
    apply (subst (asm) (2) encode_Gathering_def)
    apply (simp only: ok)
    apply (elim with_header_step)
    apply (simp only: append_assoc)
    apply ((erule field_steps, (rule TrueI | rule ok), simp only: prod.case)+)
    apply (simp add: encode_Gathering_def length_with_header ok)
    done
next
  have "safe_run d (decode_Gathering mv d)" for d
    unfolding decode_Gathering_def
    by (intro safe_steps) simp_all
  then show "consumes_within (decode_Gathering mv)" "never_undefined (decode_Gathering mv)"
    using safe_run_all by blast+
qed

section \<open>MatchmakeSession\<close>

text \<open>A \<^verbatim>\<open>MatchmakeSession\<close> is a \<^verbatim>\<open>Gathering\<close>: its record extends the parent's.\<close>

record MatchmakeSession = Gathering +
  gameMode :: u32
  attributes :: "u32 list"
  openParticipation :: bool
  matchmakeSystemType :: u32
  appBuffer :: bytes
  participationCount :: u32
  progressScore :: u8
  sessionKey :: bytes
  option0 :: u32
  matchmakeParam :: MatchmakeParam
  startedTime :: time_point
  userPassword :: string
  referGid :: u32
  userPasswordEnabled :: bool
  systemPasswordEnabled :: bool

definition encode_MatchmakeSession :: "MatchmakeSession \<Rightarrow> bytes" where
  "encode_MatchmakeSession s =
     encode_Gathering s @
     with_header (minorVersion s) 3
       (encode_int (gameMode s) @ encode_list encode_int (attributes s) @
        encode_bool (openParticipation s) @ encode_int (matchmakeSystemType s) @
        encode_buffer TYPE(32) (appBuffer s) @ encode_int (participationCount s) @
        encode_int (progressScore s) @ encode_buffer TYPE(32) (sessionKey s) @
        encode_int (option0 s) @ encode_MatchmakeParam (matchmakeParam s) @
        encode_Datetime (startedTime s) @ encode_string (userPassword s) @
        encode_int (referGid s) @ encode_bool (userPasswordEnabled s) @
        encode_bool (systemPasswordEnabled s))"

definition decode_MatchmakeSession :: "u8 \<Rightarrow> MatchmakeSession decoder" where
  "decode_MatchmakeSession mv d =
     bindE (dec_at (decode_Gathering mv) d 0) (\<lambda>(g, pos).
     bindE (header_at mv 3 d pos) (\<lambda>pos.
     bindE (dec_at decode_int d pos) (\<lambda>(gameMode, pos).
     bindE (dec_at (decode_list decode_int) d pos) (\<lambda>(attributes, pos).
     bindE (dec_at decode_bool d pos) (\<lambda>(openParticipation, pos).
     bindE (dec_at decode_int d pos) (\<lambda>(matchmakeSystemType, pos).
     bindE (dec_at (decode_buffer TYPE(32)) d pos) (\<lambda>(appBuffer, pos).
     bindE (dec_at decode_int d pos) (\<lambda>(participationCount, pos).
     bindE (dec_at decode_int d pos) (\<lambda>(progressScore, pos).
     bindE (dec_at (decode_buffer TYPE(32)) d pos) (\<lambda>(sessionKey, pos).
     bindE (dec_at decode_int d pos) (\<lambda>(option0, pos).
     bindE (dec_at (decode_MatchmakeParam mv) d pos) (\<lambda>(matchmakeParam, pos).
     bindE (dec_at decode_Datetime d pos) (\<lambda>(startedTime, pos).
     bindE (dec_at decode_string d pos) (\<lambda>(userPassword, pos).
     bindE (dec_at decode_int d pos) (\<lambda>(referGid, pos).
     bindE (dec_at decode_bool d pos) (\<lambda>(userPasswordEnabled, pos).
     bindE (dec_at decode_bool d pos) (\<lambda>(systemPasswordEnabled, pos).
     Inr (Gathering.extend g (MatchmakeSession.fields gameMode attributes openParticipation
       matchmakeSystemType appBuffer participationCount progressScore sessionKey option0
       matchmakeParam startedTime userPassword referGid userPasswordEnabled
       systemPasswordEnabled), pos))))))))))))))))))"

definition matchmakeSession_ok :: "u8 \<Rightarrow> MatchmakeSession \<Rightarrow> bool" where
  "matchmakeSession_ok mv s \<longleftrightarrow>
     gathering_ok mv (Gathering.truncate s) \<and>
     list_ok (\<lambda>_. True) (attributes s) \<and>
     length (appBuffer s) < 2 ^ LENGTH(32) \<and>
     length (sessionKey s) < 2 ^ LENGTH(32) \<and>
     matchmakeParam_ok mv (matchmakeParam s) \<and>
     whole_seconds (startedTime s) \<and>
     string_ok (userPassword s)"

lemma session_extend_truncate:
  "Gathering.extend (Gathering.truncate s) (MatchmakeSession.fields (gameMode s) (attributes s)
     (openParticipation s) (matchmakeSystemType s) (appBuffer s) (participationCount s)
     (progressScore s) (sessionKey s) (option0 s) (matchmakeParam s) (startedTime s)
     (userPassword s) (referGid s) (userPasswordEnabled s) (systemPasswordEnabled s)) = s"
  by (cases s) (simp add: Gathering.defs MatchmakeSession.defs)

lemma encode_Gathering_truncate: "encode_Gathering (Gathering.truncate s) = encode_Gathering s"
  by (simp add: encode_Gathering_def Gathering.defs)

lemmas session_steps =
  gathering_codec.dec_field datetime_codec.dec_field matchmakeParam_codec.dec_field

interpretation matchmakeSession_codec:
  wire_codec encode_MatchmakeSession "decode_MatchmakeSession mv" "matchmakeSession_ok mv" for mv
proof unfold_locales
  fix x rest assume "matchmakeSession_ok mv x"
  then have ok: "gathering_ok mv (Gathering.truncate x)" "list_ok (\<lambda>_. True) (attributes x)"
    "length (appBuffer x) < 2 ^ LENGTH(32)" "length (sessionKey x) < 2 ^ LENGTH(32)"
    "matchmakeParam_ok mv (matchmakeParam x)" "whole_seconds (startedTime x)"
    "string_ok (userPassword x)"
    by (simp_all add: matchmakeSession_ok_def)
  have mv: "minorVersion x = mv" using ok(1) by (simp add: gathering_ok_def Gathering.defs)
  have "rest_at (encode_MatchmakeSession x @ rest) 0 (encode_MatchmakeSession x @ rest)" by simp
  then show "decode_MatchmakeSession mv (encode_MatchmakeSession x @ rest) =
      Inr (x, length (encode_MatchmakeSession x))"
    unfolding decode_MatchmakeSession_def
    apply (subst (asm) (2) encode_MatchmakeSession_def)
    apply (simp only: mv append_assoc flip: encode_Gathering_truncate [of x])
    apply ((erule session_steps, rule ok, simp only: prod.case)+)
    apply (erule with_header_at_step)
    apply (simp only: append_assoc)
    apply ((erule field_steps session_steps, (rule TrueI | rule ok), simp only: prod.case)+)
    apply (simp only: session_extend_truncate)
    apply (simp add: encode_MatchmakeSession_def encode_Gathering_truncate length_with_header mv)
    done
qed

lemmas match_steps = field_steps session_steps matchmakeSession_codec.dec_field

section \<open>MatchmakeSessionSearchCriteria\<close>

record MatchmakeSessionSearchCriteria =
  sc_attributes :: "string list"
  sc_gameMode :: string
  sc_minParticipants :: string
  sc_maxParticipants :: string
  sc_matchmakeSystemType :: string
  sc_vacantOnly :: bool
  sc_excludeLocked :: bool
  sc_excludeNonHostPid :: bool
  sc_selectionMethod :: u32
  sc_vacantParticipants :: u16
  sc_matchmakeParam :: MatchmakeParam
  sc_excludeUserPasswordSet :: bool
  sc_excludeSystemPasswordSet :: bool
  sc_referGid :: u32

definition encode_MatchmakeSessionSearchCriteria :: "u8 \<Rightarrow> MatchmakeSessionSearchCriteria \<Rightarrow> bytes" where
  "encode_MatchmakeSessionSearchCriteria mv c =
     with_header mv 3
       (encode_list encode_string (sc_attributes c) @ encode_string (sc_gameMode c) @
        encode_string (sc_minParticipants c) @ encode_string (sc_maxParticipants c) @
        encode_string (sc_matchmakeSystemType c) @ encode_bool (sc_vacantOnly c) @
        encode_bool (sc_excludeLocked c) @ encode_bool (sc_excludeNonHostPid c) @
        encode_int (sc_selectionMethod c) @ encode_int (sc_vacantParticipants c) @
        encode_MatchmakeParam (sc_matchmakeParam c) @
        encode_bool (sc_excludeUserPasswordSet c) @
        encode_bool (sc_excludeSystemPasswordSet c) @ encode_int (sc_referGid c))"

definition decode_MatchmakeSessionSearchCriteria :: "u8 \<Rightarrow> MatchmakeSessionSearchCriteria decoder" where
  "decode_MatchmakeSessionSearchCriteria mv d =
     bindE (decodeHeader mv 3 d) (\<lambda>pos.
     bindE (dec_at (decode_list decode_string) d pos) (\<lambda>(sc_attributes, pos).
     bindE (dec_at decode_string d pos) (\<lambda>(sc_gameMode, pos).
     bindE (dec_at decode_string d pos) (\<lambda>(sc_minParticipants, pos).
     bindE (dec_at decode_string d pos) (\<lambda>(sc_maxParticipants, pos).
     bindE (dec_at decode_string d pos) (\<lambda>(sc_matchmakeSystemType, pos).
     bindE (dec_at decode_bool d pos) (\<lambda>(sc_vacantOnly, pos).
     bindE (dec_at decode_bool d pos) (\<lambda>(sc_excludeLocked, pos).
     bindE (dec_at decode_bool d pos) (\<lambda>(sc_excludeNonHostPid, pos).
     bindE (dec_at decode_int d pos) (\<lambda>(sc_selectionMethod, pos).
     bindE (dec_at decode_int d pos) (\<lambda>(sc_vacantParticipants, pos).
     bindE (dec_at (decode_MatchmakeParam mv) d pos) (\<lambda>(sc_matchmakeParam, pos).
     bindE (dec_at decode_bool d pos) (\<lambda>(sc_excludeUserPasswordSet, pos).
     bindE (dec_at decode_bool d pos) (\<lambda>(sc_excludeSystemPasswordSet, pos).
     bindE (dec_at decode_int d pos) (\<lambda>(sc_referGid, pos).
     Inr (\<lparr>sc_attributes = sc_attributes, sc_gameMode = sc_gameMode,
       sc_minParticipants = sc_minParticipants, sc_maxParticipants = sc_maxParticipants,
       sc_matchmakeSystemType = sc_matchmakeSystemType, sc_vacantOnly = sc_vacantOnly,
       sc_excludeLocked = sc_excludeLocked, sc_excludeNonHostPid = sc_excludeNonHostPid,
       sc_selectionMethod = sc_selectionMethod,
       sc_vacantParticipants = sc_vacantParticipants,
       sc_matchmakeParam = sc_matchmakeParam,
       sc_excludeUserPasswordSet = sc_excludeUserPasswordSet,
       sc_excludeSystemPasswordSet = sc_excludeSystemPasswordSet, sc_referGid = sc_referGid\<rparr>, pos))))))))))))))))"

definition matchmakeSessionSearchCriteria_ok :: "u8 \<Rightarrow> MatchmakeSessionSearchCriteria \<Rightarrow> bool" where
  "matchmakeSessionSearchCriteria_ok mv c \<longleftrightarrow>
     list_ok string_ok (sc_attributes c) \<and>
     string_ok (sc_gameMode c) \<and>
     string_ok (sc_minParticipants c) \<and>
     string_ok (sc_maxParticipants c) \<and>
     string_ok (sc_matchmakeSystemType c) \<and>
     matchmakeParam_ok mv (sc_matchmakeParam c)"

interpretation matchmakeSessionSearchCriteria_codec: wire_codec "encode_MatchmakeSessionSearchCriteria mv" "decode_MatchmakeSessionSearchCriteria mv" "matchmakeSessionSearchCriteria_ok mv" for mv
proof unfold_locales
  fix x rest assume "matchmakeSessionSearchCriteria_ok mv x"
  then have ok: "list_ok string_ok (sc_attributes x)" "string_ok (sc_gameMode x)" "string_ok (sc_minParticipants x)" "string_ok (sc_maxParticipants x)" "string_ok (sc_matchmakeSystemType x)" "matchmakeParam_ok mv (sc_matchmakeParam x)"
    by (simp_all add: matchmakeSessionSearchCriteria_ok_def)
  have "rest_at (encode_MatchmakeSessionSearchCriteria mv x @ rest) 0 (encode_MatchmakeSessionSearchCriteria mv x @ rest)" by simp
  then show "decode_MatchmakeSessionSearchCriteria mv (encode_MatchmakeSessionSearchCriteria mv x @ rest) = Inr (x, length (encode_MatchmakeSessionSearchCriteria mv x))"
    unfolding decode_MatchmakeSessionSearchCriteria_def
    apply (subst (asm) (2) encode_MatchmakeSessionSearchCriteria_def)
    apply (elim with_header_step)
    apply (simp only: append_assoc)
    apply ((erule match_steps, (rule TrueI | rule ok), simp only: prod.case)+)
    apply (simp add: encode_MatchmakeSessionSearchCriteria_def length_with_header)
    done
qed

text \<open>A list of criteria, for the parameter of an automatic match.\<close>

interpretation search_criteria_list_codec:
  wire_codec "encode_list (encode_MatchmakeSessionSearchCriteria mv)"
    "decode_list (decode_MatchmakeSessionSearchCriteria mv)"
    "list_ok (matchmakeSessionSearchCriteria_ok mv)" for mv
  by (rule matchmakeSessionSearchCriteria_codec.list_codec)

section \<open>The parameters of the matchmaking calls\<close>

record CreateMatchmakeSessionParam =
  cp_srcMatchmakeSession :: MatchmakeSession
  cp_additionalParticipants :: "u32 list"
  cp_gidForParticipationCheck :: u32
  cp_createMatchmakeSessionOption :: u32
  cp_joinMessage :: string
  cp_participationCount :: u16

definition encode_CreateMatchmakeSessionParam :: "u8 \<Rightarrow> CreateMatchmakeSessionParam \<Rightarrow> bytes" where
  "encode_CreateMatchmakeSessionParam mv p =
     with_header mv 0
       (encode_MatchmakeSession (cp_srcMatchmakeSession p) @
        encode_list encode_int (cp_additionalParticipants p) @
        encode_int (cp_gidForParticipationCheck p) @
        encode_int (cp_createMatchmakeSessionOption p) @ encode_string (cp_joinMessage p) @
        encode_int (cp_participationCount p))"

definition decode_CreateMatchmakeSessionParam :: "u8 \<Rightarrow> CreateMatchmakeSessionParam decoder" where
  "decode_CreateMatchmakeSessionParam mv d =
     bindE (decodeHeader mv 0 d) (\<lambda>pos.
     bindE (dec_at (decode_MatchmakeSession mv) d pos) (\<lambda>(cp_srcMatchmakeSession, pos).
     bindE (dec_at (decode_list decode_int) d pos) (\<lambda>(cp_additionalParticipants, pos).
     bindE (dec_at decode_int d pos) (\<lambda>(cp_gidForParticipationCheck, pos).
     bindE (dec_at decode_int d pos) (\<lambda>(cp_createMatchmakeSessionOption, pos).
     bindE (dec_at decode_string d pos) (\<lambda>(cp_joinMessage, pos).
     bindE (dec_at decode_int d pos) (\<lambda>(cp_participationCount, pos).
     Inr (\<lparr>cp_srcMatchmakeSession = cp_srcMatchmakeSession,
       cp_additionalParticipants = cp_additionalParticipants,
       cp_gidForParticipationCheck = cp_gidForParticipationCheck,
       cp_createMatchmakeSessionOption = cp_createMatchmakeSessionOption,
       cp_joinMessage = cp_joinMessage, cp_participationCount = cp_participationCount\<rparr>, pos))))))))"

definition createMatchmakeSessionParam_ok :: "u8 \<Rightarrow> CreateMatchmakeSessionParam \<Rightarrow> bool" where
  "createMatchmakeSessionParam_ok mv p \<longleftrightarrow>
     matchmakeSession_ok mv (cp_srcMatchmakeSession p) \<and>
     list_ok (\<lambda>_. True) (cp_additionalParticipants p) \<and>
     string_ok (cp_joinMessage p)"

interpretation createMatchmakeSessionParam_codec: wire_codec "encode_CreateMatchmakeSessionParam mv" "decode_CreateMatchmakeSessionParam mv" "createMatchmakeSessionParam_ok mv" for mv
proof unfold_locales
  fix x rest assume "createMatchmakeSessionParam_ok mv x"
  then have ok: "matchmakeSession_ok mv (cp_srcMatchmakeSession x)" "list_ok (\<lambda>_. True) (cp_additionalParticipants x)" "string_ok (cp_joinMessage x)"
    by (simp_all add: createMatchmakeSessionParam_ok_def)
  have "rest_at (encode_CreateMatchmakeSessionParam mv x @ rest) 0 (encode_CreateMatchmakeSessionParam mv x @ rest)" by simp
  then show "decode_CreateMatchmakeSessionParam mv (encode_CreateMatchmakeSessionParam mv x @ rest) = Inr (x, length (encode_CreateMatchmakeSessionParam mv x))"
    unfolding decode_CreateMatchmakeSessionParam_def
    apply (subst (asm) (2) encode_CreateMatchmakeSessionParam_def)
    apply (elim with_header_step)
    apply (simp only: append_assoc)
    apply ((erule match_steps, (rule TrueI | rule ok), simp only: prod.case)+)
    apply (simp add: encode_CreateMatchmakeSessionParam_def length_with_header)
    done
qed

record JoinMatchmakeSessionParam =
  jp_gid :: u32
  jp_additionalParticipants :: "u32 list"
  jp_gidForParticipationCheck :: u32
  jp_joinMatchmakeSessionOption :: u32
  jp_joinMathcmakeSessionBehavior :: u8
  jp_userPassword :: string
  jp_systemPassword :: string
  jp_joinMessage :: string
  jp_participationCount :: u16

definition encode_JoinMatchmakeSessionParam :: "u8 \<Rightarrow> JoinMatchmakeSessionParam \<Rightarrow> bytes" where
  "encode_JoinMatchmakeSessionParam mv p =
     with_header mv 0
       (encode_int (jp_gid p) @ encode_list encode_int (jp_additionalParticipants p) @
        encode_int (jp_gidForParticipationCheck p) @
        encode_int (jp_joinMatchmakeSessionOption p) @
        encode_int (jp_joinMathcmakeSessionBehavior p) @ encode_string (jp_userPassword p) @
        encode_string (jp_systemPassword p) @ encode_string (jp_joinMessage p) @
        encode_int (jp_participationCount p))"

definition decode_JoinMatchmakeSessionParam :: "u8 \<Rightarrow> JoinMatchmakeSessionParam decoder" where
  "decode_JoinMatchmakeSessionParam mv d =
     bindE (decodeHeader mv 0 d) (\<lambda>pos.
     bindE (dec_at decode_int d pos) (\<lambda>(jp_gid, pos).
     bindE (dec_at (decode_list decode_int) d pos) (\<lambda>(jp_additionalParticipants, pos).
     bindE (dec_at decode_int d pos) (\<lambda>(jp_gidForParticipationCheck, pos).
     bindE (dec_at decode_int d pos) (\<lambda>(jp_joinMatchmakeSessionOption, pos).
     bindE (dec_at decode_int d pos) (\<lambda>(jp_joinMathcmakeSessionBehavior, pos).
     bindE (dec_at decode_string d pos) (\<lambda>(jp_userPassword, pos).
     bindE (dec_at decode_string d pos) (\<lambda>(jp_systemPassword, pos).
     bindE (dec_at decode_string d pos) (\<lambda>(jp_joinMessage, pos).
     bindE (dec_at decode_int d pos) (\<lambda>(jp_participationCount, pos).
     Inr (\<lparr>jp_gid = jp_gid, jp_additionalParticipants = jp_additionalParticipants,
       jp_gidForParticipationCheck = jp_gidForParticipationCheck,
       jp_joinMatchmakeSessionOption = jp_joinMatchmakeSessionOption,
       jp_joinMathcmakeSessionBehavior = jp_joinMathcmakeSessionBehavior,
       jp_userPassword = jp_userPassword, jp_systemPassword = jp_systemPassword,
       jp_joinMessage = jp_joinMessage, jp_participationCount = jp_participationCount\<rparr>, pos)))))))))))"

definition joinMatchmakeSessionParam_ok :: "JoinMatchmakeSessionParam \<Rightarrow> bool" where
  "joinMatchmakeSessionParam_ok p \<longleftrightarrow>
     list_ok (\<lambda>_. True) (jp_additionalParticipants p) \<and>
     string_ok (jp_userPassword p) \<and>
     string_ok (jp_systemPassword p) \<and>
     string_ok (jp_joinMessage p)"

interpretation joinMatchmakeSessionParam_codec: safe_codec "encode_JoinMatchmakeSessionParam mv" "decode_JoinMatchmakeSessionParam mv" joinMatchmakeSessionParam_ok for mv
proof unfold_locales
  fix x rest assume "joinMatchmakeSessionParam_ok x"
  then have ok: "list_ok (\<lambda>_. True) (jp_additionalParticipants x)" "string_ok (jp_userPassword x)" "string_ok (jp_systemPassword x)" "string_ok (jp_joinMessage x)"
    by (simp_all add: joinMatchmakeSessionParam_ok_def)
  have "rest_at (encode_JoinMatchmakeSessionParam mv x @ rest) 0 (encode_JoinMatchmakeSessionParam mv x @ rest)" by simp
  then show "decode_JoinMatchmakeSessionParam mv (encode_JoinMatchmakeSessionParam mv x @ rest) = Inr (x, length (encode_JoinMatchmakeSessionParam mv x))"
    unfolding decode_JoinMatchmakeSessionParam_def
    apply (subst (asm) (2) encode_JoinMatchmakeSessionParam_def)
    apply (elim with_header_step)
    apply (simp only: append_assoc)
    apply ((erule match_steps, (rule TrueI | rule ok), simp only: prod.case)+)
    apply (simp add: encode_JoinMatchmakeSessionParam_def length_with_header)
    done
next
  have "safe_run d (decode_JoinMatchmakeSessionParam mv d)" for d
    unfolding decode_JoinMatchmakeSessionParam_def
    by (intro safe_steps) simp_all
  then show "consumes_within (decode_JoinMatchmakeSessionParam mv)" "never_undefined (decode_JoinMatchmakeSessionParam mv)"
    using safe_run_all by blast+
qed

record AutoMatchmakeParam =
  ap_srcMatchmakeSession :: MatchmakeSession
  ap_additionalParticipants :: "u32 list"
  ap_gidForParitipationCheck :: u32
  ap_autoMatchmakeOption :: u32
  ap_joinMessage :: string
  ap_participationCount :: u16
  ap_searchCriteria :: "MatchmakeSessionSearchCriteria list"
  ap_targetGids :: "u32 list"

definition encode_AutoMatchmakeParam :: "u8 \<Rightarrow> AutoMatchmakeParam \<Rightarrow> bytes" where
  "encode_AutoMatchmakeParam mv p =
     with_header mv 0
       (encode_MatchmakeSession (ap_srcMatchmakeSession p) @
        encode_list encode_int (ap_additionalParticipants p) @
        encode_int (ap_gidForParitipationCheck p) @ encode_int (ap_autoMatchmakeOption p) @
        encode_string (ap_joinMessage p) @ encode_int (ap_participationCount p) @
        encode_list (encode_MatchmakeSessionSearchCriteria mv) (ap_searchCriteria p) @
        encode_list encode_int (ap_targetGids p))"

definition decode_AutoMatchmakeParam :: "u8 \<Rightarrow> AutoMatchmakeParam decoder" where
  "decode_AutoMatchmakeParam mv d =
     bindE (decodeHeader mv 0 d) (\<lambda>pos.
     bindE (dec_at (decode_MatchmakeSession mv) d pos) (\<lambda>(ap_srcMatchmakeSession, pos).
     bindE (dec_at (decode_list decode_int) d pos) (\<lambda>(ap_additionalParticipants, pos).
     bindE (dec_at decode_int d pos) (\<lambda>(ap_gidForParitipationCheck, pos).
     bindE (dec_at decode_int d pos) (\<lambda>(ap_autoMatchmakeOption, pos).
     bindE (dec_at decode_string d pos) (\<lambda>(ap_joinMessage, pos).
     bindE (dec_at decode_int d pos) (\<lambda>(ap_participationCount, pos).
     bindE (dec_at (decode_list (decode_MatchmakeSessionSearchCriteria mv)) d pos) (\<lambda>(ap_searchCriteria, pos).
     bindE (dec_at (decode_list decode_int) d pos) (\<lambda>(ap_targetGids, pos).
     Inr (\<lparr>ap_srcMatchmakeSession = ap_srcMatchmakeSession,
       ap_additionalParticipants = ap_additionalParticipants,
       ap_gidForParitipationCheck = ap_gidForParitipationCheck,
       ap_autoMatchmakeOption = ap_autoMatchmakeOption, ap_joinMessage = ap_joinMessage,
       ap_participationCount = ap_participationCount,
       ap_searchCriteria = ap_searchCriteria, ap_targetGids = ap_targetGids\<rparr>, pos))))))))))"

definition autoMatchmakeParam_ok :: "u8 \<Rightarrow> AutoMatchmakeParam \<Rightarrow> bool" where
  "autoMatchmakeParam_ok mv p \<longleftrightarrow>
     matchmakeSession_ok mv (ap_srcMatchmakeSession p) \<and>
     list_ok (\<lambda>_. True) (ap_additionalParticipants p) \<and>
     string_ok (ap_joinMessage p) \<and>
     list_ok (matchmakeSessionSearchCriteria_ok mv) (ap_searchCriteria p) \<and>
     list_ok (\<lambda>_. True) (ap_targetGids p)"

interpretation autoMatchmakeParam_codec: wire_codec "encode_AutoMatchmakeParam mv" "decode_AutoMatchmakeParam mv" "autoMatchmakeParam_ok mv" for mv
proof unfold_locales
  fix x rest assume "autoMatchmakeParam_ok mv x"
  then have ok: "matchmakeSession_ok mv (ap_srcMatchmakeSession x)" "list_ok (\<lambda>_. True) (ap_additionalParticipants x)" "string_ok (ap_joinMessage x)" "list_ok (matchmakeSessionSearchCriteria_ok mv) (ap_searchCriteria x)" "list_ok (\<lambda>_. True) (ap_targetGids x)"
    by (simp_all add: autoMatchmakeParam_ok_def)
  have "rest_at (encode_AutoMatchmakeParam mv x @ rest) 0 (encode_AutoMatchmakeParam mv x @ rest)" by simp
  then show "decode_AutoMatchmakeParam mv (encode_AutoMatchmakeParam mv x @ rest) = Inr (x, length (encode_AutoMatchmakeParam mv x))"
    unfolding decode_AutoMatchmakeParam_def
    apply (subst (asm) (2) encode_AutoMatchmakeParam_def)
    apply (elim with_header_step)
    apply (simp only: append_assoc)
    apply ((erule match_steps search_criteria_list_codec.dec_field, (rule TrueI | rule ok), simp only: prod.case)+)
    apply (simp add: encode_AutoMatchmakeParam_def length_with_header)
    done
qed

record MatchmakeBlockListParam =
  optionFlag :: u32

definition encode_MatchmakeBlockListParam :: "u8 \<Rightarrow> MatchmakeBlockListParam \<Rightarrow> bytes" where
  "encode_MatchmakeBlockListParam mv p =
     with_header mv 0
       (encode_int (optionFlag p))"

definition decode_MatchmakeBlockListParam :: "u8 \<Rightarrow> MatchmakeBlockListParam decoder" where
  "decode_MatchmakeBlockListParam mv d =
     bindE (decodeHeader mv 0 d) (\<lambda>pos.
     bindE (dec_at decode_int d pos) (\<lambda>(optionFlag, pos).
     Inr (\<lparr>optionFlag = optionFlag\<rparr>, pos)))"

interpretation matchmakeBlockListParam_codec: safe_codec "encode_MatchmakeBlockListParam mv" "decode_MatchmakeBlockListParam mv" "\<lambda>_. True" for mv
proof unfold_locales
  fix x rest
  have "rest_at (encode_MatchmakeBlockListParam mv x @ rest) 0 (encode_MatchmakeBlockListParam mv x @ rest)" by simp
  then show "decode_MatchmakeBlockListParam mv (encode_MatchmakeBlockListParam mv x @ rest) = Inr (x, length (encode_MatchmakeBlockListParam mv x))"
    unfolding decode_MatchmakeBlockListParam_def
    apply (subst (asm) (2) encode_MatchmakeBlockListParam_def)
    apply (elim with_header_step)
    apply ((erule match_steps, rule TrueI, simp only: prod.case)+)
    apply (simp add: encode_MatchmakeBlockListParam_def length_with_header)
    done
next
  have "safe_run d (decode_MatchmakeBlockListParam mv d)" for d
    unfolding decode_MatchmakeBlockListParam_def
    by (intro safe_steps) simp_all
  then show "consumes_within (decode_MatchmakeBlockListParam mv)" "never_undefined (decode_MatchmakeBlockListParam mv)"
    using safe_run_all by blast+
qed

section \<open>NotificationEvent and PlayingSession\<close>

text \<open>
  \<^verbatim>\<open>NotificationEvent::decode\<close> starts at the type: it does not read the source pid that
  \<^verbatim>\<open>encode\<close> wrote, and leaves the field as the object had it. Only encoding is used by the server.
\<close>

record NotificationEvent =
  ne_srcPid :: u32
  ne_type :: u32
  ne_param1 :: u32
  ne_param2 :: u32
  ne_strParam :: string
  ne_param3 :: u32

definition encode_NotificationEvent :: "u8 \<Rightarrow> NotificationEvent \<Rightarrow> bytes" where
  "encode_NotificationEvent mv e =
     with_header mv 0
       (encode_int (ne_srcPid e) @ encode_int (ne_type e) @ encode_int (ne_param1 e) @
        encode_int (ne_param2 e) @ encode_string (ne_strParam e) @ encode_int (ne_param3 e))"

definition decode_NotificationEvent :: "u8 \<Rightarrow> u32 \<Rightarrow> NotificationEvent decoder" where
  "decode_NotificationEvent mv srcPid d =
     bindE (decodeHeader mv 0 d) (\<lambda>pos.
     bindE (dec_at decode_int d pos) (\<lambda>(ty, pos).
     bindE (dec_at decode_int d pos) (\<lambda>(param1, pos).
     bindE (dec_at decode_int d pos) (\<lambda>(param2, pos).
     bindE (dec_at decode_string d pos) (\<lambda>(strParam, pos).
     bindE (dec_at decode_int d pos) (\<lambda>(param3, pos).
     Inr (\<lparr>ne_srcPid = srcPid, ne_type = ty, ne_param1 = param1, ne_param2 = param2,
       ne_strParam = strParam, ne_param3 = param3\<rparr>, pos)))))))"

text \<open>A \<^verbatim>\<open>PlayingSession\<close> wraps its gathering in an \<^verbatim>\<open>AnyDataHolder\<close>; its header says length 0.\<close>

record PlayingSession =
  ps_pid :: u32
  ps_gathering :: Gathering

definition encode_PlayingSession :: "u8 \<Rightarrow> PlayingSession \<Rightarrow> bytes" where
  "encode_PlayingSession mv p =
     encodeHeader mv 0 0 @ encode_int (ps_pid p) @
     encode_AnyDataHolder \<lparr>adh_type = ''Gathering'', adh_data = encode_Gathering (ps_gathering p)\<rparr>"

definition decode_PlayingSession :: "u8 \<Rightarrow> PlayingSession decoder" where
  "decode_PlayingSession mv d =
     bindE (decodeHeader mv 0 d) (\<lambda>pos.
     bindE (dec_at decode_int d pos) (\<lambda>(pid, pos).
     bindE (dec_at decode_AnyDataHolder d pos) (\<lambda>(a, pos).
     if adh_type a \<noteq> ''Gathering'' then Inl MalformedException
     else bindE (decode_Gathering mv (adh_data a)) (\<lambda>(g, _).
       Inr (\<lparr>ps_pid = pid, ps_gathering = g\<rparr>, pos)))))"

lemma decode_PlayingSession_encode:
  assumes "gathering_ok mv (ps_gathering p)"
    and small: "length (encode_Gathering (ps_gathering p)) + 4 < 2 ^ 32"
  shows "decode_PlayingSession mv (encode_PlayingSession mv p @ rest) =
    Inr (p, length (encode_PlayingSession mv p))"
proof -
  let ?a = "\<lparr>adh_type = ''Gathering'', adh_data = encode_Gathering (ps_gathering p)\<rparr>"
  have ok: "AnyDataHolder_ok ?a" using small by (simp add: AnyDataHolder_ok_def string_ok_def)
  have "rest_at (encode_PlayingSession mv p @ rest) 0 (encode_PlayingSession mv p @ rest)" by simp
  then show ?thesis
    unfolding decode_PlayingSession_def
    apply (subst (asm) (2) encode_PlayingSession_def)
    apply (simp only: append_assoc)
    apply (erule header_step, simp)
    apply (erule u32_codec.dec_field, rule TrueI, simp only: prod.case)
    apply (erule adh_codec.dec_field, rule ok, simp only: prod.case)
    apply (simp add: gathering_codec.roundtrip_exact [OF assms(1)] encode_PlayingSession_def)
    done
qed

section \<open>Competition ranking\<close>

record CompetitionRankingScoreData =
  sd_minorVersion :: u8
  sd_unk1 :: u32
  sd_userId :: u32
  sd_score :: u32
  sd_uploadDate :: time_point
  sd_unk4 :: u8
  sd_appData :: bytes

definition encode_CompetitionRankingScoreData :: "CompetitionRankingScoreData \<Rightarrow> bytes" where
  "encode_CompetitionRankingScoreData s =
     with_header (sd_minorVersion s) 0
       (encode_int (sd_unk1 s) @ encode_int (sd_userId s) @ encode_int (sd_score s) @
        encode_Datetime (sd_uploadDate s) @ encode_int (sd_unk4 s) @
        encode_buffer TYPE(16) (sd_appData s))"

definition decode_CompetitionRankingScoreData :: "u8 \<Rightarrow> CompetitionRankingScoreData decoder" where
  "decode_CompetitionRankingScoreData mv d =
     bindE (decodeHeader mv 0 d) (\<lambda>pos.
     bindE (dec_at decode_int d pos) (\<lambda>(sd_unk1, pos).
     bindE (dec_at decode_int d pos) (\<lambda>(sd_userId, pos).
     bindE (dec_at decode_int d pos) (\<lambda>(sd_score, pos).
     bindE (dec_at decode_Datetime d pos) (\<lambda>(sd_uploadDate, pos).
     bindE (dec_at decode_int d pos) (\<lambda>(sd_unk4, pos).
     bindE (dec_at (decode_buffer TYPE(16)) d pos) (\<lambda>(sd_appData, pos).
     Inr (\<lparr>sd_minorVersion = mv, sd_unk1 = sd_unk1, sd_userId = sd_userId, sd_score = sd_score,
       sd_uploadDate = sd_uploadDate, sd_unk4 = sd_unk4, sd_appData = sd_appData\<rparr>, pos))))))))"

definition competitionRankingScoreData_ok :: "u8 \<Rightarrow> CompetitionRankingScoreData \<Rightarrow> bool" where
  "competitionRankingScoreData_ok mv s \<longleftrightarrow>
     sd_minorVersion s = mv \<and>
     whole_seconds (sd_uploadDate s) \<and>
     length (sd_appData s) < 2 ^ LENGTH(16)"

interpretation competitionRankingScoreData_codec: safe_codec encode_CompetitionRankingScoreData "decode_CompetitionRankingScoreData mv" "competitionRankingScoreData_ok mv" for mv
proof unfold_locales
  fix x rest assume "competitionRankingScoreData_ok mv x"
  then have ok: "sd_minorVersion x = mv" "whole_seconds (sd_uploadDate x)" "length (sd_appData x) < 2 ^ LENGTH(16)"
    by (simp_all add: competitionRankingScoreData_ok_def)
  have "rest_at (encode_CompetitionRankingScoreData x @ rest) 0 (encode_CompetitionRankingScoreData x @ rest)" by simp
  then show "decode_CompetitionRankingScoreData mv (encode_CompetitionRankingScoreData x @ rest) = Inr (x, length (encode_CompetitionRankingScoreData x))"
    unfolding decode_CompetitionRankingScoreData_def
    apply (subst (asm) (2) encode_CompetitionRankingScoreData_def)
    apply (simp only: ok)
    apply (elim with_header_step)
    apply (simp only: append_assoc)
    apply ((erule match_steps, (rule TrueI | rule ok), simp only: prod.case)+)
    apply (simp add: encode_CompetitionRankingScoreData_def length_with_header ok)
    done
next
  have "safe_run d (decode_CompetitionRankingScoreData mv d)" for d
    unfolding decode_CompetitionRankingScoreData_def
    by (intro safe_steps datetime_codec.safe_field) simp_all
  then show "consumes_within (decode_CompetitionRankingScoreData mv)" "never_undefined (decode_CompetitionRankingScoreData mv)"
    using safe_run_all by blast+
qed

text \<open>
  The score list of a \<^verbatim>\<open>CompetitionRankingScoreInfo\<close> is default-constructed: on decoding, its items
  have minor version 0; on encoding, each item has the version it was made with.
\<close>

interpretation score_data_list_codec:
  safe_codec "encode_list encode_CompetitionRankingScoreData"
    "decode_list (decode_CompetitionRankingScoreData mv)"
    "list_ok (competitionRankingScoreData_ok mv)" for mv
  by (rule competitionRankingScoreData_codec.safe_list_codec)

record CompetitionRankingScoreInfo =
  si_festivalId :: u32
  si_scoreData :: "CompetitionRankingScoreData list"
  si_unk1 :: u32
  si_teamWins :: "u32 list"
  si_teamVotes :: "u32 list"

definition encode_CompetitionRankingScoreInfo :: "u8 \<Rightarrow> CompetitionRankingScoreInfo \<Rightarrow> bytes" where
  "encode_CompetitionRankingScoreInfo mv s =
     with_header mv 0
       (encode_int (si_festivalId s) @
        encode_list encode_CompetitionRankingScoreData (si_scoreData s) @
        encode_int (si_unk1 s) @ encode_list encode_int (si_teamWins s) @
        encode_list encode_int (si_teamVotes s))"

definition decode_CompetitionRankingScoreInfo :: "u8 \<Rightarrow> CompetitionRankingScoreInfo decoder" where
  "decode_CompetitionRankingScoreInfo mv d =
     bindE (decodeHeader mv 0 d) (\<lambda>pos.
     bindE (dec_at decode_int d pos) (\<lambda>(si_festivalId, pos).
     bindE (dec_at (decode_list (decode_CompetitionRankingScoreData 0)) d pos) (\<lambda>(si_scoreData, pos).
     bindE (dec_at decode_int d pos) (\<lambda>(si_unk1, pos).
     bindE (dec_at (decode_list decode_int) d pos) (\<lambda>(si_teamWins, pos).
     bindE (dec_at (decode_list decode_int) d pos) (\<lambda>(si_teamVotes, pos).
     Inr (\<lparr>si_festivalId = si_festivalId, si_scoreData = si_scoreData, si_unk1 = si_unk1,
       si_teamWins = si_teamWins, si_teamVotes = si_teamVotes\<rparr>, pos)))))))"

definition competitionRankingScoreInfo_ok :: "CompetitionRankingScoreInfo \<Rightarrow> bool" where
  "competitionRankingScoreInfo_ok s \<longleftrightarrow>
     list_ok (competitionRankingScoreData_ok 0) (si_scoreData s) \<and>
     list_ok (\<lambda>_. True) (si_teamWins s) \<and>
     list_ok (\<lambda>_. True) (si_teamVotes s)"

interpretation competitionRankingScoreInfo_codec: safe_codec "encode_CompetitionRankingScoreInfo mv" "decode_CompetitionRankingScoreInfo mv" competitionRankingScoreInfo_ok for mv
proof unfold_locales
  fix x rest assume "competitionRankingScoreInfo_ok x"
  then have ok: "list_ok (competitionRankingScoreData_ok 0) (si_scoreData x)" "list_ok (\<lambda>_. True) (si_teamWins x)" "list_ok (\<lambda>_. True) (si_teamVotes x)"
    by (simp_all add: competitionRankingScoreInfo_ok_def)
  have "rest_at (encode_CompetitionRankingScoreInfo mv x @ rest) 0 (encode_CompetitionRankingScoreInfo mv x @ rest)" by simp
  then show "decode_CompetitionRankingScoreInfo mv (encode_CompetitionRankingScoreInfo mv x @ rest) = Inr (x, length (encode_CompetitionRankingScoreInfo mv x))"
    unfolding decode_CompetitionRankingScoreInfo_def
    apply (subst (asm) (2) encode_CompetitionRankingScoreInfo_def)
    apply (elim with_header_step)
    apply (simp only: append_assoc)
    apply ((erule match_steps score_data_list_codec.dec_field, (rule TrueI | rule ok), simp only: prod.case)+)
    apply (simp add: encode_CompetitionRankingScoreInfo_def length_with_header)
    done
next
  have "safe_run d (decode_CompetitionRankingScoreInfo mv d)" for d
    unfolding decode_CompetitionRankingScoreInfo_def
    by (intro safe_steps score_data_list_codec.safe_field) simp_all
  then show "consumes_within (decode_CompetitionRankingScoreInfo mv)" "never_undefined (decode_CompetitionRankingScoreInfo mv)"
    using safe_run_all by blast+
qed

interpretation ResultRange_codec:
  safe_codec "encode_ResultRange mv" "decode_ResultRange mv" "\<lambda>_. True" for mv
proof unfold_locales
  fix x rest
  show "decode_ResultRange mv (encode_ResultRange mv x @ rest) = Inr (x, length (encode_ResultRange mv x))"
    by (rule ResultRange_roundtrip)
next
  have "safe_run d (decode_ResultRange mv d)" for d
    unfolding decode_ResultRange_def by (intro safe_steps) simp_all
  then show "consumes_within (decode_ResultRange mv)" "never_undefined (decode_ResultRange mv)"
    using safe_run_all by blast+
qed

record CompetitionRankingGetParam =
  gp_unk1 :: u32
  gp_resultRange :: ResultRange
  gp_festivalIds :: "u32 list"

definition encode_CompetitionRankingGetParam :: "u8 \<Rightarrow> CompetitionRankingGetParam \<Rightarrow> bytes" where
  "encode_CompetitionRankingGetParam mv p =
     with_header mv 1
       (encode_int (gp_unk1 p) @ encode_ResultRange mv (gp_resultRange p) @
        encode_list encode_int (gp_festivalIds p))"

definition decode_CompetitionRankingGetParam :: "u8 \<Rightarrow> CompetitionRankingGetParam decoder" where
  "decode_CompetitionRankingGetParam mv d =
     bindE (decodeHeader mv 1 d) (\<lambda>pos.
     bindE (dec_at decode_int d pos) (\<lambda>(gp_unk1, pos).
     bindE (dec_at (decode_ResultRange mv) d pos) (\<lambda>(gp_resultRange, pos).
     bindE (dec_at (decode_list decode_int) d pos) (\<lambda>(gp_festivalIds, pos).
     Inr (\<lparr>gp_unk1 = gp_unk1, gp_resultRange = gp_resultRange, gp_festivalIds = gp_festivalIds\<rparr>, pos)))))"

definition competitionRankingGetParam_ok :: "CompetitionRankingGetParam \<Rightarrow> bool" where
  "competitionRankingGetParam_ok p \<longleftrightarrow>
     list_ok (\<lambda>_. True) (gp_festivalIds p)"

interpretation competitionRankingGetParam_codec: safe_codec "encode_CompetitionRankingGetParam mv" "decode_CompetitionRankingGetParam mv" competitionRankingGetParam_ok for mv
proof unfold_locales
  fix x rest assume "competitionRankingGetParam_ok x"
  then have ok: "list_ok (\<lambda>_. True) (gp_festivalIds x)"
    by (simp_all add: competitionRankingGetParam_ok_def)
  have "rest_at (encode_CompetitionRankingGetParam mv x @ rest) 0 (encode_CompetitionRankingGetParam mv x @ rest)" by simp
  then show "decode_CompetitionRankingGetParam mv (encode_CompetitionRankingGetParam mv x @ rest) = Inr (x, length (encode_CompetitionRankingGetParam mv x))"
    unfolding decode_CompetitionRankingGetParam_def
    apply (subst (asm) (2) encode_CompetitionRankingGetParam_def)
    apply (elim with_header_step)
    apply (simp only: append_assoc)
    apply ((erule match_steps ResultRange_codec.dec_field, (rule TrueI | rule ok), simp only: prod.case)+)
    apply (simp add: encode_CompetitionRankingGetParam_def length_with_header)
    done
next
  have "safe_run d (decode_CompetitionRankingGetParam mv d)" for d
    unfolding decode_CompetitionRankingGetParam_def
    by (intro safe_steps ResultRange_codec.safe_field) simp_all
  then show "consumes_within (decode_CompetitionRankingGetParam mv)" "never_undefined (decode_CompetitionRankingGetParam mv)"
    using safe_run_all by blast+
qed

record CompetitionRankingUploadScoreParam =
  up_unk1 :: u32
  up_festivalId :: u32
  up_unk2 :: u32
  up_score :: u32
  up_teamId :: u8
  up_teamScore :: u32
  up_isFirstUpload :: bool
  up_appData :: bytes

definition encode_CompetitionRankingUploadScoreParam :: "u8 \<Rightarrow> CompetitionRankingUploadScoreParam \<Rightarrow> bytes" where
  "encode_CompetitionRankingUploadScoreParam mv p =
     with_header mv 0
       (encode_int (up_unk1 p) @ encode_int (up_festivalId p) @ encode_int (up_unk2 p) @
        encode_int (up_score p) @ encode_int (up_teamId p) @ encode_int (up_teamScore p) @
        encode_bool (up_isFirstUpload p) @ encode_buffer TYPE(16) (up_appData p))"

definition decode_CompetitionRankingUploadScoreParam :: "u8 \<Rightarrow> CompetitionRankingUploadScoreParam decoder" where
  "decode_CompetitionRankingUploadScoreParam mv d =
     bindE (decodeHeader mv 0 d) (\<lambda>pos.
     bindE (dec_at decode_int d pos) (\<lambda>(up_unk1, pos).
     bindE (dec_at decode_int d pos) (\<lambda>(up_festivalId, pos).
     bindE (dec_at decode_int d pos) (\<lambda>(up_unk2, pos).
     bindE (dec_at decode_int d pos) (\<lambda>(up_score, pos).
     bindE (dec_at decode_int d pos) (\<lambda>(up_teamId, pos).
     bindE (dec_at decode_int d pos) (\<lambda>(up_teamScore, pos).
     bindE (dec_at decode_bool d pos) (\<lambda>(up_isFirstUpload, pos).
     bindE (dec_at (decode_buffer TYPE(16)) d pos) (\<lambda>(up_appData, pos).
     Inr (\<lparr>up_unk1 = up_unk1, up_festivalId = up_festivalId, up_unk2 = up_unk2,
       up_score = up_score, up_teamId = up_teamId, up_teamScore = up_teamScore,
       up_isFirstUpload = up_isFirstUpload, up_appData = up_appData\<rparr>, pos))))))))))"

definition competitionRankingUploadScoreParam_ok :: "CompetitionRankingUploadScoreParam \<Rightarrow> bool" where
  "competitionRankingUploadScoreParam_ok p \<longleftrightarrow>
     length (up_appData p) < 2 ^ LENGTH(16)"

interpretation competitionRankingUploadScoreParam_codec: safe_codec "encode_CompetitionRankingUploadScoreParam mv" "decode_CompetitionRankingUploadScoreParam mv" competitionRankingUploadScoreParam_ok for mv
proof unfold_locales
  fix x rest assume "competitionRankingUploadScoreParam_ok x"
  then have ok: "length (up_appData x) < 2 ^ LENGTH(16)"
    by (simp_all add: competitionRankingUploadScoreParam_ok_def)
  have "rest_at (encode_CompetitionRankingUploadScoreParam mv x @ rest) 0 (encode_CompetitionRankingUploadScoreParam mv x @ rest)" by simp
  then show "decode_CompetitionRankingUploadScoreParam mv (encode_CompetitionRankingUploadScoreParam mv x @ rest) = Inr (x, length (encode_CompetitionRankingUploadScoreParam mv x))"
    unfolding decode_CompetitionRankingUploadScoreParam_def
    apply (subst (asm) (2) encode_CompetitionRankingUploadScoreParam_def)
    apply (elim with_header_step)
    apply (simp only: append_assoc)
    apply ((erule match_steps, (rule TrueI | rule ok), simp only: prod.case)+)
    apply (simp add: encode_CompetitionRankingUploadScoreParam_def length_with_header)
    done
next
  have "safe_run d (decode_CompetitionRankingUploadScoreParam mv d)" for d
    unfolding decode_CompetitionRankingUploadScoreParam_def
    by (intro safe_steps) simp_all
  then show "consumes_within (decode_CompetitionRankingUploadScoreParam mv)" "never_undefined (decode_CompetitionRankingUploadScoreParam mv)"
    using safe_run_all by blast+
qed

section \<open>Addresses of clients\<close>

text \<open>The \<^verbatim>\<open>ip\<close> of a \<^verbatim>\<open>StationURL\<close> taken from the address of a socket.\<close>

definition ip_of_address :: "IPv4Addr \<Rightarrow> ip4" where
  "ip_of_address a = (ip_a a, ip_b a, ip_c a, ip_d a)"

section \<open>RVConnectionData\<close>

record RVConnectionData =
  urlRegularProtocols :: StationURL
  lstSpecialProtocols :: bytes
  urlSpecialProtocols :: StationURL

definition encode_RVConnectionData :: "u8 \<Rightarrow> RVConnectionData \<Rightarrow> bytes" where
  "encode_RVConnectionData mv c =
     with_header mv 0
       (encode_StationURL (urlRegularProtocols c) @ encode_buffer TYPE(32) (lstSpecialProtocols c) @
        encode_StationURL (urlSpecialProtocols c))"

definition decode_RVConnectionData :: "inet_pton \<Rightarrow> u8 \<Rightarrow> RVConnectionData decoder" where
  "decode_RVConnectionData inet mv d =
     bindE (decodeHeader mv 0 d) (\<lambda>pos.
     bindE (dec_at (decode_StationURL inet) d pos) (\<lambda>(regular, pos).
     bindE (dec_at (decode_buffer TYPE(32)) d pos) (\<lambda>(lst, pos).
     bindE (dec_at (decode_StationURL inet) d pos) (\<lambda>(special, pos).
     Inr (\<lparr>urlRegularProtocols = regular, lstSpecialProtocols = lst,
       urlSpecialProtocols = special\<rparr>, pos)))))"

lemma station_url_codec: "inet_inverse inet \<Longrightarrow> wire_codec encode_StationURL (decode_StationURL inet) url_ok"
  by unfold_locales (rule decode_StationURL_encode)

lemma decode_RVConnectionData_encode:
  assumes inet: "inet_inverse inet" and ok: "url_ok (urlRegularProtocols c)"
    "url_ok (urlSpecialProtocols c)" "length (lstSpecialProtocols c) < 2 ^ LENGTH(32)"
  shows "decode_RVConnectionData inet mv (encode_RVConnectionData mv c @ rest) =
    Inr (c, length (encode_RVConnectionData mv c))"
proof -
  note url_step = wire_codec.dec_field [OF station_url_codec [OF inet]]
  have "rest_at (encode_RVConnectionData mv c @ rest) 0 (encode_RVConnectionData mv c @ rest)" by simp
  then show ?thesis
    unfolding decode_RVConnectionData_def
    apply (subst (asm) (2) encode_RVConnectionData_def)
    apply (elim with_header_step)
    apply (simp only: append_assoc)
    apply ((erule field_steps url_step, rule ok, simp only: prod.case)+)
    apply (simp add: encode_RVConnectionData_def length_with_header)
    done
qed

end
