(* ===== verification/SharedState.thy ===== *)
theory SharedState
  imports Rmc MatchTypes "HOL-Library.AList"
begin

text \<open>
  \<^verbatim>\<open>LocalSharedState\<close> (\<^verbatim>\<open>src/sharedState/localSharedState.cpp\<close>): the registered clients and the
  matchmake sessions of one server. A \<^verbatim>\<open>shared_ptr<MatchmakeSession>\<close> is an address into an explicit
  heap, because the sources hand the same object to the session table, to the clients' gatherings
  and to whoever asked for it, and a write through one of them is seen through all. An
  \<^verbatim>\<open>unordered_map\<close> is an association list; its order stands for the iteration order, which the
  standard leaves open. A \<^verbatim>\<open>std::set\<close> of pids is an ascending list. The mutex makes every
  operation one atomic step. No null pointer is ever stored: only the argument of
  \<open>setSplatoonMatchmakeSession\<close> can be one, and is an option.
\<close>

section \<open>Data\<close>

type_synonym addr = nat

record NATProperties =
  np_mapping :: u32
  np_filtering :: u32
  np_rtt :: u32

record SplatoonRegisteredClientInfo =
  sr_client :: ClientInfo
  sr_urls :: "StationURL list"
  sr_publicUrl :: StationURL
  sr_rvConnId :: u32
  joinedGatherings :: "addr list"
  lastReportedNATProperties :: NATProperties

record SessionInfo =
  si_session :: addr
  si_players :: "u32 list"

record UserPreference =
  showOnline :: bool
  showPlaying :: bool
  blockFriendRequest :: bool

record FriendsRegisteredClientInfo =
  fr_client :: ClientInfo
  fr_pid :: u32
  fr_preference :: UserPreference
  fr_friends :: "u32 list"

datatype ss_result = SUCCESS | FAILURE

record LocalSharedState =
  ss_serverId :: u32
  publicFacingRPCAddress :: string
  friendsInfos :: "(u32 \<times> FriendsRegisteredClientInfo) list"
  clientInfos :: "(u32 \<times> SplatoonRegisteredClientInfo) list"
  sessions :: "(u32 \<times> SessionInfo) list"
  heap :: "addr \<Rightarrow> MatchmakeSession"
  next_addr :: addr

section \<open>The friends' clients\<close>

definition getPublicFacingRPCAddress :: "LocalSharedState \<Rightarrow> u32 \<Rightarrow> string option" where
  "getPublicFacingRPCAddress s sid =
     (if sid = ss_serverId s then Some (publicFacingRPCAddress s) else None)"

definition setFriendsRegisteredClientInfo ::
  "FriendsRegisteredClientInfo \<Rightarrow> LocalSharedState \<Rightarrow> LocalSharedState" where
  "setFriendsRegisteredClientInfo info s =
     s\<lparr>friendsInfos := AList.update (fr_pid info) info (friendsInfos s)\<rparr>"

definition getFriendsRegisteredClientInfo ::
  "LocalSharedState \<Rightarrow> u32 \<Rightarrow> FriendsRegisteredClientInfo option" where
  "getFriendsRegisteredClientInfo s pid = map_of (friendsInfos s) pid"

definition deleteFriendsRegisteredClientInfo :: "u32 \<Rightarrow> LocalSharedState \<Rightarrow> LocalSharedState" where
  "deleteFriendsRegisteredClientInfo pid s = s\<lparr>friendsInfos := AList.delete pid (friendsInfos s)\<rparr>"

text \<open>A change of one entry where it is, if it is there.\<close>

definition update_friends ::
  "u32 \<Rightarrow> (FriendsRegisteredClientInfo \<Rightarrow> FriendsRegisteredClientInfo) \<Rightarrow> LocalSharedState
    \<Rightarrow> LocalSharedState" where
  "update_friends pid f s =
     (case map_of (friendsInfos s) pid of
        None \<Rightarrow> s
      | Some i \<Rightarrow> s\<lparr>friendsInfos := AList.update pid (f i) (friendsInfos s)\<rparr>)"

definition addFriendToRegisteredClientInfo :: "u32 \<Rightarrow> u32 \<Rightarrow> LocalSharedState \<Rightarrow> LocalSharedState" where
  "addFriendToRegisteredClientInfo pid f =
     update_friends pid (\<lambda>i. i\<lparr>fr_friends := insort_insert f (fr_friends i)\<rparr>)"

definition removeFriendFromRegisteredClientInfo ::
  "u32 \<Rightarrow> u32 \<Rightarrow> LocalSharedState \<Rightarrow> LocalSharedState" where
  "removeFriendFromRegisteredClientInfo pid f =
     update_friends pid (\<lambda>i. i\<lparr>fr_friends := remove1 f (fr_friends i)\<rparr>)"

definition updatePreferenceInRegisteredFriendsClientInfo ::
  "u32 \<Rightarrow> UserPreference \<Rightarrow> LocalSharedState \<Rightarrow> LocalSharedState" where
  "updatePreferenceInRegisteredFriendsClientInfo pid p =
     update_friends pid (\<lambda>i. i\<lparr>fr_preference := p\<rparr>)"

definition getFriendsRegisteredClientCount :: "LocalSharedState \<Rightarrow> nat" where
  "getFriendsRegisteredClientCount s = length (friendsInfos s)"

section \<open>The Splatoon clients\<close>

definition setSplatoonRegisteredClientInfo ::
  "SplatoonRegisteredClientInfo \<Rightarrow> LocalSharedState \<Rightarrow> LocalSharedState" where
  "setSplatoonRegisteredClientInfo info s =
     s\<lparr>clientInfos := AList.update (ci_pid (sr_client info)) info (clientInfos s)\<rparr>"

definition current_address :: "LocalSharedState \<Rightarrow> addr \<Rightarrow> addr" where
  "current_address s a =
     (case map_of (sessions s) (g_id (heap s a)) of None \<Rightarrow> a | Some si \<Rightarrow> si_session si)"

definition getSplatoonRegisteredClientInfo ::
  "LocalSharedState \<Rightarrow> u32 \<Rightarrow> SplatoonRegisteredClientInfo option" where
  "getSplatoonRegisteredClientInfo s pid =
     (case map_of (clientInfos s) pid of
        None \<Rightarrow> None
      | Some ci \<Rightarrow> Some (ci\<lparr>joinedGatherings := map (current_address s) (joinedGatherings ci)\<rparr>))"

definition set_participationCount :: "addr \<Rightarrow> nat \<Rightarrow> LocalSharedState \<Rightarrow> LocalSharedState" where
  "set_participationCount a n s =
     s\<lparr>heap := (heap s)(a := (heap s a)\<lparr>participationCount := of_nat n\<rparr>)\<rparr>"

text \<open>A player leaves the session a gathering names, if there is one.\<close>

definition leave_session :: "u32 \<Rightarrow> addr \<Rightarrow> LocalSharedState \<Rightarrow> LocalSharedState" where
  "leave_session pid a s =
     (let gId = g_id (heap s a)
      in case map_of (sessions s) gId of
           None \<Rightarrow> s
         | Some si \<Rightarrow>
             (let players = remove1 pid (si_players si)
              in set_participationCount (si_session si) (length players)
                   (s\<lparr>sessions := AList.update gId (si\<lparr>si_players := players\<rparr>) (sessions s)\<rparr>)))"

definition deleteSplatoonRegisteredClientInfo :: "u32 \<Rightarrow> LocalSharedState \<Rightarrow> LocalSharedState" where
  "deleteSplatoonRegisteredClientInfo pid s =
     (let s' = (case map_of (clientInfos s) pid of
                  None \<Rightarrow> s
                | Some ci \<Rightarrow> fold (leave_session pid) (joinedGatherings ci) s)
      in s'\<lparr>clientInfos := AList.delete pid (clientInfos s')\<rparr>)"

definition update_client ::
  "u32 \<Rightarrow> (SplatoonRegisteredClientInfo \<Rightarrow> SplatoonRegisteredClientInfo) \<Rightarrow> LocalSharedState
    \<Rightarrow> LocalSharedState" where
  "update_client pid f s =
     (case map_of (clientInfos s) pid of
        None \<Rightarrow> s
      | Some ci \<Rightarrow> s\<lparr>clientInfos := AList.update pid (f ci) (clientInfos s)\<rparr>)"

definition updateSplatoonRegisteredClientURLs ::
  "u32 \<Rightarrow> StationURL list \<Rightarrow> LocalSharedState \<Rightarrow> LocalSharedState" where
  "updateSplatoonRegisteredClientURLs pid urls = update_client pid (\<lambda>ci. ci\<lparr>sr_urls := urls\<rparr>)"

definition updateSplatoonRegisteredClientLastReportedNATProperties ::
  "u32 \<Rightarrow> NATProperties \<Rightarrow> LocalSharedState \<Rightarrow> LocalSharedState" where
  "updateSplatoonRegisteredClientLastReportedNATProperties pid np =
     update_client pid (\<lambda>ci. ci\<lparr>lastReportedNATProperties := np\<rparr>)"

definition getSplatoonRegisteredClientCount :: "LocalSharedState \<Rightarrow> nat" where
  "getSplatoonRegisteredClientCount s = length (clientInfos s)"

section \<open>The sessions\<close>

text \<open>The first gathering of a list with a given id: found, erased, or replaced.\<close>

definition is_gathering :: "(addr \<Rightarrow> MatchmakeSession) \<Rightarrow> u32 \<Rightarrow> addr \<Rightarrow> bool" where
  "is_gathering h gId a \<longleftrightarrow> g_id (h a) = gId"

fun erase_first :: "('a \<Rightarrow> bool) \<Rightarrow> 'a list \<Rightarrow> 'a list" where
  "erase_first P [] = []"
| "erase_first P (x # xs) = (if P x then xs else x # erase_first P xs)"

fun replace_first :: "('a \<Rightarrow> bool) \<Rightarrow> 'a \<Rightarrow> 'a list \<Rightarrow> 'a list" where
  "replace_first P y [] = []"
| "replace_first P y (x # xs) = (if P x then y # xs else x # replace_first P y xs)"

text \<open>What a client's gatherings become when it is, or is not, a player of session \<open>gId\<close>.\<close>

definition sync_gatherings ::
  "(addr \<Rightarrow> MatchmakeSession) \<Rightarrow> u32 \<Rightarrow> addr \<Rightarrow> bool \<Rightarrow> addr list \<Rightarrow> addr list" where
  "sync_gatherings h gId a member js =
     (let found = list_ex (is_gathering h gId) js
      in if member \<and> \<not> found then js @ [a]
         else if \<not> member \<and> found then erase_first (is_gathering h gId) js
         else if member \<and> found then replace_first (is_gathering h gId) a js
         else js)"

definition setSplatoonMatchmakeSession ::
  "addr option \<Rightarrow> u32 list \<Rightarrow> LocalSharedState \<Rightarrow> ss_result \<times> LocalSharedState" where
  "setSplatoonMatchmakeSession ptr players s =
     (case ptr of
        None \<Rightarrow> (FAILURE, s)
      | Some a0 \<Rightarrow>
          (let gId = g_id (heap s a0);
               a = next_addr s;
               h = (heap s)(a := (heap s a0)\<lparr>participationCount := of_nat (length players)\<rparr>)
           in (SUCCESS, s\<lparr>heap := h, next_addr := a + 1,
                 sessions := AList.update gId \<lparr>si_session = a, si_players = players\<rparr> (sessions s),
                 clientInfos := map (\<lambda>(pid, ci). (pid, ci\<lparr>joinedGatherings :=
                     sync_gatherings h gId a (pid \<in> set players) (joinedGatherings ci)\<rparr>))
                   (clientInfos s)\<rparr>)))"

definition updateSplatoonMatchmakeSession ::
  "addr option \<Rightarrow> u32 list \<Rightarrow> LocalSharedState \<Rightarrow> ss_result \<times> LocalSharedState" where
  "updateSplatoonMatchmakeSession = setSplatoonMatchmakeSession"

definition getSplatoonMatchmakeSession :: "LocalSharedState \<Rightarrow> u32 \<Rightarrow> SessionInfo option" where
  "getSplatoonMatchmakeSession s gId = map_of (sessions s) gId"

definition getAllSplatoonMatchmakeSessions :: "LocalSharedState \<Rightarrow> (u32 \<times> SessionInfo) list" where
  "getAllSplatoonMatchmakeSessions s = sessions s"

definition getSplatoonMatchmakeSessionCount :: "LocalSharedState \<Rightarrow> nat" where
  "getSplatoonMatchmakeSessionCount s = length (sessions s)"

definition erase_gathering :: "u32 \<Rightarrow> u32 \<Rightarrow> LocalSharedState \<Rightarrow> LocalSharedState" where
  "erase_gathering gId pid s =
     update_client pid (\<lambda>ci. ci\<lparr>joinedGatherings :=
       erase_first (is_gathering (heap s) gId) (joinedGatherings ci)\<rparr>) s"

definition deleteSplatoonMatchmakeSession :: "u32 \<Rightarrow> LocalSharedState \<Rightarrow> LocalSharedState" where
  "deleteSplatoonMatchmakeSession gId s =
     (let s' = (case map_of (sessions s) gId of
                  None \<Rightarrow> s
                | Some si \<Rightarrow> fold (erase_gathering gId) (si_players si) s)
      in s'\<lparr>sessions := AList.delete gId (sessions s')\<rparr>)"

definition add_player :: "u32 \<Rightarrow> addr \<Rightarrow> u32 \<Rightarrow> LocalSharedState \<Rightarrow> LocalSharedState" where
  "add_player gId a pid s =
     (let s1 = (case map_of (sessions s) gId of
                  None \<Rightarrow> s
                | Some si \<Rightarrow> s\<lparr>sessions := AList.update gId
                      (si\<lparr>si_players := insort_insert pid (si_players si)\<rparr>) (sessions s)\<rparr>)
      in update_client pid (\<lambda>ci. ci\<lparr>joinedGatherings :=
           sync_gatherings (heap s) gId a True (joinedGatherings ci)\<rparr>) s1)"

definition addPlayersToSplatoonMatchmakeSession ::
  "u32 \<Rightarrow> u32 list \<Rightarrow> LocalSharedState \<Rightarrow> ss_result \<times> LocalSharedState" where
  "addPlayersToSplatoonMatchmakeSession gId pids s =
     (case map_of (sessions s) gId of
        None \<Rightarrow> (FAILURE, s)
      | Some si \<Rightarrow>
          (let s' = fold (add_player gId (si_session si)) pids s;
               n = (case map_of (sessions s') gId of None \<Rightarrow> 0 | Some si' \<Rightarrow> length (si_players si'))
           in (SUCCESS, set_participationCount (si_session si) n s')))"

definition removePlayerFromSplatoonMatchmakeSession ::
  "u32 \<Rightarrow> u32 \<Rightarrow> LocalSharedState \<Rightarrow> ss_result \<times> LocalSharedState" where
  "removePlayerFromSplatoonMatchmakeSession gId pid s =
     (case map_of (sessions s) gId of
        None \<Rightarrow> (FAILURE, s)
      | Some si \<Rightarrow>
          (let players = remove1 pid (si_players si);
               s' = set_participationCount (si_session si) (length players)
                      (s\<lparr>sessions := AList.update gId (si\<lparr>si_players := players\<rparr>) (sessions s)\<rparr>)
           in (SUCCESS, erase_gathering gId pid s')))"

section \<open>The invariant\<close>

text \<open>
  The table and the clients agree: a session is filed under its id, counts its players, and every
  gathering a client has joined is a session it is a player of. \<open>X\<close> are session ids whose count
  may be out of date, \<open>Y\<close> clients whose gatherings may be: the operations break and restore both.
\<close>

definition session_entry_ok :: "u32 set \<Rightarrow> LocalSharedState \<Rightarrow> u32 \<Rightarrow> SessionInfo \<Rightarrow> bool" where
  "session_entry_ok X s g si \<longleftrightarrow>
     si_session si < next_addr s \<and> g_id (heap s (si_session si)) = g \<and>
     sorted (si_players si) \<and> distinct (si_players si) \<and>
     (g \<notin> X \<longrightarrow> participationCount (heap s (si_session si)) = of_nat (length (si_players si)))"

definition gathering_ids :: "LocalSharedState \<Rightarrow> addr list \<Rightarrow> u32 list" where
  "gathering_ids s js = map (\<lambda>a. g_id (heap s a)) js"

definition plays :: "LocalSharedState \<Rightarrow> u32 \<Rightarrow> u32 \<Rightarrow> bool" where
  "plays s pid g \<longleftrightarrow> (\<exists>si. map_of (sessions s) g = Some si \<and> pid \<in> set (si_players si))"

definition joined_ok :: "LocalSharedState \<Rightarrow> u32 \<Rightarrow> addr list \<Rightarrow> bool" where
  "joined_ok s pid js \<longleftrightarrow>
     distinct (gathering_ids s js) \<and>
     (\<forall>a \<in> set js. a < next_addr s \<and> plays s pid (g_id (heap s a)))"

definition ss_inv :: "u32 set \<Rightarrow> u32 set \<Rightarrow> LocalSharedState \<Rightarrow> bool" where
  "ss_inv X Y s \<longleftrightarrow>
     distinct (map fst (clientInfos s)) \<and> distinct (map fst (sessions s)) \<and>
     (\<forall>g si. map_of (sessions s) g = Some si \<longrightarrow> session_entry_ok X s g si) \<and>
     (\<forall>pid ci. map_of (clientInfos s) pid = Some ci \<longrightarrow> pid \<notin> Y \<longrightarrow>
        joined_ok s pid (joinedGatherings ci))"

lemma ss_invI:
  assumes "distinct (map fst (clientInfos s))" and "distinct (map fst (sessions s))"
    and "\<And>g si. map_of (sessions s) g = Some si \<Longrightarrow> session_entry_ok X s g si"
    and "\<And>pid ci. map_of (clientInfos s) pid = Some ci \<Longrightarrow> pid \<notin> Y \<Longrightarrow>
      joined_ok s pid (joinedGatherings ci)"
  shows "ss_inv X Y s"
  using assms by (auto simp: ss_inv_def)

lemma ss_invD:
  assumes "ss_inv X Y s"
  shows "distinct (map fst (clientInfos s))" and "distinct (map fst (sessions s))"
    and "map_of (sessions s) g = Some si \<Longrightarrow> session_entry_ok X s g si"
    and "map_of (clientInfos s) pid = Some ci \<Longrightarrow> pid \<notin> Y \<Longrightarrow> joined_ok s pid (joinedGatherings ci)"
  using assms by (auto simp: ss_inv_def)

lemma ss_inv_mono: "ss_inv X Y s \<Longrightarrow> X \<subseteq> X' \<Longrightarrow> Y \<subseteq> Y' \<Longrightarrow> ss_inv X' Y' s"
  unfolding ss_inv_def session_entry_ok_def by blast

lemmas alist_maps = update_conv' delete_conv' distinct_update distinct_delete fun_upd_def

lemma map_of_map_value:
  "map_of (map (\<lambda>(k, v). (k, f k v)) m) k = map_option (f k) (map_of m k)"
  by (induction m) auto

lemma map_erase_first: "map f (erase_first (\<lambda>x. f x = k) xs) = remove1 k (map f xs)"
  by (induction xs) auto

lemma set_erase_first: "set (erase_first P xs) \<subseteq> set xs"
  by (induction xs) auto

lemma map_replace_first: "f y = k \<Longrightarrow> map f (replace_first (\<lambda>x. f x = k) y xs) = map f xs"
  by (induction xs) auto

lemma set_replace_first: "set (replace_first P y xs) \<subseteq> insert y (set xs)"
  by (induction xs) auto

lemma is_gathering_eta: "is_gathering h g = (\<lambda>a. g_id (h a) = g)"
  by (rule ext) (simp add: is_gathering_def)

text \<open>What \<open>joined_ok\<close> looks at: the ids of the addresses in use, and who plays where.\<close>

lemma joined_ok_cong:
  assumes "joined_ok s pid js" and "\<And>a. a \<in> set js \<Longrightarrow> g_id (heap s' a) = g_id (heap s a)"
    and "next_addr s \<le> next_addr s'"
    and "\<And>a. a \<in> set js \<Longrightarrow> plays s pid (g_id (heap s a)) \<Longrightarrow> plays s' pid (g_id (heap s a))"
  shows "joined_ok s' pid js"
proof -
  have "gathering_ids s' js = gathering_ids s js" using assms(2) by (simp add: gathering_ids_def)
  with assms show ?thesis by (auto simp: joined_ok_def)
qed

lemma joined_ok_erase:
  assumes "joined_ok s pid js"
  shows "joined_ok s pid (erase_first (is_gathering (heap s) g) js)"
    and "a \<in> set (erase_first (is_gathering (heap s) g) js) \<Longrightarrow> g_id (heap s a) \<noteq> g"
proof -
  let ?e = "erase_first (is_gathering (heap s) g) js"
  have ids: "gathering_ids s ?e = remove1 g (gathering_ids s js)"
    by (simp add: gathering_ids_def is_gathering_eta map_erase_first)
  have d: "distinct (gathering_ids s js)" using assms by (simp add: joined_ok_def)
  show "joined_ok s pid ?e"
    using assms set_erase_first [of "is_gathering (heap s) g" js] ids
    by (auto simp: joined_ok_def)
  show "g_id (heap s a) \<noteq> g" if "a \<in> set ?e"
  proof -
    have "g_id (heap s a) \<in> set (gathering_ids s ?e)" using that by (simp add: gathering_ids_def)
    then show ?thesis using ids d by auto
  qed
qed

section \<open>Every operation keeps it\<close>

lemma ss_inv_update_client:
  assumes inv: "ss_inv X Y s"
    and js: "\<And>ci. map_of (clientInfos s) pid = Some ci \<Longrightarrow> pid \<notin> Y' \<Longrightarrow>
      joined_ok s pid (joinedGatherings (f ci))"
    and Y: "Y \<subseteq> insert pid Y'"
  shows "ss_inv X Y' (update_client pid f s)"
proof (cases "map_of (clientInfos s) pid")
  case None
  have "ss_inv X Y' s"
  proof (rule ss_invI)
    fix p c assume c: "map_of (clientInfos s) p = Some c" and "p \<notin> Y'"
    moreover from None c have "p \<noteq> pid" by auto
    ultimately have "p \<notin> Y" using Y by auto
    then show "joined_ok s p (joinedGatherings c)" by (rule ss_invD(4) [OF inv c])
  qed (use ss_invD [OF inv] in auto)
  with None show ?thesis by (simp add: update_client_def)
next
  case (Some ci)
  let ?s = "s\<lparr>clientInfos := AList.update pid (f ci) (clientInfos s)\<rparr>"
  have same: "joined_ok ?s p js = joined_ok s p js" "session_entry_ok X ?s g si = session_entry_ok X s g si"
    for p js g si
    by (simp_all add: joined_ok_def gathering_ids_def plays_def session_entry_ok_def)
  have "ss_inv X Y' ?s"
  proof (rule ss_invI)
    fix p c assume c: "map_of (clientInfos ?s) p = Some c" and p: "p \<notin> Y'"
    show "joined_ok ?s p (joinedGatherings c)"
      unfolding same
      using c p Y js [OF Some] ss_invD(4) [OF inv, of p c]
      by (auto simp: alist_maps split: if_splits)
  qed (use ss_invD [OF inv] in \<open>auto simp: same distinct_update\<close>)
  with Some show ?thesis by (simp add: update_client_def)
qed

lemma update_client_same_gatherings:
  "ss_inv X Y s \<Longrightarrow> (\<And>ci. joinedGatherings (f ci) = joinedGatherings ci) \<Longrightarrow>
   ss_inv X Y (update_client pid f s)"
  by (rule ss_inv_update_client) (auto dest: ss_invD(4))

lemma ss_inv_urls [inv_intros]:
  "ss_inv X Y s \<Longrightarrow> ss_inv X Y (updateSplatoonRegisteredClientURLs pid urls s)"
  unfolding updateSplatoonRegisteredClientURLs_def by (rule update_client_same_gatherings) simp_all

lemma ss_inv_nat [inv_intros]:
  "ss_inv X Y s \<Longrightarrow> ss_inv X Y (updateSplatoonRegisteredClientLastReportedNATProperties pid np s)"
  unfolding updateSplatoonRegisteredClientLastReportedNATProperties_def
  by (rule update_client_same_gatherings) simp_all

lemma ss_inv_erase_gathering [inv_intros]:
  "ss_inv X Y s \<Longrightarrow> ss_inv X Y (erase_gathering g pid s)"
  unfolding erase_gathering_def
  by (rule ss_inv_update_client) (auto dest: ss_invD(4) intro: joined_ok_erase)

text \<open>Registering, always with no gathering: the handler passes a fresh record.\<close>

lemma ss_inv_register [inv_intros]:
  assumes inv: "ss_inv X Y s" and "joinedGatherings info = []"
  shows "ss_inv X Y (setSplatoonRegisteredClientInfo info s)"
proof -
  let ?s = "setSplatoonRegisteredClientInfo info s"
  have same: "joined_ok ?s p js = joined_ok s p js" "session_entry_ok X ?s g si = session_entry_ok X s g si"
    for p js g si
    by (simp_all add: joined_ok_def gathering_ids_def plays_def session_entry_ok_def
        setSplatoonRegisteredClientInfo_def)
  show ?thesis
  proof (rule ss_invI)
    fix p c assume c: "map_of (clientInfos ?s) p = Some c" and "p \<notin> Y"
    then show "joined_ok ?s p (joinedGatherings c)"
      unfolding same using ss_invD(4) [OF inv, of p c] assms(2)
      by (auto simp: alist_maps setSplatoonRegisteredClientInfo_def joined_ok_def gathering_ids_def
          split: if_splits)
  qed (use ss_invD [OF inv] in
      \<open>auto simp: same, auto simp: setSplatoonRegisteredClientInfo_def distinct_update\<close>)
qed

text \<open>The object of a session is written in place; only its id matters to the table.\<close>

lemma ss_inv_write:
  assumes inv: "ss_inv X Y s" and id: "g_id m = g_id (heap s a)"
    and count: "\<And>si. map_of (sessions s) (g_id (heap s a)) = Some si \<Longrightarrow> si_session si = a \<Longrightarrow>
      g_id (heap s a) \<notin> X' \<Longrightarrow> participationCount m = of_nat (length (si_players si))"
    and X: "X \<subseteq> insert (g_id (heap s a)) X'"
    and stale: "\<And>si. map_of (sessions s) (g_id (heap s a)) = Some si \<Longrightarrow> si_session si \<noteq> a \<Longrightarrow>
      g_id (heap s a) \<in> X' \<or> g_id (heap s a) \<notin> X"
  shows "ss_inv X' Y (s\<lparr>heap := (heap s)(a := m)\<rparr>)"
proof (rule ss_invI)
  let ?s = "s\<lparr>heap := (heap s)(a := m)\<rparr>"
  have ids: "g_id (heap ?s b) = g_id (heap s b)" for b using id by simp
  fix g si assume g: "map_of (sessions ?s) g = Some si"
  then have e: "session_entry_ok X s g si" using ss_invD(3) [OF inv] by simp
  have cnt: "participationCount (heap ?s (si_session si)) = of_nat (length (si_players si))"
    if "g \<notin> X'"
  proof (cases "si_session si = a")
    case True
    then have "g = g_id (heap s a)" using e by (simp add: session_entry_ok_def)
    with True g that count show ?thesis by simp
  next
    case False
    have "g \<notin> X"
    proof (cases "g = g_id (heap s a)")
      case True
      with stale [of si] g that False show ?thesis by auto
    next
      case False
      with X that show ?thesis by auto
    qed
    with e False show ?thesis by (simp add: session_entry_ok_def)
  qed
  show "session_entry_ok X' ?s g si"
    using e cnt ids by (simp add: session_entry_ok_def)
next
  let ?s = "s\<lparr>heap := (heap s)(a := m)\<rparr>"
  fix p c assume "map_of (clientInfos ?s) p = Some c" and "p \<notin> Y"
  then have "joined_ok s p (joinedGatherings c)" using ss_invD(4) [OF inv] by simp
  then show "joined_ok ?s p (joinedGatherings c)"
    by (rule joined_ok_cong) (simp_all add: id plays_def)
qed (use ss_invD [OF inv] in auto)


text \<open>A change of a session's players, with the gatherings of some clients put aside.\<close>

lemma ss_inv_players:
  assumes inv: "ss_inv X Y s" and si: "map_of (sessions s) g = Some si"
    and ps: "sorted ps" "distinct ps"
    and keep: "\<And>pid. pid \<in> set (si_players si) \<Longrightarrow> pid \<notin> set ps \<Longrightarrow> pid \<in> Y'"
    and Y: "Y \<subseteq> Y'"
  shows "ss_inv (insert g X) Y'
    (s\<lparr>sessions := AList.update g (si\<lparr>si_players := ps\<rparr>) (sessions s)\<rparr>)" (is "ss_inv _ _ ?s")
proof (rule ss_invI)
  fix g' si' assume "map_of (sessions ?s) g' = Some si'"
  then show "session_entry_ok (insert g X) ?s g' si'"
    using ss_invD(3) [OF inv, of g' si'] ss_invD(3) [OF inv si] ps
    by (auto simp: alist_maps session_entry_ok_def split: if_splits)
next
  fix p c assume c: "map_of (clientInfos ?s) p = Some c" and p: "p \<notin> Y'"
  then have j: "joined_ok s p (joinedGatherings c)" using ss_invD(4) [OF inv, of p c] Y by auto
  show "joined_ok ?s p (joinedGatherings c)"
  proof (rule joined_ok_cong [OF j])
    fix a assume "plays s p (g_id (heap s a))"
    then show "plays ?s p (g_id (heap s a))"
      using keep [of p] p si by (cases "p \<in> set ps") (auto simp: plays_def alist_maps)
  qed simp_all
qed (use ss_invD [OF inv] in \<open>auto simp: distinct_update\<close>)

text \<open>\<dots> and the count put right again.\<close>

lemma ss_inv_count:
  assumes inv: "ss_inv (insert g X) Y s" and si: "map_of (sessions s) g = Some si"
    and n: "n = length (si_players si)"
  shows "ss_inv X Y (set_participationCount (si_session si) n s)"
proof -
  let ?a = "si_session si"
  have g: "g_id (heap s ?a) = g" using ss_invD(3) [OF inv si] by (simp add: session_entry_ok_def)
  show ?thesis
    unfolding set_participationCount_def
    by (rule ss_inv_write [OF inv]) (use g si n in auto)
qed

lemma sorted_remove1_pids: "sorted (xs :: u32 list) \<Longrightarrow> sorted (remove1 x xs)"
  by (rule sorted_remove1)

lemma ss_inv_leave [inv_intros]:
  assumes inv: "ss_inv X (insert pid Y) s"
  shows "ss_inv X (insert pid Y) (leave_session pid a s)"
proof (cases "map_of (sessions s) (g_id (heap s a))")
  case None
  then show ?thesis using inv by (simp add: leave_session_def)
next
  case (Some si)
  let ?g = "g_id (heap s a)" and ?ps = "remove1 pid (si_players si)"
  let ?s = "s\<lparr>sessions := AList.update ?g (si\<lparr>si_players := ?ps\<rparr>) (sessions s)\<rparr>"
  have e: "session_entry_ok X s ?g si" by (rule ss_invD(3) [OF inv Some])
  have "ss_inv (insert ?g X) (insert pid Y) ?s"
    by (rule ss_inv_players [OF inv Some])
       (use e in \<open>auto simp: session_entry_ok_def sorted_remove1_pids\<close>)
  moreover have "map_of (sessions ?s) ?g = Some (si\<lparr>si_players := ?ps\<rparr>)" by (simp add: alist_maps)
  ultimately have "ss_inv X (insert pid Y)
      (set_participationCount (si_session (si\<lparr>si_players := ?ps\<rparr>)) (length ?ps) ?s)"
    by (rule ss_inv_count) simp
  with Some show ?thesis by (simp add: leave_session_def Let_def)
qed

lemma fold_invariant:
  "P s \<Longrightarrow> (\<And>x s. x \<in> set xs \<Longrightarrow> P s \<Longrightarrow> P (f x s)) \<Longrightarrow> P (fold f xs s)"
  by (induction xs arbitrary: s) auto

lemma ss_inv_delete_client [inv_intros]:
  assumes inv: "ss_inv X Y s"
  shows "ss_inv X Y (deleteSplatoonRegisteredClientInfo pid s)"
proof -
  let ?s = "case map_of (clientInfos s) pid of None \<Rightarrow> s
    | Some ci \<Rightarrow> fold (leave_session pid) (joinedGatherings ci) s"
  have weak: "ss_inv X (insert pid Y) s" using inv by (rule ss_inv_mono) auto
  have i: "ss_inv X (insert pid Y) ?s"
    by (cases "map_of (clientInfos s) pid") (auto intro!: fold_invariant weak ss_inv_leave)
  have "ss_inv X Y (?s\<lparr>clientInfos := AList.delete pid (clientInfos ?s)\<rparr>)"
    (is "ss_inv X Y ?t")
  proof (rule ss_invI)
    have same: "joined_ok ?t p js = joined_ok ?s p js"
      "session_entry_ok X ?t g si = session_entry_ok X ?s g si" for p js g si
      by (simp_all add: joined_ok_def gathering_ids_def plays_def session_entry_ok_def)
    show "joined_ok ?t p (joinedGatherings c)" if "map_of (clientInfos ?t) p = Some c" "p \<notin> Y" for p c
      unfolding same using that ss_invD(4) [OF i, of p c] by (auto simp: alist_maps split: if_splits)
    show "session_entry_ok X ?t g si" if "map_of (sessions ?t) g = Some si" for g si
      unfolding same using that ss_invD(3) [OF i, of g si] by simp
  qed (use ss_invD(1,2) [OF i] in \<open>simp_all add: distinct_delete\<close>)
  then show ?thesis by (simp add: deleteSplatoonRegisteredClientInfo_def Let_def)
qed

lemma sync_gatherings_ok:
  assumes j: "joined_ok s pid js" and a: "a < next_addr s'" "g_id (heap s' a) = g"
    and same: "\<And>b. b \<in> set js \<Longrightarrow> g_id (heap s' b) = g_id (heap s b)"
    and le: "next_addr s \<le> next_addr s'"
    and others: "\<And>g'. g' \<noteq> g \<Longrightarrow> plays s pid g' \<Longrightarrow> plays s' pid g'"
    and me: "member \<Longrightarrow> plays s' pid g"
  shows "joined_ok s' pid (sync_gatherings (heap s') g a member js)"
proof -
  let ?P = "is_gathering (heap s') g"
  have ids: "gathering_ids s' js = gathering_ids s js" using same by (simp add: gathering_ids_def)
  have d: "distinct (gathering_ids s' js)" using j ids by (simp add: joined_ok_def)
  have found: "list_ex ?P js \<longleftrightarrow> g \<in> set (gathering_ids s' js)"
    by (auto simp: list_ex_iff is_gathering_def gathering_ids_def)
  have old: "b < next_addr s'" "g_id (heap s' b) \<noteq> g \<Longrightarrow> plays s' pid (g_id (heap s' b))" if "b \<in> set js" for b
    using j that le others same [OF that] by (auto simp: joined_ok_def intro: less_le_trans)
  have not_g: "g_id (heap s' b) \<noteq> g" if "b \<in> set js" "\<not> list_ex ?P js" for b
    using that by (auto simp: list_ex_iff is_gathering_def)
  consider (add) "member" "\<not> list_ex ?P js" | (erase) "\<not> member" "list_ex ?P js"
    | (replace) "member" "list_ex ?P js" | (none) "\<not> member" "\<not> list_ex ?P js" by blast
  then show ?thesis
  proof cases
    case add
    then have "g \<notin> set (gathering_ids s' js)" using found by blast
    moreover have "gathering_ids s' (js @ [a]) = gathering_ids s' js @ [g]"
      by (simp add: gathering_ids_def a(2))
    ultimately have "distinct (gathering_ids s' (js @ [a]))" using d by simp
    with add show ?thesis
      using a old not_g me by (auto simp: sync_gatherings_def joined_ok_def)
  next
    case erase
    let ?e = "erase_first ?P js"
    have e: "gathering_ids s' ?e = remove1 g (gathering_ids s' js)"
      by (simp add: gathering_ids_def is_gathering_eta map_erase_first)
    have "g_id (heap s' b) \<noteq> g" if "b \<in> set ?e" for b
    proof -
      have "g_id (heap s' b) \<in> set (gathering_ids s' ?e)" using that by (simp add: gathering_ids_def)
      then show ?thesis using e d by auto
    qed
    with erase show ?thesis
      using e d old set_erase_first [of ?P js] by (auto simp: sync_gatherings_def joined_ok_def)
  next
    case replace
    let ?e = "replace_first ?P a js"
    have "gathering_ids s' ?e = gathering_ids s' js"
      unfolding gathering_ids_def is_gathering_eta by (rule map_replace_first) (rule a(2))
    moreover have "b < next_addr s' \<and> plays s' pid (g_id (heap s' b))" if "b \<in> set ?e" for b
      using that set_replace_first [of ?P a js] a me [OF replace(1)] old [of b]
      by (cases "g_id (heap s' b) = g") auto
    ultimately show ?thesis
      using replace d by (simp add: sync_gatherings_def joined_ok_def)
  next
    case none
    then show ?thesis
      using d old not_g by (auto simp: sync_gatherings_def joined_ok_def)
  qed
qed

lemma ss_inv_set_session [inv_intros]:
  assumes inv: "ss_inv (insert (g_id (heap s a0)) X) Y s"
    and ps: "sorted players" "distinct players"
    and set: "setSplatoonMatchmakeSession (Some a0) players s = (r, s')"
  shows "ss_inv X Y s'"
proof -
  let ?g = "g_id (heap s a0)" and ?a = "next_addr s"
  let ?m = "(heap s a0)\<lparr>participationCount := of_nat (length players)\<rparr>"
  have s': "s' = s\<lparr>heap := (heap s)(?a := ?m), next_addr := ?a + 1,
      sessions := AList.update ?g \<lparr>si_session = ?a, si_players = players\<rparr> (sessions s),
      clientInfos := map (\<lambda>(pid, ci). (pid, ci\<lparr>joinedGatherings :=
        sync_gatherings ((heap s)(?a := ?m)) ?g ?a (pid \<in> set players) (joinedGatherings ci)\<rparr>))
        (clientInfos s)\<rparr>"
    using set by (simp add: setSplatoonMatchmakeSession_def Let_def)
  have fsts: "map fst (clientInfos s') = map fst (clientInfos s)"
    and sess: "sessions s' = AList.update ?g \<lparr>si_session = ?a, si_players = players\<rparr> (sessions s)"
    by (auto simp: s')
  show ?thesis
  proof (rule ss_invI)
    fix g si assume "map_of (sessions s') g = Some si"
    then show "session_entry_ok X s' g si"
      using ss_invD(3) [OF inv, of g si] ps
      by (auto simp: s' alist_maps session_entry_ok_def split: if_splits)
  next
    fix p c assume c: "map_of (clientInfos s') p = Some c" and p: "p \<notin> Y"
    then obtain ci where ci: "map_of (clientInfos s) p = Some ci"
      and js: "joinedGatherings c = sync_gatherings (heap s') ?g ?a (p \<in> set players) (joinedGatherings ci)"
      by (auto simp: s' map_of_map_value)
    have j: "joined_ok s p (joinedGatherings ci)" by (rule ss_invD(4) [OF inv ci p])
    have lt: "b < next_addr s" if "b \<in> set (joinedGatherings ci)" for b
      using j that by (simp add: joined_ok_def)
    show "joined_ok s' p (joinedGatherings c)"
      unfolding js
    proof (rule sync_gatherings_ok [OF j])
      show "g_id (heap s' b) = g_id (heap s b)" if "b \<in> set (joinedGatherings ci)" for b
        using lt [OF that] by (simp add: s')
    qed (auto simp: s' plays_def alist_maps)
  qed (use ss_invD(1,2) [OF inv] in \<open>simp_all add: fsts sess distinct_update\<close>)
qed

text \<open>Deleting a session: its players lose the gathering, and nobody else had it.\<close>

lemma erase_gathering_client:
  "map_of (clientInfos (erase_gathering g pid s)) p =
     (if p = pid then map_option (\<lambda>ci. ci\<lparr>joinedGatherings :=
        erase_first (is_gathering (heap s) g) (joinedGatherings ci)\<rparr>) (map_of (clientInfos s) p)
      else map_of (clientInfos s) p)"
  by (auto simp: erase_gathering_def update_client_def alist_maps split: option.splits)

lemma erase_gathering_frame [simp]:
  "heap (erase_gathering g pid s) = heap s" "sessions (erase_gathering g pid s) = sessions s"
  "next_addr (erase_gathering g pid s) = next_addr s"
  by (simp_all add: erase_gathering_def update_client_def split: option.splits)

lemma fold_erase_frame [simp]:
  "heap (fold (erase_gathering g) ps s) = heap s"
  "sessions (fold (erase_gathering g) ps s) = sessions s"
  "next_addr (fold (erase_gathering g) ps s) = next_addr s"
  by (induction ps arbitrary: s) simp_all

lemma erase_first_subset: "a \<in> set (erase_first P xs) \<Longrightarrow> a \<in> set xs"
  using set_erase_first [of P xs] by blast

lemma fold_erase_gone:
  assumes "ss_inv X Y s" and "map_of (clientInfos (fold (erase_gathering g) ps s)) p = Some ci"
    and "p \<in> set ps" and "p \<notin> Y" and "a \<in> set (joinedGatherings ci)"
  shows "g_id (heap s a) \<noteq> g"
  using assms
proof (induction ps arbitrary: s)
  case (Cons q ps)
  let ?s = "erase_gathering g q s"
  have inv: "ss_inv X Y ?s" by (rule ss_inv_erase_gathering) (rule Cons.prems(1))
  have ci: "map_of (clientInfos (fold (erase_gathering g) ps ?s)) p = Some ci"
    using Cons.prems(2) by simp
  show ?case
  proof (cases "p \<in> set ps")
    case True
    from Cons.IH [OF inv ci True Cons.prems(4,5)] show ?thesis by simp
  next
    case False
    then have q: "p = q" using Cons.prems(3) by simp
    have "map_of (clientInfos (fold (erase_gathering g) ps t)) p = map_of (clientInfos t) p" for t
      using False by (induction ps arbitrary: t) (simp_all add: erase_gathering_client)
    then obtain c where c: "map_of (clientInfos s) p = Some c"
      and js: "joinedGatherings ci = erase_first (is_gathering (heap s) g) (joinedGatherings c)"
      using ci q by (auto simp: erase_gathering_client)
    have "joined_ok s p (joinedGatherings c)" by (rule ss_invD(4) [OF Cons.prems(1) c Cons.prems(4)])
    from joined_ok_erase(2) [OF this] show ?thesis using Cons.prems(5) js by simp
  qed
qed simp

lemma ss_inv_delete_session [inv_intros]:
  assumes inv: "ss_inv X {} s"
  shows "ss_inv X {} (deleteSplatoonMatchmakeSession g s)"
proof (cases "map_of (sessions s) g")
  case None
  then have "AList.delete g (sessions s) = sessions s"
    by (simp add: delete_id map_of_eq_None_iff [symmetric])
  then show ?thesis using inv None by (simp add: deleteSplatoonMatchmakeSession_def)
next
  case (Some si)
  let ?f = "fold (erase_gathering g) (si_players si) s"
  let ?t = "?f\<lparr>sessions := AList.delete g (sessions s)\<rparr>"
  have i: "ss_inv X {} ?f" by (rule fold_invariant) (simp_all add: inv ss_inv_erase_gathering)
  have "ss_inv X {} ?t"
  proof (rule ss_invI)
    fix g' si' assume "map_of (sessions ?t) g' = Some si'"
    then show "session_entry_ok X ?t g' si'"
      using ss_invD(3) [OF i, of g' si'] by (auto simp: alist_maps session_entry_ok_def split: if_splits)
  next
    fix p c assume c: "map_of (clientInfos ?t) p = Some c" and "p \<notin> {}"
    then have c': "map_of (clientInfos ?f) p = Some c" by simp
    have j: "joined_ok ?f p (joinedGatherings c)" by (rule ss_invD(4) [OF i c']) simp
    have "g_id (heap s a) \<noteq> g" if a: "a \<in> set (joinedGatherings c)" for a
    proof
      assume eq: "g_id (heap s a) = g"
      then have "p \<in> set (si_players si)" using j a Some by (auto simp: joined_ok_def plays_def)
      from fold_erase_gone [OF inv c' this _ a] eq show False by simp
    qed
    with j show "joined_ok ?t p (joinedGatherings c)"
      by (auto simp: joined_ok_def gathering_ids_def plays_def alist_maps)
  qed (use ss_invD(1,2) [OF inv] ss_invD(1) [OF i] in \<open>simp_all add: distinct_delete\<close>)
  with Some show ?thesis by (simp add: deleteSplatoonMatchmakeSession_def)
qed

text \<open>Adding and removing single players.\<close>

lemma ss_inv_add_player [inv_intros]:
  assumes inv: "ss_inv (insert g X) Y s" and si: "map_of (sessions s) g = Some si"
  shows "ss_inv (insert g X) Y (add_player g (si_session si) pid s)"
proof -
  let ?ps = "insort_insert pid (si_players si)"
  let ?s = "s\<lparr>sessions := AList.update g (si\<lparr>si_players := ?ps\<rparr>) (sessions s)\<rparr>"
  have e: "session_entry_ok (insert g X) s g si" by (rule ss_invD(3) [OF inv si])
  have i: "ss_inv (insert g X) Y ?s"
    using ss_inv_players [OF inv si, of ?ps Y] e
    by (simp add: session_entry_ok_def sorted_insort_insert distinct_insort_insert set_insort_insert)
  have "ss_inv (insert g X) Y (update_client pid (\<lambda>ci. ci\<lparr>joinedGatherings :=
      sync_gatherings (heap s) g (si_session si) True (joinedGatherings ci)\<rparr>) ?s)"
  proof (rule ss_inv_update_client [OF i])
    fix ci assume "map_of (clientInfos ?s) pid = Some ci" and "pid \<notin> Y"
    then have j: "joined_ok ?s pid (joinedGatherings ci)" by (rule ss_invD(4) [OF i])
    have "joined_ok ?s pid (sync_gatherings (heap ?s) g (si_session si) True (joinedGatherings ci))"
      by (rule sync_gatherings_ok [OF j])
         (use e in \<open>auto simp: session_entry_ok_def plays_def alist_maps set_insort_insert\<close>)
    then show "joined_ok ?s pid (joinedGatherings
        (ci\<lparr>joinedGatherings := sync_gatherings (heap s) g (si_session si) True (joinedGatherings ci)\<rparr>))"
      by simp
  qed auto
  with si show ?thesis by (simp add: add_player_def Let_def)
qed

lemma add_player_session:
  "map_of (sessions s) g = Some si \<Longrightarrow>
   map_of (sessions (add_player g a pid s)) g =
     Some (si\<lparr>si_players := insort_insert pid (si_players si)\<rparr>)"
  by (simp add: add_player_def update_client_def Let_def alist_maps split: option.splits)

lemma ss_inv_add_players:
  assumes "ss_inv (insert g X) Y s" and "map_of (sessions s) g = Some si"
  shows "ss_inv (insert g X) Y (fold (add_player g (si_session si)) pids s)
    \<and> (\<exists>ps. map_of (sessions (fold (add_player g (si_session si)) pids s)) g
          = Some (si\<lparr>si_players := ps\<rparr>) \<and> set ps = set (si_players si) \<union> set pids)"
  using assms
proof (induction pids arbitrary: s si)
  case Nil
  then show ?case by (auto intro: exI [of _ "si_players si"])
next
  case (Cons pid pids)
  let ?si = "si\<lparr>si_players := insort_insert pid (si_players si)\<rparr>"
  from Cons.IH [OF ss_inv_add_player [OF Cons.prems, of pid]
      add_player_session [OF Cons.prems(2), of "si_session si" pid]]
  show ?case by (auto simp: set_insort_insert)
qed

lemma ss_inv_add [inv_intros]:
  assumes inv: "ss_inv X Y s" and add: "addPlayersToSplatoonMatchmakeSession g pids s = (r, s')"
  shows "ss_inv X Y s'"
proof (cases "map_of (sessions s) g")
  case None
  then show ?thesis using inv add by (simp add: addPlayersToSplatoonMatchmakeSession_def)
next
  case (Some si)
  let ?f = "fold (add_player g (si_session si)) pids s"
  have weak: "ss_inv (insert g X) Y s" using inv by (rule ss_inv_mono) auto
  obtain ps where i: "ss_inv (insert g X) Y ?f"
    and ps: "map_of (sessions ?f) g = Some (si\<lparr>si_players := ps\<rparr>)"
    using ss_inv_add_players [OF weak Some, of pids] by blast
  from ss_inv_count [OF i ps refl] show ?thesis
    using add Some ps by (auto simp: addPlayersToSplatoonMatchmakeSession_def Let_def)
qed

lemma ss_inv_remove [inv_intros]:
  assumes inv: "ss_inv X {} s" and rem: "removePlayerFromSplatoonMatchmakeSession g pid s = (r, s')"
  shows "ss_inv X {} s'"
proof (cases "map_of (sessions s) g")
  case None
  then show ?thesis using inv rem by (simp add: removePlayerFromSplatoonMatchmakeSession_def)
next
  case (Some si)
  let ?ps = "remove1 pid (si_players si)"
  let ?s = "s\<lparr>sessions := AList.update g (si\<lparr>si_players := ?ps\<rparr>) (sessions s)\<rparr>"
  let ?t = "set_participationCount (si_session si) (length ?ps) ?s"
  have e: "session_entry_ok X s g si" by (rule ss_invD(3) [OF inv Some])
  have 1: "ss_inv (insert g X) {pid} ?s"
    by (rule ss_inv_players [OF inv Some])
       (use e in \<open>auto simp: session_entry_ok_def sorted_remove1_pids\<close>)
  have 2: "ss_inv X {pid} ?t"
    using ss_inv_count [OF 1, of "si\<lparr>si_players := ?ps\<rparr>" "length ?ps"] by (simp add: alist_maps)
  have ids: "g_id (heap ?t b) = g_id (heap s b)" for b by (simp add: set_participationCount_def)
  have eta: "is_gathering (heap ?t) g = is_gathering (heap s) g" by (simp add: is_gathering_eta ids)
  have "ss_inv X {} (erase_gathering g pid ?t)"
    unfolding erase_gathering_def
  proof (rule ss_inv_update_client [OF 2])
    fix ci assume "map_of (clientInfos ?t) pid = Some ci"
    then have "map_of (clientInfos s) pid = Some ci" by (simp add: set_participationCount_def)
    then have j: "joined_ok s pid (joinedGatherings ci)" by (rule ss_invD(4) [OF inv]) simp
    have "joined_ok ?t pid (erase_first (is_gathering (heap s) g) (joinedGatherings ci))"
      using joined_ok_erase [OF j, where g = g]
      by (auto simp: joined_ok_def gathering_ids_def plays_def ids)
         (auto simp: set_participationCount_def alist_maps)
    then show "joined_ok ?t pid (joinedGatherings (ci\<lparr>joinedGatherings :=
        erase_first (is_gathering (heap ?t) g) (joinedGatherings ci)\<rparr>))"
      by (simp add: eta)
  qed simp
  with rem Some show ?thesis by (auto simp: removePlayerFromSplatoonMatchmakeSession_def Let_def)
qed

section \<open>Reachable states\<close>

definition alloc :: "MatchmakeSession \<Rightarrow> LocalSharedState \<Rightarrow> addr \<times> LocalSharedState" where
  "alloc m s = (next_addr s, s\<lparr>heap := (heap s)(next_addr s := m), next_addr := next_addr s + 1\<rparr>)"

definition write_session ::
  "addr \<Rightarrow> (MatchmakeSession \<Rightarrow> MatchmakeSession) \<Rightarrow> LocalSharedState \<Rightarrow> LocalSharedState" where
  "write_session a f s = s\<lparr>heap := (heap s)(a := f (heap s a))\<rparr>"

definition LocalSharedState_init ::
  "u32 \<Rightarrow> string \<Rightarrow> (addr \<Rightarrow> MatchmakeSession) \<Rightarrow> LocalSharedState" where
  "LocalSharedState_init sid rpc h =
     \<lparr>ss_serverId = sid, publicFacingRPCAddress = rpc, friendsInfos = [], clientInfos = [],
      sessions = [], heap = h, next_addr = 0\<rparr>"

text \<open>
  One step: an operation of the class, a new session object, or a write to a session object by a
  caller that leaves its id and its count alone.
\<close>

inductive ss_step :: "LocalSharedState \<Rightarrow> LocalSharedState \<Rightarrow> bool" where
  register: "joinedGatherings info = [] \<Longrightarrow> ss_step s (setSplatoonRegisteredClientInfo info s)"
| unregister: "ss_step s (deleteSplatoonRegisteredClientInfo pid s)"
| urls: "ss_step s (updateSplatoonRegisteredClientURLs pid us s)"
| nat: "ss_step s (updateSplatoonRegisteredClientLastReportedNATProperties pid np s)"
| set_session: "setSplatoonMatchmakeSession ptr ps s = (r, s') \<Longrightarrow> sorted ps \<Longrightarrow> distinct ps \<Longrightarrow>
    ss_step s s'"
| delete_session: "ss_step s (deleteSplatoonMatchmakeSession g s)"
| add_players: "addPlayersToSplatoonMatchmakeSession g pids s = (r, s') \<Longrightarrow> ss_step s s'"
| remove_player: "removePlayerFromSplatoonMatchmakeSession g pid s = (r, s') \<Longrightarrow> ss_step s s'"
| new_object: "alloc m s = (a, s') \<Longrightarrow> ss_step s s'"
| write_object: "(\<And>m. g_id (f m) = g_id m) \<Longrightarrow>
    (\<And>m. participationCount (f m) = participationCount m) \<Longrightarrow> ss_step s (write_session a f s)"
| friends_set: "ss_step s (setFriendsRegisteredClientInfo fi s)"
| friends_delete: "ss_step s (deleteFriendsRegisteredClientInfo pid s)"
| friends_add: "ss_step s (addFriendToRegisteredClientInfo pid f s)"
| friends_remove: "ss_step s (removeFriendFromRegisteredClientInfo pid f s)"
| friends_preference: "ss_step s (updatePreferenceInRegisteredFriendsClientInfo pid pref s)"

inductive_cases ss_stepE: "ss_step s s'"

lemma ss_inv_alloc [inv_intros]:
  assumes inv: "ss_inv X Y s" and "alloc m s = (a, s')"
  shows "ss_inv X Y s'"
proof -
  have s': "s' = s\<lparr>heap := (heap s)(next_addr s := m), next_addr := next_addr s + 1\<rparr>"
    using assms(2) by (auto simp: alloc_def)
  show ?thesis
  proof (rule ss_invI)
    show "session_entry_ok X s' g si" if "map_of (sessions s') g = Some si" for g si
      using that ss_invD(3) [OF inv, of g si] by (auto simp: s' session_entry_ok_def)
    show "joined_ok s' p (joinedGatherings c)" if c: "map_of (clientInfos s') p = Some c" "p \<notin> Y" for p c
    proof -
      have j: "joined_ok s p (joinedGatherings c)" using c ss_invD(4) [OF inv, of p c] by (simp add: s')
      then show ?thesis
        by (rule joined_ok_cong) (use j in \<open>auto simp: s' joined_ok_def plays_def\<close>)
    qed
  qed (use ss_invD(1,2) [OF inv] in \<open>simp_all add: s'\<close>)
qed

lemma ss_inv_write_session [inv_intros]:
  assumes inv: "ss_inv X Y s"
    and "\<And>m. g_id (f m) = g_id m" and "\<And>m. participationCount (f m) = participationCount m"
  shows "ss_inv X Y (write_session a f s)"
  unfolding write_session_def
  by (rule ss_inv_write [OF inv])
     (use assms ss_invD(3) [OF inv] in \<open>auto simp: session_entry_ok_def\<close>)

text \<open>A write that changes the count puts the session in \<open>X\<close> until it is stored again.\<close>

lemma ss_inv_write_count [inv_intros]:
  assumes inv: "ss_inv X Y s" and "\<And>m. g_id (f m) = g_id m"
  shows "ss_inv (insert (g_id (heap s a)) X) Y (write_session a f s)"
  unfolding write_session_def
  by (rule ss_inv_write [OF inv]) (use assms(2) in auto)

lemma ss_inv_friends [inv_intros]:
  "ss_inv X Y s \<Longrightarrow> ss_inv X Y (s\<lparr>friendsInfos := fi\<rparr>)"
  by (rule ss_invI)
     (auto dest: ss_invD simp: session_entry_ok_def joined_ok_def gathering_ids_def plays_def)

lemma ss_inv_friends_ops [inv_intros]:
  assumes "ss_inv X Y s"
  shows "ss_inv X Y (setFriendsRegisteredClientInfo fi s)"
    "ss_inv X Y (deleteFriendsRegisteredClientInfo pid s)"
    "ss_inv X Y (addFriendToRegisteredClientInfo pid f s)"
    "ss_inv X Y (removeFriendFromRegisteredClientInfo pid f s)"
    "ss_inv X Y (updatePreferenceInRegisteredFriendsClientInfo pid pref s)"
  using assms
  by (simp_all add: setFriendsRegisteredClientInfo_def deleteFriendsRegisteredClientInfo_def
      addFriendToRegisteredClientInfo_def removeFriendFromRegisteredClientInfo_def
      updatePreferenceInRegisteredFriendsClientInfo_def update_friends_def ss_inv_friends
      split: option.splits)

lemma ss_inv_set_any:
  assumes inv: "ss_inv X Y s" and "sorted ps" "distinct ps"
    and set: "setSplatoonMatchmakeSession ptr ps s = (r, s')"
  shows "ss_inv X Y s'"
proof (cases ptr)
  case None
  with set inv show ?thesis by (simp add: setSplatoonMatchmakeSession_def)
next
  case (Some a0)
  have "ss_inv (insert (g_id (heap s a0)) X) Y s" using inv by (rule ss_inv_mono) auto
  from ss_inv_set_session [OF this assms(2,3)] set Some show ?thesis by simp
qed

lemma ss_step_inv: "ss_step s s' \<Longrightarrow> ss_inv {} {} s \<Longrightarrow> ss_inv {} {} s'"
proof (induction rule: ss_step.induct)
  case (set_session ptr ps s r s')
  then show ?case by (blast intro: ss_inv_set_any)
next
  case (add_players g pids s r s')
  then show ?case by (blast intro: ss_inv_add)
next
  case (remove_player g pid s r s')
  then show ?case by (blast intro: ss_inv_remove)
next
  case (new_object m s a s')
  then show ?case by (blast intro: ss_inv_alloc)
qed (rule inv_intros; assumption)+

lemma ss_inv_init: "ss_inv {} {} (LocalSharedState_init sid rpc h)"
  by (rule ss_invI) (simp_all add: LocalSharedState_init_def)

lemma ss_reachable_inv:
  "ss_step\<^sup>*\<^sup>* (LocalSharedState_init sid rpc h) s \<Longrightarrow> ss_inv {} {} s"
  by (induction rule: rtranclp_induct) (auto intro: ss_inv_init ss_step_inv)

section \<open>Who plays where: the abstract store\<close>

text \<open>
  What the handlers rely on: a table from session ids to sets of players. The interface is the
  locale \<open>session_store\<close>; the local state implements it through \<open>membership\<close>.
\<close>

locale session_store =
  fixes members :: "'s \<Rightarrow> u32 \<Rightarrow> u32 set option"
    and add :: "u32 \<Rightarrow> u32 list \<Rightarrow> 's \<Rightarrow> 's"
    and remove :: "u32 \<Rightarrow> u32 \<Rightarrow> 's \<Rightarrow> 's"
    and delete :: "u32 \<Rightarrow> 's \<Rightarrow> 's"
    and good :: "'s \<Rightarrow> bool"
  assumes add_law: "good s \<Longrightarrow> members (add g pids s) =
      (case members s g of None \<Rightarrow> members s | Some P \<Rightarrow> (members s)(g \<mapsto> P \<union> set pids))"
    and remove_law: "good s \<Longrightarrow> members (remove g pid s) =
      (case members s g of None \<Rightarrow> members s | Some P \<Rightarrow> (members s)(g \<mapsto> P - {pid}))"
    and delete_law: "good s \<Longrightarrow> members (delete g s) = (members s)(g := None)"
    and good_add: "good s \<Longrightarrow> good (add g pids s)"
    and good_remove: "good s \<Longrightarrow> good (remove g pid s)"
    and good_delete: "good s \<Longrightarrow> good (delete g s)"
begin

lemma add_then_remove:
  assumes "good s" and "members s g = Some P" and "pid \<notin> P"
  shows "members (remove g pid (add g [pid] s)) = members s"
  using assms add_law [OF assms(1), of g "[pid]"] remove_law [OF good_add [OF assms(1), of g "[pid]"], of g pid]
  by auto

lemma remove_twice:
  assumes "good s"
  shows "members (remove g pid (remove g pid s)) = members (remove g pid s)"
  using remove_law [OF assms, of g pid] remove_law [OF good_remove [OF assms, of g pid], of g pid]
  by (auto split: option.splits)

lemma remove_other:
  assumes "good s" and "members s g = Some P" and "q \<noteq> pid"
  shows "\<exists>P'. members (remove g pid s) g = Some P' \<and> (q \<in> P' \<longleftrightarrow> q \<in> P)"
  using remove_law [OF assms(1), of g pid] assms(2,3) by auto

lemma delete_all:
  "good s \<Longrightarrow> members (delete g s) g = None"
  by (simp add: delete_law)

end

definition membership :: "LocalSharedState \<Rightarrow> u32 \<Rightarrow> u32 set option" where
  "membership s g = map_option (\<lambda>si. set (si_players si)) (map_of (sessions s) g)"

lemma membership_sessions_cong:
  "sessions s' = sessions s \<Longrightarrow> membership s' = membership s"
  by (rule ext) (simp add: membership_def)

lemma sessions_set_participationCount [simp]: "sessions (set_participationCount a n s) = sessions s"
  by (simp add: set_participationCount_def)

lemma sessions_update_client [simp]: "sessions (update_client pid f s) = sessions s"
  by (simp add: update_client_def split: option.splits)

lemma membership_set:
  assumes "setSplatoonMatchmakeSession (Some a0) ps s = (r, s')"
  shows "membership s' = (membership s)(g_id (heap s a0) \<mapsto> set ps)"
  using assms by (auto simp: setSplatoonMatchmakeSession_def Let_def membership_def alist_maps)

lemma add_player_other:
  "g' \<noteq> g \<Longrightarrow> map_of (sessions (add_player g a pid s)) g' = map_of (sessions s) g'"
  by (simp add: add_player_def Let_def alist_maps split: option.splits)

lemma fold_add_other:
  "g' \<noteq> g \<Longrightarrow> map_of (sessions (fold (add_player g a) pids s)) g' = map_of (sessions s) g'"
  by (induction pids arbitrary: s) (simp_all add: add_player_other)

lemma membership_add:
  assumes inv: "ss_inv {} {} s"
  shows "membership (snd (addPlayersToSplatoonMatchmakeSession g pids s)) =
    (case membership s g of None \<Rightarrow> membership s | Some P \<Rightarrow> (membership s)(g \<mapsto> P \<union> set pids))"
proof (cases "map_of (sessions s) g")
  case None
  then show ?thesis by (simp add: addPlayersToSplatoonMatchmakeSession_def membership_def)
next
  case (Some si)
  let ?f = "fold (add_player g (si_session si)) pids s"
  have "ss_inv (insert g {}) {} s" using inv by (rule ss_inv_mono) auto
  from ss_inv_add_players [OF this Some, of pids] obtain ps where
    ps: "map_of (sessions ?f) g = Some (si\<lparr>si_players := ps\<rparr>)" "set ps = set (si_players si) \<union> set pids"
    by blast
  have "membership ?f g' = ((membership s)(g \<mapsto> set (si_players si) \<union> set pids)) g'" for g'
    using ps fold_add_other [of g' g "si_session si" pids s] by (cases "g' = g") (simp_all add: membership_def)
  then have "membership ?f = (membership s)(g \<mapsto> set (si_players si) \<union> set pids)" by (rule ext)
  moreover have "membership (snd (addPlayersToSplatoonMatchmakeSession g pids s)) = membership ?f"
    by (rule membership_sessions_cong) (simp add: addPlayersToSplatoonMatchmakeSession_def Some Let_def)
  moreover have "membership s g = Some (set (si_players si))" using Some by (simp add: membership_def)
  ultimately show ?thesis by simp
qed

lemma membership_remove:
  assumes inv: "ss_inv {} {} s"
  shows "membership (snd (removePlayerFromSplatoonMatchmakeSession g pid s)) =
    (case membership s g of None \<Rightarrow> membership s | Some P \<Rightarrow> (membership s)(g \<mapsto> P - {pid}))"
proof (cases "map_of (sessions s) g")
  case None
  then show ?thesis by (simp add: removePlayerFromSplatoonMatchmakeSession_def membership_def)
next
  case (Some si)
  have "distinct (si_players si)" using ss_invD(3) [OF inv Some] by (simp add: session_entry_ok_def)
  with Some show ?thesis
    by (intro ext) (simp add: removePlayerFromSplatoonMatchmakeSession_def membership_def Let_def alist_maps)
qed

lemma membership_delete: "membership (deleteSplatoonMatchmakeSession g s) = (membership s)(g := None)"
  by (intro ext)
     (simp add: deleteSplatoonMatchmakeSession_def membership_def Let_def alist_maps split: option.splits)

interpretation local_store: session_store membership
  "\<lambda>g pids s. snd (addPlayersToSplatoonMatchmakeSession g pids s)"
  "\<lambda>g pid s. snd (removePlayerFromSplatoonMatchmakeSession g pid s)"
  deleteSplatoonMatchmakeSession "ss_inv {} {}"
proof unfold_locales
  fix s g pids pid assume inv: "ss_inv {} {} s"
  show "ss_inv {} {} (snd (addPlayersToSplatoonMatchmakeSession g pids s))"
    by (rule ss_inv_add [OF inv]) (rule surjective_pairing)
  show "ss_inv {} {} (snd (removePlayerFromSplatoonMatchmakeSession g pid s))"
    by (rule ss_inv_remove [OF inv]) (rule surjective_pairing)
  show "ss_inv {} {} (deleteSplatoonMatchmakeSession g s)" by (rule ss_inv_delete_session [OF inv])
qed (simp_all only: membership_add membership_remove membership_delete)

end
