(* ===== verification/Effects.thy ===== *)
theory Effects
  imports Prelude
begin

text \<open>
  Stateful routines that can throw: a function from the state to an outcome and the state the
  routine leaves, because what a C++ routine has written before it throws stays written.
\<close>

type_synonym ('s, 'a) op = "'s \<Rightarrow> 'a result \<times> 's"

definition returnS :: "'a \<Rightarrow> ('s, 'a) op" where
  "returnS a s = (Inr a, s)"

definition throwS :: "exn \<Rightarrow> ('s, 'a) op" where
  "throwS e s = (Inl e, s)"

definition liftS :: "'a result \<Rightarrow> ('s, 'a) op" where
  "liftS r s = (r, s)"

definition modifyS :: "('s \<Rightarrow> 's) \<Rightarrow> ('s, unit) op" where
  "modifyS f s = (Inr (), f s)"

definition bindS :: "('s, 'a) op \<Rightarrow> ('a \<Rightarrow> ('s, 'b) op) \<Rightarrow> ('s, 'b) op" where
  "bindS m f s = (case m s of (Inl e, s') \<Rightarrow> (Inl e, s') | (Inr a, s') \<Rightarrow> f a s')"

definition seqS :: "('s, 'a) op \<Rightarrow> ('s, 'b) op \<Rightarrow> ('s, 'b) op" where
  "seqS m k = bindS m (\<lambda>_. k)"

text \<open>Reading the state: the rest of the routine gets it as an argument.\<close>

definition readS :: "('s \<Rightarrow> ('s, 'a) op) \<Rightarrow> ('s, 'a) op" where
  "readS f s = f s s"

text \<open>
  \<^verbatim>\<open>try { m } catch (const std::exception& e) { h; throw e; }\<close>. Undefined behaviour is no
  exception: it cannot be caught.
\<close>

definition rethrowS :: "('s, 'a) op \<Rightarrow> ('s, 'b) op \<Rightarrow> ('s, 'a) op" where
  "rethrowS m h s =
     (case m s of
        (Inl e, s') \<Rightarrow> if e = UndefinedAccess then (Inl e, s') else seqS h (throwS e) s'
      | (Inr a, s') \<Rightarrow> (Inr a, s'))"

text \<open>A handler that swallows every exception.\<close>

definition swallowS :: "('s, unit) op \<Rightarrow> ('s, unit) op" where
  "swallowS m s =
     (case m s of
        (Inl e, s') \<Rightarrow> if e = UndefinedAccess then (Inl e, s') else (Inr (), s')
      | (Inr u, s') \<Rightarrow> (Inr u, s'))"

primrec repeatS :: "nat \<Rightarrow> ('s, 'a) op \<Rightarrow> ('s, unit) op" where
  "repeatS 0 m = returnS ()"
| "repeatS (Suc n) m = seqS m (repeatS n m)"

primrec forS :: "'a list \<Rightarrow> ('a \<Rightarrow> ('s, unit) op) \<Rightarrow> ('s, unit) op" where
  "forS [] f = returnS ()"
| "forS (x # xs) f = seqS (f x) (forS xs f)"

section \<open>Evaluation\<close>

lemma returnS_apply [simp]: "returnS a s = (Inr a, s)"
  by (simp add: returnS_def)

lemma throwS_apply [simp]: "throwS e s = (Inl e, s)"
  by (simp add: throwS_def)

lemma liftS_apply [simp]: "liftS r s = (r, s)"
  by (simp add: liftS_def)

lemma modifyS_apply [simp]: "modifyS f s = (Inr (), f s)"
  by (simp add: modifyS_def)

lemma readS_apply [simp]: "readS f s = f s s"
  by (simp add: readS_def)

lemma bindS_Inr [simp]: "m s = (Inr a, s') \<Longrightarrow> bindS m f s = f a s'"
  by (simp add: bindS_def)

lemma bindS_Inl [simp]: "m s = (Inl e, s') \<Longrightarrow> bindS m f s = (Inl e, s')"
  by (simp add: bindS_def)

lemma seqS_Inr [simp]: "m s = (Inr a, s') \<Longrightarrow> seqS m k s = k s'"
  by (simp add: seqS_def)

lemma seqS_Inl [simp]: "m s = (Inl e, s') \<Longrightarrow> seqS m k s = (Inl e, s')"
  by (simp add: seqS_def)

lemma bindS_eq_Inr:
  "bindS m f s = (Inr b, t) \<longleftrightarrow> (\<exists>a s'. m s = (Inr a, s') \<and> f a s' = (Inr b, t))"
  by (auto simp: bindS_def split: prod.splits sum.splits)

lemma seqS_eq_Inr:
  "seqS m k s = (Inr b, t) \<longleftrightarrow> (\<exists>a s'. m s = (Inr a, s') \<and> k s' = (Inr b, t))"
  by (simp add: seqS_def bindS_eq_Inr)

section \<open>Invariants\<close>

text \<open>
  \<open>keeps I m\<close>: the routine keeps \<open>I\<close> on every outcome but undefined behaviour. One rule per
  construct, so that an invariant of a routine follows from those of its parts.
\<close>

definition keeps :: "('s \<Rightarrow> bool) \<Rightarrow> ('s, 'a) op \<Rightarrow> bool" where
  "keeps I m \<longleftrightarrow> (\<forall>s r s'. I s \<longrightarrow> m s = (r, s') \<longrightarrow> r \<noteq> Inl UndefinedAccess \<longrightarrow> I s')"

lemma keepsI: "(\<And>s r s'. I s \<Longrightarrow> m s = (r, s') \<Longrightarrow> r \<noteq> Inl UndefinedAccess \<Longrightarrow> I s') \<Longrightarrow> keeps I m"
  by (auto simp: keeps_def)

lemma keepsD: "keeps I m \<Longrightarrow> I s \<Longrightarrow> m s = (r, s') \<Longrightarrow> r \<noteq> Inl UndefinedAccess \<Longrightarrow> I s'"
  by (auto simp: keeps_def)

named_theorems keeps_intros \<open>a routine keeps an invariant if its parts do\<close>

lemma keeps_return [keeps_intros]: "keeps I (returnS a)"
  by (rule keepsI) auto

lemma keeps_throw [keeps_intros]: "keeps I (throwS e)"
  by (rule keepsI) auto

lemma keeps_lift [keeps_intros]: "keeps I (liftS r)"
  by (rule keepsI) auto

lemma keeps_modify: "(\<And>s. I s \<Longrightarrow> I (f s)) \<Longrightarrow> keeps I (modifyS f)"
  by (rule keepsI) auto

lemma keeps_bind [keeps_intros]:
  assumes "keeps I m" and "\<And>a. keeps I (f a)"
  shows "keeps I (bindS m f)"
proof (rule keepsI)
  fix s r s' assume I: "I s" and run: "bindS m f s = (r, s')" and ok: "r \<noteq> Inl UndefinedAccess"
  obtain q t where m: "m s = (q, t)" by (cases "m s")
  show "I s'"
  proof (cases q)
    case (Inl e)
    then have "r = Inl e" "t = s'" using run m by (simp_all add: bindS_def)
    then show ?thesis using keepsD [OF assms(1) I m] Inl ok by simp
  next
    case (Inr a)
    then have "I t" using keepsD [OF assms(1) I m] by simp
    then show ?thesis using run m Inr keepsD [OF assms(2) _ _ ok] by (simp add: bindS_def)
  qed
qed

lemma keeps_seq [keeps_intros]: "keeps I m \<Longrightarrow> keeps I k \<Longrightarrow> keeps I (seqS m k)"
  unfolding seqS_def by (rule keeps_bind)

lemma keeps_read [keeps_intros]: "(\<And>s. keeps I (f s)) \<Longrightarrow> keeps I (readS f)"
  by (auto simp: keeps_def)

lemma keeps_rethrow [keeps_intros]:
  assumes "keeps I m" and "keeps I h"
  shows "keeps I (rethrowS m h)"
proof (rule keepsI)
  fix s r s' assume I: "I s" and run: "rethrowS m h s = (r, s')" and ok: "r \<noteq> Inl UndefinedAccess"
  obtain q t where m: "m s = (q, t)" by (cases "m s")
  show "I s'"
  proof (cases "q = Inl UndefinedAccess")
    case True
    then show ?thesis using run m ok by (simp add: rethrowS_def)
  next
    case False
    then have "I t" using keepsD [OF assms(1) I m] by simp
    moreover have "keeps I (seqS h (throwS e))" for e :: exn
      by (rule keeps_seq [OF assms(2) keeps_throw])
    ultimately show ?thesis
      using run m False ok by (cases q) (auto simp: rethrowS_def intro: keepsD)
  qed
qed

lemma keeps_swallow [keeps_intros]: "keeps I m \<Longrightarrow> keeps I (swallowS m)"
  by (auto simp: keeps_def swallowS_def split: prod.splits sum.splits if_splits)

lemma keeps_repeat [keeps_intros]: "keeps I m \<Longrightarrow> keeps I (repeatS n m)"
  by (induction n) (simp_all add: keeps_intros)

lemma keeps_for [keeps_intros]: "(\<And>x. keeps I (f x)) \<Longrightarrow> keeps I (forS xs f)"
  by (induction xs) (simp_all add: keeps_intros)

lemma keeps_if [keeps_intros]: "(b \<Longrightarrow> keeps I m) \<Longrightarrow> (\<not> b \<Longrightarrow> keeps I k) \<Longrightarrow> keeps I (if b then m else k)"
  by simp

lemma keeps_option [keeps_intros]:
  "keeps I m \<Longrightarrow> (\<And>x. keeps I (f x)) \<Longrightarrow> keeps I (case ox of None \<Rightarrow> m | Some x \<Rightarrow> f x)"
  by (cases ox) simp_all

section \<open>Triples\<close>

text \<open>
  \<open>runs I m J\<close>: from a state with \<open>I\<close> the routine does not throw; unless it leaves the defined
  behaviour, it ends with a result and a state that have \<open>J\<close>.
\<close>

definition runs :: "('s \<Rightarrow> bool) \<Rightarrow> ('s, 'a) op \<Rightarrow> ('a \<Rightarrow> 's \<Rightarrow> bool) \<Rightarrow> bool" where
  "runs I m J \<longleftrightarrow> (\<forall>s. I s \<longrightarrow>
     (case m s of (Inl e, _) \<Rightarrow> e = UndefinedAccess | (Inr a, s') \<Rightarrow> J a s'))"

named_theorems runs_intros \<open>rules of the triples\<close>

lemma runsI:
  "(\<And>s. I s \<Longrightarrow> (case m s of (Inl e, _) \<Rightarrow> e = UndefinedAccess | (Inr a, s') \<Rightarrow> J a s')) \<Longrightarrow> runs I m J"
  by (simp add: runs_def)

lemma runs_okI: "(\<And>s. I s \<Longrightarrow> \<exists>a s'. m s = (Inr a, s') \<and> J a s') \<Longrightarrow> runs I m J"
  by (rule runsI) force

lemma runsD:
  assumes "runs I m J" and "I s" and "m s = (r, s')" and "r \<noteq> Inl UndefinedAccess"
  obtains a where "r = Inr a" "J a s'"
  using assms by (cases r) (auto simp: runs_def dest!: spec [of _ s])

lemma runs_conseq:
  assumes "runs I m J" and "\<And>s. I' s \<Longrightarrow> I s" and "\<And>a s. J a s \<Longrightarrow> J' a s"
  shows "runs I' m J'"
  using assms unfolding runs_def by (force split: prod.splits sum.splits)

lemma runs_pre: "runs I m J \<Longrightarrow> (\<And>s. I' s \<Longrightarrow> I s) \<Longrightarrow> runs I' m J"
  by (rule runs_conseq)

lemma runs_return: "(\<And>s. I s \<Longrightarrow> J a s) \<Longrightarrow> runs I (returnS a) J"
  by (simp add: runs_def)

lemma runs_skip [runs_intros]: "runs I (returnS a) (\<lambda>_. I)"
  by (simp add: runs_def)

lemma runs_undefined [runs_intros]: "runs I (throwS UndefinedAccess) J"
  by (simp add: runs_def)

lemma runs_modify: "(\<And>s. I s \<Longrightarrow> J () (f s)) \<Longrightarrow> runs I (modifyS f) J"
  by (simp add: runs_def)

lemma runs_bind [runs_intros]:
  assumes "runs I m J" and "\<And>a. runs (J a) (f a) K"
  shows "runs I (bindS m f) K"
proof (rule runsI)
  fix s assume "I s"
  then show "case bindS m f s of (Inl e, _) \<Rightarrow> e = UndefinedAccess | (Inr a, s') \<Rightarrow> K a s'"
    using assms unfolding runs_def bindS_def by (fastforce split: prod.splits sum.splits)
qed

lemma runs_seq [runs_intros]: "runs I m (\<lambda>_. J) \<Longrightarrow> runs J k K \<Longrightarrow> runs I (seqS m k) K"
  unfolding seqS_def by (rule runs_bind)

text \<open>What a routine reads is fixed: from there on the state is known.\<close>

lemma runs_read_exact: "(\<And>s. I s \<Longrightarrow> runs (\<lambda>t. t = s) (f s) J) \<Longrightarrow> runs I (readS f) J"
  by (simp add: runs_def)

lemma runs_read: "(\<And>s. I s \<Longrightarrow> runs I (f s) J) \<Longrightarrow> runs I (readS f) J"
  by (simp add: runs_def)

lemma runs_for: "(\<And>x. x \<in> set xs \<Longrightarrow> runs I (f x) (\<lambda>_. I)) \<Longrightarrow> runs I (forS xs f) (\<lambda>_. I)"
  by (induction xs) (auto intro!: runs_intros)

lemma runs_if [runs_intros]: "(b \<Longrightarrow> runs I m J) \<Longrightarrow> (\<not> b \<Longrightarrow> runs I k J) \<Longrightarrow> runs I (if b then m else k) J"
  by simp

lemma runs_option [runs_intros]:
  "(ox = None \<Longrightarrow> runs I m J) \<Longrightarrow> (\<And>x. ox = Some x \<Longrightarrow> runs I (f x) J) \<Longrightarrow>
   runs I (case ox of None \<Rightarrow> m | Some x \<Rightarrow> f x) J"
  by (cases ox) simp_all

end
