(* ===== verification/Splatoon.thy ===== *)
theory Splatoon
  imports SharedState Effects
begin

text \<open>
  The state of the game server (\<^verbatim>\<open>SplatoonSecureRMC\<close>, \<^verbatim>\<open>src/nex/splatoon\<close>) and what its handlers are
  made of: replies and notifications (\<^verbatim>\<open>sendMsg\<close>, \<^verbatim>\<open>sendNotification\<close>), the ids it gives out
  (\<^verbatim>\<open>getNewGatheringId\<close>), and the two routines that take a player or a session away. A handler runs as
  one step over the local shared state: the sources suspend it at a \<^verbatim>\<open>co_await\<close> of another task, and
  the model describes the runs in which no other handler comes between. The clock, the random
  numbers, the database and the gRPC calls to the other servers are the environment. Logging is left
  out.
\<close>

section \<open>State\<close>

text \<open>The parameters of a call, as its parser delivers them to the handler.\<close>

datatype SplatoonParams =
    RequestProbeInitiationExt "StationURL list" StationURL
  | ReportNatTraversalResult u32 bool u32
  | ReportNatProperties u32 u32 u32
  | SecureRegister "StationURL list"
  | ReplaceUrl StationURL StationURL
  | SendReport u32 bytes
  | UnregisterGathering u32
  | FindBySingleId u32
  | GetSessionUrls u32
  | UpdateSessionHost u32 bool
  | MigrateGatheringOwnership u32 "u32 list" bool
  | EndParticipation u32 string
  | CloseParticipation u32
  | OpenParticipation u32
  | ModifyCurrentGameAttribute u32 u32 u32
  | GetPlayingSessions "u32 list"
  | UpdateProgressScore u32 u8
  | CreateMatchmakeSessionWithParam CreateMatchmakeSessionParam
  | JoinMatchmakeSessionWithParam JoinMatchmakeSessionParam
  | AutoMatchmakeWithParam_Postpone AutoMatchmakeParam
  | GetCompetitionRankingScore CompetitionRankingGetParam
  | UploadCompetitionRankingScore CompetitionRankingUploadScoreParam

text \<open>What a handler sends: a response or a request, with its parameters encoded one by one.\<close>

datatype Outgoing = OutResponse ClientInfo Response "bytes list" | OutRequest ClientInfo Request "bytes list"

text \<open>The commands the handlers run on the database, oldest first, and its answers.\<close>

datatype DbCommand = GET_FESTIVAL_TOTALS u32 | UPLOAD_FESTIVAL_SCORE u32 u32 u8 u32

record FestivalTeamTotals =
  ft_team :: u8
  ft_userCount :: u32
  ft_totalWins :: u32

record FestivalDb =
  db_totals :: "DbCommand list \<Rightarrow> u32 \<Rightarrow> FestivalTeamTotals list option"
  db_upload :: "DbCommand list \<Rightarrow> DbCommand \<Rightarrow> bool"

record Splatoon =
  sp_rmc :: "SplatoonParams RmcServer"
  sp_state :: LocalSharedState
  nextRVConnId :: u32
  nextReqCallId :: u32
  sp_out :: "Outgoing list"
  sp_db :: "DbCommand list"

text \<open>
  The environment of one handler: the clock, the numbers that \<^verbatim>\<open>uniform_int_distribution\<close> draws, the
  key of \<^verbatim>\<open>genKey\<close>, the database if there is one, and whether a gRPC call to an address succeeds.
\<close>

record SplatoonEnv =
  en_now :: time_point
  en_draws :: "nat \<Rightarrow> u32"
  en_key :: bytes
  en_db :: "FestivalDb option"
  en_grpc_notify :: "string \<Rightarrow> ClientInfo \<Rightarrow> NotificationEvent \<Rightarrow> bool"
  en_grpc_probe :: "string \<Rightarrow> ClientInfo \<Rightarrow> bytes \<Rightarrow> bool"

section \<open>Sending\<close>

definition out_message :: "Splatoon \<Rightarrow> Outgoing \<Rightarrow> sent list" where
  "out_message s m = (case m of
       OutResponse c r ps \<Rightarrow> sendResponse (sp_rmc s) c r ps
     | OutRequest c r ps \<Rightarrow> sendRequest (sp_rmc s) c r ps)"

definition sendMsg :: "Outgoing \<Rightarrow> (Splatoon, unit) op" where
  "sendMsg m = modifyS (\<lambda>s. if shouldStop (sp_rmc s) then s else s\<lparr>sp_out := sp_out s @ [m]\<rparr>)"

definition reply_to :: "Request \<Rightarrow> Response" where
  "reply_to req = new_response\<lparr>rs_protocolId := rq_protocolId req, rs_methodId := rq_methodId req,
     rs_extendedProtocolId := rq_extendedProtocolId req, rs_callId := rq_callId req,
     rs_success := True\<rparr>"

definition reply :: "ClientInfo \<Rightarrow> Request \<Rightarrow> bytes list \<Rightarrow> (Splatoon, unit) op" where
  "reply client req params = sendMsg (OutResponse client (reply_to req) params)"

definition refuse :: "ClientInfo \<Rightarrow> Request \<Rightarrow> u32 \<Rightarrow> (Splatoon, unit) op" where
  "refuse client req err =
     sendMsg (OutResponse client ((reply_to req)\<lparr>rs_success := False, rs_error := err\<rparr>) [])"

text \<open>A request to a client, with the next call id.\<close>

definition send_call :: "ClientInfo \<Rightarrow> u8 \<Rightarrow> u32 \<Rightarrow> bytes list \<Rightarrow> (Splatoon, unit) op" where
  "send_call client proto meth params =
     readS (\<lambda>s. seqS (modifyS (\<lambda>s. s\<lparr>nextReqCallId := nextReqCallId s + 1\<rparr>))
       (sendMsg (OutRequest client (new_request\<lparr>rq_protocolId := proto, rq_methodId := meth,
          rq_callId := nextReqCallId s\<rparr>) params)))"

section \<open>The shared state\<close>

definition with_client ::
  "u32 \<Rightarrow> (SplatoonRegisteredClientInfo option \<Rightarrow> (Splatoon, 'a) op) \<Rightarrow> (Splatoon, 'a) op" where
  "with_client pid f = readS (\<lambda>s. f (getSplatoonRegisteredClientInfo (sp_state s) pid))"

definition with_session :: "u32 \<Rightarrow> (SessionInfo option \<Rightarrow> (Splatoon, 'a) op) \<Rightarrow> (Splatoon, 'a) op" where
  "with_session gId f = readS (\<lambda>s. f (getSplatoonMatchmakeSession (sp_state s) gId))"

text \<open>Reading the object behind a \<^verbatim>\<open>shared_ptr<MatchmakeSession>\<close>.\<close>

definition with_object :: "addr \<Rightarrow> (MatchmakeSession \<Rightarrow> (Splatoon, 'a) op) \<Rightarrow> (Splatoon, 'a) op" where
  "with_object a f = readS (\<lambda>s. f (heap (sp_state s) a))"

definition change_state :: "(LocalSharedState \<Rightarrow> LocalSharedState) \<Rightarrow> (Splatoon, unit) op" where
  "change_state f = modifyS (\<lambda>s. s\<lparr>sp_state := f (sp_state s)\<rparr>)"

definition change_object :: "addr \<Rightarrow> (MatchmakeSession \<Rightarrow> MatchmakeSession) \<Rightarrow> (Splatoon, unit) op" where
  "change_object a f = change_state (write_session a f)"

text \<open>\<^verbatim>\<open>std::make_shared\<close>.\<close>

definition new_object :: "MatchmakeSession \<Rightarrow> (Splatoon, addr) op" where
  "new_object m s = (let (a, t) = alloc m (sp_state s) in (Inr a, s\<lparr>sp_state := t\<rparr>))"

definition set_session :: "addr \<Rightarrow> u32 list \<Rightarrow> (Splatoon, ss_result) op" where
  "set_session a players s =
     (let (r, t) = setSplatoonMatchmakeSession (Some a) players (sp_state s)
      in (Inr r, s\<lparr>sp_state := t\<rparr>))"

section \<open>Notifications\<close>

datatype NotificationType =
    NO_NOTIFICATION
  | NEW_PARTICIPANT
  | PARTICIPATION_CANCELLED
  | PARTICIPANT_DISCONNECTED
  | PARTICIPATION_ENDED
  | OWNERSHIP_CHANGED
  | GATHERING_UNREGISTERED
  | HOST_CHANGED
  | MATCHMAKE_REFEREE_ROUND_STARTED
  | SYSTEM_PASSWORD_CHANGED
  | SYSTEM_PASSWORD_CLEARED
  | SWITCH_GATHERING

primrec notification_code :: "NotificationType \<Rightarrow> u32" where
  "notification_code NO_NOTIFICATION = 0"
| "notification_code NEW_PARTICIPANT = 3001"
| "notification_code PARTICIPATION_CANCELLED = 3002"
| "notification_code PARTICIPANT_DISCONNECTED = 3007"
| "notification_code PARTICIPATION_ENDED = 3008"
| "notification_code OWNERSHIP_CHANGED = 4000"
| "notification_code GATHERING_UNREGISTERED = 109000"
| "notification_code HOST_CHANGED = 110000"
| "notification_code MATCHMAKE_REFEREE_ROUND_STARTED = 116000"
| "notification_code SYSTEM_PASSWORD_CHANGED = 120000"
| "notification_code SYSTEM_PASSWORD_CLEARED = 121000"
| "notification_code SWITCH_GATHERING = 122000"

definition notification ::
  "NotificationType \<Rightarrow> u32 \<Rightarrow> u32 \<Rightarrow> u32 \<Rightarrow> string \<Rightarrow> u32 \<Rightarrow> NotificationEvent" where
  "notification ty srcPid param1 param2 strParam param3 =
     \<lparr>ne_srcPid = srcPid, ne_type = notification_code ty, ne_param1 = param1, ne_param2 = param2,
      ne_strParam = strParam, ne_param3 = param3\<rparr>"

definition sendNotification :: "SplatoonEnv \<Rightarrow> ClientInfo \<Rightarrow> NotificationEvent \<Rightarrow> bool \<Rightarrow> (Splatoon, bool) op" where
  "sendNotification ev client event dontResend =
     readS (\<lambda>s.
       if ci_serverId client = rmc_serverId (sp_rmc s) \<or> dontResend then
         (case pidMap (sp_rmc s) (ci_address client) of
            None \<Rightarrow> returnS False
          | Some _ \<Rightarrow> seqS (send_call client 14 1 [encode_NotificationEvent (ci_minorVersion client) event])
                       (returnS True))
       else (case getPublicFacingRPCAddress (sp_state s) (ci_serverId client) of
               None \<Rightarrow> returnS False
             | Some rpc \<Rightarrow> returnS (en_grpc_notify ev rpc client event)))"

text \<open>The handlers ignore what \<^verbatim>\<open>sendNotification\<close> returns, and skip players that are not registered.\<close>

definition notify :: "SplatoonEnv \<Rightarrow> ClientInfo \<Rightarrow> NotificationEvent \<Rightarrow> (Splatoon, unit) op" where
  "notify ev client event = bindS (sendNotification ev client event False) (\<lambda>_. returnS ())"

definition notify_player :: "SplatoonEnv \<Rightarrow> u32 \<Rightarrow> NotificationEvent list \<Rightarrow> (Splatoon, unit) op" where
  "notify_player ev pid events =
     with_client pid (\<lambda>ci. case ci of
         None \<Rightarrow> returnS ()
       | Some info \<Rightarrow> forS events (notify ev (sr_client info)))"

definition notify_players :: "SplatoonEnv \<Rightarrow> u32 list \<Rightarrow> NotificationEvent list \<Rightarrow> (Splatoon, unit) op" where
  "notify_players ev pids events = forS pids (\<lambda>pid. notify_player ev pid events)"

text \<open>The time in microseconds, as the ownership notifications carry it.\<close>

definition msNow :: "SplatoonEnv \<Rightarrow> string" where
  "msNow ev = show_num (word_of_int (en_now ev div 1000) :: u64)"

section \<open>Gathering ids\<close>

text \<open>The loop draws until the id is free; if every draw is taken it does not return.\<close>

partial_function (option) draw_gathering_id :: "LocalSharedState \<Rightarrow> (nat \<Rightarrow> u32) \<Rightarrow> nat \<Rightarrow> u32 option" where
  "draw_gathering_id s draws n =
     (case getSplatoonMatchmakeSession s (draws n) of
        None \<Rightarrow> Some (draws n)
      | Some _ \<Rightarrow> draw_gathering_id s draws (Suc n))"

text \<open>A handler whose loop never ends has no outcome: it stays in the loop.\<close>

definition getNewGatheringId :: "SplatoonEnv \<Rightarrow> (Splatoon, u32) op" where
  "getNewGatheringId ev =
     readS (\<lambda>s. case draw_gathering_id (sp_state s) (en_draws ev) 0 of
         None \<Rightarrow> throwS UndefinedAccess
       | Some gId \<Rightarrow> returnS gId)"

section \<open>Leaving\<close>

definition unregisterGathering_internal :: "SplatoonEnv \<Rightarrow> u32 \<Rightarrow> u32 \<Rightarrow> (Splatoon, unit) op" where
  "unregisterGathering_internal ev gId srcPid =
     with_session gId (\<lambda>si. case si of
         None \<Rightarrow> returnS ()
       | Some info \<Rightarrow>
           seqS (notify_players ev (si_players info) [notification GATHERING_UNREGISTERED srcPid gId 0 '''' 0])
             (change_state (deleteSplatoonMatchmakeSession gId)))"

text \<open>The rest of \<^verbatim>\<open>removePlayerFromSession\<close>, once the player is off the list and others remain.\<close>

definition hand_over :: "SplatoonEnv \<Rightarrow> u32 \<Rightarrow> addr \<Rightarrow> u32 list \<Rightarrow> (Splatoon, unit) op" where
  "hand_over ev playerPid a players =
     seqS (with_object a (\<lambda>m. if ownerPid m = playerPid
         then seqS (change_object a (\<lambda>m. m\<lparr>ownerPid := hd players\<rparr>))
                (notify_players ev players
                   [notification OWNERSHIP_CHANGED playerPid (g_id m) (hd players) (msNow ev) 0])
         else returnS ()))
     (seqS (with_object a (\<lambda>m. if hostPid m = playerPid
         then seqS (change_object a (\<lambda>m. m\<lparr>hostPid := hd players\<rparr>))
                (notify_players ev players
                   [notification HOST_CHANGED playerPid (g_id m) (hd players) '''' 0])
         else returnS ()))
     (bindS (set_session a players) (\<lambda>_. returnS ())))"

definition removePlayerFromSession ::
  "SplatoonEnv \<Rightarrow> u32 \<Rightarrow> u32 \<Rightarrow> string \<Rightarrow> bool \<Rightarrow> (Splatoon, unit) op" where
  "removePlayerFromSession ev gId playerPid msg disconnected =
     with_session gId (\<lambda>si. case si of
         None \<Rightarrow> returnS ()
       | Some info \<Rightarrow>
           if playerPid \<notin> set (si_players info) then returnS ()
           else with_client playerPid (\<lambda>ci. case ci of
               None \<Rightarrow> returnS ()
             | Some playerInfo \<Rightarrow>
                 (let a = si_session info; players = remove1 playerPid (si_players info) in
                  seqS (if disconnected then returnS ()
                        else with_object a (\<lambda>m. notify ev (sr_client playerInfo)
                          (notification PARTICIPATION_ENDED playerPid (g_id m) playerPid msg 0)))
                  (seqS (change_object a (\<lambda>m. m\<lparr>participationCount := of_nat (length players)\<rparr>))
                  (if players = [] then unregisterGathering_internal ev gId playerPid
                   else seqS (with_object a (\<lambda>m. notify_player ev (ownerPid m)
                        [notification (if disconnected then PARTICIPANT_DISCONNECTED else PARTICIPATION_ENDED)
                           playerPid (g_id m) playerPid msg 0]))
                      (hand_over ev playerPid a players))))))"

section \<open>Disconnection\<close>

text \<open>
  The task that \<^verbatim>\<open>Server::onDisconnect\<close> returns is dropped without being awaited, and a task does
  nothing until then: the address stays in the map of users.
\<close>

definition splatoon_onDisconnect :: "SplatoonEnv \<Rightarrow> PRUDPAddress \<Rightarrow> (Splatoon, unit) op" where
  "splatoon_onDisconnect ev addr =
     readS (\<lambda>s. case pidMap (sp_rmc s) addr of
         None \<Rightarrow> returnS ()
       | Some pid \<Rightarrow>
           seqS (with_client pid (\<lambda>ci. case ci of
                   None \<Rightarrow> returnS ()
                 | Some info \<Rightarrow> forS (joinedGatherings info) (\<lambda>a. with_object a (\<lambda>m.
                     removePlayerFromSession ev (g_id m) pid '''' True))))
             (change_state (deleteSplatoonRegisteredClientInfo pid)))"

section \<open>For the management interface\<close>

definition externalRequestProbeInitiationExt :: "ClientInfo \<Rightarrow> StationURL \<Rightarrow> (Splatoon, bool) op" where
  "externalRequestProbeInitiationExt client probe =
     readS (\<lambda>s. if ci_serverId client \<noteq> rmc_serverId (sp_rmc s) then returnS False
       else seqS (send_call client 3 2 [encode_StationURL probe]) (returnS True))"

definition getConnectedClientCount :: "Splatoon \<Rightarrow> nat" where
  "getConnectedClientCount s = getSplatoonRegisteredClientCount (sp_state s)"

definition getLobbyCount :: "Splatoon \<Rightarrow> nat" where
  "getLobbyCount s = getSplatoonMatchmakeSessionCount (sp_state s)"

definition getAllSessions :: "Splatoon \<Rightarrow> SessionInfo list" where
  "getAllSessions s = map snd (getAllSplatoonMatchmakeSessions (sp_state s))"

text \<open>\<open>db_run\<close>: a command goes to the database.\<close>

definition db_run :: "DbCommand \<Rightarrow> (Splatoon, unit) op" where
  "db_run c = modifyS (\<lambda>s. s\<lparr>sp_db := sp_db s @ [c]\<rparr>)"

definition getFestivalTotals :: "SplatoonEnv \<Rightarrow> u32 \<Rightarrow> (Splatoon, FestivalTeamTotals list) op" where
  "getFestivalTotals ev festivalId =
     (case en_db ev of
        None \<Rightarrow> returnS []
      | Some db \<Rightarrow> readS (\<lambda>s. seqS (db_run (GET_FESTIVAL_TOTALS festivalId))
          (returnS (case db_totals db (sp_db s) festivalId of None \<Rightarrow> [] | Some ts \<Rightarrow> ts))))"

end
