(* ===== verification/Arc4.thy ===== *)
theory Arc4
  imports Prelude
begin

text \<open>
  The RC4 stream cipher of \<^verbatim>\<open>src/crypto/arc4.cpp\<close> and its use as an \<^verbatim>\<open>Encoder\<close> of PRUDP payloads
  (\<^verbatim>\<open>src/nex/prudp/packet.cpp\<close>): one cipher state for each direction. The state vector keeps its
  256 entries; every index is computed in \<^verbatim>\<open>int\<close> and reduced modulo 256, so \<open>state ! _\<close> is always
  in range once the state has its 256 entries (the invariant \<open>arc4_ok\<close>).
\<close>

section \<open>The cipher\<close>

record ARC4 =
  arc4_state :: bytes
  arc4_i :: u8
  arc4_j :: u8

definition swap :: "'a list \<Rightarrow> nat \<Rightarrow> nat \<Rightarrow> 'a list" where
  "swap xs i j = xs[i := xs ! j, j := xs ! i]"

text \<open>
  The key-scheduling loop of the constructor. An empty key makes \<^verbatim>\<open>idx % key.size()\<close> a division
  by zero, which is undefined in C++.
\<close>

fun ksa_loop :: "bytes \<Rightarrow> nat list \<Rightarrow> nat \<Rightarrow> bytes \<Rightarrow> bytes" where
  "ksa_loop key [] a st = st"
| "ksa_loop key (idx # is) a st =
     (let a' = (a + unat (st ! idx) + unat (key ! (idx mod length key))) mod 256
      in ksa_loop key is a' (swap st idx a'))"

definition arc4_init :: "bytes \<Rightarrow> ARC4 result" where
  "arc4_init key =
     (if key = [] then Inl UndefinedAccess
      else Inr \<lparr>arc4_state = ksa_loop key [0..<256] 0 (map of_nat [0..<256]),
                arc4_i = 0, arc4_j = 0\<rparr>)"

text \<open>One round of the generator: the new state and the key-stream byte.\<close>

definition arc4_step :: "ARC4 \<Rightarrow> ARC4 \<times> byte" where
  "arc4_step c =
     (let i' = of_nat ((unat (arc4_i c) + 1) mod 256);
          j' = of_nat ((unat (arc4_j c) + unat (arc4_state c ! unat i')) mod 256);
          st = swap (arc4_state c) (unat i') (unat j')
      in (\<lparr>arc4_state = st, arc4_i = i', arc4_j = j'\<rparr>,
          st ! ((unat (st ! unat i') + unat (st ! unat j')) mod 256)))"

fun encDec :: "ARC4 \<Rightarrow> bytes \<Rightarrow> ARC4 \<times> bytes" where
  "encDec c [] = (c, [])"
| "encDec c (b # bs) =
     (let (c', k) = arc4_step c; (c'', out) = encDec c' bs in (c'', (b XOR k) # out))"

definition arc4_encrypt :: "ARC4 \<Rightarrow> bytes \<Rightarrow> ARC4 \<times> bytes" where
  "arc4_encrypt = encDec"

definition arc4_decrypt :: "ARC4 \<Rightarrow> bytes \<Rightarrow> ARC4 \<times> bytes" where
  "arc4_decrypt = encDec"

section \<open>The state invariant\<close>

text \<open>The state vector is always a permutation of the 256 byte values.\<close>

definition arc4_ok :: "ARC4 \<Rightarrow> bool" where
  "arc4_ok c \<longleftrightarrow> length (arc4_state c) = 256 \<and> distinct (arc4_state c)"

lemma length_swap [simp]: "length (swap xs i j) = length xs"
  by (simp add: swap_def)

lemma distinct_swap: "i < length xs \<Longrightarrow> j < length xs \<Longrightarrow> distinct (swap xs i j) = distinct xs"
  by (simp add: swap_def)

lemma ksa_loop_perm:
  "length st = 256 \<Longrightarrow> distinct st \<Longrightarrow> (\<forall>i \<in> set is. i < 256) \<Longrightarrow>
   length (ksa_loop key is a st) = 256 \<and> distinct (ksa_loop key is a st)"
  by (induction key "is" a st rule: ksa_loop.induct) (simp_all add: Let_def distinct_swap)

lemma distinct_all_bytes: "distinct (map (of_nat :: nat \<Rightarrow> byte) [0..<256])"
proof (subst distinct_map, intro conjI inj_onI)
  fix x y :: nat
  assume "x \<in> set [0..<256]" "y \<in> set [0..<256]" and eq: "(of_nat x :: byte) = of_nat y"
  then have "x < 256" "y < 256" by simp_all
  moreover have "unat (of_nat x :: byte) = unat (of_nat y :: byte)" using eq by simp
  ultimately show "x = y" by (simp add: unat_of_nat)
qed simp

lemma arc4_init_ok [inv_intros]: "arc4_init key = Inr c \<Longrightarrow> arc4_ok c"
  using ksa_loop_perm [of "map of_nat [0..<256]" "[0..<256]" key 0]
  by (auto simp: arc4_init_def arc4_ok_def distinct_all_bytes split: if_splits)

lemma arc4_step_ok [inv_intros]: "arc4_ok c \<Longrightarrow> arc4_ok (fst (arc4_step c))"
  by (simp add: arc4_step_def arc4_ok_def Let_def distinct_swap)

lemma encDec_ok [inv_intros]: "arc4_ok c \<Longrightarrow> arc4_ok (fst (encDec c bs))"
  by (induction c bs rule: encDec.induct)
     (auto simp: Let_def split: prod.splits dest: arc4_step_ok)

section \<open>The stream cipher as an involution\<close>

text \<open>
  The key stream never depends on the data, so two ends that start in the same state stay in step
  for as long as they process byte strings of the same lengths.
\<close>

lemma length_encDec [simp]: "length (snd (encDec c bs)) = length bs"
  by (induction c bs rule: encDec.induct) (auto simp: Let_def split: prod.splits)

lemma encDec_Nil_iff [simp]: "snd (encDec c bs) = [] \<longleftrightarrow> bs = []"
  by (metis length_encDec length_0_conv)

lemma fst_encDec_length: "length bs = length cs \<Longrightarrow> fst (encDec c bs) = fst (encDec c cs)"
proof (induction bs cs arbitrary: c rule: list_induct2)
  case Nil
  show ?case by simp
next
  case (Cons x xs y ys)
  then show ?case by (auto simp: Let_def split: prod.splits) (metis fst_conv)
qed

lemma encDec_encDec: "encDec c (snd (encDec c bs)) = (fst (encDec c bs), bs)"
  by (induction c bs rule: encDec.induct)
     (auto simp: Let_def xor.assoc split: prod.splits)

lemma encDec_append:
  "encDec c (xs @ ys) =
     (let (c', a) = encDec c xs; (c'', b) = encDec c' ys in (c'', a @ b))"
  by (induction c xs rule: encDec.induct) (auto simp: Let_def split: prod.splits)

section \<open>Encoders\<close>

text \<open>\<^verbatim>\<open>nex::prudp::Encoder\<close>: two independent ciphers with the same key.\<close>

record Encoder =
  encCtx :: ARC4
  decCtx :: ARC4

definition Encoder_init :: "bytes \<Rightarrow> Encoder result" where
  "Encoder_init key = bindE (arc4_init key) (\<lambda>c. Inr \<lparr>encCtx = c, decCtx = c\<rparr>)"

definition Encoder_encode :: "Encoder \<Rightarrow> bytes \<Rightarrow> Encoder \<times> bytes" where
  "Encoder_encode e d = (let (c, out) = arc4_encrypt (encCtx e) d in (e\<lparr>encCtx := c\<rparr>, out))"

definition Encoder_decode :: "Encoder \<Rightarrow> bytes \<Rightarrow> Encoder \<times> bytes" where
  "Encoder_decode e d = (let (c, out) = arc4_decrypt (decCtx e) d in (e\<lparr>decCtx := c\<rparr>, out))"

definition encoder_ok :: "Encoder \<Rightarrow> bool" where
  "encoder_ok e \<longleftrightarrow> arc4_ok (encCtx e) \<and> arc4_ok (decCtx e)"

lemma Encoder_init_ok [inv_intros]: "Encoder_init key = Inr e \<Longrightarrow> encoder_ok e"
  by (auto simp: Encoder_init_def encoder_ok_def bindE_eq_Inr_iff intro: inv_intros)

lemma Encoder_encode_ok [inv_intros]: "encoder_ok e \<Longrightarrow> encoder_ok (fst (Encoder_encode e d))"
  by (auto simp: Encoder_encode_def encoder_ok_def arc4_encrypt_def split: prod.splits)
     (metis encDec_ok fst_conv)

lemma Encoder_decode_ok [inv_intros]: "encoder_ok e \<Longrightarrow> encoder_ok (fst (Encoder_decode e d))"
  by (auto simp: Encoder_decode_def encoder_ok_def arc4_decrypt_def split: prod.splits)
     (metis encDec_ok fst_conv)

lemma length_Encoder_encode [simp]: "length (snd (Encoder_encode e d)) = length d"
  by (metis (no_types, lifting) Encoder_encode_def arc4_encrypt_def case_prod_unfold length_encDec snd_conv)

text \<open>A sender's stream and the receiver's stream are \<open>synced\<close> when the receiver can decode what comes next.\<close>

definition synced :: "Encoder \<Rightarrow> Encoder \<Rightarrow> bool" where
  "synced s r \<longleftrightarrow> encCtx s = decCtx r"

fun encode_all :: "Encoder \<Rightarrow> bytes list \<Rightarrow> Encoder \<times> bytes list" where
  "encode_all e [] = (e, [])"
| "encode_all e (d # ds) =
     (let (e', x) = Encoder_encode e d; (e'', xs) = encode_all e' ds in (e'', x # xs))"

fun decode_all :: "Encoder \<Rightarrow> bytes list \<Rightarrow> Encoder \<times> bytes list" where
  "decode_all e [] = (e, [])"
| "decode_all e (d # ds) =
     (let (e', x) = Encoder_decode e d; (e'', xs) = decode_all e' ds in (e'', x # xs))"

lemma synced_step:
  assumes "synced s r"
  shows "snd (Encoder_decode r (snd (Encoder_encode s d))) = d"
    and "synced (fst (Encoder_encode s d)) (fst (Encoder_decode r (snd (Encoder_encode s d))))"
  using assms encDec_encDec [of "encCtx s" d]
  by (auto simp: synced_def Encoder_encode_def Encoder_decode_def arc4_encrypt_def arc4_decrypt_def
      split: prod.splits)

lemma synced_init: "Encoder_init key = Inr s \<Longrightarrow> synced s s"
  by (auto simp: Encoder_init_def synced_def bindE_eq_Inr_iff)

lemma decode_all_encode_all:
  "synced s r \<Longrightarrow> snd (decode_all r (snd (encode_all s ds))) = ds"
proof (induction ds arbitrary: s r)
  case Nil
  show ?case by simp
next
  case (Cons d ds)
  let ?s = "fst (Encoder_encode s d)" and ?x = "snd (Encoder_encode s d)"
  have "synced ?s (fst (Encoder_decode r ?x))" "snd (Encoder_decode r ?x) = d"
    using synced_step [OF Cons.prems] by simp_all
  with Cons.IH show ?case by (auto simp: Let_def split: prod.splits) (metis fst_conv snd_conv)+
qed

text \<open>The messages of a stream are encrypted like one text.\<close>

lemma encode_all_ok [inv_intros]: "encoder_ok e \<Longrightarrow> encoder_ok (fst (encode_all e ds))"
proof (induction ds arbitrary: e)
  case (Cons d ds)
  obtain e1 x where e1: "Encoder_encode e d = (e1, x)" by (cases "Encoder_encode e d")
  then have "encoder_ok e1" using Encoder_encode_ok [OF Cons.prems, of d] by simp
  from Cons.IH [OF this] show ?case by (cases "encode_all e1 ds") (simp add: e1)
qed simp

lemma concat_encode_all: "concat (snd (encode_all e ds)) = snd (encDec (encCtx e) (concat ds))"
proof (induction ds arbitrary: e)
  case (Cons d ds)
  obtain c x where c: "encDec (encCtx e) d = (c, x)" by (cases "encDec (encCtx e) d")
  then have e1: "Encoder_encode e d = (e\<lparr>encCtx := c\<rparr>, x)"
    by (simp add: Encoder_encode_def arc4_encrypt_def)
  show ?case
    using Cons.IH [of "e\<lparr>encCtx := c\<rparr>"]
    by (cases "encode_all (e\<lparr>encCtx := c\<rparr>) ds"; cases "encDec c (concat ds)")
       (simp add: e1 c encDec_append)
qed simp

end
