(* ===== verification/Packet.thy ===== *)
theory Packet
  imports Arc4
begin

text \<open>
  The PRUDP packets of \<^verbatim>\<open>src/nex/prudp/packet.hpp\<close> and \<^verbatim>\<open>packet.cpp\<close>. One record holds the fields
  of \<^verbatim>\<open>Packet\<close>, \<^verbatim>\<open>PacketV0\<close> and \<^verbatim>\<open>PacketV1\<close>; \<open>isV1\<close> says which class the object is of. The
  shared encoder of a connection is held by value: whoever sends the packet stores it back. MD5 and
  HMAC-MD5 (\<^verbatim>\<open>src/crypto/tools.cpp\<close>, a call into OpenSSL) are parameters.
\<close>

section \<open>Data\<close>

record Crypto =
  MD5 :: "bytes \<Rightarrow> bytes"
  HMAC_MD5 :: "bytes \<Rightarrow> bytes \<Rightarrow> bytes"

text \<open>What the code relies on: a digest has 16 bytes.\<close>

definition crypto_ok :: "Crypto \<Rightarrow> bool" where
  "crypto_ok cr \<longleftrightarrow>
     (\<forall>d. length (MD5 cr d) = 16) \<and> (\<forall>k d. length (HMAC_MD5 cr k d) = 16)"

datatype ptype = SYN | CONNECT | DATA | DISCONNECT | PING

primrec type_code :: "ptype \<Rightarrow> u16" where
  "type_code SYN = 0"
| "type_code CONNECT = 1"
| "type_code DATA = 2"
| "type_code DISCONNECT = 3"
| "type_code PING = 4"

definition type_of_code :: "u16 \<Rightarrow> ptype option" where
  "type_of_code c =
     (if c = 0 then Some SYN else if c = 1 then Some CONNECT else if c = 2 then Some DATA
      else if c = 3 then Some DISCONNECT else if c = 4 then Some PING else None)"

definition FLAG_ACK :: u16 where "FLAG_ACK = 0x01"
definition FLAG_RELIABLE :: u16 where "FLAG_RELIABLE = 0x02"
definition FLAG_NEED_ACK :: u16 where "FLAG_NEED_ACK = 0x04"
definition FLAG_HAS_SIZE :: u16 where "FLAG_HAS_SIZE = 0x08"
definition FLAG_MULTI_ACK :: u16 where "FLAG_MULTI_ACK = 0x200"

record Packet =
  isV1 :: bool
  p_type :: ptype
  srcStreamType :: u8
  srcPort :: u8
  dstStreamType :: u8
  dstPort :: u8
  p_flags :: u16
  sessionId :: u8
  seqId :: u16
  fragmentId :: u8
  p_sessionKey :: bytes
  connectionSignature :: bytes
  remoteSignature :: bytes
  p_accessKey :: bytes
  p_encoder :: "Encoder option"
  p_data :: bytes
  encryptedData :: bytes
  p_signature :: bytes
  friends :: bool
  substreamId :: u8
  p_minorVersion :: u8
  supportedFunctions :: u32
  p_maxSubstreamId :: u8
  initSeqIdUnreliable :: u16
  packetSpecificData :: bytes
  p_header :: bytes

text \<open>A new packet: \<^verbatim>\<open>std::make_shared\<close> value-initialises what has no initialiser of its own.\<close>

definition new_packet :: "bool \<Rightarrow> Packet" where
  "new_packet v1 =
     \<lparr>isV1 = v1, p_type = SYN, srcStreamType = 0xA, srcPort = 0, dstStreamType = 0xA, dstPort = 0,
      p_flags = 0, sessionId = 0, seqId = 0, fragmentId = 0, p_sessionKey = [],
      connectionSignature = [], remoteSignature = [], p_accessKey = [], p_encoder = None,
      p_data = [], encryptedData = [], p_signature = [], friends = True, substreamId = 0,
      p_minorVersion = 4, supportedFunctions = 0, p_maxSubstreamId = 0, initSeqIdUnreliable = 0,
      packetSpecificData = [], p_header = []\<rparr>"

definition has_flag :: "Packet \<Rightarrow> u16 \<Rightarrow> bool" where
  "has_flag p f \<longleftrightarrow> p_flags p AND f \<noteq> 0"

section \<open>Payload encryption\<close>

definition encryptData :: "Packet \<Rightarrow> Packet" where
  "encryptData p =
     (if encryptedData p \<noteq> [] then p
      else case p_encoder p of
          None \<Rightarrow> p\<lparr>encryptedData := p_data p\<rparr>
        | Some e \<Rightarrow> (case Encoder_encode e (p_data p) of
              (e', c) \<Rightarrow> p\<lparr>encryptedData := c, p_encoder := Some e'\<rparr>))"

definition decryptData :: "bool \<Rightarrow> Packet \<Rightarrow> Packet result" where
  "decryptData force p =
     (if p_data p \<noteq> [] then Inr p
      else case p_encoder p of
          None \<Rightarrow> if force then Inr (p\<lparr>p_data := encryptedData p\<rparr>) else Inl RuntimeError
        | Some e \<Rightarrow> (case Encoder_decode e (encryptedData p) of
              (e', m) \<Rightarrow> Inr (p\<lparr>p_data := m, p_encoder := Some e'\<rparr>)))"

definition packet_size :: "Packet \<Rightarrow> nat" where
  "packet_size p = (if p_data p \<noteq> [] then length (p_data p) else length (encryptedData p))"

text \<open>The step both encoders share: \<^verbatim>\<open>if (!data.empty()) encryptData()\<close>.\<close>

definition encrypt_payload :: "Packet \<Rightarrow> Packet" where
  "encrypt_payload p = (if p_data p \<noteq> [] then encryptData p else p)"

section \<open>Version 0\<close>

definition calculateChecksum :: "bytes \<Rightarrow> bytes \<Rightarrow> u8" where
  "calculateChecksum d accessKey =
     (let sum = sum_list (map (\<lambda>i. ucast (le_word (slice d (i * 4) 4) :: u32) :: u64)
                  [0..<length d div 4]);
          result = sum_list (map ucast accessKey) + sum_list (map ucast (drop (length d div 4 * 4) d))
                   + sum_list (map ucast (le_bytes 4 (ucast sum :: u32))) :: u64
      in ucast result)"

definition calculateSignatureV0 :: "Crypto \<Rightarrow> Packet \<Rightarrow> bytes \<Rightarrow> bytes" where
  "calculateSignatureV0 cr p remote =
     (if friends p then
        (if p_type p = DATA \<and> encryptedData p = [] then [0x78, 0x56, 0x34, 0x12]
         else if p_type p = DATA then
           take 4 (HMAC_MD5 cr (MD5 cr (p_accessKey p)) (encryptedData p))
         else remote)
      else
        (if p_type p = DATA \<or> p_type p = DISCONNECT then
           take 4 (HMAC_MD5 cr (MD5 cr (p_accessKey p))
             (p_sessionKey p @ le_bytes 2 (seqId p) @ [fragmentId p] @ encryptedData p))
         else remote))"

definition flagsAndType :: "Packet \<Rightarrow> u16" where
  "flagsAndType p = type_code (p_type p) OR push_bit 4 (p_flags p)"

definition or_zeros :: "bytes \<Rightarrow> bytes" where
  "or_zeros s = (if s \<noteq> [] then s else replicate 4 0)"

definition specificV0 :: "Packet \<Rightarrow> bytes" where
  "specificV0 p =
     (if p_type p = SYN \<or> p_type p = CONNECT then connectionSignature p
      else if p_type p = DATA then [fragmentId p]
      else [])"

definition encodeV0 :: "Crypto \<Rightarrow> Packet \<Rightarrow> bytes \<times> Packet" where
  "encodeV0 cr p0 =
     (let p = encrypt_payload p0;
          sig = calculateSignatureV0 cr p (or_zeros (remoteSignature p));
          result =
            [srcPort p OR push_bit 4 (srcStreamType p), dstPort p OR push_bit 4 (dstStreamType p)]
            @ le_bytes 2 (flagsAndType p) @ [sessionId p] @ sig @ le_bytes 2 (seqId p)
            @ specificV0 p
            @ (if has_flag p FLAG_HAS_SIZE then le_bytes 2 (of_nat (length (encryptedData p)) :: u16)
               else [])
            @ encryptedData p
      in (result @ [calculateChecksum result (p_accessKey p)], p))"

text \<open>The fixed part of the header, and the field that depends on the type.\<close>

definition headerV0 :: "Packet \<Rightarrow> bytes \<Rightarrow> Packet result" where
  "headerV0 p d =
     (let fat = (le_word (slice d 2 2) :: u16)
      in case type_of_code (fat AND 0xF) of
           None \<Rightarrow> Inl MalformedException
         | Some ty \<Rightarrow> Inr (p\<lparr>srcPort := d ! 0 AND 0xF, srcStreamType := drop_bit 4 (d ! 0),
             dstPort := d ! 1 AND 0xF, dstStreamType := drop_bit 4 (d ! 1),
             p_flags := drop_bit 4 fat, p_type := ty, sessionId := d ! 4,
             p_signature := slice d 5 4, seqId := le_word (slice d 9 2)\<rparr>))"

definition decode_specificV0 :: "Packet \<Rightarrow> bytes \<Rightarrow> (Packet \<times> nat) result" where
  "decode_specificV0 p d =
     (if p_type p = SYN \<or> p_type p = CONNECT then
        (if length d < 15 then Inl MalformedException
         else Inr (p\<lparr>remoteSignature := slice d 11 4\<rparr>, 15))
      else if p_type p = DATA then
        (if length d < 13 then Inl MalformedException
         else Inr (p\<lparr>fragmentId := d ! 11\<rparr>, 12))
      else Inr (p, 11))"

definition decode_payloadV0 :: "Packet \<Rightarrow> bytes \<Rightarrow> nat \<Rightarrow> (Packet \<times> nat) result" where
  "decode_payloadV0 p d off =
     (if has_flag p FLAG_HAS_SIZE then
        (if length d - 1 < off + 2 then Inl MalformedException
         else let size = unat (le_word (slice d off 2) :: u16); off = off + 2
              in if length d - off - 1 \<noteq> size then Inl MalformedException
                 else Inr (if size > 0 then p\<lparr>encryptedData := slice d off size\<rparr> else p, off + size))
      else if length d - 1 > off then
        Inr (p\<lparr>encryptedData := slice d off (length d - 1 - off)\<rparr>, length d - 1)
      else Inr (p, off))"

definition decodeV0 :: "Packet \<Rightarrow> bytes \<Rightarrow> (Packet \<times> nat) result" where
  "decodeV0 p0 d =
     (if length d < 12 then Inl MalformedException
      else bindE (headerV0 p0 d) (\<lambda>p1.
           bindE (decode_specificV0 p1 d) (\<lambda>(p2, off).
           bindE (decode_payloadV0 p2 d off) (\<lambda>(p, off).
           if last d \<noteq> calculateChecksum (take off d) (p_accessKey p) then Inl MalformedException
           else Inr (p, off + 1)))))"

definition checkSignatureV0 :: "Crypto \<Rightarrow> Packet \<Rightarrow> bool" where
  "checkSignatureV0 cr p \<longleftrightarrow>
     calculateSignatureV0 cr p (or_zeros (connectionSignature p)) = p_signature p"

section \<open>Version 1\<close>

definition calculateSignatureV1 :: "Crypto \<Rightarrow> Packet \<Rightarrow> bytes \<Rightarrow> bytes \<Rightarrow> bytes \<Rightarrow> bytes" where
  "calculateSignatureV1 cr p header remote specific =
     HMAC_MD5 cr (MD5 cr (p_accessKey p))
       (slice header 6 8 @ p_sessionKey p
        @ le_bytes 4 (sum_list (map ucast (p_accessKey p)) :: u32)
        @ remote @ specific @ encryptedData p)"

definition specificV1 :: "Packet \<Rightarrow> bytes result" where
  "specificV1 p =
     (if p_type p = SYN \<or> p_type p = CONNECT then
        (if length (connectionSignature p) \<noteq> 16 \<and> connectionSignature p \<noteq> [] then Inl RuntimeError
         else Inr (
           [0, 4] @ le_bytes 4 (push_bit 8 (supportedFunctions p) OR ucast (p_minorVersion p))
           @ [1] @ (if connectionSignature p = [] then 16 # replicate 16 0
                    else of_nat (length (connectionSignature p)) # connectionSignature p)
           @ (if p_type p = CONNECT then [3, 2] @ le_bytes 2 (initSeqIdUnreliable p) else [])
           @ [4, 1, p_maxSubstreamId p]))
      else if p_type p = DATA then Inr [2, 1, fragmentId p]
      else Inr [])"

definition headerV1 :: "Packet \<Rightarrow> bytes \<Rightarrow> bytes" where
  "headerV1 p specific =
     [0xEA, 0xD0, 1, of_nat (length specific)]
     @ le_bytes 2 (of_nat (length (encryptedData p)) :: u16)
     @ [srcPort p OR push_bit 4 (srcStreamType p), dstPort p OR push_bit 4 (dstStreamType p)]
     @ le_bytes 2 (flagsAndType p) @ [sessionId p, substreamId p] @ le_bytes 2 (seqId p)"

definition encodeV1 :: "Crypto \<Rightarrow> Packet \<Rightarrow> (bytes \<times> Packet) result" where
  "encodeV1 cr p0 =
     bindE (specificV1 p0) (\<lambda>specific.
       let p = (encrypt_payload p0)\<lparr>packetSpecificData := specific\<rparr>;
           header = headerV1 p specific;
           sig = calculateSignatureV1 cr p header (remoteSignature p) specific
       in Inr (header @ sig @ specific @ encryptedData p, p))"

text \<open>
  One option of the packet-specific data. The length byte is read without a check: a lone option
  id at the end is a read past the end of the vector.
\<close>

definition decode_option :: "Packet \<Rightarrow> u8 \<Rightarrow> bytes \<Rightarrow> Packet result" where
  "decode_option p opt v =
     (let syn = (p_type p = SYN \<or> p_type p = CONNECT)
      in if opt = 0 then
           (if length v \<noteq> 4 \<or> \<not> syn then Inl MalformedException
            else let f = (le_word v :: u32)
                 in Inr (p\<lparr>supportedFunctions := drop_bit 8 f, p_minorVersion := ucast (f AND 0xFF)\<rparr>))
         else if opt = 1 then
           (if length v \<noteq> 16 \<or> \<not> syn then Inl MalformedException
            else Inr (p\<lparr>remoteSignature := v\<rparr>))
         else if opt = 2 then
           (if length v \<noteq> 1 \<or> p_type p \<noteq> DATA then Inl MalformedException
            else Inr (p\<lparr>fragmentId := hd v\<rparr>))
         else if opt = 3 then
           (if length v \<noteq> 2 \<or> p_type p \<noteq> CONNECT then Inl MalformedException
            else Inr (p\<lparr>initSeqIdUnreliable := le_word v\<rparr>))
         else if opt = 4 then
           (if length v \<noteq> 1 \<or> \<not> syn then Inl MalformedException
            else Inr (p\<lparr>p_maxSubstreamId := hd v\<rparr>))
         else Inl MalformedException)"

function decode_options :: "Packet \<Rightarrow> bytes \<Rightarrow> Packet result" where
  "decode_options p [] = Inr p"
| "decode_options p [_] = Inl UndefinedAccess"
| "decode_options p (opt # len # r) =
     (if length r < unat len then Inl MalformedException
      else bindE (decode_option p opt (take (unat len) r)) (\<lambda>p'.
           decode_options p' (drop (unat len) r)))"
  by pat_completeness auto
termination
  by (relation "measure (\<lambda>(_, d). length d)") simp_all

definition decodeV1 :: "Packet \<Rightarrow> bytes \<Rightarrow> (Packet \<times> nat) result" where
  "decodeV1 p0 d =
     (if length d < 30 then Inl RuntimeError
      else if d ! 0 \<noteq> 0xEA \<or> d ! 1 \<noteq> 0xD0 then Inl RuntimeError
      else if d ! 2 \<noteq> 1 then Inl RuntimeError
      else let n = unat (d ! 3);
               size = unat (le_word (slice d 4 2) :: u16);
               fat = (le_word (slice d 8 2) :: u16)
           in if length d < 30 + n + size then Inl RuntimeError
              else case type_of_code (fat AND 0xF) of
                  None \<Rightarrow> Inl MalformedException
                | Some ty \<Rightarrow>
                    bindE (decode_options (p0\<lparr>srcPort := d ! 6 AND 0xF,
                        srcStreamType := drop_bit 4 (d ! 6), dstPort := d ! 7 AND 0xF,
                        dstStreamType := drop_bit 4 (d ! 7), p_flags := drop_bit 4 fat,
                        p_type := ty, sessionId := d ! 10, substreamId := d ! 11,
                        seqId := le_word (slice d 12 2), encryptedData := slice d (30 + n) size,
                        p_signature := slice d 14 16, packetSpecificData := slice d 30 n,
                        p_header := slice d 0 14\<rparr>) (slice d 30 n)) (\<lambda>p.
                    Inr (p, 30 + n + size)))"

definition checkSignatureV1 :: "Crypto \<Rightarrow> Packet \<Rightarrow> bool" where
  "checkSignatureV1 cr p \<longleftrightarrow>
     p_signature p
       = calculateSignatureV1 cr p (p_header p) (connectionSignature p) (packetSpecificData p)"

section \<open>The virtual functions\<close>

definition encode_packet :: "Crypto \<Rightarrow> Packet \<Rightarrow> (bytes \<times> Packet) result" where
  "encode_packet cr p = (if isV1 p then encodeV1 cr p else Inr (encodeV0 cr p))"

definition decode_packet :: "Packet \<Rightarrow> bytes \<Rightarrow> (Packet \<times> nat) result" where
  "decode_packet p d = (if isV1 p then decodeV1 p d else decodeV0 p d)"

definition checkSignature :: "Crypto \<Rightarrow> Packet \<Rightarrow> bool" where
  "checkSignature cr p = (if isV1 p then checkSignatureV1 cr p else checkSignatureV0 cr p)"

section \<open>Packed bytes\<close>

lemma mask_numerals: "(0xF :: u8) = mask 4" "(0xF :: u16) = mask 4" "(0xFF :: u32) = mask 8"
  by (simp_all add: mask_eq_exp_minus_1)

lemma unpack_nibbles:
  assumes "(a :: u8) < 16" and "(b :: u8) < 16"
  shows "(a OR push_bit 4 b) AND 0xF = a" and "drop_bit 4 (a OR push_bit 4 b) = b"
proof -
  have hi: "\<And>i. bit a i \<Longrightarrow> i < 4" "\<And>i. bit b i \<Longrightarrow> i < 4"
    using high_bits [of a 4] high_bits [of b 4] assms by (auto simp: not_le [symmetric])
  show "(a OR push_bit 4 b) AND 0xF = a" "drop_bit 4 (a OR push_bit 4 b) = b"
    by (rule bit_word_eqI; auto simp: bit_simps mask_numerals dest: hi)+
qed

lemma type_code_small: "type_code t < 16"
  by (cases t) simp_all

lemma type_of_code_type_code [simp]: "type_of_code (type_code t) = Some t"
  by (cases t) (simp_all add: type_of_code_def)

lemma unpack_flags:
  assumes "(f :: u16) < 2 ^ 12"
  shows "(type_code t OR push_bit 4 f) AND 0xF = type_code t"
    and "drop_bit 4 (type_code t OR push_bit 4 f) = f"
proof -
  have hi: "\<And>i. bit (type_code t) i \<Longrightarrow> i < 4" "\<And>i. bit f i \<Longrightarrow> i < 12"
    using high_bits [of "type_code t" 4] high_bits [of f 12] assms type_code_small [of t]
    by (auto simp: not_le [symmetric])
  show "(type_code t OR push_bit 4 f) AND 0xF = type_code t"
    "drop_bit 4 (type_code t OR push_bit 4 f) = f"
    by (rule bit_word_eqI; auto simp: bit_simps mask_numerals dest: hi)+
qed

lemma unpack_functions:
  assumes "(s :: u32) < 2 ^ 24"
  shows "drop_bit 8 (push_bit 8 s OR ucast (v :: u8)) = s"
    and "ucast ((push_bit 8 s OR ucast v) AND 0xFF) = v"
proof -
  have hi: "\<And>i. bit s i \<Longrightarrow> i < 24" "\<And>i. bit v i \<Longrightarrow> i < 8"
    using high_bits [of s 24] assms bit_imp_le_length [of v] by (auto simp: not_le [symmetric])
  show "drop_bit 8 (push_bit 8 s OR ucast v) = s" "ucast ((push_bit 8 s OR ucast v) AND 0xFF) = v"
    by (rule bit_word_eqI; auto simp: bit_simps mask_numerals dest: hi)+
qed

text \<open>The fields that fit their place in the header of either version.\<close>

definition fields_fit :: "Packet \<Rightarrow> bool" where
  "fields_fit p \<longleftrightarrow> srcPort p < 16 \<and> srcStreamType p < 16 \<and> dstPort p < 16 \<and> dstStreamType p < 16
     \<and> p_flags p < 2 ^ 12"

lemma unpack_header:
  assumes "fields_fit p"
  shows "(srcPort p OR push_bit 4 (srcStreamType p)) AND 0xF = srcPort p"
    "drop_bit 4 (srcPort p OR push_bit 4 (srcStreamType p)) = srcStreamType p"
    "(dstPort p OR push_bit 4 (dstStreamType p)) AND 0xF = dstPort p"
    "drop_bit 4 (dstPort p OR push_bit 4 (dstStreamType p)) = dstStreamType p"
    "type_of_code (flagsAndType p AND 0xF) = Some (p_type p)"
    "drop_bit 4 (flagsAndType p) = p_flags p"
  using assms unfolding fields_fit_def flagsAndType_def
  by (simp_all only: unpack_nibbles unpack_flags type_of_code_type_code)

section \<open>Encryption leaves the header alone\<close>

lemma encrypt_payload_fields [simp]:
  "isV1 (encrypt_payload p) = isV1 p" "p_type (encrypt_payload p) = p_type p"
  "srcStreamType (encrypt_payload p) = srcStreamType p" "srcPort (encrypt_payload p) = srcPort p"
  "dstStreamType (encrypt_payload p) = dstStreamType p" "dstPort (encrypt_payload p) = dstPort p"
  "p_flags (encrypt_payload p) = p_flags p" "sessionId (encrypt_payload p) = sessionId p"
  "seqId (encrypt_payload p) = seqId p" "fragmentId (encrypt_payload p) = fragmentId p"
  "p_sessionKey (encrypt_payload p) = p_sessionKey p"
  "connectionSignature (encrypt_payload p) = connectionSignature p"
  "remoteSignature (encrypt_payload p) = remoteSignature p"
  "p_accessKey (encrypt_payload p) = p_accessKey p" "p_data (encrypt_payload p) = p_data p"
  "friends (encrypt_payload p) = friends p" "substreamId (encrypt_payload p) = substreamId p"
  "p_minorVersion (encrypt_payload p) = p_minorVersion p"
  "supportedFunctions (encrypt_payload p) = supportedFunctions p"
  "p_maxSubstreamId (encrypt_payload p) = p_maxSubstreamId p"
  "initSeqIdUnreliable (encrypt_payload p) = initSeqIdUnreliable p"
  by (simp_all add: encrypt_payload_def encryptData_def split: option.splits prod.splits)

lemma length_encrypted:
  "encryptedData p = [] \<Longrightarrow> length (encryptedData (encrypt_payload p)) = length (p_data p)"
  by (auto simp: encrypt_payload_def encryptData_def split: option.splits prod.splits)
     (metis length_Encoder_encode snd_conv)

text \<open>
  What the receiver's \<open>decryptData\<close> makes of it: with synchronised encoders, the data that was sent.
\<close>

lemma decryptData_encrypt_payload:
  assumes "p_encoder p = Some s" and "p_encoder q = Some r" and "synced s r"
    and "encryptedData p = []" and "p_data p \<noteq> []" and "p_data q = []"
    and "encryptedData q = encryptedData (encrypt_payload p)"
  shows "\<exists>q'. decryptData False q = Inr q' \<and> p_data q' = p_data p"
  using assms synced_step(1) [OF assms(3), of "p_data p"]
  by (auto simp: decryptData_def encrypt_payload_def encryptData_def split: prod.splits)

section \<open>Reading a version 0 packet back\<close>

lemma four_bytes: "length s = 4 \<Longrightarrow> \<exists>a b c d. s = [a, b, c, d]"
  by (auto simp: numeral_eq_Suc length_Suc_conv)

lemma headerV0_fields:
  assumes "length sig = 4" and "fields_fit p"
  shows "headerV0 q ([srcPort p OR push_bit 4 (srcStreamType p), dstPort p OR push_bit 4 (dstStreamType p)]
      @ le_bytes 2 (flagsAndType p) @ [sessionId p] @ sig @ le_bytes 2 (seqId p) @ r) =
    Inr (q\<lparr>srcPort := srcPort p, srcStreamType := srcStreamType p, dstPort := dstPort p,
      dstStreamType := dstStreamType p, p_flags := p_flags p, p_type := p_type p,
      sessionId := sessionId p, p_signature := sig, seqId := seqId p\<rparr>)"
proof -
  obtain a b c d where sig: "sig = [a, b, c, d]" using four_bytes [OF assms(1)] by blast
  have le2: "le_word [ucast w, ucast (drop_bit 8 w)] = w" for w :: u16
    using le_word_le_bytes_word(3) [of w] by (simp only: le_bytes_two)
  show ?thesis
    unfolding headerV0_def sig le_bytes_two slice_def
    by (simp add: le2 unpack_header [OF assms(2)] Let_def del: le_word.simps drop_bit_or)
qed

lemma decode_payloadV0_append:
  assumes "encryptedData p = []" and "length enc < 65536"
    and "d = pre @ (if has_flag p FLAG_HAS_SIZE then le_bytes 2 (of_nat (length enc) :: u16) else [])
      @ enc @ [c]"
  shows "decode_payloadV0 p d (length pre) = Inr (p\<lparr>encryptedData := enc\<rparr>, length d - 1)"
proof -
  have n: "unat (of_nat (length enc) :: u16) = length enc"
    using assms(2) by (simp add: unat_of_nat)
  show ?thesis
  proof (cases "has_flag p FLAG_HAS_SIZE")
    case True
    then have d: "d = pre @ le_bytes 2 (of_nat (length enc) :: u16) @ enc @ [c]" using assms(3) by simp
    have "le_word (slice d (length pre) 2) = (of_nat (length enc) :: u16)"
      by (simp add: d slice_def)
    then show ?thesis
      using True assms(1) by (simp add: decode_payloadV0_def Let_def n) (simp add: d slice_def)
  next
    case False
    then have d: "d = pre @ enc @ [c]" using assms(3) by simp
    show ?thesis using False assms(1) by (auto simp: decode_payloadV0_def d slice_def)
  qed
qed

definition sentV0_ok :: "Packet \<Rightarrow> bool" where
  "sentV0_ok p \<longleftrightarrow> fields_fit p \<and> encryptedData p = [] \<and> length (p_data p) < 65536
     \<and> length (remoteSignature p) \<in> {0, 4}
     \<and> (p_type p \<in> {SYN, CONNECT} \<longrightarrow> length (connectionSignature p) = 4)"

text \<open>The packet object the receiver ends up with, from the fresh one \<open>q\<close> it decoded into.\<close>

definition receivedV0 :: "Crypto \<Rightarrow> Packet \<Rightarrow> Packet \<Rightarrow> Packet" where
  "receivedV0 cr p q =
     (let e = encrypt_payload p
      in q\<lparr>srcPort := srcPort p, srcStreamType := srcStreamType p, dstPort := dstPort p,
           dstStreamType := dstStreamType p, p_flags := p_flags p, p_type := p_type p,
           sessionId := sessionId p, seqId := seqId p,
           p_signature := calculateSignatureV0 cr e (or_zeros (remoteSignature p)),
           remoteSignature := (if p_type p \<in> {SYN, CONNECT} then connectionSignature p
                               else remoteSignature q),
           fragmentId := (if p_type p = DATA then fragmentId p else fragmentId q),
           encryptedData := encryptedData e\<rparr>)"

lemma length_calculateSignatureV0:
  assumes "crypto_ok cr" and "length remote = 4"
  shows "length (calculateSignatureV0 cr p remote) = 4"
  using assms by (simp add: calculateSignatureV0_def crypto_ok_def)

lemma decodeV0_encodeV0:
  assumes cr: "crypto_ok cr" and ok: "sentV0_ok p"
    and q: "encryptedData q = []" "p_accessKey q = p_accessKey p"
  shows "decodeV0 q (fst (encodeV0 cr p)) = Inr (receivedV0 cr p q, length (fst (encodeV0 cr p)))"
proof -
  define e where "e = encrypt_payload p"
  define sig where "sig = calculateSignatureV0 cr e (or_zeros (remoteSignature p))"
  define h where "h = [srcPort p OR push_bit 4 (srcStreamType p), dstPort p OR push_bit 4 (dstStreamType p)]
    @ le_bytes 2 (flagsAndType p) @ [sessionId p] @ sig @ le_bytes 2 (seqId p)"
  define sz where "sz = (if has_flag p FLAG_HAS_SIZE then le_bytes 2 (of_nat (length (encryptedData e)) :: u16) else [])"
  define body where "body = h @ specificV0 p @ sz @ encryptedData e"
  define c where "c = calculateChecksum body (p_accessKey p)"
  define d where "d = body @ [c]"
  have fit: "fields_fit p" and p: "encryptedData p = []" "length (p_data p) < 65536"
    using ok by (simp_all add: sentV0_ok_def)
  have enc: "fst (encodeV0 cr p) = d"
    by (simp add: encodeV0_def Let_def d_def c_def body_def h_def sz_def sig_def e_def specificV0_def
        has_flag_def flagsAndType_def)
  have "length (or_zeros (remoteSignature p)) = 4" using ok by (auto simp: or_zeros_def sentV0_ok_def)
  then have sig: "length sig = 4" unfolding sig_def by (rule length_calculateSignatureV0 [OF cr])
  then have h: "length h = 11" by (simp add: h_def)
  have small: "length (encryptedData e) < 65536" using p by (simp add: e_def length_encrypted)
  let ?q1 = "q\<lparr>srcPort := srcPort p, srcStreamType := srcStreamType p, dstPort := dstPort p,
      dstStreamType := dstStreamType p, p_flags := p_flags p, p_type := p_type p,
      sessionId := sessionId p, p_signature := sig, seqId := seqId p\<rparr>"
  let ?q2 = "?q1\<lparr>remoteSignature := (if p_type p \<in> {SYN, CONNECT} then connectionSignature p
        else remoteSignature q), fragmentId := (if p_type p = DATA then fragmentId p else fragmentId q)\<rparr>"
  have d: "d = h @ specificV0 p @ sz @ encryptedData e @ [c]" by (simp add: d_def body_def)
  have step1: "headerV0 q d = Inr ?q1"
    unfolding d h_def append_assoc by (rule headerV0_fields [OF sig fit])
  have step2: "decode_specificV0 ?q1 d = Inr (?q2, length (h @ specificV0 p))"
    using ok h by (cases "p_type p")
      (simp_all add: decode_specificV0_def d specificV0_def sentV0_ok_def slice_def nth_append)
  have step3: "decode_payloadV0 ?q2 d (length (h @ specificV0 p)) =
      Inr (?q2\<lparr>encryptedData := encryptedData e\<rparr>, length d - 1)"
    by (rule decode_payloadV0_append [where c = c])
       (use q small in \<open>simp_all add: d sz_def has_flag_def\<close>)
  have "12 \<le> length d" by (simp add: d h)
  moreover have "take (length d - 1) d = body" "last d = c" by (simp_all add: d_def)
  ultimately have "decodeV0 q d = Inr (?q2\<lparr>encryptedData := encryptedData e\<rparr>, length d)"
    using step1 step2 step3 q by (simp add: decodeV0_def c_def)
  also have "?q2\<lparr>encryptedData := encryptedData e\<rparr> = receivedV0 cr p q"
    by (simp add: receivedV0_def Let_def sig_def e_def)
  finally show ?thesis by (simp only: enc)
qed

lemma checkSignatureV0_received:
  assumes "friends q = friends p" and "p_accessKey q = p_accessKey p"
    and "p_sessionKey q = p_sessionKey p" and "connectionSignature q = remoteSignature p"
    and "p_type p \<noteq> DATA \<Longrightarrow> fragmentId q = fragmentId p"
  shows "checkSignatureV0 cr (receivedV0 cr p q)"
  using assms by (simp add: checkSignatureV0_def receivedV0_def Let_def calculateSignatureV0_def)

text \<open>Whatever is accepted has the right checksum over everything in front of its last byte.\<close>

lemma decode_payloadV0_off:
  assumes "decode_payloadV0 p d off = Inr (p', off')" and "off + 1 \<le> length d"
  shows "off' = length d - 1"
  using assms by (auto simp: decode_payloadV0_def Let_def split: if_splits)

lemma decodeV0_checksum:
  assumes "decodeV0 q d = Inr (p, n)"
  shows "last d = calculateChecksum (take (n - 1) d) (p_accessKey p) \<and> 12 \<le> length d"
  using assms by (auto simp: decodeV0_def bindE_eq_Inr_iff split: if_splits)

lemma headerV0_no_UB: "headerV0 q d \<noteq> Inl UndefinedAccess"
  by (simp add: headerV0_def Let_def split: option.splits)

lemma specificV0_no_UB: "decode_specificV0 q d \<noteq> Inl UndefinedAccess"
  by (simp add: decode_specificV0_def)

lemma payloadV0_no_UB: "decode_payloadV0 q d off \<noteq> Inl UndefinedAccess"
  by (simp add: decode_payloadV0_def Let_def)

lemma decodeV0_defined: "decodeV0 q d \<noteq> Inl UndefinedAccess"
  unfolding decodeV0_def
  by (simp add: bindE_not_Inl bindE_pair_not_Inl headerV0_no_UB specificV0_no_UB payloadV0_no_UB)

text \<open>
  It does not claim more bytes than there are, but for one case: behind a connection signature the
  offset is not compared with the end, so a packet of 15 bytes has no checksum of its own and is said
  to be one byte longer than it is.
\<close>

lemma decodeV0_length:
  assumes "decodeV0 q d = Inr (p, n)"
  shows "n \<le> length d \<or> n = 16 \<and> length d = 15 \<and> (p_type p = SYN \<or> p_type p = CONNECT)"
proof -
  obtain p1 p2 off off' where h: "12 \<le> length d" "decode_specificV0 p1 d = Inr (p2, off)"
    "decode_payloadV0 p2 d off = Inr (p, off')" and n: "n = off' + 1"
    using assms by (auto simp: decodeV0_def bindE_eq_Inr_iff split: if_splits)
  have type: "p_type p = p_type p2" using h(3) by (auto simp: decode_payloadV0_def Let_def split: if_splits)
  show ?thesis
  proof (cases "off + 1 \<le> length d")
    case True
    from decode_payloadV0_off [OF h(3) this] n h(1) have "n = length d" by linarith
    then show ?thesis by simp
  next
    case False
    with h(1,2) have "off = 15" "length d = 15" "p_type p2 = SYN \<or> p_type p2 = CONNECT"
      by (auto simp: decode_specificV0_def split: if_splits)
    moreover from this have "off' = 15" using h(3) by (auto simp: decode_payloadV0_def split: if_splits)
    ultimately show ?thesis using n type by simp
  qed
qed

lemma decodeV0_within:
  "case decodeV0 q d of
     Inl e \<Rightarrow> e \<noteq> UndefinedAccess
   | Inr (p, n) \<Rightarrow> n \<le> length d \<or> n = 16 \<and> length d = 15 \<and> (p_type p = SYN \<or> p_type p = CONNECT)"
proof (cases "decodeV0 q d")
  case (Inl e)
  then show ?thesis using decodeV0_defined [of q d] by auto
next
  case (Inr r)
  obtain p n where "r = (p, n)" by (cases r)
  with Inr show ?thesis using decodeV0_length [of q d p n] by simp
qed

section \<open>Reading a version 1 packet back\<close>

lemma decode_options_step:
  assumes "length v < 256" and "len = of_nat (length v)"
  shows "decode_options p (opt # len # v @ r) =
    bindE (decode_option p opt v) (\<lambda>p'. decode_options p' r)"
proof -
  have "unat len = length v" using assms by (simp add: unat_of_nat)
  then show ?thesis by simp
qed

definition sentV1_ok :: "Packet \<Rightarrow> bool" where
  "sentV1_ok p \<longleftrightarrow> fields_fit p \<and> encryptedData p = [] \<and> length (p_data p) < 65536
     \<and> length (connectionSignature p) \<in> {0, 16} \<and> supportedFunctions p < 2 ^ 24"

text \<open>The packet-specific data of a packet that does not throw.\<close>

definition connection_option :: "Packet \<Rightarrow> bytes" where
  "connection_option p =
     (if connectionSignature p = [] then replicate 16 0 else connectionSignature p)"

definition optionsV1 :: "Packet \<Rightarrow> bytes" where
  "optionsV1 p =
     (if p_type p \<in> {SYN, CONNECT} then
        0 # 4 # le_bytes 4 (push_bit 8 (supportedFunctions p) OR ucast (p_minorVersion p))
        @ 1 # 16 # connection_option p
        @ (if p_type p = CONNECT then 3 # 2 # le_bytes 2 (initSeqIdUnreliable p) else [])
        @ 4 # 1 # [p_maxSubstreamId p]
      else if p_type p = DATA then 2 # 1 # [fragmentId p]
      else [])"

lemma specificV1_options: "sentV1_ok p \<Longrightarrow> specificV1 p = Inr (optionsV1 p)"
  by (auto simp: specificV1_def optionsV1_def sentV1_ok_def connection_option_def)

lemma length_connection_option: "sentV1_ok p \<Longrightarrow> length (connection_option p) = 16"
  by (auto simp: connection_option_def sentV1_ok_def)

lemma length_optionsV1: "sentV1_ok p \<Longrightarrow> length (optionsV1 p) < 256"
  by (simp add: optionsV1_def length_connection_option)

text \<open>What the options fill in, on top of a packet \<open>q\<close> of the same type.\<close>

definition filledV1 :: "Packet \<Rightarrow> Packet \<Rightarrow> Packet" where
  "filledV1 p q =
     (if p_type p \<in> {SYN, CONNECT} then
        q\<lparr>supportedFunctions := supportedFunctions p, p_minorVersion := p_minorVersion p,
          remoteSignature := connection_option p, p_maxSubstreamId := p_maxSubstreamId p,
          initSeqIdUnreliable := (if p_type p = CONNECT then initSeqIdUnreliable p
                                  else initSeqIdUnreliable q)\<rparr>
      else if p_type p = DATA then q\<lparr>fragmentId := fragmentId p\<rparr>
      else q)"

lemma decode_options_optionsV1:
  assumes "sentV1_ok p" and q: "p_type q = p_type p"
  shows "decode_options q (optionsV1 p) = Inr (filledV1 p q)"
proof -
  note sig = length_connection_option [OF assms(1)]
  have fn: "supportedFunctions p < 2 ^ 24" using assms(1) by (simp add: sentV1_ok_def)
  have conn: "decode_option w 1 (connection_option p) = Inr (w\<lparr>remoteSignature := connection_option p\<rparr>)"
    if "p_type w \<in> {SYN, CONNECT}" for w
    using that sig by (auto simp: decode_option_def)
  have sup: "decode_option w 0 (le_bytes 4 (push_bit 8 (supportedFunctions p) OR ucast (p_minorVersion p))) =
    Inr (w\<lparr>supportedFunctions := supportedFunctions p, p_minorVersion := p_minorVersion p\<rparr>)"
    if "p_type w \<in> {SYN, CONNECT}" for w
    using that unfolding decode_option_def le_word_le_bytes_word Let_def unpack_functions [OF fn] by auto
  have seq: "decode_option w 3 (le_bytes 2 (initSeqIdUnreliable p)) =
    Inr (w\<lparr>initSeqIdUnreliable := initSeqIdUnreliable p\<rparr>)" if "p_type w = CONNECT" for w
    using that by (simp add: decode_option_def)
  have one: "decode_options w (opt # 1 # [b]) = decode_option w opt [b]" for w opt b
    by (simp add: bindE_def split: sum.splits)
  show ?thesis
    using q by (cases "p_type p")
      (simp_all add: optionsV1_def filledV1_def decode_options_step conn sup seq sig one,
       simp_all add: decode_option_def)
qed

definition receivedV1 :: "Crypto \<Rightarrow> Packet \<Rightarrow> Packet \<Rightarrow> Packet" where
  "receivedV1 cr p q =
     (let e = encrypt_payload p; h = headerV1 e (optionsV1 p)
      in filledV1 p (q\<lparr>srcPort := srcPort p, srcStreamType := srcStreamType p, dstPort := dstPort p,
           dstStreamType := dstStreamType p, p_flags := p_flags p, p_type := p_type p,
           sessionId := sessionId p, substreamId := substreamId p, seqId := seqId p,
           encryptedData := encryptedData e,
           p_signature := calculateSignatureV1 cr e h (remoteSignature p) (optionsV1 p),
           packetSpecificData := optionsV1 p, p_header := h\<rparr>))"

lemma calculateSignatureV1_specific [simp]:
  "calculateSignatureV1 cr (p\<lparr>packetSpecificData := x\<rparr>) h r sp = calculateSignatureV1 cr p h r sp"
  "headerV1 (p\<lparr>packetSpecificData := x\<rparr>) sp = headerV1 p sp"
  by (simp_all add: calculateSignatureV1_def headerV1_def flagsAndType_def)

lemma length_headerV1 [simp]: "length (headerV1 p sp) = 14"
  by (simp add: headerV1_def)

lemma encodeV1_bytes:
  assumes "sentV1_ok p"
  shows "encodeV1 cr p = Inr (headerV1 (encrypt_payload p) (optionsV1 p)
      @ calculateSignatureV1 cr (encrypt_payload p) (headerV1 (encrypt_payload p) (optionsV1 p))
          (remoteSignature p) (optionsV1 p)
      @ optionsV1 p @ encryptedData (encrypt_payload p),
    (encrypt_payload p)\<lparr>packetSpecificData := optionsV1 p\<rparr>)"
  by (simp add: encodeV1_def specificV1_options [OF assms] Let_def)

lemma headerV1_fields:
  assumes "fields_fit p" and "length sp < 256" and "length (encryptedData p) < 65536"
  defines "h \<equiv> headerV1 p sp"
  shows "(h @ r) ! 0 = 0xEA" "(h @ r) ! 1 = 0xD0" "(h @ r) ! 2 = 1" "unat ((h @ r) ! 3) = length sp"
    "unat (le_word (slice (h @ r) 4 2) :: u16) = length (encryptedData p)"
    "(h @ r) ! 6 AND 0xF = srcPort p" "drop_bit 4 ((h @ r) ! 6) = srcStreamType p"
    "(h @ r) ! 7 AND 0xF = dstPort p" "drop_bit 4 ((h @ r) ! 7) = dstStreamType p"
    "le_word (slice (h @ r) 8 2) = flagsAndType p"
    "(h @ r) ! 10 = sessionId p" "(h @ r) ! 11 = substreamId p"
    "le_word (slice (h @ r) 12 2) = seqId p"
proof -
  have le2: "le_word [ucast w, ucast (drop_bit 8 w)] = w" for w :: u16
    using le_word_le_bytes_word(3) [of w] by (simp only: le_bytes_two)
  have n: "unat (of_nat (length sp) :: u8) = length sp"
    "unat (of_nat (length (encryptedData p)) :: u16) = length (encryptedData p)"
    using assms(2,3) by (simp_all add: unat_of_nat)
  note ev = h_def headerV1_def le_bytes_two slice_def
  show "(h @ r) ! 0 = 0xEA" "(h @ r) ! 1 = 0xD0" "(h @ r) ! 2 = 1" "unat ((h @ r) ! 3) = length sp"
    "unat (le_word (slice (h @ r) 4 2) :: u16) = length (encryptedData p)"
    "(h @ r) ! 6 AND 0xF = srcPort p" "drop_bit 4 ((h @ r) ! 6) = srcStreamType p"
    "(h @ r) ! 7 AND 0xF = dstPort p" "drop_bit 4 ((h @ r) ! 7) = dstStreamType p"
    "le_word (slice (h @ r) 8 2) = flagsAndType p"
    "(h @ r) ! 10 = sessionId p" "(h @ r) ! 11 = substreamId p"
    "le_word (slice (h @ r) 12 2) = seqId p"
    unfolding ev
    by (simp_all add: le2 n unpack_header [OF assms(1)] del: le_word.simps drop_bit_or)
qed

lemma decodeV1_encodeV1:
  assumes cr: "crypto_ok cr" and ok: "sentV1_ok p" and enc: "encodeV1 cr p = Inr (bs, e)"
  shows "decodeV1 q (bs @ rest) = Inr (receivedV1 cr p q, length bs)"
proof -
  define e' where "e' = encrypt_payload p"
  define sp where "sp = optionsV1 p"
  define h where "h = headerV1 e' sp"
  define sig where "sig = calculateSignatureV1 cr e' h (remoteSignature p) sp"
  define pay where "pay = encryptedData e'"
  define r where "r = sig @ sp @ pay @ rest"
  have bs: "bs = h @ sig @ sp @ pay"
    using enc encodeV1_bytes [OF ok, of cr] by (simp add: h_def sig_def sp_def pay_def e'_def)
  have d: "bs @ rest = h @ r" by (simp add: bs r_def)
  have fit: "fields_fit e'" using ok by (simp add: sentV1_ok_def fields_fit_def e'_def)
  have small: "length sp < 256" "length (encryptedData e') < 65536"
    using ok length_optionsV1 [OF ok] by (simp_all add: sp_def e'_def length_encrypted sentV1_ok_def)
  note hf = headerV1_fields [OF fit small, folded h_def, of r]
  have lens: "length h = 14" "length sig = 16"
    using cr by (simp_all add: h_def sig_def calculateSignatureV1_def crypto_ok_def)
  have parts: "slice (h @ r) 14 16 = sig" "slice (h @ r) 30 (length sp) = sp"
    "slice (h @ r) (30 + length sp) (length (encryptedData e')) = pay" "slice (h @ r) 0 14 = h"
    using lens by (simp_all add: r_def slice_def pay_def)
  have long: "\<not> length (h @ r) < 30" "\<not> length (h @ r) < 30 + length sp + length (encryptedData e')"
    using lens by (simp_all add: r_def pay_def)
  have ty: "type_of_code (flagsAndType e' AND 0xF) = Some (p_type p)" "drop_bit 4 (flagsAndType e') = p_flags p"
    using unpack_header(5,6) [OF fit] by (simp_all add: e'_def)
  have opts: "decode_options w sp = Inr (filledV1 p w)" if "p_type w = p_type p" for w
    unfolding sp_def by (rule decode_options_optionsV1 [OF ok that])
  have "decodeV1 q (h @ r) = Inr (receivedV1 cr p q, 30 + length sp + length (encryptedData e'))"
    unfolding decodeV1_def hf parts Let_def ty option.case
    using long
    by (simp add: opts receivedV1_def Let_def)
       (simp add: e'_def h_def sig_def sp_def pay_def)
  then show ?thesis unfolding d using lens by (simp add: bs pay_def)
qed

lemma checkSignatureV1_received:
  assumes "p_accessKey q = p_accessKey p" and "p_sessionKey q = p_sessionKey p"
    and "connectionSignature q = remoteSignature p"
  shows "checkSignatureV1 cr (receivedV1 cr p q)"
  using assms
  by (simp add: checkSignatureV1_def receivedV1_def Let_def filledV1_def calculateSignatureV1_def)

lemma decodeV1_consumes:
  assumes "decodeV1 q d = Inr (p, n)"
  shows "30 \<le> n \<and> n \<le> length d"
  using assms by (auto simp: decodeV1_def Let_def bindE_eq_Inr_iff split: if_splits option.splits)

text \<open>A lone option id at the end of the packet-specific data is read past the end.\<close>

lemma decode_options_lone_byte:
  "decode_options p [opt] = Inl UndefinedAccess"
  by simp

lemma decode_option_type [simp]: "decode_option p opt v = Inr p' \<Longrightarrow> p_type p' = p_type p"
  by (auto simp: decode_option_def Let_def split: if_splits)

end
