(* ===== verification/Kerberos.thy ===== *)
theory Kerberos
  imports Packet Datetime
begin

text \<open>
  The Kerberos tickets of \<^verbatim>\<open>src/nex/prudp/kerberos.cpp\<close>: the authentication server issues a ticket
  (\<open>generateTicket\<close>), and the secure server checks the connect request a client builds from it
  (\<open>decryptConnectRequest\<close>). The clock and the random session key are arguments. The lengths of
  the request are added in 32 bits, as in the sources, and every read at a computed index can be
  undefined.
\<close>

section \<open>Keys\<close>

definition generateUserKey :: "Crypto \<Rightarrow> bytes \<Rightarrow> u32 \<Rightarrow> bytes" where
  "generateUserKey cr password pid = (MD5 cr ^^ (65000 + unat pid mod 1024)) password"

lemma length_generateUserKey: "crypto_ok cr \<Longrightarrow> length (generateUserKey cr password pid) = 16"
proof -
  assume cr: "crypto_ok cr"
  have "65000 + unat pid mod 1024 = Suc (64999 + unat pid mod 1024)" by simp
  then have "generateUserKey cr password pid =
      MD5 cr ((MD5 cr ^^ (64999 + unat pid mod 1024)) password)"
    unfolding generateUserKey_def by (simp only: funpow.simps comp_apply)
  then show ?thesis using cr by (simp add: crypto_ok_def)
qed

text \<open>One object of class \<^verbatim>\<open>ARC4\<close> used for one message.\<close>

definition arc4_once :: "bytes \<Rightarrow> bytes \<Rightarrow> bytes result" where
  "arc4_once key d = bindE (arc4_init key) (\<lambda>c. Inr (snd (arc4_decrypt c d)))"

lemma arc4_once_twice:
  assumes "key \<noteq> []"
  obtains e where "arc4_once key d = Inr e" "arc4_once key e = Inr d" "length e = length d"
proof -
  obtain c where c: "arc4_init key = Inr c" using assms by (simp add: arc4_init_def)
  show thesis
  proof (rule that)
    show "arc4_once key d = Inr (snd (encDec c d))" by (simp add: arc4_once_def c arc4_decrypt_def)
    show "arc4_once key (snd (encDec c d)) = Inr d"
      by (simp add: arc4_once_def c arc4_decrypt_def encDec_encDec)
  qed simp
qed

section \<open>Issuing a ticket\<close>

text \<open>The part only the target server can open, and the whole as its client opens it.\<close>

definition internalTicket :: "Crypto \<Rightarrow> time_point \<Rightarrow> bytes \<Rightarrow> u32 \<Rightarrow> bytes \<Rightarrow> bytes result" where
  "internalTicket cr now sessionKey user_pid targetKey =
     bindE (arc4_once targetKey (encode_Datetime now @ encode_int user_pid @ sessionKey)) (\<lambda>t.
     Inr (t @ HMAC_MD5 cr targetKey t))"

definition generateTicket ::
  "Crypto \<Rightarrow> time_point \<Rightarrow> bytes \<Rightarrow> u32 \<Rightarrow> bytes \<Rightarrow> u32 \<Rightarrow> bytes \<Rightarrow> bytes result" where
  "generateTicket cr now sessionKey user_pid user_passwd target_pid target_passwd =
     (let sourceKey = generateUserKey cr user_passwd user_pid;
          targetKey = generateUserKey cr target_passwd target_pid
      in bindE (internalTicket cr now sessionKey user_pid targetKey) (\<lambda>internal.
         bindE (arc4_once sourceKey (sessionKey @ encode_int target_pid @ encode_buffer TYPE(32) internal)) (\<lambda>t.
         Inr (t @ HMAC_MD5 cr sourceKey t))))"

section \<open>Checking a connect request\<close>

definition byte_at :: "bytes \<Rightarrow> u32 \<Rightarrow> u8 result" where
  "byte_at d i = (if unat i < length d then Inr (d ! unat i) else Inl UndefinedAccess)"

definition u32_at :: "bytes \<Rightarrow> u32 \<Rightarrow> u32 result" where
  "u32_at d i =
     bindE (byte_at d i) (\<lambda>a. bindE (byte_at d (i + 1)) (\<lambda>b.
     bindE (byte_at d (i + 2)) (\<lambda>c. bindE (byte_at d (i + 3)) (\<lambda>e.
     Inr (le_word [a, b, c, e])))))"

text \<open>The vector built from two iterators, which must lie in the source vector.\<close>

definition subrange :: "bytes \<Rightarrow> nat \<Rightarrow> nat \<Rightarrow> bytes result" where
  "subrange d i n = (if i + n \<le> length d then Inr (slice d i n) else Inl UndefinedAccess)"

text \<open>A message and the MAC behind it, checked with a key.\<close>

definition open_mac :: "Crypto \<Rightarrow> bytes \<Rightarrow> bytes \<Rightarrow> bytes result" where
  "open_mac cr key d =
     (if length d < 16 then Inl RuntimeError
      else let body = take (length d - 16) d
           in if HMAC_MD5 cr key body \<noteq> drop (length d - 16) d then Inl RuntimeError
              else arc4_once key body)"

record ConnectInfo =
  co_sessionKey :: bytes
  co_pid :: u32
  co_connectionId :: u32
  co_checkValue :: u32

definition two_minutes :: int where "two_minutes = 120000000000"

definition split_request :: "bytes \<Rightarrow> (bytes \<times> bytes) result" where
  "split_request ticket =
     (if length ticket < 4 then Inl RuntimeError
      else let L = (le_word (take 4 ticket) :: u32)
           in if length ticket < unat (L + 8) then Inl RuntimeError
              else bindE (u32_at ticket (L + 4)) (\<lambda>R.
                   if length ticket < unat (L + R + 8) then Inl RuntimeError
                   else bindE (subrange ticket 4 (unat L)) (\<lambda>ticketData.
                        bindE (subrange ticket (8 + unat L) (unat R)) (\<lambda>requestData.
                        Inr (ticketData, requestData)))))"

definition check_ticket ::
  "Crypto \<Rightarrow> time_point \<Rightarrow> bytes \<Rightarrow> bytes \<Rightarrow> (u32 \<times> bytes) result" where
  "check_ticket cr now targetKey ticketData =
     bindE (open_mac cr targetKey ticketData) (\<lambda>t.
     if length t < 12 then Inl RuntimeError
     else bindE (decode_Datetime t) (\<lambda>(date, _).
          if date > now + two_minutes then Inl RuntimeError
          else Inr (le_word (slice t 8 4), drop 12 t)))"

definition decryptConnectRequest ::
  "Crypto \<Rightarrow> time_point \<Rightarrow> bytes \<Rightarrow> bytes \<Rightarrow> u32 \<Rightarrow> ConnectInfo result" where
  "decryptConnectRequest cr now ticket securePasswd securePid =
     bindE (split_request ticket) (\<lambda>(ticketData, requestData).
     let targetKey = generateUserKey cr securePasswd securePid
     in bindE (check_ticket cr now targetKey ticketData) (\<lambda>(outPid, outSessionKey).
        bindE (open_mac cr outSessionKey requestData) (\<lambda>r.
        if length r < 12 then Inl RuntimeError
        else if le_word (take 4 r) \<noteq> outPid then Inl RuntimeError
        else Inr \<lparr>co_sessionKey = outSessionKey, co_pid = outPid,
                  co_connectionId = le_word (slice r 4 4), co_checkValue = le_word (slice r 8 4)\<rparr>)))"

section \<open>From the ticket to the connection\<close>

text \<open>
  The client's side of the exchange, as the checks above expect it: a session key, an internal
  ticket it cannot read, and its own pid, connection id and check value under the session key.
\<close>

definition connect_request ::
  "Crypto \<Rightarrow> bytes \<Rightarrow> bytes \<Rightarrow> u32 \<Rightarrow> u32 \<Rightarrow> u32 \<Rightarrow> bytes result" where
  "connect_request cr sessionKey internal pid cid chk =
     bindE (arc4_once sessionKey (le_bytes 4 pid @ le_bytes 4 cid @ le_bytes 4 chk)) (\<lambda>e.
     Inr (encode_buffer TYPE(32) internal @ encode_buffer TYPE(32) (e @ HMAC_MD5 cr sessionKey e)))"

lemma open_mac_mac:
  assumes "crypto_ok cr" and "arc4_once key e = Inr d"
  shows "open_mac cr key (e @ HMAC_MD5 cr key e) = Inr d"
  using assms by (simp add: open_mac_def crypto_ok_def)

lemma unat_u32_add: "n + k < 2 ^ 32 \<Longrightarrow> unat (of_nat n + of_nat k :: u32) = n + k"
  using unat_of_nat [of "n + k", where ?'a = 32] by (simp add: take_bit_nat_eq_self)

lemma u32_at_append:
  assumes "length a < 2 ^ 32 - 4"
  shows "u32_at (a @ le_bytes 4 w @ r) (of_nat (length a)) = Inr (w :: u32)"
proof -
  have n: "unat (of_nat (length a) :: u32) = length a" "unat (of_nat (length a) + 1 :: u32) = length a + 1"
    "unat (of_nat (length a) + 2 :: u32) = length a + 2" "unat (of_nat (length a) + 3 :: u32) = length a + 3"
    using assms unat_u32_add [of "length a" 0] unat_u32_add [of "length a" 1]
      unat_u32_add [of "length a" 2] unat_u32_add [of "length a" 3] by simp_all
  have w: "le_word [ucast w, ucast (drop_bit 8 w), ucast (drop_bit 16 w), ucast (drop_bit 24 w)] = w"
    using le_word_le_bytes_word(4) [of w] by (simp only: le_bytes_four)
  show ?thesis
    unfolding u32_at_def byte_at_def n le_bytes_four
    by (simp add: nth_append w del: le_word.simps)
qed

lemma split_request_encode:
  assumes "length a + length b + 16 < 2 ^ 32"
  shows "split_request (encode_buffer TYPE(32) a @ encode_buffer TYPE(32) b) = Inr (a, b)"
proof -
  let ?t = "encode_buffer TYPE(32) a @ encode_buffer TYPE(32) b"
  let ?L = "of_nat (length a) :: u32" and ?R = "of_nat (length b) :: u32"
  have t: "?t = (le_bytes 4 ?L @ a) @ le_bytes 4 ?R @ b"
    by (simp add: encode_buffer_def encode_int_def)
  have L: "le_word (take 4 ?t) = ?L" by (simp add: t)
  have n: "unat ?L = length a" "unat ?R = length b" "unat (?L + 8) = length a + 8"
    "unat (?L + ?R + 8) = length a + length b + 8"
    using assms unat_u32_add [of "length a" 0] unat_u32_add [of "length b" 0]
      unat_u32_add [of "length a" 8] unat_u32_add [of "length a + length b" 8] by simp_all
  have four: "of_nat (length (le_bytes 4 ?L @ a)) = ?L + 4" by simp
  have R: "u32_at ?t (?L + 4) = Inr ?R"
    unfolding t four [symmetric] by (rule u32_at_append) (use assms in simp)
  have "subrange ?t 4 (length a) = Inr a" "subrange ?t (8 + length a) (length b) = Inr b"
    by (simp_all add: t subrange_def slice_def)
  then show ?thesis
    using R L n by (simp add: split_request_def Let_def)
qed

lemma check_ticket_internal:
  assumes cr: "crypto_ok cr" and key: "targetKey \<noteq> []" and date: "datetime_ok t0"
    and fresh: "t0 div ns_per_sec * ns_per_sec \<le> now + two_minutes"
    and int: "internalTicket cr t0 sessionKey pid targetKey = Inr internal"
  shows "check_ticket cr now targetKey internal = Inr (pid, sessionKey)"
proof -
  let ?m = "encode_Datetime t0 @ encode_int pid @ sessionKey"
  obtain e where e: "arc4_once targetKey ?m = Inr e" "arc4_once targetKey e = Inr ?m"
    by (rule arc4_once_twice [OF key])
  have "internal = e @ HMAC_MD5 cr targetKey e" using int e by (simp add: internalTicket_def)
  then have "open_mac cr targetKey internal = Inr ?m" using open_mac_mac [OF cr e(2)] by simp
  moreover have "decode_Datetime ?m = Inr (t0 div ns_per_sec * ns_per_sec, 8)"
    by (rule decode_encode_Datetime [OF date])
  ultimately show ?thesis
    using fresh by (simp add: check_ticket_def slice_def encode_int_def)
qed

lemma length_internalTicket:
  assumes "crypto_ok cr" and "targetKey \<noteq> []"
    and "internalTicket cr t0 sessionKey pid targetKey = Inr internal"
  shows "length internal = 28 + length sessionKey"
proof -
  obtain e where "arc4_once targetKey (encode_Datetime t0 @ encode_int pid @ sessionKey) = Inr e"
    "length e = 12 + length sessionKey"
    using arc4_once_twice [OF assms(2), of "encode_Datetime t0 @ encode_int pid @ sessionKey"] by force
  then show ?thesis using assms by (auto simp: internalTicket_def crypto_ok_def)
qed

lemma connect_request_accepted:
  assumes cr: "crypto_ok cr" and date: "datetime_ok t0"
    and key: "sessionKey \<noteq> []" "length sessionKey < 1024"
    and fresh: "t0 div ns_per_sec * ns_per_sec \<le> now + two_minutes"
    and int: "internalTicket cr t0 sessionKey pid (generateUserKey cr passwd server_pid) = Inr internal"
    and req: "connect_request cr sessionKey internal pid cid chk = Inr ticket"
  shows "decryptConnectRequest cr now ticket passwd server_pid =
    Inr \<lparr>co_sessionKey = sessionKey, co_pid = pid, co_connectionId = cid, co_checkValue = chk\<rparr>"
proof -
  let ?m = "le_bytes 4 pid @ le_bytes 4 cid @ le_bytes 4 chk"
  have tkey: "generateUserKey cr passwd server_pid \<noteq> []"
    using length_generateUserKey [OF cr, of passwd server_pid] by auto
  obtain e where e: "arc4_once sessionKey ?m = Inr e" "arc4_once sessionKey e = Inr ?m"
    "length e = length ?m"
    by (rule arc4_once_twice [OF key(1)])
  have ticket: "ticket = encode_buffer TYPE(32) internal
      @ encode_buffer TYPE(32) (e @ HMAC_MD5 cr sessionKey e)"
    using req e by (simp add: connect_request_def)
  have small: "length internal + length (e @ HMAC_MD5 cr sessionKey e) + 16 < 2 ^ 32"
    using length_internalTicket [OF cr tkey int] key e(3) cr by (simp add: crypto_ok_def)
  have opened: "open_mac cr sessionKey (e @ HMAC_MD5 cr sessionKey e) = Inr ?m"
    by (rule open_mac_mac [OF cr e(2)])
  have s: "take 4 ?m = le_bytes 4 pid" "slice ?m 4 4 = le_bytes 4 cid" "slice ?m 8 4 = le_bytes 4 chk"
    by (simp_all add: slice_def)
  show ?thesis
    unfolding decryptConnectRequest_def ticket split_request_encode [OF small] bindE_simps prod.case
      Let_def check_ticket_internal [OF cr tkey date fresh int] opened s
    by simp
qed

text \<open>The user opens the outer ticket with its own key and finds both.\<close>

lemma generateTicket_opens:
  assumes cr: "crypto_ok cr"
    and tic: "generateTicket cr t0 sessionKey upid upasswd tpid tpasswd = Inr ticket"
  shows "\<exists>internal. internalTicket cr t0 sessionKey upid (generateUserKey cr tpasswd tpid) = Inr internal
    \<and> open_mac cr (generateUserKey cr upasswd upid) ticket =
      Inr (sessionKey @ encode_int tpid @ encode_buffer TYPE(32) internal)"
proof -
  obtain internal where int: "internalTicket cr t0 sessionKey upid (generateUserKey cr tpasswd tpid) = Inr internal"
    using tic by (auto simp: generateTicket_def Let_def bindE_eq_Inr_iff)
  let ?k = "generateUserKey cr upasswd upid"
    and ?m = "sessionKey @ encode_int tpid @ encode_buffer TYPE(32) internal"
  have "?k \<noteq> []" using length_generateUserKey [OF cr, of upasswd upid] by auto
  then obtain e where e: "arc4_once ?k ?m = Inr e" "arc4_once ?k e = Inr ?m"
    by (rule arc4_once_twice)
  have "ticket = e @ HMAC_MD5 cr ?k e"
    using tic e int by (simp add: generateTicket_def Let_def)
  then have "open_mac cr ?k ticket = Inr ?m" using open_mac_mac [OF cr e(2)] by simp
  with int show ?thesis by blast
qed

lemma generateTicket_total:
  assumes "crypto_ok cr"
  shows "\<exists>ticket. generateTicket cr t0 sessionKey upid upasswd tpid tpasswd = Inr ticket"
proof -
  have "generateUserKey cr upasswd upid \<noteq> []" "generateUserKey cr tpasswd tpid \<noteq> []"
    using length_generateUserKey [OF assms] by (metis length_0_conv zero_neq_numeral)+
  then show ?thesis
    by (simp add: generateTicket_def internalTicket_def arc4_once_def arc4_init_def Let_def)
qed

section \<open>What acceptance means, and what it does not\<close>

lemma open_mac_checked:
  assumes "open_mac cr key d = Inr m"
  shows "\<exists>body. d = body @ HMAC_MD5 cr key body \<and> arc4_once key body = Inr m"
proof -
  let ?b = "take (length d - 16) d"
  have "HMAC_MD5 cr key ?b = drop (length d - 16) d" "arc4_once key ?b = Inr m"
    using assms by (auto simp: open_mac_def Let_def split: if_splits)
  then show ?thesis by (metis append_take_drop_id)
qed

text \<open>The date only excludes tickets from the future: what is accepted once is accepted for ever.\<close>

lemma check_ticket_never_expires:
  assumes "check_ticket cr now key d = Inr r" and "now \<le> later"
  shows "check_ticket cr later key d = Inr r"
proof -
  from assms(1) obtain t date n where "open_mac cr key d = Inr t" "\<not> length t < 12"
    "decode_Datetime t = Inr (date, n)" "\<not> date > now + two_minutes"
    "r = (le_word (slice t 8 4), drop 12 t)"
    by (auto simp: check_ticket_def bindE_eq_Inr_iff split: if_splits)
  then show ?thesis using assms(2) by (simp add: check_ticket_def)
qed

lemma decryptConnectRequest_never_expires:
  assumes "decryptConnectRequest cr now t passwd pid = Inr info" and "now \<le> later"
  shows "decryptConnectRequest cr later t passwd pid = Inr info"
  using assms check_ticket_never_expires [OF _ assms(2)]
  unfolding decryptConnectRequest_def Let_def
  by (auto simp: bindE_eq_Inr_iff split: if_splits)

text \<open>
  A length of \<open>0xFFFFFFFC\<close> passes both checks, because the sums wrap around, and the copy of the
  ticket data then runs far past the four bytes there are.
\<close>

lemma split_request_wraps:
  "split_request [0xFC, 0xFF, 0xFF, 0xFF] = Inl UndefinedAccess"
proof -
  have "le_word [0xFC, 0xFF, 0xFF, 0xFF] = (0xFFFFFFFC :: u32)" by simp
  then show ?thesis
    by (simp add: split_request_def u32_at_def byte_at_def subrange_def del: le_word.simps)
qed

text \<open>Both seals of a request that is accepted.\<close>

lemma accepted_request_sealed:
  assumes "decryptConnectRequest cr now d passwd pid = Inr info"
  shows "\<exists>tic req t1 t2 inner outer. split_request d = Inr (tic, req) \<and>
    tic = t1 @ HMAC_MD5 cr (generateUserKey cr passwd pid) t1 \<and>
    arc4_once (generateUserKey cr passwd pid) t1 = Inr inner \<and>
    le_word (slice inner 8 4) = co_pid info \<and> drop 12 inner = co_sessionKey info \<and>
    req = t2 @ HMAC_MD5 cr (co_sessionKey info) t2 \<and>
    arc4_once (co_sessionKey info) t2 = Inr outer"
proof -
  let ?k = "generateUserKey cr passwd pid"
  obtain tic req where sp: "split_request d = Inr (tic, req)"
    and chk: "check_ticket cr now ?k tic = Inr (co_pid info, co_sessionKey info)"
    and outer: "\<exists>r. open_mac cr (co_sessionKey info) req = Inr r"
    using assms by (auto simp: decryptConnectRequest_def Let_def bindE_eq_Inr_iff split: if_splits)
  obtain inner where inner: "open_mac cr ?k tic = Inr inner"
      "le_word (slice inner 8 4) = co_pid info" "drop 12 inner = co_sessionKey info"
    using chk by (auto simp: check_ticket_def bindE_eq_Inr_iff split: if_splits)
  obtain r where r: "open_mac cr (co_sessionKey info) req = Inr r" using outer by blast
  show ?thesis using sp inner open_mac_checked [OF inner(1)] open_mac_checked [OF r] by blast
qed

end
