(* ===== verification/Tokens.thy ===== *)
theory Tokens
  imports Kerberos Strings
begin

text \<open>
  The tokens of \<^verbatim>\<open>src/crypto/tools.cpp\<close>: base64 for URLs, account tokens and JSON web tokens.
  HMAC-SHA256 and base64 are calls into OpenSSL and parameters; \<open>base64_ok\<close> is what the code relies
  on of base64. The header of a web token, a constant, is what the JSON library prints of it.
\<close>

record TokenCrypto =
  HMAC_SHA256 :: "bytes \<Rightarrow> bytes \<Rightarrow> bytes"
  base64Encode :: "bytes \<Rightarrow> string"
  base64Decode :: "string \<Rightarrow> bytes result"
  jwt_header :: string

section \<open>base64 for URLs\<close>

definition url_char :: "char \<Rightarrow> char" where
  "url_char c = (if c = CHR ''+'' then CHR ''-'' else if c = CHR ''/'' then CHR ''_'' else c)"

definition plain_char :: "char \<Rightarrow> char" where
  "plain_char c = (if c = CHR ''-'' then CHR ''+'' else if c = CHR ''_'' then CHR ''/'' else c)"

text \<open>The first padding character cuts the string off.\<close>

definition base64UrlEncode :: "TokenCrypto \<Rightarrow> bytes \<Rightarrow> string" where
  "base64UrlEncode tc d = map url_char (takeWhile (\<lambda>c. c \<noteq> CHR ''='') (base64Encode tc d))"

definition add_padding :: "string \<Rightarrow> string" where
  "add_padding s = s @ replicate ((4 - length s mod 4) mod 4) (CHR ''='')"

definition base64UrlDecode :: "TokenCrypto \<Rightarrow> string \<Rightarrow> bytes result" where
  "base64UrlDecode tc s = base64Decode tc (add_padding (map plain_char s))"

text \<open>
  base64: it can be decoded, its length is a multiple of four, padding is at its end, and the
  characters that stand for \<^verbatim>\<open>+\<close> and \<^verbatim>\<open>/\<close> in a URL, and the dot, are none of its own.
\<close>

definition base64_ok :: "TokenCrypto \<Rightarrow> bool" where
  "base64_ok tc \<longleftrightarrow> (\<forall>d. base64Decode tc (base64Encode tc d) = Inr d \<and>
     (\<exists>body k. base64Encode tc d = body @ replicate k (CHR ''='') \<and> k < 4 \<and>
        (length body + k) mod 4 = 0 \<and> set body \<inter> {CHR ''='', CHR ''-'', CHR ''_'', CHR ''.''} = {}))"

lemma add_padding_body: "k < 4 \<Longrightarrow> (length s + k) mod 4 = 0 \<Longrightarrow> add_padding s = s @ replicate k (CHR ''='')"
proof -
  assume k: "k < 4" and len: "(length s + k) mod 4 = 0"
  define m where "m = length s mod 4"
  have "(m + k) mod 4 = 0" using len by (simp add: m_def mod_add_left_eq)
  moreover have "m = 0 \<or> m = 1 \<or> m = 2 \<or> m = 3" using mod_less_divisor [of 4 "length s"] by (simp add: m_def) linarith
  moreover have "k = 0 \<or> k = 1 \<or> k = 2 \<or> k = 3" using k by linarith
  ultimately have "(4 - m) mod 4 = k" by (elim disjE) simp_all
  then show ?thesis by (simp add: add_padding_def m_def)
qed

lemma base64Url_roundtrip:
  assumes "base64_ok tc"
  shows "base64UrlDecode tc (base64UrlEncode tc d) = Inr d"
    and "CHR ''.'' \<notin> set (base64UrlEncode tc d)"
proof -
  obtain body k where b: "base64Decode tc (base64Encode tc d) = Inr d"
    "base64Encode tc d = body @ replicate k (CHR ''='')" "k < 4" "(length body + k) mod 4 = 0"
    "set body \<inter> {CHR ''='', CHR ''-'', CHR ''_'', CHR ''.''} = {}"
    using assms [unfolded base64_ok_def, THEN spec, of d] by (elim conjE exE) (rule that)
  have "takeWhile (\<lambda>c. c \<noteq> CHR ''='') body = body" using b(5) by (auto simp: takeWhile_eq_all_conv)
  then have cut: "takeWhile (\<lambda>c. c \<noteq> CHR ''='') (base64Encode tc d) = body"
    by (cases k) (simp_all add: b(2) takeWhile_append)
  have "map plain_char (map url_char body) = body"
    using b(5) by (induction body) (auto simp: plain_char_def url_char_def)
  then show "base64UrlDecode tc (base64UrlEncode tc d) = Inr d"
    using add_padding_body [OF b(3,4)] b(1)
    unfolding base64UrlDecode_def base64UrlEncode_def cut by (simp add: b(2))
  show "CHR ''.'' \<notin> set (base64UrlEncode tc d)"
    using b(5) by (auto simp: base64UrlEncode_def cut url_char_def split: if_splits)
qed

section \<open>Account tokens\<close>

record AccountToken =
  at_pid :: u32
  at_deviceId :: u32
  at_expiration :: u64
  at_key :: bytes

definition account_token_data :: "AccountToken \<Rightarrow> bytes" where
  "account_token_data t = le_bytes 4 (at_pid t) @ le_bytes 4 (at_deviceId t) @ le_bytes 8 (at_expiration t)"

definition generateAccountToken :: "TokenCrypto \<Rightarrow> AccountToken \<Rightarrow> string result" where
  "generateAccountToken tc t =
     (let d = account_token_data t
      in bindE (subrange (HMAC_SHA256 tc (at_key t) d) 0 8) (\<lambda>sig. Inr (base64Encode tc (d @ sig))))"

text \<open>\<^verbatim>\<open>calculatedSignature.resize(8)\<close>.\<close>

definition resize :: "nat \<Rightarrow> bytes \<Rightarrow> bytes" where
  "resize n d = take n d @ replicate (n - length d) 0"

definition parseAccountToken :: "TokenCrypto \<Rightarrow> string \<Rightarrow> AccountToken \<Rightarrow> AccountToken option result" where
  "parseAccountToken tc token out =
     (case base64Decode tc token of
        Inl e \<Rightarrow> if e = RuntimeError then Inr None else Inl e
      | Inr all \<Rightarrow>
          if length all \<noteq> 24 then Inr None
          else let d = take 16 all
               in if drop 16 all \<noteq> resize 8 (HMAC_SHA256 tc (at_key out) d) then Inr None
                  else Inr (Some (out\<lparr>at_pid := le_word (slice d 0 4), at_deviceId := le_word (slice d 4 4),
                     at_expiration := le_word (slice d 8 8)\<rparr>)))"

section \<open>Web tokens\<close>

definition bytes_of_string :: "string \<Rightarrow> bytes" where
  "bytes_of_string s = map byte_of_char s"

definition string_of_bytes :: "bytes \<Rightarrow> string" where
  "string_of_bytes d = map char_of_byte d"

text \<open>The payload is the text of a JSON object.\<close>

definition signJWT :: "TokenCrypto \<Rightarrow> string \<Rightarrow> string \<Rightarrow> string result" where
  "signJWT tc base64Key payload =
     (let jwt = base64UrlEncode tc (bytes_of_string (jwt_header tc)) @ ''.'' @
            base64UrlEncode tc (bytes_of_string payload)
      in bindE (base64Decode tc base64Key) (\<lambda>key.
         Inr (jwt @ ''.'' @ base64UrlEncode tc (HMAC_SHA256 tc key (bytes_of_string jwt)))))"

text \<open>What stands in front of the last dot, and behind it.\<close>

definition before_last_dot :: "string \<Rightarrow> string" where
  "before_last_dot s = rev (tl (dropWhile (\<lambda>c. c \<noteq> CHR ''.'') (rev s)))"

definition after_last_dot :: "string \<Rightarrow> string" where
  "after_last_dot s = rev (takeWhile (\<lambda>c. c \<noteq> CHR ''.'') (rev s))"

definition verifyJWT :: "TokenCrypto \<Rightarrow> string \<Rightarrow> string \<Rightarrow> bool result" where
  "verifyJWT tc base64Key jwt =
     (if CHR ''.'' \<notin> set jwt then Inr False
      else bindE (base64UrlDecode tc (after_last_dot jwt)) (\<lambda>signature.
           bindE (base64Decode tc base64Key) (\<lambda>key.
           Inr (signature = HMAC_SHA256 tc key (bytes_of_string (before_last_dot jwt))))))"

text \<open>The payload as its readers cut it out: between the first dot and the next.\<close>

definition jwt_payload :: "TokenCrypto \<Rightarrow> string \<Rightarrow> bytes result" where
  "jwt_payload tc jwt =
     base64UrlDecode tc (takeWhile (\<lambda>c. c \<noteq> CHR ''.'') (tl (dropWhile (\<lambda>c. c \<noteq> CHR ''.'') jwt)))"

lemma last_dot:
  assumes "CHR ''.'' \<notin> set b"
  shows "before_last_dot (a @ ''.'' @ b) = a" and "after_last_dot (a @ ''.'' @ b) = b"
proof -
  have "takeWhile (\<lambda>c. c \<noteq> CHR ''.'') (rev b @ ''.'' @ rev a) = rev b"
    "dropWhile (\<lambda>c. c \<noteq> CHR ''.'') (rev b @ ''.'' @ rev a) = ''.'' @ rev a"
    using assms by (simp_all add: takeWhile_append dropWhile_append)
  then show "before_last_dot (a @ ''.'' @ b) = a" "after_last_dot (a @ ''.'' @ b) = b"
    by (simp_all add: before_last_dot_def after_last_dot_def)
qed

text \<open>What is signed with a key is verified with it, and the payload comes back.\<close>

lemma signed_token:
  assumes tc: "base64_ok tc" and sign: "signJWT tc key payload = Inr jwt"
  shows "verifyJWT tc key jwt = Inr True" and "jwt_payload tc jwt = Inr (bytes_of_string payload)"
proof -
  note b64 = base64Url_roundtrip [OF tc]
  define h where "h = base64UrlEncode tc (bytes_of_string (jwt_header tc))"
  define p where "p = base64UrlEncode tc (bytes_of_string payload)"
  obtain k where k: "base64Decode tc key = Inr k"
    and jwt: "jwt = (h @ ''.'' @ p) @ ''.'' @ base64UrlEncode tc (HMAC_SHA256 tc k (bytes_of_string (h @ ''.'' @ p)))"
    using sign by (auto simp: signJWT_def Let_def bindE_eq_Inr_iff h_def p_def)
  show "verifyJWT tc key jwt = Inr True"
    unfolding verifyJWT_def jwt last_dot [OF b64(2)] b64(1) by (simp add: k)
  have dots: "CHR ''.'' \<notin> set h" "CHR ''.'' \<notin> set p" by (simp_all add: h_def p_def b64(2))
  then have "takeWhile (\<lambda>c. c \<noteq> CHR ''.'') (tl (dropWhile (\<lambda>c. c \<noteq> CHR ''.'') jwt)) = p"
    by (simp add: jwt dropWhile_append takeWhile_append)
  then show "jwt_payload tc jwt = Inr (bytes_of_string payload)"
    by (simp only: jwt_payload_def) (simp only: p_def b64(1))
qed

lemma account_token_roundtrip:
  assumes tc: "base64_ok tc" and sig: "\<And>k d. 8 \<le> length (HMAC_SHA256 tc k d)"
  shows "\<exists>token. generateAccountToken tc t = Inr token \<and>
    parseAccountToken tc token (out\<lparr>at_key := at_key t\<rparr>) =
      Inr (Some (out\<lparr>at_key := at_key t, at_pid := at_pid t, at_deviceId := at_deviceId t,
        at_expiration := at_expiration t\<rparr>))"
proof -
  let ?d = "account_token_data t"
  let ?s = "take 8 (HMAC_SHA256 tc (at_key t) ?d)"
  have len: "length ?d = 16" "length ?s = 8" using sig by (simp_all add: account_token_data_def)
  have gen: "generateAccountToken tc t = Inr (base64Encode tc (?d @ ?s))"
    using sig by (simp add: generateAccountToken_def Let_def subrange_def slice_def)
  have dec: "base64Decode tc (base64Encode tc (?d @ ?s)) = Inr (?d @ ?s)"
    using tc by (simp add: base64_ok_def)
  have fields: "le_word (slice ?d 0 4) = at_pid t" "le_word (slice ?d 4 4) = at_deviceId t"
    "le_word (slice ?d 8 8) = at_expiration t"
    by (simp_all add: account_token_data_def slice_def)
  have "resize 8 (HMAC_SHA256 tc (at_key t) ?d) = ?s" using sig [of "at_key t" ?d] by (simp add: resize_def)
  then show ?thesis
    using len by (simp add: gen parseAccountToken_def dec fields Let_def)
qed

end
