(* ===== verification/Auth.thy ===== *)
theory Auth
  imports Tokens Effects MatchTypes
begin

text \<open>
  The authentication server (\<^verbatim>\<open>AuthRMC\<close> of \<^verbatim>\<open>src/nex/auth\<close>): it checks who logs in and sells the
  tickets that the secure servers check. The one class serves two services: with \<open>ac_friends\<close> anybody
  logs in by its user id, otherwise a web token of the account service is needed. The accounts are in
  the database, whose answers are part of the environment, like the clock, the session keys and the
  JSON reader. Logging is left out.
\<close>

section \<open>State\<close>

datatype AuthParams = Login string | LoginEx string AnyDataHolder | RequestTicket u32 u32

record AuthConfig =
  ac_secureAddr :: IPv4Addr
  ac_serverId :: string
  ac_secureServerKey :: bytes
  ac_build :: string
  ac_jwtKey :: string
  ac_friends :: bool

datatype AuthCommand =
    GetGameServerAccess u32
  | InsertGameServerAccess u32 string
  | DeleteGameServerAccess u32

datatype AccessAnswer = AccessFailed | NoAccess | AccessPassword string

record Auth =
  au_rmc :: "AuthParams RmcServer"
  au_config :: AuthConfig
  au_out :: "(ClientInfo \<times> Response \<times> bytes list) list"
  au_db :: "AuthCommand list"

text \<open>
  The fields of the JSON object in a token, as \<^verbatim>\<open>json[key].get<T>()\<close> returns them: each can throw.
\<close>

record JwtFields =
  jw_exp :: "int result"
  jw_iss :: "string result"
  jw_game_server_id :: "string result"
  jw_sub :: "u32 result"
  jw_username :: "string result"

record AuthEnv =
  ae_crypto :: Crypto
  ae_tokens :: TokenCrypto
  ae_json :: "bytes \<Rightarrow> JwtFields result"
  ae_now :: time_point
  ae_time :: int
  ae_genKey :: "nat \<Rightarrow> bytes"
  ae_draw :: "nat \<Rightarrow> nat"
  ae_access :: "AuthCommand list \<Rightarrow> u32 \<Rightarrow> AccessAnswer"
  ae_update :: "AuthCommand list \<Rightarrow> AuthCommand \<Rightarrow> bool"

section \<open>Replies\<close>

definition auth_send :: "ClientInfo \<Rightarrow> Response \<Rightarrow> bytes list \<Rightarrow> (Auth, unit) op" where
  "auth_send client res params =
     modifyS (\<lambda>s. if shouldStop (au_rmc s) then s else s\<lparr>au_out := au_out s @ [(client, res, params)]\<rparr>)"

definition auth_ok :: "Request \<Rightarrow> Response" where
  "auth_ok req = new_response\<lparr>rs_protocolId := rq_protocolId req, rs_methodId := rq_methodId req,
     rs_extendedProtocolId := rq_extendedProtocolId req, rs_callId := rq_callId req, rs_success := True\<rparr>"

text \<open>The address of the secure server.\<close>

definition secure_url :: "IPv4Addr \<Rightarrow> StationURL" where
  "secure_url a = (empty_url PRUDPS)\<lparr>su_ip := Some (ip_of_address a), su_port := Some (ip_port a),
     su_stream := Some 10, su_sid := Some 1, su_CID := Some 1, su_type := Some 2, su_PID := Some 2\<rparr>"

definition login_accepted :: "AuthConfig \<Rightarrow> u8 \<Rightarrow> u32 \<Rightarrow> bytes \<Rightarrow> bytes list" where
  "login_accepted cf mv pid ticket =
     [encode_Result \<lparr>res_code = CORE__UNKNOWN, res_success = True\<rparr>, encode_int pid,
      encode_buffer TYPE(32) ticket,
      encode_RVConnectionData mv \<lparr>urlRegularProtocols = secure_url (ac_secureAddr cf),
        lstSpecialProtocols = [], urlSpecialProtocols = empty_url NONE\<rparr>,
      encode_string (ac_build cf)]"

definition login_refused :: "u8 \<Rightarrow> u32 \<Rightarrow> bytes list" where
  "login_refused mv err =
     [encode_Result \<lparr>res_code = err, res_success = False\<rparr>, encode_int (0 :: u32), encode_buffer TYPE(32) [],
      encode_RVConnectionData mv \<lparr>urlRegularProtocols = empty_url NONE, lstSpecialProtocols = [],
        urlSpecialProtocols = empty_url NONE\<rparr>,
      encode_string '''']"

definition guest_password :: string where "guest_password = ''MMQea3n!fsik''"

text \<open>\<^verbatim>\<open>generateTicket(pid, password, 2, secureServerKey, friends)\<close> for the secure server.\<close>

definition new_ticket :: "AuthEnv \<Rightarrow> AuthConfig \<Rightarrow> u32 \<Rightarrow> string \<Rightarrow> bytes result" where
  "new_ticket ev cf pid passwd =
     generateTicket (ae_crypto ev) (ae_now ev) (ae_genKey ev (if ac_friends cf then 16 else 32)) pid
       (bytes_of_string passwd) 2 (ac_secureServerKey cf)"

text \<open>\<open>db_access\<close>: the query for the password of a user; no entry reads as an empty password.\<close>

definition db_access :: "AuthEnv \<Rightarrow> u32 \<Rightarrow> (Auth, AccessAnswer) op" where
  "db_access ev pid = readS (\<lambda>s. seqS
     (modifyS (\<lambda>s. s\<lparr>au_db := au_db s @ [GetGameServerAccess pid]\<rparr>))
     (returnS (ae_access ev (au_db s) pid)))"

definition password_of :: "AccessAnswer \<Rightarrow> string" where
  "password_of a = (case a of AccessPassword p \<Rightarrow> p | _ \<Rightarrow> '''')"

section \<open>Login\<close>

definition send_ticket :: "AuthEnv \<Rightarrow> ClientInfo \<Rightarrow> Request \<Rightarrow> u32 \<Rightarrow> string \<Rightarrow> (Auth, unit) op" where
  "send_ticket ev client req pid passwd =
     readS (\<lambda>s. bindS (liftS (new_ticket ev (au_config s) pid passwd)) (\<lambda>ticket.
       auth_send client (auth_ok req)
         (login_accepted (au_config s) (ci_minorVersion client) pid ticket)))"

text \<open>The second half: the account of a user id.\<close>

definition login_pid :: "AuthEnv \<Rightarrow> ClientInfo \<Rightarrow> Request \<Rightarrow> u32 \<Rightarrow> (Auth, unit) op" where
  "login_pid ev client req pid =
     bindS (db_access ev pid) (\<lambda>answer.
       if answer = AccessFailed
       then auth_send client (createError req RENDEZ_VOUS__DATABASE_TEMPORARILY_UNAVAILABLE) []
       else if password_of answer = ''''
       then auth_send client (auth_ok req)
              (login_refused (ci_minorVersion client) RENDEZ_VOUS__INVALID_USERNAME)
       else send_ticket ev client req pid (password_of answer))"

text \<open>The name as a number: only digits are read, and the number is cut to 32 bits.\<close>

definition login_number :: "string \<Rightarrow> u32 option result" where
  "login_number username =
     (if \<not> list_all is_digit username then Inr None
      else case stoul 10 username of
             Inl OutOfRange \<Rightarrow> Inr None
           | Inl e \<Rightarrow> Inl e
           | Inr n \<Rightarrow> Inr (Some (of_nat n)))"

text \<open>A name that is no number is refused, and then the handler goes on with user 0.\<close>

definition auth_login :: "AuthEnv \<Rightarrow> ClientInfo \<Rightarrow> Request \<Rightarrow> string \<Rightarrow> (Auth, unit) op" where
  "auth_login ev client req username =
     readS (\<lambda>s. if ac_friends (au_config s) \<and> username = ''guest''
       then send_ticket ev client req 100 guest_password
       else bindS (liftS (login_number username)) (\<lambda>num. case num of
           Some pid \<Rightarrow> login_pid ev client req pid
         | None \<Rightarrow> seqS (auth_send client (auth_ok req)
                     (login_refused (ci_minorVersion client) RENDEZ_VOUS__INVALID_USERNAME))
                   (login_pid ev client req 0)))"

section \<open>Login with a token\<close>

definition checkJWT :: "AuthEnv \<Rightarrow> string \<Rightarrow> string \<Rightarrow> u32 \<Rightarrow> string \<Rightarrow> string option result" where
  "checkJWT ev key serverId pid token =
     bindE (verifyJWT (ae_tokens ev) key token) (\<lambda>ok. if \<not> ok then Inr None else
     bindE (jwt_payload (ae_tokens ev) token) (\<lambda>d.
     bindE (ae_json ev d) (\<lambda>j.
     bindE (jw_exp j) (\<lambda>exp. if ae_time ev > exp then Inr None else
     bindE (jw_iss j) (\<lambda>iss. if iss \<noteq> ''account'' then Inr None else
     bindE (jw_game_server_id j) (\<lambda>server. if server \<noteq> serverId then Inr None else
     bindE (jw_sub j) (\<lambda>sub. if sub \<noteq> pid then Inr None else
     bindE (jw_username j) (\<lambda>name. Inr (Some name)))))))))"

text \<open>
  The name as \<^verbatim>\<open>std::stoi\<close> reads it; a number that does not fit leaves the user id the connection has.
\<close>

definition claimed_pid :: "ClientInfo \<Rightarrow> string \<Rightarrow> u32 result" where
  "claimed_pid client username =
     (if \<not> list_all is_digit username then Inr (ci_pid client)
      else case stoi username of
             Inl OutOfRange \<Rightarrow> Inr (ci_pid client)
           | Inl e \<Rightarrow> Inl e
           | Inr n \<Rightarrow> Inr (word_of_int n))"

definition loginEx :: "AuthEnv \<Rightarrow> ClientInfo \<Rightarrow> Request \<Rightarrow> string \<Rightarrow> AnyDataHolder \<Rightarrow> (Auth, unit) op" where
  "loginEx ev client req username authInfo =
     (if adh_type authInfo \<noteq> ''AuthenticationInfo'' then auth_send client (createError req CORE__INVALID_ARGUMENT) []
      else case decode_AuthenticationInfo (ci_minorVersion client) (adh_data authInfo) of
        Inl e \<Rightarrow> if e = MalformedException then auth_send client (createError req CORE__INVALID_ARGUMENT) []
                 else throwS e
      | Inr (info, _) \<Rightarrow>
          bindS (liftS (claimed_pid client username)) (\<lambda>pid.
          let client' = client\<lparr>ci_pid := pid\<rparr> in
          readS (\<lambda>s. bindS (liftS (checkJWT ev (ac_jwtKey (au_config s)) (ac_serverId (au_config s)) pid (authToken info))) (\<lambda>name.
            case name of
              None \<Rightarrow> auth_send client' (auth_ok req)
                        (login_refused (ci_minorVersion client) CORE__ACCESS_DENIED)
            | Some _ \<Rightarrow> auth_login ev client' req username))))"

section \<open>Tickets\<close>

definition ticket_refused :: "ClientInfo \<Rightarrow> Request \<Rightarrow> (Auth, unit) op" where
  "ticket_refused client req = auth_send client (auth_ok req)
     [encode_Result \<lparr>res_code = CORE__ACCESS_DENIED, res_success = False\<rparr>, encode_buffer TYPE(32) []]"

definition ticket_sold :: "AuthEnv \<Rightarrow> ClientInfo \<Rightarrow> Request \<Rightarrow> u32 \<Rightarrow> string \<Rightarrow> (Auth, unit) op" where
  "ticket_sold ev client req pid passwd =
     readS (\<lambda>s. bindS (liftS (new_ticket ev (au_config s) pid passwd)) (\<lambda>ticket.
       auth_send client (auth_ok req)
         [encode_Result \<lparr>res_code = CORE__UNKNOWN, res_success = True\<rparr>, encode_buffer TYPE(32) ticket]))"

definition requestTicket :: "AuthEnv \<Rightarrow> ClientInfo \<Rightarrow> Request \<Rightarrow> u32 \<Rightarrow> u32 \<Rightarrow> (Auth, unit) op" where
  "requestTicket ev client req idSource idTarget =
     readS (\<lambda>s. if idTarget \<noteq> 2 then ticket_refused client req
       else if ac_friends (au_config s) \<and> idSource = 100 then ticket_sold ev client req idSource guest_password
       else bindS (db_access ev idSource) (\<lambda>answer.
         if answer = AccessFailed
         then auth_send client (createError req RENDEZ_VOUS__DATABASE_TEMPORARILY_UNAVAILABLE) []
         else if password_of answer = '''' then ticket_refused client req
         else ticket_sold ev client req idSource (password_of answer)))"

section \<open>For the management interface\<close>

definition password_charset :: string where
  "password_charset = ''abcdefghijklmnopqrstuvwxyzABCDEFGHIJKLMNOPQRSTUVWXYZ0123456789''"

definition generateUserPassword :: "(nat \<Rightarrow> nat) \<Rightarrow> string" where
  "generateUserPassword draw = map (\<lambda>i. password_charset ! draw i) [0..<16]"

definition getOrRegisterUserPassword :: "AuthEnv \<Rightarrow> u32 \<Rightarrow> (Auth, string option) op" where
  "getOrRegisterUserPassword ev pid =
     bindS (db_access ev pid) (\<lambda>answer. case answer of
         AccessFailed \<Rightarrow> returnS None
       | AccessPassword p \<Rightarrow> returnS (Some p)
       | NoAccess \<Rightarrow>
           (let p = generateUserPassword (ae_draw ev); c = InsertGameServerAccess pid p
            in readS (\<lambda>s. seqS (modifyS (\<lambda>s. s\<lparr>au_db := au_db s @ [c]\<rparr>))
                 (returnS (if ae_update ev (au_db s) c then Some p else None)))))"

definition deleteGameServerAccess :: "AuthEnv \<Rightarrow> u32 \<Rightarrow> (Auth, bool) op" where
  "deleteGameServerAccess ev pid =
     (let c = DeleteGameServerAccess pid
      in readS (\<lambda>s. seqS (modifyS (\<lambda>s. s\<lparr>au_db := au_db s @ [c]\<rparr>))
           (returnS (ae_update ev (au_db s) c))))"

section \<open>Dispatch\<close>

definition auth_call :: "AuthEnv \<Rightarrow> ClientInfo \<Rightarrow> Request \<Rightarrow> AuthParams \<Rightarrow> (Auth, unit) op" where
  "auth_call ev client req params = (case params of
       Login username \<Rightarrow> auth_login ev client req username
     | LoginEx username authInfo \<Rightarrow> loginEx ev client req username authInfo
     | RequestTicket source target \<Rightarrow> requestTicket ev client req source target)"

text \<open>The parameters of a call, one behind the other.\<close>

definition parse_login :: "bytes \<Rightarrow> AuthParams result" where
  "parse_login d = bindE (decode_string d) (\<lambda>(u, n). bindE (subspan d n) (\<lambda>_. Inr (Login u)))"

definition parse_loginEx :: "bytes \<Rightarrow> AuthParams result" where
  "parse_loginEx d = bindE (decode_string d) (\<lambda>(u, n). bindE (subspan d n) (\<lambda>d.
     bindE (decode_AnyDataHolder d) (\<lambda>(a, n). bindE (subspan d n) (\<lambda>_. Inr (LoginEx u a)))))"

definition parse_requestTicket :: "bytes \<Rightarrow> AuthParams result" where
  "parse_requestTicket d = bindE (decode_int d) (\<lambda>(s, n). bindE (subspan d n) (\<lambda>d.
     bindE (decode_int d) (\<lambda>(t, n). bindE (subspan d n) (\<lambda>_. Inr (RequestTicket s t)))))"

definition auth_calls :: "bool \<Rightarrow> (call_key \<times> (u8 \<Rightarrow> bytes \<Rightarrow> AuthParams result)) list" where
  "auth_calls fr =
     (if fr then [((10, 0, 1), \<lambda>mv. parse_login)] else [((10, 0, 2), \<lambda>mv. parse_loginEx)]) @
     [((10, 0, 3), \<lambda>mv. parse_requestTicket)]"

definition Auth_init :: "u32 \<Rightarrow> AuthConfig \<Rightarrow> Auth" where
  "Auth_init nexServerId cf =
     \<lparr>au_rmc = fold (\<lambda>(k, p). registerCall k p) (auth_calls (ac_friends cf))
        \<lparr>shouldStop = False, rmc_serverId = nexServerId, pidMap = Map.empty, calls = Map.empty, requestsQueue = []\<rparr>,
      au_config = cf, au_out = [], au_db = []\<rparr>"

text \<open>The worker: a handler that throws is answered with \<^verbatim>\<open>CORE__EXCEPTION\<close>.\<close>

definition run_auth_call :: "AuthEnv \<Rightarrow> AuthParams RequestInfo \<Rightarrow> (Auth, unit) op" where
  "run_auth_call ev r s =
     (case auth_call ev (ri_client r) (ri_request r) (ri_params r) s of
        (Inl UndefinedAccess, s') \<Rightarrow> (Inl UndefinedAccess, s')
      | (Inl _, s') \<Rightarrow> auth_send (ri_client r) (createError (ri_request r) CORE__EXCEPTION) [] s'
      | (Inr u, s') \<Rightarrow> (Inr u, s'))"

end
