(* ===== verification/FriendTypes.thy ===== *)
theory FriendTypes
  imports Params Rmc
begin

text \<open>
  The structures of the friends service, \<^verbatim>\<open>src/nex/types/friendsSecure\<close>. All but two extend \<^verbatim>\<open>Data\<close>, whose
  header stands in front of their own, and whose size their decoders leave out of the number of
  bytes they report: for the versions of the protocol without headers, below 3, that is no difference,
  and the round trips hold for those. Every decoder reads within its input for every version.
\<close>

section \<open>The parent\<close>

lemma encode_Data_old: "mv < 3 \<Longrightarrow> encode_Data mv = []"
  by (simp add: encode_Data_def encodeHeader_def)

lemma parent_step: "mv < 3 \<Longrightarrow> bindE (decode_Data mv d) (\<lambda>p. bindE (subspan d p) (f p)) = f 0 d"
  by (simp add: decode_Data_def decodeHeader_def subspan_def)

lemma safe_parent:
  assumes "\<And>p d'. p \<le> length d \<Longrightarrow> safe_run d' (f p d')"
  shows "safe_run d (bindE (decode_Data mv d) (\<lambda>p. bindE (subspan d p) (f p)))"
proof (cases "decode_Data mv d")
  case (Inl e)
  then have "e \<noteq> UndefinedAccess" by (metis decodeHeader_defined decode_Data_def)
  with Inl show ?thesis by simp
next
  case (Inr p)
  then have "p \<le> length d" using decodeHeader_within by (simp add: decode_Data_def)
  with Inr assms [of p "drop p d"] show ?thesis
    by (cases "f p (drop p d)") (auto simp: subspan_def)
qed

section \<open>GameKey\<close>

record GameKey =
  gk_titleId :: u64
  gk_titleVersion :: u16

definition encode_GameKey :: "u8 \<Rightarrow> GameKey \<Rightarrow> bytes" where
  "encode_GameKey mv x = encode_Data mv @ with_header mv 0
     (encode_int (gk_titleId x) @ encode_int (gk_titleVersion x))"

definition decode_GameKey :: "u8 \<Rightarrow> GameKey decoder" where
  "decode_GameKey mv d =
     bindE (decode_Data mv d) (\<lambda>parent. bindE (subspan d parent) (\<lambda>d.
     bindE (decodeHeader mv 0 d) (\<lambda>pos.
     bindE (dec_at decode_int d pos) (\<lambda>(gk_titleId, pos).
     bindE (dec_at decode_int d pos) (\<lambda>(gk_titleVersion, pos).
     Inr (\<lparr>gk_titleId = gk_titleId, gk_titleVersion = gk_titleVersion\<rparr>, pos))))))"

definition gameKey_ok :: "u8 \<Rightarrow> GameKey \<Rightarrow> bool" where
  "gameKey_ok mv x \<longleftrightarrow> mv < 3"

interpretation gameKey_codec: safe_codec "encode_GameKey mv" "decode_GameKey mv" "gameKey_ok mv" for mv
proof unfold_locales
  fix x rest assume "gameKey_ok mv x"
  then have ok: "mv < 3"
    by (simp_all add: gameKey_ok_def)
  have "rest_at (encode_GameKey mv x @ rest) 0 (encode_GameKey mv x @ rest)" by simp
  then show "decode_GameKey mv (encode_GameKey mv x @ rest) = Inr (x, length (encode_GameKey mv x))"
    unfolding decode_GameKey_def
    apply (simp only: parent_step [OF ok(1)])
    apply (subst (asm) (2) encode_GameKey_def)
    apply (simp only: encode_Data_old [OF ok(1)] append_Nil)
    apply (elim with_header_step)
    apply (simp only: append_assoc)
    apply ((erule field_steps, (rule TrueI | rule ok), simp only: prod.case)+)
    apply (simp add: encode_GameKey_def length_with_header encode_Data_old [OF ok(1)])
    done
next
  have "safe_run d (decode_GameKey mv d)" for d
    unfolding decode_GameKey_def
    by (rule safe_parent, intro safe_steps) simp_all
  then show "consumes_within (decode_GameKey mv)" "never_undefined (decode_GameKey mv)"
    using safe_run_all by blast+
qed

section \<open>MiiV2\<close>

record MiiV2 =
  mii_name :: string
  mii_unk1 :: u8
  mii_unk2 :: u8
  mii_miiData :: bytes
  mii_unk3 :: time_point

definition encode_MiiV2 :: "u8 \<Rightarrow> MiiV2 \<Rightarrow> bytes" where
  "encode_MiiV2 mv x = encode_Data mv @ with_header mv 0
     (encode_string (mii_name x) @ encode_int (mii_unk1 x) @ encode_int (mii_unk2 x) @
      encode_buffer TYPE(32) (mii_miiData x) @ encode_Datetime (mii_unk3 x))"

definition decode_MiiV2 :: "u8 \<Rightarrow> MiiV2 decoder" where
  "decode_MiiV2 mv d =
     bindE (decode_Data mv d) (\<lambda>parent. bindE (subspan d parent) (\<lambda>d.
     bindE (decodeHeader mv 0 d) (\<lambda>pos.
     bindE (dec_at decode_string d pos) (\<lambda>(mii_name, pos).
     bindE (dec_at decode_int d pos) (\<lambda>(mii_unk1, pos).
     bindE (dec_at decode_int d pos) (\<lambda>(mii_unk2, pos).
     bindE (dec_at (decode_buffer TYPE(32)) d pos) (\<lambda>(mii_miiData, pos).
     bindE (dec_at decode_Datetime d pos) (\<lambda>(mii_unk3, pos).
     Inr (\<lparr>mii_name = mii_name, mii_unk1 = mii_unk1, mii_unk2 = mii_unk2,
       mii_miiData = mii_miiData, mii_unk3 = mii_unk3\<rparr>, pos)))))))))"

definition miiV2_ok :: "u8 \<Rightarrow> MiiV2 \<Rightarrow> bool" where
  "miiV2_ok mv x \<longleftrightarrow> mv < 3 \<and> string_ok (mii_name x) \<and>
     length (mii_miiData x) < 2 ^ LENGTH(32) \<and> whole_seconds (mii_unk3 x)"

interpretation miiV2_codec: safe_codec "encode_MiiV2 mv" "decode_MiiV2 mv" "miiV2_ok mv" for mv
proof unfold_locales
  fix x rest assume "miiV2_ok mv x"
  then have ok: "mv < 3" "string_ok (mii_name x)" "length (mii_miiData x) < 2 ^ LENGTH(32)" "whole_seconds (mii_unk3 x)"
    by (simp_all add: miiV2_ok_def)
  have "rest_at (encode_MiiV2 mv x @ rest) 0 (encode_MiiV2 mv x @ rest)" by simp
  then show "decode_MiiV2 mv (encode_MiiV2 mv x @ rest) = Inr (x, length (encode_MiiV2 mv x))"
    unfolding decode_MiiV2_def
    apply (simp only: parent_step [OF ok(1)])
    apply (subst (asm) (2) encode_MiiV2_def)
    apply (simp only: encode_Data_old [OF ok(1)] append_Nil)
    apply (elim with_header_step)
    apply (simp only: append_assoc)
    apply ((erule field_steps datetime_codec.dec_field, (rule TrueI | rule ok), simp only: prod.case)+)
    apply (simp add: encode_MiiV2_def length_with_header encode_Data_old [OF ok(1)])
    done
next
  have "safe_run d (decode_MiiV2 mv d)" for d
    unfolding decode_MiiV2_def
    by (rule safe_parent, intro safe_steps datetime_codec.safe_field) simp_all
  then show "consumes_within (decode_MiiV2 mv)" "never_undefined (decode_MiiV2 mv)"
    using safe_run_all by blast+
qed

section \<open>PrincipalBasicInfo\<close>

record PrincipalBasicInfo =
  pbi_pid :: u32
  pbi_NNID :: string
  pbi_mii :: MiiV2
  pbi_unk1 :: u8

definition encode_PrincipalBasicInfo :: "u8 \<Rightarrow> PrincipalBasicInfo \<Rightarrow> bytes" where
  "encode_PrincipalBasicInfo mv x = encode_Data mv @ with_header mv 0
     (encode_int (pbi_pid x) @ encode_string (pbi_NNID x) @ encode_MiiV2 mv (pbi_mii x) @
      encode_int (pbi_unk1 x))"

definition decode_PrincipalBasicInfo :: "u8 \<Rightarrow> PrincipalBasicInfo decoder" where
  "decode_PrincipalBasicInfo mv d =
     bindE (decode_Data mv d) (\<lambda>parent. bindE (subspan d parent) (\<lambda>d.
     bindE (decodeHeader mv 0 d) (\<lambda>pos.
     bindE (dec_at decode_int d pos) (\<lambda>(pbi_pid, pos).
     bindE (dec_at decode_string d pos) (\<lambda>(pbi_NNID, pos).
     bindE (dec_at (decode_MiiV2 mv) d pos) (\<lambda>(pbi_mii, pos).
     bindE (dec_at decode_int d pos) (\<lambda>(pbi_unk1, pos).
     Inr (\<lparr>pbi_pid = pbi_pid, pbi_NNID = pbi_NNID, pbi_mii = pbi_mii, pbi_unk1 = pbi_unk1\<rparr>, pos))))))))"

definition principalBasicInfo_ok :: "u8 \<Rightarrow> PrincipalBasicInfo \<Rightarrow> bool" where
  "principalBasicInfo_ok mv x \<longleftrightarrow> mv < 3 \<and> string_ok (pbi_NNID x) \<and> miiV2_ok mv (pbi_mii x)"

interpretation principalBasicInfo_codec: safe_codec "encode_PrincipalBasicInfo mv" "decode_PrincipalBasicInfo mv" "principalBasicInfo_ok mv" for mv
proof unfold_locales
  fix x rest assume "principalBasicInfo_ok mv x"
  then have ok: "mv < 3" "string_ok (pbi_NNID x)" "miiV2_ok mv (pbi_mii x)"
    by (simp_all add: principalBasicInfo_ok_def)
  have "rest_at (encode_PrincipalBasicInfo mv x @ rest) 0 (encode_PrincipalBasicInfo mv x @ rest)" by simp
  then show "decode_PrincipalBasicInfo mv (encode_PrincipalBasicInfo mv x @ rest) = Inr (x, length (encode_PrincipalBasicInfo mv x))"
    unfolding decode_PrincipalBasicInfo_def
    apply (simp only: parent_step [OF ok(1)])
    apply (subst (asm) (2) encode_PrincipalBasicInfo_def)
    apply (simp only: encode_Data_old [OF ok(1)] append_Nil)
    apply (elim with_header_step)
    apply (simp only: append_assoc)
    apply ((erule field_steps miiV2_codec.dec_field, (rule TrueI | rule ok), simp only: prod.case)+)
    apply (simp add: encode_PrincipalBasicInfo_def length_with_header encode_Data_old [OF ok(1)])
    done
next
  have "safe_run d (decode_PrincipalBasicInfo mv d)" for d
    unfolding decode_PrincipalBasicInfo_def
    by (rule safe_parent, intro safe_steps miiV2_codec.safe_field) simp_all
  then show "consumes_within (decode_PrincipalBasicInfo mv)" "never_undefined (decode_PrincipalBasicInfo mv)"
    using safe_run_all by blast+
qed

section \<open>NNAInfo\<close>

record NNAInfo =
  nna_info :: PrincipalBasicInfo
  nna_unk1 :: u8
  nna_unk2 :: u8

definition encode_NNAInfo :: "u8 \<Rightarrow> NNAInfo \<Rightarrow> bytes" where
  "encode_NNAInfo mv x = encode_Data mv @ with_header mv 0
     (encode_PrincipalBasicInfo mv (nna_info x) @ encode_int (nna_unk1 x) @
      encode_int (nna_unk2 x))"

definition decode_NNAInfo :: "u8 \<Rightarrow> NNAInfo decoder" where
  "decode_NNAInfo mv d =
     bindE (decode_Data mv d) (\<lambda>parent. bindE (subspan d parent) (\<lambda>d.
     bindE (decodeHeader mv 0 d) (\<lambda>pos.
     bindE (dec_at (decode_PrincipalBasicInfo mv) d pos) (\<lambda>(nna_info, pos).
     bindE (dec_at decode_int d pos) (\<lambda>(nna_unk1, pos).
     bindE (dec_at decode_int d pos) (\<lambda>(nna_unk2, pos).
     Inr (\<lparr>nna_info = nna_info, nna_unk1 = nna_unk1, nna_unk2 = nna_unk2\<rparr>, pos)))))))"

definition nNAInfo_ok :: "u8 \<Rightarrow> NNAInfo \<Rightarrow> bool" where
  "nNAInfo_ok mv x \<longleftrightarrow> mv < 3 \<and> principalBasicInfo_ok mv (nna_info x)"

interpretation nNAInfo_codec: safe_codec "encode_NNAInfo mv" "decode_NNAInfo mv" "nNAInfo_ok mv" for mv
proof unfold_locales
  fix x rest assume "nNAInfo_ok mv x"
  then have ok: "mv < 3" "principalBasicInfo_ok mv (nna_info x)"
    by (simp_all add: nNAInfo_ok_def)
  have "rest_at (encode_NNAInfo mv x @ rest) 0 (encode_NNAInfo mv x @ rest)" by simp
  then show "decode_NNAInfo mv (encode_NNAInfo mv x @ rest) = Inr (x, length (encode_NNAInfo mv x))"
    unfolding decode_NNAInfo_def
    apply (simp only: parent_step [OF ok(1)])
    apply (subst (asm) (2) encode_NNAInfo_def)
    apply (simp only: encode_Data_old [OF ok(1)] append_Nil)
    apply (elim with_header_step)
    apply (simp only: append_assoc)
    apply ((erule field_steps principalBasicInfo_codec.dec_field, (rule TrueI | rule ok), simp only: prod.case)+)
    apply (simp add: encode_NNAInfo_def length_with_header encode_Data_old [OF ok(1)])
    done
next
  have "safe_run d (decode_NNAInfo mv d)" for d
    unfolding decode_NNAInfo_def
    by (rule safe_parent, intro safe_steps principalBasicInfo_codec.safe_field) simp_all
  then show "consumes_within (decode_NNAInfo mv)" "never_undefined (decode_NNAInfo mv)"
    using safe_run_all by blast+
qed

section \<open>NintendoPresenceV2\<close>

record NintendoPresenceV2 =
  npr_changedFlags :: u32
  npr_online :: bool
  npr_gameKey :: GameKey
  npr_unk1 :: u8
  npr_message :: string
  npr_unk2 :: u32
  npr_unk3 :: u8
  npr_gameServerId :: u32
  npr_unk4 :: u32
  npr_pid :: u32
  npr_gatheringId :: u32
  npr_appData :: bytes
  npr_unk5 :: u8
  npr_unk6 :: u8
  npr_unk7 :: u8

definition encode_NintendoPresenceV2 :: "u8 \<Rightarrow> NintendoPresenceV2 \<Rightarrow> bytes" where
  "encode_NintendoPresenceV2 mv x = encode_Data mv @ with_header mv 0
     (encode_int (npr_changedFlags x) @ encode_bool (npr_online x) @
      encode_GameKey mv (npr_gameKey x) @ encode_int (npr_unk1 x) @
      encode_string (npr_message x) @ encode_int (npr_unk2 x) @ encode_int (npr_unk3 x) @
      encode_int (npr_gameServerId x) @ encode_int (npr_unk4 x) @ encode_int (npr_pid x) @
      encode_int (npr_gatheringId x) @ encode_buffer TYPE(32) (npr_appData x) @
      encode_int (npr_unk5 x) @ encode_int (npr_unk6 x) @ encode_int (npr_unk7 x))"

definition decode_NintendoPresenceV2 :: "u8 \<Rightarrow> NintendoPresenceV2 decoder" where
  "decode_NintendoPresenceV2 mv d =
     bindE (decode_Data mv d) (\<lambda>parent. bindE (subspan d parent) (\<lambda>d.
     bindE (decodeHeader mv 0 d) (\<lambda>pos.
     bindE (dec_at decode_int d pos) (\<lambda>(npr_changedFlags, pos).
     bindE (dec_at decode_bool d pos) (\<lambda>(npr_online, pos).
     bindE (dec_at (decode_GameKey mv) d pos) (\<lambda>(npr_gameKey, pos).
     bindE (dec_at decode_int d pos) (\<lambda>(npr_unk1, pos).
     bindE (dec_at decode_string d pos) (\<lambda>(npr_message, pos).
     bindE (dec_at decode_int d pos) (\<lambda>(npr_unk2, pos).
     bindE (dec_at decode_int d pos) (\<lambda>(npr_unk3, pos).
     bindE (dec_at decode_int d pos) (\<lambda>(npr_gameServerId, pos).
     bindE (dec_at decode_int d pos) (\<lambda>(npr_unk4, pos).
     bindE (dec_at decode_int d pos) (\<lambda>(npr_pid, pos).
     bindE (dec_at decode_int d pos) (\<lambda>(npr_gatheringId, pos).
     bindE (dec_at (decode_buffer TYPE(32)) d pos) (\<lambda>(npr_appData, pos).
     bindE (dec_at decode_int d pos) (\<lambda>(npr_unk5, pos).
     bindE (dec_at decode_int d pos) (\<lambda>(npr_unk6, pos).
     bindE (dec_at decode_int d pos) (\<lambda>(npr_unk7, pos).
     Inr (\<lparr>npr_changedFlags = npr_changedFlags, npr_online = npr_online,
       npr_gameKey = npr_gameKey, npr_unk1 = npr_unk1, npr_message = npr_message,
       npr_unk2 = npr_unk2, npr_unk3 = npr_unk3, npr_gameServerId = npr_gameServerId,
       npr_unk4 = npr_unk4, npr_pid = npr_pid, npr_gatheringId = npr_gatheringId,
       npr_appData = npr_appData, npr_unk5 = npr_unk5, npr_unk6 = npr_unk6,
       npr_unk7 = npr_unk7\<rparr>, pos)))))))))))))))))))"

definition nintendoPresenceV2_ok :: "u8 \<Rightarrow> NintendoPresenceV2 \<Rightarrow> bool" where
  "nintendoPresenceV2_ok mv x \<longleftrightarrow> mv < 3 \<and> gameKey_ok mv (npr_gameKey x) \<and> string_ok (npr_message x) \<and>
     length (npr_appData x) < 2 ^ LENGTH(32)"

interpretation nintendoPresenceV2_codec: safe_codec "encode_NintendoPresenceV2 mv" "decode_NintendoPresenceV2 mv" "nintendoPresenceV2_ok mv" for mv
proof unfold_locales
  fix x rest assume "nintendoPresenceV2_ok mv x"
  then have ok: "mv < 3" "gameKey_ok mv (npr_gameKey x)" "string_ok (npr_message x)" "length (npr_appData x) < 2 ^ LENGTH(32)"
    by (simp_all add: nintendoPresenceV2_ok_def)
  have "rest_at (encode_NintendoPresenceV2 mv x @ rest) 0 (encode_NintendoPresenceV2 mv x @ rest)" by simp
  then show "decode_NintendoPresenceV2 mv (encode_NintendoPresenceV2 mv x @ rest) = Inr (x, length (encode_NintendoPresenceV2 mv x))"
    unfolding decode_NintendoPresenceV2_def
    apply (simp only: parent_step [OF ok(1)])
    apply (subst (asm) (2) encode_NintendoPresenceV2_def)
    apply (simp only: encode_Data_old [OF ok(1)] append_Nil)
    apply (elim with_header_step)
    apply (simp only: append_assoc)
    apply ((erule field_steps gameKey_codec.dec_field, (rule TrueI | rule ok), simp only: prod.case)+)
    apply (simp add: encode_NintendoPresenceV2_def length_with_header encode_Data_old [OF ok(1)])
    done
next
  have "safe_run d (decode_NintendoPresenceV2 mv d)" for d
    unfolding decode_NintendoPresenceV2_def
    by (rule safe_parent, intro safe_steps gameKey_codec.safe_field) simp_all
  then show "consumes_within (decode_NintendoPresenceV2 mv)" "never_undefined (decode_NintendoPresenceV2 mv)"
    using safe_run_all by blast+
qed

section \<open>Comment\<close>

record Comment =
  cmt_unk1 :: u8
  cmt_message :: string
  cmt_lastModified :: time_point

definition encode_Comment :: "u8 \<Rightarrow> Comment \<Rightarrow> bytes" where
  "encode_Comment mv x = encode_Data mv @ with_header mv 0
     (encode_int (cmt_unk1 x) @ encode_string (cmt_message x) @
      encode_Datetime (cmt_lastModified x))"

definition decode_Comment :: "u8 \<Rightarrow> Comment decoder" where
  "decode_Comment mv d =
     bindE (decode_Data mv d) (\<lambda>parent. bindE (subspan d parent) (\<lambda>d.
     bindE (decodeHeader mv 0 d) (\<lambda>pos.
     bindE (dec_at decode_int d pos) (\<lambda>(cmt_unk1, pos).
     bindE (dec_at decode_string d pos) (\<lambda>(cmt_message, pos).
     bindE (dec_at decode_Datetime d pos) (\<lambda>(cmt_lastModified, pos).
     Inr (\<lparr>cmt_unk1 = cmt_unk1, cmt_message = cmt_message, cmt_lastModified = cmt_lastModified\<rparr>, pos)))))))"

definition comment_ok :: "u8 \<Rightarrow> Comment \<Rightarrow> bool" where
  "comment_ok mv x \<longleftrightarrow> mv < 3 \<and> string_ok (cmt_message x) \<and> whole_seconds (cmt_lastModified x)"

interpretation comment_codec: safe_codec "encode_Comment mv" "decode_Comment mv" "comment_ok mv" for mv
proof unfold_locales
  fix x rest assume "comment_ok mv x"
  then have ok: "mv < 3" "string_ok (cmt_message x)" "whole_seconds (cmt_lastModified x)"
    by (simp_all add: comment_ok_def)
  have "rest_at (encode_Comment mv x @ rest) 0 (encode_Comment mv x @ rest)" by simp
  then show "decode_Comment mv (encode_Comment mv x @ rest) = Inr (x, length (encode_Comment mv x))"
    unfolding decode_Comment_def
    apply (simp only: parent_step [OF ok(1)])
    apply (subst (asm) (2) encode_Comment_def)
    apply (simp only: encode_Data_old [OF ok(1)] append_Nil)
    apply (elim with_header_step)
    apply (simp only: append_assoc)
    apply ((erule field_steps datetime_codec.dec_field, (rule TrueI | rule ok), simp only: prod.case)+)
    apply (simp add: encode_Comment_def length_with_header encode_Data_old [OF ok(1)])
    done
next
  have "safe_run d (decode_Comment mv d)" for d
    unfolding decode_Comment_def
    by (rule safe_parent, intro safe_steps datetime_codec.safe_field) simp_all
  then show "consumes_within (decode_Comment mv)" "never_undefined (decode_Comment mv)"
    using safe_run_all by blast+
qed

section \<open>PrincipalPreference\<close>

record PrincipalPreference =
  ppf_showOnline :: bool
  ppf_showPlaying :: bool
  ppf_blockFriendRequest :: bool

definition encode_PrincipalPreference :: "u8 \<Rightarrow> PrincipalPreference \<Rightarrow> bytes" where
  "encode_PrincipalPreference mv x = encode_Data mv @ with_header mv 0
     (encode_bool (ppf_showOnline x) @ encode_bool (ppf_showPlaying x) @
      encode_bool (ppf_blockFriendRequest x))"

definition decode_PrincipalPreference :: "u8 \<Rightarrow> PrincipalPreference decoder" where
  "decode_PrincipalPreference mv d =
     bindE (decode_Data mv d) (\<lambda>parent. bindE (subspan d parent) (\<lambda>d.
     bindE (decodeHeader mv 0 d) (\<lambda>pos.
     bindE (dec_at decode_bool d pos) (\<lambda>(ppf_showOnline, pos).
     bindE (dec_at decode_bool d pos) (\<lambda>(ppf_showPlaying, pos).
     bindE (dec_at decode_bool d pos) (\<lambda>(ppf_blockFriendRequest, pos).
     Inr (\<lparr>ppf_showOnline = ppf_showOnline, ppf_showPlaying = ppf_showPlaying,
       ppf_blockFriendRequest = ppf_blockFriendRequest\<rparr>, pos)))))))"

definition principalPreference_ok :: "u8 \<Rightarrow> PrincipalPreference \<Rightarrow> bool" where
  "principalPreference_ok mv x \<longleftrightarrow> mv < 3"

interpretation principalPreference_codec: safe_codec "encode_PrincipalPreference mv" "decode_PrincipalPreference mv" "principalPreference_ok mv" for mv
proof unfold_locales
  fix x rest assume "principalPreference_ok mv x"
  then have ok: "mv < 3"
    by (simp_all add: principalPreference_ok_def)
  have "rest_at (encode_PrincipalPreference mv x @ rest) 0 (encode_PrincipalPreference mv x @ rest)" by simp
  then show "decode_PrincipalPreference mv (encode_PrincipalPreference mv x @ rest) = Inr (x, length (encode_PrincipalPreference mv x))"
    unfolding decode_PrincipalPreference_def
    apply (simp only: parent_step [OF ok(1)])
    apply (subst (asm) (2) encode_PrincipalPreference_def)
    apply (simp only: encode_Data_old [OF ok(1)] append_Nil)
    apply (elim with_header_step)
    apply (simp only: append_assoc)
    apply ((erule field_steps, (rule TrueI | rule ok), simp only: prod.case)+)
    apply (simp add: encode_PrincipalPreference_def length_with_header encode_Data_old [OF ok(1)])
    done
next
  have "safe_run d (decode_PrincipalPreference mv d)" for d
    unfolding decode_PrincipalPreference_def
    by (rule safe_parent, intro safe_steps) simp_all
  then show "consumes_within (decode_PrincipalPreference mv)" "never_undefined (decode_PrincipalPreference mv)"
    using safe_run_all by blast+
qed

section \<open>PrincipalRequestBlockSetting\<close>

record PrincipalRequestBlockSetting =
  prb_pid :: u32
  prb_blocked :: bool

definition encode_PrincipalRequestBlockSetting :: "u8 \<Rightarrow> PrincipalRequestBlockSetting \<Rightarrow> bytes" where
  "encode_PrincipalRequestBlockSetting mv x = encode_Data mv @ with_header mv 0
     (encode_int (prb_pid x) @ encode_bool (prb_blocked x))"

definition decode_PrincipalRequestBlockSetting :: "u8 \<Rightarrow> PrincipalRequestBlockSetting decoder" where
  "decode_PrincipalRequestBlockSetting mv d =
     bindE (decode_Data mv d) (\<lambda>parent. bindE (subspan d parent) (\<lambda>d.
     bindE (decodeHeader mv 0 d) (\<lambda>pos.
     bindE (dec_at decode_int d pos) (\<lambda>(prb_pid, pos).
     bindE (dec_at decode_bool d pos) (\<lambda>(prb_blocked, pos).
     Inr (\<lparr>prb_pid = prb_pid, prb_blocked = prb_blocked\<rparr>, pos))))))"

definition principalRequestBlockSetting_ok :: "u8 \<Rightarrow> PrincipalRequestBlockSetting \<Rightarrow> bool" where
  "principalRequestBlockSetting_ok mv x \<longleftrightarrow> mv < 3"

interpretation principalRequestBlockSetting_codec: safe_codec "encode_PrincipalRequestBlockSetting mv" "decode_PrincipalRequestBlockSetting mv" "principalRequestBlockSetting_ok mv" for mv
proof unfold_locales
  fix x rest assume "principalRequestBlockSetting_ok mv x"
  then have ok: "mv < 3"
    by (simp_all add: principalRequestBlockSetting_ok_def)
  have "rest_at (encode_PrincipalRequestBlockSetting mv x @ rest) 0 (encode_PrincipalRequestBlockSetting mv x @ rest)" by simp
  then show "decode_PrincipalRequestBlockSetting mv (encode_PrincipalRequestBlockSetting mv x @ rest) = Inr (x, length (encode_PrincipalRequestBlockSetting mv x))"
    unfolding decode_PrincipalRequestBlockSetting_def
    apply (simp only: parent_step [OF ok(1)])
    apply (subst (asm) (2) encode_PrincipalRequestBlockSetting_def)
    apply (simp only: encode_Data_old [OF ok(1)] append_Nil)
    apply (elim with_header_step)
    apply (simp only: append_assoc)
    apply ((erule field_steps, (rule TrueI | rule ok), simp only: prod.case)+)
    apply (simp add: encode_PrincipalRequestBlockSetting_def length_with_header encode_Data_old [OF ok(1)])
    done
next
  have "safe_run d (decode_PrincipalRequestBlockSetting mv d)" for d
    unfolding decode_PrincipalRequestBlockSetting_def
    by (rule safe_parent, intro safe_steps) simp_all
  then show "consumes_within (decode_PrincipalRequestBlockSetting mv)" "never_undefined (decode_PrincipalRequestBlockSetting mv)"
    using safe_run_all by blast+
qed

section \<open>FriendRequestMsg\<close>

record FriendRequestMsg =
  frm_id :: u64
  frm_isReceived :: u8
  frm_unk1 :: u8
  frm_message :: string
  frm_unk2 :: u8
  frm_unk3 :: string
  frm_gameKey :: GameKey
  frm_unk4 :: time_point
  frm_expiresOn :: time_point

definition encode_FriendRequestMsg :: "u8 \<Rightarrow> FriendRequestMsg \<Rightarrow> bytes" where
  "encode_FriendRequestMsg mv x = encode_Data mv @ with_header mv 0
     (encode_int (frm_id x) @ encode_int (frm_isReceived x) @ encode_int (frm_unk1 x) @
      encode_string (frm_message x) @ encode_int (frm_unk2 x) @ encode_string (frm_unk3 x) @
      encode_GameKey mv (frm_gameKey x) @ encode_Datetime (frm_unk4 x) @
      encode_Datetime (frm_expiresOn x))"

definition decode_FriendRequestMsg :: "u8 \<Rightarrow> FriendRequestMsg decoder" where
  "decode_FriendRequestMsg mv d =
     bindE (decode_Data mv d) (\<lambda>parent. bindE (subspan d parent) (\<lambda>d.
     bindE (decodeHeader mv 0 d) (\<lambda>pos.
     bindE (dec_at decode_int d pos) (\<lambda>(frm_id, pos).
     bindE (dec_at decode_int d pos) (\<lambda>(frm_isReceived, pos).
     bindE (dec_at decode_int d pos) (\<lambda>(frm_unk1, pos).
     bindE (dec_at decode_string d pos) (\<lambda>(frm_message, pos).
     bindE (dec_at decode_int d pos) (\<lambda>(frm_unk2, pos).
     bindE (dec_at decode_string d pos) (\<lambda>(frm_unk3, pos).
     bindE (dec_at (decode_GameKey mv) d pos) (\<lambda>(frm_gameKey, pos).
     bindE (dec_at decode_Datetime d pos) (\<lambda>(frm_unk4, pos).
     bindE (dec_at decode_Datetime d pos) (\<lambda>(frm_expiresOn, pos).
     Inr (\<lparr>frm_id = frm_id, frm_isReceived = frm_isReceived, frm_unk1 = frm_unk1,
       frm_message = frm_message, frm_unk2 = frm_unk2, frm_unk3 = frm_unk3,
       frm_gameKey = frm_gameKey, frm_unk4 = frm_unk4, frm_expiresOn = frm_expiresOn\<rparr>, pos)))))))))))))"

definition friendRequestMsg_ok :: "u8 \<Rightarrow> FriendRequestMsg \<Rightarrow> bool" where
  "friendRequestMsg_ok mv x \<longleftrightarrow> mv < 3 \<and> string_ok (frm_message x) \<and> string_ok (frm_unk3 x) \<and>
     gameKey_ok mv (frm_gameKey x) \<and> whole_seconds (frm_unk4 x) \<and>
     whole_seconds (frm_expiresOn x)"

interpretation friendRequestMsg_codec: safe_codec "encode_FriendRequestMsg mv" "decode_FriendRequestMsg mv" "friendRequestMsg_ok mv" for mv
proof unfold_locales
  fix x rest assume "friendRequestMsg_ok mv x"
  then have ok: "mv < 3" "string_ok (frm_message x)" "string_ok (frm_unk3 x)" "gameKey_ok mv (frm_gameKey x)" "whole_seconds (frm_unk4 x)" "whole_seconds (frm_expiresOn x)"
    by (simp_all add: friendRequestMsg_ok_def)
  have "rest_at (encode_FriendRequestMsg mv x @ rest) 0 (encode_FriendRequestMsg mv x @ rest)" by simp
  then show "decode_FriendRequestMsg mv (encode_FriendRequestMsg mv x @ rest) = Inr (x, length (encode_FriendRequestMsg mv x))"
    unfolding decode_FriendRequestMsg_def
    apply (simp only: parent_step [OF ok(1)])
    apply (subst (asm) (2) encode_FriendRequestMsg_def)
    apply (simp only: encode_Data_old [OF ok(1)] append_Nil)
    apply (elim with_header_step)
    apply (simp only: append_assoc)
    apply ((erule field_steps datetime_codec.dec_field gameKey_codec.dec_field, (rule TrueI | rule ok), simp only: prod.case)+)
    apply (simp add: encode_FriendRequestMsg_def length_with_header encode_Data_old [OF ok(1)])
    done
next
  have "safe_run d (decode_FriendRequestMsg mv d)" for d
    unfolding decode_FriendRequestMsg_def
    by (rule safe_parent, intro safe_steps datetime_codec.safe_field gameKey_codec.safe_field) simp_all
  then show "consumes_within (decode_FriendRequestMsg mv)" "never_undefined (decode_FriendRequestMsg mv)"
    using safe_run_all by blast+
qed

section \<open>FriendRequest\<close>

record FriendRequest =
  frq_principalBasicInfo :: PrincipalBasicInfo
  frq_friendRequestMsg :: FriendRequestMsg
  frq_sentOn :: time_point

definition encode_FriendRequest :: "u8 \<Rightarrow> FriendRequest \<Rightarrow> bytes" where
  "encode_FriendRequest mv x = encode_Data mv @ with_header mv 0
     (encode_PrincipalBasicInfo mv (frq_principalBasicInfo x) @
      encode_FriendRequestMsg mv (frq_friendRequestMsg x) @ encode_Datetime (frq_sentOn x))"

definition decode_FriendRequest :: "u8 \<Rightarrow> FriendRequest decoder" where
  "decode_FriendRequest mv d =
     bindE (decode_Data mv d) (\<lambda>parent. bindE (subspan d parent) (\<lambda>d.
     bindE (decodeHeader mv 0 d) (\<lambda>pos.
     bindE (dec_at (decode_PrincipalBasicInfo mv) d pos) (\<lambda>(frq_principalBasicInfo, pos).
     bindE (dec_at (decode_FriendRequestMsg mv) d pos) (\<lambda>(frq_friendRequestMsg, pos).
     bindE (dec_at decode_Datetime d pos) (\<lambda>(frq_sentOn, pos).
     Inr (\<lparr>frq_principalBasicInfo = frq_principalBasicInfo,
       frq_friendRequestMsg = frq_friendRequestMsg, frq_sentOn = frq_sentOn\<rparr>, pos)))))))"

definition friendRequest_ok :: "u8 \<Rightarrow> FriendRequest \<Rightarrow> bool" where
  "friendRequest_ok mv x \<longleftrightarrow> mv < 3 \<and> principalBasicInfo_ok mv (frq_principalBasicInfo x) \<and>
     friendRequestMsg_ok mv (frq_friendRequestMsg x) \<and> whole_seconds (frq_sentOn x)"

interpretation friendRequest_codec: safe_codec "encode_FriendRequest mv" "decode_FriendRequest mv" "friendRequest_ok mv" for mv
proof unfold_locales
  fix x rest assume "friendRequest_ok mv x"
  then have ok: "mv < 3" "principalBasicInfo_ok mv (frq_principalBasicInfo x)" "friendRequestMsg_ok mv (frq_friendRequestMsg x)" "whole_seconds (frq_sentOn x)"
    by (simp_all add: friendRequest_ok_def)
  have "rest_at (encode_FriendRequest mv x @ rest) 0 (encode_FriendRequest mv x @ rest)" by simp
  then show "decode_FriendRequest mv (encode_FriendRequest mv x @ rest) = Inr (x, length (encode_FriendRequest mv x))"
    unfolding decode_FriendRequest_def
    apply (simp only: parent_step [OF ok(1)])
    apply (subst (asm) (2) encode_FriendRequest_def)
    apply (simp only: encode_Data_old [OF ok(1)] append_Nil)
    apply (elim with_header_step)
    apply (simp only: append_assoc)
    apply ((erule field_steps datetime_codec.dec_field principalBasicInfo_codec.dec_field friendRequestMsg_codec.dec_field, (rule TrueI | rule ok), simp only: prod.case)+)
    apply (simp add: encode_FriendRequest_def length_with_header encode_Data_old [OF ok(1)])
    done
next
  have "safe_run d (decode_FriendRequest mv d)" for d
    unfolding decode_FriendRequest_def
    by (rule safe_parent, intro safe_steps datetime_codec.safe_field principalBasicInfo_codec.safe_field friendRequestMsg_codec.safe_field) simp_all
  then show "consumes_within (decode_FriendRequest mv)" "never_undefined (decode_FriendRequest mv)"
    using safe_run_all by blast+
qed

section \<open>FriendInfo\<close>

record FriendInfo =
  fin_nnaInfo :: NNAInfo
  fin_presence :: NintendoPresenceV2
  fin_comment :: Comment
  fin_becameFriends :: time_point
  fin_lastOnline :: time_point
  fin_unk1 :: u64

definition encode_FriendInfo :: "u8 \<Rightarrow> FriendInfo \<Rightarrow> bytes" where
  "encode_FriendInfo mv x = encode_Data mv @ with_header mv 0
     (encode_NNAInfo mv (fin_nnaInfo x) @ encode_NintendoPresenceV2 mv (fin_presence x) @
      encode_Comment mv (fin_comment x) @ encode_Datetime (fin_becameFriends x) @
      encode_Datetime (fin_lastOnline x) @ encode_int (fin_unk1 x))"

definition decode_FriendInfo :: "u8 \<Rightarrow> FriendInfo decoder" where
  "decode_FriendInfo mv d =
     bindE (decode_Data mv d) (\<lambda>parent. bindE (subspan d parent) (\<lambda>d.
     bindE (decodeHeader mv 0 d) (\<lambda>pos.
     bindE (dec_at (decode_NNAInfo mv) d pos) (\<lambda>(fin_nnaInfo, pos).
     bindE (dec_at (decode_NintendoPresenceV2 mv) d pos) (\<lambda>(fin_presence, pos).
     bindE (dec_at (decode_Comment mv) d pos) (\<lambda>(fin_comment, pos).
     bindE (dec_at decode_Datetime d pos) (\<lambda>(fin_becameFriends, pos).
     bindE (dec_at decode_Datetime d pos) (\<lambda>(fin_lastOnline, pos).
     bindE (dec_at decode_int d pos) (\<lambda>(fin_unk1, pos).
     Inr (\<lparr>fin_nnaInfo = fin_nnaInfo, fin_presence = fin_presence, fin_comment = fin_comment,
       fin_becameFriends = fin_becameFriends, fin_lastOnline = fin_lastOnline,
       fin_unk1 = fin_unk1\<rparr>, pos))))))))))"

definition friendInfo_ok :: "u8 \<Rightarrow> FriendInfo \<Rightarrow> bool" where
  "friendInfo_ok mv x \<longleftrightarrow> mv < 3 \<and> nNAInfo_ok mv (fin_nnaInfo x) \<and>
     nintendoPresenceV2_ok mv (fin_presence x) \<and> comment_ok mv (fin_comment x) \<and>
     whole_seconds (fin_becameFriends x) \<and> whole_seconds (fin_lastOnline x)"

interpretation friendInfo_codec: safe_codec "encode_FriendInfo mv" "decode_FriendInfo mv" "friendInfo_ok mv" for mv
proof unfold_locales
  fix x rest assume "friendInfo_ok mv x"
  then have ok: "mv < 3" "nNAInfo_ok mv (fin_nnaInfo x)" "nintendoPresenceV2_ok mv (fin_presence x)" "comment_ok mv (fin_comment x)" "whole_seconds (fin_becameFriends x)" "whole_seconds (fin_lastOnline x)"
    by (simp_all add: friendInfo_ok_def)
  have "rest_at (encode_FriendInfo mv x @ rest) 0 (encode_FriendInfo mv x @ rest)" by simp
  then show "decode_FriendInfo mv (encode_FriendInfo mv x @ rest) = Inr (x, length (encode_FriendInfo mv x))"
    unfolding decode_FriendInfo_def
    apply (simp only: parent_step [OF ok(1)])
    apply (subst (asm) (2) encode_FriendInfo_def)
    apply (simp only: encode_Data_old [OF ok(1)] append_Nil)
    apply (elim with_header_step)
    apply (simp only: append_assoc)
    apply ((erule field_steps datetime_codec.dec_field nNAInfo_codec.dec_field nintendoPresenceV2_codec.dec_field comment_codec.dec_field, (rule TrueI | rule ok), simp only: prod.case)+)
    apply (simp add: encode_FriendInfo_def length_with_header encode_Data_old [OF ok(1)])
    done
next
  have "safe_run d (decode_FriendInfo mv d)" for d
    unfolding decode_FriendInfo_def
    by (rule safe_parent, intro safe_steps datetime_codec.safe_field nNAInfo_codec.safe_field nintendoPresenceV2_codec.safe_field comment_codec.safe_field) simp_all
  then show "consumes_within (decode_FriendInfo mv)" "never_undefined (decode_FriendInfo mv)"
    using safe_run_all by blast+
qed

section \<open>BlacklistedPrincipal\<close>

record BlacklistedPrincipal =
  blp_principalBasicInfo :: PrincipalBasicInfo
  blp_gameKey :: GameKey
  blp_blacklistedSince :: time_point

definition encode_BlacklistedPrincipal :: "u8 \<Rightarrow> BlacklistedPrincipal \<Rightarrow> bytes" where
  "encode_BlacklistedPrincipal mv x = encode_Data mv @ with_header mv 0
     (encode_PrincipalBasicInfo mv (blp_principalBasicInfo x) @
      encode_GameKey mv (blp_gameKey x) @ encode_Datetime (blp_blacklistedSince x))"

definition decode_BlacklistedPrincipal :: "u8 \<Rightarrow> BlacklistedPrincipal decoder" where
  "decode_BlacklistedPrincipal mv d =
     bindE (decode_Data mv d) (\<lambda>parent. bindE (subspan d parent) (\<lambda>d.
     bindE (decodeHeader mv 0 d) (\<lambda>pos.
     bindE (dec_at (decode_PrincipalBasicInfo mv) d pos) (\<lambda>(blp_principalBasicInfo, pos).
     bindE (dec_at (decode_GameKey mv) d pos) (\<lambda>(blp_gameKey, pos).
     bindE (dec_at decode_Datetime d pos) (\<lambda>(blp_blacklistedSince, pos).
     Inr (\<lparr>blp_principalBasicInfo = blp_principalBasicInfo, blp_gameKey = blp_gameKey,
       blp_blacklistedSince = blp_blacklistedSince\<rparr>, pos)))))))"

definition blacklistedPrincipal_ok :: "u8 \<Rightarrow> BlacklistedPrincipal \<Rightarrow> bool" where
  "blacklistedPrincipal_ok mv x \<longleftrightarrow> mv < 3 \<and> principalBasicInfo_ok mv (blp_principalBasicInfo x) \<and>
     gameKey_ok mv (blp_gameKey x) \<and> whole_seconds (blp_blacklistedSince x)"

interpretation blacklistedPrincipal_codec: safe_codec "encode_BlacklistedPrincipal mv" "decode_BlacklistedPrincipal mv" "blacklistedPrincipal_ok mv" for mv
proof unfold_locales
  fix x rest assume "blacklistedPrincipal_ok mv x"
  then have ok: "mv < 3" "principalBasicInfo_ok mv (blp_principalBasicInfo x)" "gameKey_ok mv (blp_gameKey x)" "whole_seconds (blp_blacklistedSince x)"
    by (simp_all add: blacklistedPrincipal_ok_def)
  have "rest_at (encode_BlacklistedPrincipal mv x @ rest) 0 (encode_BlacklistedPrincipal mv x @ rest)" by simp
  then show "decode_BlacklistedPrincipal mv (encode_BlacklistedPrincipal mv x @ rest) = Inr (x, length (encode_BlacklistedPrincipal mv x))"
    unfolding decode_BlacklistedPrincipal_def
    apply (simp only: parent_step [OF ok(1)])
    apply (subst (asm) (2) encode_BlacklistedPrincipal_def)
    apply (simp only: encode_Data_old [OF ok(1)] append_Nil)
    apply (elim with_header_step)
    apply (simp only: append_assoc)
    apply ((erule field_steps datetime_codec.dec_field gameKey_codec.dec_field principalBasicInfo_codec.dec_field, (rule TrueI | rule ok), simp only: prod.case)+)
    apply (simp add: encode_BlacklistedPrincipal_def length_with_header encode_Data_old [OF ok(1)])
    done
next
  have "safe_run d (decode_BlacklistedPrincipal mv d)" for d
    unfolding decode_BlacklistedPrincipal_def
    by (rule safe_parent, intro safe_steps datetime_codec.safe_field gameKey_codec.safe_field principalBasicInfo_codec.safe_field) simp_all
  then show "consumes_within (decode_BlacklistedPrincipal mv)" "never_undefined (decode_BlacklistedPrincipal mv)"
    using safe_run_all by blast+
qed

section \<open>PersistentNotification\<close>

record PersistentNotification =
  pnt_unk1 :: u64
  pnt_unk2 :: u32
  pnt_unk3 :: u32
  pnt_unk4 :: u32
  pnt_unk5 :: string

definition encode_PersistentNotification :: "u8 \<Rightarrow> PersistentNotification \<Rightarrow> bytes" where
  "encode_PersistentNotification mv x = encode_Data mv @ with_header mv 0
     (encode_int (pnt_unk1 x) @ encode_int (pnt_unk2 x) @ encode_int (pnt_unk3 x) @
      encode_int (pnt_unk4 x) @ encode_string (pnt_unk5 x))"

definition decode_PersistentNotification :: "u8 \<Rightarrow> PersistentNotification decoder" where
  "decode_PersistentNotification mv d =
     bindE (decode_Data mv d) (\<lambda>parent. bindE (subspan d parent) (\<lambda>d.
     bindE (decodeHeader mv 0 d) (\<lambda>pos.
     bindE (dec_at decode_int d pos) (\<lambda>(pnt_unk1, pos).
     bindE (dec_at decode_int d pos) (\<lambda>(pnt_unk2, pos).
     bindE (dec_at decode_int d pos) (\<lambda>(pnt_unk3, pos).
     bindE (dec_at decode_int d pos) (\<lambda>(pnt_unk4, pos).
     bindE (dec_at decode_string d pos) (\<lambda>(pnt_unk5, pos).
     Inr (\<lparr>pnt_unk1 = pnt_unk1, pnt_unk2 = pnt_unk2, pnt_unk3 = pnt_unk3, pnt_unk4 = pnt_unk4,
       pnt_unk5 = pnt_unk5\<rparr>, pos)))))))))"

definition persistentNotification_ok :: "u8 \<Rightarrow> PersistentNotification \<Rightarrow> bool" where
  "persistentNotification_ok mv x \<longleftrightarrow> mv < 3 \<and> string_ok (pnt_unk5 x)"

interpretation persistentNotification_codec: safe_codec "encode_PersistentNotification mv" "decode_PersistentNotification mv" "persistentNotification_ok mv" for mv
proof unfold_locales
  fix x rest assume "persistentNotification_ok mv x"
  then have ok: "mv < 3" "string_ok (pnt_unk5 x)"
    by (simp_all add: persistentNotification_ok_def)
  have "rest_at (encode_PersistentNotification mv x @ rest) 0 (encode_PersistentNotification mv x @ rest)" by simp
  then show "decode_PersistentNotification mv (encode_PersistentNotification mv x @ rest) = Inr (x, length (encode_PersistentNotification mv x))"
    unfolding decode_PersistentNotification_def
    apply (simp only: parent_step [OF ok(1)])
    apply (subst (asm) (2) encode_PersistentNotification_def)
    apply (simp only: encode_Data_old [OF ok(1)] append_Nil)
    apply (elim with_header_step)
    apply (simp only: append_assoc)
    apply ((erule field_steps, (rule TrueI | rule ok), simp only: prod.case)+)
    apply (simp add: encode_PersistentNotification_def length_with_header encode_Data_old [OF ok(1)])
    done
next
  have "safe_run d (decode_PersistentNotification mv d)" for d
    unfolding decode_PersistentNotification_def
    by (rule safe_parent, intro safe_steps) simp_all
  then show "consumes_within (decode_PersistentNotification mv)" "never_undefined (decode_PersistentNotification mv)"
    using safe_run_all by blast+
qed

section \<open>NintendoNotificationEventGeneral\<close>

text \<open>
  The one class whose decoder counts the header of its parent.
\<close>

record NintendoNotificationEventGeneral =
  nge_u32_param :: u32
  nge_u64_param1 :: u64
  nge_u64_param2 :: u64
  nge_str_param :: string

definition encode_NintendoNotificationEventGeneral :: "u8 \<Rightarrow> NintendoNotificationEventGeneral \<Rightarrow> bytes" where
  "encode_NintendoNotificationEventGeneral mv x = encode_Data mv @ with_header mv 0
     (encode_int (nge_u32_param x) @ encode_int (nge_u64_param1 x) @
      encode_int (nge_u64_param2 x) @ encode_string (nge_str_param x))"

definition decode_NintendoNotificationEventGeneral :: "u8 \<Rightarrow> NintendoNotificationEventGeneral decoder" where
  "decode_NintendoNotificationEventGeneral mv d =
     bindE (decode_Data mv d) (\<lambda>parent. bindE (subspan d parent) (\<lambda>d.
     bindE (decodeHeader mv 0 d) (\<lambda>pos.
     bindE (dec_at decode_int d pos) (\<lambda>(nge_u32_param, pos).
     bindE (dec_at decode_int d pos) (\<lambda>(nge_u64_param1, pos).
     bindE (dec_at decode_int d pos) (\<lambda>(nge_u64_param2, pos).
     bindE (dec_at decode_string d pos) (\<lambda>(nge_str_param, pos).
     Inr (\<lparr>nge_u32_param = nge_u32_param, nge_u64_param1 = nge_u64_param1,
       nge_u64_param2 = nge_u64_param2, nge_str_param = nge_str_param\<rparr>, pos + parent))))))))"

definition nintendoNotificationEventGeneral_ok :: "u8 \<Rightarrow> NintendoNotificationEventGeneral \<Rightarrow> bool" where
  "nintendoNotificationEventGeneral_ok mv x \<longleftrightarrow> mv < 3 \<and> string_ok (nge_str_param x)"

interpretation nintendoNotificationEventGeneral_codec: wire_codec "encode_NintendoNotificationEventGeneral mv" "decode_NintendoNotificationEventGeneral mv" "nintendoNotificationEventGeneral_ok mv" for mv
proof unfold_locales
  fix x rest assume "nintendoNotificationEventGeneral_ok mv x"
  then have ok: "mv < 3" "string_ok (nge_str_param x)"
    by (simp_all add: nintendoNotificationEventGeneral_ok_def)
  have "rest_at (encode_NintendoNotificationEventGeneral mv x @ rest) 0 (encode_NintendoNotificationEventGeneral mv x @ rest)" by simp
  then show "decode_NintendoNotificationEventGeneral mv (encode_NintendoNotificationEventGeneral mv x @ rest) = Inr (x, length (encode_NintendoNotificationEventGeneral mv x))"
    unfolding decode_NintendoNotificationEventGeneral_def
    apply (simp only: parent_step [OF ok(1)])
    apply (subst (asm) (2) encode_NintendoNotificationEventGeneral_def)
    apply (simp only: encode_Data_old [OF ok(1)] append_Nil)
    apply (elim with_header_step)
    apply (simp only: append_assoc)
    apply ((erule field_steps, (rule TrueI | rule ok), simp only: prod.case)+)
    apply (simp add: encode_NintendoNotificationEventGeneral_def length_with_header encode_Data_old [OF ok(1)])
    done
qed

section \<open>NintendoCreateAccountData\<close>

record NintendoCreateAccountData =
  nca_nnaInfo :: NNAInfo
  nca_nexToken :: string
  nca_birthdate :: time_point
  nca_unk1 :: u64

definition encode_NintendoCreateAccountData :: "u8 \<Rightarrow> NintendoCreateAccountData \<Rightarrow> bytes" where
  "encode_NintendoCreateAccountData mv x = with_header mv 0
     (encode_NNAInfo mv (nca_nnaInfo x) @ encode_string (nca_nexToken x) @
      encode_Datetime (nca_birthdate x) @ encode_int (nca_unk1 x))"

definition decode_NintendoCreateAccountData :: "u8 \<Rightarrow> NintendoCreateAccountData decoder" where
  "decode_NintendoCreateAccountData mv d =
     bindE (decodeHeader mv 0 d) (\<lambda>pos.
     bindE (dec_at (decode_NNAInfo mv) d pos) (\<lambda>(nca_nnaInfo, pos).
     bindE (dec_at decode_string d pos) (\<lambda>(nca_nexToken, pos).
     bindE (dec_at decode_Datetime d pos) (\<lambda>(nca_birthdate, pos).
     bindE (dec_at decode_int d pos) (\<lambda>(nca_unk1, pos).
     Inr (\<lparr>nca_nnaInfo = nca_nnaInfo, nca_nexToken = nca_nexToken,
       nca_birthdate = nca_birthdate, nca_unk1 = nca_unk1\<rparr>, pos))))))"

definition nintendoCreateAccountData_ok :: "u8 \<Rightarrow> NintendoCreateAccountData \<Rightarrow> bool" where
  "nintendoCreateAccountData_ok mv x \<longleftrightarrow> nNAInfo_ok mv (nca_nnaInfo x) \<and> string_ok (nca_nexToken x) \<and>
     whole_seconds (nca_birthdate x)"

interpretation nintendoCreateAccountData_codec: safe_codec "encode_NintendoCreateAccountData mv" "decode_NintendoCreateAccountData mv" "nintendoCreateAccountData_ok mv" for mv
proof unfold_locales
  fix x rest assume "nintendoCreateAccountData_ok mv x"
  then have ok: "nNAInfo_ok mv (nca_nnaInfo x)" "string_ok (nca_nexToken x)" "whole_seconds (nca_birthdate x)"
    by (simp_all add: nintendoCreateAccountData_ok_def)
  have "rest_at (encode_NintendoCreateAccountData mv x @ rest) 0 (encode_NintendoCreateAccountData mv x @ rest)" by simp
  then show "decode_NintendoCreateAccountData mv (encode_NintendoCreateAccountData mv x @ rest) = Inr (x, length (encode_NintendoCreateAccountData mv x))"
    unfolding decode_NintendoCreateAccountData_def
    apply (subst (asm) (2) encode_NintendoCreateAccountData_def)
    apply (elim with_header_step)
    apply (simp only: append_assoc)
    apply ((erule field_steps datetime_codec.dec_field nNAInfo_codec.dec_field, (rule TrueI | rule ok), simp only: prod.case)+)
    apply (simp add: encode_NintendoCreateAccountData_def length_with_header)
    done
next
  have "safe_run d (decode_NintendoCreateAccountData mv d)" for d
    unfolding decode_NintendoCreateAccountData_def
    by (intro safe_steps datetime_codec.safe_field nNAInfo_codec.safe_field) simp_all
  then show "consumes_within (decode_NintendoCreateAccountData mv)" "never_undefined (decode_NintendoCreateAccountData mv)"
    using safe_run_all by blast+
qed

section \<open>NintendoNotificationEvent\<close>

record NintendoNotificationEvent =
  nne_type :: u32
  nne_sender :: u32
  nne_eventData :: AnyDataHolder

definition encode_NintendoNotificationEvent :: "u8 \<Rightarrow> NintendoNotificationEvent \<Rightarrow> bytes" where
  "encode_NintendoNotificationEvent mv x = with_header mv 0
     (encode_int (nne_type x) @ encode_int (nne_sender x) @
      encode_AnyDataHolder (nne_eventData x))"

definition decode_NintendoNotificationEvent :: "u8 \<Rightarrow> NintendoNotificationEvent decoder" where
  "decode_NintendoNotificationEvent mv d =
     bindE (decodeHeader mv 0 d) (\<lambda>pos.
     bindE (dec_at decode_int d pos) (\<lambda>(nne_type, pos).
     bindE (dec_at decode_int d pos) (\<lambda>(nne_sender, pos).
     bindE (dec_at decode_AnyDataHolder d pos) (\<lambda>(nne_eventData, pos).
     Inr (\<lparr>nne_type = nne_type, nne_sender = nne_sender, nne_eventData = nne_eventData\<rparr>, pos)))))"

definition nintendoNotificationEvent_ok :: "u8 \<Rightarrow> NintendoNotificationEvent \<Rightarrow> bool" where
  "nintendoNotificationEvent_ok mv x \<longleftrightarrow> AnyDataHolder_ok (nne_eventData x)"

interpretation nintendoNotificationEvent_codec: wire_codec "encode_NintendoNotificationEvent mv" "decode_NintendoNotificationEvent mv" "nintendoNotificationEvent_ok mv" for mv
proof unfold_locales
  fix x rest assume "nintendoNotificationEvent_ok mv x"
  then have ok: "AnyDataHolder_ok (nne_eventData x)"
    by (simp_all add: nintendoNotificationEvent_ok_def)
  have "rest_at (encode_NintendoNotificationEvent mv x @ rest) 0 (encode_NintendoNotificationEvent mv x @ rest)" by simp
  then show "decode_NintendoNotificationEvent mv (encode_NintendoNotificationEvent mv x @ rest) = Inr (x, length (encode_NintendoNotificationEvent mv x))"
    unfolding decode_NintendoNotificationEvent_def
    apply (subst (asm) (2) encode_NintendoNotificationEvent_def)
    apply (elim with_header_step)
    apply (simp only: append_assoc)
    apply ((erule field_steps adh_codec.dec_field, (rule TrueI | rule ok), simp only: prod.case)+)
    apply (simp add: encode_NintendoNotificationEvent_def length_with_header)
    done
qed

text \<open>\<^verbatim>\<open>getMethodForType\<close>: Miis, presences and requests go by the second method.\<close>

datatype NintendoNotificationType =
    NN_NONE | WENT_OFFLINE | MII_CHANGED | PREFERENCES_UPDATED | PRESENCE_UPDATED | FRIEND_REMOVED
  | FRIEND_REQUEST_RECEIVED | FRIEND_REQUEST_ACCEPTED | COMMENT_CHANGED

primrec nintendo_code :: "NintendoNotificationType \<Rightarrow> u32" where
  "nintendo_code NN_NONE = 0"
| "nintendo_code WENT_OFFLINE = 10"
| "nintendo_code MII_CHANGED = 21"
| "nintendo_code PREFERENCES_UPDATED = 23"
| "nintendo_code PRESENCE_UPDATED = 24"
| "nintendo_code FRIEND_REMOVED = 26"
| "nintendo_code FRIEND_REQUEST_RECEIVED = 27"
| "nintendo_code FRIEND_REQUEST_ACCEPTED = 30"
| "nintendo_code COMMENT_CHANGED = 33"

definition getMethodForType :: "NintendoNotificationType \<Rightarrow> u32" where
  "getMethodForType ty = (if ty \<in> {MII_CHANGED, PRESENCE_UPDATED, FRIEND_REQUEST_RECEIVED} then 2 else 1)"

end
