(* ===== verification/FriendsDb.thy ===== *)
theory FriendsDb
  imports Prelude
begin

text \<open>
  The tables of the friends service (\<^verbatim>\<open>migration_initial_friends\<close> of
  \<^verbatim>\<open>src/db/migrations/initial.cpp\<close>) and the SQL statements that run on them
  (\<^verbatim>\<open>src/db/sqlDatabase.cpp\<close>). A statement is a function on the tables: it returns its rows and the new
  tables, or \<open>None\<close> when a key, an index or a foreign key forbids it. A table is the list of its rows
  in the order of insertion, which is also the order in which a query without \<^verbatim>\<open>ORDER BY\<close> returns
  them here (SQL does not promise one). Times are seconds since the epoch. Whether the database
  answers at all is the caller's concern.
\<close>

section \<open>Tables\<close>

record UserInfo =
  ui_pid :: u32
  ui_username :: string
  ui_showPresence :: bool
  ui_showPlaying :: bool
  ui_blockRequests :: bool
  ui_nnaInfo :: bytes
  ui_presence :: bytes
  ui_comment :: bytes
  ui_lastOnline :: int

record Friendship =
  fsh_pid :: u32
  fsh_friendPid :: u32
  fsh_becameFriends :: int

record RequestRow =
  rqr_id :: int
  rqr_fromPid :: u32
  rqr_toPid :: u32
  rqr_expiresAt :: int
  rqr_createdAt :: int
  rqr_data :: bytes

record BlockRow =
  bkr_pid :: u32
  bkr_blockedPid :: u32
  bkr_createdAt :: int
  bkr_gameKey :: bytes

record NotificationRow =
  ntr_id :: int
  ntr_for :: u32
  ntr_value1 :: int
  ntr_value2 :: u32
  ntr_value3 :: u32
  ntr_value4 :: u32
  ntr_text :: string

record Tables =
  tb_users :: "UserInfo list"
  tb_friendships :: "Friendship list"
  tb_requests :: "RequestRow list"
  tb_blocks :: "BlockRow list"
  tb_notifications :: "NotificationRow list"
  tb_nextRequest :: int
  tb_nextNotification :: int

definition empty_tables :: Tables where
  "empty_tables = \<lparr>tb_users = [], tb_friendships = [], tb_requests = [], tb_blocks = [],
     tb_notifications = [], tb_nextRequest = 80000000, tb_nextNotification = 1\<rparr>"

type_synonym 'a statement = "Tables \<Rightarrow> ('a \<times> Tables) option"

text \<open>The two ids of a pair, the smaller one first: the unique indexes are on these.\<close>

definition uidx :: "u32 \<Rightarrow> u32 \<Rightarrow> u32 \<times> u32" where
  "uidx a b = (if a < b then (a, b) else (b, a))"

definition friendship_uidx :: "Friendship \<Rightarrow> u32 \<times> u32" where
  "friendship_uidx f = uidx (fsh_pid f) (fsh_friendPid f)"

definition request_uidx :: "RequestRow \<Rightarrow> u32 \<times> u32" where
  "request_uidx r = uidx (rqr_fromPid r) (rqr_toPid r)"

definition has_user :: "Tables \<Rightarrow> u32 \<Rightarrow> bool" where
  "has_user t p \<longleftrightarrow> p \<in> ui_pid ` set (tb_users t)"

section \<open>Queries\<close>

definition query :: "(Tables \<Rightarrow> 'a) \<Rightarrow> 'a statement" where
  "query q t = Some (q t, t)"

definition GET_USER_INFO_BY_PID :: "u32 \<Rightarrow> UserInfo option statement" where
  "GET_USER_INFO_BY_PID p = query (\<lambda>t. find (\<lambda>u. ui_pid u = p) (tb_users t))"

definition GET_USER_INFO_BY_USERNAME :: "string \<Rightarrow> UserInfo option statement" where
  "GET_USER_INFO_BY_USERNAME n = query (\<lambda>t. find (\<lambda>u. ui_username u = n) (tb_users t))"

text \<open>The rows of a user's friends: each friendship joined with the other user of the pair.\<close>

definition friends_of :: "u32 \<Rightarrow> Tables \<Rightarrow> (UserInfo \<times> int) list" where
  "friends_of p t =
     (if has_user t p
      then sort_key (\<lambda>(u, _). ui_pid u)
        (concat (map (\<lambda>f. map (\<lambda>u. (u, fsh_becameFriends f))
           (filter (\<lambda>u. ui_pid u \<in> {fsh_pid f, fsh_friendPid f} \<and> ui_pid u \<noteq> p) (tb_users t)))
         (filter (\<lambda>f. p \<in> {fsh_pid f, fsh_friendPid f}) (tb_friendships t))))
      else [])"

definition GET_FRIENDS_INFO :: "u32 \<Rightarrow> (UserInfo \<times> int) list statement" where
  "GET_FRIENDS_INFO p = query (friends_of p)"

text \<open>Requests, with the account data of the other user.\<close>

definition requests_with :: "(RequestRow \<Rightarrow> u32) \<Rightarrow> (RequestRow \<Rightarrow> bool) \<Rightarrow> Tables \<Rightarrow> (RequestRow \<times> bytes) list"
where
  "requests_with other sel t =
     concat (map (\<lambda>r. map (\<lambda>u. (r, ui_nnaInfo u)) (filter (\<lambda>u. ui_pid u = other r) (tb_users t)))
       (filter sel (tb_requests t)))"

definition GET_SENT_FRIEND_REQUESTS :: "u32 \<Rightarrow> (RequestRow \<times> bytes) list statement" where
  "GET_SENT_FRIEND_REQUESTS p = query (requests_with rqr_toPid (\<lambda>r. rqr_fromPid r = p))"

definition GET_RECEIVED_FRIEND_REQUESTS :: "u32 \<Rightarrow> (RequestRow \<times> bytes) list statement" where
  "GET_RECEIVED_FRIEND_REQUESTS p = query (requests_with rqr_fromPid (\<lambda>r. rqr_toPid r = p))"

text \<open>A \<^verbatim>\<open>LEFT JOIN\<close>: a blocked user without an account has no account data.\<close>

definition nna_of :: "Tables \<Rightarrow> u32 \<Rightarrow> bytes" where
  "nna_of t p = (case find (\<lambda>u. ui_pid u = p) (tb_users t) of None \<Rightarrow> [] | Some u \<Rightarrow> ui_nnaInfo u)"

definition GET_BLOCKED_FRIENDS :: "u32 \<Rightarrow> (BlockRow \<times> bytes) list statement" where
  "GET_BLOCKED_FRIENDS p =
     query (\<lambda>t. map (\<lambda>b. (b, nna_of t (bkr_blockedPid b))) (filter (\<lambda>b. bkr_pid b = p) (tb_blocks t)))"

text \<open>The id of a notification is read through 32 bits.\<close>

definition GET_PERSISTENT_NOTIFICATIONS :: "u32 \<Rightarrow> NotificationRow list statement" where
  "GET_PERSISTENT_NOTIFICATIONS p =
     query (\<lambda>t. map (\<lambda>n. n\<lparr>ntr_id := uint (word_of_int (ntr_id n) :: u32)\<rparr>)
       (filter (\<lambda>n. ntr_for n = p) (tb_notifications t)))"

section \<open>Users\<close>

text \<open>\<^verbatim>\<open>DBUserInfoUpdate\<close>: only what is given changes.\<close>

record UserInfoUpdate =
  uu_username :: "string option"
  uu_showPresence :: "bool option"
  uu_showPlaying :: "bool option"
  uu_blockRequests :: "bool option"
  uu_nnaInfo :: "bytes option"
  uu_presence :: "bytes option"
  uu_comment :: "bytes option"
  uu_lastOnline :: "int option"

definition no_update :: UserInfoUpdate where
  "no_update = \<lparr>uu_username = None, uu_showPresence = None, uu_showPlaying = None, uu_blockRequests = None,
     uu_nnaInfo = None, uu_presence = None, uu_comment = None, uu_lastOnline = None\<rparr>"

definition given :: "'a option \<Rightarrow> 'a \<Rightarrow> 'a" where
  "given new old = (case new of None \<Rightarrow> old | Some x \<Rightarrow> x)"

definition updated_user :: "UserInfoUpdate \<Rightarrow> UserInfo \<Rightarrow> UserInfo" where
  "updated_user c u =
     \<lparr>ui_pid = ui_pid u, ui_username = given (uu_username c) (ui_username u),
      ui_showPresence = given (uu_showPresence c) (ui_showPresence u),
      ui_showPlaying = given (uu_showPlaying c) (ui_showPlaying u),
      ui_blockRequests = given (uu_blockRequests c) (ui_blockRequests u),
      ui_nnaInfo = given (uu_nnaInfo c) (ui_nnaInfo u), ui_presence = given (uu_presence c) (ui_presence u),
      ui_comment = given (uu_comment c) (ui_comment u), ui_lastOnline = given (uu_lastOnline c) (ui_lastOnline u)\<rparr>"

definition UPDATE_USER_INFO :: "u32 \<Rightarrow> UserInfoUpdate \<Rightarrow> unit statement" where
  "UPDATE_USER_INFO p c t =
     (let us = map (\<lambda>u. if ui_pid u = p then updated_user c u else u) (tb_users t)
      in if distinct (map ui_username us) then Some ((), t\<lparr>tb_users := us\<rparr>) else None)"

definition INSERT_USER_INFO :: "UserInfo \<Rightarrow> unit statement" where
  "INSERT_USER_INFO u t =
     (if has_user t (ui_pid u) \<or> ui_username u \<in> ui_username ` set (tb_users t) then None
      else Some ((), t\<lparr>tb_users := tb_users t @ [u]\<rparr>))"

text \<open>The rows that refer to the user go with it.\<close>

definition DELETE_USER_INFO_BY_PID :: "u32 \<Rightarrow> unit statement" where
  "DELETE_USER_INFO_BY_PID p t = Some ((), t\<lparr>
     tb_users := filter (\<lambda>u. ui_pid u \<noteq> p) (tb_users t),
     tb_friendships := filter (\<lambda>f. fsh_pid f \<noteq> p \<and> fsh_friendPid f \<noteq> p) (tb_friendships t),
     tb_requests := filter (\<lambda>r. rqr_fromPid r \<noteq> p \<and> rqr_toPid r \<noteq> p) (tb_requests t),
     tb_blocks := filter (\<lambda>b. bkr_pid b \<noteq> p \<and> bkr_blockedPid b \<noteq> p) (tb_blocks t),
     tb_notifications := filter (\<lambda>n. ntr_for n \<noteq> p) (tb_notifications t)\<rparr>)"

section \<open>Friendships, requests and blocks\<close>

definition ADD_FRIEND :: "u32 \<Rightarrow> u32 \<Rightarrow> int \<Rightarrow> unit statement" where
  "ADD_FRIEND p q now t =
     (if \<not> has_user t p \<or> \<not> has_user t q \<or> uidx p q \<in> friendship_uidx ` set (tb_friendships t) then None
      else Some ((), t\<lparr>tb_friendships := tb_friendships t @
             [\<lparr>fsh_pid = p, fsh_friendPid = q, fsh_becameFriends = now\<rparr>]\<rparr>))"

definition DELETE_FRIEND :: "u32 \<Rightarrow> u32 \<Rightarrow> unit statement" where
  "DELETE_FRIEND p q t = Some ((), t\<lparr>tb_friendships :=
     filter (\<lambda>f. \<not> (fsh_pid f = p \<and> fsh_friendPid f = q \<or> fsh_pid f = q \<and> fsh_friendPid f = p))
       (tb_friendships t)\<rparr>)"

definition DELETE_ALL_FRIENDSHIPS_BY_PID :: "u32 \<Rightarrow> unit statement" where
  "DELETE_ALL_FRIENDSHIPS_BY_PID p t = Some ((), t\<lparr>tb_friendships :=
     filter (\<lambda>f. fsh_pid f \<noteq> p \<and> fsh_friendPid f \<noteq> p) (tb_friendships t)\<rparr>)"

text \<open>
  With an id the row of that id is replaced, and inserted if there is none; without one the next id is
  drawn. The index allows one request between two users, whichever of them sent it.
\<close>

definition requests_fit :: "Tables \<Rightarrow> RequestRow list \<Rightarrow> bool" where
  "requests_fit t rs \<longleftrightarrow> distinct (map request_uidx rs) \<and>
     list_all (\<lambda>r. has_user t (rqr_fromPid r) \<and> has_user t (rqr_toPid r)) rs"

definition INSERT_OR_UPDATE_FRIEND_REQUEST ::
  "int option \<Rightarrow> u32 \<Rightarrow> u32 \<Rightarrow> int \<Rightarrow> int \<Rightarrow> bytes \<Rightarrow> int statement" where
  "INSERT_OR_UPDATE_FRIEND_REQUEST i from to expires created d t =
     (let n = given i (tb_nextRequest t);
          row = \<lparr>rqr_id = n, rqr_fromPid = from, rqr_toPid = to, rqr_expiresAt = expires,
                 rqr_createdAt = created, rqr_data = d\<rparr>;
          rs = (if n \<in> rqr_id ` set (tb_requests t)
                then map (\<lambda>r. if rqr_id r = n then row else r) (tb_requests t)
                else tb_requests t @ [row])
      in if i = None \<and> n \<in> rqr_id ` set (tb_requests t) then None
         else if requests_fit t rs
         then Some (n, t\<lparr>tb_requests := rs, tb_nextRequest := max (tb_nextRequest t) (n + 1)\<rparr>)
         else None)"

definition DELETE_FRIEND_REQUEST :: "int \<Rightarrow> unit statement" where
  "DELETE_FRIEND_REQUEST i t = Some ((), t\<lparr>tb_requests := filter (\<lambda>r. rqr_id r \<noteq> i) (tb_requests t)\<rparr>)"

definition DELETE_ALL_FRIEND_REQUESTS_BY_PID :: "u32 \<Rightarrow> unit statement" where
  "DELETE_ALL_FRIEND_REQUESTS_BY_PID p t = Some ((), t\<lparr>tb_requests :=
     filter (\<lambda>r. rqr_fromPid r \<noteq> p \<and> rqr_toPid r \<noteq> p) (tb_requests t)\<rparr>)"

definition BLOCK_FRIEND :: "u32 \<Rightarrow> u32 \<Rightarrow> int \<Rightarrow> bytes \<Rightarrow> unit statement" where
  "BLOCK_FRIEND p q created gameKey t =
     (if \<not> has_user t p \<or> \<not> has_user t q \<or>
         (p, q) \<in> (\<lambda>b. (bkr_pid b, bkr_blockedPid b)) ` set (tb_blocks t) then None
      else Some ((), t\<lparr>tb_blocks := tb_blocks t @
             [\<lparr>bkr_pid = p, bkr_blockedPid = q, bkr_createdAt = created, bkr_gameKey = gameKey\<rparr>]\<rparr>))"

definition UNBLOCK_FRIEND :: "u32 \<Rightarrow> u32 \<Rightarrow> unit statement" where
  "UNBLOCK_FRIEND p q t = Some ((), t\<lparr>tb_blocks :=
     filter (\<lambda>b. \<not> (bkr_pid b = p \<and> bkr_blockedPid b = q)) (tb_blocks t)\<rparr>)"

definition DELETE_ALL_BLOCKS_BY_PID :: "u32 \<Rightarrow> unit statement" where
  "DELETE_ALL_BLOCKS_BY_PID p t = Some ((), t\<lparr>tb_blocks :=
     filter (\<lambda>b. bkr_pid b \<noteq> p \<and> bkr_blockedPid b \<noteq> p) (tb_blocks t)\<rparr>)"

section \<open>Notifications\<close>

definition INSERT_OR_UPDATE_PERSISTENT_NOTIFICATION ::
  "int option \<Rightarrow> u32 \<Rightarrow> int \<Rightarrow> u32 \<Rightarrow> u32 \<Rightarrow> u32 \<Rightarrow> string \<Rightarrow> int statement" where
  "INSERT_OR_UPDATE_PERSISTENT_NOTIFICATION i for v1 v2 v3 v4 txt t =
     (let n = given i (tb_nextNotification t);
          row = \<lparr>ntr_id = n, ntr_for = for, ntr_value1 = v1, ntr_value2 = v2, ntr_value3 = v3,
                 ntr_value4 = v4, ntr_text = txt\<rparr>;
          ns = (if n \<in> ntr_id ` set (tb_notifications t)
                then map (\<lambda>r. if ntr_id r = n then row else r) (tb_notifications t)
                else tb_notifications t @ [row])
      in if i = None \<and> n \<in> ntr_id ` set (tb_notifications t) then None
         else if has_user t for
         then Some (n, t\<lparr>tb_notifications := ns, tb_nextNotification := max (tb_nextNotification t) (n + 1)\<rparr>)
         else None)"

definition DELETE_PERSISTENT_NOTIFICATION :: "int \<Rightarrow> unit statement" where
  "DELETE_PERSISTENT_NOTIFICATION i t =
     Some ((), t\<lparr>tb_notifications := filter (\<lambda>n. ntr_id n \<noteq> i) (tb_notifications t)\<rparr>)"

definition DELETE_ALL_NOTIFICATIONS_BY_PID :: "u32 \<Rightarrow> unit statement" where
  "DELETE_ALL_NOTIFICATIONS_BY_PID p t =
     Some ((), t\<lparr>tb_notifications := filter (\<lambda>n. ntr_for n \<noteq> p) (tb_notifications t)\<rparr>)"

section \<open>The schema\<close>

text \<open>
  \<open>tables_ok\<close>: the keys, the unique indexes and the foreign keys of the schema; and the ids still to
  come are above the ones in use. Every statement keeps it.
\<close>

definition tables_ok :: "Tables \<Rightarrow> bool" where
  "tables_ok t \<longleftrightarrow>
     distinct (map ui_pid (tb_users t)) \<and> distinct (map ui_username (tb_users t)) \<and>
     distinct (map friendship_uidx (tb_friendships t)) \<and>
     (\<forall>f \<in> set (tb_friendships t). has_user t (fsh_pid f) \<and> has_user t (fsh_friendPid f)) \<and>
     distinct (map rqr_id (tb_requests t)) \<and> requests_fit t (tb_requests t) \<and>
     (\<forall>r \<in> set (tb_requests t). rqr_id r < tb_nextRequest t) \<and>
     distinct (map (\<lambda>b. (bkr_pid b, bkr_blockedPid b)) (tb_blocks t)) \<and>
     (\<forall>b \<in> set (tb_blocks t). has_user t (bkr_pid b) \<and> has_user t (bkr_blockedPid b)) \<and>
     distinct (map ntr_id (tb_notifications t)) \<and>
     (\<forall>n \<in> set (tb_notifications t). has_user t (ntr_for n) \<and> ntr_id n < tb_nextNotification t)"

definition statement_ok :: "'a statement \<Rightarrow> bool" where
  "statement_ok st \<longleftrightarrow> (\<forall>t a t'. tables_ok t \<longrightarrow> st t = Some (a, t') \<longrightarrow> tables_ok t')"

named_theorems schema_intros \<open>one fact per statement: it keeps the schema\<close>

lemma statement_okI:
  "(\<And>t a t'. tables_ok t \<Longrightarrow> st t = Some (a, t') \<Longrightarrow> tables_ok t') \<Longrightarrow> statement_ok st"
  by (auto simp: statement_ok_def)

lemma query_ok: "statement_ok (query q)"
  by (rule statement_okI) (simp add: query_def)

lemma queries_ok [schema_intros]:
  "statement_ok (GET_USER_INFO_BY_PID p)" "statement_ok (GET_USER_INFO_BY_USERNAME n)"
  "statement_ok (GET_FRIENDS_INFO p)" "statement_ok (GET_SENT_FRIEND_REQUESTS p)"
  "statement_ok (GET_RECEIVED_FRIEND_REQUESTS p)" "statement_ok (GET_BLOCKED_FRIENDS p)"
  "statement_ok (GET_PERSISTENT_NOTIFICATIONS p)"
  by (simp_all add: GET_USER_INFO_BY_PID_def GET_USER_INFO_BY_USERNAME_def GET_FRIENDS_INFO_def
      GET_SENT_FRIEND_REQUESTS_def GET_RECEIVED_FRIEND_REQUESTS_def GET_BLOCKED_FRIENDS_def
      GET_PERSISTENT_NOTIFICATIONS_def query_ok)

lemma has_user_cong: "tb_users t' = tb_users t \<Longrightarrow> has_user t' = has_user t"
  by (simp add: has_user_def fun_eq_iff)

lemma distinct_map_sub: "distinct (map f xs) \<Longrightarrow> distinct (map f (filter P xs))"
  by (simp add: distinct_map inj_on_def)

lemma tables_ok_friendships: "tables_ok t \<Longrightarrow> tables_ok (t\<lparr>tb_friendships := filter P (tb_friendships t)\<rparr>)"
  by (simp add: tables_ok_def distinct_map_sub has_user_def requests_fit_def)

lemma tables_ok_requests: "tables_ok t \<Longrightarrow> tables_ok (t\<lparr>tb_requests := filter P (tb_requests t)\<rparr>)"
  by (simp add: tables_ok_def distinct_map_sub has_user_def requests_fit_def list_all_iff)

lemma tables_ok_blocks: "tables_ok t \<Longrightarrow> tables_ok (t\<lparr>tb_blocks := filter P (tb_blocks t)\<rparr>)"
  by (simp add: tables_ok_def distinct_map_sub has_user_def requests_fit_def)

lemma tables_ok_notifications: "tables_ok t \<Longrightarrow> tables_ok (t\<lparr>tb_notifications := filter P (tb_notifications t)\<rparr>)"
  by (simp add: tables_ok_def distinct_map_sub has_user_def requests_fit_def)

lemma deletes_ok [schema_intros]:
  "statement_ok (DELETE_FRIEND p q)" "statement_ok (DELETE_ALL_FRIENDSHIPS_BY_PID p)"
  "statement_ok (DELETE_FRIEND_REQUEST i)" "statement_ok (DELETE_ALL_FRIEND_REQUESTS_BY_PID p)"
  "statement_ok (UNBLOCK_FRIEND p q)" "statement_ok (DELETE_ALL_BLOCKS_BY_PID p)"
  "statement_ok (DELETE_PERSISTENT_NOTIFICATION i)" "statement_ok (DELETE_ALL_NOTIFICATIONS_BY_PID p)"
  unfolding statement_ok_def DELETE_FRIEND_def DELETE_ALL_FRIENDSHIPS_BY_PID_def DELETE_FRIEND_REQUEST_def
    DELETE_ALL_FRIEND_REQUESTS_BY_PID_def UNBLOCK_FRIEND_def DELETE_ALL_BLOCKS_BY_PID_def
    DELETE_PERSISTENT_NOTIFICATION_def DELETE_ALL_NOTIFICATIONS_BY_PID_def
  using tables_ok_friendships tables_ok_requests tables_ok_blocks tables_ok_notifications by blast+

text \<open>The rows of a user can go once nothing refers to it.\<close>

lemma DELETE_USER_INFO_ok [schema_intros]: "statement_ok (DELETE_USER_INFO_BY_PID p)"
proof (rule statement_okI)
  fix t a t' assume ok: "tables_ok t" and run: "DELETE_USER_INFO_BY_PID p t = Some (a, t')"
  have user: "has_user t' q \<longleftrightarrow> has_user t q \<and> q \<noteq> p" for q
    using run by (auto simp: DELETE_USER_INFO_BY_PID_def has_user_def)
  have t': "tb_users t' = filter (\<lambda>u. ui_pid u \<noteq> p) (tb_users t)"
    "tb_friendships t' = filter (\<lambda>f. fsh_pid f \<noteq> p \<and> fsh_friendPid f \<noteq> p) (tb_friendships t)"
    "tb_requests t' = filter (\<lambda>r. rqr_fromPid r \<noteq> p \<and> rqr_toPid r \<noteq> p) (tb_requests t)"
    "tb_blocks t' = filter (\<lambda>b. bkr_pid b \<noteq> p \<and> bkr_blockedPid b \<noteq> p) (tb_blocks t)"
    "tb_notifications t' = filter (\<lambda>n. ntr_for n \<noteq> p) (tb_notifications t)"
    "tb_nextRequest t' = tb_nextRequest t" "tb_nextNotification t' = tb_nextNotification t"
    using run by (auto simp: DELETE_USER_INFO_BY_PID_def)
  show "tables_ok t'"
    using ok by (simp add: tables_ok_def requests_fit_def list_all_iff t' user distinct_map_sub)
qed

lemma tables_ok_users:
  assumes "tables_ok t" and "distinct (map ui_pid us)" and "distinct (map ui_username us)"
    and "ui_pid ` set (tb_users t) \<subseteq> ui_pid ` set us"
  shows "tables_ok (t\<lparr>tb_users := us\<rparr>)"
proof -
  let ?t = "t\<lparr>tb_users := us\<rparr>"
  have user: "has_user ?t q" if "has_user t q" for q
    using assms(4) that by (auto simp: has_user_def)
  show ?thesis
    unfolding tables_ok_def requests_fit_def list_all_iff
    using assms(1-3) user by (simp add: tables_ok_def requests_fit_def list_all_iff)
qed

lemma INSERT_USER_INFO_ok [schema_intros]: "statement_ok (INSERT_USER_INFO u)"
proof (rule statement_okI)
  fix t a t' assume ok: "tables_ok t" and run: "INSERT_USER_INFO u t = Some (a, t')"
  then have "tables_ok (t\<lparr>tb_users := tb_users t @ [u]\<rparr>)"
    by (intro tables_ok_users) (auto simp: INSERT_USER_INFO_def has_user_def tables_ok_def split: if_splits)
  then show "tables_ok t'" using run by (simp add: INSERT_USER_INFO_def split: if_splits)
qed

lemma UPDATE_USER_INFO_ok [schema_intros]: "statement_ok (UPDATE_USER_INFO p c)"
proof (rule statement_okI)
  fix t a t' assume ok: "tables_ok t" and run: "UPDATE_USER_INFO p c t = Some (a, t')"
  let ?us = "map (\<lambda>u. if ui_pid u = p then updated_user c u else u) (tb_users t)"
  have pids: "map ui_pid ?us = map ui_pid (tb_users t)" by (simp add: updated_user_def)
  have "tables_ok (t\<lparr>tb_users := ?us\<rparr>)"
  proof (rule tables_ok_users [OF ok])
    show "distinct (map ui_pid ?us)" unfolding pids using ok by (simp add: tables_ok_def)
    show "distinct (map ui_username ?us)"
      using run by (simp add: UPDATE_USER_INFO_def Let_def split: if_splits)
    have "set (map ui_pid ?us) = set (map ui_pid (tb_users t))" unfolding pids ..
    then show "ui_pid ` set (tb_users t) \<subseteq> ui_pid ` set ?us" by (simp only: set_map)
  qed
  then show "tables_ok t'" using run by (simp add: UPDATE_USER_INFO_def Let_def split: if_splits)
qed

lemma ADD_FRIEND_ok [schema_intros]: "statement_ok (ADD_FRIEND p q now)"
proof (rule statement_okI)
  fix t a t' assume ok: "tables_ok t" and run: "ADD_FRIEND p q now t = Some (a, t')"
  let ?f = "\<lparr>fsh_pid = p, fsh_friendPid = q, fsh_becameFriends = now\<rparr>"
  have t': "t' = t\<lparr>tb_friendships := tb_friendships t @ [?f]\<rparr>" and "has_user t p" "has_user t q"
    and "uidx p q \<notin> friendship_uidx ` set (tb_friendships t)"
    using run by (auto simp: ADD_FRIEND_def split: if_splits)
  then show "tables_ok t'"
    using ok by (simp add: t' tables_ok_def has_user_def requests_fit_def friendship_uidx_def)
qed

lemma BLOCK_FRIEND_ok [schema_intros]: "statement_ok (BLOCK_FRIEND p q c g)"
proof (rule statement_okI)
  fix t a t' assume ok: "tables_ok t" and run: "BLOCK_FRIEND p q c g t = Some (a, t')"
  let ?b = "\<lparr>bkr_pid = p, bkr_blockedPid = q, bkr_createdAt = c, bkr_gameKey = g\<rparr>"
  have t': "t' = t\<lparr>tb_blocks := tb_blocks t @ [?b]\<rparr>" and "has_user t p" "has_user t q"
    and "(p, q) \<notin> (\<lambda>b. (bkr_pid b, bkr_blockedPid b)) ` set (tb_blocks t)"
    using run by (auto simp: BLOCK_FRIEND_def split: if_splits)
  then show "tables_ok t'"
    using ok by (simp add: t' tables_ok_def has_user_def requests_fit_def)
qed

lemma map_replace_key:
  "(\<And>x. k x = n \<Longrightarrow> k row = n) \<Longrightarrow> map k (map (\<lambda>r. if k r = n then row else r) rs) = map k rs"
  by simp

lemma INSERT_OR_UPDATE_FRIEND_REQUEST_ok [schema_intros]:
  "statement_ok (INSERT_OR_UPDATE_FRIEND_REQUEST i from to ex cr d)"
proof (rule statement_okI)
  fix t a t' assume ok: "tables_ok t"
    and run: "INSERT_OR_UPDATE_FRIEND_REQUEST i from to ex cr d t = Some (a, t')"
  let ?n = "given i (tb_nextRequest t)"
  let ?row = "\<lparr>rqr_id = ?n, rqr_fromPid = from, rqr_toPid = to, rqr_expiresAt = ex, rqr_createdAt = cr, rqr_data = d\<rparr>"
  let ?rs = "if ?n \<in> rqr_id ` set (tb_requests t)
             then map (\<lambda>r. if rqr_id r = ?n then ?row else r) (tb_requests t) else tb_requests t @ [?row]"
  have t': "t' = t\<lparr>tb_requests := ?rs, tb_nextRequest := max (tb_nextRequest t) (?n + 1)\<rparr>" and fit: "requests_fit t ?rs"
    using run by (auto simp: INSERT_OR_UPDATE_FRIEND_REQUEST_def Let_def split: if_splits)
  have "map rqr_id (map (\<lambda>r. if rqr_id r = ?n then ?row else r) (tb_requests t)) = map rqr_id (tb_requests t)"
    by (rule map_replace_key) simp
  then have "distinct (map rqr_id ?rs)"
    using ok by (auto simp: tables_ok_def simp del: map_map)
  moreover have "\<forall>r \<in> set ?rs. rqr_id r < max (tb_nextRequest t) (?n + 1)"
    using ok by (auto simp: tables_ok_def)
  moreover have "requests_fit t' ?rs"
    using fit by (simp add: requests_fit_def t' has_user_def)
  ultimately show "tables_ok t'"
    using ok by (simp add: tables_ok_def t' has_user_def)
qed

lemma INSERT_OR_UPDATE_PERSISTENT_NOTIFICATION_ok [schema_intros]:
  "statement_ok (INSERT_OR_UPDATE_PERSISTENT_NOTIFICATION i for v1 v2 v3 v4 txt)"
proof (rule statement_okI)
  fix t a t' assume ok: "tables_ok t"
    and run: "INSERT_OR_UPDATE_PERSISTENT_NOTIFICATION i for v1 v2 v3 v4 txt t = Some (a, t')"
  let ?n = "given i (tb_nextNotification t)"
  let ?row = "\<lparr>ntr_id = ?n, ntr_for = for, ntr_value1 = v1, ntr_value2 = v2, ntr_value3 = v3, ntr_value4 = v4, ntr_text = txt\<rparr>"
  let ?ns = "if ?n \<in> ntr_id ` set (tb_notifications t)
             then map (\<lambda>r. if ntr_id r = ?n then ?row else r) (tb_notifications t) else tb_notifications t @ [?row]"
  have t': "t' = t\<lparr>tb_notifications := ?ns, tb_nextNotification := max (tb_nextNotification t) (?n + 1)\<rparr>"
    and user: "has_user t for"
    using run by (auto simp: INSERT_OR_UPDATE_PERSISTENT_NOTIFICATION_def Let_def split: if_splits)
  have "map ntr_id (map (\<lambda>r. if ntr_id r = ?n then ?row else r) (tb_notifications t)) = map ntr_id (tb_notifications t)"
    by (rule map_replace_key) simp
  then have "distinct (map ntr_id ?ns)"
    using ok by (auto simp: tables_ok_def simp del: map_map)
  moreover have "\<forall>n \<in> set ?ns. has_user t (ntr_for n) \<and> ntr_id n < max (tb_nextNotification t) (?n + 1)"
    using ok user by (auto simp: tables_ok_def)
  ultimately show "tables_ok t'"
    using ok by (simp add: tables_ok_def t' has_user_def requests_fit_def)
qed

end
