(* ===== verification/Friends.thy ===== *)
theory Friends
  imports Splatoon Auth FriendTypes FriendsDb
begin

text \<open>
  The state of the friends server (\<^verbatim>\<open>FriendsSecureRMC\<close>, \<^verbatim>\<open>src/nex/friends\<close>) and what its handlers are
  made of: the database and its transactions, replies, notifications, and the routines several
  handlers share. As for the game server a handler runs as one step over the local shared state. The
  clock (one time per handler), the tokens, which operations of the database fail, and the gRPC calls
  are the environment. Logging is left out.
\<close>

section \<open>State\<close>

text \<open>The parameters of a call.\<close>

datatype FriendsParams =
    RegisterGuest "StationURL list"
  | RegisterEx "StationURL list" AnyDataHolder
  | NintendoCreateAccount string string u32 string AnyDataHolder
  | UpdateAndGetAllInformation NNAInfo NintendoPresenceV2 time_point
  | AddFriend u32
  | AddFriendByName string
  | RemoveFriend u32
  | AddFriendRequest u32 u8 string u8 string GameKey time_point
  | CancelFriendRequest u64
  | AcceptFriendRequest u64
  | DeleteFriendRequest u64
  | DenyFriendRequest u64
  | MarkFriendRequestsAsReceived "u64 list"
  | AddBlackList BlacklistedPrincipal
  | RemoveBlackList u32
  | UpdatePresence NintendoPresenceV2
  | UpdateMii MiiV2
  | UpdateComment Comment
  | UpdatePreference PrincipalPreference
  | GetBasicInfo "u32 list"
  | DeletePersistentNotification "PersistentNotification list"
  | CheckSettingStatus
  | GetRequestBlockSettings "u32 list"

text \<open>
  \<open>fd_session\<close> is the copy of the tables that the open transaction works on, once it has run a
  command; \<open>fd_commands\<close> counts the operations on the database.
\<close>

record Friends =
  fd_rmc :: "FriendsParams RmcServer"
  fd_state :: LocalSharedState
  fd_nextRVConnId :: u32
  fd_nextCallId :: u32
  fd_out :: "Outgoing list"
  fd_tables :: Tables
  fd_session :: "Tables option"
  fd_commands :: nat

record FriendsEnv =
  fe_auth :: AuthEnv
  fe_jwtKey :: string
  fe_fails :: "nat \<Rightarrow> bool"
  fe_grpc_notify :: "string \<Rightarrow> ClientInfo \<Rightarrow> NintendoNotificationType \<Rightarrow> u32 \<Rightarrow> AnyDataHolder \<Rightarrow> bool"

definition FRIENDS_SERVER_ID :: string where "FRIENDS_SERVER_ID = ''00003200''"

definition FPD__FRIEND_ALREADY_EXISTS :: u32 where "FPD__FRIEND_ALREADY_EXISTS = 0x650013"
definition FPD__NOT_FRIEND :: u32 where "FPD__NOT_FRIEND = 0x650016"
definition FPD__INVALID_ACCOUNT :: u32 where "FPD__INVALID_ACCOUNT = 0x65001e"
definition FPD__BLACKLISTED_BY_ME :: u32 where "FPD__BLACKLISTED_BY_ME = 0x65001f"
definition FPD__MY_FRIEND_LIST_LIMIT_EXCEED :: u32 where "FPD__MY_FRIEND_LIST_LIMIT_EXCEED = 0x650022"
definition FPD__REQUEST_LIMIT_EXCEED :: u32 where "FPD__REQUEST_LIMIT_EXCEED = 0x650023"
definition FPD__INVALID_MESSAGE_ID :: u32 where "FPD__INVALID_MESSAGE_ID = 0x650024"
definition FPD__FRIEND_REQUEST_BLOCKED :: u32 where "FPD__FRIEND_REQUEST_BLOCKED = 0x650027"
definition FPD__FRIEND_LISTED_BY_ME :: u32 where "FPD__FRIEND_LISTED_BY_ME = 0x650029"
definition FPD__NOT_IN_MY_BLACKLIST :: u32 where "FPD__NOT_IN_MY_BLACKLIST = 0x65002a"
definition FPD__INCOMPATIBLE_ACCOUNT :: u32 where "FPD__INCOMPATIBLE_ACCOUNT = 0x65002b"
definition FPD__OPERATION_NOT_ALLOWED :: u32 where "FPD__OPERATION_NOT_ALLOWED = 0x65002e"
definition FPD__NOTIFICATION_NOT_FOUND :: u32 where "FPD__NOTIFICATION_NOT_FOUND = 0x650030"

section \<open>Time\<close>

text \<open>\<^verbatim>\<open>time_point_cast<seconds>\<close> cuts towards zero.\<close>

definition seconds_of :: "time_point \<Rightarrow> int" where
  "seconds_of t = (if t < 0 then - (- t div 1000000000) else t div 1000000000)"

definition of_seconds :: "int \<Rightarrow> time_point" where
  "of_seconds s = s * 1000000000"

definition fd_now :: "FriendsEnv \<Rightarrow> time_point" where
  "fd_now ev = ae_now (fe_auth ev)"

definition now_seconds :: "FriendsEnv \<Rightarrow> int" where
  "now_seconds ev = seconds_of (fd_now ev)"

definition year2000 :: int where "year2000 = 946684800"

section \<open>The database\<close>

text \<open>A command on the main connection: \<open>None\<close> when it does not succeed.\<close>

definition db_command :: "FriendsEnv \<Rightarrow> 'a statement \<Rightarrow> (Friends, 'a option) op" where
  "db_command ev st s =
     (let s' = s\<lparr>fd_commands := fd_commands s + 1\<rparr>
      in if fe_fails ev (fd_commands s) then (Inr None, s')
         else case st (fd_tables s) of
                None \<Rightarrow> (Inr None, s')
              | Some (a, t) \<Rightarrow> (Inr (Some a), s'\<lparr>fd_tables := t\<rparr>))"

definition working_tables :: "Friends \<Rightarrow> Tables" where
  "working_tables s = given (fd_session s) (fd_tables s)"

definition session_command :: "FriendsEnv \<Rightarrow> 'a statement \<Rightarrow> (Friends, 'a option) op" where
  "session_command ev st s =
     (let s' = s\<lparr>fd_commands := fd_commands s + 1\<rparr>
      in if fe_fails ev (fd_commands s) then (Inr None, s')
         else case st (working_tables s) of
                None \<Rightarrow> (Inr None, s')
              | Some (a, t) \<Rightarrow> (Inr (Some a), s'\<lparr>fd_session := Some t\<rparr>))"

text \<open>\<^verbatim>\<open>createSession\<close> throws when it cannot connect; then the transaction is begun.\<close>

definition startTransaction :: "FriendsEnv \<Rightarrow> (Friends, bool) op" where
  "startTransaction ev s =
     (let s' = s\<lparr>fd_commands := fd_commands s + 2, fd_session := None\<rparr>
      in if fe_fails ev (fd_commands s) then (Inl RuntimeError, s')
         else (Inr (\<not> fe_fails ev (fd_commands s + 1)), s'))"

definition commitTransaction :: "FriendsEnv \<Rightarrow> (Friends, bool) op" where
  "commitTransaction ev s =
     (let s' = s\<lparr>fd_commands := fd_commands s + 1\<rparr>
      in if fe_fails ev (fd_commands s) then (Inr False, s')
         else (Inr True, s'\<lparr>fd_tables := working_tables s, fd_session := None\<rparr>))"

definition rollbackTransaction :: "(Friends, unit) op" where
  "rollbackTransaction = modifyS (\<lambda>s. s\<lparr>fd_commands := fd_commands s + 1, fd_session := None\<rparr>)"

text \<open>Commands one after the other, up to the first that fails.\<close>

primrec session_commands :: "FriendsEnv \<Rightarrow> unit statement list \<Rightarrow> (Friends, bool) op" where
  "session_commands ev [] = returnS True"
| "session_commands ev (st # sts) =
     bindS (session_command ev st) (\<lambda>r. case r of None \<Rightarrow> returnS False | Some _ \<Rightarrow> session_commands ev sts)"

section \<open>Replies\<close>

definition fd_send :: "Outgoing \<Rightarrow> (Friends, unit) op" where
  "fd_send m = modifyS (\<lambda>s. if shouldStop (fd_rmc s) then s else s\<lparr>fd_out := fd_out s @ [m]\<rparr>)"

definition fd_reply :: "ClientInfo \<Rightarrow> Request \<Rightarrow> bytes list \<Rightarrow> (Friends, unit) op" where
  "fd_reply client req params = fd_send (OutResponse client (reply_to req) params)"

definition fd_refuse :: "ClientInfo \<Rightarrow> Request \<Rightarrow> u32 \<Rightarrow> (Friends, unit) op" where
  "fd_refuse client req err = fd_send (OutResponse client (createError req err) [])"

definition db_unavailable :: "ClientInfo \<Rightarrow> Request \<Rightarrow> (Friends, unit) op" where
  "db_unavailable client req = fd_refuse client req RENDEZ_VOUS__DATABASE_TEMPORARILY_UNAVAILABLE"

text \<open>
  The ways in which the handlers go on after a step of the database: with its rows, or they give up
  and say so, taking the transaction back if there is one.
\<close>

definition with_rows ::
  "FriendsEnv \<Rightarrow> ClientInfo \<Rightarrow> Request \<Rightarrow> 'a statement \<Rightarrow> ('a \<Rightarrow> (Friends, unit) op) \<Rightarrow> (Friends, unit) op" where
  "with_rows ev client req st k =
     bindS (db_command ev st) (\<lambda>r. case r of None \<Rightarrow> db_unavailable client req | Some a \<Rightarrow> k a)"

definition in_transaction ::
  "FriendsEnv \<Rightarrow> ClientInfo \<Rightarrow> Request \<Rightarrow> (Friends, unit) op \<Rightarrow> (Friends, unit) op" where
  "in_transaction ev client req k =
     bindS (startTransaction ev) (\<lambda>ok. if ok then k else db_unavailable client req)"

definition give_up :: "ClientInfo \<Rightarrow> Request \<Rightarrow> (Friends, unit) op" where
  "give_up client req = seqS rollbackTransaction (db_unavailable client req)"

definition with_session_rows ::
  "FriendsEnv \<Rightarrow> ClientInfo \<Rightarrow> Request \<Rightarrow> 'a statement \<Rightarrow> ('a \<Rightarrow> (Friends, unit) op) \<Rightarrow> (Friends, unit) op" where
  "with_session_rows ev client req st k =
     bindS (session_command ev st) (\<lambda>r. case r of None \<Rightarrow> give_up client req | Some a \<Rightarrow> k a)"

definition committed :: "FriendsEnv \<Rightarrow> ClientInfo \<Rightarrow> Request \<Rightarrow> (Friends, unit) op \<Rightarrow> (Friends, unit) op" where
  "committed ev client req k = bindS (commitTransaction ev) (\<lambda>ok. if ok then k else give_up client req)"

section \<open>Who is asking\<close>

definition not_guest :: "ClientInfo \<Rightarrow> Request \<Rightarrow> (Friends, unit) op \<Rightarrow> (Friends, unit) op" where
  "not_guest client req k = (if ci_pid client = 100 then fd_refuse client req CORE__ACCESS_DENIED else k)"

definition with_registered ::
  "u32 \<Rightarrow> (FriendsRegisteredClientInfo option \<Rightarrow> (Friends, 'a) op) \<Rightarrow> (Friends, 'a) op" where
  "with_registered pid k = readS (\<lambda>s. k (getFriendsRegisteredClientInfo (fd_state s) pid))"

definition registered_caller ::
  "ClientInfo \<Rightarrow> Request \<Rightarrow> (FriendsRegisteredClientInfo \<Rightarrow> (Friends, unit) op) \<Rightarrow> (Friends, unit) op" where
  "registered_caller client req k =
     not_guest client req (with_registered (ci_pid client) (\<lambda>ci. case ci of
         None \<Rightarrow> fd_refuse client req CORE__ACCESS_DENIED
       | Some info \<Rightarrow> k info))"

definition fd_change_state :: "(LocalSharedState \<Rightarrow> LocalSharedState) \<Rightarrow> (Friends, unit) op" where
  "fd_change_state f = modifyS (\<lambda>s. s\<lparr>fd_state := f (fd_state s)\<rparr>)"

section \<open>Notifications\<close>

definition holder :: "string \<Rightarrow> bytes \<Rightarrow> AnyDataHolder" where
  "holder ty d = \<lparr>adh_type = ty, adh_data = d\<rparr>"

text \<open>The call id is drawn before the receiver is looked for.\<close>

definition sendFriendsNotification ::
  "FriendsEnv \<Rightarrow> ClientInfo \<Rightarrow> NintendoNotificationType \<Rightarrow> u32 \<Rightarrow> AnyDataHolder \<Rightarrow> bool \<Rightarrow> (Friends, bool) op" where
  "sendFriendsNotification ev client ty sender d dontResend =
     readS (\<lambda>s. seqS (modifyS (\<lambda>s. s\<lparr>fd_nextCallId := fd_nextCallId s + 1\<rparr>))
       (if ci_serverId client = rmc_serverId (fd_rmc s) \<or> dontResend then
          (case pidMap (fd_rmc s) (ci_address client) of
             None \<Rightarrow> returnS False
           | Some _ \<Rightarrow> seqS (fd_send (OutRequest client
                 (new_request\<lparr>rq_protocolId := 100, rq_methodId := getMethodForType ty, rq_callId := fd_nextCallId s\<rparr>)
                 [encode_NintendoNotificationEvent (ci_minorVersion client)
                    \<lparr>nne_type = nintendo_code ty, nne_sender = sender, nne_eventData = d\<rparr>]))
               (returnS True))
        else (case getPublicFacingRPCAddress (fd_state s) (ci_serverId client) of
                None \<Rightarrow> returnS False
              | Some rpc \<Rightarrow> returnS (fe_grpc_notify ev rpc client ty sender d))))"

text \<open>The handlers ignore whether the notification arrives, and skip who is not registered.\<close>

definition notify_friend ::
  "FriendsEnv \<Rightarrow> u32 \<Rightarrow> u32 \<Rightarrow> (NintendoNotificationType \<times> AnyDataHolder) list \<Rightarrow> (Friends, unit) op" where
  "notify_friend ev pid sender events =
     with_registered pid (\<lambda>ci. case ci of
         None \<Rightarrow> returnS ()
       | Some info \<Rightarrow> forS events (\<lambda>(ty, d).
           bindS (sendFriendsNotification ev (fr_client info) ty sender d False) (\<lambda>_. returnS ())))"

text \<open>The time of an event, as \<^verbatim>\<open>UInt64::decode(Datetime(0, now).encode())\<close> reads it.\<close>

definition datetime_u64 :: "int \<Rightarrow> u64" where
  "datetime_u64 s = le_word (encode_Datetime (of_seconds s))"

definition general_event :: "u8 \<Rightarrow> u32 \<Rightarrow> u64 \<Rightarrow> int \<Rightarrow> string \<Rightarrow> AnyDataHolder" where
  "general_event mv p1 p2 t msg = holder ''NintendoNotificationEventGeneral''
     (encode_NintendoNotificationEventGeneral mv \<lparr>nge_u32_param = p1, nge_u64_param1 = p2,
        nge_u64_param2 = datetime_u64 t, nge_str_param = msg\<rparr>)"

section \<open>New objects\<close>

text \<open>What the constructors leave: zeros, empty texts, and the current time in every \<^verbatim>\<open>Datetime\<close>.\<close>

definition new_GameKey :: GameKey where "new_GameKey = \<lparr>gk_titleId = 0, gk_titleVersion = 0\<rparr>"

definition new_MiiV2 :: "time_point \<Rightarrow> MiiV2" where
  "new_MiiV2 now = \<lparr>mii_name = [], mii_unk1 = 0, mii_unk2 = 0, mii_miiData = [], mii_unk3 = now\<rparr>"

definition new_PrincipalBasicInfo :: "time_point \<Rightarrow> PrincipalBasicInfo" where
  "new_PrincipalBasicInfo now = \<lparr>pbi_pid = 0, pbi_NNID = [], pbi_mii = new_MiiV2 now, pbi_unk1 = 0\<rparr>"

definition new_NNAInfo :: "time_point \<Rightarrow> NNAInfo" where
  "new_NNAInfo now = \<lparr>nna_info = new_PrincipalBasicInfo now, nna_unk1 = 0, nna_unk2 = 0\<rparr>"

definition new_NintendoPresenceV2 :: NintendoPresenceV2 where
  "new_NintendoPresenceV2 = \<lparr>npr_changedFlags = 0, npr_online = False, npr_gameKey = new_GameKey, npr_unk1 = 0,
     npr_message = [], npr_unk2 = 0, npr_unk3 = 0, npr_gameServerId = 0, npr_unk4 = 0, npr_pid = 0,
     npr_gatheringId = 0, npr_appData = [], npr_unk5 = 0, npr_unk6 = 0, npr_unk7 = 0\<rparr>"

definition new_Comment :: "time_point \<Rightarrow> Comment" where
  "new_Comment now = \<lparr>cmt_unk1 = 0, cmt_message = [], cmt_lastModified = now\<rparr>"

definition new_FriendRequestMsg :: "time_point \<Rightarrow> FriendRequestMsg" where
  "new_FriendRequestMsg now = \<lparr>frm_id = 0, frm_isReceived = 0, frm_unk1 = 0, frm_message = [], frm_unk2 = 0,
     frm_unk3 = [], frm_gameKey = new_GameKey, frm_unk4 = now, frm_expiresOn = now\<rparr>"

definition new_FriendRequest :: "time_point \<Rightarrow> FriendRequest" where
  "new_FriendRequest now = \<lparr>frq_principalBasicInfo = new_PrincipalBasicInfo now,
     frq_friendRequestMsg = new_FriendRequestMsg now, frq_sentOn = now\<rparr>"

definition new_FriendInfo :: "time_point \<Rightarrow> FriendInfo" where
  "new_FriendInfo now = \<lparr>fin_nnaInfo = new_NNAInfo now, fin_presence = new_NintendoPresenceV2,
     fin_comment = new_Comment now, fin_becameFriends = now, fin_lastOnline = now, fin_unk1 = 0\<rparr>"

definition new_BlacklistedPrincipal :: "time_point \<Rightarrow> BlacklistedPrincipal" where
  "new_BlacklistedPrincipal now = \<lparr>blp_principalBasicInfo = new_PrincipalBasicInfo now, blp_gameKey = new_GameKey,
     blp_blacklistedSince = now\<rparr>"

section \<open>Stored objects\<close>

text \<open>Decoding what the database stores, for the version of the client that asks.\<close>

definition stored :: "'a decoder \<Rightarrow> bytes \<Rightarrow> 'a result" where
  "stored dec d = bindE (dec d) (\<lambda>(x, n). Inr x)"

definition friend_info :: "u8 \<Rightarrow> UserInfo \<Rightarrow> int \<Rightarrow> FriendInfo result" where
  "friend_info mv u became =
     bindE (stored (decode_NNAInfo mv) (ui_nnaInfo u)) (\<lambda>nna.
     bindE (stored (decode_NintendoPresenceV2 mv) (ui_presence u)) (\<lambda>presence.
     bindE (stored (decode_Comment mv) (ui_comment u)) (\<lambda>comment.
     Inr \<lparr>fin_nnaInfo = nna, fin_presence = presence, fin_comment = comment,
       fin_becameFriends = of_seconds became, fin_lastOnline = of_seconds (ui_lastOnline u), fin_unk1 = 0\<rparr>)))"

definition REJECTED :: u64 where "REJECTED = 0xFFFFFFFFFFFFFFFF"

text \<open>A request that its receiver sees: not rejected, and not one of the hidden, permanent ones.\<close>

definition visible_request :: "RequestRow \<Rightarrow> FriendRequestMsg \<Rightarrow> bool" where
  "visible_request r msg \<longleftrightarrow> frm_id msg \<noteq> REJECTED \<and> rqr_expiresAt r > year2000"

primrec visible_count :: "u8 \<Rightarrow> (RequestRow \<times> bytes) list \<Rightarrow> nat result" where
  "visible_count mv [] = Inr 0"
| "visible_count mv (x # xs) =
     bindE (stored (decode_FriendRequestMsg mv) (rqr_data (fst x))) (\<lambda>msg.
     bindE (visible_count mv xs) (\<lambda>n. Inr (if visible_request (fst x) msg then n + 1 else n)))"

section \<open>Shared routines\<close>

definition expired :: "FriendsEnv \<Rightarrow> RequestRow \<Rightarrow> bool" where
  "expired ev r \<longleftrightarrow> of_seconds (rqr_expiresAt r) < fd_now ev \<and> rqr_expiresAt r > year2000"

definition cleanup_statements :: "FriendsEnv \<Rightarrow> (RequestRow \<times> bytes) list \<Rightarrow> unit statement list" where
  "cleanup_statements ev rows = map (\<lambda>(r, _). DELETE_FRIEND_REQUEST (rqr_id r)) (filter (\<lambda>(r, _). expired ev r) rows)"

definition cleanupExpiredFriendRequests :: "FriendsEnv \<Rightarrow> u32 \<Rightarrow> (Friends, bool) op" where
  "cleanupExpiredFriendRequests ev pid =
     bindS (db_command ev (GET_SENT_FRIEND_REQUESTS pid)) (\<lambda>r. case r of None \<Rightarrow> returnS False | Some sent \<Rightarrow>
     bindS (db_command ev (GET_RECEIVED_FRIEND_REQUESTS pid)) (\<lambda>r. case r of None \<Rightarrow> returnS False | Some received \<Rightarrow>
     bindS (startTransaction ev) (\<lambda>ok. if \<not> ok then returnS False else
     bindS (session_commands ev (cleanup_statements ev sent @ cleanup_statements ev received)) (\<lambda>ok.
       if \<not> ok then seqS rollbackTransaction (returnS False) else
     bindS (commitTransaction ev) (\<lambda>ok.
       if ok then returnS True else seqS rollbackTransaction (returnS False))))))"

definition cleaned ::
  "FriendsEnv \<Rightarrow> ClientInfo \<Rightarrow> Request \<Rightarrow> u32 \<Rightarrow> (Friends, unit) op \<Rightarrow> (Friends, unit) op" where
  "cleaned ev client req pid k =
     bindS (cleanupExpiredFriendRequests ev pid) (\<lambda>ok. if ok then k else db_unavailable client req)"

text \<open>
  The lasting notification of a new friendship, for one of the two users: inserted to learn its id, and
  written again with it.
\<close>

definition became_friends :: "FriendsEnv \<Rightarrow> u32 \<Rightarrow> u32 \<Rightarrow> (Friends, bool) op" where
  "became_friends ev pid friendPid =
     bindS (session_command ev (INSERT_OR_UPDATE_PERSISTENT_NOTIFICATION None pid 0 friendPid pid 30 '''')) (\<lambda>r.
     case r of None \<Rightarrow> returnS False | Some nid \<Rightarrow>
     bindS (session_command ev (INSERT_OR_UPDATE_PERSISTENT_NOTIFICATION (Some nid) pid nid friendPid pid 30 '''')) (\<lambda>r.
     returnS (r \<noteq> None)))"

definition createBecameFriendsPersistentNotification :: "FriendsEnv \<Rightarrow> u32 \<Rightarrow> u32 \<Rightarrow> (Friends, unit) op" where
  "createBecameFriendsPersistentNotification ev pid friendPid =
     bindS (startTransaction ev) (\<lambda>ok. if \<not> ok then returnS () else
     bindS (became_friends ev pid friendPid) (\<lambda>ok. if \<not> ok then rollbackTransaction else
     bindS (became_friends ev friendPid pid) (\<lambda>ok. if \<not> ok then rollbackTransaction else
     bindS (commitTransaction ev) (\<lambda>ok. if ok then returnS () else rollbackTransaction))))"

section \<open>Disconnection, and the management interface\<close>

text \<open>\<^verbatim>\<open>pidMap[address]\<close> adds an unknown address, as user 0.\<close>

definition look_up_pid :: "PRUDPAddress \<Rightarrow> (Friends, u32) op" where
  "look_up_pid addr s =
     (case pidMap (fd_rmc s) addr of
        Some pid \<Rightarrow> (Inr pid, s)
      | None \<Rightarrow> (Inr 0, s\<lparr>fd_rmc := (fd_rmc s)\<lparr>pidMap := (pidMap (fd_rmc s))(addr \<mapsto> 0)\<rparr>\<rparr>))"

definition friends_onDisconnect :: "FriendsEnv \<Rightarrow> PRUDPAddress \<Rightarrow> (Friends, unit) op" where
  "friends_onDisconnect ev addr =
     bindS (look_up_pid addr) (\<lambda>pid.
     seqS (with_registered pid (\<lambda>ci. case ci of
         None \<Rightarrow> returnS ()
       | Some info \<Rightarrow>
           (let own = ci_pid (fr_client info) in
            bindS (db_command ev (UPDATE_USER_INFO own (no_update\<lparr>
              uu_presence := Some (encode_NintendoPresenceV2 0 new_NintendoPresenceV2),
              uu_lastOnline := Some (now_seconds ev)\<rparr>))) (\<lambda>_.
            seqS (if showOnline (fr_preference info)
                  then forS (fr_friends info) (\<lambda>f. notify_friend ev f own
                    [(WENT_OFFLINE, general_event 0 0 0 (now_seconds ev) '''')])
                  else returnS ())
              (fd_change_state (deleteFriendsRegisteredClientInfo pid))))))
       (modifyS (\<lambda>s. s\<lparr>fd_rmc := rmc_onDisconnect (fd_rmc s) addr\<rparr>)))"

definition deleteAccount :: "FriendsEnv \<Rightarrow> u32 \<Rightarrow> (Friends, bool) op" where
  "deleteAccount ev pid =
     bindS (startTransaction ev) (\<lambda>ok. if \<not> ok then returnS False else
     bindS (session_commands ev [DELETE_ALL_NOTIFICATIONS_BY_PID pid, DELETE_ALL_BLOCKS_BY_PID pid,
         DELETE_ALL_FRIEND_REQUESTS_BY_PID pid, DELETE_ALL_FRIENDSHIPS_BY_PID pid, DELETE_USER_INFO_BY_PID pid])
       (\<lambda>ok. if \<not> ok then seqS rollbackTransaction (returnS False) else
     bindS (commitTransaction ev) (\<lambda>ok.
       if ok then returnS True else seqS rollbackTransaction (returnS False))))"

definition friends_connected :: "Friends \<Rightarrow> nat" where
  "friends_connected s = getFriendsRegisteredClientCount (fd_state s)"

end
