(* ===== verification/FriendsCalls.thy ===== *)
theory FriendsCalls
  imports Friends
begin

text \<open>
  The handlers of the friends server, in the order of \<^verbatim>\<open>friendsSecure.cpp\<close>, and the table of
  registered calls.
\<close>

section \<open>Registration\<close>

text \<open>The address as the server sees it, and the next connection id.\<close>

definition friends_url :: "ClientInfo \<Rightarrow> StationURL" where
  "friends_url client = (let a = pa_address (ci_address client) in
     (empty_url PRUDP)\<lparr>su_ip := Some (ip_of_address a), su_port := Some (ip_port a), su_natf := Some 0,
       su_natm := Some 0, su_pmp := Some False, su_sid := Some 15, su_type := Some 3, su_upnp := Some False\<rparr>)"

definition fd_registered :: "ClientInfo \<Rightarrow> Request \<Rightarrow> (Friends, unit) op" where
  "fd_registered client req =
     readS (\<lambda>s. seqS (modifyS (\<lambda>s. s\<lparr>fd_nextRVConnId := fd_nextRVConnId s + 1\<rparr>))
       (fd_reply client req [encode_Result \<lparr>res_code = CORE__UNKNOWN, res_success = True\<rparr>,
          encode_int (fd_nextRVConnId s), encode_StationURL (friends_url client)]))"

definition register_guest :: "ClientInfo \<Rightarrow> Request \<Rightarrow> (Friends, unit) op" where
  "register_guest client req =
     (if ci_pid client \<noteq> 100 then fd_refuse client req CORE__ACCESS_DENIED else fd_registered client req)"

text \<open>The friends a registration takes over from the database, in the order of a \<^verbatim>\<open>std::set\<close>.\<close>

definition registration ::
  "ClientInfo \<Rightarrow> UserPreference \<Rightarrow> (UserInfo \<times> int) list \<Rightarrow> FriendsRegisteredClientInfo" where
  "registration client pref rows =
     \<lparr>fr_client = client, fr_pid = ci_pid client, fr_preference = pref,
      fr_friends = fold insort_insert (map (\<lambda>(u, _). ui_pid u) rows) []\<rparr>"

definition enrol ::
  "ClientInfo \<Rightarrow> Request \<Rightarrow> UserPreference \<Rightarrow> (UserInfo \<times> int) list \<Rightarrow> (Friends, unit) op" where
  "enrol client req pref rows =
     seqS (fd_change_state (setFriendsRegisteredClientInfo (registration client pref rows)))
       (fd_registered client req)"

definition new_user :: "FriendsEnv \<Rightarrow> u8 \<Rightarrow> u32 \<Rightarrow> string \<Rightarrow> NNAInfo \<Rightarrow> UserInfo" where
  "new_user ev mv pid username nna =
     \<lparr>ui_pid = pid, ui_username = username, ui_showPresence = True, ui_showPlaying = True,
      ui_blockRequests = False, ui_nnaInfo = encode_NNAInfo mv nna,
      ui_presence = encode_NintendoPresenceV2 mv new_NintendoPresenceV2,
      ui_comment = encode_Comment mv (new_Comment (fd_now ev)), ui_lastOnline = now_seconds ev\<rparr>"

definition enter :: "FriendsEnv \<Rightarrow> ClientInfo \<Rightarrow> Request \<Rightarrow> string \<Rightarrow> (Friends, unit) op" where
  "enter ev client req username =
     with_rows ev client req (GET_USER_INFO_BY_PID (ci_pid client)) (\<lambda>found. case found of
         None \<Rightarrow> with_rows ev client req
           (INSERT_USER_INFO (new_user ev (ci_minorVersion client) (ci_pid client) username (new_NNAInfo (fd_now ev))))
           (\<lambda>_. enrol client req \<lparr>showOnline = True, showPlaying = True, blockFriendRequest = False\<rparr> [])
       | Some u \<Rightarrow> with_rows ev client req (GET_FRIENDS_INFO (ci_pid client)) (\<lambda>rows.
           enrol client req \<lparr>showOnline = ui_showPresence u, showPlaying = ui_showPlaying u,
             blockFriendRequest = ui_blockRequests u\<rparr> rows))"

text \<open>What a call carries in an \<^verbatim>\<open>AnyDataHolder\<close> of the given name; only a malformed one is answered.\<close>

definition with_data ::
  "ClientInfo \<Rightarrow> Request \<Rightarrow> string \<Rightarrow> 'a decoder \<Rightarrow> AnyDataHolder \<Rightarrow> ('a \<Rightarrow> (Friends, unit) op) \<Rightarrow> (Friends, unit) op" where
  "with_data client req ty dec a k =
     (if adh_type a \<noteq> ty then fd_refuse client req CORE__INVALID_ARGUMENT
      else case dec (adh_data a) of
        Inl e \<Rightarrow> if e = MalformedException then fd_refuse client req CORE__INVALID_ARGUMENT else throwS e
      | Inr (x, _) \<Rightarrow> k x)"

definition fd_checkJWT :: "FriendsEnv \<Rightarrow> u32 \<Rightarrow> string \<Rightarrow> string option result" where
  "fd_checkJWT ev pid token = checkJWT (fe_auth ev) (fe_jwtKey ev) FRIENDS_SERVER_ID pid token"

definition registerEx :: "FriendsEnv \<Rightarrow> ClientInfo \<Rightarrow> Request \<Rightarrow> AnyDataHolder \<Rightarrow> (Friends, unit) op" where
  "registerEx ev client req d =
     not_guest client req (with_data client req ''NintendoLoginData'' decode_string d (\<lambda>token.
       bindS (liftS (fd_checkJWT ev (ci_pid client) token)) (\<lambda>name. case name of
           None \<Rightarrow> fd_reply client req [encode_Result \<lparr>res_code = CORE__ACCESS_DENIED, res_success = False\<rparr>,
             encode_int (0 :: u32), encode_StationURL (empty_url NONE)]
         | Some username \<Rightarrow> enter ev client req username)))"

definition RENDEZ_VOUS__USERNAME_ALREADY_EXISTS :: u32 where
  "RENDEZ_VOUS__USERNAME_ALREADY_EXISTS = 0x30066"

definition nintendoCreateAccount :: "FriendsEnv \<Rightarrow> ClientInfo \<Rightarrow> Request \<Rightarrow> AnyDataHolder \<Rightarrow> (Friends, unit) op" where
  "nintendoCreateAccount ev client0 req d =
     with_data client0 req ''NintendoCreateAccountData'' (decode_NintendoCreateAccountData (ci_minorVersion client0)) d
       (\<lambda>create.
         let pid = pbi_pid (nna_info (nca_nnaInfo create)); client = client0\<lparr>ci_pid := pid\<rparr>
         in bindS (liftS (fd_checkJWT ev pid (nca_nexToken create))) (\<lambda>name. case name of
              None \<Rightarrow> fd_refuse client req CORE__ACCESS_DENIED
            | Some username \<Rightarrow>
                with_rows ev client req (GET_USER_INFO_BY_PID pid) (\<lambda>found.
                  if found \<noteq> None then fd_refuse client req RENDEZ_VOUS__USERNAME_ALREADY_EXISTS
                  else with_rows ev client req
                    (INSERT_USER_INFO (new_user ev (ci_minorVersion client) pid username (nca_nnaInfo create)))
                    (\<lambda>_. fd_reply client req [encode_int pid, encode_string '''']))))"

section \<open>All information\<close>

text \<open>What the caller gets to see of the rows of the database.\<close>

primrec map_result :: "('a \<Rightarrow> 'b result) \<Rightarrow> 'a list \<Rightarrow> 'b list result" where
  "map_result f [] = Inr []"
| "map_result f (x # xs) = bindE (f x) (\<lambda>y. bindE (map_result f xs) (\<lambda>ys. Inr (y # ys)))"

definition basic_info_of :: "u8 \<Rightarrow> bytes \<Rightarrow> PrincipalBasicInfo result" where
  "basic_info_of mv d = bindE (stored (decode_NNAInfo mv) d) (\<lambda>n. Inr (nna_info n))"

text \<open>A sent request: neither its rejection nor its reception shows.\<close>

definition sent_request :: "u8 \<Rightarrow> RequestRow \<times> bytes \<Rightarrow> FriendRequest result" where
  "sent_request mv = (\<lambda>(r, nna).
     bindE (basic_info_of mv nna) (\<lambda>info.
     bindE (stored (decode_FriendRequestMsg mv) (rqr_data r)) (\<lambda>msg.
     let i = (if rqr_expiresAt r > year2000 then word_of_int (rqr_id r) else frm_id msg)
     in Inr \<lparr>frq_principalBasicInfo = info,
          frq_friendRequestMsg = msg\<lparr>frm_id := (if i = REJECTED then 0 else i), frm_isReceived := 0\<rparr>,
          frq_sentOn = of_seconds (rqr_createdAt r)\<rparr>)))"

text \<open>A received request; nothing for one that does not show.\<close>

definition received_request :: "u8 \<Rightarrow> RequestRow \<times> bytes \<Rightarrow> FriendRequest list result" where
  "received_request mv = (\<lambda>(r, nna).
     bindE (basic_info_of mv nna) (\<lambda>info.
     bindE (stored (decode_FriendRequestMsg mv) (rqr_data r)) (\<lambda>msg.
     Inr (if rqr_expiresAt r \<le> year2000 \<or> frm_id msg = REJECTED then []
          else [\<lparr>frq_principalBasicInfo = info, frq_friendRequestMsg = msg\<lparr>frm_id := word_of_int (rqr_id r)\<rparr>,
                 frq_sentOn = of_seconds (rqr_createdAt r)\<rparr>]))))"

definition blacklisted :: "u8 \<Rightarrow> BlockRow \<times> bytes \<Rightarrow> BlacklistedPrincipal result" where
  "blacklisted mv = (\<lambda>(b, nna).
     bindE (basic_info_of mv nna) (\<lambda>info.
     bindE (stored (decode_GameKey mv) (bkr_gameKey b)) (\<lambda>k.
     Inr \<lparr>blp_principalBasicInfo = info, blp_gameKey = k, blp_blacklistedSince = of_seconds (bkr_createdAt b)\<rparr>)))"

definition persistent_notification :: "NotificationRow \<Rightarrow> PersistentNotification" where
  "persistent_notification n = \<lparr>pnt_unk1 = word_of_int (ntr_value1 n), pnt_unk2 = ntr_value2 n,
     pnt_unk3 = ntr_value3 n, pnt_unk4 = ntr_value4 n, pnt_unk5 = ntr_text n\<rparr>"

definition all_information ::
  "u8 \<Rightarrow> UserInfo \<Rightarrow> (UserInfo \<times> int) list \<Rightarrow> (RequestRow \<times> bytes) list \<Rightarrow> (RequestRow \<times> bytes) list \<Rightarrow>
   (BlockRow \<times> bytes) list \<Rightarrow> NotificationRow list \<Rightarrow> bytes list result" where
  "all_information mv u friendRows sent received blocked notifications =
     bindE (stored (decode_Comment mv) (ui_comment u)) (\<lambda>statusMsg.
     bindE (map_result (\<lambda>(f, became). friend_info mv f became) friendRows) (\<lambda>friendList.
     bindE (map_result (sent_request mv) sent) (\<lambda>sentFriendRequests.
     bindE (map_result (received_request mv) received) (\<lambda>receivedFriendRequests.
     bindE (map_result (blacklisted mv) blocked) (\<lambda>blacklistedPrincipals.
     Inr [encode_PrincipalPreference mv \<lparr>ppf_showOnline = ui_showPresence u, ppf_showPlaying = ui_showPlaying u,
            ppf_blockFriendRequest = ui_blockRequests u\<rparr>,
          encode_Comment mv statusMsg, encode_list (encode_FriendInfo mv) friendList,
          encode_list (encode_FriendRequest mv) sentFriendRequests,
          encode_list (encode_FriendRequest mv) (concat receivedFriendRequests),
          encode_list (encode_BlacklistedPrincipal mv) blacklistedPrincipals, encode_bool False,
          encode_list (encode_PersistentNotification mv) (map persistent_notification notifications),
          encode_bool False])))))"

text \<open>
  The presence that goes out. For a user who hides the game the handlers fill in a second presence, but
  send the first one all the same.
\<close>

definition presence_events ::
  "u8 \<Rightarrow> u32 \<Rightarrow> UserPreference \<Rightarrow> NintendoPresenceV2 \<Rightarrow> (NintendoNotificationType \<times> AnyDataHolder) list" where
  "presence_events mv pid pref presence =
     (let sent = holder ''NintendoPresenceV2''
            (encode_NintendoPresenceV2 mv (presence\<lparr>npr_pid := pid, npr_online := True\<rparr>))
      in if showOnline pref \<and> showPlaying pref then [(PRESENCE_UPDATED, sent)]
         else if showOnline pref then [(PRESENCE_UPDATED, sent)] else [])"

definition mii_event :: "u8 \<Rightarrow> NNAInfo \<Rightarrow> NintendoNotificationType \<times> AnyDataHolder" where
  "mii_event mv nna = (MII_CHANGED, holder ''NNAInfo'' (encode_NNAInfo mv nna))"

definition tell_friends ::
  "FriendsEnv \<Rightarrow> ClientInfo \<Rightarrow> FriendsRegisteredClientInfo \<Rightarrow> (NintendoNotificationType \<times> AnyDataHolder) list \<Rightarrow>
   (Friends, unit) op" where
  "tell_friends ev client info events = forS (fr_friends info) (\<lambda>f. notify_friend ev f (ci_pid client) events)"

text \<open>The six queries are all run, before any of them is checked.\<close>

definition updateAndGetAllInformation ::
  "FriendsEnv \<Rightarrow> ClientInfo \<Rightarrow> Request \<Rightarrow> NNAInfo \<Rightarrow> NintendoPresenceV2 \<Rightarrow> (Friends, unit) op" where
  "updateAndGetAllInformation ev client req nnaInfo presence0 =
     registered_caller client req (\<lambda>info. cleaned ev client req (ci_pid client) (
     let pid = ci_pid client; mv = ci_minorVersion client; presence = presence0\<lparr>npr_online := True\<rparr>
     in bindS (db_command ev (GET_USER_INFO_BY_PID pid)) (\<lambda>user.
        bindS (db_command ev (GET_FRIENDS_INFO pid)) (\<lambda>friendRows.
        bindS (db_command ev (GET_SENT_FRIEND_REQUESTS pid)) (\<lambda>sent.
        bindS (db_command ev (GET_RECEIVED_FRIEND_REQUESTS pid)) (\<lambda>received.
        bindS (db_command ev (GET_BLOCKED_FRIENDS pid)) (\<lambda>blocked.
        bindS (db_command ev (GET_PERSISTENT_NOTIFICATIONS pid)) (\<lambda>notifications.
          if user = None \<or> friendRows = None \<or> sent = None \<or> received = None \<or> blocked = None \<or> notifications = None
          then db_unavailable client req
          else case the user of None \<Rightarrow> fd_refuse client req CORE__ACCESS_DENIED | Some u \<Rightarrow>
            with_rows ev client req (UPDATE_USER_INFO pid (no_update\<lparr>uu_nnaInfo := Some (encode_NNAInfo mv nnaInfo),
                uu_presence := Some (encode_NintendoPresenceV2 mv presence), uu_lastOnline := Some (now_seconds ev)\<rparr>)) (\<lambda>_.
            bindS (liftS (all_information mv u (the friendRows) (the sent) (the received) (the blocked)
              (the notifications))) (\<lambda>params.
            seqS (fd_reply client req params)
            (bindS (liftS (basic_info_of mv (ui_nnaInfo u))) (\<lambda>old.
              let miiChanged = (encode_MiiV2 mv (pbi_mii (nna_info nnaInfo)) \<noteq> encode_MiiV2 mv (pbi_mii old))
              in if showOnline (fr_preference info) \<or> miiChanged
                 then tell_friends ev client info (presence_events mv pid (fr_preference info) presence @
                        (if miiChanged then [mii_event mv nnaInfo] else []))
                 else returnS ()))))))))))))"

section \<open>Adding a friend\<close>

text \<open>The other user had asked: the request goes and the friendship comes.\<close>

definition tell_accepted :: "FriendsEnv \<Rightarrow> ClientInfo \<Rightarrow> u32 \<Rightarrow> (Friends, unit) op" where
  "tell_accepted ev client pid =
     with_registered pid (\<lambda>ci. case ci of
         None \<Rightarrow> returnS ()
       | Some other \<Rightarrow>
           seqS (fd_change_state (addFriendToRegisteredClientInfo pid (ci_pid client)))
           (bindS (db_command ev (GET_USER_INFO_BY_PID (ci_pid client))) (\<lambda>self. case self of
               Some (Some u) \<Rightarrow>
                 bindS (liftS (friend_info (ci_minorVersion client) u (now_seconds ev))) (\<lambda>fi.
                 bindS (sendFriendsNotification ev (fr_client other) FRIEND_REQUEST_ACCEPTED (ci_pid client)
                   (holder ''FriendInfo'' (encode_FriendInfo (ci_minorVersion client) fi)) False) (\<lambda>_. returnS ()))
             | _ \<Rightarrow> returnS ())))"

definition add_accepted ::
  "FriendsEnv \<Rightarrow> ClientInfo \<Rightarrow> Request \<Rightarrow> u32 \<Rightarrow> int \<Rightarrow> UserInfo \<Rightarrow> (Friends, unit) op" where
  "add_accepted ev client req pid requestId friend =
     with_session_rows ev client req (DELETE_FRIEND_REQUEST requestId) (\<lambda>_.
     with_session_rows ev client req (ADD_FRIEND (ci_pid client) pid (now_seconds ev)) (\<lambda>_.
     committed ev client req (
     seqS (createBecameFriendsPersistentNotification ev (ci_pid client) pid) (
     bindS (liftS (friend_info (ci_minorVersion client) friend (now_seconds ev))) (\<lambda>fi.
     seqS (fd_change_state (addFriendToRegisteredClientInfo (ci_pid client) pid)) (
     seqS (fd_reply client req [encode_FriendRequest (ci_minorVersion client) (new_FriendRequest (fd_now ev)),
       encode_FriendInfo (ci_minorVersion client) fi])
     (tell_accepted ev client pid)))))))"

text \<open>Otherwise a request is stored: hidden when there is no message, rejected when the receiver blocks.\<close>

definition tell_requested ::
  "FriendsEnv \<Rightarrow> ClientInfo \<Rightarrow> u32 \<Rightarrow> FriendRequestMsg \<Rightarrow> (Friends, unit) op" where
  "tell_requested ev client pid msg =
     with_registered pid (\<lambda>ci. case ci of
         None \<Rightarrow> returnS ()
       | Some other \<Rightarrow>
           bindS (db_command ev (GET_USER_INFO_BY_PID (ci_pid client))) (\<lambda>self. case self of
               Some (Some u) \<Rightarrow>
                 bindS (liftS (basic_info_of (ci_minorVersion client) (ui_nnaInfo u))) (\<lambda>info.
                 bindS (sendFriendsNotification ev (fr_client other) FRIEND_REQUEST_RECEIVED (ci_pid client)
                   (holder ''FriendRequest'' (encode_FriendRequest (ci_minorVersion client)
                     \<lparr>frq_principalBasicInfo = info, frq_friendRequestMsg = msg,
                      frq_sentOn = of_seconds (now_seconds ev)\<rparr>)) False) (\<lambda>_. returnS ()))
             | _ \<Rightarrow> returnS ()))"

definition stored_message :: "FriendsEnv \<Rightarrow> bool \<Rightarrow> FriendRequestMsg option \<Rightarrow> FriendRequestMsg" where
  "stored_message ev rejected message =
     (let msg = given message (new_FriendRequestMsg (fd_now ev))
      in if rejected then msg\<lparr>frm_id := REJECTED\<rparr> else msg)"

definition request_expiry :: "FriendRequestMsg option \<Rightarrow> int" where
  "request_expiry message = (case message of None \<Rightarrow> 0 | Some m \<Rightarrow> seconds_of (frm_expiresOn m))"

definition add_requested ::
  "FriendsEnv \<Rightarrow> ClientInfo \<Rightarrow> Request \<Rightarrow> u32 \<Rightarrow> FriendRequestMsg option \<Rightarrow> bool \<Rightarrow> UserInfo \<Rightarrow> (Friends, unit) op" where
  "add_requested ev client req pid message rejected friend =
     (if message \<noteq> None \<and> ui_blockRequests friend
      then seqS rollbackTransaction (fd_refuse client req FPD__FRIEND_REQUEST_BLOCKED)
      else let mv = ci_minorVersion client; msg = stored_message ev rejected message in
        with_session_rows ev client req (INSERT_OR_UPDATE_FRIEND_REQUEST None (ci_pid client) pid
          (request_expiry message) (now_seconds ev) (encode_FriendRequestMsg mv msg)) (\<lambda>i.
        committed ev client req (
        let sent = msg\<lparr>frm_id := (if message \<noteq> None then word_of_int i else 0)\<rparr> in
        bindS (liftS (basic_info_of mv (ui_nnaInfo friend))) (\<lambda>info.
        seqS (fd_reply client req [encode_FriendRequest mv \<lparr>frq_principalBasicInfo = info, frq_friendRequestMsg = sent,
            frq_sentOn = of_seconds (now_seconds ev)\<rparr>, encode_FriendInfo mv (new_FriendInfo (fd_now ev))])
          (if message \<noteq> None \<and> \<not> rejected then tell_requested ev client pid sent else returnS ())))))"

text \<open>A message is only sent to a user who has room for a friend; a bare \<^verbatim>\<open>addFriend\<close> does not ask.\<close>

definition friend_has_room ::
  "FriendsEnv \<Rightarrow> ClientInfo \<Rightarrow> Request \<Rightarrow> u32 \<Rightarrow> (Friends, unit) op \<Rightarrow> (Friends, unit) op" where
  "friend_has_room ev client req pid k =
     with_rows ev client req (GET_FRIENDS_INFO pid) (\<lambda>friendRows.
     with_rows ev client req (GET_SENT_FRIEND_REQUESTS pid) (\<lambda>sent.
     with_rows ev client req (GET_RECEIVED_FRIEND_REQUESTS pid) (\<lambda>received.
     bindS (liftS (visible_count (ci_minorVersion client) received)) (\<lambda>n.
       if length friendRows + length sent + n \<ge> 100 then fd_refuse client req FPD__REQUEST_LIMIT_EXCEED else k))))"

text \<open>The second half: \<open>received\<close> are the requests the caller has received.\<close>

definition add_checked ::
  "FriendsEnv \<Rightarrow> ClientInfo \<Rightarrow> Request \<Rightarrow> u32 \<Rightarrow> FriendRequestMsg option \<Rightarrow> (RequestRow \<times> bytes) list \<Rightarrow>
   (Friends, unit) op" where
  "add_checked ev client req pid message received =
     with_rows ev client req (GET_USER_INFO_BY_PID pid) (\<lambda>found. case found of
         None \<Rightarrow> fd_refuse client req FPD__INVALID_ACCOUNT
       | Some friend \<Rightarrow>
           (if message \<noteq> None then friend_has_room ev client req pid else (\<lambda>k. k))
           (with_rows ev client req (GET_BLOCKED_FRIENDS pid) (\<lambda>blocks.
             let rejected = list_ex (\<lambda>(b, _). bkr_blockedPid b = ci_pid client) blocks in
             in_transaction ev client req (case find (\<lambda>(r, _). rqr_fromPid r = pid) received of
                 Some (r, _) \<Rightarrow> if rejected then add_requested ev client req pid message rejected friend
                                else add_accepted ev client req pid (rqr_id r) friend
               | None \<Rightarrow> add_requested ev client req pid message rejected friend))))"

definition addFriendInternal ::
  "FriendsEnv \<Rightarrow> ClientInfo \<Rightarrow> Request \<Rightarrow> u32 \<Rightarrow> FriendRequestMsg option \<Rightarrow> (Friends, unit) op" where
  "addFriendInternal ev client req pid message =
     not_guest client req (if ci_pid client = pid then fd_refuse client req FPD__INCOMPATIBLE_ACCOUNT else
     registered_caller client req (\<lambda>info.
       if pid \<in> set (fr_friends info) then fd_refuse client req FPD__FRIEND_ALREADY_EXISTS else
     cleaned ev client req (ci_pid client) (cleaned ev client req pid (
     with_rows ev client req (GET_BLOCKED_FRIENDS (ci_pid client)) (\<lambda>blocks.
       if list_ex (\<lambda>(b, _). bkr_blockedPid b = pid) blocks then fd_refuse client req FPD__BLACKLISTED_BY_ME else
     with_rows ev client req (GET_SENT_FRIEND_REQUESTS (ci_pid client)) (\<lambda>sent.
       if list_ex (\<lambda>(r, _). rqr_toPid r = pid) sent then fd_refuse client req FPD__FRIEND_ALREADY_EXISTS else
     with_rows ev client req (GET_RECEIVED_FRIEND_REQUESTS (ci_pid client)) (\<lambda>received.
     bindS (liftS (visible_count (ci_minorVersion client) received)) (\<lambda>n.
       if length (fr_friends info) + length sent + n \<ge> 100
       then fd_refuse client req FPD__MY_FRIEND_LIST_LIMIT_EXCEED
       else add_checked ev client req pid message received))))))))"

definition addFriend :: "FriendsEnv \<Rightarrow> ClientInfo \<Rightarrow> Request \<Rightarrow> u32 \<Rightarrow> (Friends, unit) op" where
  "addFriend ev client req pid = addFriendInternal ev client req pid None"

definition addFriendByName :: "FriendsEnv \<Rightarrow> ClientInfo \<Rightarrow> Request \<Rightarrow> string \<Rightarrow> (Friends, unit) op" where
  "addFriendByName ev client req username =
     not_guest client req (with_rows ev client req (GET_USER_INFO_BY_USERNAME username) (\<lambda>found. case found of
         None \<Rightarrow> fd_refuse client req FPD__INVALID_ACCOUNT
       | Some u \<Rightarrow> addFriend ev client req (ui_pid u)))"

definition addFriendRequest ::
  "FriendsEnv \<Rightarrow> ClientInfo \<Rightarrow> Request \<Rightarrow> u32 \<Rightarrow> u8 \<Rightarrow> string \<Rightarrow> u8 \<Rightarrow> string \<Rightarrow> GameKey \<Rightarrow> time_point \<Rightarrow> (Friends, unit) op"
where
  "addFriendRequest ev client req pid unk1 message unk2 unk3 gameKey unk4 =
     addFriendInternal ev client req pid (Some ((new_FriendRequestMsg (fd_now ev))\<lparr>frm_unk1 := unk1,
       frm_message := message, frm_unk2 := unk2, frm_unk3 := unk3, frm_gameKey := gameKey, frm_unk4 := unk4,
       frm_expiresOn := of_seconds (now_seconds ev + 30 * 86400)\<rparr>))"

section \<open>Removing a friend\<close>

text \<open>
  Without a friendship it is a sent request that is removed. When the query for the sent requests
  fails, its answer is read all the same, which throws.
\<close>

definition remove_request ::
  "FriendsEnv \<Rightarrow> ClientInfo \<Rightarrow> Request \<Rightarrow> u32 \<Rightarrow> (RequestRow \<times> bytes) list \<Rightarrow> (Friends, unit) op" where
  "remove_request ev client req pid sent = (case find (\<lambda>(r, _). rqr_toPid r = pid) sent of
       None \<Rightarrow> fd_refuse client req FPD__NOT_FRIEND
     | Some (r, _) \<Rightarrow>
         with_rows ev client req (DELETE_FRIEND_REQUEST (rqr_id r)) (\<lambda>_.
         seqS (fd_reply client req [])
           (if rqr_expiresAt r > year2000
            then notify_friend ev pid (ci_pid client) [(FRIEND_REMOVED,
                   general_event (ci_minorVersion client) pid (word_of_int (rqr_id r)) (now_seconds ev) '''')]
            else returnS ())))"

definition became_notice :: "u32 \<Rightarrow> u32 \<Rightarrow> NotificationRow \<Rightarrow> bool" where
  "became_notice owner friend n \<longleftrightarrow> ntr_value4 n = 30 \<and> ntr_value3 n = owner \<and> ntr_value2 n = friend"

text \<open>The friendship is deleted on the main connection, its notifications in the transaction.\<close>

definition remove_friendship :: "FriendsEnv \<Rightarrow> ClientInfo \<Rightarrow> Request \<Rightarrow> u32 \<Rightarrow> (Friends, unit) op" where
  "remove_friendship ev client req pid =
     with_rows ev client req (GET_PERSISTENT_NOTIFICATIONS (ci_pid client)) (\<lambda>own.
     with_rows ev client req (GET_PERSISTENT_NOTIFICATIONS pid) (\<lambda>others.
     in_transaction ev client req (
     with_rows ev client req (DELETE_FRIEND (ci_pid client) pid) (\<lambda>_.
     bindS (session_commands ev (map (\<lambda>n. DELETE_PERSISTENT_NOTIFICATION (ntr_id n))
       (filter (became_notice (ci_pid client) pid) own @ filter (became_notice pid (ci_pid client)) others))) (\<lambda>ok.
       if \<not> ok then give_up client req else
     committed ev client req (
     seqS (fd_reply client req []) (
     seqS (fd_change_state (removeFriendFromRegisteredClientInfo (ci_pid client) pid))
     (with_registered pid (\<lambda>ci. case ci of None \<Rightarrow> returnS () | Some _ \<Rightarrow>
       seqS (fd_change_state (removeFriendFromRegisteredClientInfo pid (ci_pid client)))
       (notify_friend ev pid (ci_pid client) [(FRIEND_REMOVED,
         general_event (ci_minorVersion client) pid 0 (now_seconds ev) '''')]))))))))))"

definition removeFriend :: "FriendsEnv \<Rightarrow> ClientInfo \<Rightarrow> Request \<Rightarrow> u32 \<Rightarrow> (Friends, unit) op" where
  "removeFriend ev client req pid =
     registered_caller client req (\<lambda>info. cleaned ev client req (ci_pid client) (
       if pid \<in> set (fr_friends info) then remove_friendship ev client req pid
       else bindS (db_command ev (GET_SENT_FRIEND_REQUESTS (ci_pid client))) (\<lambda>sent. case sent of
           None \<Rightarrow> throwS RuntimeError
         | Some rows \<Rightarrow> remove_request ev client req pid rows)))"

end
