(* ===== verification/Prudp.thy ===== *)
theory Prudp
  imports Effects Kerberos Rmc Params Strings "HOL-Library.AList"
begin

text \<open>
  The state of \<^verbatim>\<open>nex::prudp::Server\<close> (\<^verbatim>\<open>src/nex/prudp/server.hpp\<close>) and the half of \<^verbatim>\<open>server.cpp\<close>
  that sends: payload encoders, fragmentation, acknowledgements, retransmission. A routine is a
  function of the state with an outcome (\<^theory_text>\<open>op\<close>). The recursive mutexes make every entry point one
  atomic step, which sees one reading \<open>steady\<close> of the clock. Datagrams handed to the socket are
  appended to \<open>sent_datagrams\<close>; logging is left out.
\<close>

section \<open>Constants and environment\<close>

definition PING_INTERVAL :: int where "PING_INTERVAL = 20000"
definition MAX_PACKET_QUEUE_SIZE :: nat where "MAX_PACKET_QUEUE_SIZE = 100"
definition MAX_RETRIES :: nat where "MAX_RETRIES = 3"
definition RETRY_INTERVAL :: int where "RETRY_INTERVAL = 1000"
definition MAX_PACKET_SIZE :: nat where "MAX_PACKET_SIZE = 962"

text \<open>The digests, the monotonic clock in milliseconds, and the wall clock the tickets are dated by.\<close>

record Env =
  crypto :: Crypto
  steady :: int
  wall :: time_point

section \<open>Payload encoders\<close>

record PayloadEncoder =
  encoders :: "Encoder list"
  pe_sessionKey :: bytes

text \<open>The key of the next substream.\<close>

definition next_key :: "bytes \<Rightarrow> bytes" where
  "next_key key =
     (let h = length key div 2
      in map (\<lambda>j. if j < h then key ! j + (key ! j + of_nat (h + 1) - of_nat j) else key ! j)
           [0..<length key])"

fun substream_encoders :: "nat \<Rightarrow> bytes \<Rightarrow> Encoder list result" where
  "substream_encoders 0 key = Inr []"
| "substream_encoders (Suc n) key =
     bindE (Encoder_init key) (\<lambda>e.
     bindE (substream_encoders n (next_key key)) (\<lambda>es. Inr (e # es)))"

text \<open>
  The loop counts substreams in a byte: with a maximum of 255 it does not end, and the model marks
  that configuration as undefined.
\<close>

definition PayloadEncoder_init :: "bytes \<Rightarrow> u8 \<Rightarrow> PayloadEncoder result" where
  "PayloadEncoder_init key maxSubstreamId =
     (if maxSubstreamId = 255 then Inl UndefinedAccess
      else bindE (substream_encoders (unat maxSubstreamId + 1) key) (\<lambda>es.
           Inr \<lparr>encoders = es, pe_sessionKey = key\<rparr>))"

definition getReliableEncoder :: "PayloadEncoder \<Rightarrow> u8 \<Rightarrow> Encoder result" where
  "getReliableEncoder pe sub =
     (if unat sub < length (encoders pe) then Inr (encoders pe ! unat sub) else Inl UndefinedAccess)"

definition setReliableEncoder :: "u8 \<Rightarrow> Encoder \<Rightarrow> PayloadEncoder \<Rightarrow> PayloadEncoder" where
  "setReliableEncoder sub e pe = pe\<lparr>encoders := (encoders pe)[unat sub := e]\<rparr>"

definition combineKeys :: "Crypto \<Rightarrow> bytes \<Rightarrow> bytes \<Rightarrow> bytes" where
  "combineKeys c a b = MD5 c (a @ b)"

definition getUnreliableEncoder :: "Crypto \<Rightarrow> PayloadEncoder \<Rightarrow> Packet \<Rightarrow> Encoder result" where
  "getUnreliableEncoder c pe p =
     (let baseKey = combineKeys c (pe_sessionKey pe) [0x18, 0xd8, 0x23, 0x34, 0x37, 0xe4, 0xe3, 0xfe]
                  @ combineKeys c (pe_sessionKey pe) [0x23, 0x3e, 0x60, 0x01, 0x23, 0xcd, 0xab, 0x80]
      in if length baseKey < 32 then Inl UndefinedAccess
         else Encoder_init (baseKey[0 := baseKey ! 0 + ucast (seqId p),
                1 := baseKey ! 1 + ucast (drop_bit 8 (seqId p)),
                31 := baseKey ! 31 + sessionId p]))"

section \<open>Clients, delayed packets, the server\<close>

record Substream =
  st_seqId :: u16
  recvSeqId :: u16
  packetQueue :: "Packet list"
  nonAckedPackets :: "(u16 \<times> int) list"

definition new_substream :: Substream where
  "new_substream = \<lparr>st_seqId = 1, recvSeqId = 0, packetQueue = [], nonAckedPackets = []\<rparr>"

record PrudpClient =
  cl_encoder :: PayloadEncoder
  cl_minorVersion :: u8
  cl_supportedFunctions :: u32
  unreliableSeqId :: u16
  cl_remoteSignature :: bytes
  cl_sessionId :: u8
  cl_pid :: u32
  cl_sessionKey :: bytes
  substreams :: "Substream list"
  nextPing :: int

record DelayedPacket =
  dp_addr :: PRUDPAddress
  numRetries :: nat
  dp_packet :: Packet

text \<open>
  The functions an RMC server registers. The state \<open>'r\<close> of all RMC servers is threaded through
  them; what they send on the connection is returned.
\<close>

record 'r RMCServerInfo =
  startFunc :: "'r \<Rightarrow> 'r"
  stopFunc :: "'r \<Rightarrow> 'r"
  connectFunc :: "PRUDPAddress \<Rightarrow> u32 \<Rightarrow> 'r \<Rightarrow> 'r"
  disconnectFunc :: "PRUDPAddress \<Rightarrow> 'r \<Rightarrow> 'r"
  dataFunc :: "PRUDPAddress \<Rightarrow> u8 \<Rightarrow> u8 \<Rightarrow> bytes \<Rightarrow> 'r \<Rightarrow> ('r \<times> sent list) result"

record 'r PrudpServer =
  majorVersion :: nat
  sv_accessKey :: bytes
  sv_friends :: bool
  sv_minorVersion :: u8
  sv_supportedFunctions :: u32
  sv_maxSubstreamId :: u8
  sv_initSeqIdUnreliable :: u16
  auth :: bool
  sv_pid :: u32
  securePasswd :: bytes
  clients :: "PRUDPAddress \<rightharpoonup> PrudpClient"
  pidToAddr :: "u32 \<rightharpoonup> PRUDPAddress"
  proxyMap :: "IPv4Addr \<rightharpoonup> IPv4Addr"
  knownProxies :: "IPv4Addr list"
  nextSessionId :: u8
  delayedPackets :: "(int \<times> DelayedPacket) list"
  registeredServers :: "u8 \<rightharpoonup> 'r RMCServerInfo"
  rmc :: 'r
  sent_datagrams :: "(IPv4Addr \<times> bytes) list"

type_synonym ('r, 'a) srv = "('r PrudpServer, 'a) op"

text \<open>The constructor: a version 0 server has fixed protocol parameters.\<close>

definition PrudpServer_init ::
  "nat \<Rightarrow> bytes \<Rightarrow> bool \<Rightarrow> u32 \<Rightarrow> bytes \<Rightarrow> bool \<Rightarrow> u8 \<Rightarrow> u32 \<Rightarrow> u8 \<Rightarrow> u16 \<Rightarrow> IPv4Addr list \<Rightarrow> 'r
    \<Rightarrow> 'r PrudpServer" where
  "PrudpServer_init major key ath pid passwd frs minor funs maxSub initSeq proxies r =
     \<lparr>majorVersion = major, sv_accessKey = key, sv_friends = frs,
      sv_minorVersion = (if major = 0 then 0 else minor),
      sv_supportedFunctions = (if major = 0 then 0 else funs),
      sv_maxSubstreamId = (if major = 0 then 0 else maxSub),
      sv_initSeqIdUnreliable = (if major = 0 then 1 else initSeq),
      auth = ath, sv_pid = pid, securePasswd = passwd, clients = (\<lambda>_. None),
      pidToAddr = (\<lambda>_. None), proxyMap = (\<lambda>_. None), knownProxies = proxies, nextSessionId = 0,
      delayedPackets = [], registeredServers = (\<lambda>_. None), rmc = r, sent_datagrams = []\<rparr>"

text \<open>\<^verbatim>\<open>std::map::insert\<close> keeps an entry that is there.\<close>

definition registerRMCServer :: "u8 \<Rightarrow> 'r RMCServerInfo \<Rightarrow> 'r PrudpServer \<Rightarrow> 'r PrudpServer" where
  "registerRMCServer port info s =
     (case registeredServers s port of
        None \<Rightarrow> s\<lparr>registeredServers := (registeredServers s)(port \<mapsto> info)\<rparr>
      | Some _ \<Rightarrow> s)"

definition v1 :: "'r PrudpServer \<Rightarrow> bool" where
  "v1 s \<longleftrightarrow> majorVersion s \<noteq> 0"

text \<open>A client's substream: the vector is indexed without a check.\<close>

definition get_sub :: "u8 \<Rightarrow> PrudpClient \<Rightarrow> Substream result" where
  "get_sub sub c =
     (if unat sub < length (substreams c) then Inr (substreams c ! unat sub) else Inl UndefinedAccess)"

definition upd_sub :: "u8 \<Rightarrow> (Substream \<Rightarrow> Substream) \<Rightarrow> PrudpClient \<Rightarrow> PrudpClient" where
  "upd_sub sub f c = c\<lparr>substreams := (substreams c)[unat sub := f (substreams c ! unat sub)]\<rparr>"

definition set_client :: "PRUDPAddress \<Rightarrow> PrudpClient \<Rightarrow> 'r PrudpServer \<Rightarrow> 'r PrudpServer" where
  "set_client addr c s = s\<lparr>clients := (clients s)(addr \<mapsto> c)\<rparr>"

text \<open>\<^verbatim>\<open>std::multimap::insert\<close>: behind the entries with the same key.\<close>

definition insert_delayed :: "int \<Rightarrow> DelayedPacket \<Rightarrow> (int \<times> DelayedPacket) list
    \<Rightarrow> (int \<times> DelayedPacket) list" where
  "insert_delayed t d m = takeWhile (\<lambda>(u, _). u \<le> t) m @ (t, d) # dropWhile (\<lambda>(u, _). u \<le> t) m"

definition delay :: "int \<Rightarrow> DelayedPacket \<Rightarrow> 'r PrudpServer \<Rightarrow> 'r PrudpServer" where
  "delay t d s = s\<lparr>delayedPackets := insert_delayed t d (delayedPackets s)\<rparr>"

section \<open>Crafting packets\<close>

definition calculateConnSignature :: "Env \<Rightarrow> 'r PrudpServer \<Rightarrow> IPv4Addr \<Rightarrow> bytes" where
  "calculateConnSignature ev s a =
     (let sig = MD5 (crypto ev) ([ip_a a, ip_b a, ip_c a, ip_d a] @ le_bytes 2 (ip_port a))
      in if majorVersion s = 0 then take 4 (sig @ replicate 4 0) else sig)"

definition craftAck :: "Env \<Rightarrow> 'r PrudpServer \<Rightarrow> PRUDPAddress \<Rightarrow> Packet \<Rightarrow> u8 \<Rightarrow> bytes \<Rightarrow> bytes \<Rightarrow> Packet" where
  "craftAck ev s addr req sid remote skey =
     (let r0 = (new_packet (v1 s))\<lparr>friends := (if v1 s then True else sv_friends s)\<rparr>;
          r1 = (if (p_type req = SYN \<or> p_type req = CONNECT) \<and> majorVersion s = 1
                then r0\<lparr>substreamId := substreamId req,
                  p_minorVersion := (if p_type req = SYN
                     then (if p_minorVersion req > sv_minorVersion s then sv_minorVersion s
                           else p_minorVersion req)
                     else p_minorVersion req),
                  supportedFunctions := sv_supportedFunctions s,
                  p_maxSubstreamId := sv_maxSubstreamId s,
                  initSeqIdUnreliable := sv_initSeqIdUnreliable s\<rparr>
                else r0)
      in r1\<lparr>p_accessKey := sv_accessKey s, p_type := p_type req,
           srcPort := dstPort req, srcStreamType := dstStreamType req,
           dstPort := srcPort req, dstStreamType := srcStreamType req,
           p_flags := FLAG_ACK OR (if sv_minorVersion s = 1 then FLAG_HAS_SIZE else 0),
           sessionId := (if p_type req = SYN then 0 else sid),
           p_sessionKey := (if p_type req \<noteq> SYN \<and> p_type req \<noteq> CONNECT then skey else []),
           seqId := seqId req, fragmentId := 0,
           connectionSignature := (if p_type req = SYN then calculateConnSignature ev s (pa_address addr)
             else if majorVersion s = 0 then replicate 4 0 else replicate 16 0),
           remoteSignature := (if p_type req \<noteq> SYN then remote else [])\<rparr>)"

definition craftPing :: "Env \<Rightarrow> 'r PrudpServer \<Rightarrow> PRUDPAddress \<Rightarrow> u8 \<Rightarrow> bytes \<Rightarrow> bytes \<Rightarrow> Packet" where
  "craftPing ev s addr sid remote skey =
     (new_packet (v1 s))\<lparr>friends := (if v1 s then True else sv_friends s),
        p_accessKey := sv_accessKey s, p_type := PING,
        srcPort := srcVPort addr, srcStreamType := pa_srcStreamType addr,
        dstPort := vPort addr, dstStreamType := streamType addr,
        p_flags := (if majorVersion s = 0 then FLAG_NEED_ACK else FLAG_NEED_ACK OR FLAG_HAS_SIZE),
        sessionId := sid, p_sessionKey := skey, seqId := 1, fragmentId := 0,
        connectionSignature := calculateConnSignature ev s (pa_address addr),
        remoteSignature := remote\<rparr>"

text \<open>\<open>seqIds\<close> is not empty where this is called, as \<^verbatim>\<open>seqIds.back()\<close> needs.\<close>

definition craftAggregateAck ::
  "Env \<Rightarrow> 'r PrudpServer \<Rightarrow> PRUDPAddress \<Rightarrow> u8 \<Rightarrow> u8 \<Rightarrow> u8 \<Rightarrow> u16 list \<Rightarrow> bytes \<Rightarrow> bytes \<Rightarrow> Packet" where
  "craftAggregateAck ev s addr clientMinor sid sub seqIds remote skey =
     (new_packet True)\<lparr>substreamId := (if 2 \<le> clientMinor then sv_maxSubstreamId s + 1 else sub),
        p_accessKey := sv_accessKey s, p_type := DATA,
        srcPort := srcVPort addr, srcStreamType := pa_srcStreamType addr,
        dstPort := vPort addr, dstStreamType := streamType addr,
        p_flags := FLAG_MULTI_ACK OR FLAG_HAS_SIZE,
        sessionId := sid, p_sessionKey := skey,
        seqId := (if 2 \<le> clientMinor then 0 else last seqIds), fragmentId := 0,
        connectionSignature := calculateConnSignature ev s (pa_address addr),
        remoteSignature := remote,
        p_data := (if 2 \<le> clientMinor then [sub, 0] @ le_bytes 2 (last seqIds) else [])\<rparr>"

section \<open>Sending\<close>

definition proxy_header :: "IPv4Addr \<Rightarrow> bytes" where
  "proxy_header a =
     map of_char (''PROXY '' @ to_string (unat (ip_a a)) @ ''.'' @ to_string (unat (ip_b a)) @ ''.''
       @ to_string (unat (ip_c a)) @ ''.'' @ to_string (unat (ip_d a)) @ '':''
       @ to_string (unat (ip_port a)) @ ''|'')"

definition sendBytes :: "IPv4Addr \<Rightarrow> bytes \<Rightarrow> 'r PrudpServer \<Rightarrow> 'r PrudpServer" where
  "sendBytes a d s =
     s\<lparr>sent_datagrams := sent_datagrams s @
        [case proxyMap s a of None \<Rightarrow> (a, d) | Some proxy \<Rightarrow> (proxy, proxy_header a @ d)]\<rparr>"

text \<open>
  The packets a packet is cut into: the pieces are numbered from 1 and the last one is 0, each has
  its own sequence id, and the object that was passed in becomes the last piece.
\<close>

function split_fragments :: "u8 \<Rightarrow> Packet \<Rightarrow> Packet list" where
  "split_fragments fid p =
     (if MAX_PACKET_SIZE < length (p_data p)
      then p\<lparr>fragmentId := fid, p_data := take MAX_PACKET_SIZE (p_data p)\<rparr>
           # split_fragments (fid + 1)
               (p\<lparr>seqId := seqId p + 1, p_data := drop MAX_PACKET_SIZE (p_data p)\<rparr>)
      else [p])"
  by pat_completeness auto
termination
  by (relation "measure (\<lambda>(_, p). length (p_data p))") (simp_all add: MAX_PACKET_SIZE_def)

declare split_fragments.simps [simp del]

definition packet_substream :: "'r PrudpServer \<Rightarrow> Packet \<Rightarrow> u8" where
  "packet_substream s p = (if majorVersion s = 1 then substreamId p else 0)"

text \<open>A reliable packet is remembered until it is acknowledged, and queued to be sent again.\<close>

definition remember_packet :: "Env \<Rightarrow> PRUDPAddress \<Rightarrow> Packet \<Rightarrow> ('r, unit) srv" where
  "remember_packet ev addr p =
     readS (\<lambda>s.
       case clients s addr of
         None \<Rightarrow> returnS ()
       | Some c \<Rightarrow>
           (let sub = packet_substream s p; t = steady ev + RETRY_INTERVAL
            in bindS (liftS (get_sub sub c)) (\<lambda>_.
               modifyS (\<lambda>s. delay t \<lparr>dp_addr = addr, numRetries = 0, dp_packet = p\<rparr>
                 (set_client addr (upd_sub sub (\<lambda>st.
                    st\<lparr>nonAckedPackets := map_insert (seqId p) t (nonAckedPackets st)\<rparr>) c) s)))))"

text \<open>
  One fragment, encrypted with the shared encoder, whose new state is the result. The sources put
  the shared packet into the queue before they encode it; what is queued is the same object.
\<close>

definition send_fragment ::
  "Env \<Rightarrow> PRUDPAddress \<Rightarrow> Encoder option \<Rightarrow> Packet \<Rightarrow> ('r, Encoder option) srv" where
  "send_fragment ev addr e p0 =
     bindS (liftS (encode_packet (crypto ev) (p0\<lparr>p_encoder := e\<rparr>))) (\<lambda>(d, p).
       seqS (if has_flag p FLAG_NEED_ACK \<and> has_flag p FLAG_RELIABLE
             then remember_packet ev addr p else returnS ())
      (seqS (modifyS (sendBytes (pa_address addr) d))
            (returnS (p_encoder p))))"

primrec send_fragments ::
  "Env \<Rightarrow> PRUDPAddress \<Rightarrow> Encoder option \<Rightarrow> Packet list \<Rightarrow> ('r, Encoder option) srv" where
  "send_fragments ev addr e [] = returnS e"
| "send_fragments ev addr e (p # ps) =
     bindS (send_fragment ev addr e p) (\<lambda>e'. send_fragments ev addr e' ps)"

definition sendPacket :: "Env \<Rightarrow> PRUDPAddress \<Rightarrow> Packet \<Rightarrow> ('r, Encoder option) srv" where
  "sendPacket ev addr p = send_fragments ev addr (p_encoder p) (split_fragments 1 p)"

definition data_packet :: "Env \<Rightarrow> 'r PrudpServer \<Rightarrow> PRUDPAddress \<Rightarrow> PrudpClient \<Rightarrow> u8 \<Rightarrow> u16
    \<Rightarrow> Encoder \<Rightarrow> bytes \<Rightarrow> Packet" where
  "data_packet ev s addr c sub sq e d =
     (new_packet (v1 s))\<lparr>substreamId := (if v1 s then sub else 0),
        p_accessKey := sv_accessKey s, p_type := DATA,
        srcPort := srcVPort addr, srcStreamType := pa_srcStreamType addr,
        dstPort := vPort addr, dstStreamType := streamType addr,
        p_flags := FLAG_RELIABLE OR FLAG_NEED_ACK OR (if majorVersion s = 1 then FLAG_HAS_SIZE else 0),
        sessionId := cl_sessionId c, p_sessionKey := cl_sessionKey c, seqId := sq, fragmentId := 0,
        connectionSignature := calculateConnSignature ev s (pa_address addr),
        remoteSignature := cl_remoteSignature c,
        p_encoder := Some e, p_data := d\<rparr>"

definition store_encoder :: "PRUDPAddress \<Rightarrow> u8 \<Rightarrow> Encoder option \<Rightarrow> ('r, unit) srv" where
  "store_encoder addr sub e =
     modifyS (\<lambda>s. case (clients s addr, e) of
         (Some c, Some e') \<Rightarrow>
           set_client addr (c\<lparr>cl_encoder := setReliableEncoder sub e' (cl_encoder c)\<rparr>) s
       | _ \<Rightarrow> s)"

definition sendDataPacket :: "Env \<Rightarrow> PRUDPAddress \<Rightarrow> bytes \<Rightarrow> u8 \<Rightarrow> ('r, unit) srv" where
  "sendDataPacket ev addr d sub =
     readS (\<lambda>s.
       case clients s addr of
         None \<Rightarrow> returnS ()
       | Some c \<Rightarrow>
           bindS (liftS (get_sub sub c)) (\<lambda>st.
           (let encSub = (if majorVersion s = 0 then 0 else sub);
                fragments = (of_nat ((length d + MAX_PACKET_SIZE - 1) div MAX_PACKET_SIZE) :: u16)
            in seqS (modifyS (set_client addr
                  (upd_sub sub (\<lambda>st. st\<lparr>st_seqId := st_seqId st + fragments\<rparr>) c)))
              (bindS (liftS (getReliableEncoder (cl_encoder c) encSub)) (\<lambda>e.
               bindS (sendPacket ev addr (data_packet ev s addr c sub (st_seqId st) e d)) (\<lambda>e'.
               store_encoder addr encSub e'))))))"

section \<open>Acknowledged, pinged, closed\<close>

definition deleteNonAckedPacket :: "PRUDPAddress \<Rightarrow> u16 \<Rightarrow> u8 \<Rightarrow> ('r, unit) srv" where
  "deleteNonAckedPacket addr sq sub =
     readS (\<lambda>s.
       case clients s addr of
         None \<Rightarrow> returnS ()
       | Some c \<Rightarrow>
           bindS (liftS (get_sub sub c)) (\<lambda>st.
           case map_of (nonAckedPackets st) sq of
             None \<Rightarrow> returnS ()
           | Some task \<Rightarrow>
               modifyS (\<lambda>s. (set_client addr (upd_sub sub (\<lambda>st.
                   st\<lparr>nonAckedPackets := AList.delete sq (nonAckedPackets st)\<rparr>) c) s)
                 \<lparr>delayedPackets := filter (\<lambda>(t, d). \<not> (t = task \<and> dp_addr d = addr
                    \<and> seqId (dp_packet d) = sq)) (delayedPackets s)\<rparr>)))"

text \<open>
  The first ping task of a client at its due time is taken out and put back later. Where there is
  none, the sources go on with a \<^verbatim>\<open>DelayedPacket\<close> that was never initialised.
\<close>

definition is_ping_task :: "int \<Rightarrow> PRUDPAddress \<Rightarrow> int \<times> DelayedPacket \<Rightarrow> bool" where
  "is_ping_task t addr = (\<lambda>(u, d). u = t \<and> dp_addr d = addr \<and> p_type (dp_packet d) = PING)"

definition restart_ping :: "DelayedPacket \<Rightarrow> DelayedPacket" where
  "restart_ping d =
     (if 0 < numRetries d then d\<lparr>numRetries := 0, dp_packet := (dp_packet d)\<lparr>seqId := seqId (dp_packet d) + 1\<rparr>\<rparr>
      else d\<lparr>numRetries := 0\<rparr>)"

definition resetPingTask :: "Env \<Rightarrow> PRUDPAddress \<Rightarrow> ('r, unit) srv" where
  "resetPingTask ev addr =
     readS (\<lambda>s.
       case clients s addr of
         None \<Rightarrow> returnS ()
       | Some c \<Rightarrow>
           (case List.extract (is_ping_task (nextPing c) addr) (delayedPackets s) of
              None \<Rightarrow> throwS UndefinedAccess
            | Some (before, (_, d), after) \<Rightarrow>
                (let t = steady ev + PING_INTERVAL
                 in modifyS (\<lambda>s. (set_client addr (c\<lparr>nextPing := t\<rparr>) s)
                      \<lparr>delayedPackets := insert_delayed t (restart_ping d) (before @ after)\<rparr>))))"

definition client_tasks :: "PrudpClient \<Rightarrow> int list" where
  "client_tasks c = nextPing c # concat (map (\<lambda>st. map snd (nonAckedPackets st)) (substreams c))"

definition closeClientConnection :: "PRUDPAddress \<Rightarrow> 'r PrudpServer \<Rightarrow> 'r PrudpServer" where
  "closeClientConnection addr s0 =
     (let s = (case registeredServers s0 (srcVPort addr) of
                 None \<Rightarrow> s0
               | Some info \<Rightarrow> s0\<lparr>rmc := disconnectFunc info addr (rmc s0)\<rparr>)
      in case clients s addr of
           None \<Rightarrow> s
         | Some c \<Rightarrow>
             s\<lparr>pidToAddr := (if cl_pid c \<noteq> 0 then (pidToAddr s)(cl_pid c := None) else pidToAddr s),
               delayedPackets := filter (\<lambda>(t, d). \<not> (t \<in> set (client_tasks c) \<and> dp_addr d = addr))
                 (delayedPackets s),
               clients := (clients s)(addr := None)\<rparr>)"

end
