(* ===== verification/PrudpServer.thy ===== *)
theory PrudpServer
  imports Prudp
begin

text \<open>
  The receiving half of \<^verbatim>\<open>src/nex/prudp/server.cpp\<close>: datagrams are cut into packets, packets are
  checked against their connection, reliable packets wait in the queue of their substream until it
  is their turn, and a packet in turn is handled: a connection is opened or closed, a ping is
  answered, or the payload goes to the RMC server of the port. \<^verbatim>\<open>process\<close> is the timer.
\<close>

section \<open>Connecting\<close>

text \<open>The key a client starts with, and what its request proves: on an authentication server, nothing.\<close>

definition default_key :: bytes where
  "default_key = [0x43, 0x44, 0x26, 0x4D, 0x4C]"

definition version_refused :: "'r PrudpServer \<Rightarrow> Packet \<Rightarrow> bool" where
  "version_refused s p \<longleftrightarrow> majorVersion s = 1 \<and>
     (p_minorVersion p > sv_minorVersion s \<or>
      supportedFunctions p AND NOT (sv_supportedFunctions s) \<noteq> 0 \<or>
      p_maxSubstreamId p \<noteq> sv_maxSubstreamId s)"

definition authenticate :: "Env \<Rightarrow> 'r PrudpServer \<Rightarrow> bytes \<Rightarrow> ConnectInfo result" where
  "authenticate ev s d =
     (if auth s
      then Inr \<lparr>co_sessionKey = default_key, co_pid = 0, co_connectionId = 0, co_checkValue = 0\<rparr>
      else decryptConnectRequest (crypto ev) (wall ev) d (securePasswd s) (sv_pid s))"

text \<open>The connection that is closed first: the one of the same user, or else the one of this address.\<close>

definition drop_old_connection :: "PRUDPAddress \<Rightarrow> u32 \<Rightarrow> 'r PrudpServer \<Rightarrow> 'r PrudpServer" where
  "drop_old_connection addr pid s =
     (if clients s addr \<noteq> None \<or> (pid \<noteq> 0 \<and> pid \<noteq> 100 \<and> pidToAddr s pid \<noteq> None)
      then closeClientConnection (case pidToAddr s pid of Some a \<Rightarrow> a | None \<Rightarrow> addr) s
      else s)"

definition new_client :: "Env \<Rightarrow> 'r PrudpServer \<Rightarrow> Packet \<Rightarrow> ConnectInfo \<Rightarrow> PayloadEncoder \<Rightarrow> PrudpClient" where
  "new_client ev s p info pe =
     \<lparr>cl_encoder = pe, cl_minorVersion = (if majorVersion s = 1 then p_minorVersion p else 0),
      cl_supportedFunctions = sv_supportedFunctions s,
      unreliableSeqId = sv_initSeqIdUnreliable s, cl_remoteSignature = remoteSignature p,
      cl_sessionId = nextSessionId s, cl_pid = co_pid info,
      cl_sessionKey = (if auth s then [] else co_sessionKey info),
      substreams = replicate (unat (sv_maxSubstreamId s) + 1) new_substream,
      nextPing = steady ev + PING_INTERVAL\<rparr>"

text \<open>\<^verbatim>\<open>insert\<close> leaves a client, and an address of a pid, that is there as it is.\<close>

definition add_client :: "PRUDPAddress \<Rightarrow> PrudpClient \<Rightarrow> 'r PrudpServer \<Rightarrow> 'r PrudpServer" where
  "add_client addr c s =
     s\<lparr>clients := (case clients s addr of None \<Rightarrow> (clients s)(addr \<mapsto> c) | Some _ \<Rightarrow> clients s),
       pidToAddr := (if cl_pid c \<noteq> 0 \<and> cl_pid c \<noteq> 100 \<and> pidToAddr s (cl_pid c) = None
                     then (pidToAddr s)(cl_pid c \<mapsto> addr) else pidToAddr s)\<rparr>"

definition notify_connect :: "u8 \<Rightarrow> PRUDPAddress \<Rightarrow> u32 \<Rightarrow> 'r PrudpServer \<Rightarrow> 'r PrudpServer" where
  "notify_connect port addr pid s =
     (case registeredServers s port of
        None \<Rightarrow> s
      | Some info \<Rightarrow> s\<lparr>rmc := connectFunc info addr pid (rmc s)\<rparr>)"

text \<open>The connect packet has sequence id 1. Its substream is not checked before it is indexed.\<close>

definition mark_connected :: "PRUDPAddress \<Rightarrow> u8 \<Rightarrow> ('r, unit) srv" where
  "mark_connected addr sub =
     readS (\<lambda>s.
       case clients s addr of
         None \<Rightarrow> throwS UndefinedAccess
       | Some c \<Rightarrow>
           bindS (liftS (get_sub sub c)) (\<lambda>_.
           modifyS (set_client addr (upd_sub sub (\<lambda>st. st\<lparr>recvSeqId := 1\<rparr>) c))))"

definition connect_ack :: "Env \<Rightarrow> 'r PrudpServer \<Rightarrow> PRUDPAddress \<Rightarrow> Packet \<Rightarrow> u32 \<Rightarrow> Packet" where
  "connect_ack ev s addr p check =
     (let res = craftAck ev s addr p (nextSessionId s) (remoteSignature p) []
      in if auth s then res
         else res\<lparr>p_data := [4, 0, 0, 0] @ le_bytes 4 (check + 1)\<rparr>)"

definition accept_client :: "Env \<Rightarrow> PRUDPAddress \<Rightarrow> Packet \<Rightarrow> ConnectInfo \<Rightarrow> ('r, unit) srv" where
  "accept_client ev addr p info =
     seqS (modifyS (drop_old_connection addr (co_pid info)))
    (readS (\<lambda>s.
       bindS (liftS (PayloadEncoder_init (co_sessionKey info) (sv_maxSubstreamId s))) (\<lambda>pe.
       seqS (modifyS (add_client addr (new_client ev s p info pe)))
      (seqS (modifyS (notify_connect (dstPort p) addr (co_pid info)))
      (seqS (mark_connected addr (packet_substream s p))
      (seqS (modifyS (delay (steady ev + PING_INTERVAL)
          \<lparr>dp_addr = addr, numRetries = 0,
           dp_packet = craftPing ev s addr (nextSessionId s) (remoteSignature p)
             (if auth s then [] else co_sessionKey info)\<rparr>))
      (seqS (sendPacket ev addr (connect_ack ev s addr p (co_checkValue info)))
            (modifyS (\<lambda>s. s\<lparr>nextSessionId := nextSessionId s + 1\<rparr>)))))))))"

definition handle_connect :: "Env \<Rightarrow> PRUDPAddress \<Rightarrow> Packet \<Rightarrow> ('r, bool) srv" where
  "handle_connect ev addr p =
     readS (\<lambda>s.
       if version_refused s p then returnS False
       else bindS (liftS (decryptData True p)) (\<lambda>p.
            case authenticate ev s (p_data p) of
              Inl UndefinedAccess \<Rightarrow> throwS UndefinedAccess
            | Inl _ \<Rightarrow> returnS False
            | Inr info \<Rightarrow> seqS (accept_client ev addr p info) (returnS True)))"

section \<open>Acknowledgements\<close>

definition u16_list :: "bytes \<Rightarrow> nat \<Rightarrow> nat \<Rightarrow> u16 list" where
  "u16_list d from n = map (\<lambda>i. le_word (slice d (from + 2 * i) 2)) [0..<n]"

text \<open>What an aggregate acknowledgement says: substream, last id in order, further ids.\<close>

definition parse_aggregate :: "'r PrudpServer \<Rightarrow> Packet \<Rightarrow> (u8 \<times> u16 \<times> u16 list) option" where
  "parse_aggregate s p =
     (let d = p_data p
      in if 2 \<le> sv_minorVersion s then
           (if length d < 4 \<or> d ! 0 > sv_maxSubstreamId s \<or> length d \<noteq> 4 + unat (d ! 1) * 2 then None
            else Some (d ! 0, le_word (slice d 2 2), u16_list d 4 (unat (d ! 1))))
         else if length d mod 2 \<noteq> 0 then None
         else Some (substreamId p, seqId p, u16_list d 0 (length d div 2)))"

text \<open>
  The map of unacknowledged packets is ascending: the loop of the sources takes entries off its
  front while they are not above \<open>upTo\<close>.
\<close>

definition acknowledge :: "PRUDPAddress \<Rightarrow> u8 \<Rightarrow> u16 \<Rightarrow> u16 list \<Rightarrow> ('r, unit) srv" where
  "acknowledge addr sub upTo extra =
     readS (\<lambda>s.
       case clients s addr of
         None \<Rightarrow> throwS UndefinedAccess
       | Some c \<Rightarrow>
           bindS (liftS (get_sub sub c)) (\<lambda>st.
           forS (takeWhile (\<lambda>sq. sq \<le> upTo) (map fst (nonAckedPackets st)) @ extra)
             (\<lambda>sq. deleteNonAckedPacket addr sq sub)))"

definition handle_ack :: "PRUDPAddress \<Rightarrow> Packet \<Rightarrow> ('r, bool) srv" where
  "handle_ack addr p =
     readS (\<lambda>s.
       case clients s addr of
         None \<Rightarrow> returnS True
       | Some c \<Rightarrow>
           if \<not> has_flag p FLAG_MULTI_ACK then
             (if p_type p = PING then returnS True
              else seqS (deleteNonAckedPacket addr (seqId p) (packet_substream s p)) (returnS True))
           else if majorVersion s = 0 \<or> cl_minorVersion c < 1 \<or> p_type p \<noteq> DATA then returnS True
           else (case parse_aggregate s p of
                   None \<Rightarrow> returnS False
                 | Some (sub, upTo, extra) \<Rightarrow>
                     seqS (acknowledge addr sub upTo extra) (returnS True)))"

section \<open>Handling one packet\<close>

text \<open>An acknowledgement for a packet of a client, under the client's session.\<close>

definition send_ack :: "Env \<Rightarrow> PRUDPAddress \<Rightarrow> Packet \<Rightarrow> ('r, unit) srv" where
  "send_ack ev addr p =
     readS (\<lambda>s.
       case clients s addr of
         None \<Rightarrow> throwS UndefinedAccess
       | Some c \<Rightarrow>
           seqS (sendPacket ev addr
               (craftAck ev s addr p (cl_sessionId c) (cl_remoteSignature c) (cl_sessionKey c)))
             (returnS ()))"

text \<open>What an RMC server sends while it handles a message goes out as data packets.\<close>

definition handle_data :: "Env \<Rightarrow> PRUDPAddress \<Rightarrow> Packet \<Rightarrow> ('r, bool) srv" where
  "handle_data ev addr p =
     readS (\<lambda>s.
       case clients s addr of
         None \<Rightarrow> throwS UndefinedAccess
       | Some c \<Rightarrow>
           (case registeredServers s (dstPort p) of
              None \<Rightarrow> returnS True
            | Some info \<Rightarrow>
                bindS (liftS (dataFunc info addr (cl_minorVersion c)
                    (if majorVersion s = 0 then 0 else substreamId p) (p_data p) (rmc s)))
                  (\<lambda>(r, out).
                seqS (modifyS (\<lambda>s. s\<lparr>rmc := r\<rparr>))
               (seqS (forS out (\<lambda>(to, d, sub). sendDataPacket ev to d sub))
                     (returnS True)))))"

definition handlePacket :: "Env \<Rightarrow> PRUDPAddress \<Rightarrow> Packet \<Rightarrow> ('r, bool) srv" where
  "handlePacket ev addr p =
     (if has_flag p FLAG_ACK \<or> has_flag p FLAG_MULTI_ACK then handle_ack addr p
      else case p_type p of
        SYN \<Rightarrow> readS (\<lambda>s. seqS (sendPacket ev addr (craftAck ev s addr p 0 [] [])) (returnS True))
      | CONNECT \<Rightarrow> handle_connect ev addr p
      | DISCONNECT \<Rightarrow> seqS (modifyS (closeClientConnection addr)) (returnS False)
      | PING \<Rightarrow>
          seqS (if has_flag p FLAG_NEED_ACK \<and> \<not> has_flag p FLAG_RELIABLE
                then send_ack ev addr p else returnS ())
               (returnS True)
      | DATA \<Rightarrow> handle_data ev addr p)"

section \<open>The queue of a substream\<close>

text \<open>The queue is a set ordered by sequence id: a second packet with the same id is not inserted.\<close>

fun queue_insert :: "Packet \<Rightarrow> Packet list \<Rightarrow> Packet list" where
  "queue_insert p [] = [p]"
| "queue_insert p (q # qs) =
     (if seqId p < seqId q then p # q # qs
      else if seqId q < seqId p then q # queue_insert p qs
      else q # qs)"

definition read_sub :: "PRUDPAddress \<Rightarrow> u8 \<Rightarrow> (PrudpClient \<Rightarrow> Substream \<Rightarrow> ('r, 'a) srv) \<Rightarrow> ('r, 'a) srv" where
  "read_sub addr sub f =
     readS (\<lambda>s.
       case clients s addr of
         None \<Rightarrow> throwS UndefinedAccess
       | Some c \<Rightarrow> bindS (liftS (get_sub sub c)) (f c))"

definition modify_sub :: "PRUDPAddress \<Rightarrow> u8 \<Rightarrow> (Substream \<Rightarrow> Substream) \<Rightarrow> ('r, unit) srv" where
  "modify_sub addr sub f =
     modifyS (\<lambda>s. case clients s addr of
         None \<Rightarrow> s
       | Some c \<Rightarrow> set_client addr (upd_sub sub f c) s)"

text \<open>
  A fragment that was not acknowledged yet: its acknowledgement is sent (three times for a
  disconnect) or collected for an aggregate one, and the next sequence id is expected.
\<close>

definition ack_fragment ::
  "Env \<Rightarrow> PRUDPAddress \<Rightarrow> u8 \<Rightarrow> bool \<Rightarrow> Packet \<Rightarrow> u16 list \<Rightarrow> ('r, u16 list) srv" where
  "ack_fragment ev addr sub agg p acked =
     read_sub addr sub (\<lambda>c st.
       if recvSeqId st < seqId p then
         bindS (if has_flag p FLAG_NEED_ACK then
                  (if agg \<and> p_type p = DATA then returnS (acked @ [seqId p])
                   else seqS (repeatS (if p_type p = DISCONNECT then 3 else 1) (send_ack ev addr p))
                          (returnS acked))
                else returnS acked) (\<lambda>acked'.
         seqS (modify_sub addr sub (\<lambda>st. st\<lparr>recvSeqId := recvSeqId st + 1\<rparr>)) (returnS acked'))
       else returnS acked)"

text \<open>The walk along the fragments of a message: is it complete, and has it more than one?\<close>

definition next_fragment :: "Packet \<Rightarrow> Packet \<Rightarrow> bool" where
  "next_fragment p q \<longleftrightarrow> unat (seqId q) = unat (seqId p) + 1 \<and>
     (unat (fragmentId q) = unat (fragmentId p) + 1 \<or> fragmentId q = 0)"

fun walk_fragments ::
  "Env \<Rightarrow> PRUDPAddress \<Rightarrow> u8 \<Rightarrow> bool \<Rightarrow> Packet \<Rightarrow> Packet list \<Rightarrow> bool \<Rightarrow> u16 list
    \<Rightarrow> ('r, bool \<times> bool \<times> u16 list) srv" where
  "walk_fragments ev addr sub agg p rest multi acked =
     bindS (ack_fragment ev addr sub agg p acked) (\<lambda>acked'.
       if fragmentId p = 0 then returnS (True, multi, acked')
       else case rest of
              [] \<Rightarrow> returnS (False, multi, acked')
            | q # qs \<Rightarrow>
                if next_fragment p q then walk_fragments ev addr sub agg q qs True acked'
                else returnS (False, multi, acked'))"

declare walk_fragments.simps [simp del]

text \<open>The packets are decrypted in place, in order, with the encoder of the substream.\<close>

fun decrypt_run :: "Encoder \<Rightarrow> Packet list \<Rightarrow> (Packet list \<times> Encoder) result" where
  "decrypt_run e [] = Inr ([], e)"
| "decrypt_run e (p # ps) =
     bindE (decryptData False (p\<lparr>p_encoder := Some e\<rparr>)) (\<lambda>p'.
     bindE (decrypt_run (case p_encoder p' of Some e' \<Rightarrow> e' | None \<Rightarrow> e) ps) (\<lambda>(ps', e').
     Inr (p' # ps', e')))"

definition send_aggregate :: "Env \<Rightarrow> PRUDPAddress \<Rightarrow> u8 \<Rightarrow> u16 list \<Rightarrow> ('r, unit) srv" where
  "send_aggregate ev addr sub acked =
     readS (\<lambda>s.
       case clients s addr of
         None \<Rightarrow> throwS UndefinedAccess
       | Some c \<Rightarrow>
           seqS (sendPacket ev addr (craftAggregateAck ev s addr (cl_minorVersion c) (cl_sessionId c)
               sub acked (cl_remoteSignature c) (cl_sessionKey c)))
             (returnS ()))"

text \<open>
  The loop that collects a message stops in front of a packet with fragment id 0, so the fragment it
  calls the last one is only ever the first one it saw; where that one is not the last, the sources
  use a null pointer.
\<close>

definition run_of :: "Packet list \<Rightarrow> Packet list" where
  "run_of q = (case q of [] \<Rightarrow> [] | p # ps \<Rightarrow> p # takeWhile (\<lambda>p. fragmentId p \<noteq> 0) ps)"

definition after_run :: "Packet list \<Rightarrow> Packet list" where
  "after_run q = (case q of [] \<Rightarrow> [] | p # ps \<Rightarrow> dropWhile (\<lambda>p. fragmentId p \<noteq> 0) ps)"

definition last_fragment :: "Packet list \<Rightarrow> Packet result" where
  "last_fragment run = (if run \<noteq> [] \<and> fragmentId (hd run) = 0 then Inr (hd run) else Inl UndefinedAccess)"

datatype queue_outcome = Stop bool "u16 list" | More "u16 list"

definition deliver_run ::
  "Env \<Rightarrow> PRUDPAddress \<Rightarrow> u8 \<Rightarrow> bool \<Rightarrow> Packet list \<Rightarrow> u16 list \<Rightarrow> ('r, queue_outcome) srv" where
  "deliver_run ev addr sub agg q acked =
     read_sub addr sub (\<lambda>c _.
       bindS (liftS (getReliableEncoder (cl_encoder c) sub)) (\<lambda>e.
       bindS (liftS (decrypt_run e (run_of q))) (\<lambda>(run, e').
       seqS (store_encoder addr sub (Some e'))
      (seqS (modify_sub addr sub (\<lambda>st. st\<lparr>packetQueue := run @ after_run q\<rparr>))
      (bindS (liftS (last_fragment run)) (\<lambda>p.
       bindS (rethrowS
           (seqS (if p_type p = DISCONNECT \<and> agg \<and> acked \<noteq> []
                  then send_aggregate ev addr sub acked else returnS ())
                 (handlePacket ev addr p))
           (seqS (if agg \<and> acked \<noteq> [] then send_aggregate ev addr sub acked else returnS ())
                 (modify_sub addr sub (\<lambda>st. st\<lparr>packetQueue := after_run q\<rparr>)))) (\<lambda>go_on.
       if go_on
       then seqS (modify_sub addr sub (\<lambda>st. st\<lparr>packetQueue := after_run q\<rparr>)) (returnS (More acked))
       else returnS (Stop (p_type p = DISCONNECT \<and> agg) acked))))))))"

text \<open>One turn of the loop over the queue \<open>q\<close>, whose first packet is \<open>p\<close>.\<close>

definition queue_step ::
  "Env \<Rightarrow> PRUDPAddress \<Rightarrow> u8 \<Rightarrow> bool \<Rightarrow> Packet \<Rightarrow> Packet list \<Rightarrow> u16 list \<Rightarrow> ('r, queue_outcome) srv" where
  "queue_step ev addr sub agg p ps acked =
     read_sub addr sub (\<lambda>_ st.
       if unat (seqId p) \<noteq> unat (recvSeqId st) + 1 \<or> (fragmentId p \<noteq> 0 \<and> fragmentId p \<noteq> 1)
       then returnS (Stop False acked)
       else bindS (walk_fragments ev addr sub agg p ps False acked) (\<lambda>(complete, multi, acked').
            if complete then deliver_run ev addr sub agg (p # ps) acked'
            else returnS (Stop False acked')))"

function queue_loop ::
  "Env \<Rightarrow> PRUDPAddress \<Rightarrow> u8 \<Rightarrow> bool \<Rightarrow> Packet list \<Rightarrow> u16 list \<Rightarrow> ('r, bool \<times> u16 list) srv" where
  "queue_loop ev addr sub agg q acked s =
     (case q of
        [] \<Rightarrow> (Inr (False, acked), s)
      | p # ps \<Rightarrow>
          (case queue_step ev addr sub agg p ps acked s of
             (Inl e, s') \<Rightarrow> (Inl e, s')
           | (Inr (Stop disconnected acked'), s') \<Rightarrow> (Inr (disconnected, acked'), s')
           | (Inr (More acked'), s') \<Rightarrow> queue_loop ev addr sub agg (after_run q) acked' s'))"
  by pat_completeness auto
termination
  by (relation "measure (\<lambda>(_, _, _, _, q, _). length q)")
     (auto simp: after_run_def intro: le_imp_less_Suc length_dropWhile_le)

declare queue_loop.simps [simp del]

definition processPacketQueue :: "Env \<Rightarrow> PRUDPAddress \<Rightarrow> u8 \<Rightarrow> ('r, unit) srv" where
  "processPacketQueue ev addr sub =
     readS (\<lambda>s.
       case clients s addr of
         None \<Rightarrow> returnS ()
       | Some c \<Rightarrow>
           (let agg = (majorVersion s = 1 \<and> 1 \<le> cl_minorVersion c)
            in bindS (liftS (get_sub sub c)) (\<lambda>st.
               bindS (queue_loop ev addr sub agg (packetQueue st) []) (\<lambda>(disconnected, acked).
               if agg \<and> \<not> disconnected \<and> acked \<noteq> [] then send_aggregate ev addr sub acked
               else returnS ()))))"

section \<open>One packet from the network\<close>

definition prudp_address :: "IPv4Addr \<Rightarrow> Packet \<Rightarrow> PRUDPAddress" where
  "prudp_address a p =
     \<lparr>pa_address = a, vPort = srcPort p, streamType = srcStreamType p,
      srcVPort = dstPort p, pa_srcStreamType = dstStreamType p\<rparr>"

text \<open>What the server knows about the sender is filled in before the signature is checked.\<close>

definition with_session :: "Env \<Rightarrow> 'r PrudpServer \<Rightarrow> PRUDPAddress \<Rightarrow> Packet \<Rightarrow> Packet" where
  "with_session ev s addr p0 =
     (let p = (if p_type p0 \<noteq> SYN
               then p0\<lparr>connectionSignature := calculateConnSignature ev s (pa_address addr)\<rparr> else p0)
      in case clients s addr of
           Some c \<Rightarrow> if p_type p \<noteq> SYN \<and> p_type p \<noteq> CONNECT
                     then p\<lparr>remoteSignature := cl_remoteSignature c, p_sessionKey := cl_sessionKey c\<rparr>
                     else p
         | None \<Rightarrow> p)"

definition bad_substream :: "'r PrudpServer \<Rightarrow> Packet \<Rightarrow> bool" where
  "bad_substream s p \<longleftrightarrow> majorVersion s = 1 \<and>
     (unat (substreamId p) > unat (sv_maxSubstreamId s) \<and> \<not> has_flag p FLAG_MULTI_ACK \<or>
      has_flag p FLAG_MULTI_ACK \<and> unat (substreamId p) \<noteq> unat (sv_maxSubstreamId s) + 1)"

definition process_unreliable :: "Env \<Rightarrow> PRUDPAddress \<Rightarrow> PrudpClient \<Rightarrow> Packet \<Rightarrow> ('r, unit) srv" where
  "process_unreliable ev addr c p =
     (if fragmentId p \<noteq> 0 \<and> \<not> has_flag p FLAG_ACK then returnS ()
      else bindS (if has_flag p FLAG_MULTI_ACK then returnS p
                  else bindS (liftS (getUnreliableEncoder (crypto ev) (cl_encoder c) p)) (\<lambda>e.
                       returnS (p\<lparr>p_encoder := Some e\<rparr>))) (\<lambda>p1.
           bindS (liftS (decryptData (has_flag p FLAG_MULTI_ACK) p1)) (\<lambda>p2.
           seqS (handlePacket ev addr p2) (resetPingTask ev addr))))"

definition process_reliable :: "Env \<Rightarrow> PRUDPAddress \<Rightarrow> Packet \<Rightarrow> ('r, unit) srv" where
  "process_reliable ev addr p =
     readS (\<lambda>s.
       (let sub = packet_substream s p
        in read_sub addr sub (\<lambda>c st.
             if MAX_PACKET_QUEUE_SIZE < length (packetQueue st) then modifyS (closeClientConnection addr)
             else if seqId p \<le> recvSeqId st then seqS (send_ack ev addr p) (resetPingTask ev addr)
             else seqS (modify_sub addr sub (\<lambda>st. st\<lparr>packetQueue := queue_insert p (packetQueue st)\<rparr>))
                 (seqS (processPacketQueue ev addr sub) (resetPingTask ev addr)))))"

definition processPacket :: "Env \<Rightarrow> IPv4Addr \<Rightarrow> Packet \<Rightarrow> ('r, unit) srv" where
  "processPacket ev a p0 =
     readS (\<lambda>s.
       (let addr = prudp_address a p0; p = with_session ev s addr p0
        in if \<not> checkSignature (crypto ev) p then returnS ()
           else if p_type p = SYN \<or> p_type p = CONNECT
             then seqS (handlePacket ev addr p) (returnS ())
           else case clients s addr of
                  None \<Rightarrow> returnS ()
                | Some c \<Rightarrow>
                    if bad_substream s p then returnS ()
                    else if \<not> has_flag p FLAG_RELIABLE then process_unreliable ev addr c p
                    else process_reliable ev addr p))"

section \<open>One datagram\<close>

text \<open>\<^verbatim>\<open>util::split\<close> drops empty tokens.\<close>

lemma length_tl_dropWhile: "c \<in> set s \<Longrightarrow> length (dropWhile P s) - Suc 0 < length s"
  using length_dropWhile_le [of P s] by (cases s) auto

function split_at :: "char \<Rightarrow> string \<Rightarrow> string list" where
  "split_at c s =
     (let token = takeWhile (\<lambda>x. x \<noteq> c) s; rest = dropWhile (\<lambda>x. x \<noteq> c) s
      in (if token = [] then [] else [token]) @ (if rest = [] then [] else split_at c (tl rest)))"
  by pat_completeness auto
termination
  by (relation "measure (\<lambda>(_, s). length s)")
     (simp_all add: length_tl_dropWhile)

declare split_at.simps [simp del]

definition stringToIPv4 :: "string \<Rightarrow> IPv4Addr result" where
  "stringToIPv4 str =
     (case split_at CHR ''.'' str of
        [a, b, c, d] \<Rightarrow>
          bindE (stoi a) (\<lambda>a. bindE (stoi b) (\<lambda>b. bindE (stoi c) (\<lambda>c. bindE (stoi d) (\<lambda>d.
          Inr \<lparr>ip_a = word_of_int a, ip_b = word_of_int b, ip_c = word_of_int c,
               ip_d = word_of_int d, ip_port = 0\<rparr>))))
      | _ \<Rightarrow> Inr \<lparr>ip_a = 0, ip_b = 0, ip_c = 0, ip_d = 0, ip_port = 0\<rparr>)"

definition proxy_magic :: bytes where
  "proxy_magic = map of_char ''PROXY''"

text \<open>
  The header \<^verbatim>\<open>PROXY <ip>:<port>|\<close>: the address of the client, and what follows. The result is
  \<open>None\<close> where the sources drop the datagram, and an exception where \<^verbatim>\<open>std::stoi\<close> throws.
\<close>

definition parse_proxy :: "bytes \<Rightarrow> (IPv4Addr \<times> bytes) option result" where
  "parse_proxy d =
     (if of_char CHR ''|'' \<notin> set d then Inr None
      else let header = map (\<lambda>b. char_of (unat b)) (takeWhile (\<lambda>b. b \<noteq> of_char CHR ''|'') d);
               d' = tl (dropWhile (\<lambda>b. b \<noteq> of_char CHR ''|'') d)
           in if CHR '' '' \<notin> set header then Inr None
              else let real = tl (dropWhile (\<lambda>c. c \<noteq> CHR '' '') header)
                   in if CHR '':'' \<notin> set real then Inr None
                      else bindE (stringToIPv4 (takeWhile (\<lambda>c. c \<noteq> CHR '':'') real)) (\<lambda>a.
                           bindE (stoi (tl (dropWhile (\<lambda>c. c \<noteq> CHR '':'') real))) (\<lambda>port.
                           Inr (Some (a\<lparr>ip_port := word_of_int port\<rparr>, d')))))"

text \<open>The address a datagram counts for, and the datagram without the proxy's header.\<close>

definition resolve_proxy :: "IPv4Addr \<Rightarrow> bytes \<Rightarrow> ('r, (IPv4Addr \<times> bytes) option) srv" where
  "resolve_proxy a d =
     readS (\<lambda>s.
       if length proxy_magic \<le> length d \<and> take (length proxy_magic) d = proxy_magic then
         (case proxyMap s a of
            Some a' \<Rightarrow> returnS (Some (a', d))
          | None \<Rightarrow>
              if a\<lparr>ip_port := 0\<rparr> \<notin> set (knownProxies s) then returnS None
              else bindS (liftS (parse_proxy d)) (\<lambda>res.
                   case res of
                     None \<Rightarrow> returnS None
                   | Some (a', d') \<Rightarrow>
                       seqS (modifyS (\<lambda>s. s\<lparr>proxyMap := (case proxyMap s a' of
                              None \<Rightarrow> (proxyMap s)(a' \<mapsto> a) | Some _ \<Rightarrow> proxyMap s)\<rparr>))
                            (returnS (Some (a', d')))))
       else seqS (modifyS (\<lambda>s. s\<lparr>proxyMap := (proxyMap s)(a := None)\<rparr>)) (returnS (Some (a, d))))"

definition fresh_packet :: "'r PrudpServer \<Rightarrow> Packet" where
  "fresh_packet s =
     (new_packet (v1 s))\<lparr>p_accessKey := sv_accessKey s, friends := (if v1 s then True else sv_friends s)\<rparr>"

lemma fresh_packet_fields [simp]:
  "isV1 (fresh_packet s) = v1 s" "p_accessKey (fresh_packet s) = sv_accessKey s"
  "encryptedData (fresh_packet s) = []" "p_data (fresh_packet s) = []"
  "p_sessionKey (fresh_packet s) = []" "connectionSignature (fresh_packet s) = []"
  by (simp_all add: fresh_packet_def new_packet_def)

lemma decode_packet_consumes: "decode_packet q d = Inr (p, n) \<Longrightarrow> 0 < n"
  using decodeV1_consumes [of q d p n]
  by (auto simp: decode_packet_def decodeV0_def bindE_eq_Inr_iff split: if_splits)

text \<open>
  The packets of a datagram, one after the other. What the decoder says it has consumed is erased from
  the front: where it says more than there is, the iterators run past the end.
\<close>

function packets_loop :: "Env \<Rightarrow> IPv4Addr \<Rightarrow> bytes \<Rightarrow> ('r, unit) srv" where
  "packets_loop ev a d s =
     (if d = [] then (Inr (), s)
      else case decode_packet (fresh_packet s) d of
          Inl e \<Rightarrow> (Inl e, s)
        | Inr (p, n) \<Rightarrow>
            (case processPacket ev a p s of
               (Inl e, s') \<Rightarrow> (Inl e, s')
             | (Inr _, s') \<Rightarrow>
                 if length d < n then (Inl UndefinedAccess, s') else packets_loop ev a (drop n d) s'))"
  by pat_completeness auto
termination
  by (relation "measure (\<lambda>(_, _, d, _). length d)") (auto dest: decode_packet_consumes)

declare packets_loop.simps [simp del]

definition onData :: "Env \<Rightarrow> IPv4Addr \<Rightarrow> bytes \<Rightarrow> ('r, unit) srv" where
  "onData ev a d =
     bindS (resolve_proxy a d) (\<lambda>res.
       case res of
         None \<Rightarrow> returnS ()
       | Some (a', d') \<Rightarrow> swallowS (packets_loop ev a' d'))"

section \<open>The timer\<close>

definition resend_seq :: "'r PrudpServer \<Rightarrow> DelayedPacket \<Rightarrow> Packet \<times> 'r PrudpServer" where
  "resend_seq s d =
     (let p = dp_packet d
      in if p_type p = PING \<and> numRetries d = 0 then
           (case clients s (dp_addr d) of
              None \<Rightarrow> (p, s)
            | Some c \<Rightarrow> (p\<lparr>seqId := unreliableSeqId c\<rparr>,
                set_client (dp_addr d) (c\<lparr>unreliableSeqId := unreliableSeqId c + 1\<rparr>) s))
         else (p, s))"

text \<open>The client notes when the packet is due again.\<close>

definition note_due :: "PRUDPAddress \<Rightarrow> Packet \<Rightarrow> int \<Rightarrow> ('r, unit) srv" where
  "note_due addr p t =
     readS (\<lambda>s.
       case clients s addr of
         None \<Rightarrow> returnS ()
       | Some c \<Rightarrow>
           if p_type p = PING then modifyS (set_client addr (c\<lparr>nextPing := t\<rparr>))
           else (let sub = packet_substream s p
                 in bindS (liftS (get_sub sub c)) (\<lambda>st.
                    if map_of (nonAckedPackets st) (seqId p) = None then returnS ()
                    else modifyS (set_client addr (upd_sub sub (\<lambda>st.
                           st\<lparr>nonAckedPackets := AList.update (seqId p) t (nonAckedPackets st)\<rparr>) c)))))"

definition resend :: "Env \<Rightarrow> DelayedPacket \<Rightarrow> ('r, unit) srv" where
  "resend ev d =
     readS (\<lambda>s.
       (let (p, s1) = resend_seq s d; addr = dp_addr d; t = steady ev + RETRY_INTERVAL
        in seqS (modifyS (\<lambda>_. s1))
          (bindS (liftS (encode_packet (crypto ev) p)) (\<lambda>(bs, p').
           seqS (modifyS (sendBytes (pa_address addr) bs))
          (seqS (modifyS (delay t (d\<lparr>numRetries := numRetries d + 1, dp_packet := p'\<rparr>)))
                (note_due addr p' t))))))"

text \<open>The first packet that is due is sent again, or its client is given up.\<close>

definition process_due :: "Env \<Rightarrow> DelayedPacket \<Rightarrow> ('r, unit) srv" where
  "process_due ev d =
     (if MAX_RETRIES \<le> numRetries d then modifyS (closeClientConnection (dp_addr d))
      else resend ev d)"

definition due :: "Env \<Rightarrow> 'r PrudpServer \<Rightarrow> nat" where
  "due ev s = length (filter (\<lambda>(t, _). t < steady ev) (delayedPackets s))"

lemma due_delay:
  "steady ev \<le> t \<Longrightarrow> due ev (delay t d s) = due ev s"
proof -
  assume t: "steady ev \<le> t"
  let ?P = "\<lambda>(u, _). u \<le> t"
  let ?F = "filter (\<lambda>(t, _ :: DelayedPacket). t < steady ev)"
  have "?F (delayedPackets s) = ?F (takeWhile ?P (delayedPackets s)) @ ?F (dropWhile ?P (delayedPackets s))"
    by (simp flip: filter_append)
  then show ?thesis using t by (simp add: due_def delay_def insert_delayed_def)
qed

lemma delayedPackets_simps [simp]:
  "delayedPackets (set_client addr c s) = delayedPackets s"
  "delayedPackets (sendBytes a d s) = delayedPackets s"
  by (simp_all add: set_client_def sendBytes_def)

lemma due_congs [simp]:
  "due ev (set_client addr c s) = due ev s" "due ev (sendBytes a d s) = due ev s"
  "due ev (snd (resend_seq s dp)) = due ev s"
  by (simp_all add: due_def resend_seq_def Let_def split: option.splits)

lemma length_filter_filter_le: "length (filter P (filter Q xs)) \<le> length (filter P xs)"
  by (induction xs) auto

lemma due_close: "due ev (closeClientConnection addr s) \<le> due ev s"
  by (auto simp: due_def closeClientConnection_def Let_def length_filter_filter_le
      simp del: filter_filter split: option.splits)

lemma due_note: "due ev (snd (note_due addr p t s)) = due ev s"
  by (auto simp: note_due_def bindS_def get_sub_def Let_def split: option.splits)

lemma due_process:
  assumes "process_due ev d s = (Inr u, s')"
  shows "due ev s' \<le> due ev s"
proof (cases "MAX_RETRIES \<le> numRetries d")
  case True
  then show ?thesis using assms due_close by (auto simp: process_due_def)
next
  case False
  obtain p s1 where rs: "resend_seq s d = (p, s1)" by (cases "resend_seq s d")
  have s1: "due ev s1 = due ev s" using due_congs(3) [of ev s d] rs by simp
  let ?t = "steady ev + RETRY_INTERVAL"
  obtain bs p' where "encode_packet (crypto ev) p = Inr (bs, p')"
    and "note_due (dp_addr d) p' ?t (delay ?t (d\<lparr>numRetries := numRetries d + 1, dp_packet := p'\<rparr>)
      (sendBytes (pa_address (dp_addr d)) bs s1)) = (Inr u, s')"
    using assms False rs
    by (auto simp: process_due_def resend_def Let_def seqS_def bindS_def
        split: sum.splits prod.splits)
  then have "due ev s' = due ev (delay ?t (d\<lparr>numRetries := numRetries d + 1, dp_packet := p'\<rparr>)
      (sendBytes (pa_address (dp_addr d)) bs s1))"
    using due_note by (metis snd_conv)
  also have "\<dots> = due ev s" using s1 by (simp add: due_delay RETRY_INTERVAL_def)
  finally show ?thesis by simp
qed

lemma due_turn:
  assumes "(Inr u, s') = process_due ev d (s\<lparr>delayedPackets := rest\<rparr>)"
    and "delayedPackets s = (t, d) # rest" and "t < steady ev"
  shows "due ev s' < due ev s"
  using due_process [OF assms(1) [symmetric]] assms(2,3) by (simp add: due_def)

text \<open>
  The loop ends: what is sent again is due later, so every turn leaves fewer packets that are due.
\<close>

function process_loop :: "Env \<Rightarrow> ('r, unit) srv" where
  "process_loop ev s =
     (case delayedPackets s of
        [] \<Rightarrow> (Inr (), s)
      | (t, d) # rest \<Rightarrow>
          if t < steady ev then
            (case process_due ev d (s\<lparr>delayedPackets := rest\<rparr>) of
               (Inl e, s') \<Rightarrow> (Inl e, s')
             | (Inr _, s') \<Rightarrow> process_loop ev s')
          else (Inr (), s))"
  by pat_completeness auto
termination
  by (relation "measure (\<lambda>(ev, s). due ev s)")
     (auto simp: due_turn)

declare process_loop.simps [simp del]

text \<open>\<^verbatim>\<open>UINT64_MAX\<close> stands for no packet at all.\<close>

definition process :: "Env \<Rightarrow> ('r, int) srv" where
  "process ev =
     seqS (process_loop ev)
       (readS (\<lambda>s. returnS (case delayedPackets s of
            [] \<Rightarrow> 2 ^ 64 - 1
          | (t, _) # _ \<Rightarrow> t - steady ev)))"

section \<open>Start and stop\<close>

text \<open>The registered servers in the order of their ports.\<close>

definition all_ports :: "u8 list" where
  "all_ports = map of_nat [0..<256]"

definition for_servers :: "('r RMCServerInfo \<Rightarrow> 'r \<Rightarrow> 'r) \<Rightarrow> 'r PrudpServer \<Rightarrow> 'r PrudpServer" where
  "for_servers f s =
     s\<lparr>rmc := fold (\<lambda>port r. case registeredServers s port of None \<Rightarrow> r | Some info \<Rightarrow> f info r)
        all_ports (rmc s)\<rparr>"

definition prudp_listen :: "'r PrudpServer \<Rightarrow> 'r PrudpServer" where
  "prudp_listen = for_servers startFunc"

definition prudp_stop :: "'r PrudpServer \<Rightarrow> 'r PrudpServer" where
  "prudp_stop s = (for_servers stopFunc s)\<lparr>clients := (\<lambda>_. None), delayedPackets := []\<rparr>"

end
