(* ===== verification/PrudpSending.thy ===== *)
theory PrudpSending
  imports PrudpServer
begin

text \<open>
  What the sending half does to the state: acknowledgements touch nothing but the socket, and a
  message handed to \<open>sendDataPacket\<close> is cut into packets that carry it in order.
\<close>

section \<open>Packets that are not remembered\<close>

definition add_sent :: "(IPv4Addr \<times> bytes) list \<Rightarrow> 'r PrudpServer \<Rightarrow> 'r PrudpServer" where
  "add_sent ds s = s\<lparr>sent_datagrams := sent_datagrams s @ ds\<rparr>"

lemma add_sent_simps [simp]:
  "clients (add_sent ds s) = clients s" "delayedPackets (add_sent ds s) = delayedPackets s"
  "rmc (add_sent ds s) = rmc s" "registeredServers (add_sent ds s) = registeredServers s"
  "majorVersion (add_sent ds s) = majorVersion s" "pidToAddr (add_sent ds s) = pidToAddr s"
  "sv_maxSubstreamId (add_sent ds s) = sv_maxSubstreamId s" "proxyMap (add_sent ds s) = proxyMap s"
  "sv_minorVersion (add_sent ds s) = sv_minorVersion s" "sv_accessKey (add_sent ds s) = sv_accessKey s"
  "add_sent es (add_sent ds s) = add_sent (ds @ es) s" "add_sent [] s = s"
  "nextSessionId (add_sent ds s) = nextSessionId s" "auth (add_sent ds s) = auth s"
  by (simp_all add: add_sent_def)

definition silent :: "Packet \<Rightarrow> bool" where
  "silent p \<longleftrightarrow> \<not> (has_flag p FLAG_NEED_ACK \<and> has_flag p FLAG_RELIABLE)"

definition encodable :: "Packet \<Rightarrow> bool" where
  "encodable p \<longleftrightarrow> isV1 p \<longrightarrow> p_type p \<noteq> SYN \<and> p_type p \<noteq> CONNECT \<or> length (connectionSignature p) \<in> {0, 16}"

lemma encode_packet_ok:
  assumes "encodable p"
  shows "\<exists>d p'. encode_packet c p = Inr (d, p') \<and> p_flags p' = p_flags p \<and> seqId p' = seqId p
    \<and> substreamId p' = substreamId p \<and> p_type p' = p_type p"
  using assms
  by (auto simp: encode_packet_def encodable_def encodeV1_def specificV1_def encodeV0_def Let_def)

lemma send_fragment_silent:
  assumes "silent p" and "encodable p"
  shows "\<exists>e' ds. send_fragment ev addr e p s = (Inr e', add_sent ds s)"
proof -
  have "encodable (p\<lparr>p_encoder := e\<rparr>)" using assms(2) by (simp add: encodable_def)
  then obtain d p' where p': "encode_packet (crypto ev) (p\<lparr>p_encoder := e\<rparr>) = Inr (d, p')"
    "p_flags p' = p_flags p"
    using encode_packet_ok by fastforce
  then have "\<not> (has_flag p' FLAG_NEED_ACK \<and> has_flag p' FLAG_RELIABLE)"
    using assms(1) by (simp add: silent_def has_flag_def)
  then show ?thesis
    using p' by (simp add: send_fragment_def bindS_def seqS_def sendBytes_def) (auto simp: add_sent_def)
qed

lemma send_fragments_silent:
  assumes "\<forall>p \<in> set ps. silent p \<and> encodable p"
  shows "\<exists>e' ds. send_fragments ev addr e ps s = (Inr e', add_sent ds s)"
  using assms
proof (induction ps arbitrary: e s)
  case Nil
  have "add_sent [] s = s" by simp
  then show ?case by (metis returnS_apply send_fragments.simps(1))
next
  case (Cons p ps)
  obtain e1 d1 where 1: "send_fragment ev addr e p s = (Inr e1, add_sent d1 s)"
    using send_fragment_silent [of p ev addr e s] Cons.prems by auto
  obtain e2 d2 where "send_fragments ev addr e1 ps (add_sent d1 s) = (Inr e2, add_sent d2 (add_sent d1 s))"
    using Cons.IH [of e1 "add_sent d1 s"] Cons.prems by auto
  then show ?case using 1 by (simp add: bindS_def) metis
qed

text \<open>All pieces of a packet have its flags and its type.\<close>

lemma split_fragments_props:
  "\<forall>q \<in> set (split_fragments fid p). p_flags q = p_flags p \<and> p_type q = p_type p \<and> isV1 q = isV1 p
     \<and> connectionSignature q = connectionSignature p \<and> substreamId q = substreamId p"
  by (induction fid p rule: split_fragments.induct) (subst split_fragments.simps, auto)

lemma sendPacket_silent:
  assumes "silent p" and "encodable p"
  shows "\<exists>e' ds. sendPacket ev addr p s = (Inr e', add_sent ds s)"
  unfolding sendPacket_def
  by (rule send_fragments_silent)
     (use assms split_fragments_props [of 1 p] in \<open>auto simp: silent_def encodable_def has_flag_def\<close>)

lemma flag_bits:
  "FLAG_ACK AND FLAG_NEED_ACK = 0" "FLAG_ACK AND FLAG_RELIABLE = 0" "FLAG_HAS_SIZE AND FLAG_RELIABLE = 0"
  "FLAG_HAS_SIZE AND FLAG_NEED_ACK = 0" "FLAG_MULTI_ACK AND FLAG_RELIABLE = 0"
  "FLAG_MULTI_ACK AND FLAG_NEED_ACK = 0" "FLAG_NEED_ACK AND FLAG_RELIABLE = 0"
  "FLAG_RELIABLE AND FLAG_NEED_ACK = 0" "FLAG_RELIABLE AND FLAG_RELIABLE \<noteq> 0"
  "FLAG_NEED_ACK AND FLAG_NEED_ACK \<noteq> 0"
  by (simp_all add: FLAG_ACK_def FLAG_NEED_ACK_def FLAG_RELIABLE_def FLAG_HAS_SIZE_def FLAG_MULTI_ACK_def)

lemma and_or_word: "(x OR y) AND (z :: u16) = (x AND z) OR (y AND z)"
  by (rule bit_word_eqI) (auto simp: bit_simps)

lemma silent_crafted:
  "silent (craftAck ev s addr req sid remote skey)"
  "silent (craftAggregateAck ev s addr mn sid sub ids remote skey)"
  "silent (craftPing ev s addr sid remote skey)"
  by (simp_all add: silent_def has_flag_def craftAck_def craftAggregateAck_def craftPing_def Let_def
      and_or_word flag_bits)

lemma crafted_fields:
  "isV1 (craftAck ev s addr req sid remote skey) = v1 s"
  "connectionSignature (craftAck ev s addr req sid remote skey) =
     (if p_type req = SYN then calculateConnSignature ev s (pa_address addr)
      else if majorVersion s = 0 then replicate 4 0 else replicate 16 0)"
  "p_type (craftAggregateAck ev s addr mn sid sub ids remote skey) = DATA"
  by (simp_all add: craftAck_def craftAggregateAck_def Let_def new_packet_def)

lemma encodable_crafted:
  "crypto_ok (crypto ev) \<Longrightarrow> encodable (craftAck ev s addr req sid remote skey)"
  "encodable (craftAggregateAck ev s addr mn sid sub ids remote skey)"
  by (simp_all add: encodable_def crafted_fields v1_def calculateConnSignature_def crypto_ok_def Let_def)

lemma send_ack_silent:
  assumes "crypto_ok (crypto ev)" and "clients s addr = Some c"
  shows "\<exists>ds. send_ack ev addr p s = (Inr (), add_sent ds s)"
proof -
  let ?r = "craftAck ev s addr p (cl_sessionId c) (cl_remoteSignature c) (cl_sessionKey c)"
  obtain e' ds where "sendPacket ev addr ?r s = (Inr e', add_sent ds s)"
    using sendPacket_silent [OF silent_crafted(1) encodable_crafted(1) [OF assms(1)]] by blast
  then show ?thesis using assms(2) by (auto simp: send_ack_def)
qed

lemma send_aggregate_silent:
  assumes "clients s addr = Some c"
  shows "\<exists>ds. send_aggregate ev addr sub acked s = (Inr (), add_sent ds s)"
proof -
  let ?r = "craftAggregateAck ev s addr (cl_minorVersion c) (cl_sessionId c) sub acked
    (cl_remoteSignature c) (cl_sessionKey c)"
  obtain e' ds where "sendPacket ev addr ?r s = (Inr e', add_sent ds s)"
    using sendPacket_silent [OF silent_crafted(2) encodable_crafted(2)] by blast
  then show ?thesis using assms by (auto simp: send_aggregate_def)
qed

section \<open>Steps of the receiving half\<close>

text \<open>The client has its ping task: what \<open>resetPingTask\<close> needs, and what it keeps.\<close>

definition pinged :: "PRUDPAddress \<Rightarrow> PrudpClient \<Rightarrow> 'r PrudpServer \<Rightarrow> bool" where
  "pinged addr c s \<longleftrightarrow> (\<exists>x \<in> set (delayedPackets s). is_ping_task (nextPing c) addr x)"

lemma resetPingTask_pinged:
  assumes c: "clients s addr = Some c" and ping: "pinged addr c s"
  shows "\<exists>t m. resetPingTask ev addr s =
      (Inr (), (set_client addr (c\<lparr>nextPing := t\<rparr>) s)\<lparr>delayedPackets := m\<rparr>)
    \<and> pinged addr (c\<lparr>nextPing := t\<rparr>) ((set_client addr (c\<lparr>nextPing := t\<rparr>) s)\<lparr>delayedPackets := m\<rparr>)"
proof -
  obtain bef u d aft where ex:
    "List.extract (is_ping_task (nextPing c) addr) (delayedPackets s) = Some (bef, (u, d), aft)"
    using ping extract_None_iff [of "is_ping_task (nextPing c) addr" "delayedPackets s"]
    by (cases "List.extract (is_ping_task (nextPing c) addr) (delayedPackets s)") (auto simp: pinged_def)
  then have d: "dp_addr d = addr" "p_type (dp_packet d) = PING"
    using extract_SomeE [OF ex] by (auto simp: is_ping_task_def)
  define t where "t = steady ev + PING_INTERVAL"
  define m where "m = insert_delayed t (restart_ping d) (bef @ aft)"
  have run: "resetPingTask ev addr s = (Inr (), (set_client addr (c\<lparr>nextPing := t\<rparr>) s)\<lparr>delayedPackets := m\<rparr>)"
    using c ex by (simp add: resetPingTask_def m_def t_def Let_def)
  have "(t, restart_ping d) \<in> set m" by (simp add: m_def insert_delayed_def)
  moreover have "is_ping_task t addr (t, restart_ping d)"
    using d by (simp add: is_ping_task_def restart_ping_def)
  ultimately have "pinged addr (c\<lparr>nextPing := t\<rparr>) ((set_client addr (c\<lparr>nextPing := t\<rparr>) s)\<lparr>delayedPackets := m\<rparr>)"
    by (auto simp: pinged_def)
  with run show ?thesis by blast
qed

lemma upd_sub_fields [simp]:
  "nextPing (upd_sub sub f c) = nextPing c" "cl_remoteSignature (upd_sub sub f c) = cl_remoteSignature c"
  "cl_sessionKey (upd_sub sub f c) = cl_sessionKey c" "cl_encoder (upd_sub sub f c) = cl_encoder c"
  "cl_minorVersion (upd_sub sub f c) = cl_minorVersion c"
  "length (substreams (upd_sub sub f c)) = length (substreams c)"
  "unat sub < length (substreams c) \<Longrightarrow> substreams (upd_sub sub f c) ! unat sub = f (substreams c ! unat sub)"
  by (simp_all add: upd_sub_def)

lemma modify_sub_apply:
  "clients s addr = Some c \<Longrightarrow> modify_sub addr sub f s = (Inr (), set_client addr (upd_sub sub f c) s)"
  by (simp add: modify_sub_def)

lemma read_sub_apply:
  "clients s addr = Some c \<Longrightarrow> unat sub < length (substreams c) \<Longrightarrow>
   read_sub addr sub f s = f c (substreams c ! unat sub) s"
  by (simp add: read_sub_def get_sub_def)

text \<open>A data fragment that is new is acknowledged, now or with others, and its id is taken.\<close>

lemma ack_fragment_new:
  fixes s :: "'a PrudpServer"
  assumes cr: "crypto_ok (crypto ev)" and c: "clients s addr = Some c" and sub: "unat sub < length (substreams c)"
    and new: "recvSeqId (substreams c ! unat sub) < seqId p" and ty: "p_type p = DATA"
  shows "\<exists>acked' es. ack_fragment ev addr sub agg p acked s =
    (Inr acked', set_client addr (upd_sub sub (\<lambda>st. st\<lparr>recvSeqId := recvSeqId st + 1\<rparr>) c) (add_sent es s))"
proof -
  obtain ds where ds: "send_ack ev addr p s = (Inr (), add_sent ds s)"
    using send_ack_silent [OF cr c] by blast
  define m :: "('a, u16 list) srv" where "m = (if has_flag p FLAG_NEED_ACK then
      (if agg \<and> p_type p = DATA then returnS (acked @ [seqId p])
       else seqS (repeatS (if p_type p = DISCONNECT then 3 else 1) (send_ack ev addr p))
              (returnS acked))
    else returnS acked)"
  obtain acked' es where m: "m s = (Inr acked', add_sent es s)"
  proof (cases "has_flag p FLAG_NEED_ACK \<and> \<not> agg")
    case True
    then have "m s = (Inr acked, add_sent ds s)" using ds ty by (simp add: m_def)
    then show ?thesis by (rule that)
  next
    case False
    then have "m s = (Inr (if has_flag p FLAG_NEED_ACK then acked @ [seqId p] else acked), add_sent [] s)"
      using ty by (auto simp: m_def)
    then show ?thesis by (rule that)
  qed
  have "clients (add_sent es s) addr = Some c" using c by simp
  from modify_sub_apply [OF this] show ?thesis
    unfolding ack_fragment_def using new m by (auto simp: read_sub_apply [OF c sub] simp flip: m_def)
qed

section \<open>Fragments of a message\<close>

text \<open>What the pieces of a packet carry, number by number.\<close>

lemma split_fragments_not_Nil [simp]: "split_fragments fid p \<noteq> []"
  by (subst split_fragments.simps) simp

lemma concat_split_fragments: "concat (map p_data (split_fragments fid p)) = p_data p"
proof (induction fid p rule: split_fragments.induct)
  case (1 fid p)
  then show ?case by (subst split_fragments.simps) simp
qed

lemma split_fragments_size:
  "q \<in> set (split_fragments fid p) \<Longrightarrow> length (p_data q) \<le> MAX_PACKET_SIZE"
proof (induction fid p rule: split_fragments.induct)
  case (1 fid p)
  from "1.prems" show ?case
    by (subst (asm) split_fragments.simps) (auto split: if_splits dest: "1.IH")
qed

lemma length_split_fragments:
  assumes "p_data p \<noteq> []"
  shows "length (split_fragments fid p) = (length (p_data p) + MAX_PACKET_SIZE - 1) div MAX_PACKET_SIZE"
  using assms
proof (induction fid p rule: split_fragments.induct)
  case (1 fid p)
  show ?case
  proof (cases "MAX_PACKET_SIZE < length (p_data p)")
    case True
    let ?q = "p\<lparr>seqId := seqId p + 1, p_data := drop MAX_PACKET_SIZE (p_data p)\<rparr>"
    have IH: "length (split_fragments (fid + 1) ?q) =
        (length (p_data p) - MAX_PACKET_SIZE + MAX_PACKET_SIZE - 1) div MAX_PACKET_SIZE"
      using "1.IH" True by simp
    have "(length (p_data p) + MAX_PACKET_SIZE - 1) div MAX_PACKET_SIZE =
      (length (p_data p) - 1) div MAX_PACKET_SIZE + 1"
      using True by (simp add: MAX_PACKET_SIZE_def div_add_self2 [symmetric])
    then show ?thesis using True IH by (subst split_fragments.simps) simp
  next
    case False
    have "(length (p_data p) + MAX_PACKET_SIZE - 1) div MAX_PACKET_SIZE = 1"
    proof (rule div_nat_eqI)
      show "MAX_PACKET_SIZE * 1 \<le> length (p_data p) + MAX_PACKET_SIZE - 1"
        using "1.prems" by (cases "p_data p") simp_all
      show "length (p_data p) + MAX_PACKET_SIZE - 1 < MAX_PACKET_SIZE * Suc 1"
        using False by (simp add: MAX_PACKET_SIZE_def)
    qed
    then show ?thesis using False by (subst split_fragments.simps) simp
  qed
qed

lemma split_fragments_seqIds:
  "map seqId (split_fragments fid p) = map (\<lambda>i. seqId p + of_nat i) [0..<length (split_fragments fid p)]"
proof (induction fid p rule: split_fragments.induct)
  case (1 fid p)
  show ?case
  proof (cases "MAX_PACKET_SIZE < length (p_data p)")
    case True
    then show ?thesis
      using "1.IH" [OF True]
      by (subst (1 2) split_fragments.simps)
         (simp add: upt_conv_Cons map_Suc_upt [symmetric] ac_simps del: upt_Suc)
  next
    case False
    then show ?thesis by (subst (1 2) split_fragments.simps) simp
  qed
qed

lemma split_fragments_ids:
  "map fragmentId (split_fragments fid p) =
     map (\<lambda>i. fid + of_nat i) [0..<length (split_fragments fid p) - 1] @ [fragmentId p]"
proof (induction fid p rule: split_fragments.induct)
  case (1 fid p)
  show ?case
  proof (cases "MAX_PACKET_SIZE < length (p_data p)")
    case True
    let ?q = "p\<lparr>seqId := seqId p + 1, p_data := drop MAX_PACKET_SIZE (p_data p)\<rparr>"
    obtain n where n: "length (split_fragments (fid + 1) ?q) = Suc n"
      by (metis length_0_conv not0_implies_Suc split_fragments_not_Nil)
    have eq: "split_fragments fid p =
      p\<lparr>fragmentId := fid, p_data := take MAX_PACKET_SIZE (p_data p)\<rparr> # split_fragments (fid + 1) ?q"
      using True by (subst split_fragments.simps) simp
    show ?thesis
      using "1.IH" [OF True] n
      by (simp add: eq upt_conv_Cons map_Suc_upt [symmetric] ac_simps del: upt_Suc)
  next
    case False
    then show ?thesis by (subst (1 2) split_fragments.simps) simp
  qed
qed

end
