(* ===== verification/PrudpDelivery.thy ===== *)
theory PrudpDelivery
  imports PrudpSending
begin

text \<open>
  The contract of a reliable substream. A peer numbers and encrypts a sequence of messages; the
  packets reach the server in any order and any number of times. The RMC server of the port gets
  every message of the longest prefix that has arrived, once each, in the order of the sequence.
\<close>

section \<open>The abstract channel\<close>

text \<open>
  What the peer sends: the messages, the sequence id in front of the first one, and its encoder.
  \<open>consume\<close> is what the RMC server makes of one message while its state is \<open>good\<close>.
\<close>

record 'r Channel =
  ch_env :: Env
  ch_addr :: PRUDPAddress
  ch_sub :: u8
  ch_messages :: "bytes list"
  ch_start :: nat
  ch_encoder :: Encoder
  ch_port :: u8
  ch_minor :: u8
  ch_good :: "'r \<Rightarrow> bool"
  ch_consume :: "bytes \<Rightarrow> 'r \<Rightarrow> 'r"

definition channel_ok :: "'r Channel \<Rightarrow> bool" where
  "channel_ok C \<longleftrightarrow> crypto_ok (crypto (ch_env C)) \<and> length (ch_messages C) \<le> MAX_PACKET_QUEUE_SIZE
     \<and> ch_start C + length (ch_messages C) < 65536"

definition ciphertexts :: "'r Channel \<Rightarrow> bytes list" where
  "ciphertexts C = snd (encode_all (ch_encoder C) (ch_messages C))"

text \<open>Packet \<open>p\<close> carries message \<open>i\<close> of the channel.\<close>

definition carries :: "'r Channel \<Rightarrow> nat \<Rightarrow> Packet \<Rightarrow> bool" where
  "carries C i p \<longleftrightarrow> i < length (ch_messages C) \<and> unat (seqId p) = ch_start C + i + 1
     \<and> encryptedData p = ciphertexts C ! i \<and> p_data p = [] \<and> fragmentId p = 0
     \<and> p_type p = DATA \<and> has_flag p FLAG_RELIABLE \<and> \<not> has_flag p FLAG_ACK
     \<and> \<not> has_flag p FLAG_MULTI_ACK \<and> dstPort p = ch_port C \<and> substreamId p = ch_sub C"

section \<open>Key streams along the channel\<close>

definition key_stream :: "'r Channel \<Rightarrow> nat \<Rightarrow> ARC4" where
  "key_stream C n = encCtx (fst (encode_all (ch_encoder C) (take n (ch_messages C))))"

lemma encode_all_append:
  "encode_all e (xs @ ys) =
     (let (e', a) = encode_all e xs; (e'', b) = encode_all e' ys in (e'', a @ b))"
  by (induction xs arbitrary: e) (auto split: prod.splits)

lemma length_encode_all [simp]: "length (snd (encode_all e ds)) = length ds"
  by (induction ds arbitrary: e) (auto split: prod.splits, metis snd_conv)

lemma encode_all_nth:
  assumes "i < length ds"
  shows "snd (encode_all e ds) ! i = snd (Encoder_encode (fst (encode_all e (take i ds))) (ds ! i))"
    and "fst (encode_all e (take (Suc i) ds)) = fst (Encoder_encode (fst (encode_all e (take i ds))) (ds ! i))"
proof -
  obtain e1 a where 1: "encode_all e (take i ds) = (e1, a)" by (cases "encode_all e (take i ds)")
  obtain e2 x where 2: "Encoder_encode e1 (ds ! i) = (e2, x)" by (cases "Encoder_encode e1 (ds ! i)")
  obtain e3 b where 3: "encode_all e2 (drop (Suc i) ds) = (e3, b)"
    by (cases "encode_all e2 (drop (Suc i) ds)")
  have len: "length a = i" using length_encode_all [of e "take i ds"] assms 1 by simp
  have "ds = take i ds @ ds ! i # drop (Suc i) ds" using assms by (simp add: id_take_nth_drop)
  then have "encode_all e ds = encode_all e (take i ds @ ds ! i # drop (Suc i) ds)" by simp
  also have "\<dots> = (e3, a @ x # b)" by (simp add: encode_all_append 1 2 3)
  finally show "snd (encode_all e ds) ! i = snd (Encoder_encode (fst (encode_all e (take i ds))) (ds ! i))"
    using len by (simp add: 1 2 nth_append)
  show "fst (encode_all e (take (Suc i) ds)) = fst (Encoder_encode (fst (encode_all e (take i ds))) (ds ! i))"
    using assms by (simp add: take_Suc_conv_app_nth encode_all_append 1 2)
qed

text \<open>A decoder at the stream's position reads the next message and is at the next position.\<close>

lemma decode_next:
  assumes "i < length (ch_messages C)" and "decCtx e = key_stream C i"
  shows "snd (Encoder_decode e (ciphertexts C ! i)) = ch_messages C ! i"
    and "decCtx (fst (Encoder_decode e (ciphertexts C ! i))) = key_stream C (Suc i)"
proof -
  define s where "s = fst (encode_all (ch_encoder C) (take i (ch_messages C)))"
  have sync: "synced s e" using assms(2) by (simp add: synced_def s_def key_stream_def)
  have c: "ciphertexts C ! i = snd (Encoder_encode s (ch_messages C ! i))"
    unfolding ciphertexts_def s_def by (rule encode_all_nth(1) [OF assms(1)])
  have k: "key_stream C (Suc i) = encCtx (fst (Encoder_encode s (ch_messages C ! i)))"
    unfolding key_stream_def s_def by (simp only: encode_all_nth(2) [OF assms(1)])
  show "snd (Encoder_decode e (ciphertexts C ! i)) = ch_messages C ! i"
    unfolding c by (rule synced_step(1) [OF sync])
  show "decCtx (fst (Encoder_decode e (ciphertexts C ! i))) = key_stream C (Suc i)"
    using synced_step(2) [OF sync, of "ch_messages C ! i"] by (simp add: c k synced_def)
qed

section \<open>The state of the receiver\<close>

text \<open>
  \<open>r\<close> sequence ids have been taken, \<open>k\<close> messages decrypted and \<open>m\<close> handed over: the three differ
  while a message is on its way through the server, and are equal in between (\<open>receiver\<close>).
\<close>

definition serves :: "'r Channel \<Rightarrow> 'r PrudpServer \<Rightarrow> bool" where
  "serves C s \<longleftrightarrow> (majorVersion s = 0 \<longrightarrow> ch_sub C = 0) \<and>
     (\<exists>info. registeredServers s (ch_port C) = Some info \<and>
       (\<forall>d \<in> set (ch_messages C). \<forall>r. ch_good C r \<longrightarrow>
          dataFunc info (ch_addr C) (ch_minor C) (ch_sub C) d r = Inr (ch_consume C d r, []) \<and>
          ch_good C (ch_consume C d r)))"

definition stream_at :: "'r Channel \<Rightarrow> nat \<Rightarrow> nat \<Rightarrow> PrudpClient \<Rightarrow> bool" where
  "stream_at C r k c \<longleftrightarrow>
     unat (ch_sub C) < length (substreams c) \<and> unat (ch_sub C) < length (encoders (cl_encoder c)) \<and>
     unat (recvSeqId (substreams c ! unat (ch_sub C))) = ch_start C + r \<and>
     decCtx (encoders (cl_encoder c) ! unat (ch_sub C)) = key_stream C k \<and>
     cl_minorVersion c = ch_minor C"

definition rx :: "'r Channel \<Rightarrow> 'r \<Rightarrow> nat \<Rightarrow> nat \<Rightarrow> nat \<Rightarrow> 'r PrudpServer \<Rightarrow> bool" where
  "rx C r0 r k m s \<longleftrightarrow> serves C s \<and> rmc s = fold (ch_consume C) (take m (ch_messages C)) r0 \<and>
     ch_good C (rmc s) \<and>
     (\<exists>c. clients s (ch_addr C) = Some c \<and> stream_at C r k c \<and> pinged (ch_addr C) c s)"

definition queued :: "'r Channel \<Rightarrow> nat list \<Rightarrow> 'r PrudpServer \<Rightarrow> bool" where
  "queued C js s \<longleftrightarrow> (\<exists>c. clients s (ch_addr C) = Some c \<and>
     list_all2 (carries C) js (packetQueue (substreams c ! unat (ch_sub C))))"

definition receiver :: "'r Channel \<Rightarrow> 'r \<Rightarrow> nat \<Rightarrow> nat list \<Rightarrow> 'r PrudpServer \<Rightarrow> bool" where
  "receiver C r0 n js s \<longleftrightarrow> n \<le> length (ch_messages C) \<and> rx C r0 n n n s \<and> queued C js s"

text \<open>What a packet's admission depends on, and what stays as it is.\<close>

definition admission :: "PRUDPAddress \<Rightarrow> 'r PrudpServer \<Rightarrow> nat \<times> u8 \<times> (bytes \<times> bytes) option" where
  "admission addr s = (majorVersion s, sv_maxSubstreamId s,
     map_option (\<lambda>c. (cl_remoteSignature c, cl_sessionKey c)) (clients s addr))"

definition admitted :: "'r Channel \<Rightarrow> IPv4Addr \<Rightarrow> 'r PrudpServer \<Rightarrow> Packet \<Rightarrow> bool" where
  "admitted C a s p \<longleftrightarrow> prudp_address a p = ch_addr C \<and>
     checkSignature (crypto (ch_env C)) (with_session (ch_env C) s (ch_addr C) p) \<and>
     \<not> bad_substream s p \<and> packet_substream s p = ch_sub C"

lemma with_session_admission:
  "with_session ev s addr p0 =
     (let p = (if p_type p0 \<noteq> SYN
               then p0\<lparr>connectionSignature := calculateConnSignature ev s (pa_address addr)\<rparr> else p0)
      in case snd (snd (admission addr s)) of
           Some (remote, key) \<Rightarrow> if p_type p \<noteq> SYN \<and> p_type p \<noteq> CONNECT
             then p\<lparr>remoteSignature := remote, p_sessionKey := key\<rparr> else p
         | None \<Rightarrow> p)"
  by (cases "clients s addr") (simp_all only: with_session_def admission_def snd_conv option.map
      option.case prod.case)

lemma admitted_cong:
  assumes "admission (ch_addr C) s' = admission (ch_addr C) s"
  shows "admitted C a s' p = admitted C a s p"
proof -
  have eq: "majorVersion s' = majorVersion s" "sv_maxSubstreamId s' = sv_maxSubstreamId s"
    using assms by (simp_all add: admission_def)
  have "calculateConnSignature ev s' x = calculateConnSignature ev s x" for ev x
    by (simp only: calculateConnSignature_def eq)
  then have "with_session ev s' (ch_addr C) p = with_session ev s (ch_addr C) p" for ev
    by (simp only: with_session_admission assms)
  then show ?thesis by (simp only: admitted_def bad_substream_def packet_substream_def eq)
qed

lemma carries_with_session [simp]: "carries C i (with_session ev s addr p) = carries C i p"
  by (auto simp: carries_def with_session_def Let_def has_flag_def split: option.splits)

section \<open>One routine after the other\<close>

text \<open>Each step moves one of the counters, and leaves the admission of packets as it is.\<close>

definition same_admission :: "'r Channel \<Rightarrow> 'r PrudpServer \<Rightarrow> 'r PrudpServer \<Rightarrow> bool" where
  "same_admission C s s' \<longleftrightarrow> admission (ch_addr C) s' = admission (ch_addr C) s"

lemma same_admission_trans: "same_admission C s t \<Longrightarrow> same_admission C t u \<Longrightarrow> same_admission C s u"
  by (simp add: same_admission_def)

lemma rx_client: "rx C r0 r k m s \<Longrightarrow> \<exists>c. clients s (ch_addr C) = Some c \<and> stream_at C r k c"
  by (auto simp: rx_def)

lemma step_sent:
  "rx C r0 r k m (add_sent ds s) = rx C r0 r k m s" "queued C js (add_sent ds s) = queued C js s"
  "same_admission C s (add_sent ds s)"
  by (simp_all add: rx_def serves_def pinged_def queued_def same_admission_def admission_def)

text \<open>A change of the client that keeps its session and its next ping.\<close>

lemma step_client:
  assumes "rx C r0 r k m s" and "clients s (ch_addr C) = Some c" and "stream_at C r' k' c'"
    and "nextPing c' = nextPing c" "cl_remoteSignature c' = cl_remoteSignature c"
      "cl_sessionKey c' = cl_sessionKey c"
  shows "rx C r0 r' k' m (set_client (ch_addr C) c' s)"
    and "same_admission C s (set_client (ch_addr C) c' s)"
  using assms
  by (auto simp: rx_def serves_def pinged_def set_client_def same_admission_def admission_def)

lemma queued_set_client:
  "queued C js (set_client (ch_addr C) c s) \<longleftrightarrow>
     list_all2 (carries C) js (packetQueue (substreams c ! unat (ch_sub C)))"
  by (simp add: queued_def set_client_def)

lemma step_recv:
  assumes "rx C r0 r k m s" and "queued C js s" and "ch_start C + r + 1 < 65536"
  shows "\<exists>s'. modify_sub (ch_addr C) (ch_sub C) (\<lambda>st. st\<lparr>recvSeqId := recvSeqId st + 1\<rparr>) s = (Inr (), s')
    \<and> rx C r0 (Suc r) k m s' \<and> queued C js s' \<and> same_admission C s s'"
proof -
  obtain c where c: "clients s (ch_addr C) = Some c" "stream_at C r k c" using rx_client [OF assms(1)] by blast
  let ?c = "upd_sub (ch_sub C) (\<lambda>st. st\<lparr>recvSeqId := recvSeqId st + 1\<rparr>) c"
  have "unat (recvSeqId (substreams c ! unat (ch_sub C)) + 1) = ch_start C + Suc r"
    using c(2) assms(3) by (simp add: stream_at_def unat_word_ariths)
  then have "stream_at C (Suc r) k ?c" using c(2) by (simp add: stream_at_def)
  note step = step_client [OF assms(1) c(1) this]
  have "queued C js (set_client (ch_addr C) ?c s)"
    using assms(2) c by (simp add: queued_def set_client_def stream_at_def)
  with step modify_sub_apply [OF c(1)] show ?thesis by simp
qed

lemma step_queue:
  assumes "rx C r0 r k m s"
  shows "\<exists>s'. modify_sub (ch_addr C) (ch_sub C) (\<lambda>st. st\<lparr>packetQueue := q\<rparr>) s = (Inr (), s')
    \<and> rx C r0 r k m s' \<and> (list_all2 (carries C) js q \<longrightarrow> queued C js s') \<and> same_admission C s s'"
proof -
  obtain c where c: "clients s (ch_addr C) = Some c" "stream_at C r k c" using rx_client [OF assms] by blast
  let ?c = "upd_sub (ch_sub C) (\<lambda>st. st\<lparr>packetQueue := q\<rparr>) c"
  have "stream_at C r k ?c" using c(2) by (simp add: stream_at_def)
  note step = step_client [OF assms c(1) this]
  have "list_all2 (carries C) js q \<longrightarrow> queued C js (set_client (ch_addr C) ?c s)"
    using c by (simp add: queued_set_client stream_at_def)
  with step modify_sub_apply [OF c(1)] show ?thesis by simp
qed

lemma step_encoder:
  assumes "rx C r0 r k m s" and "decCtx e = key_stream C k'"
  shows "\<exists>s'. store_encoder (ch_addr C) (ch_sub C) (Some e) s = (Inr (), s')
    \<and> rx C r0 r k' m s' \<and> same_admission C s s'"
proof -
  obtain c where c: "clients s (ch_addr C) = Some c" "stream_at C r k c" using rx_client [OF assms(1)] by blast
  let ?c = "c\<lparr>cl_encoder := setReliableEncoder (ch_sub C) e (cl_encoder c)\<rparr>"
  have "stream_at C r k' ?c" using c(2) assms(2) by (simp add: stream_at_def setReliableEncoder_def)
  note step = step_client [OF assms(1) c(1) this]
  with c show ?thesis by (simp add: store_encoder_def)
qed

lemma served:
  assumes "rx C r0 r k m s" and "m < length (ch_messages C)"
  obtains info where "registeredServers s (ch_port C) = Some info" "majorVersion s = 0 \<longrightarrow> ch_sub C = 0"
    "dataFunc info (ch_addr C) (ch_minor C) (ch_sub C) (ch_messages C ! m) (rmc s) =
       Inr (ch_consume C (ch_messages C ! m) (rmc s), [])"
    "ch_good C (ch_consume C (ch_messages C ! m) (rmc s))"
  using assms by (auto simp: rx_def serves_def)

lemma step_rmc:
  assumes "rx C r0 r k m s" and "m < length (ch_messages C)"
  shows "rx C r0 r k (Suc m) (s\<lparr>rmc := ch_consume C (ch_messages C ! m) (rmc s)\<rparr>)"
    and "same_admission C s (s\<lparr>rmc := x\<rparr>)"
proof -
  obtain info where "ch_good C (ch_consume C (ch_messages C ! m) (rmc s))"
    by (rule served [OF assms]) blast
  then show "rx C r0 r k (Suc m) (s\<lparr>rmc := ch_consume C (ch_messages C ! m) (rmc s)\<rparr>)"
    using assms by (auto simp: rx_def serves_def pinged_def take_Suc_conv_app_nth)
  show "same_admission C s (s\<lparr>rmc := x\<rparr>)" by (simp add: same_admission_def admission_def)
qed

lemma step_ping:
  assumes "rx C r0 r k m s" and "queued C js s"
  shows "\<exists>s'. resetPingTask ev (ch_addr C) s = (Inr (), s') \<and> rx C r0 r k m s' \<and> queued C js s'
    \<and> same_admission C s s'"
proof -
  obtain c where c: "clients s (ch_addr C) = Some c" "stream_at C r k c" and ping: "pinged (ch_addr C) c s"
    using assms(1) by (auto simp: rx_def)
  from resetPingTask_pinged [OF c(1) ping, of ev] obtain t d where
    *: "resetPingTask ev (ch_addr C) s =
      (Inr (), (set_client (ch_addr C) (c\<lparr>nextPing := t\<rparr>) s)\<lparr>delayedPackets := d\<rparr>)"
    "pinged (ch_addr C) (c\<lparr>nextPing := t\<rparr>)
      ((set_client (ch_addr C) (c\<lparr>nextPing := t\<rparr>) s)\<lparr>delayedPackets := d\<rparr>)" by blast
  define s' where "s' = (set_client (ch_addr C) (c\<lparr>nextPing := t\<rparr>) s)\<lparr>delayedPackets := d\<rparr>"
  note run = *(1) [folded s'_def] and ping' = *(2) [folded s'_def]
  have "stream_at C r k (c\<lparr>nextPing := t\<rparr>)" using c(2) by (simp add: stream_at_def)
  then have "rx C r0 r k m s'" using assms(1) ping' by (auto simp: rx_def serves_def set_client_def s'_def)
  moreover have "queued C js s'" using assms(2) c by (simp add: queued_def set_client_def s'_def)
  moreover have "same_admission C s s'"
    using c by (simp add: same_admission_def admission_def set_client_def s'_def)
  ultimately show ?thesis using run by blast
qed

section \<open>One message through the queue\<close>

lemma ack_fragment_delivers:
  assumes ok: "channel_ok C" "ev = ch_env C" and rx: "rx C r0 n n n s" "queued C js s"
    and p: "carries C n p"
  shows "\<exists>acked' s'. ack_fragment ev (ch_addr C) (ch_sub C) agg p acked s = (Inr acked', s')
    \<and> rx C r0 (Suc n) n n s' \<and> queued C js s' \<and> same_admission C s s'"
proof -
  obtain c where c: "clients s (ch_addr C) = Some c" "stream_at C n n c" using rx_client [OF rx(1)] by blast
  have sub: "unat (ch_sub C) < length (substreams c)" using c(2) by (simp add: stream_at_def)
  have new: "recvSeqId (substreams c ! unat (ch_sub C)) < seqId p" and ty: "p_type p = DATA"
    using c(2) p by (simp_all add: stream_at_def carries_def word_less_nat_alt)
  have cr: "crypto_ok (crypto ev)" using ok by (simp add: channel_ok_def)
  have room: "ch_start C + n + 1 < 65536" using ok p by (simp add: channel_ok_def carries_def)
  from ack_fragment_new [OF cr c(1) sub new ty] obtain acked' es where
    run: "ack_fragment ev (ch_addr C) (ch_sub C) agg p acked s = (Inr acked', set_client (ch_addr C)
      (upd_sub (ch_sub C) (\<lambda>st. st\<lparr>recvSeqId := recvSeqId st + 1\<rparr>) c) (add_sent es s))" by blast
  have "rx C r0 n n n (add_sent es s)" "queued C js (add_sent es s)"
    using rx by (simp_all only: step_sent)
  from step_recv [OF this room] obtain s' where s':
    "modify_sub (ch_addr C) (ch_sub C) (\<lambda>st. st\<lparr>recvSeqId := recvSeqId st + 1\<rparr>) (add_sent es s) = (Inr (), s')"
    "rx C r0 (Suc n) n n s'" "queued C js s'" "same_admission C (add_sent es s) s'" by blast
  have "s' = set_client (ch_addr C) (upd_sub (ch_sub C) (\<lambda>st. st\<lparr>recvSeqId := recvSeqId st + 1\<rparr>) c) (add_sent es s)"
    using s'(1) c(1) by (simp add: modify_sub_apply)
  with run s' same_admission_trans [OF step_sent(3) s'(4)] show ?thesis by blast
qed

lemma walk_single:
  assumes "channel_ok C" "ev = ch_env C" "rx C r0 n n n s" "queued C js s" "carries C n p"
  shows "\<exists>acked' s'. walk_fragments ev (ch_addr C) (ch_sub C) agg p ps False acked s = (Inr (True, False, acked'), s')
    \<and> rx C r0 (Suc n) n n s' \<and> queued C js s' \<and> same_admission C s s'"
proof -
  from ack_fragment_delivers [OF assms, of agg acked] obtain acked' s' where s':
    "ack_fragment ev (ch_addr C) (ch_sub C) agg p acked s = (Inr acked', s')"
    "rx C r0 (Suc n) n n s'" "queued C js s'" "same_admission C s s'" by blast
  have "fragmentId p = 0" using assms(5) by (simp add: carries_def)
  with s' show ?thesis by (subst walk_fragments.simps) simp
qed

text \<open>The payload of a decrypted packet goes to the RMC server of its port.\<close>

lemma handle_data_delivers:
  assumes rx: "rx C r0 r k m s" and m: "m < length (ch_messages C)"
    and p: "p_data p = ch_messages C ! m" "dstPort p = ch_port C" "p_type p = DATA" "substreamId p = ch_sub C"
      "\<not> has_flag p FLAG_ACK" "\<not> has_flag p FLAG_MULTI_ACK"
  shows "handlePacket ev (ch_addr C) p s = (Inr True, s\<lparr>rmc := ch_consume C (ch_messages C ! m) (rmc s)\<rparr>)"
proof -
  obtain c where c: "clients s (ch_addr C) = Some c" "cl_minorVersion c = ch_minor C"
    using rx_client [OF rx] by (auto simp: stream_at_def)
  obtain info where info: "registeredServers s (ch_port C) = Some info"
    "majorVersion s = 0 \<longrightarrow> ch_sub C = 0"
    "dataFunc info (ch_addr C) (ch_minor C) (ch_sub C) (ch_messages C ! m) (rmc s) =
       Inr (ch_consume C (ch_messages C ! m) (rmc s), [])"
    by (rule served [OF rx m]) (rule that; assumption)
  have "(if majorVersion s = 0 then 0 else substreamId p) = ch_sub C" using info(2) p(4) by simp
  then show ?thesis
    using c info(1,3) p(1-3,5,6) by (simp add: handlePacket_def handle_data_def)
qed

lemma decrypt_single:
  assumes "carries C n p" and "decCtx e = key_stream C n"
  shows "\<exists>p' e'. decrypt_run e [p] = Inr ([p'], e') \<and> decCtx e' = key_stream C (Suc n)
    \<and> p_data p' = ch_messages C ! n \<and> fragmentId p' = 0 \<and> dstPort p' = ch_port C \<and> p_type p' = DATA
    \<and> p_flags p' = p_flags p \<and> substreamId p' = ch_sub C"
proof -
  have n: "n < length (ch_messages C)" and p: "encryptedData p = ciphertexts C ! n" "p_data p = []"
    "fragmentId p = 0" "dstPort p = ch_port C" "p_type p = DATA" "substreamId p = ch_sub C"
    using assms(1) by (simp_all add: carries_def)
  obtain e' d where e': "Encoder_decode e (ciphertexts C ! n) = (e', d)" by (cases "Encoder_decode e (ciphertexts C ! n)")
  with decode_next [OF n assms(2)] have "d = ch_messages C ! n" "decCtx e' = key_stream C (Suc n)" by simp_all
  with e' p show ?thesis by (simp add: decryptData_def)
qed

lemma run_of_carried:
  assumes "list_all2 (carries C) js ps"
  shows "run_of (p # ps) = [p]" and "after_run (p # ps) = ps"
  using assms by (cases ps; cases js; simp add: run_of_def after_run_def carries_def)+

lemma deliver_run_delivers:
  assumes rx: "rx C r0 (Suc n) n n s" and p: "carries C n p" and ps: "list_all2 (carries C) js ps"
  shows "\<exists>s'. deliver_run ev (ch_addr C) (ch_sub C) agg (p # ps) acked s = (Inr (More acked), s')
    \<and> receiver C r0 (Suc n) js s' \<and> same_admission C s s'"
proof -
  obtain c where c: "clients s (ch_addr C) = Some c" "stream_at C (Suc n) n c" using rx_client [OF rx] by blast
  let ?sub = "ch_sub C" and ?a = "ch_addr C"
  have sub: "unat ?sub < length (substreams c)" "unat ?sub < length (encoders (cl_encoder c))"
    using c(2) by (simp_all add: stream_at_def)
  define e where "e = encoders (cl_encoder c) ! unat ?sub"
  have e: "getReliableEncoder (cl_encoder c) ?sub = Inr e" "decCtx e = key_stream C n"
    using sub c(2) by (simp_all add: getReliableEncoder_def e_def stream_at_def)
  have n: "n < length (ch_messages C)" using p by (simp add: carries_def)
  obtain p' e' where d: "decrypt_run e [p] = Inr ([p'], e')" "decCtx e' = key_stream C (Suc n)"
    and p': "p_data p' = ch_messages C ! n" "fragmentId p' = 0" "dstPort p' = ch_port C" "p_type p' = DATA"
      "p_flags p' = p_flags p" "substreamId p' = ch_sub C"
    using decrypt_single [OF p e(2)] by blast
  have flags: "\<not> has_flag p' FLAG_ACK" "\<not> has_flag p' FLAG_MULTI_ACK"
    using p p'(5) by (simp_all add: carries_def has_flag_def)
  obtain s1 where s1: "store_encoder ?a ?sub (Some e') s = (Inr (), s1)" "rx C r0 (Suc n) (Suc n) n s1"
    "same_admission C s s1" using step_encoder [OF rx d(2)] by blast
  obtain s2 where s2: "modify_sub ?a ?sub (\<lambda>st. st\<lparr>packetQueue := [p'] @ ps\<rparr>) s1 = (Inr (), s2)"
    "rx C r0 (Suc n) (Suc n) n s2" "same_admission C s1 s2" using step_queue [OF s1(2)] by blast
  define s3 where "s3 = s2\<lparr>rmc := ch_consume C (ch_messages C ! n) (rmc s2)\<rparr>"
  have s3: "handlePacket ev ?a p' s2 = (Inr True, s3)" "rx C r0 (Suc n) (Suc n) (Suc n) s3"
    "same_admission C s2 s3"
    using handle_data_delivers [OF s2(2) n p'(1,3,4,6) flags] step_rmc(1) [OF s2(2) n] step_rmc(2) [OF s2(2) n]
    by (simp_all add: s3_def)
  obtain s4 where s4: "modify_sub ?a ?sub (\<lambda>st. st\<lparr>packetQueue := ps\<rparr>) s3 = (Inr (), s4)"
    "rx C r0 (Suc n) (Suc n) (Suc n) s4" "queued C js s4" "same_admission C s3 s4"
    using step_queue [OF s3(2), of ps js] ps by blast
  have "deliver_run ev ?a ?sub agg (p # ps) acked s = (Inr (More acked), s4)"
    unfolding deliver_run_def run_of_carried [OF ps]
    using e d s1(1) s2(1) s3(1) s4(1) p'(2,4)
    by (simp add: read_sub_apply [OF c(1) sub(1)] last_fragment_def rethrowS_def)
  moreover have "receiver C r0 (Suc n) js s4" using s4 n by (simp add: receiver_def)
  moreover have "same_admission C s s4" using s1(3) s2(3) s3(3) s4(4) by (simp add: same_admission_def)
  ultimately show ?thesis by blast
qed

section \<open>The abstract reordering buffer\<close>

text \<open>
  \<open>(n, js)\<close>: messages below \<open>n\<close> are delivered, those in the ascending list \<open>js\<close> wait. An arrival
  below \<open>n\<close> changes nothing; any other is put in its place, and what is next in line is delivered.
\<close>

fun take_run :: "nat \<Rightarrow> nat list \<Rightarrow> nat \<times> nat list" where
  "take_run n [] = (n, [])"
| "take_run n (j # js) = (if j = n then take_run (Suc n) js else (n, j # js))"

fun index_insert :: "nat \<Rightarrow> nat list \<Rightarrow> nat list" where
  "index_insert i [] = [i]"
| "index_insert i (j # js) =
     (if i < j then i # j # js else if j < i then j # index_insert i js else j # js)"

definition buffer_arrive :: "nat \<Rightarrow> nat \<times> nat list \<Rightarrow> nat \<times> nat list" where
  "buffer_arrive i b = (if i < fst b then b else take_run (fst b) (index_insert i (snd b)))"

definition buffer_ok :: "nat set \<Rightarrow> nat \<times> nat list \<Rightarrow> bool" where
  "buffer_ok R b \<longleftrightarrow> sorted_wrt (<) (snd b) \<and> (\<forall>j \<in> set (snd b). fst b < j)
     \<and> {..<fst b} \<union> set (snd b) = R"

lemma set_index_insert: "set (index_insert i js) = insert i (set js)"
  by (induction js) auto

lemma sorted_index_insert: "sorted_wrt (<) js \<Longrightarrow> sorted_wrt (<) (index_insert i js)"
  by (induction js) (auto simp: set_index_insert)

lemma take_run_ok:
  "sorted_wrt (<) js \<Longrightarrow> \<forall>j \<in> set js. n \<le> j \<Longrightarrow> buffer_ok ({..<n} \<union> set js) (take_run n js)"
proof (induction n js rule: take_run.induct)
  case (1 n)
  show ?case by (simp add: buffer_ok_def)
next
  case (2 n j js)
  show ?case
  proof (cases "j = n")
    case True
    then have "buffer_ok ({..<Suc n} \<union> set js) (take_run (Suc n) js)"
      using 2 by (auto simp: Suc_le_eq)
    moreover have "{..<Suc n} \<union> set js = {..<n} \<union> set (j # js)" using True by auto
    ultimately show ?thesis using True by simp
  next
    case False
    then show ?thesis using "2.prems" by (auto simp: buffer_ok_def)
  qed
qed

lemma buffer_arrive_ok [inv_intros]:
  assumes "buffer_ok R b"
  shows "buffer_ok (insert i R) (buffer_arrive i b)"
proof (cases "i < fst b")
  case True
  then have "insert i R = R" using assms by (auto simp: buffer_ok_def)
  with assms True show ?thesis by (simp add: buffer_arrive_def)
next
  case False
  let ?js = "index_insert i (snd b)"
  have "buffer_ok ({..<fst b} \<union> set ?js) (take_run (fst b) ?js)"
    using assms False
    by (intro take_run_ok) (auto simp: buffer_ok_def set_index_insert sorted_index_insert)
  moreover have "{..<fst b} \<union> set ?js = insert i R" using assms by (auto simp: buffer_ok_def set_index_insert)
  ultimately show ?thesis using False by (simp add: buffer_arrive_def)
qed

text \<open>So what is delivered is exactly the longest prefix of what has arrived.\<close>

lemma buffer_prefix:
  assumes "buffer_ok R b"
  shows "{..<fst b} \<subseteq> R" and "fst b \<notin> R"
  using assms by (auto simp: buffer_ok_def)

lemma buffer_fold_ok: "buffer_ok R b \<Longrightarrow> buffer_ok (set is \<union> R) (fold buffer_arrive is b)"
proof (induction "is" arbitrary: R b)
  case (Cons i "is")
  from Cons.IH [OF buffer_arrive_ok [OF Cons.prems]] show ?case by simp
qed simp

section \<open>The server implements the buffer\<close>

lemma queue_loop_delivers:
  assumes "channel_ok C" "ev = ch_env C" "receiver C r0 n js s" "list_all2 (carries C) js q"
  shows "\<exists>acked' s'. queue_loop ev (ch_addr C) (ch_sub C) agg q acked s = (Inr (False, acked'), s')
    \<and> receiver C r0 (fst (take_run n js)) (snd (take_run n js)) s' \<and> same_admission C s s'"
  using assms(3,4)
proof (induction js arbitrary: n q acked s)
  case Nil
  then have "q = []" by simp
  then show ?case using Nil by (simp add: queue_loop.simps same_admission_def)
next
  case (Cons j js)
  then obtain p ps where q: "q = p # ps" and p: "carries C j p" and ps: "list_all2 (carries C) js ps"
    by (auto simp: list_all2_Cons1)
  have rx: "rx C r0 n n n s" "queued C (j # js) s" using Cons.prems(1) by (simp_all add: receiver_def)
  obtain c where c: "clients s (ch_addr C) = Some c" "stream_at C n n c" using rx_client [OF rx(1)] by blast
  have sub: "unat (ch_sub C) < length (substreams c)" using c(2) by (simp add: stream_at_def)
  have next_id: "unat (seqId p) = unat (recvSeqId (substreams c ! unat (ch_sub C))) + 1 \<longleftrightarrow> j = n"
    using c(2) p by (auto simp: stream_at_def carries_def)
  have frag: "fragmentId p = 0" using p by (simp add: carries_def)
  show ?case
  proof (cases "j = n")
    case False
    then have "queue_step ev (ch_addr C) (ch_sub C) agg p ps acked s = (Inr (Stop False acked), s)"
      using next_id by (simp add: queue_step_def read_sub_apply [OF c(1) sub])
    then show ?thesis using False Cons.prems(1) by (simp add: q queue_loop.simps same_admission_def)
  next
    case True
    with p have pn: "carries C n p" by simp
    obtain acked1 s1 where s1:
      "walk_fragments ev (ch_addr C) (ch_sub C) agg p ps False acked s = (Inr (True, False, acked1), s1)"
      "rx C r0 (Suc n) n n s1" "same_admission C s s1"
      using walk_single [OF assms(1,2) rx pn] by blast
    obtain s2 where s2: "deliver_run ev (ch_addr C) (ch_sub C) agg (p # ps) acked1 s1 = (Inr (More acked1), s2)"
      "receiver C r0 (Suc n) js s2" "same_admission C s1 s2"
      using deliver_run_delivers [OF s1(2) pn ps] by blast
    have step: "queue_step ev (ch_addr C) (ch_sub C) agg p ps acked s = (Inr (More acked1), s2)"
      using True next_id frag s1(1) s2(1) by (simp add: queue_step_def read_sub_apply [OF c(1) sub])
    obtain acked' s' where s': "queue_loop ev (ch_addr C) (ch_sub C) agg ps acked1 s2 = (Inr (False, acked'), s')"
      "receiver C r0 (fst (take_run (Suc n) js)) (snd (take_run (Suc n) js)) s'" "same_admission C s2 s'"
      using Cons.IH [OF s2(2) ps] by blast
    have "queue_loop ev (ch_addr C) (ch_sub C) agg q acked s = (Inr (False, acked'), s')"
      using s'(1) step by (simp add: q queue_loop.simps [of _ _ _ _ "p # ps"] run_of_carried [OF ps])
    moreover have "same_admission C s s'" using s1(3) s2(3) s'(3) by (simp add: same_admission_def)
    ultimately show ?thesis using True s'(2) by auto
  qed
qed

lemma processPacketQueue_delivers:
  assumes "channel_ok C" "ev = ch_env C" "receiver C r0 n js s"
  shows "\<exists>s'. processPacketQueue ev (ch_addr C) (ch_sub C) s = (Inr (), s')
    \<and> receiver C r0 (fst (take_run n js)) (snd (take_run n js)) s' \<and> same_admission C s s'"
proof -
  obtain c where c: "clients s (ch_addr C) = Some c" "stream_at C n n c"
    and q: "list_all2 (carries C) js (packetQueue (substreams c ! unat (ch_sub C)))"
    using assms(3) by (auto simp: receiver_def rx_def queued_def)
  have sub: "get_sub (ch_sub C) c = Inr (substreams c ! unat (ch_sub C))"
    using c(2) by (simp add: get_sub_def stream_at_def)
  define agg where "agg \<longleftrightarrow> majorVersion s = 1 \<and> 1 \<le> cl_minorVersion c"
  obtain acked s1 where s1: "queue_loop ev (ch_addr C) (ch_sub C) agg
      (packetQueue (substreams c ! unat (ch_sub C))) [] s = (Inr (False, acked), s1)"
    "receiver C r0 (fst (take_run n js)) (snd (take_run n js)) s1" "same_admission C s s1"
    using queue_loop_delivers [OF assms q] by blast
  obtain c1 where "clients s1 (ch_addr C) = Some c1" using s1(2) by (auto simp: receiver_def rx_def)
  from send_aggregate_silent [OF this] obtain ds where
    ds: "send_aggregate ev (ch_addr C) (ch_sub C) acked s1 = (Inr (), add_sent ds s1)" by blast
  have s2: "receiver C r0 (fst (take_run n js)) (snd (take_run n js)) (add_sent ds s1)"
    "same_admission C s (add_sent ds s1)"
    using s1(2,3) step_sent(3) by (auto simp: receiver_def step_sent intro: same_admission_trans)
  have run: "processPacketQueue ev (ch_addr C) (ch_sub C) s =
      (if agg \<and> acked \<noteq> [] then (Inr (), add_sent ds s1) else (Inr (), s1))"
    using c(1) sub s1(1) ds by (simp add: processPacketQueue_def Let_def agg_def)
  then show ?thesis using s1 s2 by (cases "agg \<and> acked \<noteq> []") auto
qed

lemma queue_insert_carried:
  assumes "list_all2 (carries C) js q" and "carries C i p"
  shows "list_all2 (carries C) (index_insert i js) (queue_insert p q)"
  using assms
proof (induction rule: list_all2_induct)
  case (Cons j js x q)
  have "seqId p < seqId x \<longleftrightarrow> i < j" "seqId x < seqId p \<longleftrightarrow> j < i"
    using Cons by (auto simp: carries_def word_less_nat_alt)
  with Cons show ?case by simp
qed simp

lemma waiting_bounded:
  assumes "channel_ok C" "list_all2 (carries C) js q" "distinct js"
  shows "length q \<le> MAX_PACKET_QUEUE_SIZE"
proof -
  have "set js \<subseteq> {..<length (ch_messages C)}"
    using assms(2) by (induction rule: list_all2_induct) (auto simp: carries_def)
  then have "length js \<le> length (ch_messages C)"
    using assms(3) by (metis card_lessThan card_mono distinct_card finite_lessThan)
  then show ?thesis using assms by (auto simp: channel_ok_def dest: list_all2_lengthD)
qed

lemma sorted_wrt_less_distinct: "sorted_wrt (<) (js :: nat list) \<Longrightarrow> distinct js"
  by (simp add: strict_sorted_iff)

text \<open>One packet of the channel, whichever it is, takes the server one step of the buffer.\<close>

lemma process_reliable_delivers:
  assumes ok: "channel_ok C" "ev = ch_env C" and rcv: "receiver C r0 n js s"
    and p: "carries C i p" "packet_substream s p = ch_sub C" and sorted: "sorted_wrt (<) js"
  shows "\<exists>s'. process_reliable ev (ch_addr C) p s = (Inr (), s')
    \<and> receiver C r0 (fst (buffer_arrive i (n, js))) (snd (buffer_arrive i (n, js))) s'
    \<and> same_admission C s s'"
proof -
  have rx: "rx C r0 n n n s" "queued C js s" "n \<le> length (ch_messages C)" using rcv by (simp_all add: receiver_def)
  obtain c where c: "clients s (ch_addr C) = Some c" "stream_at C n n c"
    and q: "list_all2 (carries C) js (packetQueue (substreams c ! unat (ch_sub C)))"
    using rx by (auto simp: rx_def queued_def)
  let ?st = "substreams c ! unat (ch_sub C)"
  have sub: "unat (ch_sub C) < length (substreams c)" using c(2) by (simp add: stream_at_def)
  have few: "\<not> MAX_PACKET_QUEUE_SIZE < length (packetQueue ?st)"
    using waiting_bounded [OF ok(1) q sorted_wrt_less_distinct [OF sorted]] by simp
  have old: "seqId p \<le> recvSeqId ?st \<longleftrightarrow> i < n"
    using c(2) p(1) by (auto simp: stream_at_def carries_def word_le_nat_alt)
  show ?thesis
  proof (cases "i < n")
    case True
    have crypto: "crypto_ok (crypto ev)" using ok by (simp add: channel_ok_def)
    obtain ds where ds: "send_ack ev (ch_addr C) p s = (Inr (), add_sent ds s)"
      using send_ack_silent [OF crypto c(1)] by blast
    have "rx C r0 n n n (add_sent ds s)" "queued C js (add_sent ds s)" using rx by (simp_all only: step_sent)
    from step_ping [OF this] obtain s' where s': "resetPingTask ev (ch_addr C) (add_sent ds s) = (Inr (), s')"
      "rx C r0 n n n s'" "queued C js s'" "same_admission C (add_sent ds s) s'" by blast
    have "process_reliable ev (ch_addr C) p s = (Inr (), s')"
      using p(2) few old True ds s'(1) by (simp add: process_reliable_def read_sub_apply [OF c(1) sub] Let_def)
    then show ?thesis
      using s' rx(3) True same_admission_trans [OF step_sent(3) s'(4)]
      by (auto simp: buffer_arrive_def receiver_def)
  next
    case False
    define q' where "q' = queue_insert p (packetQueue ?st)"
    have q': "list_all2 (carries C) (index_insert i js) q'"
      unfolding q'_def by (rule queue_insert_carried [OF q p(1)])
    let ?s1 = "set_client (ch_addr C) (upd_sub (ch_sub C) (\<lambda>st. st\<lparr>packetQueue := q'\<rparr>) c) s"
    obtain s1 where s1: "modify_sub (ch_addr C) (ch_sub C) (\<lambda>st. st\<lparr>packetQueue := q'\<rparr>) s = (Inr (), s1)"
      "rx C r0 n n n s1" "queued C (index_insert i js) s1" "same_admission C s s1"
      using step_queue [OF rx(1), of q' "index_insert i js"] q' by blast
    have "upd_sub (ch_sub C) (\<lambda>st. st\<lparr>packetQueue := queue_insert p (packetQueue st)\<rparr>) c =
      upd_sub (ch_sub C) (\<lambda>st. st\<lparr>packetQueue := q'\<rparr>) c"
      by (simp add: upd_sub_def q'_def)
    then have ins: "modify_sub (ch_addr C) (ch_sub C)
        (\<lambda>st. st\<lparr>packetQueue := queue_insert p (packetQueue st)\<rparr>) s = (Inr (), s1)"
      using s1(1) c(1) by (simp add: modify_sub_apply)
    have "receiver C r0 n (index_insert i js) s1" using s1 rx(3) by (simp add: receiver_def)
    from processPacketQueue_delivers [OF ok this] obtain s2 where
      s2: "processPacketQueue ev (ch_addr C) (ch_sub C) s1 = (Inr (), s2)"
        "receiver C r0 (fst (take_run n (index_insert i js))) (snd (take_run n (index_insert i js))) s2"
        "same_admission C s1 s2" by blast
    let ?b = "take_run n (index_insert i js)"
    have rx2: "rx C r0 (fst ?b) (fst ?b) (fst ?b) s2" "queued C (snd ?b) s2" "fst ?b \<le> length (ch_messages C)"
      using s2(2) by (simp_all add: receiver_def)
    from step_ping [OF rx2(1,2)] obtain s' where s': "resetPingTask ev (ch_addr C) s2 = (Inr (), s')"
      "rx C r0 (fst ?b) (fst ?b) (fst ?b) s'" "queued C (snd ?b) s'" "same_admission C s2 s'" by blast
    have "process_reliable ev (ch_addr C) p s = (Inr (), s')"
      using p(2) few old False ins s2(1) s'(1)
      by (simp add: process_reliable_def read_sub_apply [OF c(1) sub] Let_def)
    moreover have "same_admission C s s'" using s1(4) s2(3) s'(4) by (simp add: same_admission_def)
    ultimately show ?thesis using s' rx2(3) False by (auto simp: buffer_arrive_def receiver_def)
  qed
qed

section \<open>Any number of packets in any order\<close>

lemma processPacket_delivers:
  assumes ok: "channel_ok C" and rcv: "receiver C r0 n js s" and buf: "buffer_ok R (n, js)"
    and p: "admitted C a s p" "carries C i p"
  shows "\<exists>n' js' s'. processPacket (ch_env C) a p s = (Inr (), s') \<and> receiver C r0 n' js' s'
    \<and> buffer_ok (insert i R) (n', js') \<and> same_admission C s s'"
proof -
  define p' where "p' = with_session (ch_env C) s (ch_addr C) p"
  have addr: "prudp_address a p = ch_addr C" and sig: "checkSignature (crypto (ch_env C)) p'"
    and sub: "\<not> bad_substream s p" "packet_substream s p = ch_sub C"
    using p(1) by (simp_all add: admitted_def p'_def)
  have same: "substreamId p' = substreamId p" "p_flags p' = p_flags p"
    by (simp_all add: p'_def with_session_def Let_def split: option.splits)
  have p': "carries C i p'" using p(2) by (simp add: p'_def)
  have sub': "\<not> bad_substream s p'" "packet_substream s p' = ch_sub C"
    using sub same by (auto simp: bad_substream_def packet_substream_def has_flag_def split: if_splits)
  have ty: "p_type p' = DATA" "has_flag p' FLAG_RELIABLE" using p' by (simp_all add: carries_def)
  obtain c where c: "clients s (ch_addr C) = Some c" using rcv by (auto simp: receiver_def rx_def)
  let ?b = "buffer_arrive i (n, js)"
  have "sorted_wrt (<) js" using buf by (simp add: buffer_ok_def)
  from process_reliable_delivers [OF ok refl rcv p' sub'(2) this] obtain s' where
    s': "process_reliable (ch_env C) (ch_addr C) p' s = (Inr (), s')" "receiver C r0 (fst ?b) (snd ?b) s'"
      "same_admission C s s'" by blast
  have "processPacket (ch_env C) a p s = (Inr (), s')"
    unfolding processPacket_def Let_def readS_apply addr
    using sig ty c sub' s'(1) by (simp flip: p'_def)
  moreover have "buffer_ok (insert i R) (fst ?b, snd ?b)" using buffer_arrive_ok [OF buf] by simp
  ultimately show ?thesis using s' by blast
qed

lemma packets_delivered:
  assumes "channel_ok C" "receiver C r0 n js s" "buffer_ok R (n, js)"
    and "\<forall>p \<in> set ps. admitted C a s p \<and> (\<exists>i. carries C i p)"
  shows "\<exists>n' js' s'. forS ps (processPacket (ch_env C) a) s = (Inr (), s') \<and> receiver C r0 n' js' s'
    \<and> buffer_ok ({i. \<exists>p \<in> set ps. carries C i p} \<union> R) (n', js')"
  using assms(2-4)
proof (induction ps arbitrary: n js s R)
  case Nil
  then show ?case by auto
next
  case (Cons p ps)
  then obtain i where i: "carries C i p" and adm: "admitted C a s p" by auto
  obtain n1 js1 s1 where s1: "processPacket (ch_env C) a p s = (Inr (), s1)" "receiver C r0 n1 js1 s1"
    "buffer_ok (insert i R) (n1, js1)" "same_admission C s s1"
    using processPacket_delivers [OF assms(1) Cons.prems(1,2) adm i] by blast
  have "\<forall>p \<in> set ps. admitted C a s1 p \<and> (\<exists>i. carries C i p)"
    using Cons.prems(3) s1(4) admitted_cong [of C s1 s a] by (simp add: same_admission_def)
  from Cons.IH [OF s1(2,3) this] obtain n' js' s' where s':
    "forS ps (processPacket (ch_env C) a) s1 = (Inr (), s')" "receiver C r0 n' js' s'"
    "buffer_ok ({i. \<exists>p \<in> set ps. carries C i p} \<union> insert i R) (n', js')" by blast
  have "{j. \<exists>q \<in> set (p # ps). carries C j q} = insert i {j. \<exists>q \<in> set ps. carries C j q}"
    using i by (auto simp: carries_def)
  with s' s1(1) show ?case by auto
qed

text \<open>
  The contract: a client whose stream stands at the start of the channel. Whatever arrives, in
  whatever order, the RMC server has then got the longest prefix of the messages that has arrived.
\<close>

lemma channel_delivered:
  assumes ok: "channel_ok C" and start: "receiver C (rmc s) 0 [] s"
    and ps: "\<forall>p \<in> set ps. admitted C a s p \<and> (\<exists>i. carries C i p)"
  shows "\<exists>n s'. forS ps (processPacket (ch_env C) a) s = (Inr (), s') \<and>
    rmc s' = fold (ch_consume C) (take n (ch_messages C)) (rmc s) \<and>
    (\<forall>i < n. \<exists>p \<in> set ps. carries C i p) \<and> (\<forall>p \<in> set ps. \<not> carries C n p)"
proof -
  have "buffer_ok {} (0, [])" by (simp add: buffer_ok_def)
  from packets_delivered [OF ok start this ps] obtain n js s' where
    run: "forS ps (processPacket (ch_env C) a) s = (Inr (), s')" and rcv: "receiver C (rmc s) n js s'"
    and buf: "buffer_ok ({i. \<exists>p \<in> set ps. carries C i p} \<union> {}) (n, js)" by blast
  from buffer_prefix [OF buf] have "\<forall>i < n. \<exists>p \<in> set ps. carries C i p" "\<forall>p \<in> set ps. \<not> carries C n p"
    by auto
  with run rcv show ?thesis by (auto simp: receiver_def rx_def)
qed

lemma fold_append_list: "fold (\<lambda>d r. r @ [d]) xs r = r @ xs"
  by (induction xs arbitrary: r) simp_all

end
