(* ===== verification/PrudpConnect.thy ===== *)
theory PrudpConnect
  imports PrudpDelivery
begin

text \<open>
  Opening a connection. A connect packet that is accepted leaves a client whose substreams are
  empty, with the encoders of its session key and a ping on the way: the state a channel of
  \<^theory_text>\<open>PrudpDelivery\<close> starts from. The substream of the connect packet is not checked.
\<close>

section \<open>Payload encoders of a session key\<close>

lemma length_next_key [simp]: "length (next_key key) = length key"
  by (simp add: next_key_def Let_def)

lemma next_key_Nil [simp]: "next_key key = [] \<longleftrightarrow> key = []"
  by (metis length_next_key length_0_conv)

lemma substream_encoders_defined:
  "key \<noteq> [] \<Longrightarrow> \<exists>es. substream_encoders n key = Inr es \<and> length es = n \<and> (\<forall>e \<in> set es. synced e e)"
proof (induction n arbitrary: key)
  case (Suc n)
  then have "next_key key \<noteq> []" by simp
  from Suc.IH [OF this] obtain es where
    es: "substream_encoders n (next_key key) = Inr es" "length es = n" "\<forall>e \<in> set es. synced e e" by blast
  obtain e where e: "Encoder_init key = Inr e"
    using Suc.prems by (auto simp: Encoder_init_def arc4_init_def)
  with es synced_init [OF e] show ?case by simp
qed simp

lemma PayloadEncoder_init_defined:
  assumes "key \<noteq> []" and "m \<noteq> 255"
  obtains pe where "PayloadEncoder_init key m = Inr pe" "length (encoders pe) = unat m + 1"
    "\<forall>e \<in> set (encoders pe). synced e e" "pe_sessionKey pe = key"
  using substream_encoders_defined [OF assms(1), of "unat m + 1"] assms(2)
  by (auto simp: PayloadEncoder_init_def)

section \<open>Accepting a client\<close>

definition room_for :: "PRUDPAddress \<Rightarrow> u32 \<Rightarrow> 'r PrudpServer \<Rightarrow> bool" where
  "room_for addr pid s \<longleftrightarrow> clients s addr = None \<and> (pid = 0 \<or> pid = 100 \<or> pidToAddr s pid = None)"

definition connected_client :: "Env \<Rightarrow> 'r PrudpServer \<Rightarrow> Packet \<Rightarrow> ConnectInfo \<Rightarrow> PayloadEncoder \<Rightarrow> PrudpClient" where
  "connected_client ev s p info pe =
     upd_sub (packet_substream s p) (\<lambda>st. st\<lparr>recvSeqId := 1\<rparr>) (new_client ev s p info pe)"

lemma length_new_client [simp]:
  "length (substreams (new_client ev s p info pe)) = unat (sv_maxSubstreamId s) + 1"
  by (simp add: new_client_def)

lemma nth_new_client [simp]:
  "i \<le> unat (sv_maxSubstreamId s) \<Longrightarrow> substreams (new_client ev s p info pe) ! i = new_substream"
  by (simp add: new_client_def del: replicate_Suc)

lemma silent_connect_ack: "silent (connect_ack ev s addr p check)"
  using silent_crafted(1) [of ev s addr p "nextSessionId s" "remoteSignature p" "[]"]
  by (simp add: connect_ack_def Let_def silent_def has_flag_def)

lemma encodable_connect_ack: "crypto_ok (crypto ev) \<Longrightarrow> encodable (connect_ack ev s addr p check)"
  using encodable_crafted(1) [of ev s addr p "nextSessionId s" "remoteSignature p" "[]"]
  by (simp add: connect_ack_def Let_def encodable_def)

definition connecting_state :: "Env \<Rightarrow> PRUDPAddress \<Rightarrow> Packet \<Rightarrow> ConnectInfo \<Rightarrow> PayloadEncoder
    \<Rightarrow> 'r PrudpServer \<Rightarrow> 'r PrudpServer" where
  "connecting_state ev addr p info pe s =
     notify_connect (dstPort p) addr (co_pid info) (add_client addr (new_client ev s p info pe) s)"

lemma connecting_state_fields [simp]:
  "clients s addr = None \<Longrightarrow>
     clients (connecting_state ev addr p info pe s) addr = Some (new_client ev s p info pe)"
  "majorVersion (connecting_state ev addr p info pe s) = majorVersion s"
  "registeredServers (connecting_state ev addr p info pe s) = registeredServers s"
  "delayedPackets (connecting_state ev addr p info pe s) = delayedPackets s"
  "rmc (connecting_state ev addr p info pe s) = rmc (notify_connect (dstPort p) addr (co_pid info) s)"
  by (auto simp: connecting_state_def notify_connect_def add_client_def split: option.splits)

lemma accept_client_new:
  assumes cr: "crypto_ok (crypto ev)" and room: "room_for addr (co_pid info) s"
    and pe: "PayloadEncoder_init (co_sessionKey info) (sv_maxSubstreamId s) = Inr pe"
    and sub: "unat (packet_substream s p) \<le> unat (sv_maxSubstreamId s)"
  shows "\<exists>s'. accept_client ev addr p info s = (Inr (), s') \<and>
    clients s' addr = Some (connected_client ev s p info pe) \<and>
    pinged addr (connected_client ev s p info pe) s' \<and>
    registeredServers s' = registeredServers s \<and> majorVersion s' = majorVersion s \<and>
    rmc s' = rmc (notify_connect (dstPort p) addr (co_pid info) s)"
proof -
  have none: "clients s addr = None" and drop: "drop_old_connection addr (co_pid info) s = s"
    using room by (auto simp: room_for_def drop_old_connection_def)
  define s2 where "s2 = connecting_state ev addr p info pe s"
  define c where "c = new_client ev s p info pe"
  have c: "clients s2 addr = Some c" using none by (simp add: s2_def c_def)
  define s3 where "s3 = set_client addr (connected_client ev s p info pe) s2"
  have "unat (packet_substream s p) < length (substreams c)" using sub by (simp add: c_def)
  then have mark: "mark_connected addr (packet_substream s p) s2 = (Inr (), s3)"
    using c by (simp add: mark_connected_def get_sub_def s3_def connected_client_def c_def)
  define ping where "ping = craftPing ev s addr (nextSessionId s) (remoteSignature p)
    (if auth s then [] else co_sessionKey info)"
  define d where "d = \<lparr>dp_addr = addr, numRetries = 0, dp_packet = ping\<rparr>"
  define s4 where "s4 = delay (steady ev + PING_INTERVAL) d s3"
  obtain e' ds where send: "sendPacket ev addr (connect_ack ev s addr p (co_checkValue info)) s4
      = (Inr e', add_sent ds s4)"
    using sendPacket_silent [OF silent_connect_ack encodable_connect_ack [OF cr]] by blast
  define s5 where "s5 = (add_sent ds s4)\<lparr>nextSessionId := nextSessionId (add_sent ds s4) + 1\<rparr>"
  have run: "accept_client ev addr p info s = (Inr (), s5)"
    using mark send pe
    by (simp add: accept_client_def drop s2_def connecting_state_def s5_def s4_def d_def ping_def)
  have "(steady ev + PING_INTERVAL, d) \<in> set (delayedPackets s5)"
    by (simp add: s5_def s4_def delay_def insert_delayed_def)
  moreover have "is_ping_task (nextPing (connected_client ev s p info pe)) addr (steady ev + PING_INTERVAL, d)"
    by (simp add: is_ping_task_def d_def ping_def craftPing_def connected_client_def new_client_def)
  ultimately have "pinged addr (connected_client ev s p info pe) s5" by (auto simp: pinged_def)
  moreover have "clients s5 addr = Some (connected_client ev s p info pe)"
    by (simp add: s5_def s4_def s3_def delay_def set_client_def)
  moreover have "registeredServers s5 = registeredServers s" "majorVersion s5 = majorVersion s"
    "rmc s5 = rmc (notify_connect (dstPort p) addr (co_pid info) s)"
    by (simp_all add: s5_def s4_def s3_def s2_def delay_def set_client_def)
  ultimately show ?thesis using run by blast
qed

text \<open>The connect packet: what it must say for the client to be accepted.\<close>

definition connects :: "Env \<Rightarrow> 'r PrudpServer \<Rightarrow> PRUDPAddress \<Rightarrow> Packet \<Rightarrow> ConnectInfo \<Rightarrow> bool" where
  "connects ev s addr p info \<longleftrightarrow> \<not> version_refused s p \<and> p_data p = [] \<and> p_encoder p = None \<and>
     authenticate ev s (encryptedData p) = Inr info \<and> co_sessionKey info \<noteq> [] \<and>
     room_for addr (co_pid info) s \<and> sv_maxSubstreamId s \<noteq> 255"

lemma packet_substream_data [simp]: "packet_substream s (p\<lparr>p_data := d\<rparr>) = packet_substream s p"
  by (simp add: packet_substream_def)

lemma connected_client_data [simp]:
  "connected_client ev s (p\<lparr>p_data := d\<rparr>) info pe = connected_client ev s p info pe"
  by (simp add: connected_client_def new_client_def)

lemma handle_connect_accepts:
  assumes cr: "crypto_ok (crypto ev)" and con: "connects ev s addr p info"
    and sub: "unat (packet_substream s p) \<le> unat (sv_maxSubstreamId s)"
  shows "\<exists>pe s'. PayloadEncoder_init (co_sessionKey info) (sv_maxSubstreamId s) = Inr pe \<and>
    handle_connect ev addr p s = (Inr True, s') \<and>
    clients s' addr = Some (connected_client ev s p info pe) \<and>
    pinged addr (connected_client ev s p info pe) s' \<and> registeredServers s' = registeredServers s
    \<and> majorVersion s' = majorVersion s \<and> rmc s' = rmc (notify_connect (dstPort p) addr (co_pid info) s)"
proof -
  from con have key: "co_sessionKey info \<noteq> []" "sv_maxSubstreamId s \<noteq> 255"
    and room: "room_for addr (co_pid info) s" by (simp_all add: connects_def)
  obtain pe where pe: "PayloadEncoder_init (co_sessionKey info) (sv_maxSubstreamId s) = Inr pe"
    using PayloadEncoder_init_defined [OF key] by blast
  from accept_client_new [OF cr room pe, of "p\<lparr>p_data := encryptedData p\<rparr>"] sub obtain s' where
    "accept_client ev addr (p\<lparr>p_data := encryptedData p\<rparr>) info s = (Inr (), s')"
    "clients s' addr = Some (connected_client ev s p info pe)"
    "pinged addr (connected_client ev s p info pe) s'" "registeredServers s' = registeredServers s"
    "majorVersion s' = majorVersion s" "rmc s' = rmc (notify_connect (dstPort p) addr (co_pid info) s)"
    by auto
  with con pe show ?thesis by (simp add: handle_connect_def connects_def decryptData_def)
qed

section \<open>From the connection to the channel\<close>

text \<open>A channel that fits the connection: the same key stream, and the id of the connect packet in front.\<close>

definition opens :: "'r Channel \<Rightarrow> 'r PrudpServer \<Rightarrow> Packet \<Rightarrow> ConnectInfo \<Rightarrow> bool" where
  "opens C s p info \<longleftrightarrow> connects (ch_env C) s (ch_addr C) p info \<and> ch_start C = 1 \<and>
     ch_sub C = packet_substream s p \<and> unat (ch_sub C) \<le> unat (sv_maxSubstreamId s) \<and> serves C s \<and>
     ch_minor C = (if majorVersion s = 1 then p_minorVersion p else 0) \<and>
     ch_good C (rmc (notify_connect (dstPort p) (ch_addr C) (co_pid info) s)) \<and>
     (\<exists>pe. PayloadEncoder_init (co_sessionKey info) (sv_maxSubstreamId s) = Inr pe \<and>
        ch_encoder C = encoders pe ! unat (ch_sub C))"

lemma connect_opens_channel:
  assumes cr: "crypto_ok (crypto (ch_env C))" and op: "opens C s p info"
  shows "\<exists>s'. handle_connect (ch_env C) (ch_addr C) p s = (Inr True, s') \<and> receiver C (rmc s') 0 [] s' \<and>
    majorVersion s' = majorVersion s \<and>
    rmc s' = rmc (notify_connect (dstPort p) (ch_addr C) (co_pid info) s)"
proof -
  have con: "connects (ch_env C) s (ch_addr C) p info" and start: "ch_start C = 1"
    and sub: "ch_sub C = packet_substream s p" "unat (ch_sub C) \<le> unat (sv_maxSubstreamId s)"
    and serves: "serves C s" and minor: "ch_minor C = (if majorVersion s = 1 then p_minorVersion p else 0)"
    and good: "ch_good C (rmc (notify_connect (dstPort p) (ch_addr C) (co_pid info) s))"
    using op by (auto simp: opens_def)
  let ?m = "sv_maxSubstreamId s"
  from con have "co_sessionKey info \<noteq> []" "?m \<noteq> 255" by (simp_all add: connects_def)
  then obtain pe where pe: "PayloadEncoder_init (co_sessionKey info) ?m = Inr pe"
    "length (encoders pe) = unat ?m + 1" "\<forall>e \<in> set (encoders pe). synced e e"
    by (rule PayloadEncoder_init_defined)
  have enc: "ch_encoder C = encoders pe ! unat (ch_sub C)" using op pe(1) by (auto simp: opens_def)
  let ?c = "connected_client (ch_env C) s p info pe"
  from handle_connect_accepts [OF cr con] sub pe(1) obtain s' where
    run: "handle_connect (ch_env C) (ch_addr C) p s = (Inr True, s')"
    and c: "clients s' (ch_addr C) = Some ?c" "pinged (ch_addr C) ?c s'"
    and reg: "registeredServers s' = registeredServers s" "majorVersion s' = majorVersion s"
      "rmc s' = rmc (notify_connect (dstPort p) (ch_addr C) (co_pid info) s)"
    by auto
  have len: "unat (ch_sub C) < length (encoders pe)" using sub(2) pe(2) by simp
  then have "synced (ch_encoder C) (ch_encoder C)" using pe(3) enc by simp
  then have ks: "decCtx (encoders pe ! unat (ch_sub C)) = key_stream C 0"
    by (simp add: enc key_stream_def synced_def)
  have st: "substreams ?c ! unat (ch_sub C) = new_substream\<lparr>recvSeqId := 1\<rparr>"
    using sub by (simp add: connected_client_def)
  have "stream_at C 0 0 ?c"
    using ks st len sub pe(2) start minor
    by (simp add: stream_at_def new_substream_def) (simp add: connected_client_def new_client_def)
  moreover have "serves C s'" using serves reg by (simp add: serves_def)
  ultimately have "receiver C (rmc s') 0 [] s'"
    using c st good reg(3) by (simp add: receiver_def rx_def queued_def new_substream_def)
  with run reg show ?thesis by blast
qed

text \<open>\dots and with the packets of the channel after it, the whole session.\<close>

definition run_session :: "'r Channel \<Rightarrow> IPv4Addr \<Rightarrow> Packet \<Rightarrow> Packet list \<Rightarrow> ('r, unit) srv" where
  "run_session C a p ps =
     seqS (handlePacket (ch_env C) (ch_addr C) p) (forS ps (processPacket (ch_env C) a))"

lemma session_delivered:
  assumes ok: "channel_ok C" and op: "opens C s p info"
    and p: "p_type p = CONNECT" "\<not> has_flag p FLAG_ACK" "\<not> has_flag p FLAG_MULTI_ACK"
    and con: "handlePacket (ch_env C) (ch_addr C) p s = (r, s1)"
    and ps: "\<forall>q \<in> set ps. admitted C a s1 q \<and> (\<exists>i. carries C i q)"
  shows "\<exists>n s'. run_session C a p ps s = (Inr (), s') \<and>
    rmc s' = fold (ch_consume C) (take n (ch_messages C))
      (rmc (notify_connect (dstPort p) (ch_addr C) (co_pid info) s)) \<and>
    (\<forall>i < n. \<exists>q \<in> set ps. carries C i q) \<and> (\<forall>q \<in> set ps. \<not> carries C n q)"
proof -
  have cr: "crypto_ok (crypto (ch_env C))" using ok by (simp add: channel_ok_def)
  from connect_opens_channel [OF cr op] con p have r: "r = Inr True" and rcv: "receiver C (rmc s1) 0 [] s1"
      and rmc: "rmc s1 = rmc (notify_connect (dstPort p) (ch_addr C) (co_pid info) s)"
    by (auto simp: handlePacket_def)
  from channel_delivered [OF ok rcv ps] con r rmc show ?thesis
    by (auto simp: run_session_def)
qed

section \<open>The substream of a connect packet\<close>

text \<open>
  Only the maximum substream id of a connect packet is compared with the server's. The substream
  id in its header is used as it is, and a larger one is an access behind the vector.
\<close>

lemma connect_substream_unchecked:
  assumes "connects ev s addr p info" and sub: "unat (sv_maxSubstreamId s) < unat (packet_substream s p)"
  shows "fst (handle_connect ev addr p s) = Inl UndefinedAccess"
proof -
  have key: "co_sessionKey info \<noteq> []" "sv_maxSubstreamId s \<noteq> 255" and none: "clients s addr = None"
    and room: "room_for addr (co_pid info) s" using assms(1) by (simp_all add: connects_def room_for_def)
  obtain pe where pe: "PayloadEncoder_init (co_sessionKey info) (sv_maxSubstreamId s) = Inr pe"
    using PayloadEncoder_init_defined [OF key] by blast
  let ?p = "p\<lparr>p_data := encryptedData p\<rparr>"
  have drop: "drop_old_connection addr (co_pid info) s = s"
    using room by (auto simp: room_for_def drop_old_connection_def)
  have "mark_connected addr (packet_substream s p) (connecting_state ev addr ?p info pe s)
      = (Inl UndefinedAccess, connecting_state ev addr ?p info pe s)"
    using none sub by (simp add: mark_connected_def get_sub_def)
  then have "fst (accept_client ev addr ?p info s) = Inl UndefinedAccess"
    using pe by (simp add: accept_client_def drop flip: connecting_state_def)
       (simp add: connecting_state_def)
  then have "\<exists>s'. accept_client ev addr ?p info s = (Inl UndefinedAccess, s')"
    by (metis prod.collapse)
  with assms(1) show ?thesis
    by (auto simp: handle_connect_def connects_def decryptData_def)
qed

end
