(* ===== verification/RmcRuntime.thy ===== *)
theory RmcRuntime
  imports PrudpConnect
begin

text \<open>
  An RMC server behind a PRUDP server: the functions \<^verbatim>\<open>registerPRUDPServer\<close> hands over, the
  scheduler, and the worker thread of \<^verbatim>\<open>src/nex/rmc/server.cpp\<close>. Connections and disconnections are
  tasks of the scheduler, so they are noted when a worker gets to them; requests are queued at once.
  The body of a call is a parameter: it changes the state of its service, sends messages, and returns
  or throws, the latter after some messages perhaps.
\<close>

section \<open>Tasks\<close>

datatype 'p Task = ConnectTask PRUDPAddress u32 | DisconnectTask PRUDPAddress | CallTask "'p RequestInfo"

record 'p Runtime =
  rt_server :: "'p RmcServer"
  rt_tasks :: "'p Task list"

definition schedule :: "'p Task \<Rightarrow> 'p Runtime \<Rightarrow> 'p Runtime" where
  "schedule t rt = rt\<lparr>rt_tasks := rt_tasks rt @ [t]\<rparr>"

definition scheduleOnConnect :: "PRUDPAddress \<Rightarrow> u32 \<Rightarrow> 'p Runtime \<Rightarrow> 'p Runtime" where
  "scheduleOnConnect addr pid = schedule (ConnectTask addr pid)"

definition scheduleOnDisconnect :: "PRUDPAddress \<Rightarrow> 'p Runtime \<Rightarrow> 'p Runtime" where
  "scheduleOnDisconnect addr = schedule (DisconnectTask addr)"

text \<open>The body of a call, over the state \<open>'w\<close> of its service: how it ends, the new state, what it sends.\<close>

type_synonym ('p, 'w) Handler = "'p RequestInfo \<Rightarrow> 'w \<Rightarrow> unit result \<times> 'w \<times> sent list"

text \<open>
  What a call sends has been sent when it throws; the exception error for its request comes behind.
\<close>

definition finish_task ::
  "'p RmcServer \<Rightarrow> ClientInfo \<Rightarrow> Request \<Rightarrow> sent list \<Rightarrow> unit result \<Rightarrow> sent list result" where
  "finish_task s client req out outcome =
     (case outcome of
        Inr _ \<Rightarrow> Inr out
      | Inl UndefinedAccess \<Rightarrow> Inl UndefinedAccess
      | Inl _ \<Rightarrow> Inr (out @ sendResponse s client (createError req CORE__EXCEPTION) []))"

text \<open>One task: the new states and what it sends.\<close>

definition run_task ::
  "('p, 'w) Handler \<Rightarrow> 'p Task \<Rightarrow> 'p RmcServer \<Rightarrow> 'w \<Rightarrow> ('p RmcServer \<times> 'w \<times> sent list) result" where
  "run_task handler t s w =
     (case t of
        ConnectTask addr pid \<Rightarrow> Inr (rmc_onConnect s addr pid, w, [])
      | DisconnectTask addr \<Rightarrow> Inr (rmc_onDisconnect s addr, w, [])
      | CallTask r \<Rightarrow>
          (let (outcome, w', out) = handler r w
           in bindE (finish_task s (ri_client r) (ri_request r) out outcome) (\<lambda>out. Inr (s, w', out))))"

fun run_tasks ::
  "('p, 'w) Handler \<Rightarrow> 'p Task list \<Rightarrow> 'p RmcServer \<Rightarrow> 'w \<Rightarrow> ('p RmcServer \<times> 'w \<times> sent list) result" where
  "run_tasks handler [] s w = Inr (s, w, [])"
| "run_tasks handler (t # ts) s w =
     bindE (run_task handler t s w) (\<lambda>(s, w, out).
     bindE (run_tasks handler ts s w) (\<lambda>(s, w, out'). Inr (s, w, out @ out')))"

text \<open>One turn of the worker: the tasks in their order, then the requests become tasks.\<close>

definition worker_turn ::
  "('p, 'w) Handler \<Rightarrow> 'p Runtime \<Rightarrow> 'w \<Rightarrow> ('p Runtime \<times> 'w \<times> sent list) result" where
  "worker_turn handler rt w =
     (if shouldStop (rt_server rt) then Inr (rt, w, [])
      else bindE (run_tasks handler (rt_tasks rt) (rt_server rt) w) (\<lambda>(s, w, out).
           let (s', rs) = drain_queue s in Inr (\<lparr>rt_server = s', rt_tasks = map CallTask rs\<rparr>, w, out)))"

section \<open>Registration\<close>

definition lift_server :: "('p RmcServer \<Rightarrow> 'p RmcServer) \<Rightarrow> 'p Runtime \<Rightarrow> 'p Runtime" where
  "lift_server f rt = rt\<lparr>rt_server := f (rt_server rt)\<rparr>"

definition runtime_stop :: "'p Runtime \<Rightarrow> 'p Runtime" where
  "runtime_stop rt =
     (if shouldStop (rt_server rt) then rt
      else rt\<lparr>rt_server := rmc_stop (rt_server rt), rt_tasks := []\<rparr>)"

definition runtime_onData :: "PRUDPAddress \<Rightarrow> u8 \<Rightarrow> u8 \<Rightarrow> bytes \<Rightarrow> 'p Runtime \<Rightarrow> ('p Runtime \<times> sent list) result" where
  "runtime_onData addr mv sub d rt =
     bindE (rmc_onData (rt_server rt) addr mv sub d) (\<lambda>(s, out). Inr (rt\<lparr>rt_server := s\<rparr>, out))"

definition registerPRUDPServer :: "u8 \<Rightarrow> 'p Runtime PrudpServer \<Rightarrow> 'p Runtime PrudpServer" where
  "registerPRUDPServer port =
     registerRMCServer port
       \<lparr>startFunc = lift_server rmc_start, stopFunc = runtime_stop,
        connectFunc = scheduleOnConnect, disconnectFunc = scheduleOnDisconnect,
        dataFunc = runtime_onData\<rparr>"

section \<open>Requests of a connected client\<close>

text \<open>A request the server can take: registered, with parameters that parse.\<close>

record 'p Call =
  cl_request :: Request
  cl_params :: bytes
  cl_parsed :: 'p

definition call_ok :: "u8 \<Rightarrow> 'p RmcServer \<Rightarrow> 'p Call \<Rightarrow> bool" where
  "call_ok mv s r \<longleftrightarrow> request_ok (cl_request r) \<and> length (cl_params r) + 11 < 2 ^ 32 \<and>
     (\<exists>parser. calls s (call_key (cl_request r)) = Some parser \<and> parser mv (cl_params r) = Inr (cl_parsed r))"

definition call_message :: "'p Call \<Rightarrow> bytes" where
  "call_message r = encode_Request (cl_request r) (length (cl_params r)) @ cl_params r"

definition request_info :: "'p RmcServer \<Rightarrow> PRUDPAddress \<Rightarrow> u8 \<Rightarrow> u8 \<Rightarrow> 'p Call \<Rightarrow> 'p RequestInfo" where
  "request_info s addr mv sub r =
     \<lparr>ri_client = \<lparr>ci_address = addr, ci_minorVersion = mv, ci_substreamId = sub,
        ci_serverId = rmc_serverId s, ci_pid = (case pidMap s addr of None \<Rightarrow> 0 | Some p \<Rightarrow> p)\<rparr>,
      ri_request = cl_request r, ri_params = cl_parsed r\<rparr>"

lemma onData_call:
  assumes "\<not> shouldStop s" and "call_ok mv s r"
  shows "rmc_onData s addr mv sub (call_message r) =
    Inr (s\<lparr>requestsQueue := requestsQueue s @ [request_info s addr mv sub r]\<rparr>, [])"
  using assms rmc_onData_request [OF assms(1), of "cl_request r" "cl_params r" addr mv sub]
  by (auto simp: call_ok_def call_message_def handle_request_def Let_def enqueue_def request_info_def)

text \<open>What does not change while requests are taken.\<close>

definition takes_calls :: "u8 \<Rightarrow> PRUDPAddress \<Rightarrow> 'p RmcServer \<Rightarrow> 'p Runtime \<Rightarrow> bool" where
  "takes_calls mv addr s0 rt \<longleftrightarrow> \<not> shouldStop (rt_server rt) \<and> calls (rt_server rt) = calls s0 \<and>
     pidMap (rt_server rt) addr = pidMap s0 addr \<and> rmc_serverId (rt_server rt) = rmc_serverId s0"

definition take_call :: "PRUDPAddress \<Rightarrow> u8 \<Rightarrow> u8 \<Rightarrow> bytes \<Rightarrow> 'p Runtime \<Rightarrow> 'p Runtime" where
  "take_call addr mv sub d rt =
     (case runtime_onData addr mv sub d rt of Inr (rt', _) \<Rightarrow> rt' | Inl _ \<Rightarrow> rt)"

lemma runtime_onData_call:
  fixes sub :: u8
  assumes "takes_calls mv addr s0 rt" and "call_ok mv s0 r"
  defines "rt' \<equiv> rt\<lparr>rt_server := (rt_server rt)\<lparr>requestsQueue :=
      requestsQueue (rt_server rt) @ [request_info s0 addr mv sub r]\<rparr>\<rparr>"
  shows "runtime_onData addr mv sub (call_message r) rt = Inr (rt', [])"
    and "take_call addr mv sub (call_message r) rt = rt'" and "takes_calls mv addr s0 rt'"
proof -
  have "call_ok mv (rt_server rt) r" "\<not> shouldStop (rt_server rt)"
    using assms(1,2) by (simp_all add: takes_calls_def call_ok_def)
  then show run: "runtime_onData addr mv sub (call_message r) rt = Inr (rt', [])"
    using assms(1) by (simp add: runtime_onData_def onData_call rt'_def request_info_def takes_calls_def)
  show "take_call addr mv sub (call_message r) rt = rt'" by (simp add: take_call_def run)
  show "takes_calls mv addr s0 rt'" using assms(1) by (simp add: takes_calls_def rt'_def)
qed

lemma take_calls_queue:
  assumes "\<forall>r \<in> set rs. call_ok mv s0 r"
  shows "takes_calls mv addr s0 rt \<Longrightarrow>
    (let rt' = fold (take_call addr mv sub) (map call_message rs) rt in takes_calls mv addr s0 rt' \<and>
      rt_tasks rt' = rt_tasks rt \<and>
      requestsQueue (rt_server rt') =
        requestsQueue (rt_server rt) @ map (request_info s0 addr mv sub) rs)"
  using assms
proof (induction rs arbitrary: rt)
  case (Cons r rs)
  then have "call_ok mv s0 r" by simp
  note one = runtime_onData_call(2,3) [OF Cons.prems(1) this, of sub]
  show ?case using Cons.IH [OF one(2)] Cons.prems(2) by (simp add: one(1) Let_def)
qed simp

text \<open>The channel of such a client.\<close>

definition calls_channel ::
  "Env \<Rightarrow> PRUDPAddress \<Rightarrow> u8 \<Rightarrow> u8 \<Rightarrow> u8 \<Rightarrow> Encoder \<Rightarrow> 'p RmcServer \<Rightarrow> 'p Call list \<Rightarrow> 'p Runtime Channel" where
  "calls_channel ev addr sub port mv e s0 rs =
     \<lparr>ch_env = ev, ch_addr = addr, ch_sub = sub, ch_messages = map call_message rs, ch_start = 1,
      ch_encoder = e, ch_port = port, ch_minor = mv, ch_good = takes_calls mv addr s0,
      ch_consume = take_call addr mv sub\<rparr>"

lemma calls_channel_serves:
  assumes "registeredServers s port = Some \<lparr>startFunc = st, stopFunc = sp, connectFunc = cf,
      disconnectFunc = df, dataFunc = runtime_onData\<rparr>"
    and "\<forall>r \<in> set rs. call_ok mv s0 r" and "majorVersion s = 0 \<longrightarrow> sub = 0"
  shows "serves (calls_channel ev addr sub port mv e s0 rs) s"
  using assms runtime_onData_call [of mv addr s0] by (auto simp: serves_def calls_channel_def)

section \<open>The whole way of a request\<close>

lemma session_requests:
  fixes rs :: "'p Call list" and s :: "'p Runtime PrudpServer" and ev :: Env and addr :: PRUDPAddress
    and sub port mv :: u8 and e :: Encoder
  defines "C \<equiv> calls_channel ev addr sub port mv e (rt_server (rmc s)) rs"
  assumes ok: "channel_ok C" and op: "opens C s p info" and calls: "\<forall>r \<in> set rs. call_ok mv (rt_server (rmc s)) r"
    and p: "p_type p = CONNECT" "\<not> has_flag p FLAG_ACK" "\<not> has_flag p FLAG_MULTI_ACK" "dstPort p = port"
    and reg: "registeredServers s port = Some \<lparr>startFunc = st, stopFunc = sp,
      connectFunc = scheduleOnConnect, disconnectFunc = df, dataFunc = runtime_onData\<rparr>"
    and con: "handlePacket ev addr p s = (r, s1)"
    and ps: "\<forall>q \<in> set ps. admitted C a s1 q \<and> (\<exists>i. carries C i q)"
  shows "\<exists>n s'. run_session C a p ps s = (Inr (), s') \<and>
    requestsQueue (rt_server (rmc s')) = requestsQueue (rt_server (rmc s)) @
      map (request_info (rt_server (rmc s)) addr mv sub) (take n rs) \<and>
    rt_tasks (rmc s') = rt_tasks (rmc s) @ [ConnectTask addr (co_pid info)] \<and>
    (\<forall>i < n. \<exists>q \<in> set ps. carries C i q) \<and> (\<forall>q \<in> set ps. \<not> carries C n q)"
proof -
  let ?r0 = "rmc (notify_connect (dstPort p) (ch_addr C) (co_pid info) s)"
  have r0: "?r0 = (rmc s)\<lparr>rt_tasks := rt_tasks (rmc s) @ [ConnectTask addr (co_pid info)]\<rparr>"
    using reg p(4) by (simp add: notify_connect_def scheduleOnConnect_def schedule_def C_def calls_channel_def)
  have con': "handlePacket (ch_env C) (ch_addr C) p s = (r, s1)" using con by (simp add: C_def calls_channel_def)
  from session_delivered [OF ok op p(1-3) con' ps] obtain n s' where
    run: "run_session C a p ps s = (Inr (), s')"
    and rmc: "rmc s' = fold (ch_consume C) (take n (ch_messages C)) ?r0"
    and n: "\<forall>i < n. \<exists>q \<in> set ps. carries C i q" "\<forall>q \<in> set ps. \<not> carries C n q" by blast
  have "takes_calls mv addr (rt_server (rmc s)) ?r0" using op by (auto simp: opens_def C_def calls_channel_def)
  moreover have "\<forall>r \<in> set (take n rs). call_ok mv (rt_server (rmc s)) r" using calls by (auto dest: in_set_takeD)
  moreover have "rmc s' = fold (take_call addr mv sub) (map call_message (take n rs)) ?r0"
    using rmc by (simp add: C_def calls_channel_def take_map)
  ultimately have "rt_tasks (rmc s') = rt_tasks ?r0 \<and> requestsQueue (rt_server (rmc s')) =
      requestsQueue (rt_server ?r0) @ map (request_info (rt_server (rmc s)) addr mv sub) (take n rs)"
    using take_calls_queue [of "take n rs" mv "rt_server (rmc s)" addr ?r0 sub] by (simp add: Let_def)
  with run n r0 show ?thesis by auto
qed

section \<open>The worker\<close>

text \<open>A worker that comes after the connection and before the requests notes the user.\<close>

lemma worker_notes_pid:
  assumes "\<not> shouldStop (rt_server rt)" and "rt_tasks rt = [ConnectTask addr pid]"
  obtains rt' where "worker_turn handler rt w = Inr (rt', w, [])" "pidMap (rt_server rt') addr = Some pid"
  using assms by (auto simp: worker_turn_def run_task_def rmc_onConnect_def drain_queue_def intro: that)

end
