(* ===== verification/FriendsService.thy ===== *)
theory FriendsService
  imports FriendsCalls RmcRuntime
begin

text \<open>
  The rest of the handlers of \<^verbatim>\<open>friendsSecure.cpp\<close>: friend requests, the black list, the user's own data
  and the queries about others; then the table of registered calls and the worker.
\<close>

section \<open>Friend requests\<close>

text \<open>The row with the id of a call, which is read as a signed number.\<close>

definition request_of :: "u64 \<Rightarrow> (RequestRow \<times> bytes) list \<Rightarrow> RequestRow option" where
  "request_of i rows = map_option fst (find (\<lambda>(r, _). rqr_id r = sint i) rows)"

definition cancelFriendRequest :: "FriendsEnv \<Rightarrow> ClientInfo \<Rightarrow> Request \<Rightarrow> u64 \<Rightarrow> (Friends, unit) op" where
  "cancelFriendRequest ev client req i =
     registered_caller client req (\<lambda>_. cleaned ev client req (ci_pid client) (
     with_rows ev client req (GET_SENT_FRIEND_REQUESTS (ci_pid client)) (\<lambda>rows. case request_of i rows of
         None \<Rightarrow> fd_refuse client req FPD__INVALID_MESSAGE_ID
       | Some r \<Rightarrow>
           with_rows ev client req (DELETE_FRIEND_REQUEST (rqr_id r)) (\<lambda>_.
           seqS (fd_reply client req [])
           (bindS (liftS (stored (decode_FriendRequestMsg (ci_minorVersion client)) (rqr_data r))) (\<lambda>msg.
             if visible_request r msg
             then notify_friend ev (rqr_toPid r) (ci_pid client) [(FRIEND_REMOVED,
                    general_event (ci_minorVersion client) (rqr_toPid r) (word_of_int (rqr_id r)) (now_seconds ev) '''')]
             else returnS ()))))))"

text \<open>A received request by its id, unless it is rejected already.\<close>

definition with_received ::
  "FriendsEnv \<Rightarrow> ClientInfo \<Rightarrow> Request \<Rightarrow> u64 \<Rightarrow> (RequestRow \<Rightarrow> FriendRequestMsg \<Rightarrow> (Friends, unit) op) \<Rightarrow> (Friends, unit) op" where
  "with_received ev client req i k =
     registered_caller client req (\<lambda>_. cleaned ev client req (ci_pid client) (
     with_rows ev client req (GET_RECEIVED_FRIEND_REQUESTS (ci_pid client)) (\<lambda>rows. case request_of i rows of
         None \<Rightarrow> fd_refuse client req FPD__INVALID_MESSAGE_ID
       | Some r \<Rightarrow> bindS (liftS (stored (decode_FriendRequestMsg (ci_minorVersion client)) (rqr_data r))) (\<lambda>msg.
           if frm_id msg = REJECTED then fd_refuse client req FPD__INVALID_MESSAGE_ID else k r msg))))"

text \<open>The data of the new friend is read on the main connection, between the commands and the commit.\<close>

definition acceptFriendRequest :: "FriendsEnv \<Rightarrow> ClientInfo \<Rightarrow> Request \<Rightarrow> u64 \<Rightarrow> (Friends, unit) op" where
  "acceptFriendRequest ev client req i =
     with_received ev client req i (\<lambda>r msg. let mv = ci_minorVersion client; from = rqr_fromPid r in
     in_transaction ev client req (
     with_session_rows ev client req (DELETE_FRIEND_REQUEST (rqr_id r)) (\<lambda>_.
     with_session_rows ev client req (ADD_FRIEND (ci_pid client) from (now_seconds ev)) (\<lambda>_.
     bindS (db_command ev (GET_USER_INFO_BY_PID from)) (\<lambda>found. case found of
         Some (Some friend) \<Rightarrow>
           committed ev client req (
           seqS (createBecameFriendsPersistentNotification ev (ci_pid client) from) (
           bindS (liftS (friend_info mv friend (now_seconds ev))) (\<lambda>fi.
           seqS (fd_change_state (addFriendToRegisteredClientInfo (ci_pid client) from)) (
           seqS (fd_reply client req [encode_FriendInfo mv fi])
           (tell_accepted ev client from)))))
       | _ \<Rightarrow> give_up client req)))))"

definition rejected_message :: "u8 \<Rightarrow> FriendRequestMsg \<Rightarrow> bytes" where
  "rejected_message mv msg = encode_FriendRequestMsg mv (msg\<lparr>frm_id := REJECTED\<rparr>)"

text \<open>The row again, with another message.\<close>

definition rewrite_request :: "RequestRow \<Rightarrow> bytes \<Rightarrow> int statement" where
  "rewrite_request r d = INSERT_OR_UPDATE_FRIEND_REQUEST (Some (rqr_id r)) (rqr_fromPid r) (rqr_toPid r)
     (rqr_expiresAt r) (rqr_createdAt r) d"

definition deleteFriendRequest :: "FriendsEnv \<Rightarrow> ClientInfo \<Rightarrow> Request \<Rightarrow> u64 \<Rightarrow> (Friends, unit) op" where
  "deleteFriendRequest ev client req i =
     with_received ev client req i (\<lambda>r msg.
     with_rows ev client req (rewrite_request r (rejected_message (ci_minorVersion client) msg)) (\<lambda>_.
     fd_reply client req []))"

primrec mark_received ::
  "FriendsEnv \<Rightarrow> ClientInfo \<Rightarrow> Request \<Rightarrow> (RequestRow \<times> bytes) list \<Rightarrow> (Friends, unit) op \<Rightarrow> u64 list \<Rightarrow> (Friends, unit) op"
where
  "mark_received ev client req rows k [] = k"
| "mark_received ev client req rows k (i # ids) = (case request_of i rows of
       None \<Rightarrow> seqS (fd_refuse client req FPD__INVALID_MESSAGE_ID) rollbackTransaction
     | Some r \<Rightarrow> bindS (liftS (stored (decode_FriendRequestMsg (ci_minorVersion client)) (rqr_data r))) (\<lambda>msg.
         with_session_rows ev client req
           (rewrite_request r (encode_FriendRequestMsg (ci_minorVersion client) (msg\<lparr>frm_isReceived := 1\<rparr>)))
           (\<lambda>_. mark_received ev client req rows k ids)))"

definition markFriendRequestsAsReceived :: "FriendsEnv \<Rightarrow> ClientInfo \<Rightarrow> Request \<Rightarrow> u64 list \<Rightarrow> (Friends, unit) op" where
  "markFriendRequestsAsReceived ev client req ids =
     registered_caller client req (\<lambda>_. cleaned ev client req (ci_pid client) (
     in_transaction ev client req (
     with_session_rows ev client req (GET_RECEIVED_FRIEND_REQUESTS (ci_pid client)) (\<lambda>rows.
     mark_received ev client req rows (committed ev client req (fd_reply client req [])) ids))))"

section \<open>The black list\<close>

text \<open>Every request of the blocked user is rejected.\<close>

primrec reject_requests ::
  "FriendsEnv \<Rightarrow> ClientInfo \<Rightarrow> Request \<Rightarrow> (Friends, unit) op \<Rightarrow> RequestRow list \<Rightarrow> (Friends, unit) op" where
  "reject_requests ev client req k [] = k"
| "reject_requests ev client req k (r # rs) =
     bindS (liftS (stored (decode_FriendRequestMsg (ci_minorVersion client)) (rqr_data r))) (\<lambda>msg.
     with_session_rows ev client req (rewrite_request r (rejected_message (ci_minorVersion client) msg))
       (\<lambda>_. reject_requests ev client req k rs))"

definition block_user ::
  "FriendsEnv \<Rightarrow> ClientInfo \<Rightarrow> Request \<Rightarrow> BlacklistedPrincipal \<Rightarrow> UserInfo \<Rightarrow> (Friends, unit) op" where
  "block_user ev client req bl u =
     (let mv = ci_minorVersion client; blocked = pbi_pid (blp_principalBasicInfo bl) in
      with_session_rows ev client req
        (BLOCK_FRIEND (ci_pid client) blocked (now_seconds ev) (encode_GameKey mv (blp_gameKey bl))) (\<lambda>_.
      committed ev client req (
      bindS (liftS (basic_info_of mv (ui_nnaInfo u))) (\<lambda>info.
      fd_reply client req [encode_BlacklistedPrincipal mv \<lparr>blp_principalBasicInfo = info,
        blp_gameKey = blp_gameKey bl, blp_blacklistedSince = of_seconds (now_seconds ev)\<rparr>]))))"

text \<open>
  A user who is blocked already is looked up and decoded, and then the answer is sent without it. The
  rollback after a failed query finds no transaction.
\<close>

definition addBlackList :: "FriendsEnv \<Rightarrow> ClientInfo \<Rightarrow> Request \<Rightarrow> BlacklistedPrincipal \<Rightarrow> (Friends, unit) op" where
  "addBlackList ev client req bl =
     (let blocked = pbi_pid (blp_principalBasicInfo bl) in
      registered_caller client req (\<lambda>info.
      if blocked \<in> set (fr_friends info) then fd_refuse client req FPD__FRIEND_LISTED_BY_ME
      else cleaned ev client req (ci_pid client) (
      bindS (db_command ev (GET_USER_INFO_BY_PID blocked)) (\<lambda>found. case found of
          None \<Rightarrow> give_up client req
        | Some None \<Rightarrow> fd_refuse client req FPD__INVALID_ACCOUNT
        | Some (Some u) \<Rightarrow>
      with_rows ev client req (GET_BLOCKED_FRIENDS (ci_pid client)) (\<lambda>blocks.
      case find (\<lambda>(b, _). bkr_blockedPid b = blocked) blocks of
          Some row \<Rightarrow> bindS (liftS (blacklisted (ci_minorVersion client) row)) (\<lambda>_. fd_reply client req [])
        | None \<Rightarrow>
      with_rows ev client req (GET_SENT_FRIEND_REQUESTS (ci_pid client)) (\<lambda>sent.
      if list_ex (\<lambda>(r, _). rqr_toPid r = blocked) sent then fd_refuse client req FPD__FRIEND_LISTED_BY_ME else
      with_rows ev client req (GET_RECEIVED_FRIEND_REQUESTS (ci_pid client)) (\<lambda>received.
      in_transaction ev client req (
      reject_requests ev client req (block_user ev client req bl u)
        (filter (\<lambda>r. rqr_fromPid r = blocked) (map fst received)))))))))) "

definition removeBlackList :: "FriendsEnv \<Rightarrow> ClientInfo \<Rightarrow> Request \<Rightarrow> u32 \<Rightarrow> (Friends, unit) op" where
  "removeBlackList ev client req pid =
     registered_caller client req (\<lambda>_.
     with_rows ev client req (GET_BLOCKED_FRIENDS (ci_pid client)) (\<lambda>blocks.
     if \<not> list_ex (\<lambda>(b, _). bkr_blockedPid b = pid) blocks then fd_refuse client req FPD__NOT_IN_MY_BLACKLIST
     else with_rows ev client req (UNBLOCK_FRIEND (ci_pid client) pid) (\<lambda>_. fd_reply client req [])))"

text \<open>Denying a request is blocking its sender.\<close>

definition denyFriendRequest :: "FriendsEnv \<Rightarrow> ClientInfo \<Rightarrow> Request \<Rightarrow> u64 \<Rightarrow> (Friends, unit) op" where
  "denyFriendRequest ev client req i =
     with_received ev client req i (\<lambda>r msg.
     let bl = new_BlacklistedPrincipal (fd_now ev) in
     addBlackList ev client req (bl\<lparr>blp_principalBasicInfo :=
       (blp_principalBasicInfo bl)\<lparr>pbi_pid := rqr_fromPid r\<rparr>\<rparr>))"

section \<open>The user's own data\<close>

definition updatePresence :: "FriendsEnv \<Rightarrow> ClientInfo \<Rightarrow> Request \<Rightarrow> NintendoPresenceV2 \<Rightarrow> (Friends, unit) op" where
  "updatePresence ev client req presence =
     registered_caller client req (\<lambda>info.
     with_rows ev client req (UPDATE_USER_INFO (ci_pid client)
       (no_update\<lparr>uu_presence := Some (encode_NintendoPresenceV2 (ci_minorVersion client) presence)\<rparr>)) (\<lambda>_.
     seqS (fd_reply client req [])
       (tell_friends ev client info
         (presence_events (ci_minorVersion client) (ci_pid client) (fr_preference info) presence))))"

definition updateMii :: "FriendsEnv \<Rightarrow> ClientInfo \<Rightarrow> Request \<Rightarrow> MiiV2 \<Rightarrow> (Friends, unit) op" where
  "updateMii ev client req mii =
     registered_caller client req (\<lambda>info. let mv = ci_minorVersion client in
     with_rows ev client req (GET_USER_INFO_BY_PID (ci_pid client)) (\<lambda>found. case found of
         None \<Rightarrow> fd_refuse client req CORE__ACCESS_DENIED
       | Some u \<Rightarrow> bindS (liftS (stored (decode_NNAInfo mv) (ui_nnaInfo u))) (\<lambda>old.
           let nna = old\<lparr>nna_info := (nna_info old)\<lparr>pbi_mii := mii\<rparr>\<rparr> in
           with_rows ev client req
             (UPDATE_USER_INFO (ci_pid client) (no_update\<lparr>uu_nnaInfo := Some (encode_NNAInfo mv nna)\<rparr>)) (\<lambda>_.
           seqS (fd_reply client req [encode_Datetime (of_seconds (now_seconds ev))])
             (tell_friends ev client info [mii_event mv nna])))))"

definition updateComment :: "FriendsEnv \<Rightarrow> ClientInfo \<Rightarrow> Request \<Rightarrow> Comment \<Rightarrow> (Friends, unit) op" where
  "updateComment ev client req comment0 =
     registered_caller client req (\<lambda>info.
     let comment = comment0\<lparr>cmt_lastModified := of_seconds (now_seconds ev)\<rparr> in
     with_rows ev client req (UPDATE_USER_INFO (ci_pid client)
       (no_update\<lparr>uu_comment := Some (encode_Comment (ci_minorVersion client) comment)\<rparr>)) (\<lambda>_.
     seqS (fd_reply client req [encode_Datetime (of_seconds (now_seconds ev))])
       (tell_friends ev client info [(COMMENT_CHANGED,
         general_event 0 (ucast (cmt_unk1 comment)) 0 (now_seconds ev) (cmt_message comment))])))"

definition shown_presence :: "u8 \<Rightarrow> u32 \<Rightarrow> PrincipalPreference \<Rightarrow> UserInfo \<Rightarrow> NintendoPresenceV2 result" where
  "shown_presence mv pid pref u =
     (if ppf_showPlaying pref then stored (decode_NintendoPresenceV2 mv) (ui_presence u)
      else Inr (new_NintendoPresenceV2\<lparr>npr_online := True, npr_pid := pid\<rparr>))"

definition updatePreference :: "FriendsEnv \<Rightarrow> ClientInfo \<Rightarrow> Request \<Rightarrow> PrincipalPreference \<Rightarrow> (Friends, unit) op" where
  "updatePreference ev client req pref =
     registered_caller client req (\<lambda>info. let wasOnline = showOnline (fr_preference info); pid = ci_pid client;
         mv = ci_minorVersion client in
     with_rows ev client req (UPDATE_USER_INFO pid (no_update\<lparr>uu_showPresence := Some (ppf_showOnline pref),
       uu_showPlaying := Some (ppf_showPlaying pref), uu_blockRequests := Some (ppf_blockFriendRequest pref)\<rparr>)) (\<lambda>_.
     seqS (fd_reply client req []) (
     seqS (fd_change_state (updatePreferenceInRegisteredFriendsClientInfo pid
       \<lparr>showOnline = ppf_showOnline pref, showPlaying = ppf_showPlaying pref,
        blockFriendRequest = ppf_blockFriendRequest pref\<rparr>))
     (if wasOnline \<and> \<not> ppf_showOnline pref
      then tell_friends ev client info [(WENT_OFFLINE, general_event 0 0 0 (now_seconds ev) '''')]
      else if \<not> wasOnline \<and> ppf_showOnline pref
      then bindS (db_command ev (GET_USER_INFO_BY_PID pid)) (\<lambda>found. case found of
          Some (Some u) \<Rightarrow> bindS (liftS (shown_presence mv pid pref u)) (\<lambda>presence.
            tell_friends ev client info
              [(PRESENCE_UPDATED, holder ''NintendoPresenceV2'' (encode_NintendoPresenceV2 mv presence))])
        | _ \<Rightarrow> returnS ())
      else returnS ()))))"

section \<open>Queries\<close>

text \<open>One query per user; a user without an account is left out.\<close>

primrec user_infos ::
  "FriendsEnv \<Rightarrow> (u32 \<Rightarrow> UserInfo \<Rightarrow> 'a result) \<Rightarrow> u32 list \<Rightarrow> (Friends, 'a list option) op" where
  "user_infos ev f [] = returnS (Some [])"
| "user_infos ev f (p # ps) =
     bindS (db_command ev (GET_USER_INFO_BY_PID p)) (\<lambda>found. case found of
         None \<Rightarrow> returnS None
       | Some None \<Rightarrow> user_infos ev f ps
       | Some (Some u) \<Rightarrow> bindS (liftS (f p u)) (\<lambda>x.
           bindS (user_infos ev f ps) (\<lambda>xs. returnS (map_option ((#) x) xs))))"

definition about_users ::
  "FriendsEnv \<Rightarrow> ClientInfo \<Rightarrow> Request \<Rightarrow> (u32 \<Rightarrow> UserInfo \<Rightarrow> bytes result) \<Rightarrow> u32 list \<Rightarrow> (Friends, unit) op" where
  "about_users ev client req f pids =
     not_guest client req (if length pids > 100 then fd_refuse client req FPD__OPERATION_NOT_ALLOWED
       else bindS (user_infos ev f pids) (\<lambda>xs. case xs of
           None \<Rightarrow> db_unavailable client req
         | Some items \<Rightarrow> fd_reply client req [encode_list (\<lambda>d. d) items]))"

definition getBasicInfo :: "FriendsEnv \<Rightarrow> ClientInfo \<Rightarrow> Request \<Rightarrow> u32 list \<Rightarrow> (Friends, unit) op" where
  "getBasicInfo ev client req pids = about_users ev client req (\<lambda>_ u.
     bindE (basic_info_of (ci_minorVersion client) (ui_nnaInfo u)) (\<lambda>info.
     Inr (encode_PrincipalBasicInfo (ci_minorVersion client) info))) pids"

definition getRequestBlockSettings :: "FriendsEnv \<Rightarrow> ClientInfo \<Rightarrow> Request \<Rightarrow> u32 list \<Rightarrow> (Friends, unit) op" where
  "getRequestBlockSettings ev client req pids = about_users ev client req (\<lambda>p u.
     Inr (encode_PrincipalRequestBlockSetting (ci_minorVersion client)
       \<lparr>prb_pid = p, prb_blocked = ui_blockRequests u\<rparr>)) pids"

definition FRIENDS_SETTING_STATUS :: u8 where "FRIENDS_SETTING_STATUS = 0"

definition checkSettingStatus :: "ClientInfo \<Rightarrow> Request \<Rightarrow> (Friends, unit) op" where
  "checkSettingStatus client req =
     not_guest client req (fd_reply client req [encode_int FRIENDS_SETTING_STATUS])"

text \<open>The ids of the stored notifications that the caller names, ascending.\<close>

definition same_notification :: "NotificationRow \<Rightarrow> PersistentNotification \<Rightarrow> bool" where
  "same_notification n p \<longleftrightarrow> ntr_value2 n = pnt_unk2 p \<and> ntr_value3 n = pnt_unk3 p \<and> ntr_value4 n = pnt_unk4 p \<and>
     ntr_text n = pnt_unk5 p"

definition named_notifications :: "NotificationRow list \<Rightarrow> PersistentNotification list \<Rightarrow> int list" where
  "named_notifications rows ps = fold insort_insert (map ntr_id (filter (\<lambda>n. list_ex (same_notification n) ps) rows)) []"

definition deletePersistentNotification ::
  "FriendsEnv \<Rightarrow> ClientInfo \<Rightarrow> Request \<Rightarrow> PersistentNotification list \<Rightarrow> (Friends, unit) op" where
  "deletePersistentNotification ev client req ps =
     registered_caller client req (\<lambda>_. in_transaction ev client req (
     with_session_rows ev client req (GET_PERSISTENT_NOTIFICATIONS (ci_pid client)) (\<lambda>rows.
     let ids = named_notifications rows ps in
     if length ids \<noteq> length ps
     then seqS rollbackTransaction (fd_refuse client req FPD__NOTIFICATION_NOT_FOUND)
     else bindS (session_commands ev (map DELETE_PERSISTENT_NOTIFICATION ids)) (\<lambda>ok.
       if \<not> ok then give_up client req else committed ev client req (fd_reply client req [])))))"

section \<open>Dispatch\<close>

definition friends_call :: "FriendsEnv \<Rightarrow> ClientInfo \<Rightarrow> Request \<Rightarrow> FriendsParams \<Rightarrow> (Friends, unit) op" where
  "friends_call ev client req params = (case params of
       RegisterGuest urls \<Rightarrow> register_guest client req
     | RegisterEx urls d \<Rightarrow> registerEx ev client req d
     | NintendoCreateAccount name key groups email d \<Rightarrow> nintendoCreateAccount ev client req d
     | UpdateAndGetAllInformation nna presence birthdate \<Rightarrow> updateAndGetAllInformation ev client req nna presence
     | AddFriend pid \<Rightarrow> addFriend ev client req pid
     | AddFriendByName username \<Rightarrow> addFriendByName ev client req username
     | RemoveFriend pid \<Rightarrow> removeFriend ev client req pid
     | AddFriendRequest pid unk1 message unk2 unk3 gameKey unk4 \<Rightarrow>
         addFriendRequest ev client req pid unk1 message unk2 unk3 gameKey unk4
     | CancelFriendRequest i \<Rightarrow> cancelFriendRequest ev client req i
     | AcceptFriendRequest i \<Rightarrow> acceptFriendRequest ev client req i
     | DeleteFriendRequest i \<Rightarrow> deleteFriendRequest ev client req i
     | DenyFriendRequest i \<Rightarrow> denyFriendRequest ev client req i
     | MarkFriendRequestsAsReceived ids \<Rightarrow> markFriendRequestsAsReceived ev client req ids
     | AddBlackList bl \<Rightarrow> addBlackList ev client req bl
     | RemoveBlackList pid \<Rightarrow> removeBlackList ev client req pid
     | UpdatePresence presence \<Rightarrow> updatePresence ev client req presence
     | UpdateMii mii \<Rightarrow> updateMii ev client req mii
     | UpdateComment comment \<Rightarrow> updateComment ev client req comment
     | UpdatePreference pref \<Rightarrow> updatePreference ev client req pref
     | GetBasicInfo pids \<Rightarrow> getBasicInfo ev client req pids
     | DeletePersistentNotification ps \<Rightarrow> deletePersistentNotification ev client req ps
     | CheckSettingStatus \<Rightarrow> checkSettingStatus client req
     | GetRequestBlockSettings pids \<Rightarrow> getRequestBlockSettings ev client req pids)"

definition call_param :: "'a decoder \<Rightarrow> ('a \<Rightarrow> bytes \<Rightarrow> 'p result) \<Rightarrow> bytes \<Rightarrow> 'p result" where
  "call_param dec k d = bindE (dec d) (\<lambda>(x, n). bindE (subspan d n) (k x))"

definition params_end :: "'p \<Rightarrow> bytes \<Rightarrow> 'p result" where
  "params_end p d = Inr p"

definition friends_calls :: "inet_pton \<Rightarrow> (call_key \<times> (u8 \<Rightarrow> bytes \<Rightarrow> FriendsParams result)) list" where
  "friends_calls inet =
     [((11, 0, 1), \<lambda>mv. call_param (decode_list (decode_StationURL inet)) (\<lambda>u. params_end (RegisterGuest u))),
      ((11, 0, 4), \<lambda>mv. call_param (decode_list (decode_StationURL inet)) (\<lambda>u. call_param decode_AnyDataHolder (\<lambda>d.
         params_end (RegisterEx u d)))),
      ((25, 0, 27), \<lambda>mv. call_param decode_string (\<lambda>n. call_param decode_string (\<lambda>k. call_param decode_int (\<lambda>g.
         call_param decode_string (\<lambda>m. call_param decode_AnyDataHolder (\<lambda>d. params_end (NintendoCreateAccount n k g m d))))))),
      ((102, 0, 1), \<lambda>mv. call_param (decode_NNAInfo mv) (\<lambda>n. call_param (decode_NintendoPresenceV2 mv) (\<lambda>p.
         call_param decode_Datetime (\<lambda>b. params_end (UpdateAndGetAllInformation n p b))))),
      ((102, 0, 2), \<lambda>mv. call_param decode_int (\<lambda>p. params_end (AddFriend p))),
      ((102, 0, 3), \<lambda>mv. call_param decode_string (\<lambda>n. params_end (AddFriendByName n))),
      ((102, 0, 4), \<lambda>mv. call_param decode_int (\<lambda>p. params_end (RemoveFriend p))),
      ((102, 0, 5), \<lambda>mv. call_param decode_int (\<lambda>p. call_param decode_int (\<lambda>a. call_param decode_string (\<lambda>m.
         call_param decode_int (\<lambda>b. call_param decode_string (\<lambda>c. call_param (decode_GameKey mv) (\<lambda>k. call_param decode_Datetime (\<lambda>t.
         params_end (AddFriendRequest p a m b c k t))))))))),
      ((102, 0, 6), \<lambda>mv. call_param decode_int (\<lambda>i. params_end (CancelFriendRequest i))),
      ((102, 0, 7), \<lambda>mv. call_param decode_int (\<lambda>i. params_end (AcceptFriendRequest i))),
      ((102, 0, 8), \<lambda>mv. call_param decode_int (\<lambda>i. params_end (DeleteFriendRequest i))),
      ((102, 0, 9), \<lambda>mv. call_param decode_int (\<lambda>i. params_end (DenyFriendRequest i))),
      ((102, 0, 10), \<lambda>mv. call_param (decode_list decode_int) (\<lambda>is. params_end (MarkFriendRequestsAsReceived is))),
      ((102, 0, 11), \<lambda>mv. call_param (decode_BlacklistedPrincipal mv) (\<lambda>b. params_end (AddBlackList b))),
      ((102, 0, 12), \<lambda>mv. call_param decode_int (\<lambda>p. params_end (RemoveBlackList p))),
      ((102, 0, 13), \<lambda>mv. call_param (decode_NintendoPresenceV2 mv) (\<lambda>p. params_end (UpdatePresence p))),
      ((102, 0, 14), \<lambda>mv. call_param (decode_MiiV2 mv) (\<lambda>m. params_end (UpdateMii m))),
      ((102, 0, 15), \<lambda>mv. call_param (decode_Comment mv) (\<lambda>c. params_end (UpdateComment c))),
      ((102, 0, 16), \<lambda>mv. call_param (decode_PrincipalPreference mv) (\<lambda>p. params_end (UpdatePreference p))),
      ((102, 0, 17), \<lambda>mv. call_param (decode_list decode_int) (\<lambda>ps. params_end (GetBasicInfo ps))),
      ((102, 0, 18), \<lambda>mv. call_param (decode_list (decode_PersistentNotification mv)) (\<lambda>ps.
         params_end (DeletePersistentNotification ps))),
      ((102, 0, 19), \<lambda>mv. params_end CheckSettingStatus),
      ((102, 0, 20), \<lambda>mv. call_param (decode_list decode_int) (\<lambda>ps. params_end (GetRequestBlockSettings ps)))]"

definition Friends_init :: "inet_pton \<Rightarrow> u32 \<Rightarrow> LocalSharedState \<Rightarrow> Tables \<Rightarrow> Friends" where
  "Friends_init inet serverId st t =
     \<lparr>fd_rmc = fold (\<lambda>(k, p). registerCall k p) (friends_calls inet)
        \<lparr>shouldStop = False, rmc_serverId = serverId, pidMap = Map.empty, calls = Map.empty, requestsQueue = []\<rparr>,
      fd_state = st, fd_nextRVConnId = 0, fd_nextCallId = 0, fd_out = [], fd_tables = t, fd_session = None,
      fd_commands = 0\<rparr>"

text \<open>
  One queued request: a handler that throws is answered with \<^verbatim>\<open>CORE__EXCEPTION\<close>. The session of a
  handler goes with it, and so does what it has not committed.
\<close>

definition close_session :: "(Friends, 'a) op \<Rightarrow> (Friends, 'a) op" where
  "close_session m s = (case m s of (r, s') \<Rightarrow> (r, s'\<lparr>fd_session := None\<rparr>))"

definition run_friends_call :: "FriendsEnv \<Rightarrow> FriendsParams RequestInfo \<Rightarrow> (Friends, unit) op" where
  "run_friends_call ev r s =
     (case close_session (friends_call ev (ri_client r) (ri_request r) (ri_params r)) s of
        (Inl UndefinedAccess, s') \<Rightarrow> (Inl UndefinedAccess, s')
      | (Inl _, s') \<Rightarrow> fd_refuse (ri_client r) (ri_request r) CORE__EXCEPTION s'
      | (Inr u, s') \<Rightarrow> (Inr u, s'))"

definition run_friends_task :: "FriendsEnv \<Rightarrow> FriendsParams Task \<Rightarrow> (Friends, unit) op" where
  "run_friends_task ev t s = (case t of
       ConnectTask addr pid \<Rightarrow> (Inr (), s\<lparr>fd_rmc := rmc_onConnect (fd_rmc s) addr pid\<rparr>)
     | DisconnectTask addr \<Rightarrow> friends_onDisconnect ev addr s
     | CallTask r \<Rightarrow> run_friends_call ev r s)"

text \<open>
  One step: a message or a task arrives, the worker runs its next task or moves the queued requests
  behind its tasks, or an account is deleted for the management interface.
\<close>

inductive friends_step ::
  "FriendsParams Task list \<times> Friends \<Rightarrow> FriendsParams Task list \<times> Friends \<Rightarrow> bool" where
  receive: "rmc_onData (fd_rmc s) addr mv sub d = Inr (srv, out) \<Longrightarrow>
    friends_step (ts, s) (ts, s\<lparr>fd_rmc := srv\<rparr>)"
| connect: "friends_step (ts, s) (ts @ [ConnectTask addr pid], s)"
| disconnect: "friends_step (ts, s) (ts @ [DisconnectTask addr], s)"
| run: "\<not> shouldStop (fd_rmc s) \<Longrightarrow> run_friends_task ev t s = (r, s') \<Longrightarrow> r \<noteq> Inl UndefinedAccess \<Longrightarrow>
    friends_step (t # ts, s) (ts, s')"
| drain: "drain_queue (fd_rmc s) = (srv, rs) \<Longrightarrow>
    friends_step (ts, s) (ts @ map CallTask rs, s\<lparr>fd_rmc := srv\<rparr>)"
| delete: "close_session (deleteAccount ev pid) s = (r, s') \<Longrightarrow> r \<noteq> Inl UndefinedAccess \<Longrightarrow>
    friends_step (ts, s) (ts, s')"
| stop: "friends_step (ts, s) ([], s\<lparr>fd_rmc := rmc_stop (fd_rmc s)\<rparr>)"

end
