(* ===== verification/SplatoonCalls.thy ===== *)
theory SplatoonCalls
  imports Splatoon
begin

text \<open>
  The handlers of \<^verbatim>\<open>src/nex/splatoon/splatoonSecure.cpp\<close> in the order of their protocols: NAT
  traversal (3), the secure connection (11), matchmaking (21 and 50), the matchmaking extension (109)
  without the automatic match, and the ranking (112).
\<close>

section \<open>NAT traversal\<close>

text \<open>\<^verbatim>\<open>sendMsg\<close> with a parameter that is a null pointer: it encodes it, unless the server has stopped.\<close>

definition send_null :: "(Splatoon, unit) op" where
  "send_null = readS (\<lambda>s. if shouldStop (sp_rmc s) then returnS () else throwS UndefinedAccess)"

text \<open>
  The probe is moved into the message for the first target; for the next one the parameter is null.
\<close>

definition probe_target ::
  "SplatoonEnv \<Rightarrow> ClientInfo \<Rightarrow> Request \<Rightarrow> ClientInfo \<Rightarrow> StationURL option \<Rightarrow> (Splatoon, unit) op
    \<Rightarrow> (Splatoon, unit) op \<Rightarrow> (Splatoon, unit) op" where
  "probe_target ev client req target probe moved kept =
     readS (\<lambda>s.
       if ci_serverId client = rmc_serverId (sp_rmc s) then
         seqS (case probe of
             Some p \<Rightarrow> send_call target 3 2 [encode_StationURL p]
           | None \<Rightarrow> seqS send_null (send_call target 3 2 []))
           moved
       else (case getPublicFacingRPCAddress (sp_state s) (ci_serverId client) of
               None \<Rightarrow> refuse client req CORE__EXCEPTION
             | Some rpc \<Rightarrow> (case probe of
                   None \<Rightarrow> throwS UndefinedAccess
                 | Some p \<Rightarrow> if en_grpc_probe ev rpc client (encode_StationURL p) then kept
                            else refuse client req CORE__EXCEPTION)))"

primrec probe_targets ::
  "SplatoonEnv \<Rightarrow> ClientInfo \<Rightarrow> Request \<Rightarrow> StationURL list \<Rightarrow> StationURL option \<Rightarrow> (Splatoon, unit) op" where
  "probe_targets ev client req [] probe = reply client req []"
| "probe_targets ev client req (target # targets) probe =
     (case su_PID target of
        None \<Rightarrow> refuse client req CORE__INVALID_ARGUMENT
      | Some pid \<Rightarrow> with_client pid (\<lambda>ci. case ci of
            None \<Rightarrow> refuse client req RENDEZ_VOUS__USER_IS_OFFLINE
          | Some info \<Rightarrow> probe_target ev client req (sr_client info) probe
              (probe_targets ev client req targets None)
              (probe_targets ev client req targets probe)))"

definition requestProbeInitiationExt ::
  "SplatoonEnv \<Rightarrow> ClientInfo \<Rightarrow> Request \<Rightarrow> StationURL list \<Rightarrow> StationURL \<Rightarrow> (Splatoon, unit) op" where
  "requestProbeInitiationExt ev client req targets probe =
     probe_targets ev client req targets (Some probe)"

definition reportNatTraversalResult ::
  "ClientInfo \<Rightarrow> Request \<Rightarrow> u32 \<Rightarrow> bool \<Rightarrow> u32 \<Rightarrow> (Splatoon, unit) op" where
  "reportNatTraversalResult client req cid result rtt = reply client req []"

definition reportNatProperties ::
  "ClientInfo \<Rightarrow> Request \<Rightarrow> u32 \<Rightarrow> u32 \<Rightarrow> u32 \<Rightarrow> (Splatoon, unit) op" where
  "reportNatProperties client req mapping filtering rtt =
     with_client (ci_pid client) (\<lambda>ci. case ci of
         None \<Rightarrow> refuse client req RENDEZ_VOUS__NOT_AUTHENTICATED
       | Some _ \<Rightarrow>
           seqS (change_state (updateSplatoonRegisteredClientLastReportedNATProperties (ci_pid client)
                   \<lparr>np_mapping = mapping, np_filtering = filtering, np_rtt = rtt\<rparr>))
             (reply client req []))"

section \<open>Secure connection\<close>

definition public_url :: "ClientInfo \<Rightarrow> StationURL" where
  "public_url client =
     (empty_url PRUDP)\<lparr>su_ip := Some (ip_of_address (pa_address (ci_address client))),
        su_port := Some (ip_port (pa_address (ci_address client))), su_natf := Some 0,
        su_natm := Some 0, su_pmp := Some False, su_sid := Some 15, su_type := Some 3,
        su_upnp := Some False\<rparr>"

text \<open>The connection ids go up and skip 0.\<close>

definition next_rv_id :: "u32 \<Rightarrow> u32" where
  "next_rv_id i = (if i + 1 = 0 then i + 2 else i + 1)"

definition secure_register :: "ClientInfo \<Rightarrow> Request \<Rightarrow> StationURL list \<Rightarrow> (Splatoon, unit) op" where
  "secure_register client req urls =
     (case urls of
        [url] \<Rightarrow> readS (\<lambda>s.
          (let rv = nextRVConnId s; urlPublic = public_url client;
               clientInfo = \<lparr>sr_client = client, sr_urls = [url\<lparr>su_RVCID := Some rv\<rparr>],
                 sr_publicUrl = urlPublic, sr_rvConnId = rv, joinedGatherings = [],
                 lastReportedNATProperties = \<lparr>np_mapping = 0, np_filtering = 0, np_rtt = 0\<rparr>\<rparr>
           in seqS (modifyS (\<lambda>s. s\<lparr>nextRVConnId := next_rv_id (nextRVConnId s)\<rparr>))
             (seqS (change_state (setSplatoonRegisteredClientInfo clientInfo))
             (reply client req
               [encode_Result \<lparr>res_code = CORE__UNKNOWN, res_success = True\<rparr>, encode_int rv,
                encode_StationURL urlPublic]))))
      | _ \<Rightarrow> reply client req
          [encode_Result \<lparr>res_code = CORE__INVALID_ARGUMENT, res_success = False\<rparr>,
           encode_int (0 :: u32), encode_StationURL (empty_url NONE)])"

text \<open>\<^verbatim>\<open>StationURL\<close>s compare by what they print; the first one that is equal is replaced.\<close>

definition replaceUrl ::
  "ClientInfo \<Rightarrow> Request \<Rightarrow> StationURL \<Rightarrow> StationURL \<Rightarrow> (Splatoon, unit) op" where
  "replaceUrl client req oldUrl newUrl =
     with_client (ci_pid client) (\<lambda>ci. case ci of
         None \<Rightarrow> refuse client req RENDEZ_VOUS__NOT_AUTHENTICATED
       | Some info \<Rightarrow>
           if list_ex (\<lambda>u. encodeString u = encodeString oldUrl) (sr_urls info)
           then seqS (change_state (updateSplatoonRegisteredClientURLs (ci_pid client)
                   (replace_first (\<lambda>u. encodeString u = encodeString oldUrl) newUrl (sr_urls info))))
                 (reply client req [])
           else reply client req [])"

definition sendReport :: "ClientInfo \<Rightarrow> Request \<Rightarrow> u32 \<Rightarrow> bytes \<Rightarrow> (Splatoon, unit) op" where
  "sendReport client req rid report = reply client req []"

section \<open>Matchmaking\<close>

definition unregisterGathering :: "SplatoonEnv \<Rightarrow> ClientInfo \<Rightarrow> Request \<Rightarrow> u32 \<Rightarrow> (Splatoon, unit) op" where
  "unregisterGathering ev client req gId =
     with_session gId (\<lambda>si. case si of
         None \<Rightarrow> reply client req [encode_bool False]
       | Some info \<Rightarrow> with_object (si_session info) (\<lambda>m.
           if ownerPid m \<noteq> ci_pid client then reply client req [encode_bool False]
           else seqS (unregisterGathering_internal ev gId (ci_pid client))
                  (reply client req [encode_bool True])))"

text \<open>A \<^verbatim>\<open>Gathering\<close> with nothing set.\<close>

definition empty_gathering :: "u8 \<Rightarrow> Gathering" where
  "empty_gathering mv = \<lparr>minorVersion = mv, g_id = 0, ownerPid = 0, hostPid = 0, minParticipants = 0,
     maxParticipants = 0, participationPolicy = 0, policyArgument = 0, g_flags = 0, g_state = 0,
     description = ''''\<rparr>"

definition gathering_data :: "'a Gathering_scheme \<Rightarrow> bytes" where
  "gathering_data g =
     encode_AnyDataHolder \<lparr>adh_type = ''Gathering'', adh_data = encode_Gathering g\<rparr>"

definition findBySingleId :: "ClientInfo \<Rightarrow> Request \<Rightarrow> u32 \<Rightarrow> (Splatoon, unit) op" where
  "findBySingleId client req gId =
     with_session gId (\<lambda>si. case si of
         None \<Rightarrow> reply client req
           [encode_bool False, gathering_data (empty_gathering (ci_minorVersion client))]
       | Some info \<Rightarrow> with_object (si_session info) (\<lambda>m.
           reply client req [encode_bool True, gathering_data m]))"

text \<open>
  For an id that is not there, \<^verbatim>\<open>getSessionUrls\<close> passes its own parameter vector, whose one element
  is still null.
\<close>

definition getSessionUrls :: "ClientInfo \<Rightarrow> Request \<Rightarrow> u32 \<Rightarrow> (Splatoon, unit) op" where
  "getSessionUrls client req gId =
     with_session gId (\<lambda>si. case si of
         None \<Rightarrow> send_null
       | Some info \<Rightarrow> with_object (si_session info) (\<lambda>m. with_client (hostPid m) (\<lambda>ci. case ci of
           None \<Rightarrow> refuse client req RENDEZ_VOUS__USER_IS_OFFLINE
         | Some host \<Rightarrow> (case sr_urls host of
               [] \<Rightarrow> refuse client req RENDEZ_VOUS__USER_IS_OFFLINE
             | url # _ \<Rightarrow>
                 (let fix = (\<lambda>u. u\<lparr>su_RVCID := Some (sr_rvConnId host), su_PID := Some (hostPid m)\<rparr>)
                  in reply client req [encode_list encode_StationURL [fix url, fix (sr_publicUrl host)]])))))"

text \<open>
  The handlers that need the session and a right to it: a player of it, or its owner.
\<close>

definition for_player ::
  "ClientInfo \<Rightarrow> Request \<Rightarrow> u32 \<Rightarrow> (SessionInfo \<Rightarrow> (Splatoon, unit) op) \<Rightarrow> (Splatoon, unit) op" where
  "for_player client req gId f =
     with_session gId (\<lambda>si. case si of
         None \<Rightarrow> refuse client req RENDEZ_VOUS__INVALID_GID
       | Some info \<Rightarrow> if ci_pid client \<notin> set (si_players info)
           then refuse client req RENDEZ_VOUS__PERMISSION_DENIED else f info)"

definition for_owner ::
  "ClientInfo \<Rightarrow> Request \<Rightarrow> u32 \<Rightarrow> (SessionInfo \<Rightarrow> (Splatoon, unit) op) \<Rightarrow> (Splatoon, unit) op" where
  "for_owner client req gId f =
     with_session gId (\<lambda>si. case si of
         None \<Rightarrow> refuse client req RENDEZ_VOUS__INVALID_GID
       | Some info \<Rightarrow> with_object (si_session info) (\<lambda>m. if ownerPid m \<noteq> ci_pid client
           then refuse client req RENDEZ_VOUS__PERMISSION_DENIED else f info))"

text \<open>
  \<open>if (migrateOwner)\<close> tests the pointer to the parameter, which is never null, and not its value;
  \<open>!participantsOnly\<close> likewise is never true.
\<close>

definition updateSessionHost ::
  "SplatoonEnv \<Rightarrow> ClientInfo \<Rightarrow> Request \<Rightarrow> u32 \<Rightarrow> bool \<Rightarrow> (Splatoon, unit) op" where
  "updateSessionHost ev client req gId migrateOwner =
     for_player client req gId (\<lambda>info. let a = si_session info; pid = ci_pid client in
       seqS (change_object a (\<lambda>m. m\<lparr>hostPid := pid\<rparr>))
       (seqS (change_object a (\<lambda>m. m\<lparr>ownerPid := pid\<rparr>))
       (bindS (set_session a (si_players info)) (\<lambda>_.
       (seqS (reply client req [])
       (with_object a (\<lambda>m. notify_players ev (si_players info)
          [notification HOST_CHANGED pid (g_id m) pid '''' 0,
           notification OWNERSHIP_CHANGED pid (g_id m) pid (msNow ev) 0])))))))"

definition migrateGatheringOwnership ::
  "SplatoonEnv \<Rightarrow> ClientInfo \<Rightarrow> Request \<Rightarrow> u32 \<Rightarrow> u32 list \<Rightarrow> bool \<Rightarrow> (Splatoon, unit) op" where
  "migrateGatheringOwnership ev client req gId potentialNewOwners participantsOnly =
     for_player client req gId (\<lambda>info.
       (let a = si_session info; players = si_players info;
            consideredOwners = fold insort_insert players
              (fold insort_insert (filter (\<lambda>p. p \<in> set players) potentialNewOwners) [])
        in case consideredOwners of
             [] \<Rightarrow> refuse client req RENDEZ_VOUS__SESSION_VOID
           | newOwnerPid # _ \<Rightarrow>
               seqS (change_object a (\<lambda>m. m\<lparr>ownerPid := newOwnerPid\<rparr>))
               (bindS (set_session a players) (\<lambda>_.
               (seqS (with_object a (\<lambda>m. notify_players ev players
                  [notification OWNERSHIP_CHANGED (ci_pid client) (g_id m) newOwnerPid '''' 0]))
               (reply client req []))))))"

text \<open>The answer of \<^verbatim>\<open>endParticipation\<close> carries no parameter, whether the client played or not.\<close>

definition endParticipation ::
  "SplatoonEnv \<Rightarrow> ClientInfo \<Rightarrow> Request \<Rightarrow> u32 \<Rightarrow> string \<Rightarrow> (Splatoon, unit) op" where
  "endParticipation ev client req gId msg =
     with_session gId (\<lambda>si. case si of
         None \<Rightarrow> reply client req []
       | Some info \<Rightarrow> if ci_pid client \<notin> set (si_players info) then reply client req []
           else seqS (removePlayerFromSession ev gId (ci_pid client) msg False) (reply client req []))"

section \<open>Matchmaking extension\<close>

text \<open>The owner changes the session object, which is stored again.\<close>

definition owner_update ::
  "ClientInfo \<Rightarrow> Request \<Rightarrow> u32 \<Rightarrow> (MatchmakeSession \<Rightarrow> MatchmakeSession) \<Rightarrow> (Splatoon, unit) op" where
  "owner_update client req gId f =
     for_owner client req gId (\<lambda>info.
       seqS (change_object (si_session info) f)
       (bindS (set_session (si_session info) (si_players info)) (\<lambda>_. reply client req [])))"

definition closeParticipation :: "ClientInfo \<Rightarrow> Request \<Rightarrow> u32 \<Rightarrow> (Splatoon, unit) op" where
  "closeParticipation client req gId =
     owner_update client req gId (\<lambda>m. m\<lparr>openParticipation := False\<rparr>)"

definition openParticipation_call :: "ClientInfo \<Rightarrow> Request \<Rightarrow> u32 \<Rightarrow> (Splatoon, unit) op" where
  "openParticipation_call client req gId =
     owner_update client req gId (\<lambda>m. m\<lparr>openParticipation := True\<rparr>)"

text \<open>The line that would write the attribute is commented out.\<close>

definition modifyCurrentGameAttribute ::
  "ClientInfo \<Rightarrow> Request \<Rightarrow> u32 \<Rightarrow> u32 \<Rightarrow> u32 \<Rightarrow> (Splatoon, unit) op" where
  "modifyCurrentGameAttribute client req gId attribIndex newValue =
     for_owner client req gId (\<lambda>info.
       bindS (set_session (si_session info) (si_players info)) (\<lambda>_. reply client req []))"

definition updateProgressScore :: "ClientInfo \<Rightarrow> Request \<Rightarrow> u32 \<Rightarrow> u8 \<Rightarrow> (Splatoon, unit) op" where
  "updateProgressScore client req gId score =
     owner_update client req gId (\<lambda>m. m\<lparr>progressScore := score\<rparr>)"

definition playing_sessions :: "LocalSharedState \<Rightarrow> u32 list \<Rightarrow> PlayingSession list" where
  "playing_sessions st pids =
     concat (map (\<lambda>pid. case getSplatoonRegisteredClientInfo st pid of
         None \<Rightarrow> []
       | Some ci \<Rightarrow> map (\<lambda>a. \<lparr>ps_pid = pid, ps_gathering = Gathering.truncate (heap st a)\<rparr>)
           (joinedGatherings ci)) pids)"

definition getPlayingSessions :: "ClientInfo \<Rightarrow> Request \<Rightarrow> u32 list \<Rightarrow> (Splatoon, unit) op" where
  "getPlayingSessions client req pids =
     readS (\<lambda>s. reply client req
       [encode_list (encode_PlayingSession (ci_minorVersion client)) (playing_sessions (sp_state s) pids)])"

text \<open>The first player that is not registered ends the request.\<close>

primrec check_online ::
  "ClientInfo \<Rightarrow> Request \<Rightarrow> u32 list \<Rightarrow> (Splatoon, unit) op \<Rightarrow> (Splatoon, unit) op" where
  "check_online client req [] k = k"
| "check_online client req (pid # pids) k =
     with_client pid (\<lambda>ci. case ci of
         None \<Rightarrow> refuse client req RENDEZ_VOUS__USER_IS_OFFLINE
       | Some _ \<Rightarrow> check_online client req pids k)"

text \<open>A \<^verbatim>\<open>std::set\<close> made from a range.\<close>

definition set_of_pids :: "u32 list \<Rightarrow> u32 list" where
  "set_of_pids pids = fold insort_insert pids []"

definition created_session ::
  "SplatoonEnv \<Rightarrow> ClientInfo \<Rightarrow> CreateMatchmakeSessionParam \<Rightarrow> u32 \<Rightarrow> MatchmakeSession" where
  "created_session ev client param gId =
     (let m = cp_srcMatchmakeSession param
      in m\<lparr>g_id := gId, ownerPid := ci_pid client, hostPid := ci_pid client,
           participationCount := of_nat (length (cp_additionalParticipants param)) + 1,
           openParticipation := True, sessionKey := en_key ev, startedTime := en_now ev,
           userPasswordEnabled := (userPasswordEnabled m \<or> userPassword m \<noteq> [])\<rparr>)"

text \<open>Storing copies the object; the handler keeps the original and sends it.\<close>

definition createMatchmakeSessionWithParam ::
  "SplatoonEnv \<Rightarrow> ClientInfo \<Rightarrow> Request \<Rightarrow> CreateMatchmakeSessionParam \<Rightarrow> (Splatoon, unit) op" where
  "createMatchmakeSessionWithParam ev client req param =
     with_client (ci_pid client) (\<lambda>ci. case ci of
         None \<Rightarrow> refuse client req RENDEZ_VOUS__NOT_AUTHENTICATED
       | Some _ \<Rightarrow>
           if unat (maxParticipants (cp_srcMatchmakeSession param)) <
              length (cp_additionalParticipants param) + 1
           then refuse client req RENDEZ_VOUS__SESSION_FULL
           else check_online client req (cp_additionalParticipants param)
             (let playerPids = ci_pid client # cp_additionalParticipants param in
              bindS (getNewGatheringId ev) (\<lambda>gId.
              bindS (new_object (created_session ev client param gId)) (\<lambda>a.
              bindS (set_session a (set_of_pids playerPids)) (\<lambda>r.
              case r of
                FAILURE \<Rightarrow> sendMsg (OutResponse client (createError req CORE__EXCEPTION) [])
              | SUCCESS \<Rightarrow>
                  seqS (change_object a (\<lambda>m. m\<lparr>minorVersion := ci_minorVersion client\<rparr>))
                  (seqS (with_object a (\<lambda>m. reply client req [encode_MatchmakeSession m]))
                  (notify_players ev playerPids
                    (map (\<lambda>p. notification NEW_PARTICIPANT (ci_pid client) gId p (cp_joinMessage param) 1)
                       playerPids))))))))"

text \<open>
  Joining: the capacity is compared with the players and the additional ones, without the client
  itself. The count is raised on the shared object before the reply copies it.
\<close>

definition join_session ::
  "SplatoonEnv \<Rightarrow> ClientInfo \<Rightarrow> Request \<Rightarrow> JoinMatchmakeSessionParam \<Rightarrow> SessionInfo \<Rightarrow> (Splatoon, unit) op" where
  "join_session ev client req param info =
     (let a = si_session info; playerPids = ci_pid client # jp_additionalParticipants param;
          existing = si_players info; all = fold insort_insert playerPids existing;
          joins = (\<lambda>p. notification NEW_PARTICIPANT (ci_pid client) (jp_gid param) p (jp_joinMessage param) 1)
      in seqS (change_object a (\<lambda>m. m\<lparr>participationCount := participationCount m + of_nat (length playerPids)\<rparr>))
         (seqS (with_object a (\<lambda>m. reply client req
            [encode_MatchmakeSession (m\<lparr>minorVersion := ci_minorVersion client\<rparr>)]))
         (seqS (forS playerPids (\<lambda>pid. with_client pid (\<lambda>ci. case ci of
              None \<Rightarrow> returnS ()
            | Some _ \<Rightarrow> notify_players ev existing [joins pid])))
         (seqS (bindS (set_session a all) (\<lambda>_. returnS ()))
         (notify_players ev playerPids (map joins all))))))"

definition joinMatchmakeSessionWithParam ::
  "SplatoonEnv \<Rightarrow> ClientInfo \<Rightarrow> Request \<Rightarrow> JoinMatchmakeSessionParam \<Rightarrow> (Splatoon, unit) op" where
  "joinMatchmakeSessionWithParam ev client req param =
     with_client (ci_pid client) (\<lambda>ci. case ci of
         None \<Rightarrow> refuse client req RENDEZ_VOUS__NOT_AUTHENTICATED
       | Some _ \<Rightarrow> with_session (jp_gid param) (\<lambda>si. case si of
           None \<Rightarrow> refuse client req RENDEZ_VOUS__INVALID_GID
         | Some info \<Rightarrow> with_object (si_session info) (\<lambda>m.
             if unat (maxParticipants m) <
                unat (participationCount m) + length (jp_additionalParticipants param)
             then refuse client req RENDEZ_VOUS__SESSION_FULL
             else if \<not> openParticipation m then refuse client req RENDEZ_VOUS__SESSION_CLOSED
             else if userPasswordEnabled m \<and> jp_userPassword param \<noteq> userPassword m
             then refuse client req RENDEZ_VOUS__MATCHMAKE_SESSION_USER_PASSWORD_UNMATCH
             else check_online client req (jp_additionalParticipants param)
                    (join_session ev client req param info))))"

section \<open>Ranking\<close>

definition score_info :: "u32 \<Rightarrow> FestivalTeamTotals list \<Rightarrow> CompetitionRankingScoreInfo" where
  "score_info festivalId totals =
     \<lparr>si_festivalId = festivalId, si_scoreData = [], si_unk1 = 0,
      si_teamWins = map ft_totalWins totals, si_teamVotes = map ft_userCount totals\<rparr>"

primrec ranking_scores ::
  "SplatoonEnv \<Rightarrow> ClientInfo \<Rightarrow> Request \<Rightarrow> u32 list \<Rightarrow> CompetitionRankingScoreInfo list \<Rightarrow> (Splatoon, unit) op"
where
  "ranking_scores ev client req [] scores =
     reply client req [encode_list (encode_CompetitionRankingScoreInfo (ci_minorVersion client)) scores]"
| "ranking_scores ev client req (festivalId # ids) scores =
     (case en_db ev of
        None \<Rightarrow> ranking_scores ev client req ids (scores @ [score_info festivalId []])
      | Some db \<Rightarrow> readS (\<lambda>s. seqS (db_run (GET_FESTIVAL_TOTALS festivalId))
          (case db_totals db (sp_db s) festivalId of
             None \<Rightarrow> refuse client req CORE__EXCEPTION
           | Some totals \<Rightarrow> ranking_scores ev client req ids (scores @ [score_info festivalId totals]))))"

definition getCompetitionRankingScore ::
  "SplatoonEnv \<Rightarrow> ClientInfo \<Rightarrow> Request \<Rightarrow> CompetitionRankingGetParam \<Rightarrow> (Splatoon, unit) op" where
  "getCompetitionRankingScore ev client req param =
     (if 10 < length (gp_festivalIds param) then refuse client req CORE__INVALID_ARGUMENT
      else ranking_scores ev client req (gp_festivalIds param) [])"

definition uploadCompetitionRankingScore ::
  "SplatoonEnv \<Rightarrow> ClientInfo \<Rightarrow> Request \<Rightarrow> CompetitionRankingUploadScoreParam \<Rightarrow> (Splatoon, unit) op" where
  "uploadCompetitionRankingScore ev client req param =
     (case en_db ev of
        None \<Rightarrow> reply client req [encode_bool True]
      | Some db \<Rightarrow>
          (let c = UPLOAD_FESTIVAL_SCORE (up_festivalId param) (ci_pid client)
                     (if up_teamId param = 0 then 0 else 1) (up_teamScore param)
           in readS (\<lambda>s. seqS (db_run c)
                (if db_upload db (sp_db s) c then reply client req [encode_bool True]
                 else refuse client req CORE__EXCEPTION))))"

end
