(* ===== verification/SplatoonMatch.thy ===== *)
theory SplatoonMatch
  imports SplatoonCalls
begin

text \<open>
  The automatic match, \<^verbatim>\<open>autoMatchmakeWithParam_Postpone\<close> of \<^verbatim>\<open>src/nex/splatoon/splatoonSecure.cpp\<close>:
  which sessions fit the search criteria, which of them is chosen, and the handler. The criteria are
  strings of the client; a number that does not parse ends the request.
\<close>

section \<open>The search criteria\<close>

text \<open>Equality of \<^verbatim>\<open>Variant\<close>s; a \<^verbatim>\<open>double\<close> is its bits, so zeros and NaN need care.\<close>

definition double_eq :: "u64 \<Rightarrow> u64 \<Rightarrow> bool" where
  "double_eq v w \<longleftrightarrow>
     (let abs = (\<lambda>x. x AND 0x7FFFFFFFFFFFFFFF)
      in (v = w \<and> abs v \<le> 0x7FF0000000000000) \<or> (abs v = 0 \<and> abs w = 0))"

fun variant_eq :: "Variant \<Rightarrow> Variant \<Rightarrow> bool" where
  "variant_eq (VDouble v) (VDouble w) = double_eq v w"
| "variant_eq v w = (v = w)"

definition params_match :: "(string \<times> Variant) list \<Rightarrow> (string \<times> Variant) list \<Rightarrow> bool" where
  "params_match wanted offered =
     list_all (\<lambda>(k, v). case map_of offered k of None \<Rightarrow> False | Some w \<Rightarrow> variant_eq v w) wanted"

text \<open>
  The attributes from index \<open>j\<close> on, while they agree: the number is parsed before index 1, the
  experience, is skipped.
\<close>

fun attributes_match :: "nat \<Rightarrow> string list \<Rightarrow> u32 list \<Rightarrow> bool result" where
  "attributes_match j (attribute # as) (x # xs) =
     bindE (stoi attribute) (\<lambda>v.
       if j = 1 \<or> (word_of_int v :: u32) = x then attributes_match (Suc j) as xs else Inr False)"
| "attributes_match j as xs = Inr True"

text \<open>Two numbers with a comma between them, as 16 bits each; behind a second comma nothing is read.\<close>

definition parse_bounds :: "string \<Rightarrow> (u16 \<times> u16) result" where
  "parse_bounds s =
     (if CHR '','' \<notin> set s then Inl LogicError
      else bindE (stoi (takeWhile (\<lambda>c. c \<noteq> CHR '','') s)) (\<lambda>lo.
           bindE (stoi (tl (dropWhile (\<lambda>c. c \<noteq> CHR '','') s))) (\<lambda>hi.
           Inr (word_of_int lo, word_of_int hi))))"

definition criteria_match :: "MatchmakeSessionSearchCriteria \<Rightarrow> MatchmakeSession \<Rightarrow> bool result" where
  "criteria_match c m =
     (if length (sc_attributes c) \<noteq> length (attributes m) then Inr False
      else bindE (attributes_match 0 (sc_attributes c) (attributes m)) (\<lambda>attrs.
           bindE (stoi (sc_gameMode c)) (\<lambda>mode.
           bindE (parse_bounds (sc_minParticipants c)) (\<lambda>(min_min, max_min).
           bindE (parse_bounds (sc_maxParticipants c)) (\<lambda>(min_max, max_max).
           bindE (stoi (sc_matchmakeSystemType c)) (\<lambda>system.
           Inr (attrs \<and> (word_of_int mode :: u32) = gameMode m \<and>
             min_min \<le> minParticipants m \<and> minParticipants m \<le> max_min \<and>
             min_max \<le> maxParticipants m \<and> maxParticipants m \<le> max_max \<and>
             (word_of_int system :: u32) = matchmakeSystemType m \<and>
             \<not> (sc_excludeUserPasswordSet c \<and> userPasswordEnabled m) \<and>
             \<not> (sc_excludeSystemPasswordSet c \<and> systemPasswordEnabled m) \<and>
             sc_referGid c = referGid m \<and>
             params_match (mp_params (sc_matchmakeParam c)) (mp_params (matchmakeParam m)))))))))"

text \<open>The criteria in their order, until one fits.\<close>

fun any_criteria :: "MatchmakeSessionSearchCriteria list \<Rightarrow> MatchmakeSession \<Rightarrow> bool result" where
  "any_criteria [] m = Inr False"
| "any_criteria (c # cs) m =
     bindE (criteria_match c m) (\<lambda>b. if b then Inr True else any_criteria cs m)"

text \<open>
  The filter. The room is computed in 32 bits: a session whose maximum is below the number of new
  players wraps to a huge one.
\<close>

definition session_fits ::
  "u32 list \<Rightarrow> AutoMatchmakeParam \<Rightarrow> MatchmakeSession \<Rightarrow> bool result" where
  "session_fits joined param m =
     (let vacant = of_nat (length (ap_additionalParticipants param) + 1) :: u32;
          maxAllowedExistingPlayers = ucast (maxParticipants m) - vacant
      in if g_id m \<in> set joined \<or> \<not> openParticipation m \<or>
            maxAllowedExistingPlayers < participationCount m then Inr False
         else any_criteria (ap_searchCriteria param) m)"

section \<open>The choice\<close>

text \<open>The difference in experience, attribute 1; it is read without looking at the size.\<close>

definition exp_difference :: "AutoMatchmakeParam \<Rightarrow> MatchmakeSession \<Rightarrow> u32 result" where
  "exp_difference param m =
     (let mine = attributes (ap_srcMatchmakeSession param)
      in if length (attributes m) \<le> 1 \<or> length mine \<le> 1 then Inl UndefinedAccess
         else Inr (word_of_int \<bar>uint (attributes m ! 1) - uint (mine ! 1)\<bar>))"

text \<open>
  \<^verbatim>\<open>std::priority_queue\<close> with \<^verbatim>\<open>a.first < b.first\<close>: its top is the largest difference, and of several
  the one that was put in first. That is all that is taken from it.
\<close>

definition queue_push :: "u32 \<times> SessionInfo \<Rightarrow> (u32 \<times> SessionInfo) option \<Rightarrow> (u32 \<times> SessionInfo) option" where
  "queue_push x best = (case best of
       None \<Rightarrow> Some x
     | Some y \<Rightarrow> if fst y < fst x then Some x else Some y)"

fun valid_top ::
  "u32 list \<Rightarrow> AutoMatchmakeParam \<Rightarrow> (addr \<Rightarrow> MatchmakeSession) \<Rightarrow> SessionInfo list
    \<Rightarrow> (u32 \<times> SessionInfo) option \<Rightarrow> (u32 \<times> SessionInfo) option result" where
  "valid_top joined param h [] best = Inr best"
| "valid_top joined param h (si # sis) best =
     bindE (session_fits joined param (h (si_session si))) (\<lambda>fits.
     if fits then bindE (exp_difference param (h (si_session si))) (\<lambda>d.
       valid_top joined param h sis (queue_push (d, si) best))
     else valid_top joined param h sis best)"

section \<open>The handler\<close>

text \<open>Every additional player must be registered and share a gathering with the client.\<close>

primrec check_shared ::
  "ClientInfo \<Rightarrow> Request \<Rightarrow> u32 list \<Rightarrow> u32 list \<Rightarrow> (Splatoon, unit) op \<Rightarrow> (Splatoon, unit) op" where
  "check_shared client req joined [] k = k"
| "check_shared client req joined (pid # pids) k =
     with_client pid (\<lambda>ci. case ci of
         None \<Rightarrow> refuse client req RENDEZ_VOUS__USER_IS_OFFLINE
       | Some info \<Rightarrow> readS (\<lambda>s.
           if list_ex (\<lambda>a. g_id (heap (sp_state s) a) \<in> set joined) (joinedGatherings info)
           then check_shared client req joined pids k
           else refuse client req RENDEZ_VOUS__PERMISSION_DENIED))"

text \<open>The participation check: only if the parameter names a gathering.\<close>

definition check_participation ::
  "ClientInfo \<Rightarrow> Request \<Rightarrow> u32 \<Rightarrow> (Splatoon, unit) op \<Rightarrow> (Splatoon, unit) op" where
  "check_participation client req gId k =
     (if gId = 0 then k else for_player client req gId (\<lambda>_. k))"

definition festival_session :: "SplatoonEnv \<Rightarrow> ClientInfo \<Rightarrow> AutoMatchmakeParam \<Rightarrow> u32 \<Rightarrow> MatchmakeSession" where
  "festival_session ev client param gId =
     (let m = ap_srcMatchmakeSession param
      in m\<lparr>g_id := gId, ownerPid := ci_pid client, hostPid := ci_pid client,
           openParticipation := (openParticipation m \<or> gameMode m = 12), participationCount := 0,
           sessionKey := en_key ev, startedTime := en_now ev\<rparr>)"

text \<open>
  From the chosen session on: \<open>sent\<close> is the copy made for the reply, before the count is raised.
\<close>

definition finish_match ::
  "SplatoonEnv \<Rightarrow> ClientInfo \<Rightarrow> Request \<Rightarrow> AutoMatchmakeParam \<Rightarrow> addr \<Rightarrow> u32 list \<Rightarrow> MatchmakeSession
    \<Rightarrow> (Splatoon, unit) op" where
  "finish_match ev client req param a players sent =
     (let extra = ap_additionalParticipants param; pid = ci_pid client; gId = g_id sent in
      seqS (change_object a (\<lambda>m. m\<lparr>participationCount := participationCount m + (of_nat (length extra) + 1)\<rparr>))
      (bindS (set_session a players) (\<lambda>r. case r of
          FAILURE \<Rightarrow> sendMsg (OutResponse client (createError req CORE__EXCEPTION) [])
        | SUCCESS \<Rightarrow> with_session gId (\<lambda>si. case si of
            None \<Rightarrow> sendMsg (OutResponse client (createError req CORE__EXCEPTION) [])
          | Some persisted \<Rightarrow>
              seqS (reply client req [encode_MatchmakeSession (sent\<lparr>minorVersion := ci_minorVersion client\<rparr>)])
              (with_object (si_session persisted) (\<lambda>m.
                seqS (if ap_gidForParitipationCheck param = 0 then returnS ()
                      else forS (set_of_pids (pid # extra)) (\<lambda>p. notify_player ev p
                             [notification SWITCH_GATHERING pid (g_id m) p '''' 1]))
                  (notify_players ev (filter (\<lambda>p. ownerPid m = p \<or> pid = p) (si_players persisted))
                     [notification NEW_PARTICIPANT pid (g_id m) pid '''' 1])))))))"

definition autoMatchmakeWithParam_Postpone ::
  "SplatoonEnv \<Rightarrow> ClientInfo \<Rightarrow> Request \<Rightarrow> AutoMatchmakeParam \<Rightarrow> (Splatoon, unit) op" where
  "autoMatchmakeWithParam_Postpone ev client req param =
     (let pid = ci_pid client; extra = ap_additionalParticipants param in
      with_client pid (\<lambda>ci. case ci of
         None \<Rightarrow> refuse client req RENDEZ_VOUS__NOT_AUTHENTICATED
       | Some info \<Rightarrow> check_participation client req (ap_gidForParitipationCheck param)
          (readS (\<lambda>s0. let joined = map (\<lambda>a. g_id (heap (sp_state s0) a)) (joinedGatherings info) in
           check_shared client req joined extra
           (readS (\<lambda>s. case valid_top joined param (heap (sp_state s))
                         (map snd (getAllSplatoonMatchmakeSessions (sp_state s))) None of
              Inl e \<Rightarrow> if e \<in> {LogicError, InvalidArgument, OutOfRange, LengthError}
                then refuse client req CORE__INVALID_ARGUMENT else throwS e
            | Inr None \<Rightarrow>
                bindS (getNewGatheringId ev) (\<lambda>gId.
                let m = festival_session ev client param gId in
                bindS (new_object m) (\<lambda>a. finish_match ev client req param a (set_of_pids (pid # extra)) m))
            | Inr (Some (_, si)) \<Rightarrow> with_object (si_session si) (\<lambda>m.
                finish_match ev client req param (si_session si)
                  (fold insort_insert (pid # extra) (si_players si)) m)))))))"

section \<open>Dispatch\<close>

text \<open>The callback of a registered call, on the parameters its parser made.\<close>

definition splatoon_call ::
  "SplatoonEnv \<Rightarrow> ClientInfo \<Rightarrow> Request \<Rightarrow> SplatoonParams \<Rightarrow> (Splatoon, unit) op" where
  "splatoon_call ev client req params = (case params of
       RequestProbeInitiationExt targets probe \<Rightarrow> requestProbeInitiationExt ev client req targets probe
     | ReportNatTraversalResult cid result rtt \<Rightarrow> reportNatTraversalResult client req cid result rtt
     | ReportNatProperties mapping filtering rtt \<Rightarrow> reportNatProperties client req mapping filtering rtt
     | SecureRegister urls \<Rightarrow> secure_register client req urls
     | ReplaceUrl oldUrl newUrl \<Rightarrow> replaceUrl client req oldUrl newUrl
     | SendReport rid report \<Rightarrow> sendReport client req rid report
     | UnregisterGathering gId \<Rightarrow> unregisterGathering ev client req gId
     | FindBySingleId gId \<Rightarrow> findBySingleId client req gId
     | GetSessionUrls gId \<Rightarrow> getSessionUrls client req gId
     | UpdateSessionHost gId migrateOwner \<Rightarrow> updateSessionHost ev client req gId migrateOwner
     | MigrateGatheringOwnership gId owners only \<Rightarrow> migrateGatheringOwnership ev client req gId owners only
     | EndParticipation gId msg \<Rightarrow> endParticipation ev client req gId msg
     | CloseParticipation gId \<Rightarrow> closeParticipation client req gId
     | OpenParticipation gId \<Rightarrow> openParticipation_call client req gId
     | ModifyCurrentGameAttribute gId i v \<Rightarrow> modifyCurrentGameAttribute client req gId i v
     | GetPlayingSessions pids \<Rightarrow> getPlayingSessions client req pids
     | UpdateProgressScore gId score \<Rightarrow> updateProgressScore client req gId score
     | CreateMatchmakeSessionWithParam p \<Rightarrow> createMatchmakeSessionWithParam ev client req p
     | JoinMatchmakeSessionWithParam p \<Rightarrow> joinMatchmakeSessionWithParam ev client req p
     | AutoMatchmakeWithParam_Postpone p \<Rightarrow> autoMatchmakeWithParam_Postpone ev client req p
     | GetCompetitionRankingScore p \<Rightarrow> getCompetitionRankingScore ev client req p
     | UploadCompetitionRankingScore p \<Rightarrow> uploadCompetitionRankingScore ev client req p)"

text \<open>\<^verbatim>\<open>ParamParser\<close>: the parameters one behind the other; what is left over is not looked at.\<close>

definition parse1 :: "'a decoder \<Rightarrow> ('a \<Rightarrow> SplatoonParams) \<Rightarrow> bytes \<Rightarrow> SplatoonParams result" where
  "parse1 da f d = bindE (da d) (\<lambda>(a, n). bindE (subspan d n) (\<lambda>_. Inr (f a)))"

definition parse2 ::
  "'a decoder \<Rightarrow> 'b decoder \<Rightarrow> ('a \<Rightarrow> 'b \<Rightarrow> SplatoonParams) \<Rightarrow> bytes \<Rightarrow> SplatoonParams result" where
  "parse2 da db f d = bindE (da d) (\<lambda>(a, n). bindE (subspan d n) (parse1 db (f a)))"

definition parse3 ::
  "'a decoder \<Rightarrow> 'b decoder \<Rightarrow> 'c decoder \<Rightarrow> ('a \<Rightarrow> 'b \<Rightarrow> 'c \<Rightarrow> SplatoonParams) \<Rightarrow> bytes
    \<Rightarrow> SplatoonParams result" where
  "parse3 da db dc f d = bindE (da d) (\<lambda>(a, n). bindE (subspan d n) (parse2 db dc (f a)))"

definition splatoon_calls ::
  "inet_pton \<Rightarrow> (call_key \<times> (u8 \<Rightarrow> bytes \<Rightarrow> SplatoonParams result)) list" where
  "splatoon_calls inet =
     [((3, 0, 3), \<lambda>mv. parse2 (decode_list (decode_StationURL inet)) (decode_StationURL inet)
        RequestProbeInitiationExt),
      ((3, 0, 4), \<lambda>mv. parse3 decode_int decode_bool decode_int ReportNatTraversalResult),
      ((3, 0, 5), \<lambda>mv. parse3 decode_int decode_int decode_int ReportNatProperties),
      ((11, 0, 1), \<lambda>mv. parse1 (decode_list (decode_StationURL inet)) SecureRegister),
      ((11, 0, 7), \<lambda>mv. parse2 (decode_StationURL inet) (decode_StationURL inet) ReplaceUrl),
      ((11, 0, 8), \<lambda>mv. parse2 decode_int (decode_buffer TYPE(16)) SendReport),
      ((21, 0, 2), \<lambda>mv. parse1 decode_int UnregisterGathering),
      ((21, 0, 21), \<lambda>mv. parse1 decode_int FindBySingleId),
      ((21, 0, 41), \<lambda>mv. parse1 decode_int GetSessionUrls),
      ((21, 0, 42), \<lambda>mv. parse2 decode_int decode_bool UpdateSessionHost),
      ((21, 0, 44), \<lambda>mv. parse3 decode_int (decode_list decode_int) decode_bool MigrateGatheringOwnership),
      ((50, 0, 1), \<lambda>mv. parse2 decode_int decode_string EndParticipation),
      ((109, 0, 1), \<lambda>mv. parse1 decode_int CloseParticipation),
      ((109, 0, 2), \<lambda>mv. parse1 decode_int OpenParticipation),
      ((109, 0, 8), \<lambda>mv. parse3 decode_int decode_int decode_int ModifyCurrentGameAttribute),
      ((109, 0, 16), \<lambda>mv. parse1 (decode_list decode_int) GetPlayingSessions),
      ((109, 0, 34), \<lambda>mv. parse2 decode_int decode_int UpdateProgressScore),
      ((109, 0, 38), \<lambda>mv. parse1 (decode_CreateMatchmakeSessionParam mv) CreateMatchmakeSessionWithParam),
      ((109, 0, 39), \<lambda>mv. parse1 (decode_JoinMatchmakeSessionParam mv) JoinMatchmakeSessionWithParam),
      ((109, 0, 40), \<lambda>mv. parse1 (decode_AutoMatchmakeParam mv) AutoMatchmakeWithParam_Postpone),
      ((112, 0, 16), \<lambda>mv. parse1 (decode_CompetitionRankingGetParam mv) GetCompetitionRankingScore),
      ((112, 0, 18), \<lambda>mv. parse1 (decode_CompetitionRankingUploadScoreParam mv) UploadCompetitionRankingScore)]"

definition register_splatoon :: "inet_pton \<Rightarrow> SplatoonParams RmcServer \<Rightarrow> SplatoonParams RmcServer" where
  "register_splatoon inet s = fold (\<lambda>(k, p). registerCall k p) (splatoon_calls inet) s"

text \<open>
  One queued request: the handler, and the answer for one that threw. What a handler has sent stays
  sent.
\<close>

definition run_call :: "SplatoonEnv \<Rightarrow> SplatoonParams RequestInfo \<Rightarrow> Splatoon \<Rightarrow> unit result \<times> Splatoon" where
  "run_call ev r s =
     (case splatoon_call ev (ri_client r) (ri_request r) (ri_params r) s of
        (Inl UndefinedAccess, s') \<Rightarrow> (Inl UndefinedAccess, s')
      | (Inl _, s') \<Rightarrow>
          sendMsg (OutResponse (ri_client r) (createError (ri_request r) CORE__EXCEPTION) []) s'
      | (Inr u, s') \<Rightarrow> (Inr u, s'))"

end
