(* ===== verification/SplatoonRuns.thy ===== *)
theory SplatoonRuns
  imports SplatoonMatch
begin

text \<open>
  Every handler, on every input: it does not throw, it keeps the shared state consistent
  (\<open>ss_inv\<close>), and it answers its caller exactly once. One triple per routine says all three.
\<close>

section \<open>Stages\<close>

text \<open>The responses among what was sent.\<close>

primrec response_of :: "Outgoing \<Rightarrow> (ClientInfo \<times> Response) list" where
  "response_of (OutResponse c r ps) = [(c, r)]"
| "response_of (OutRequest c r ps) = []"

definition replies :: "Splatoon \<Rightarrow> (ClientInfo \<times> Response) list" where
  "replies s = concat (map response_of (sp_out s))"

text \<open>A response that the caller takes for the answer to its request.\<close>

definition answer_to :: "Request \<Rightarrow> Response \<Rightarrow> bool" where
  "answer_to req r \<longleftrightarrow> rs_protocolId r = rq_protocolId req \<and>
     rs_extendedProtocolId r = rq_extendedProtocolId req \<and> rs_callId r = rq_callId req \<and>
     rs_methodId r = rq_methodId req"

text \<open>
  A stage of a handler that started in \<open>s0\<close>: \<open>n\<close> answers so far, and the shared state has \<open>C\<close>.
\<close>

definition stage ::
  "ClientInfo \<Rightarrow> Request \<Rightarrow> Splatoon \<Rightarrow> (LocalSharedState \<Rightarrow> bool) \<Rightarrow> nat \<Rightarrow> Splatoon \<Rightarrow> bool" where
  "stage client req s0 C n s \<longleftrightarrow> C (sp_state s) \<and> sp_rmc s = sp_rmc s0 \<and>
     (\<exists>rs. replies s = replies s0 @ rs \<and> length rs = n \<and>
        (\<forall>(c, r) \<in> set rs. c = client \<and> answer_to req r))"

lemma stage_start: "C (sp_state s) \<Longrightarrow> stage client req s C 0 s"
  by (simp add: stage_def)

lemma stage_mono: "stage client req s0 C n s \<Longrightarrow> (\<And>st. C st \<Longrightarrow> C' st) \<Longrightarrow> stage client req s0 C' n s"
  by (auto simp: stage_def)

text \<open>A routine that only sends requests: whatever the stage, it stays.\<close>

definition silent :: "(Splatoon, 'a) op \<Rightarrow> bool" where
  "silent m \<longleftrightarrow> (\<forall>s. \<exists>a s'. m s = (Inr a, s') \<and> sp_state s' = sp_state s \<and> sp_rmc s' = sp_rmc s \<and>
     replies s' = replies s)"

named_theorems silent_intros \<open>routines that only send requests\<close>

lemma silentI:
  "(\<And>s. \<exists>a s'. m s = (Inr a, s') \<and> sp_state s' = sp_state s \<and> sp_rmc s' = sp_rmc s \<and>
     replies s' = replies s) \<Longrightarrow> silent m"
  by (simp add: silent_def)

lemma silentE:
  assumes "silent m"
  obtains a s' where "m s = (Inr a, s')" "sp_state s' = sp_state s" "sp_rmc s' = sp_rmc s"
    "replies s' = replies s"
  using assms by (force simp: silent_def)

lemma silent_return [silent_intros]: "silent (returnS a)"
  by (simp add: silent_def)

lemma silent_bind [silent_intros]:
  assumes "silent m" and "\<And>a. silent (f a)"
  shows "silent (bindS m f)"
proof (rule silentI)
  fix s
  obtain a s' where m: "m s = (Inr a, s')" "sp_state s' = sp_state s" "sp_rmc s' = sp_rmc s"
    "replies s' = replies s" by (rule silentE [OF assms(1)])
  obtain b t where "f a s' = (Inr b, t)" "sp_state t = sp_state s'" "sp_rmc t = sp_rmc s'"
    "replies t = replies s'" by (rule silentE [OF assms(2)])
  with m show "\<exists>b t. bindS m f s = (Inr b, t) \<and> sp_state t = sp_state s \<and> sp_rmc t = sp_rmc s \<and>
      replies t = replies s"
    by simp
qed

lemma silent_seq [silent_intros]: "silent m \<Longrightarrow> silent k \<Longrightarrow> silent (seqS m k)"
  unfolding seqS_def by (rule silent_bind)

lemma silent_read [silent_intros]: "(\<And>s. silent (f s)) \<Longrightarrow> silent (readS f)"
  by (simp add: silent_def)

lemma silent_if [silent_intros]: "silent m \<Longrightarrow> silent k \<Longrightarrow> silent (if b then m else k)"
  by simp

lemma silent_option [silent_intros]:
  "silent m \<Longrightarrow> (\<And>x. silent (f x)) \<Longrightarrow> silent (case ox of None \<Rightarrow> m | Some x \<Rightarrow> f x)"
  by (cases ox) simp_all

lemma silent_for [silent_intros]: "(\<And>x. silent (f x)) \<Longrightarrow> silent (forS xs f)"
  by (induction xs) (simp_all add: silent_intros)

lemma silent_with_client [silent_intros]: "(\<And>ci. silent (f ci)) \<Longrightarrow> silent (with_client pid f)"
  unfolding with_client_def by (rule silent_read)

lemma silent_with_object [silent_intros]: "(\<And>m. silent (f m)) \<Longrightarrow> silent (with_object a f)"
  unfolding with_object_def by (rule silent_read)

lemma silent_send_call [silent_intros]: "silent (send_call client proto meth params)"
  by (rule silentI) (simp add: send_call_def sendMsg_def seqS_def bindS_def replies_def)

lemma silent_db_run [silent_intros]: "silent (db_run c)"
  by (rule silentI) (simp add: db_run_def replies_def)

lemma silent_sendNotification [silent_intros]: "silent (sendNotification ev client event again)"
  unfolding sendNotification_def by (intro silent_intros)

lemma silent_notify [silent_intros]: "silent (notify ev client event)"
  unfolding notify_def by (intro silent_intros)

lemma silent_notify_player [silent_intros]: "silent (notify_player ev pid events)"
  unfolding notify_player_def by (intro silent_intros)

lemma silent_notify_players [silent_intros]: "silent (notify_players ev pids events)"
  unfolding notify_players_def by (intro silent_intros)

lemma runs_silent:
  "silent m \<Longrightarrow> runs (stage client req s0 C n) m (\<lambda>_. stage client req s0 C n)"
  unfolding stage_def by (rule runs_okI) (fastforce simp: silent_def)

section \<open>The building blocks\<close>

lemma runs_sendMsg:
  assumes "\<not> shouldStop (sp_rmc s0)" and "answer_to req r"
  shows "runs (stage client req s0 C n) (sendMsg (OutResponse client r params))
    (\<lambda>_. stage client req s0 C (Suc n))"
  unfolding sendMsg_def
proof (rule runs_modify)
  fix s assume "stage client req s0 C n s"
  then obtain rs where "C (sp_state s)" "sp_rmc s = sp_rmc s0" "replies s = replies s0 @ rs"
    "length rs = n" "\<forall>(c, r) \<in> set rs. c = client \<and> answer_to req r"
    by (auto simp: stage_def)
  with assms show "stage client req s0 C (Suc n)
      (if shouldStop (sp_rmc s) then s else s\<lparr>sp_out := sp_out s @ [OutResponse client r params]\<rparr>)"
    by (auto simp: stage_def replies_def intro!: exI [of _ "rs @ [(client, r)]"])
qed

lemma answer_reply [simp]:
  "answer_to req (reply_to req)" "answer_to req ((reply_to req)\<lparr>rs_success := b, rs_error := e\<rparr>)"
  "answer_to req (createError req e)"
  by (simp_all add: answer_to_def reply_to_def createError_def)

lemma runs_reply [runs_intros]:
  "\<not> shouldStop (sp_rmc s0) \<Longrightarrow> runs (stage client req s0 C n) (reply client req params)
    (\<lambda>_. stage client req s0 C (Suc n))"
  unfolding reply_def by (rule runs_sendMsg) simp_all

lemma runs_refuse [runs_intros]:
  "\<not> shouldStop (sp_rmc s0) \<Longrightarrow> runs (stage client req s0 C n) (refuse client req err)
    (\<lambda>_. stage client req s0 C (Suc n))"
  unfolding refuse_def by (rule runs_sendMsg) simp_all

lemma runs_error [runs_intros]:
  "\<not> shouldStop (sp_rmc s0) \<Longrightarrow>
   runs (stage client req s0 C n) (sendMsg (OutResponse client (createError req err) []))
    (\<lambda>_. stage client req s0 C (Suc n))"
  by (rule runs_sendMsg) simp_all

lemma runs_send_null [runs_intros]:
  "\<not> shouldStop (sp_rmc s0) \<Longrightarrow> runs (stage client req s0 C n) send_null J"
  by (simp add: runs_def send_null_def stage_def)

lemma runs_change_state:
  "(\<And>st. C st \<Longrightarrow> C' (f st)) \<Longrightarrow>
   runs (stage client req s0 C n) (change_state f) (\<lambda>_. stage client req s0 C' n)"
  unfolding change_state_def by (rule runs_modify) (auto simp: stage_def replies_def)

lemma runs_change_object:
  "(\<And>st. C st \<Longrightarrow> C' (write_session a f st)) \<Longrightarrow>
   runs (stage client req s0 C n) (change_object a f) (\<lambda>_. stage client req s0 C' n)"
  unfolding change_object_def by (rule runs_change_state)

lemma runs_new_object:
  assumes "\<And>st a st'. C st \<Longrightarrow> alloc m st = (a, st') \<Longrightarrow> C' a st'"
  shows "runs (stage client req s0 C n) (new_object m) (\<lambda>a. stage client req s0 (C' a) n)"
  by (rule runs_okI)
     (auto simp: new_object_def stage_def replies_def intro: assms split: prod.split)

lemma runs_set_session:
  assumes "\<And>st r st'. C st \<Longrightarrow> setSplatoonMatchmakeSession (Some a) players st = (r, st') \<Longrightarrow> C' st'"
  shows "runs (stage client req s0 C n) (set_session a players) (\<lambda>_. stage client req s0 C' n)"
  by (rule runs_okI)
     (auto simp: set_session_def stage_def replies_def intro: assms split: prod.split)

text \<open>Reading, in the middle of a stage: what was read was true of some state with \<open>C\<close>.\<close>

lemma runs_with_client [runs_intros]:
  assumes "\<And>ci. runs (stage client req s0 C n) (f ci) J"
  shows "runs (stage client req s0 C n) (with_client pid f) J"
  unfolding with_client_def by (rule runs_read) (rule assms)

lemma runs_with_object [runs_intros]:
  assumes "\<And>m. runs (stage client req s0 C n) (f m) J"
  shows "runs (stage client req s0 C n) (with_object a f) J"
  unfolding with_object_def by (rule runs_read) (rule assms)

lemma runs_with_session:
  assumes "\<And>st. C st \<Longrightarrow> runs (stage client req s0 C n) (f (getSplatoonMatchmakeSession st gId)) J"
  shows "runs (stage client req s0 C n) (with_session gId f) J"
  unfolding with_session_def by (rule runs_read) (simp add: stage_def assms)

text \<open>The same, when the rest needs the very state.\<close>

lemma runs_at:
  assumes "\<And>s. stage client req s0 C n s \<Longrightarrow> runs (stage client req s0 (\<lambda>st. st = sp_state s) n) (f s) J"
  shows "runs (stage client req s0 C n) (readS f) J"
proof (rule runs_read_exact)
  fix s assume s: "stage client req s0 C n s"
  show "runs (\<lambda>t. t = s) (f s) J"
    by (rule runs_pre [OF assms [OF s]]) (use s in \<open>auto simp: stage_def\<close>)
qed

lemma runs_stage_pre:
  "runs (stage client req s0 C n) m J \<Longrightarrow> (\<And>st. C' st \<Longrightarrow> C st) \<Longrightarrow> runs (stage client req s0 C' n) m J"
  by (erule runs_pre) (rule stage_mono)

lemmas runs_silents [runs_intros] =
  silent_notify [THEN runs_silent] silent_notify_player [THEN runs_silent]
  silent_notify_players [THEN runs_silent] silent_send_call [THEN runs_silent]
  silent_db_run [THEN runs_silent]

end
