(* ===== verification/FriendsFacts.thy ===== *)
theory FriendsFacts
  imports FriendsService SplatoonRuns
begin

text \<open>
  What holds of every handler of the friends server: it answers its caller once (at most once when it
  throws), and it keeps the database within its schema. Both are shown construct by construct.
\<close>

section \<open>Answers\<close>

definition fd_replies :: "Friends \<Rightarrow> (ClientInfo \<times> Response) list" where
  "fd_replies s = concat (map (\<lambda>m. case m of OutResponse c r ps \<Rightarrow> [(c, r)] | OutRequest c r ps \<Rightarrow> []) (fd_out s))"

text \<open>
  \<open>answering client req n m\<close>: the routine answers the request of the client \<open>n\<close> times, less often only
  when it throws, and leaves the connections alone.
\<close>

definition answering :: "ClientInfo \<Rightarrow> Request \<Rightarrow> nat \<Rightarrow> (Friends, 'a) op \<Rightarrow> bool" where
  "answering client req n m \<longleftrightarrow> (\<forall>s. \<not> shouldStop (fd_rmc s) \<longrightarrow>
     (\<exists>rs. fd_replies (snd (m s)) = fd_replies s @ rs \<and> length rs \<le> n \<and>
        (\<forall>(c, r) \<in> set rs. ci_address c = ci_address client \<and> answer_to req r) \<and>
        (\<forall>a. fst (m s) = Inr a \<longrightarrow> length rs = n)) \<and> fd_rmc (snd (m s)) = fd_rmc s)"

text \<open>A routine that does not answer.\<close>

definition quiet :: "(Friends, 'a) op \<Rightarrow> bool" where
  "quiet m \<longleftrightarrow> (\<forall>s. fd_replies (snd (m s)) = fd_replies s \<and> fd_rmc (snd (m s)) = fd_rmc s)"

named_theorems quiet_intros \<open>routines that do not answer\<close>
named_theorems answer_intros \<open>routines that answer once\<close>

lemma quiet_return [quiet_intros]: "quiet (returnS a)"
  by (simp add: quiet_def)

lemma quiet_throw [quiet_intros]: "quiet (throwS e)"
  by (simp add: quiet_def)

lemma quiet_lift [quiet_intros]: "quiet (liftS r)"
  by (simp add: quiet_def)

lemma quiet_bind [quiet_intros]:
  assumes "quiet m" and "\<And>a. quiet (f a)"
  shows "quiet (bindS m f)"
  unfolding quiet_def
proof
  fix s
  obtain r t where m: "m s = (r, t)" by (cases "m s")
  have t: "fd_replies t = fd_replies s" "fd_rmc t = fd_rmc s" using assms(1) m by (auto simp: quiet_def dest: spec [of _ s])
  show "fd_replies (snd (bindS m f s)) = fd_replies s \<and> fd_rmc (snd (bindS m f s)) = fd_rmc s"
  proof (cases r)
    case (Inl e)
    then show ?thesis using t by (simp add: bindS_def m)
  next
    case (Inr a)
    then have "bindS m f s = f a t" by (simp add: bindS_def m)
    then show ?thesis using assms(2) [of a] t by (simp add: quiet_def)
  qed
qed

lemma quiet_seq [quiet_intros]: "quiet m \<Longrightarrow> quiet k \<Longrightarrow> quiet (seqS m k)"
  unfolding seqS_def by (rule quiet_bind)

lemma quiet_read [quiet_intros]: "(\<And>s. quiet (f s)) \<Longrightarrow> quiet (readS f)"
  by (simp add: quiet_def)

lemma quiet_if [quiet_intros]: "quiet m \<Longrightarrow> quiet k \<Longrightarrow> quiet (if b then m else k)"
  by simp

lemma quiet_option [quiet_intros]:
  "quiet m \<Longrightarrow> (\<And>x. quiet (f x)) \<Longrightarrow> quiet (case ox of None \<Rightarrow> m | Some x \<Rightarrow> f x)"
  by (cases ox) simp_all

lemma quiet_prod [quiet_intros]: "(\<And>a b. quiet (f a b)) \<Longrightarrow> quiet (case p of (a, b) \<Rightarrow> f a b)"
  by (cases p) simp

lemma quiet_let [quiet_intros]: "(\<And>x. quiet (f x)) \<Longrightarrow> quiet (let x = a in f x)"
  by simp

lemma quiet_for [quiet_intros]: "(\<And>x. quiet (f x)) \<Longrightarrow> quiet (forS xs f)"
  by (induction xs) (simp_all add: quiet_intros)

lemma quiet_modify:
  fixes f :: "Friends \<Rightarrow> Friends"
  shows "(\<And>s. fd_out (f s) = fd_out s) \<Longrightarrow> (\<And>s. fd_rmc (f s) = fd_rmc s) \<Longrightarrow> quiet (modifyS f)"
  by (simp add: quiet_def fd_replies_def)

lemma quiet_request [quiet_intros]: "quiet (fd_send (OutRequest c r ps))"
  by (simp add: quiet_def fd_send_def fd_replies_def)

lemma quiet_db [quiet_intros]:
  "quiet (db_command ev st)" "quiet (session_command ev st)" "quiet (startTransaction ev)"
  "quiet (commitTransaction ev)" "quiet rollbackTransaction"
  by (simp_all add: quiet_def fd_replies_def db_command_def session_command_def startTransaction_def
      commitTransaction_def rollbackTransaction_def Let_def split: option.split)

lemma quiet_change [quiet_intros]: "quiet (fd_change_state f)"
  unfolding fd_change_state_def by (rule quiet_modify) simp_all

lemma quiet_commands [quiet_intros]: "quiet (session_commands ev sts)"
  by (induction sts) (simp_all only: session_commands.simps, (intro quiet_intros | assumption)+)

lemma quiet_registered [quiet_intros]: "(\<And>ci. quiet (k ci)) \<Longrightarrow> quiet (with_registered pid k)"
  unfolding with_registered_def by (rule quiet_read)

lemma quiet_notification [quiet_intros]: "quiet (sendFriendsNotification ev client ty sender d again)"
  unfolding sendFriendsNotification_def by (intro quiet_intros quiet_modify) simp_all

lemma quiet_routines [quiet_intros]:
  "quiet (notify_friend ev pid sender events)" "quiet (cleanupExpiredFriendRequests ev pid)"
  "quiet (became_friends ev pid f)" "quiet (createBecameFriendsPersistentNotification ev pid f)"
  "quiet (tell_friends ev client info events)" "quiet (tell_accepted ev client pid)"
  "quiet (tell_requested ev client pid msg)"
  unfolding notify_friend_def cleanupExpiredFriendRequests_def became_friends_def
    createBecameFriendsPersistentNotification_def tell_friends_def tell_accepted_def tell_requested_def
  by (intro quiet_intros)+

lemma quiet_user_infos [quiet_intros]: "quiet (user_infos ev f ps)"
  by (induction ps) (simp_all only: user_infos.simps, (intro quiet_intros | assumption)+)

section \<open>One answer\<close>

lemma answering_quiet: "quiet m \<Longrightarrow> answering client req 0 m"
  by (simp add: quiet_def answering_def)

lemma answering_bind:
  assumes m: "answering client req i m" and f: "\<And>a. answering client req j (f a)" and n: "n = i + j"
  shows "answering client req n (bindS m f)"
  unfolding answering_def
proof (intro allI impI)
  fix s :: Friends assume run: "\<not> shouldStop (fd_rmc s)"
  obtain r t where mt: "m s = (r, t)" by (cases "m s")
  have m': "\<exists>rs. fd_replies t = fd_replies s @ rs \<and> length rs \<le> i \<and>
        (\<forall>(c, r) \<in> set rs. ci_address c = ci_address client \<and> answer_to req r) \<and>
        (\<forall>a. r = Inr a \<longrightarrow> length rs = i)" and rmc: "fd_rmc t = fd_rmc s"
    using m run unfolding answering_def by (force simp: mt)+
  show "(\<exists>rs. fd_replies (snd (bindS m f s)) = fd_replies s @ rs \<and> length rs \<le> n \<and>
        (\<forall>(c, r) \<in> set rs. ci_address c = ci_address client \<and> answer_to req r) \<and>
        (\<forall>a. fst (bindS m f s) = Inr a \<longrightarrow> length rs = n)) \<and> fd_rmc (snd (bindS m f s)) = fd_rmc s"
  proof (cases r)
    case (Inl e)
    then show ?thesis using m' rmc by (force simp: bindS_def mt n)
  next
    case (Inr a)
    from m' Inr obtain rs where rs: "fd_replies t = fd_replies s @ rs" "length rs = i"
      "\<forall>(c, r) \<in> set rs. ci_address c = ci_address client \<and> answer_to req r" by auto
    have "\<not> shouldStop (fd_rmc t)" using run rmc by simp
    then obtain rs' where rs': "fd_replies (snd (f a t)) = fd_replies t @ rs'" "length rs' \<le> j"
      "\<forall>(c, r) \<in> set rs'. ci_address c = ci_address client \<and> answer_to req r"
      "\<forall>b. fst (f a t) = Inr b \<longrightarrow> length rs' = j" "fd_rmc (snd (f a t)) = fd_rmc t"
      using f [of a] unfolding answering_def by blast
    have "\<forall>(c, r) \<in> set (rs @ rs'). ci_address c = ci_address client \<and> answer_to req r"
      using rs(3) rs'(3) by auto
    moreover have "bindS m f s = f a t" by (simp add: bindS_def mt Inr)
    ultimately show ?thesis using rs rs' rmc n by (intro conjI exI [of _ "rs @ rs'"]) auto
  qed
qed

definition answers_once :: "ClientInfo \<Rightarrow> Request \<Rightarrow> (Friends, 'a) op \<Rightarrow> bool" where
  "answers_once client req m \<longleftrightarrow> answering client req 1 m"

lemma answer_bind [answer_intros]:
  "quiet m \<Longrightarrow> (\<And>a. answers_once client req (f a)) \<Longrightarrow> answers_once client req (bindS m f)"
  unfolding answers_once_def by (rule answering_bind [where i = 0]) (simp_all add: answering_quiet)

lemma answer_seq [answer_intros]:
  "quiet m \<Longrightarrow> answers_once client req k \<Longrightarrow> answers_once client req (seqS m k)"
  unfolding seqS_def by (rule answer_bind)

lemma answer_read [answer_intros]: "(\<And>s. answers_once client req (f s)) \<Longrightarrow> answers_once client req (readS f)"
  by (simp add: answering_def answers_once_def)

lemma answer_throw [answer_intros]: "answers_once client req (throwS e)"
  by (simp add: answering_def answers_once_def)

lemma answer_if [answer_intros]:
  "answers_once client req m \<Longrightarrow> answers_once client req k \<Longrightarrow> answers_once client req (if b then m else k)"
  by simp

lemma answer_option [answer_intros]:
  "answers_once client req m \<Longrightarrow> (\<And>x. answers_once client req (f x)) \<Longrightarrow>
   answers_once client req (case ox of None \<Rightarrow> m | Some x \<Rightarrow> f x)"
  by (cases ox) simp_all

lemma answer_sum [answer_intros]:
  "(\<And>x. answers_once client req (m x)) \<Longrightarrow> (\<And>x. answers_once client req (f x)) \<Longrightarrow>
   answers_once client req (case r of Inl x \<Rightarrow> m x | Inr x \<Rightarrow> f x)"
  by (cases r) simp_all

lemma answer_prod [answer_intros]:
  "(\<And>a b. answers_once client req (f a b)) \<Longrightarrow> answers_once client req (case p of (a, b) \<Rightarrow> f a b)"
  by (cases p) simp

lemma answer_let [answer_intros]:
  "(\<And>x. answers_once client req (f x)) \<Longrightarrow> answers_once client req (let x = a in f x)"
  by simp

lemma answer_send:
  assumes "ci_address c = ci_address client" and "answer_to req r"
  shows "answers_once client req (fd_send (OutResponse c r ps))"
  using assms by (simp add: answers_once_def answering_def fd_send_def fd_replies_def)

lemma answer_with_reply [answer_intros]:
  "ci_address c = ci_address client \<Longrightarrow> answers_once client req (fd_reply c req ps)"
  unfolding fd_reply_def by (rule answer_send) (simp_all add: answer_to_def reply_to_def)

lemma answer_refuse [answer_intros]:
  "ci_address c = ci_address client \<Longrightarrow> answers_once client req (fd_refuse c req err)"
  unfolding fd_refuse_def by (rule answer_send) (simp_all add: answer_to_def createError_def)

lemma answer_then:
  "answers_once client req m \<Longrightarrow> quiet k \<Longrightarrow> answers_once client req (seqS m k)"
  unfolding seqS_def answers_once_def
  by (rule answering_bind [where i = 1 and j = 0]) (simp_all add: answering_quiet)

text \<open>What follows an answer is quiet.\<close>

lemma answer_first:
  "ci_address c = ci_address client \<Longrightarrow> quiet k \<Longrightarrow> answers_once client req (seqS (fd_reply c req ps) k)"
  "ci_address c = ci_address client \<Longrightarrow> quiet k \<Longrightarrow> answers_once client req (seqS (fd_refuse c req err) k)"
  by (rule answer_then; simp add: answer_intros)+

lemma answer_unavailable [answer_intros]:
  "ci_address c = ci_address client \<Longrightarrow> answers_once client req (db_unavailable c req)"
  "ci_address c = ci_address client \<Longrightarrow> answers_once client req (give_up c req)"
  unfolding db_unavailable_def give_up_def by (simp_all add: answer_intros quiet_intros db_unavailable_def)

lemma answer_parts [answer_intros]:
  assumes [simp]: "ci_address c = ci_address client"
  shows "(\<And>a. answers_once client req (k a)) \<Longrightarrow> answers_once client req (with_rows ev c req st k)"
    "(\<And>a. answers_once client req (k a)) \<Longrightarrow> answers_once client req (with_session_rows ev c req st k)"
  unfolding with_rows_def with_session_rows_def by (simp_all add: answer_intros quiet_intros)

lemma answer_parts' [answer_intros]:
  assumes [simp]: "ci_address c = ci_address client"
  shows "answers_once client req k' \<Longrightarrow> answers_once client req (in_transaction ev c req k')"
    "answers_once client req k' \<Longrightarrow> answers_once client req (committed ev c req k')"
    "answers_once client req k' \<Longrightarrow> answers_once client req (cleaned ev c req pid k')"
    "answers_once client req k' \<Longrightarrow> answers_once client req (not_guest c req k')"
  unfolding in_transaction_def committed_def cleaned_def not_guest_def
  by (simp_all add: answer_intros quiet_intros)

lemma answer_registered [answer_intros]:
  assumes [simp]: "ci_address c = ci_address client" and "\<And>i. answers_once client req (k i)"
  shows "answers_once client req (registered_caller c req k)"
  unfolding registered_caller_def with_registered_def using assms(2) by (simp add: answer_intros)

lemma answer_received [answer_intros]:
  assumes [simp]: "ci_address c = ci_address client" and "\<And>r m. answers_once client req (k r m)"
  shows "answers_once client req (with_received ev c req i k)"
  unfolding with_received_def using assms(2) by (intro answer_intros quiet_intros) simp_all

lemma answer_data [answer_intros]:
  assumes [simp]: "ci_address c = ci_address client" and "\<And>x. answers_once client req (k x)"
  shows "answers_once client req (with_data c req ty dec a k)"
  unfolding with_data_def using assms(2) by (intro answer_intros) simp_all

section \<open>The handlers\<close>

lemma answer_fd_registered [answer_intros]:
  "ci_address c = ci_address client \<Longrightarrow> answers_once client req (fd_registered c req)"
  unfolding fd_registered_def by (intro answer_intros quiet_modify) simp_all

lemma answer_enter [answer_intros]:
  "ci_address c = ci_address client \<Longrightarrow> answers_once client req (enter ev c req username)"
  unfolding enter_def enrol_def by (intro answer_intros quiet_intros) simp_all

lemma answer_register:
  "answers_once client req (register_guest client req)" "answers_once client req (registerEx ev client req d)"
  "answers_once client req (nintendoCreateAccount ev client req d)"
  unfolding register_guest_def registerEx_def nintendoCreateAccount_def Let_def
  by (intro answer_intros quiet_intros; simp)+

lemma answer_updateAndGet: "answers_once client req (updateAndGetAllInformation ev client req nna presence)"
  unfolding updateAndGetAllInformation_def
  by (intro answer_first answer_intros quiet_intros) simp_all

lemma answer_add_accepted [answer_intros]:
  "answers_once client req (add_accepted ev client req pid i friend)"
  unfolding add_accepted_def by (intro answer_first answer_intros quiet_intros) simp_all

lemma answer_add_requested [answer_intros]:
  "answers_once client req (add_requested ev client req pid message rejected friend)"
  unfolding add_requested_def by (intro answer_first answer_intros quiet_intros) simp_all

lemma answer_has_room [answer_intros]:
  "answers_once client req k \<Longrightarrow> answers_once client req (friend_has_room ev client req pid k)"
  unfolding friend_has_room_def by (intro answer_intros quiet_intros) simp_all

lemma answer_add_checked [answer_intros]:
  "answers_once client req (add_checked ev client req pid message received)"
  unfolding add_checked_def
  by (cases "message = None") (simp_all, (intro answer_intros quiet_intros, simp_all)+)

lemma answer_addFriendInternal [answer_intros]:
  "answers_once client req (addFriendInternal ev client req pid message)"
  unfolding addFriendInternal_def by (intro answer_intros quiet_intros) simp_all

lemma answer_adding:
  "answers_once client req (addFriend ev client req pid)"
  "answers_once client req (addFriendByName ev client req username)"
  "answers_once client req (addFriendRequest ev client req pid a m b c k t)"
  unfolding addFriendByName_def addFriend_def addFriendRequest_def by (intro answer_intros quiet_intros; simp)+

lemma answer_removing [answer_intros]:
  "answers_once client req (remove_request ev client req pid rows)"
  "answers_once client req (remove_friendship ev client req pid)"
  unfolding remove_request_def remove_friendship_def by (intro answer_first answer_intros quiet_intros; simp)+

lemma answer_removeFriend: "answers_once client req (removeFriend ev client req pid)"
  unfolding removeFriend_def by (intro answer_intros quiet_intros) simp_all

lemma answer_requests:
  "answers_once client req (cancelFriendRequest ev client req i)"
  "answers_once client req (acceptFriendRequest ev client req i)"
  "answers_once client req (deleteFriendRequest ev client req i)"
  unfolding cancelFriendRequest_def acceptFriendRequest_def deleteFriendRequest_def
  by (intro answer_first answer_intros quiet_intros; simp)+

lemma answer_mark_received [answer_intros]:
  "answers_once client req k \<Longrightarrow> answers_once client req (mark_received ev client req rows k ids)"
  by (induction ids) (simp_all only: mark_received.simps, (rule answer_first answer_intros quiet_intros refl | assumption)+, simp_all)

lemma answer_reject_requests [answer_intros]:
  "answers_once client req k \<Longrightarrow> answers_once client req (reject_requests ev client req k rs)"
  by (induction rs) (simp_all only: reject_requests.simps, (rule answer_intros quiet_intros refl | assumption)+, simp_all)

lemma answer_blacklist [answer_intros]:
  "answers_once client req (block_user ev client req bl u)" "answers_once client req (addBlackList ev client req bl)"
  unfolding addBlackList_def block_user_def by (intro answer_intros quiet_intros; simp)+

lemma answer_more:
  "answers_once client req (markFriendRequestsAsReceived ev client req ids)"
  "answers_once client req (denyFriendRequest ev client req i)"
  "answers_once client req (removeBlackList ev client req pid)"
  unfolding markFriendRequestsAsReceived_def denyFriendRequest_def removeBlackList_def
  by (intro answer_intros quiet_intros; simp)+

lemma answer_updates:
  "answers_once client req (updatePresence ev client req presence)"
  "answers_once client req (updateMii ev client req mii)"
  "answers_once client req (updateComment ev client req comment)"
  "answers_once client req (updatePreference ev client req pref)"
  unfolding updatePresence_def updateMii_def updateComment_def updatePreference_def
  by (intro answer_first answer_intros quiet_intros; simp)+

lemma answer_queries:
  "answers_once client req (getBasicInfo ev client req pids)"
  "answers_once client req (getRequestBlockSettings ev client req pids)"
  "answers_once client req (checkSettingStatus client req)"
  "answers_once client req (deletePersistentNotification ev client req ps)"
  unfolding getBasicInfo_def getRequestBlockSettings_def about_users_def checkSettingStatus_def
    deletePersistentNotification_def
  by (intro answer_intros quiet_intros; simp)+

lemmas handler_answers = answer_register answer_updateAndGet answer_adding answer_removeFriend answer_requests
  answer_more answer_updates answer_queries answer_blacklist

lemma friends_call_answers: "answers_once client req (friends_call ev client req params)"
  by (cases params) (simp_all add: friends_call_def handler_answers)

text \<open>The worker adds an answer when the handler has thrown.\<close>

lemma run_call_answers:
  assumes live: "\<not> shouldStop (fd_rmc s)" and run: "run_friends_call ev r s = (res, s')"
    and ok: "res \<noteq> Inl UndefinedAccess"
  shows "res = Inr () \<and> fd_rmc s' = fd_rmc s \<and>
    (\<exists>rs. fd_replies s' = fd_replies s @ rs \<and> length rs \<in> {1, 2} \<and>
       (\<forall>(c, a) \<in> set rs. ci_address c = ci_address (ri_client r) \<and> answer_to (ri_request r) a) \<and>
       (fst (friends_call ev (ri_client r) (ri_request r) (ri_params r) s) = Inr () \<longrightarrow> length rs = 1))"
proof -
  obtain q t where m: "friends_call ev (ri_client r) (ri_request r) (ri_params r) s = (q, t)" by fastforce
  obtain rs where rs: "fd_replies t = fd_replies s @ rs" "length rs \<le> 1" "q = Inr () \<longrightarrow> length rs = 1"
    "\<forall>(c, a) \<in> set rs. ci_address c = ci_address (ri_client r) \<and> answer_to (ri_request r) a"
    and rmc: "fd_rmc t = fd_rmc s"
    using friends_call_answers [of "ri_client r" "ri_request r" ev "ri_params r"] live m
    unfolding answers_once_def answering_def by (force dest: spec [of _ s])
  have closed: "fd_replies (t\<lparr>fd_session := None\<rparr>) = fd_replies t" by (simp add: fd_replies_def)
  show ?thesis
  proof (cases q)
    case (Inr u)
    then have "s' = t\<lparr>fd_session := None\<rparr>" "res = Inr ()" using run m by (auto simp: run_friends_call_def close_session_def)
    then show ?thesis using rs rmc m Inr closed by auto
  next
    case (Inl e)
    then have e: "e \<noteq> UndefinedAccess" using run ok m by (auto simp: run_friends_call_def close_session_def)
    let ?a = "createError (ri_request r) CORE__EXCEPTION"
    have "run_friends_call ev r s = fd_refuse (ri_client r) (ri_request r) CORE__EXCEPTION (t\<lparr>fd_session := None\<rparr>)"
      using e by (simp add: run_friends_call_def close_session_def m Inl split: exn.split)
    then have "res = Inr ()" "fd_rmc s' = fd_rmc t" "fd_replies s' = fd_replies t @ [(ri_client r, ?a)]"
      using live rmc run by (auto simp: fd_refuse_def fd_send_def fd_replies_def)
    moreover have "answer_to (ri_request r) ?a" by (simp add: answer_to_def createError_def)
    moreover have "length rs \<in> {0, 1}" using rs(2) by (cases rs) auto
    ultimately show ?thesis using rs rmc m Inl by (intro conjI exI [of _ "rs @ [(ri_client r, ?a)]"]) auto
  qed
qed

end
