(* ===== verification/FriendsInvariant.thy ===== *)
theory FriendsInvariant
  imports FriendsFacts
begin

text \<open>
  What the handlers keep of the database. A property of the tables that every statement keeps is kept
  by a transaction and by the whole handler; where a statement may only run after a check, the rows of
  the earlier query carry the fact.
\<close>

section \<open>Properties of the tables\<close>

text \<open>
  The property holds of the tables and of the copy the open transaction works on; and with \<open>Some ms\<close>
  the calls sent to clients are still \<open>ms\<close>.
\<close>

definition sent_calls :: "Friends \<Rightarrow> Outgoing list" where
  "sent_calls s = filter (\<lambda>m. case m of OutResponse c r ps \<Rightarrow> False | OutRequest c r ps \<Rightarrow> True) (fd_out s)"

lemma sent_calls_simps [simp]:
  "sent_calls (s\<lparr>fd_tables := t\<rparr>) = sent_calls s" "sent_calls (s\<lparr>fd_session := w\<rparr>) = sent_calls s"
  "sent_calls (s\<lparr>fd_commands := n\<rparr>) = sent_calls s" "sent_calls (s\<lparr>fd_state := st\<rparr>) = sent_calls s"
  "sent_calls (s\<lparr>fd_nextRVConnId := i\<rparr>) = sent_calls s" "sent_calls (s\<lparr>fd_nextCallId := j\<rparr>) = sent_calls s"
  "sent_calls (s\<lparr>fd_rmc := x\<rparr>) = sent_calls s"
  "sent_calls (s\<lparr>fd_out := fd_out s @ [OutResponse c r ps]\<rparr>) = sent_calls s"
  by (simp_all add: sent_calls_def)

definition both :: "(Tables \<Rightarrow> bool) \<Rightarrow> Outgoing list option \<Rightarrow> Friends \<Rightarrow> bool" where
  "both P N s \<longleftrightarrow> P (fd_tables s) \<and> (\<forall>w. fd_session s = Some w \<longrightarrow> P w) \<and>
     (\<forall>ms. N = Some ms \<longrightarrow> sent_calls s = ms)"

text \<open>\<open>yields P st A\<close>: the statement keeps \<open>P\<close>, and what it returns has \<open>A\<close>.\<close>

definition yields :: "(Tables \<Rightarrow> bool) \<Rightarrow> 'a statement \<Rightarrow> ('a \<Rightarrow> bool) \<Rightarrow> bool" where
  "yields P st A \<longleftrightarrow> (\<forall>t a t'. P t \<longrightarrow> st t = Some (a, t') \<longrightarrow> P t' \<and> A a)"

abbreviation holds :: "(Tables \<Rightarrow> bool) \<Rightarrow> Outgoing list option \<Rightarrow> (Friends, 'a) op \<Rightarrow> bool" where
  "holds P N m \<equiv> keeps (both P N) m"

text \<open>The statements that every property in question keeps.\<close>

definition harmless :: "(Tables \<Rightarrow> bool) \<Rightarrow> bool" where
  "harmless P \<longleftrightarrow>
     (\<forall>i. yields P (DELETE_FRIEND_REQUEST i) (\<lambda>_. True)) \<and> (\<forall>p q. yields P (DELETE_FRIEND p q) (\<lambda>_. True)) \<and>
     (\<forall>i. yields P (DELETE_PERSISTENT_NOTIFICATION i) (\<lambda>_. True)) \<and>
     (\<forall>p q. yields P (UNBLOCK_FRIEND p q) (\<lambda>_. True)) \<and>
     (\<forall>j f w x y z n. yields P (INSERT_OR_UPDATE_PERSISTENT_NOTIFICATION j f w x y z n) (\<lambda>_. True)) \<and>
     (\<forall>p q c g. yields P (BLOCK_FRIEND p q c g) (\<lambda>_. True)) \<and>
     (\<forall>u. yields P (INSERT_USER_INFO u) (\<lambda>_. True)) \<and> (\<forall>p c. yields P (UPDATE_USER_INFO p c) (\<lambda>_. True))"

named_theorems holds_intros \<open>a routine keeps a property of the tables if its statements do\<close>

lemma yields_query:
  "(\<And>t. P t \<Longrightarrow> A (q t)) \<Longrightarrow> yields P (query q) A"
  by (auto simp: yields_def query_def)

lemma holds_command:
  assumes "yields P st A"
  shows "both P N s \<Longrightarrow> db_command ev st s = (r, s') \<Longrightarrow> both P N s' \<and> (\<forall>a. r = Inr (Some a) \<longrightarrow> A a)"
    and "both P N s \<Longrightarrow> session_command ev st s = (r, s') \<Longrightarrow> both P N s' \<and> (\<forall>a. r = Inr (Some a) \<longrightarrow> A a)"
proof -
  have y: "\<And>t a t'. P t \<Longrightarrow> st t = Some (a, t') \<Longrightarrow> P t' \<and> A a" using assms by (auto simp: yields_def)
  show "both P N s \<Longrightarrow> db_command ev st s = (r, s') \<Longrightarrow> both P N s' \<and> (\<forall>a. r = Inr (Some a) \<longrightarrow> A a)"
    by (auto simp: db_command_def Let_def both_def split: if_splits option.splits dest: y)
  have w: "both P N s \<Longrightarrow> P (working_tables s)"
    by (auto simp: both_def working_tables_def given_def split: option.splits)
  show "both P N s \<Longrightarrow> session_command ev st s = (r, s') \<Longrightarrow> both P N s' \<and> (\<forall>a. r = Inr (Some a) \<longrightarrow> A a)"
    using w by (auto simp: session_command_def Let_def both_def split: if_splits option.splits dest: y)
qed

lemma holds_bind_command:
  assumes y: "yields P st A" and none: "holds P N (k None)" and some: "\<And>a. A a \<Longrightarrow> holds P N (k (Some a))"
  shows "holds P N (bindS (db_command ev st) k)" and "holds P N (bindS (session_command ev st) k)"
proof -
  have *: "holds P N (bindS m k)"
    if "\<And>s r s'. both P N s \<Longrightarrow> m s = (r, s') \<Longrightarrow> both P N s' \<and> (\<forall>a. r = Inr (Some a) \<longrightarrow> A a)" for m
  proof (rule keepsI)
    fix s r s' assume inv: "both P N s" and run: "bindS m k s = (r, s')" and ok: "r \<noteq> Inl UndefinedAccess"
    obtain q t where m: "m s = (q, t)" by (cases "m s")
    note t = that [OF inv m]
    show "both P N s'"
    proof (cases q)
      case (Inl e)
      then show ?thesis using t run by (simp add: bindS_def m)
    next
      case (Inr x)
      then have "k x t = (r, s')" using run by (simp add: bindS_def m)
      moreover have "holds P N (k x)" using t Inr none some by (cases x) auto
      ultimately show ?thesis using t ok by (auto intro: keepsD)
    qed
  qed
  show "holds P N (bindS (db_command ev st) k)" by (rule *) (rule holds_command(1) [OF y])
  show "holds P N (bindS (session_command ev st) k)" by (rule *) (rule holds_command(2) [OF y])
qed

lemma holds_db [holds_intros]:
  assumes "yields P st (\<lambda>_. True)"
  shows "holds P N (db_command ev st)" and "holds P N (session_command ev st)"
  by (rule keepsI; use holds_command [OF assms] in blast)+

lemma holds_commands: "(\<And>st. st \<in> set sts \<Longrightarrow> yields P st (\<lambda>_. True)) \<Longrightarrow> holds P N (session_commands ev sts)"
proof (induction sts)
  case Nil
  show ?case unfolding session_commands.simps by (rule keeps_return)
next
  case (Cons st sts)
  show ?case unfolding session_commands.simps
    using Cons by (intro holds_bind_command(2) [where A = "\<lambda>_. True"]) (auto intro: keeps_return)
qed

lemma holds_transaction [holds_intros]:
  "holds P N (startTransaction ev)" "holds P N (commitTransaction ev)" "holds P N rollbackTransaction"
  by (auto simp: keeps_def both_def startTransaction_def commitTransaction_def rollbackTransaction_def
      working_tables_def given_def Let_def split: if_splits option.splits)

lemma holds_change: "(\<And>s. fd_tables (f s) = fd_tables s) \<Longrightarrow> (\<And>s. fd_session (f s) = fd_session s) \<Longrightarrow>
    (\<And>s. N = None \<or> sent_calls (f s) = sent_calls s) \<Longrightarrow> holds P N (modifyS (f :: Friends \<Rightarrow> Friends))"
  by (rule keeps_modify) (auto simp: both_def)

lemma holds_silent [holds_intros]:
  "holds P N (fd_change_state g)" "holds P N (fd_reply client req ps)"
  "holds P N (fd_refuse client req err)" "holds P N (db_unavailable client req)"
  "holds P N (fd_registered client req)"
  unfolding fd_change_state_def fd_send_def fd_reply_def fd_refuse_def db_unavailable_def fd_registered_def
  by (intro keeps_read keeps_seq holds_change; simp)+

lemma holds_send [holds_intros]: "holds P None (fd_send m)"
  unfolding fd_send_def by (rule holds_change) simp_all

lemma holds_give_up [holds_intros]: "holds P N (give_up client req)"
  unfolding give_up_def by (intro keeps_seq holds_intros)

lemma holds_rows:
  assumes "yields P st A" and "\<And>a. A a \<Longrightarrow> holds P N (k a)"
  shows "holds P N (with_rows ev client req st k)" "holds P N (with_session_rows ev client req st k)"
  unfolding with_rows_def with_session_rows_def
  using assms by (auto intro!: holds_bind_command [where A = A] holds_intros)

lemma holds_parts [holds_intros]:
  assumes "holds P N k"
  shows "holds P N (in_transaction ev client req k)" "holds P N (committed ev client req k)"
    "holds P N (not_guest client req k)"
  unfolding in_transaction_def committed_def not_guest_def
  using assms by (intro keeps_bind keeps_if holds_intros; assumption)+

lemma holds_with_registered [holds_intros]: "(\<And>ci. holds P N (k ci)) \<Longrightarrow> holds P N (with_registered pid k)"
  unfolding with_registered_def by (rule keeps_read)

lemma holds_registered [holds_intros]: "(\<And>i. holds P N (k i)) \<Longrightarrow> holds P N (registered_caller client req k)"
  unfolding registered_caller_def by (intro holds_intros keeps_option)

lemma holds_notification [holds_intros]: "holds P None (sendFriendsNotification ev client ty sender d again)"
  unfolding sendFriendsNotification_def
  by (intro keeps_read keeps_seq holds_change keeps_if keeps_option keeps_return holds_intros) simp_all

lemma keeps_prod [holds_intros]: "(\<And>a b. keeps I (f a b)) \<Longrightarrow> keeps I (case p of (a, b) \<Rightarrow> f a b)"
  by (cases p) simp

lemma holds_notify [holds_intros]:
  "holds P None (notify_friend ev pid sender events)" "holds P None (tell_friends ev client info events)"
  unfolding notify_friend_def tell_friends_def
  by (intro keeps_for keeps_option keeps_bind keeps_return holds_intros)+

section \<open>Queries\<close>

lemma yields_user [holds_intros]: "yields P (GET_USER_INFO_BY_PID p) (\<lambda>_. True)"
  "yields P (GET_USER_INFO_BY_USERNAME n) (\<lambda>_. True)" "yields P (GET_FRIENDS_INFO p) (\<lambda>_. True)"
  "yields P (GET_SENT_FRIEND_REQUESTS p) (\<lambda>_. True)" "yields P (GET_RECEIVED_FRIEND_REQUESTS p) (\<lambda>_. True)"
  "yields P (GET_BLOCKED_FRIENDS p) (\<lambda>_. True)" "yields P (GET_PERSISTENT_NOTIFICATIONS p) (\<lambda>_. True)"
  by (simp_all add: yields_query GET_USER_INFO_BY_PID_def GET_USER_INFO_BY_USERNAME_def GET_FRIENDS_INFO_def
      GET_SENT_FRIEND_REQUESTS_def GET_RECEIVED_FRIEND_REQUESTS_def GET_BLOCKED_FRIENDS_def
      GET_PERSISTENT_NOTIFICATIONS_def)

lemma harmlessD:
  assumes "harmless P"
  shows "yields P (DELETE_FRIEND_REQUEST i) (\<lambda>_. True)" "yields P (DELETE_FRIEND p q) (\<lambda>_. True)"
    "yields P (DELETE_PERSISTENT_NOTIFICATION i) (\<lambda>_. True)" "yields P (UNBLOCK_FRIEND p q) (\<lambda>_. True)"
    "yields P (INSERT_OR_UPDATE_PERSISTENT_NOTIFICATION j f w x y z n) (\<lambda>_. True)"
    "yields P (BLOCK_FRIEND p q c g) (\<lambda>_. True)" "yields P (INSERT_USER_INFO u) (\<lambda>_. True)"
    "yields P (UPDATE_USER_INFO p cc) (\<lambda>_. True)"
  using assms by (auto simp: harmless_def)

lemma holds_cleanup:
  assumes "\<And>i. yields P (DELETE_FRIEND_REQUEST i) (\<lambda>_. True)"
  shows "holds P N (cleanupExpiredFriendRequests ev pid)"
proof -
  have "holds P N (session_commands ev (cleanup_statements ev a @ cleanup_statements ev b))" for a b
    by (rule holds_commands) (auto simp: cleanup_statements_def intro: assms)
  then show ?thesis
    unfolding cleanupExpiredFriendRequests_def
    by (intro keeps_bind keeps_option keeps_if keeps_seq keeps_return holds_intros)
qed

lemma holds_cleaned:
  "(\<And>i. yields P (DELETE_FRIEND_REQUEST i) (\<lambda>_. True)) \<Longrightarrow> holds P N k \<Longrightarrow>
   holds P N (cleaned ev client req pid k)"
  unfolding cleaned_def by (intro keeps_bind keeps_if holds_cleanup holds_intros)

lemma holds_became [holds_intros]:
  assumes "harmless P"
  shows "holds P N (became_friends ev pid f)"
    "holds P N (createBecameFriendsPersistentNotification ev pid f)"
proof -
  show *: "holds P N (became_friends ev pid f)" for pid f
    unfolding became_friends_def using assms
    by (intro keeps_bind keeps_option keeps_return holds_intros harmlessD)
  show "holds P N (createBecameFriendsPersistentNotification ev pid f)"
    unfolding createBecameFriendsPersistentNotification_def
    by (intro keeps_bind keeps_if keeps_return holds_intros *)
qed

lemma holds_tell [holds_intros]:
  "holds P None (tell_accepted ev client pid)" "holds P None (tell_requested ev client pid msg)"
  unfolding tell_accepted_def tell_requested_def
  by (intro keeps_bind keeps_seq keeps_return keeps_lift keeps_option holds_intros)+

lemma holds_user_infos [holds_intros]: "holds P N (user_infos ev f ps)"
proof (induction ps)
  case Nil
  show ?case unfolding user_infos.simps by (rule keeps_return)
next
  case (Cons p ps)
  then show ?case unfolding user_infos.simps
    by (intro keeps_bind keeps_return keeps_lift keeps_option holds_intros)
qed

section \<open>The handlers\<close>

lemma find_member: "find Q xs = Some x \<Longrightarrow> x \<in> set xs \<and> Q x"
  by (induction xs) (auto split: if_splits)

lemma request_of_member: "request_of i rows = Some r \<Longrightarrow> r \<in> fst ` set rows"
  by (auto simp: request_of_def dest: find_member intro: rev_image_eqI)

lemma keeps_found:
  "keeps I m \<Longrightarrow> (\<And>x. ox = Some x \<Longrightarrow> keeps I (f x)) \<Longrightarrow> keeps I (case ox of None \<Rightarrow> m | Some x \<Rightarrow> f x)"
  by (cases ox) simp_all

text \<open>
  What a property has to satisfy to be kept by every call of the user \<open>p\<close>: the harmless statements
  keep it, the requests that \<open>p\<close> has received have \<open>R\<close>, and it is kept when \<open>p\<close> becomes a friend of
  the sender of such a request, rewrites one, or sends one to somebody else.
\<close>

locale kept_by_calls =
  fixes P :: "Tables \<Rightarrow> bool" and p :: u32 and R :: "RequestRow \<Rightarrow> bool"
  assumes harmless: "harmless P"
    and received: "yields P (GET_RECEIVED_FRIEND_REQUESTS p) (\<lambda>rows. \<forall>row \<in> set rows. R (fst row))"
    and befriend: "R r \<Longrightarrow> yields P (ADD_FRIEND p (rqr_fromPid r) now) (\<lambda>_. True)"
    and rewrite: "R r \<Longrightarrow> yields P (rewrite_request r d) (\<lambda>_. True)"
    and ask: "q \<noteq> p \<Longrightarrow> yields P (INSERT_OR_UPDATE_FRIEND_REQUEST None p q e c d) (\<lambda>_. True)"
begin

lemmas flow = keeps_bind keeps_option keeps_if keeps_seq keeps_return keeps_lift keeps_throw holds_intros
  harmlessD [OF harmless]

lemma rows_true: "yields P st (\<lambda>_. True) \<Longrightarrow> (\<And>a. holds P None (k a)) \<Longrightarrow> holds P None (with_rows ev client req st k)"
  by (rule holds_rows(1) [where A = "\<lambda>_. True"])

lemma session_rows_true:
  "yields P st (\<lambda>_. True) \<Longrightarrow> (\<And>a. holds P None (k a)) \<Longrightarrow> holds P None (with_session_rows ev client req st k)"
  by (rule holds_rows(2) [where A = "\<lambda>_. True"])

lemma cleaned: "holds P None k \<Longrightarrow> holds P None (cleaned ev client req pid k)"
  by (rule holds_cleaned) (rule harmlessD [OF harmless])

lemma became: "holds P None (createBecameFriendsPersistentNotification ev pid f)"
  by (rule holds_became(2) [OF harmless])

lemma data: "(\<And>x. holds P None (k x)) \<Longrightarrow> holds P None (with_data client req ty dec a k)"
  unfolding with_data_def by (cases "dec (adh_data a)") (auto intro!: flow)

lemma enter: "holds P None (enter ev client req username)"
  unfolding enter_def enrol_def by (intro rows_true flow)

lemma registering:
  "holds P None (register_guest client req)" "holds P None (registerEx ev client req d)"
  "holds P None (nintendoCreateAccount ev client req d)"
  unfolding register_guest_def registerEx_def nintendoCreateAccount_def Let_def
  by (intro rows_true data enter flow)+

lemma updateAndGet: "holds P None (updateAndGetAllInformation ev client req nna presence)"
  unfolding updateAndGetAllInformation_def Let_def by (intro rows_true cleaned flow)

lemma accepted:
  assumes "ci_pid client = p" and "R r"
  shows "holds P None (add_accepted ev client req (rqr_fromPid r) i friend)"
  unfolding add_accepted_def assms(1)
  by (intro session_rows_true became befriend flow) (fact assms(2))

lemma requested:
  assumes "ci_pid client = p" and "pid \<noteq> p"
  shows "holds P None (add_requested ev client req pid message rejected friend)"
  unfolding add_requested_def Let_def assms(1)
  using assms(2) by (intro session_rows_true ask flow)

lemma add_checked:
  assumes "ci_pid client = p" and "pid \<noteq> p" and rows: "\<forall>row \<in> set rows. R (fst row)"
  shows "holds P None (add_checked ev client req pid message rows)"
proof -
  have found: "holds P None (case find (\<lambda>(r, _). rqr_fromPid r = pid) rows of
       Some (r, _) \<Rightarrow> if b then add_requested ev client req pid message b friend
                      else add_accepted ev client req pid (rqr_id r) friend
     | None \<Rightarrow> add_requested ev client req pid message b friend)" for b friend
  proof (rule keeps_found)
    fix row assume row: "find (\<lambda>(r, _). rqr_fromPid r = pid) rows = Some row"
    then have "R (fst row)" "rqr_fromPid (fst row) = pid" using rows by (auto dest!: find_member)
    then show "holds P None (case row of (r, _) \<Rightarrow> if b then add_requested ev client req pid message b friend
        else add_accepted ev client req pid (rqr_id r) friend)"
      using accepted [OF assms(1)] requested [OF assms(1,2)] by (cases row) auto
  qed (rule requested [OF assms(1,2)])
  have room: "holds P None k \<Longrightarrow> holds P None (friend_has_room ev client req pid k)" for k
    unfolding friend_has_room_def by (intro rows_true flow)
  have asked: "holds P None k \<Longrightarrow> holds P None ((if b then friend_has_room ev client req pid else (\<lambda>k. k)) k)" for b k
    using room by simp
  show ?thesis
    unfolding add_checked_def Let_def by (intro found asked rows_true flow)
qed

lemma adding_internal:
  assumes "ci_pid client = p"
  shows "holds P None (addFriendInternal ev client req pid message)"
  unfolding addFriendInternal_def assms
  by (intro holds_rows(1) [OF received] add_checked assms rows_true cleaned flow) auto

lemma adding:
  assumes "ci_pid client = p"
  shows "holds P None (addFriend ev client req pid)" "holds P None (addFriendByName ev client req username)"
    "holds P None (addFriendRequest ev client req pid a m b c k t)"
  unfolding addFriendByName_def addFriend_def addFriendRequest_def
  by (intro rows_true flow adding_internal [OF assms])+

lemma removing: "holds P None (removeFriend ev client req pid)"
proof -
  have "holds P None (session_commands ev (map (\<lambda>n. DELETE_PERSISTENT_NOTIFICATION (ntr_id n)) ns))" for ns
    by (rule holds_commands) (auto intro: harmlessD [OF harmless])
  then show ?thesis
    unfolding removeFriend_def remove_request_def remove_friendship_def
    by (intro rows_true cleaned flow)
qed

lemma cancelling: "holds P None (cancelFriendRequest ev client req i)"
  unfolding cancelFriendRequest_def by (intro rows_true cleaned flow)

lemma with_received:
  assumes "ci_pid client = p" and "\<And>r msg. R r \<Longrightarrow> holds P None (k r msg)"
  shows "holds P None (with_received ev client req i k)"
proof -
  have found: "holds P None (case request_of i rows of None \<Rightarrow> fd_refuse client req FPD__INVALID_MESSAGE_ID
       | Some r \<Rightarrow> bindS (liftS (stored (decode_FriendRequestMsg (ci_minorVersion client)) (rqr_data r))) (\<lambda>msg.
           if frm_id msg = REJECTED then fd_refuse client req FPD__INVALID_MESSAGE_ID else k r msg))"
    if "\<forall>row \<in> set rows. R (fst row)" for rows
    using that by (intro keeps_found flow assms(2)) (auto dest!: request_of_member)
  show ?thesis
    unfolding with_received_def assms(1) by (intro found holds_rows(1) [OF received] cleaned flow)
qed

lemma accepting:
  assumes "ci_pid client = p"
  shows "holds P None (acceptFriendRequest ev client req i)"
  unfolding acceptFriendRequest_def Let_def assms
  by (intro with_received assms session_rows_true befriend became flow)

lemma refusing:
  assumes "ci_pid client = p"
  shows "holds P None (deleteFriendRequest ev client req i)"
  unfolding deleteFriendRequest_def by (intro with_received assms rows_true rewrite flow)

lemma marking:
  assumes "\<forall>row \<in> set rows. R (fst row)" and "holds P None k"
  shows "holds P None (mark_received ev client req rows k ids)"
proof (induction ids)
  case (Cons i ids)
  show ?case
    unfolding mark_received.simps
    using assms(1) Cons by (intro keeps_found session_rows_true rewrite flow) (auto dest!: request_of_member)
qed (simp add: assms(2))

lemma rejecting:
  assumes "\<forall>r \<in> set rs. R r" and "holds P None k"
  shows "holds P None (reject_requests ev client req k rs)"
  using assms(1)
proof (induction rs)
  case (Cons r rs)
  then show ?case unfolding reject_requests.simps by (intro session_rows_true rewrite flow) auto
qed (simp add: assms(2))

lemma blocking:
  assumes "ci_pid client = p"
  shows "holds P None (addBlackList ev client req bl)"
proof -
  have "holds P None (block_user ev client req bl u)" for u
    unfolding block_user_def Let_def by (intro session_rows_true flow)
  then have "holds P None (reject_requests ev client req (block_user ev client req bl u)
      (filter (\<lambda>r. rqr_fromPid r = q) (map fst rows)))" if "\<forall>row \<in> set rows. R (fst row)" for u q rows
    using that by (intro rejecting) auto
  then show ?thesis
    unfolding addBlackList_def Let_def assms
    by (intro holds_rows(1) [OF received] rows_true cleaned flow) simp_all
qed

lemma others:
  assumes "ci_pid client = p"
  shows "holds P None (denyFriendRequest ev client req i)" "holds P None (markFriendRequestsAsReceived ev client req is)"
    "holds P None (removeBlackList ev client req pid)"
  unfolding denyFriendRequest_def markFriendRequestsAsReceived_def removeBlackList_def Let_def
  by (simp_all only: assms)
     (intro with_received blocking holds_rows(2) [OF received] marking rows_true cleaned flow assms; assumption)+

lemma updating:
  "holds P None (updatePresence ev client req presence)" "holds P None (updateMii ev client req mii)"
  "holds P None (updateComment ev client req comment)" "holds P None (updatePreference ev client req pref)"
  unfolding updatePresence_def updateMii_def updateComment_def updatePreference_def Let_def
  by (intro rows_true flow)+

lemma querying:
  "holds P None (getBasicInfo ev client req pids)" "holds P None (getRequestBlockSettings ev client req pids)"
  "holds P None (checkSettingStatus client req)" "holds P None (deletePersistentNotification ev client req ps)"
proof -
  have *: "holds P None (session_commands ev (map DELETE_PERSISTENT_NOTIFICATION ids))" for ids
    by (rule holds_commands) (auto intro: harmlessD [OF harmless])
  show "holds P None (getBasicInfo ev client req pids)" "holds P None (getRequestBlockSettings ev client req pids)"
    "holds P None (checkSettingStatus client req)" "holds P None (deletePersistentNotification ev client req ps)"
    unfolding getBasicInfo_def getRequestBlockSettings_def about_users_def checkSettingStatus_def
      deletePersistentNotification_def Let_def
    by (intro session_rows_true * flow)+
qed

theorem call_holds: "ci_pid client = p \<Longrightarrow> holds P None (friends_call ev client req params)"
  by (cases params)
     (simp_all add: friends_call_def registering updateAndGet adding removing cancelling accepting refusing
       blocking others updating querying)

end

end
