(* ===== verification/FriendsLists.thy ===== *)
theory FriendsLists
  imports FriendsFacts
begin

text \<open>
  The friend lists in the shared state: each belongs to a registered user who is no guest, and is what
  a \<^verbatim>\<open>std::set\<close> is, ascending and without repetitions.
\<close>

section \<open>Entries\<close>

definition friend_entry_ok :: "u32 \<Rightarrow> FriendsRegisteredClientInfo \<Rightarrow> bool" where
  "friend_entry_ok k i \<longleftrightarrow> fr_pid i = k \<and> ci_pid (fr_client i) = k \<and> k \<noteq> 100 \<and> sorted (fr_friends i) \<and>
     distinct (fr_friends i)"

definition friend_lists_ok :: "LocalSharedState \<Rightarrow> bool" where
  "friend_lists_ok st \<longleftrightarrow> (\<forall>k i. getFriendsRegisteredClientInfo st k = Some i \<longrightarrow> friend_entry_ok k i)"

lemma friend_lists_update:
  assumes "friend_lists_ok st" and "\<And>i. friend_entry_ok k i \<Longrightarrow> friend_entry_ok k (f i)"
  shows "friend_lists_ok (update_friends k f st)"
  using assms
  by (auto simp: friend_lists_ok_def update_friends_def getFriendsRegisteredClientInfo_def update_conv
      split: option.splits if_splits)

lemma friend_lists_ops:
  assumes "friend_lists_ok st"
  shows "friend_lists_ok (addFriendToRegisteredClientInfo k q st)"
    and "friend_lists_ok (removeFriendFromRegisteredClientInfo k q st)"
    and "friend_lists_ok (updatePreferenceInRegisteredFriendsClientInfo k pref st)"
    and "friend_lists_ok (deleteFriendsRegisteredClientInfo k st)"
    and "friend_entry_ok (fr_pid i) i \<Longrightarrow> friend_lists_ok (setFriendsRegisteredClientInfo i st)"
proof -
  show "friend_lists_ok (addFriendToRegisteredClientInfo k q st)"
    unfolding addFriendToRegisteredClientInfo_def using assms
    by (rule friend_lists_update) (simp add: friend_entry_ok_def sorted_insort_insert distinct_insort_insert)
  show "friend_lists_ok (removeFriendFromRegisteredClientInfo k q st)"
    unfolding removeFriendFromRegisteredClientInfo_def using assms
    by (rule friend_lists_update) (simp add: friend_entry_ok_def sorted_remove1)
  show "friend_lists_ok (updatePreferenceInRegisteredFriendsClientInfo k pref st)"
    unfolding updatePreferenceInRegisteredFriendsClientInfo_def using assms
    by (rule friend_lists_update) (simp add: friend_entry_ok_def)
  show "friend_lists_ok (deleteFriendsRegisteredClientInfo k st)"
    using assms
    by (auto simp: friend_lists_ok_def deleteFriendsRegisteredClientInfo_def getFriendsRegisteredClientInfo_def
        delete_conv split: if_splits)
  show "friend_entry_ok (fr_pid i) i \<Longrightarrow> friend_lists_ok (setFriendsRegisteredClientInfo i st)"
    using assms
    by (auto simp: friend_lists_ok_def setFriendsRegisteredClientInfo_def getFriendsRegisteredClientInfo_def
        update_conv split: if_splits)
qed

lemma registration_ok:
  assumes "ci_pid client \<noteq> 100"
  shows "friend_entry_ok (fr_pid (registration client pref rows)) (registration client pref rows)"
proof -
  have "sorted (fold insort_insert xs ys) \<and> distinct (fold insort_insert xs ys)" if "sorted ys" "distinct ys"
    for xs ys :: "u32 list"
    using that by (induction xs arbitrary: ys) (simp_all add: sorted_insort_insert distinct_insort_insert)
  then show ?thesis using assms by (simp add: friend_entry_ok_def registration_def)
qed

section \<open>Routines\<close>

abbreviation lists :: "(Friends, 'a) op \<Rightarrow> bool" where
  "lists m \<equiv> keeps (\<lambda>s. friend_lists_ok (fd_state s)) m"

named_theorems lists_intros \<open>routines that keep the friend lists\<close>

lemmas lists_flow = keeps_bind keeps_option keeps_if keeps_seq keeps_return keeps_lift keeps_throw keeps_read keeps_for

lemma lists_modify: "(\<And>s. fd_state (f s) = fd_state s) \<Longrightarrow> lists (modifyS (f :: Friends \<Rightarrow> Friends))"
  by (rule keeps_modify) simp

lemma lists_prod [lists_intros]: "(\<And>a b. lists (f a b)) \<Longrightarrow> lists (case p of (a, b) \<Rightarrow> f a b)"
  by (cases p) simp

lemma lists_sum: "(\<And>x. lists (f x)) \<Longrightarrow> (\<And>x. lists (g x)) \<Longrightarrow> lists (case r of Inl x \<Rightarrow> f x | Inr x \<Rightarrow> g x)"
  by (cases r) simp_all

lemma lists_db [lists_intros]:
  "lists (db_command ev st)" "lists (session_command ev st)" "lists (startTransaction ev)"
  "lists (commitTransaction ev)" "lists rollbackTransaction"
  by (auto simp: keeps_def db_command_def session_command_def startTransaction_def commitTransaction_def
      rollbackTransaction_def Let_def split: option.splits if_splits)

lemma lists_commands [lists_intros]: "lists (session_commands ev sts)"
  by (induction sts) (simp_all only: session_commands.simps, (intro lists_flow lists_intros | assumption)+)

lemma lists_send [lists_intros]:
  "lists (fd_send m)" "lists (fd_reply client req ps)" "lists (fd_refuse client req err)"
  "lists (db_unavailable client req)" "lists (give_up client req)" "lists (fd_registered client req)"
  unfolding give_up_def db_unavailable_def fd_refuse_def fd_registered_def fd_reply_def fd_send_def
  by (intro lists_flow lists_intros lists_modify; simp)+

lemma lists_change [lists_intros]:
  "lists (fd_change_state (addFriendToRegisteredClientInfo k q))"
  "lists (fd_change_state (removeFriendFromRegisteredClientInfo k q))"
  "lists (fd_change_state (updatePreferenceInRegisteredFriendsClientInfo k pref))"
  "lists (fd_change_state (deleteFriendsRegisteredClientInfo k))"
  unfolding fd_change_state_def by (intro keeps_modify; simp add: friend_lists_ops)+

lemma lists_parts [lists_intros]:
  assumes "lists k"
  shows "lists (in_transaction ev client req k)" "lists (committed ev client req k)"
  unfolding in_transaction_def committed_def by (intro lists_flow lists_intros assms)+

lemma lists_guest [lists_intros]: "(ci_pid client \<noteq> 100 \<Longrightarrow> lists k) \<Longrightarrow> lists (not_guest client req k)"
  unfolding not_guest_def by (intro lists_flow lists_intros)

lemma lists_rows [lists_intros]:
  assumes "\<And>a. lists (k a)"
  shows "lists (with_rows ev client req st k)" "lists (with_session_rows ev client req st k)"
  unfolding with_rows_def with_session_rows_def by (intro lists_flow lists_intros assms)+

lemma lists_with_registered [lists_intros]: "(\<And>ci. lists (k ci)) \<Longrightarrow> lists (with_registered pid k)"
  unfolding with_registered_def by (intro lists_flow)

lemma lists_registered [lists_intros]: "(\<And>i. lists (k i)) \<Longrightarrow> lists (registered_caller client req k)"
  unfolding registered_caller_def by (intro lists_flow lists_intros)

lemma lists_notification [lists_intros]: "lists (sendFriendsNotification ev client ty sender d again)"
  unfolding sendFriendsNotification_def by (intro lists_flow lists_intros lists_modify) simp_all

lemma lists_routines [lists_intros]:
  "lists (notify_friend ev pid sender events)" "lists (cleanupExpiredFriendRequests ev pid)"
  "lists (became_friends ev pid f)" "lists (createBecameFriendsPersistentNotification ev pid f)"
  "lists (tell_friends ev client info events)" "lists (tell_accepted ev client pid)"
  "lists (tell_requested ev client pid msg)"
  unfolding notify_friend_def cleanupExpiredFriendRequests_def became_friends_def
    createBecameFriendsPersistentNotification_def tell_friends_def tell_accepted_def tell_requested_def
  by (intro lists_flow lists_intros)+

lemma lists_cleaned [lists_intros]: "lists k \<Longrightarrow> lists (cleaned ev client req pid k)"
  unfolding cleaned_def by (intro lists_flow lists_intros)

lemma lists_user_infos [lists_intros]: "lists (user_infos ev f ps)"
  by (induction ps) (simp_all only: user_infos.simps, (intro lists_flow lists_intros | assumption)+)

lemma lists_data [lists_intros]: "(\<And>x. lists (k x)) \<Longrightarrow> lists (with_data client req ty dec a k)"
  unfolding with_data_def by (intro lists_flow lists_sum lists_intros)

lemma lists_received [lists_intros]: "(\<And>r m. lists (k r m)) \<Longrightarrow> lists (with_received ev client req i k)"
  unfolding with_received_def by (intro lists_flow lists_intros)

section \<open>Handlers\<close>

lemma lists_enter: "ci_pid client \<noteq> 100 \<Longrightarrow> lists (enter ev client req username)"
  unfolding enter_def enrol_def
  by (intro lists_flow lists_intros; simp add: fd_change_state_def keeps_modify friend_lists_ops(5) registration_ok)

lemma lists_registering:
  "lists (register_guest client req)" "lists (registerEx ev client req d)"
  "lists (nintendoCreateAccount ev client req d)"
  unfolding register_guest_def registerEx_def nintendoCreateAccount_def Let_def
  by (intro lists_flow lists_enter lists_intros; assumption?)+

lemma lists_adding [lists_intros]:
  "lists (add_accepted ev client req pid i friend)"
  "lists (add_requested ev client req pid message rejected friend)"
  "lists k \<Longrightarrow> lists (friend_has_room ev client req pid k)"
  unfolding add_accepted_def add_requested_def friend_has_room_def Let_def by (intro lists_flow lists_intros)+

lemma lists_checked [lists_intros]: "lists (add_checked ev client req pid message received)"
  unfolding add_checked_def Let_def
  by (cases "message = None") (simp_all only: simp_thms if_True if_False not_True_eq_False,
    (intro lists_flow lists_intros)+)

lemma lists_add:
  "lists (addFriendInternal ev client req pid message)" "lists (addFriend ev client req pid)"
  "lists (addFriendByName ev client req username)" "lists (addFriendRequest ev client req pid a m b c k t)"
  unfolding addFriendByName_def addFriend_def addFriendRequest_def addFriendInternal_def
  by (intro lists_flow lists_intros)+

lemma lists_mark [lists_intros]: "lists k \<Longrightarrow> lists (mark_received ev client req rows k ids)"
  by (induction ids) (simp_all only: mark_received.simps, intro lists_flow lists_intros, simp_all)

lemma lists_reject [lists_intros]: "lists k \<Longrightarrow> lists (reject_requests ev client req k rs)"
  by (induction rs) (simp_all only: reject_requests.simps, intro lists_flow lists_intros, simp_all)

lemma lists_more:
  "lists (updateAndGetAllInformation ev client req nna presence)" "lists (removeFriend ev client req pid)"
  "lists (cancelFriendRequest ev client req i)" "lists (acceptFriendRequest ev client req i)"
  "lists (deleteFriendRequest ev client req i)" "lists (addBlackList ev client req bl)"
  "lists (markFriendRequestsAsReceived ev client req ids)"
  "lists (removeBlackList ev client req pid)" "lists (updatePresence ev client req presence)"
  "lists (updateMii ev client req mii)" "lists (updateComment ev client req comment)"
  "lists (updatePreference ev client req pref)" "lists (getBasicInfo ev client req pids)"
  "lists (getRequestBlockSettings ev client req pids)" "lists (checkSettingStatus client req)"
  "lists (deletePersistentNotification ev client req ps)" "lists (deleteAccount ev pid)"
  unfolding updateAndGetAllInformation_def removeFriend_def remove_request_def remove_friendship_def
    cancelFriendRequest_def acceptFriendRequest_def deleteFriendRequest_def addBlackList_def block_user_def
    markFriendRequestsAsReceived_def removeBlackList_def updatePresence_def updateMii_def updateComment_def
    updatePreference_def getBasicInfo_def getRequestBlockSettings_def about_users_def checkSettingStatus_def
    deletePersistentNotification_def deleteAccount_def Let_def
  by (intro lists_flow lists_intros)+

lemma lists_deny: "lists (denyFriendRequest ev client req i)"
  unfolding denyFriendRequest_def Let_def by (intro lists_flow lists_intros lists_more)

lemma lists_call: "lists (friends_call ev client req params)"
  by (cases params) (simp_all add: friends_call_def lists_registering lists_add lists_more lists_deny)

lemma lists_disconnect: "lists (friends_onDisconnect ev addr)"
proof -
  have "lists (look_up_pid addr)" by (auto simp: keeps_def look_up_pid_def split: option.splits)
  then show ?thesis
    unfolding friends_onDisconnect_def Let_def by (intro lists_flow lists_intros lists_modify) simp_all
qed

end
