(* ===== verification/FriendsSafety.thy ===== *)
theory FriendsSafety
  imports FriendsInvariant FriendsLists
begin

text \<open>
  The database of the friends service: it stays within its schema in every state the server can reach;
  nobody becomes a friend without having asked; and who is blocked stays unheard.
\<close>

section \<open>The schema\<close>

lemma statement_yields: "statement_ok st \<Longrightarrow> yields tables_ok st (\<lambda>_. True)"
  by (simp add: statement_ok_def yields_def)

interpretation schema: kept_by_calls tables_ok p "\<lambda>_. True" for p
proof
  show "harmless tables_ok"
    unfolding harmless_def by (simp add: statement_yields schema_intros)
  show "yields tables_ok (GET_RECEIVED_FRIEND_REQUESTS p) (\<lambda>rows. \<forall>row \<in> set rows. True)"
    using queries_ok(5) by (simp add: statement_ok_def yields_def)
qed (simp_all add: rewrite_request_def statement_yields schema_intros)

lemma schema_delete: "holds tables_ok None (deleteAccount ev pid)"
proof -
  have "holds tables_ok None (session_commands ev [DELETE_ALL_NOTIFICATIONS_BY_PID pid, DELETE_ALL_BLOCKS_BY_PID pid,
         DELETE_ALL_FRIEND_REQUESTS_BY_PID pid, DELETE_ALL_FRIENDSHIPS_BY_PID pid, DELETE_USER_INFO_BY_PID pid])"
    by (rule holds_commands) (auto intro!: statement_yields schema_intros)
  then show ?thesis
    unfolding deleteAccount_def by (intro keeps_bind keeps_if keeps_seq keeps_return holds_intros)
qed

lemma schema_disconnect: "holds tables_ok None (friends_onDisconnect ev addr)"
proof -
  have "holds tables_ok None (look_up_pid addr)"
    by (auto simp: keeps_def look_up_pid_def both_def split: option.splits)
  then show ?thesis
    unfolding friends_onDisconnect_def Let_def
    by (intro keeps_bind keeps_seq keeps_if keeps_for keeps_option keeps_return holds_change
        statement_yields schema_intros holds_intros) simp_all
qed

text \<open>The last session is closed between the steps, and the tables are within the schema.\<close>

definition database_ok :: "Friends \<Rightarrow> bool" where
  "database_ok s \<longleftrightarrow> tables_ok (fd_tables s) \<and> fd_session s = None"

lemma closed_ok:
  assumes "holds tables_ok None m" and "database_ok s" and "close_session m s = (r, s')" and "r \<noteq> Inl UndefinedAccess"
  shows "database_ok s'"
proof -
  obtain t where m: "m s = (r, t)" and s': "s' = t\<lparr>fd_session := None\<rparr>"
    using assms(3) by (auto simp: close_session_def split: prod.splits)
  have "both tables_ok None s" using assms(2) by (simp add: both_def database_ok_def)
  from keepsD [OF assms(1) this m assms(4)] show ?thesis by (simp add: s' both_def database_ok_def)
qed

lemma run_call_ok:
  assumes inv: "database_ok s" and run: "run_friends_call ev r s = (res, s')" and ok: "res \<noteq> Inl UndefinedAccess"
  shows "database_ok s'"
proof -
  let ?m = "friends_call ev (ri_client r) (ri_request r) (ri_params r)"
  obtain q t where m: "close_session ?m s = (q, t)" by fastforce
  have q: "q \<noteq> Inl UndefinedAccess" using run ok by (auto simp: run_friends_call_def m split: sum.splits)
  have "database_ok t" by (rule closed_ok [OF schema.call_holds inv m q]) simp
  then show ?thesis
    using run q by (auto simp: run_friends_call_def m fd_refuse_def fd_send_def database_ok_def
        split: sum.splits exn.splits if_splits)
qed

text \<open>A disconnection opens no session.\<close>

lemma session_disconnect: "keeps (\<lambda>s. fd_session s = None) (friends_onDisconnect ev addr)"
proof -
  have notify: "keeps (\<lambda>s. fd_session s = None) (notify_friend ev f own events)" for f own events
    unfolding notify_friend_def with_registered_def sendFriendsNotification_def fd_send_def
    by (intro keeps_for keeps_read keeps_option keeps_prod keeps_bind keeps_seq keeps_if keeps_return keeps_modify) simp_all
  have "keeps (\<lambda>s. fd_session s = None) (look_up_pid addr)"
    by (auto simp: keeps_def look_up_pid_def split: option.splits)
  moreover have "keeps (\<lambda>s. fd_session s = None) (db_command ev (st :: unit statement))" for st
    by (auto simp: keeps_def db_command_def Let_def split: option.splits if_splits)
  ultimately show ?thesis
    unfolding friends_onDisconnect_def Let_def with_registered_def fd_change_state_def
    by (intro keeps_bind keeps_seq keeps_if keeps_for keeps_option keeps_return keeps_read keeps_modify notify) simp_all
qed

lemma run_task_ok:
  assumes inv: "database_ok s" and run: "run_friends_task ev t s = (res, s')" and ok: "res \<noteq> Inl UndefinedAccess"
  shows "database_ok s'"
proof (cases t)
  case (ConnectTask addr pid)
  then show ?thesis using inv run by (auto simp: run_friends_task_def database_ok_def)
next
  case (DisconnectTask addr)
  then have run': "friends_onDisconnect ev addr s = (res, s')" using run by (simp add: run_friends_task_def)
  have "both tables_ok None s" using inv by (simp add: both_def database_ok_def)
  from keepsD [OF schema_disconnect this run' ok] keepsD [OF session_disconnect _ run' ok] inv
  show ?thesis by (simp add: both_def database_ok_def)
next
  case (CallTask r)
  then show ?thesis using run run_call_ok [OF inv _ ok] by (simp add: run_friends_task_def)
qed

lemma step_ok:
  assumes "friends_step (ts, s) (ts', s')" and "database_ok s"
  shows "database_ok s'"
  using assms
proof (induction "(ts, s)" "(ts', s')" rule: friends_step.induct)
  case (run ev t r)
  then show ?case by (metis run_task_ok)
next
  case (delete ev pid r)
  then show ?case by (metis closed_ok schema_delete)
qed (auto simp: database_ok_def)

text \<open>So do the friend lists of the shared state.\<close>

lemma run_task_lists:
  assumes inv: "friend_lists_ok (fd_state s)" and run: "run_friends_task ev t s = (res, s')"
    and ok: "res \<noteq> Inl UndefinedAccess"
  shows "friend_lists_ok (fd_state s')"
proof (cases t)
  case (ConnectTask addr pid)
  then show ?thesis using inv run by (auto simp: run_friends_task_def)
next
  case (DisconnectTask addr)
  then have "friends_onDisconnect ev addr s = (res, s')" using run by (simp add: run_friends_task_def)
  from keepsD [OF lists_disconnect _ this ok] inv show ?thesis by blast
next
  case (CallTask r)
  then have call: "run_friends_call ev r s = (res, s')" using run by (simp add: run_friends_task_def)
  obtain q u where m: "friends_call ev (ri_client r) (ri_request r) (ri_params r) s = (q, u)" by fastforce
  have q: "q \<noteq> Inl UndefinedAccess"
    using call ok by (auto simp: run_friends_call_def close_session_def m split: sum.splits)
  from keepsD [OF lists_call _ m q] inv have "friend_lists_ok (fd_state u)" by blast
  then show ?thesis
    using call q by (auto simp: run_friends_call_def close_session_def m fd_refuse_def fd_send_def
        split: sum.splits exn.splits if_splits)
qed

definition friends_ok :: "Friends \<Rightarrow> bool" where
  "friends_ok s \<longleftrightarrow> database_ok s \<and> friend_lists_ok (fd_state s)"

lemma step_lists:
  assumes "friends_step (ts, s) (ts', s')" and "friend_lists_ok (fd_state s)"
  shows "friend_lists_ok (fd_state s')"
  using assms
proof (induction "(ts, s)" "(ts', s')" rule: friends_step.induct)
  case (run ev t r)
  then show ?case by (metis run_task_lists)
next
  case (delete ev pid r)
  then obtain u where "deleteAccount ev pid s = (r, u)" "s' = u\<lparr>fd_session := None\<rparr>"
    by (auto simp: close_session_def split: prod.splits)
  with delete keepsD [OF lists_more(17)] show ?case by fastforce
qed auto

lemma reachable_friends_ok:
  assumes "friends_step\<^sup>*\<^sup>* (ts, s) (ts', s')" and "friends_ok s"
  shows "friends_ok s'"
  using assms by (induction rule: rtranclp_induct2) (auto simp: friends_ok_def intro: step_ok step_lists)

section \<open>Consent\<close>

definition asked :: "Tables \<Rightarrow> u32 \<Rightarrow> u32 \<Rightarrow> bool" where
  "asked t q p \<longleftrightarrow> (\<exists>r \<in> set (tb_requests t). rqr_fromPid r = q \<and> rqr_toPid r = p)"

text \<open>
  Compared with the tables \<open>T\<close> before the call: what is new among the friendships is between the user
  \<open>p\<close> and somebody who had asked, and only who had asked is among the requests to \<open>p\<close>.
\<close>

definition consent :: "u32 \<Rightarrow> Tables \<Rightarrow> Tables \<Rightarrow> bool" where
  "consent p T t \<longleftrightarrow>
     (\<forall>f \<in> set (tb_friendships t). f \<in> set (tb_friendships T) \<or> fsh_pid f = p \<and> asked T (fsh_friendPid f) p) \<and>
     (\<forall>r \<in> set (tb_requests t). rqr_toPid r = p \<longrightarrow> asked T (rqr_fromPid r) p)"

lemma consent_start: "consent p T T"
  by (auto simp: consent_def asked_def)

lemma consent_less:
  "(\<And>t a t'. st t = Some (a, t') \<Longrightarrow> set (tb_friendships t') \<subseteq> set (tb_friendships t) \<and>
     set (tb_requests t') \<subseteq> set (tb_requests t)) \<Longrightarrow> yields (consent p T) st (\<lambda>_. True)"
  unfolding yields_def consent_def by blast

interpretation consent: kept_by_calls "consent p T" p "\<lambda>r. rqr_toPid r = p \<and> asked T (rqr_fromPid r) p" for p T
proof
  show "harmless (consent p T)"
    unfolding harmless_def
    by (intro conjI allI; rule consent_less)
       (auto simp: DELETE_FRIEND_REQUEST_def DELETE_FRIEND_def DELETE_PERSISTENT_NOTIFICATION_def UNBLOCK_FRIEND_def
         INSERT_OR_UPDATE_PERSISTENT_NOTIFICATION_def BLOCK_FRIEND_def INSERT_USER_INFO_def UPDATE_USER_INFO_def
         Let_def split: if_splits)
  show "yields (consent p T) (GET_RECEIVED_FRIEND_REQUESTS p)
      (\<lambda>rows. \<forall>row \<in> set rows. rqr_toPid (fst row) = p \<and> asked T (rqr_fromPid (fst row)) p)"
    unfolding GET_RECEIVED_FRIEND_REQUESTS_def
    by (rule yields_query) (auto simp: requests_with_def consent_def)
next
  fix r :: RequestRow and now assume "rqr_toPid r = p \<and> asked T (rqr_fromPid r) p"
  then show "yields (consent p T) (ADD_FRIEND p (rqr_fromPid r) now) (\<lambda>_. True)"
    by (auto simp: yields_def ADD_FRIEND_def consent_def split: if_splits)
next
  fix r :: RequestRow and d assume "rqr_toPid r = p \<and> asked T (rqr_fromPid r) p"
  then show "yields (consent p T) (rewrite_request r d) (\<lambda>_. True)"
    by (auto simp: yields_def rewrite_request_def INSERT_OR_UPDATE_FRIEND_REQUEST_def Let_def given_def consent_def
        split: if_splits)
next
  fix q e c d assume "q \<noteq> p"
  then show "yields (consent p T) (INSERT_OR_UPDATE_FRIEND_REQUEST None p q e c d) (\<lambda>_. True)"
    by (auto simp: yields_def INSERT_OR_UPDATE_FRIEND_REQUEST_def Let_def given_def consent_def split: if_splits)
qed

lemma call_consent:
  assumes "fd_session s = None" and "friends_call ev client req params s = (r, s')" and "r \<noteq> Inl UndefinedAccess"
  shows "consent (ci_pid client) (fd_tables s) (fd_tables s')"
proof -
  have "both (consent (ci_pid client) (fd_tables s)) None s"
    by (simp add: both_def assms(1) consent_start)
  from keepsD [OF consent.call_holds this assms(2,3)] show ?thesis by (simp add: both_def)
qed

section \<open>Blocked users\<close>

text \<open>
  The user \<open>q\<close> blocks \<open>p\<close>, and compared with the tables \<open>T\<close> there are no other users, no new friendships,
  and no new requests but rejected ones.
\<close>

definition blocks :: "Tables \<Rightarrow> u32 \<Rightarrow> u32 \<Rightarrow> bool" where
  "blocks t q p \<longleftrightarrow> (\<exists>b \<in> set (tb_blocks t). bkr_pid b = q \<and> bkr_blockedPid b = p)"

definition kept_out :: "u8 \<Rightarrow> u32 \<Rightarrow> u32 \<Rightarrow> Tables \<Rightarrow> Tables \<Rightarrow> bool" where
  "kept_out mv p q T t \<longleftrightarrow> blocks t q p \<and> tb_users t = tb_users T \<and>
     set (tb_friendships t) \<subseteq> set (tb_friendships T) \<and>
     (\<forall>r \<in> set (tb_requests t). r \<in> set (tb_requests T) \<or>
       (\<exists>msg. frm_id msg = REJECTED \<and> rqr_data r = encode_FriendRequestMsg mv msg))"

lemma kept_out_delete: "yields (kept_out mv p q T) (DELETE_FRIEND_REQUEST i) (\<lambda>_. True)"
  by (auto simp: yields_def kept_out_def blocks_def DELETE_FRIEND_REQUEST_def)

lemma kept_out_insert:
  assumes "frm_id msg = REJECTED"
  shows "yields (kept_out mv p q T)
    (INSERT_OR_UPDATE_FRIEND_REQUEST None a b e c (encode_FriendRequestMsg mv msg)) (\<lambda>_. True)"
  using assms
  by (auto simp: yields_def kept_out_def blocks_def INSERT_OR_UPDATE_FRIEND_REQUEST_def Let_def given_def split: if_splits)

lemma kept_out_blocks:
  "yields (kept_out mv p q T) (GET_BLOCKED_FRIENDS q) (\<lambda>rows. list_ex (\<lambda>(b, _). bkr_blockedPid b = p) rows)"
  unfolding GET_BLOCKED_FRIENDS_def
  by (rule yields_query) (auto simp: kept_out_def blocks_def list_ex_iff)

lemma keeps_out_requested:
  assumes "mv = ci_minorVersion client"
  shows "holds (kept_out mv p q T) N (add_requested ev client req pid message True friend)"
proof -
  have "frm_id (stored_message ev True message) = REJECTED" by (simp add: stored_message_def Let_def)
  from kept_out_insert [OF this] show ?thesis
    unfolding add_requested_def Let_def assms [symmetric] simp_thms if_False
    by (intro holds_rows(2) [where A = "\<lambda>_. True"] keeps_bind keeps_if keeps_seq keeps_return keeps_lift holds_intros)
qed

lemma keeps_out_checked:
  assumes "mv = ci_minorVersion client" and "ci_pid client = p"
  shows "holds (kept_out mv p q T) N (add_checked ev client req q message received)"
proof -
  note flow = holds_rows(1) [where A = "\<lambda>_. True"] keeps_bind keeps_if keeps_option keeps_return keeps_lift holds_intros
  have asked: "holds (kept_out mv p q T) N k \<Longrightarrow>
      holds (kept_out mv p q T) N ((if b then friend_has_room ev client req q else (\<lambda>k. k)) k)" for b k
    unfolding friend_has_room_def by (cases b; simp only: if_True if_False) (intro flow)+
  have found: "holds (kept_out mv p q T) N (case find (\<lambda>(r, _). rqr_fromPid r = q) received of
       Some (r, _) \<Rightarrow> if b then add_requested ev client req q message b friend
                      else add_accepted ev client req q (rqr_id r) friend
     | None \<Rightarrow> add_requested ev client req q message b friend)" if b for b friend
    using that keeps_out_requested [OF assms(1)] by (simp split: option.split)
  show ?thesis
    unfolding add_checked_def Let_def assms(2)
    by (intro found asked holds_rows(1) [OF kept_out_blocks] flow)
qed

lemma keeps_out_internal:
  assumes "mv = ci_minorVersion client" and "ci_pid client = p"
  shows "holds (kept_out mv p q T) N (addFriendInternal ev client req q message)"
  unfolding addFriendInternal_def
  by (intro keeps_out_checked assms holds_rows(1) [where A = "\<lambda>_. True"] holds_cleaned kept_out_delete
      keeps_bind keeps_if keeps_lift holds_intros)

lemma keeps_out_by_name:
  assumes "mv = ci_minorVersion client" and "ci_pid client = p"
    and "find (\<lambda>u. ui_username u = n) (tb_users T) = Some u" and "ui_pid u = q"
  shows "holds (kept_out mv p q T) N (addFriendByName ev client req n)"
proof -
  have "yields (kept_out mv p q T) (GET_USER_INFO_BY_USERNAME n) (\<lambda>found. found = Some u)"
    unfolding GET_USER_INFO_BY_USERNAME_def using assms(3) by (intro yields_query) (simp add: kept_out_def)
  from holds_rows(1) [OF this] show ?thesis
    unfolding addFriendByName_def addFriend_def
    using assms(4) keeps_out_internal [OF assms(1,2)] by (intro holds_intros) simp_all
qed

text \<open>
  The id is the first field of a stored message: where the rest decodes at all, it comes back; so a
  rejected message is none of those that a user is shown.
\<close>

lemma stored_message_id:
  assumes "stored (decode_FriendRequestMsg mv) (encode_FriendRequestMsg mv msg) = Inr msg'"
  shows "frm_id msg' = frm_id msg"
proof -
  let ?d = "encode_FriendRequestMsg mv msg"
  obtain p q i n where p: "decode_Data mv ?d = Inr p" and q: "decodeHeader mv 0 (drop p ?d) = Inr q"
    and i: "dec_at decode_int (drop p ?d) q = Inr (i, n)" "frm_id msg' = i"
    using assms by (auto simp: stored_def decode_FriendRequestMsg_def bindE_eq_Inr_iff subspan_def split: if_splits)
  have "p = (if mv < 3 then 0 else 5)" "q = (if mv < 3 then 0 else 5)"
    using p q by (auto simp: decode_Data_def decodeHeader_def split: if_splits)
  then obtain r where "drop q (drop p ?d) = encode_int (frm_id msg) @ r"
    by (auto simp: encode_FriendRequestMsg_def encode_Data_def with_header_def encodeHeader_def split: if_splits)
  then show ?thesis
    using i by (auto simp: dec_at_def subspan_def bindE_eq_Inr_iff decode_int_def encode_int_def Let_def split: if_splits)
qed

lemma rejected_not_shown:
  assumes "frm_id msg = REJECTED" and "rqr_data r = encode_FriendRequestMsg mv msg"
    and "received_request mv (r, nna) = Inr shown"
  shows "shown = []"
  using assms stored_message_id [of mv msg] by (auto simp: received_request_def bindE_eq_Inr_iff split: if_splits)

text \<open>The three calls that ask somebody to be a friend: by id, with a message, and by name.\<close>

definition asks :: "Tables \<Rightarrow> FriendsParams \<Rightarrow> u32 \<Rightarrow> bool" where
  "asks T params q = (case params of
       AddFriend p \<Rightarrow> p = q
     | AddFriendRequest p _ _ _ _ _ _ \<Rightarrow> p = q
     | AddFriendByName n \<Rightarrow> map_option ui_pid (find (\<lambda>u. ui_username u = n) (tb_users T)) = Some q
     | _ \<Rightarrow> False)"

lemma blocked_sender:
  assumes "fd_session s = None" and "blocks (fd_tables s) q (ci_pid client)" and "asks (fd_tables s) params q"
    and "friends_call ev client req params s = (r, s')" and "r \<noteq> Inl UndefinedAccess"
  shows "sent_calls s' = sent_calls s \<and>
    kept_out (ci_minorVersion client) (ci_pid client) q (fd_tables s) (fd_tables s')"
proof -
  have start: "both (kept_out (ci_minorVersion client) (ci_pid client) q (fd_tables s)) (Some (sent_calls s)) s"
    using assms(1,2) by (simp add: both_def kept_out_def)
  have "holds (kept_out (ci_minorVersion client) (ci_pid client) q (fd_tables s)) (Some (sent_calls s))
      (friends_call ev client req params)"
    using assms(3) by (auto simp: asks_def friends_call_def addFriend_def addFriendRequest_def keeps_out_internal
        keeps_out_by_name split: FriendsParams.splits)
  from keepsD [OF this start assms(4,5)] show ?thesis by (simp add: both_def)
qed

end
