(* ===== verification/FriendsAccept.thy ===== *)
theory FriendsAccept
  imports FriendsSafety
begin

text \<open>
  How a friendship comes about: with a database that answers, accepting a request that is there makes
  the two users friends, in the tables and in the shared state.
\<close>

section \<open>A database that answers\<close>

definition db_works :: "FriendsEnv \<Rightarrow> bool" where
  "db_works ev \<longleftrightarrow> (\<forall>n. \<not> fe_fails ev n)"

lemma db_command_works:
  "db_works ev \<Longrightarrow> st (fd_tables s) = Some (a, t) \<Longrightarrow>
   db_command ev st s = (Inr (Some a), s\<lparr>fd_commands := fd_commands s + 1, fd_tables := t\<rparr>)"
  by (simp add: db_command_def db_works_def)

lemma session_command_works:
  "db_works ev \<Longrightarrow> st (working_tables s) = Some (a, t) \<Longrightarrow>
   session_command ev st s = (Inr (Some a), s\<lparr>fd_commands := fd_commands s + 1, fd_session := Some t\<rparr>)"
  by (simp add: session_command_def db_works_def)

lemma transaction_works:
  assumes "db_works ev"
  shows "startTransaction ev s = (Inr True, s\<lparr>fd_commands := fd_commands s + 2, fd_session := None\<rparr>)"
    and "commitTransaction ev s = (Inr True,
      s\<lparr>fd_commands := fd_commands s + 1, fd_tables := working_tables s, fd_session := None\<rparr>)"
  using assms by (simp_all add: startTransaction_def commitTransaction_def db_works_def)

lemma cleanup_idle:
  assumes db: "db_works ev"
    and live: "\<forall>r \<in> set (tb_requests (fd_tables s)). rqr_fromPid r = p \<or> rqr_toPid r = p \<longrightarrow> \<not> expired ev r"
  obtains n where "cleanupExpiredFriendRequests ev p s = (Inr True, s\<lparr>fd_commands := n, fd_session := None\<rparr>)"
proof -
  let ?sent = "requests_with rqr_toPid (\<lambda>r. rqr_fromPid r = p) (fd_tables s)"
  let ?received = "requests_with rqr_fromPid (\<lambda>r. rqr_toPid r = p) (fd_tables s)"
  have "cleanup_statements ev ?sent = []" "cleanup_statements ev ?received = []"
    using live by (auto simp: cleanup_statements_def requests_with_def filter_empty_conv)
  then have "cleanupExpiredFriendRequests ev p s = (Inr True, s\<lparr>fd_commands := fd_commands s + 5, fd_session := None\<rparr>)"
    by (simp add: cleanupExpiredFriendRequests_def GET_SENT_FRIEND_REQUESTS_def GET_RECEIVED_FRIEND_REQUESTS_def
        query_def bindS_def db_command_works [OF db] transaction_works [OF db] working_tables_def given_def)
  then show thesis by (rule that)
qed

text \<open>
  The notification that a user is told of a new friend by: one more row, with the next id, which the
  row has as its first value, too.
\<close>

definition noticed :: "u32 \<Rightarrow> u32 \<Rightarrow> Tables \<Rightarrow> Tables" where
  "noticed p q t = t\<lparr>
     tb_notifications := tb_notifications t @ [\<lparr>ntr_id = tb_nextNotification t, ntr_for = p,
       ntr_value1 = tb_nextNotification t, ntr_value2 = q, ntr_value3 = p, ntr_value4 = 30, ntr_text = ''''\<rparr>],
     tb_nextNotification := tb_nextNotification t + 1\<rparr>"

lemma notice_statements:
  assumes "tables_ok t" and "has_user t p" and "n = tb_nextNotification t"
  obtains t1 where "INSERT_OR_UPDATE_PERSISTENT_NOTIFICATION None p 0 q p 30 '''' t = Some (n, t1)"
    "INSERT_OR_UPDATE_PERSISTENT_NOTIFICATION (Some n) p n q p 30 '''' t1 = Some (n, noticed p q t)"
    "tables_ok (noticed p q t)"
proof -
  have fresh: "ntr_id r \<noteq> n" if "r \<in> set (tb_notifications t)" for r
    using assms(1,3) that by (auto simp: tables_ok_def)
  then have none: "n \<notin> ntr_id ` set (tb_notifications t)" by blast
  have same: "map (\<lambda>r. if ntr_id r = n then row else r) (tb_notifications t) = tb_notifications t" for row
    by (rule map_idI) (simp add: fresh)
  let ?t1 = "t\<lparr>tb_notifications := tb_notifications t @ [\<lparr>ntr_id = n, ntr_for = p, ntr_value1 = 0, ntr_value2 = q,
      ntr_value3 = p, ntr_value4 = 30, ntr_text = ''''\<rparr>], tb_nextNotification := n + 1\<rparr>"
  have i: "INSERT_OR_UPDATE_PERSISTENT_NOTIFICATION None p 0 q p 30 '''' t = Some (n, ?t1)"
    using none assms(2,3) by (simp add: INSERT_OR_UPDATE_PERSISTENT_NOTIFICATION_def given_def Let_def)
  have u: "INSERT_OR_UPDATE_PERSISTENT_NOTIFICATION (Some n) p n q p 30 '''' ?t1 = Some (n, noticed p q t)"
    using assms(2,3)
    by (simp add: INSERT_OR_UPDATE_PERSISTENT_NOTIFICATION_def given_def Let_def noticed_def same [unfolded assms(3)] has_user_def)
  have "tables_ok ?t1" using INSERT_OR_UPDATE_PERSISTENT_NOTIFICATION_ok i assms(1) unfolding statement_ok_def by blast
  then have "tables_ok (noticed p q t)"
    using INSERT_OR_UPDATE_PERSISTENT_NOTIFICATION_ok u unfolding statement_ok_def by blast
  with i u show thesis by (rule that)
qed

lemma became_friends_works:
  assumes db: "db_works ev" and t: "working_tables s = t" and ok: "tables_ok t" and user: "has_user t p"
  shows "became_friends ev p q s = (Inr True, s\<lparr>fd_commands := fd_commands s + 2, fd_session := Some (noticed p q t)\<rparr>)"
proof -
  let ?n = "tb_nextNotification t"
  obtain t1 where i: "INSERT_OR_UPDATE_PERSISTENT_NOTIFICATION None p 0 q p 30 '''' (working_tables s) = Some (?n, t1)"
    and u: "INSERT_OR_UPDATE_PERSISTENT_NOTIFICATION (Some ?n) p ?n q p 30 '''' t1 = Some (?n, noticed p q t)"
    using notice_statements [OF ok user refl] unfolding t by blast
  show ?thesis
    unfolding became_friends_def
    by (simp add: bindS_def session_command_works [where st = "INSERT_OR_UPDATE_PERSISTENT_NOTIFICATION None p 0 q p 30 ''''", OF db i]
        session_command_works [OF db] working_tables_def given_def u)
qed

lemma createBecame_works:
  assumes db: "db_works ev" and ok: "tables_ok (fd_tables s)" and user: "has_user (fd_tables s) p" "has_user (fd_tables s) q"
  obtains n where "createBecameFriendsPersistentNotification ev p q s =
      (Inr (), s\<lparr>fd_commands := n, fd_tables := noticed q p (noticed p q (fd_tables s)), fd_session := None\<rparr>)"
proof -
  let ?s1 = "s\<lparr>fd_commands := fd_commands s + 2, fd_session := None\<rparr>" and ?w = "noticed p q (fd_tables s)"
  have w1: "working_tables ?s1 = fd_tables s" by (simp add: working_tables_def given_def)
  note one = became_friends_works [OF db w1 ok user(1)]
  let ?s2 = "?s1\<lparr>fd_commands := fd_commands ?s1 + 2, fd_session := Some ?w\<rparr>"
  have w2: "working_tables ?s2 = ?w" by (simp add: working_tables_def given_def)
  have "tables_ok ?w" using notice_statements [OF ok user(1) refl] by blast
  moreover have "has_user ?w q" using user(2) by (simp add: has_user_def noticed_def)
  ultimately have two: "became_friends ev q p ?s2 =
      (Inr True, ?s2\<lparr>fd_commands := fd_commands ?s2 + 2, fd_session := Some (noticed q p ?w)\<rparr>)"
    by (rule became_friends_works [OF db w2])
  have "createBecameFriendsPersistentNotification ev p q s =
      (Inr (), s\<lparr>fd_commands := fd_commands s + 7, fd_tables := noticed q p ?w, fd_session := None\<rparr>)"
    using one two
    by (simp add: createBecameFriendsPersistentNotification_def bindS_def transaction_works [OF db] working_tables_def given_def)
  then show thesis by (rule that)
qed

section \<open>Accepting a request\<close>

lemma request_found:
  assumes ok: "tables_ok t" and r: "r \<in> set (tb_requests t)" and to: "rqr_toPid r = p"
    and i: "rqr_id r = sint (i :: u64)"
  shows "request_of i (requests_with rqr_fromPid (\<lambda>r. rqr_toPid r = p) t) = Some r"
proof -
  let ?rows = "requests_with rqr_fromPid (\<lambda>r. rqr_toPid r = p) t"
  have "has_user t (rqr_fromPid r)"
    using ok r by (simp add: tables_ok_def requests_fit_def list_all_iff)
  then obtain u where "u \<in> set (tb_users t)" "ui_pid u = rqr_fromPid r" by (auto simp: has_user_def)
  then have "(r, ui_nnaInfo u) \<in> set ?rows" using r to by (auto simp: requests_with_def)
  then have "find (\<lambda>(r, _). rqr_id r = sint i) ?rows \<noteq> None" using i by (auto simp: find_None_iff)
  then obtain r' x where f: "find (\<lambda>(r, _). rqr_id r = sint i) ?rows = Some (r', x)" by auto
  then have "rqr_id r' = sint i" "(r', x) \<in> set ?rows" by (auto simp: find_Some_iff in_set_conv_nth)
  then have "r' \<in> set (tb_requests t)" "rqr_id r' = rqr_id r" using i by (auto simp: requests_with_def)
  moreover have "inj_on rqr_id (set (tb_requests t))" using ok by (simp add: tables_ok_def distinct_map)
  ultimately have "r' = r" using r by (simp add: inj_on_eq_iff)
  then show ?thesis by (simp add: request_of_def f)
qed

text \<open>What the friend is told changes no table and takes nothing back.\<close>

lemma tell_accepted_frame:
  "fd_tables (snd (tell_accepted ev client pid s)) = fd_tables s \<and>
   (\<exists>ms. fd_out (snd (tell_accepted ev client pid s)) = fd_out s @ ms)"
proof -
  have call: "fd_tables (snd (sendFriendsNotification ev c ty sender d b s)) = fd_tables s \<and>
      (\<exists>ms. fd_out (snd (sendFriendsNotification ev c ty sender d b s)) = fd_out s @ ms)" for c ty sender d b s
    by (auto simp: sendFriendsNotification_def fd_send_def seqS_def bindS_def split: option.splits)
  have told: "fd_tables (snd (bindS (sendFriendsNotification ev c ty sender d b) (\<lambda>_. returnS ()) s)) = fd_tables s"
      "fd_out s = ms0 \<Longrightarrow> \<exists>ms. fd_out (snd (bindS (sendFriendsNotification ev c ty sender d b) (\<lambda>_. returnS ()) s)) = ms0 @ ms"
    for c ty sender d b s ms0
    using call [of c ty sender d b s] by (auto simp: bindS_def split: prod.splits sum.splits)
  show ?thesis
    by (auto simp: told(1) tell_accepted_def with_registered_def fd_change_state_def seqS_def bindS_def [of "modifyS _"]
        bindS_def [of "db_command _ _"] bindS_def [of "liftS _"] db_command_def GET_USER_INFO_BY_PID_def query_def Let_def
        split: option.splits sum.splits intro!: told(2))
qed

text \<open>Whatever the database stores, reading it stays within its bytes.\<close>

lemma friend_info_defined: "friend_info mv u t \<noteq> Inl UndefinedAccess"
proof -
  have "stored dec d \<noteq> Inl UndefinedAccess" if "never_undefined dec" for dec :: "'a decoder" and d
    using that by (cases "dec d") (auto simp: stored_def never_undefined_def)
  note this [OF nNAInfo_codec.defined] this [OF nintendoPresenceV2_codec.defined] this [OF comment_codec.defined]
  then show ?thesis
    by (cases "stored (decode_NNAInfo mv) (ui_nnaInfo u)"; cases "stored (decode_NintendoPresenceV2 mv) (ui_presence u)";
        cases "stored (decode_Comment mv) (ui_comment u)") (auto simp: friend_info_def)
qed

lemma tell_accepted_defined: "fst (tell_accepted ev client pid s) \<noteq> Inl UndefinedAccess"
proof -
  have "fst (bindS (sendFriendsNotification ev c ty sender d b) (\<lambda>_. returnS ()) s) = Inr ()" for c ty sender d b s
    by (auto simp: sendFriendsNotification_def fd_send_def seqS_def bindS_def split: option.splits)
  then show ?thesis
    using friend_info_defined
    by (auto simp: tell_accepted_def with_registered_def fd_change_state_def seqS_def bindS_def [of "modifyS _"]
        bindS_def [of "db_command _ _"] bindS_def [of "liftS _"] db_command_def GET_USER_INFO_BY_PID_def query_def Let_def
        split: option.splits sum.splits)
qed

text \<open>The tables with the request gone and the friendship there.\<close>

definition befriended :: "RequestRow \<Rightarrow> int \<Rightarrow> Tables \<Rightarrow> Tables" where
  "befriended r now t = t\<lparr>
     tb_requests := filter (\<lambda>r'. rqr_id r' \<noteq> rqr_id r) (tb_requests t),
     tb_friendships := tb_friendships t @
       [\<lparr>fsh_pid = rqr_toPid r, fsh_friendPid = rqr_fromPid r, fsh_becameFriends = now\<rparr>]\<rparr>"

lemma befriended_statements:
  assumes "tables_ok t" and "r \<in> set (tb_requests t)"
    and "uidx (rqr_toPid r) (rqr_fromPid r) \<notin> friendship_uidx ` set (tb_friendships t)"
  obtains t1 where "DELETE_FRIEND_REQUEST (rqr_id r) t = Some ((), t1)"
    "ADD_FRIEND (rqr_toPid r) (rqr_fromPid r) now t1 = Some ((), befriended r now t)"
    "tables_ok (befriended r now t)"
proof -
  let ?t1 = "t\<lparr>tb_requests := filter (\<lambda>r'. rqr_id r' \<noteq> rqr_id r) (tb_requests t)\<rparr>"
  have d: "DELETE_FRIEND_REQUEST (rqr_id r) t = Some ((), ?t1)" by (simp add: DELETE_FRIEND_REQUEST_def)
  have "has_user ?t1 (rqr_toPid r)" "has_user ?t1 (rqr_fromPid r)"
    using assms(1,2) by (auto simp: tables_ok_def requests_fit_def list_all_iff has_user_def)
  then have a: "ADD_FRIEND (rqr_toPid r) (rqr_fromPid r) now ?t1 = Some ((), befriended r now t)"
    using assms(3) by (simp add: ADD_FRIEND_def befriended_def)
  have "tables_ok ?t1" using deletes_ok(3) d assms(1) unfolding statement_ok_def by blast
  then have "tables_ok (befriended r now t)" using ADD_FRIEND_ok a unfolding statement_ok_def by blast
  with d a show thesis by (rule that)
qed


lemma accept_befriends:
  assumes db: "db_works ev" and live: "\<not> shouldStop (fd_rmc s)" and ok: "tables_ok (fd_tables s)"
    and me: "ci_pid client \<noteq> 100" "getFriendsRegisteredClientInfo (fd_state s) (ci_pid client) = Some info"
    and r: "r \<in> set (tb_requests (fd_tables s))" "rqr_toPid r = ci_pid client" "rqr_id r = sint i"
    and msg: "stored (decode_FriendRequestMsg (ci_minorVersion client)) (rqr_data r) = Inr msg" "frm_id msg \<noteq> REJECTED"
    and current: "\<forall>r' \<in> set (tb_requests (fd_tables s)).
      rqr_fromPid r' = ci_pid client \<or> rqr_toPid r' = ci_pid client \<longrightarrow> \<not> expired ev r'"
    and new: "uidx (rqr_toPid r) (rqr_fromPid r) \<notin> friendship_uidx ` set (tb_friendships (fd_tables s))"
    and u: "find (\<lambda>u. ui_pid u = rqr_fromPid r) (tb_users (fd_tables s)) = Some u"
      "friend_info (ci_minorVersion client) u (now_seconds ev) = Inr fi"
  shows "fd_tables (snd (acceptFriendRequest ev client req i s)) = noticed (rqr_fromPid r) (rqr_toPid r)
      (noticed (rqr_toPid r) (rqr_fromPid r) (befriended r (now_seconds ev) (fd_tables s))) \<and>
    (\<exists>ms. fd_out (snd (acceptFriendRequest ev client req i s)) =
      fd_out s @ [OutResponse client (reply_to req) [encode_FriendInfo (ci_minorVersion client) fi]] @ ms) \<and>
    fst (acceptFriendRequest ev client req i s) \<noteq> Inl UndefinedAccess"
proof -
  obtain n where clean: "cleanupExpiredFriendRequests ev (ci_pid client) s = (Inr True, s\<lparr>fd_commands := n, fd_session := None\<rparr>)"
    using cleanup_idle [OF db current] by blast
  obtain t1 where t1: "DELETE_FRIEND_REQUEST (rqr_id r) (fd_tables s) = Some ((), t1)"
    "ADD_FRIEND (rqr_toPid r) (rqr_fromPid r) (now_seconds ev) t1 = Some ((), befriended r (now_seconds ev) (fd_tables s))"
    and t2: "tables_ok (befriended r (now_seconds ev) (fd_tables s))"
    by (rule befriended_statements [OF ok r(1) new])
  let ?t2 = "befriended r (now_seconds ev) (fd_tables s)"
  let ?s5 = "s\<lparr>fd_commands := Suc (Suc (Suc (Suc (Suc (Suc (Suc n)))))), fd_tables := ?t2, fd_session := None\<rparr>"
  have users: "has_user ?t2 (ci_pid client)" "has_user ?t2 (rqr_fromPid r)"
    using ok r(1) r(2) [symmetric] by (auto simp: tables_ok_def requests_fit_def list_all_iff has_user_def befriended_def)
  have s5: "fd_tables ?s5 = ?t2" by simp
  let ?t = "noticed (rqr_fromPid r) (ci_pid client) (noticed (ci_pid client) (rqr_fromPid r) ?t2)"
  obtain n' where noticed: "createBecameFriendsPersistentNotification ev (ci_pid client) (rqr_fromPid r) ?s5 =
      (Inr (), ?s5\<lparr>fd_commands := n', fd_tables := ?t, fd_session := None\<rparr>)"
    by (rule createBecame_works [OF db, of ?s5 "ci_pid client" "rqr_fromPid r", unfolded s5, OF t2 users])
  let ?s7 = "?s5\<lparr>fd_commands := n', fd_tables := ?t, fd_session := None,
      fd_state := addFriendToRegisteredClientInfo (ci_pid client) (rqr_fromPid r) (fd_state s),
      fd_out := fd_out s @ [OutResponse client (reply_to req) [encode_FriendInfo (ci_minorVersion client) fi]]\<rparr>"
  have "acceptFriendRequest ev client req i s = tell_accepted ev client (rqr_fromPid r) ?s7"
    using me msg live u(2)
    by (simp add: acceptFriendRequest_def with_received_def registered_caller_def not_guest_def with_registered_def readS_def
        cleaned_def clean bindS_def with_rows_def GET_RECEIVED_FRIEND_REQUESTS_def query_def db_command_works [OF db]
        request_found [OF ok r] in_transaction_def transaction_works [OF db] with_session_rows_def Let_def
        session_command_works [OF db] working_tables_def given_def t1 t1(2) [unfolded r(2)] GET_USER_INFO_BY_PID_def u(1)
        committed_def seqS_def noticed fd_change_state_def fd_reply_def fd_send_def)
  with tell_accepted_frame [of ev client "rqr_fromPid r" ?s7] tell_accepted_defined r(2)
  show ?thesis by auto
qed

end
