(* ===== verification/SplatoonInvariant.thy ===== *)
theory SplatoonInvariant
  imports SplatoonRuns
begin

text \<open>
  The triples of the handlers: from a consistent shared state each one ends in a consistent one with
  one answer, or in undefined behaviour.
\<close>

abbreviation consistent :: "LocalSharedState \<Rightarrow> bool" where
  "consistent \<equiv> ss_inv {} {}"

text \<open>The object at \<open>a\<close> is that of session \<open>g\<close>, whose count may be out of date.\<close>

definition off :: "addr \<Rightarrow> u32 \<Rightarrow> LocalSharedState \<Rightarrow> bool" where
  "off a g st \<longleftrightarrow> ss_inv {g} {} st \<and> g_id (heap st a) = g"

text \<open>What the table says of a session that is there.\<close>

lemma session_facts:
  assumes "ss_inv X Y st" and "getSplatoonMatchmakeSession st g = Some info"
  shows "sorted (si_players info)" "distinct (si_players info)"
    "g_id (heap st (si_session info)) = g" "si_session info < next_addr st"
  using ss_invD(3) [OF assms(1), of g info] assms(2)
  by (simp_all add: getSplatoonMatchmakeSession_def session_entry_ok_def)

lemma sorted_fold_insort:
  fixes ys :: "u32 list"
  assumes "sorted ys" and "distinct ys"
  shows "sorted (fold insort_insert xs ys)" "distinct (fold insort_insert xs ys)"
    "set (fold insort_insert xs ys) = set xs \<union> set ys"
  using assms
  by (induction xs arbitrary: ys) (simp_all add: sorted_insort_insert distinct_insort_insert set_insort_insert)

lemma runs_weak_return:
  "(\<And>st. C st \<Longrightarrow> C' st) \<Longrightarrow>
   runs (stage client req s0 C n) (returnS a) (\<lambda>_. stage client req s0 C' n)"
  by (rule runs_return) (rule stage_mono)

section \<open>Writing and storing sessions\<close>

lemma runs_write [runs_intros]:
  assumes "\<And>m. g_id (f m) = g_id m" and "\<And>m. participationCount (f m) = participationCount m"
  shows "runs (stage client req s0 (ss_inv X Y) n) (change_object a f)
    (\<lambda>_. stage client req s0 (ss_inv X Y) n)"
  by (rule runs_change_object) (rule ss_inv_write_session, assumption, rule assms(1), rule assms(2))

lemma runs_write_off:
  assumes "\<And>m. g_id (f m) = g_id m"
  shows "runs (stage client req s0 (\<lambda>st. consistent st \<and> g_id (heap st a) = g) n) (change_object a f)
    (\<lambda>_. stage client req s0 (off a g) n)"
proof (rule runs_change_object)
  fix st assume st: "consistent st \<and> g_id (heap st a) = g"
  then have "ss_inv {g_id (heap st a)} {} (write_session a f st)"
    using ss_inv_write_count [of "{}" "{}" st f a] assms by simp
  then show "off a g (write_session a f st)"
    using st assms by (simp add: off_def write_session_def)
qed

lemma runs_write_keeps_off:
  assumes "\<And>m. g_id (f m) = g_id m" and "\<And>m. participationCount (f m) = participationCount m"
  shows "runs (stage client req s0 (off a g) n) (change_object a f) (\<lambda>_. stage client req s0 (off a g) n)"
  by (rule runs_change_object)
     (use assms in \<open>auto simp: off_def write_session_def intro: ss_inv_write_session [unfolded write_session_def]\<close>)

lemma runs_store [runs_intros]:
  assumes "sorted ps" and "distinct ps"
  shows "runs (stage client req s0 (ss_inv X Y) n) (set_session a ps)
    (\<lambda>_. stage client req s0 (ss_inv X Y) n)"
  by (rule runs_set_session) (erule ss_inv_set_any [OF _ assms])

lemma runs_store_off:
  assumes "sorted ps" and "distinct ps"
  shows "runs (stage client req s0 (off a g) n) (set_session a ps)
    (\<lambda>_. stage client req s0 consistent n)"
proof (rule runs_set_session)
  fix st r st' assume off: "off a g st" and set: "setSplatoonMatchmakeSession (Some a) ps st = (r, st')"
  show "consistent st'"
    by (rule ss_inv_set_session [OF _ assms set]) (use off in \<open>simp add: off_def\<close>)
qed

lemma ss_inv_absent:
  assumes "ss_inv {g} Y st" and "map_of (sessions st) g = None"
  shows "ss_inv {} Y st"
proof (rule ss_invI)
  fix h si assume h: "map_of (sessions st) h = Some si"
  with assms(2) have "h \<noteq> g" by auto
  with ss_invD(3) [OF assms(1) h] show "session_entry_ok {} st h si"
    by (simp add: session_entry_ok_def)
qed (use ss_invD(1,2,4) [OF assms(1)] in blast)+

lemma delete_session_gone: "map_of (sessions (deleteSplatoonMatchmakeSession g st)) g = None"
  by (simp add: deleteSplatoonMatchmakeSession_def Let_def delete_conv')

lemma runs_delete_off:
  "runs (stage client req s0 (off a g) n) (change_state (deleteSplatoonMatchmakeSession g))
    (\<lambda>_. stage client req s0 consistent n)"
  by (rule runs_change_state)
     (rule ss_inv_absent [OF ss_inv_delete_session delete_session_gone], simp add: off_def)

text \<open>Reading a session, with what is known of it.\<close>

lemma runs_session [runs_intros]:
  assumes "runs (stage client req s0 consistent n) (f None) J"
    and "\<And>info. sorted (si_players info) \<Longrightarrow> distinct (si_players info) \<Longrightarrow>
      runs (stage client req s0 consistent n) (f (Some info)) J"
  shows "runs (stage client req s0 consistent n) (with_session gId f) J"
proof (rule runs_with_session)
  fix st assume st: "consistent st"
  show "runs (stage client req s0 consistent n) (f (getSplatoonMatchmakeSession st gId)) J"
    using assms session_facts(1,2) [OF st] by (cases "getSplatoonMatchmakeSession st gId") auto
qed

lemma runs_session_object:
  assumes "runs (stage client req s0 consistent n) (f None) J"
    and "\<And>info. sorted (si_players info) \<Longrightarrow> distinct (si_players info) \<Longrightarrow>
      runs (stage client req s0 (\<lambda>st. consistent st \<and> g_id (heap st (si_session info)) = gId) n)
        (f (Some info)) J"
  shows "runs (stage client req s0 consistent n) (with_session gId f) J"
  unfolding with_session_def
proof (rule runs_at)
  fix s assume s: "stage client req s0 consistent n s"
  then have st: "consistent (sp_state s)" by (simp add: stage_def)
  show "runs (stage client req s0 (\<lambda>st. st = sp_state s) n) (f (getSplatoonMatchmakeSession (sp_state s) gId)) J"
  proof (cases "getSplatoonMatchmakeSession (sp_state s) gId")
    case None
    then show ?thesis using assms(1) st by (auto elim: runs_stage_pre)
  next
    case (Some info)
    show ?thesis
      unfolding Some
      by (rule runs_stage_pre [OF assms(2) [OF session_facts(1,2) [OF st Some]]])
         (use st session_facts(3) [OF st Some] in simp)
  qed
qed

section \<open>Leaving\<close>

lemma runs_unregister:
  assumes "\<And>st. C st \<Longrightarrow> off a gId st"
  shows "runs (stage client req s0 C n) (unregisterGathering_internal ev gId srcPid)
    (\<lambda>_. stage client req s0 consistent n)"
  unfolding unregisterGathering_internal_def with_session_def
proof (rule runs_at)
  fix s assume s: "stage client req s0 C n s"
  then have off: "off a gId (sp_state s)" using assms by (simp add: stage_def)
  then have inv: "ss_inv {gId} {} (sp_state s)" by (simp add: off_def)
  let ?S = "stage client req s0 (\<lambda>st. st = sp_state s) n"
  show "runs ?S (case getSplatoonMatchmakeSession (sp_state s) gId of None \<Rightarrow> returnS ()
      | Some info \<Rightarrow> seqS (notify_players ev (si_players info) [notification GATHERING_UNREGISTERED srcPid gId 0 '''' 0])
          (change_state (deleteSplatoonMatchmakeSession gId))) (\<lambda>_. stage client req s0 consistent n)"
  proof (rule runs_option)
    assume "getSplatoonMatchmakeSession (sp_state s) gId = None"
    then have "map_of (sessions (sp_state s)) gId = None" by (simp add: getSplatoonMatchmakeSession_def)
    then have "consistent (sp_state s)" by (rule ss_inv_absent [OF inv])
    then show "runs ?S (returnS ()) (\<lambda>_. stage client req s0 consistent n)"
      by (intro runs_return) (erule stage_mono, simp)
  next
    fix info
    show "runs ?S (seqS (notify_players ev (si_players info) [notification GATHERING_UNREGISTERED srcPid gId 0 '''' 0])
        (change_state (deleteSplatoonMatchmakeSession gId))) (\<lambda>_. stage client req s0 consistent n)"
      by (rule runs_seq, rule runs_silents, rule runs_stage_pre [OF runs_delete_off [of _ _ _ a]]) (simp add: off)
  qed
qed

lemma hd_sorted_set: "xs \<noteq> [] \<Longrightarrow> hd xs \<in> set xs"
  by simp

lemma runs_hand_over:
  assumes "sorted players" and "distinct players"
  shows "runs (stage client req s0 (off a g) n) (hand_over ev pid a players)
    (\<lambda>_. stage client req s0 consistent n)"
  unfolding hand_over_def
  by ((rule runs_intros runs_write_keeps_off runs_store_off assms | (simp; fail))+)

lemma runs_removePlayerFromSession [runs_intros]:
  "runs (stage client req s0 consistent n) (removePlayerFromSession ev gId pid msg disconnected)
    (\<lambda>_. stage client req s0 consistent n)"
  unfolding removePlayerFromSession_def
proof (rule runs_session_object)
  fix info assume ps: "sorted (si_players info)" "distinct (si_players info)"
  let ?a = "si_session info" and ?ps = "remove1 pid (si_players info)"
  have ps': "sorted ?ps" "distinct ?ps" using ps by (simp_all add: sorted_remove1_pids distinct_remove1)
  show "runs (stage client req s0 (\<lambda>st. consistent st \<and> g_id (heap st ?a) = gId) n)
    (case Some info of None \<Rightarrow> returnS () | Some info \<Rightarrow>
       if pid \<notin> set (si_players info) then returnS ()
       else with_client pid (\<lambda>ci. case ci of None \<Rightarrow> returnS () | Some playerInfo \<Rightarrow>
         (let a = si_session info; players = remove1 pid (si_players info) in
            seqS (if disconnected then returnS ()
                  else with_object a (\<lambda>m. notify ev (sr_client playerInfo)
                    (notification PARTICIPATION_ENDED pid (g_id m) pid msg 0)))
            (seqS (change_object a (\<lambda>m. m\<lparr>participationCount := of_nat (length players)\<rparr>))
            (if players = [] then unregisterGathering_internal ev gId pid
             else seqS (with_object a (\<lambda>m. notify_player ev (ownerPid m)
                  [notification (if disconnected then PARTICIPANT_DISCONNECTED else PARTICIPATION_ENDED)
                     pid (g_id m) pid msg 0]))
                (hand_over ev pid a players)))))) (\<lambda>_. stage client req s0 consistent n)"
    unfolding option.case Let_def
    by ((rule runs_intros runs_write_off runs_unregister runs_hand_over ps'
          runs_weak_return | assumption | (simp; fail))+)
qed (simp add: runs_skip)

section \<open>Handlers\<close>

text \<open>Ending in a weaker stage.\<close>

lemma runs_weaken:
  "runs (stage client req s0 C n) m (\<lambda>_. stage client req s0 C k) \<Longrightarrow> (\<And>st. C st \<Longrightarrow> C' st) \<Longrightarrow>
   runs (stage client req s0 C n) m (\<lambda>_. stage client req s0 C' k)"
  by (erule runs_conseq) (auto elim: stage_mono)

lemma runs_last_refuse:
  "\<not> shouldStop (sp_rmc s0) \<Longrightarrow> (\<And>st. C st \<Longrightarrow> C' st) \<Longrightarrow>
   runs (stage client req s0 C n) (refuse client req err) (\<lambda>_. stage client req s0 C' (Suc n))"
  by (rule runs_weaken [OF runs_refuse])

lemma runs_change_consistent [runs_intros]:
  assumes "\<And>st. consistent st \<Longrightarrow> consistent (f st)"
  shows "runs (stage client req s0 consistent n) (change_state f) (\<lambda>_. stage client req s0 consistent n)"
  by (rule runs_change_state) (rule assms)

lemma runs_modify_ids [runs_intros]:
  "runs (stage client req s0 C n) (modifyS (\<lambda>s. s\<lparr>nextRVConnId := f s\<rparr>)) (\<lambda>_. stage client req s0 C n)"
  by (rule runs_modify) (simp add: stage_def replies_def)

lemma runs_getNewGatheringId [runs_intros]:
  "runs (stage client req s0 C n) (getNewGatheringId ev) (\<lambda>_. stage client req s0 C n)"
  unfolding getNewGatheringId_def
  by ((rule runs_intros runs_read | assumption)+)

lemma runs_check_online [runs_intros]:
  assumes "\<not> shouldStop (sp_rmc s0)"
    and "runs (stage client req s0 C n) k (\<lambda>_. stage client req s0 C' (Suc n))" and "\<And>st. C st \<Longrightarrow> C' st"
  shows "runs (stage client req s0 C n) (check_online client req pids k)
    (\<lambda>_. stage client req s0 C' (Suc n))"
  by (induction pids) (auto intro!: assms runs_intros runs_last_refuse)

lemma runs_for_player [runs_intros]:
  assumes "\<not> shouldStop (sp_rmc s0)"
    and "\<And>info. sorted (si_players info) \<Longrightarrow> distinct (si_players info) \<Longrightarrow>
      runs (stage client req s0 consistent n) (f info) (\<lambda>_. stage client req s0 consistent (Suc n))"
  shows "runs (stage client req s0 consistent n) (for_player client req gId f)
    (\<lambda>_. stage client req s0 consistent (Suc n))"
  unfolding for_player_def by (auto intro!: assms runs_intros)

lemma runs_for_owner [runs_intros]:
  assumes "\<not> shouldStop (sp_rmc s0)"
    and "\<And>info. sorted (si_players info) \<Longrightarrow> distinct (si_players info) \<Longrightarrow>
      runs (stage client req s0 consistent n) (f info) (\<lambda>_. stage client req s0 consistent (Suc n))"
  shows "runs (stage client req s0 consistent n) (for_owner client req gId f)
    (\<lambda>_. stage client req s0 consistent (Suc n))"
  unfolding for_owner_def by (auto intro!: assms runs_intros)

text \<open>\<open>answers h\<close>: the handler keeps the state consistent and answers once.\<close>

definition answers :: "ClientInfo \<Rightarrow> Request \<Rightarrow> (Splatoon, unit) op \<Rightarrow> bool" where
  "answers client req h \<longleftrightarrow> (\<forall>s0 n. \<not> shouldStop (sp_rmc s0) \<longrightarrow>
     runs (stage client req s0 consistent n) h (\<lambda>_. stage client req s0 consistent (Suc n)))"

lemma answersI:
  "(\<And>s0 n. \<not> shouldStop (sp_rmc s0) \<Longrightarrow>
     runs (stage client req s0 consistent n) h (\<lambda>_. stage client req s0 consistent (Suc n))) \<Longrightarrow>
   answers client req h"
  by (simp add: answers_def)

lemma answersD:
  "answers client req h \<Longrightarrow> \<not> shouldStop (sp_rmc s0) \<Longrightarrow>
   runs (stage client req s0 consistent n) h (\<lambda>_. stage client req s0 consistent (Suc n))"
  by (simp add: answers_def)

lemma answers_probe:
  "\<not> shouldStop (sp_rmc s0) \<Longrightarrow>
   runs (stage client req s0 consistent n) (probe_targets ev client req targets probe)
     (\<lambda>_. stage client req s0 consistent (Suc n))"
proof (induction targets arbitrary: probe)
  case (Cons t ts)
  then show ?case
    by (auto simp: probe_target_def intro!: runs_intros runs_read)
qed (simp add: runs_intros)

lemma answers_nat:
  "answers client req (requestProbeInitiationExt ev client req targets probe)"
  "answers client req (reportNatTraversalResult client req cid result rtt)"
  "answers client req (reportNatProperties client req mapping filtering rtt)"
  unfolding requestProbeInitiationExt_def reportNatTraversalResult_def reportNatProperties_def
  by (rule answersI, (rule answers_probe runs_intros ss_inv_nat | assumption)+)+

lemma answers_secure:
  "answers client req (secure_register client req urls)"
  "answers client req (replaceUrl client req oldUrl newUrl)"
  "answers client req (sendReport client req rid report)"
proof -
  show "answers client req (secure_register client req urls)"
    unfolding secure_register_def Let_def
    by (rule answersI)
       (auto intro!: runs_intros runs_read ss_inv_register split: list.split)
  show "answers client req (replaceUrl client req oldUrl newUrl)"
    "answers client req (sendReport client req rid report)"
    unfolding replaceUrl_def sendReport_def
    by (rule answersI, (rule runs_intros ss_inv_urls | assumption)+)+
qed

lemma runs_unregister_own [runs_intros]:
  "runs (stage client req s0 consistent n) (unregisterGathering_internal ev gId srcPid)
    (\<lambda>_. stage client req s0 consistent n)"
  unfolding unregisterGathering_internal_def
  by ((rule runs_intros ss_inv_delete_session | assumption)+)

lemma answers_matchmaking:
  "answers client req (unregisterGathering ev client req gId)"
  "answers client req (findBySingleId client req gId)"
  "answers client req (getSessionUrls client req gId)"
  "answers client req (endParticipation ev client req gId msg)"
  unfolding unregisterGathering_def findBySingleId_def getSessionUrls_def endParticipation_def Let_def
  by (rule answersI, (rule runs_intros | (simp only: option.case, rule runs_intros) | assumption
      | (simp add: runs_intros split: list.split; fail))+)+

lemma answers_hosts:
  "answers client req (updateSessionHost ev client req gId migrateOwner)"
  "answers client req (migrateGatheringOwnership ev client req gId owners only)"
  unfolding updateSessionHost_def migrateGatheringOwnership_def Let_def
  by (rule answersI, (rule runs_intros | assumption | (simp; fail) | (split list.split, safe))+)+

lemma answers_extension:
  "answers client req (closeParticipation client req gId)"
  "answers client req (openParticipation_call client req gId)"
  "answers client req (modifyCurrentGameAttribute client req gId i v)"
  "answers client req (updateProgressScore client req gId score)"
  "answers client req (getPlayingSessions client req pids)"
  unfolding closeParticipation_def openParticipation_call_def modifyCurrentGameAttribute_def
    updateProgressScore_def getPlayingSessions_def owner_update_def
  by (rule answersI, (rule runs_intros runs_read | assumption | (simp; fail))+)+

lemma runs_case_result [runs_intros]:
  "runs I m J \<Longrightarrow> runs I k J \<Longrightarrow> runs I (case r of SUCCESS \<Rightarrow> m | FAILURE \<Rightarrow> k) J"
  by (cases r) simp_all

lemma runs_alloc:
  assumes "g_id m = g"
  shows "runs (stage client req s0 consistent n) (new_object m)
    (\<lambda>a. stage client req s0 (\<lambda>st. consistent st \<and> g_id (heap st a) = g) n)"
proof (rule runs_new_object)
  fix st a st' assume st: "consistent st" and al: "alloc m st = (a, st')"
  show "consistent st' \<and> g_id (heap st' a) = g"
    using ss_inv_alloc [OF st al] al assms by (auto simp: alloc_def)
qed

lemma runs_at_object [runs_intros]:
  assumes "\<And>st. C st \<Longrightarrow> consistent st"
  shows "runs (stage client req s0 C n) (returnS ()) (\<lambda>_. stage client req s0 consistent n)"
  by (rule runs_weak_return) (rule assms)

lemma set_of_pids_sorted: "sorted (set_of_pids pids)" "distinct (set_of_pids pids)"
  "set (set_of_pids pids) = set pids"
  unfolding set_of_pids_def using sorted_fold_insort [of "[]" pids] by simp_all

lemma answers_create: "answers client req (createMatchmakeSessionWithParam ev client req param)"
proof (rule answersI)
  fix s0 :: Splatoon and n
  assume run: "\<not> shouldStop (sp_rmc s0)"
  let ?S = "\<lambda>n. stage client req s0 consistent n"
  let ?ps = "ci_pid client # cp_additionalParticipants param"
  have alloc: "runs (?S n) (new_object m) (\<lambda>_. ?S n)" for m
    by (rule runs_new_object) (rule ss_inv_alloc)
  have store: "runs (?S n) (set_session a (set_of_pids ?ps)) (\<lambda>_. ?S n)" for a
    by (rule runs_store) (rule set_of_pids_sorted)+
  show "runs (?S n) (createMatchmakeSessionWithParam ev client req param) (\<lambda>_. ?S (Suc n))"
    unfolding createMatchmakeSessionWithParam_def Let_def
    by ((rule run alloc store runs_intros | assumption | (simp; fail))+)
qed

lemma runs_join_session:
  assumes "\<not> shouldStop (sp_rmc s0)" and "sorted (si_players info)" and "distinct (si_players info)"
  shows "runs (stage client req s0 (\<lambda>st. consistent st \<and> g_id (heap st (si_session info)) = g) n)
    (join_session ev client req param info) (\<lambda>_. stage client req s0 consistent (Suc n))"
  unfolding join_session_def Let_def
  by ((rule assms runs_write_off runs_store_off sorted_fold_insort runs_for runs_intros | assumption | (simp; fail))+)

lemma runs_session_case:
  assumes "runs (stage client req s0 consistent n) m J"
    and "\<And>info. sorted (si_players info) \<Longrightarrow> distinct (si_players info) \<Longrightarrow>
      runs (stage client req s0 (\<lambda>st. consistent st \<and> g_id (heap st (si_session info)) = gId) n)
        (f info) J"
  shows "runs (stage client req s0 consistent n)
    (with_session gId (\<lambda>si. case si of None \<Rightarrow> m | Some info \<Rightarrow> f info)) J"
  by (rule runs_session_object) (simp_all add: assms)

lemma answers_join: "answers client req (joinMatchmakeSessionWithParam ev client req param)"
  unfolding joinMatchmakeSessionWithParam_def
  by (rule answersI, (rule runs_last_refuse runs_session_case runs_join_session runs_check_online
      runs_intros | assumption | (simp; fail))+)

lemma runs_ranking_scores:
  "\<not> shouldStop (sp_rmc s0) \<Longrightarrow>
   runs (stage client req s0 consistent n) (ranking_scores ev client req ids scores)
     (\<lambda>_. stage client req s0 consistent (Suc n))"
  by (induction ids arbitrary: scores) (auto intro!: runs_intros runs_read)

lemma answers_ranking:
  "answers client req (getCompetitionRankingScore ev client req gp)"
  "answers client req (uploadCompetitionRankingScore ev client req up)"
  unfolding getCompetitionRankingScore_def uploadCompetitionRankingScore_def Let_def
  by (rule answersI, (rule runs_ranking_scores runs_intros runs_read | assumption)+)+

section \<open>The automatic match\<close>

text \<open>The search throws nothing but what its handler catches.\<close>

definition search_error :: "exn \<Rightarrow> bool" where
  "search_error e \<longleftrightarrow> e \<in> {LogicError, InvalidArgument, OutOfRange, UndefinedAccess}"

lemma stoi_error: "stoi s = Inl e \<Longrightarrow> search_error e"
  by (auto simp: stoi_def search_error_def Let_def split: if_splits)

lemma attributes_match_error: "attributes_match j as xs = Inl e \<Longrightarrow> search_error e"
  by (induction j as xs rule: attributes_match.induct)
     (auto simp: bindE_def stoi_error split: sum.splits if_splits)

lemma parse_bounds_error: "parse_bounds s = Inl e \<Longrightarrow> search_error e"
  by (auto simp: parse_bounds_def bindE_def search_error_def [of LogicError] dest: stoi_error
      split: if_splits sum.splits)

lemma criteria_match_error: "criteria_match c m = Inl e \<Longrightarrow> search_error e"
  by (auto simp: criteria_match_def bindE_def dest: stoi_error attributes_match_error parse_bounds_error
      split: if_splits sum.splits prod.splits)

lemma any_criteria_error: "any_criteria cs m = Inl e \<Longrightarrow> search_error e"
  by (induction cs) (auto simp: bindE_def dest: criteria_match_error split: sum.splits if_splits)

lemma valid_top_error: "valid_top joined param h sis best = Inl e \<Longrightarrow> search_error e"
  by (induction joined param h sis best rule: valid_top.induct)
     (auto simp: bindE_def session_fits_def exp_difference_def Let_def search_error_def [of UndefinedAccess]
        dest: any_criteria_error split: sum.splits if_splits)

lemma valid_top_in:
  "valid_top joined param h sis best = Inr (Some (d, si)) \<Longrightarrow> si \<in> set sis \<or> best = Some (d, si)"
proof (induction sis arbitrary: best)
  case (Cons x sis)
  then obtain best' where run: "valid_top joined param h sis best' = Inr (Some (d, si))"
    and "best' = best \<or> (\<exists>d'. best' = Some (d', x))"
    by (auto simp: bindE_def queue_push_def split: sum.splits if_splits option.splits)
  then show ?case using Cons.IH [OF run] by auto
qed simp

lemma runs_check_shared [runs_intros]:
  assumes "\<not> shouldStop (sp_rmc s0)"
    and "runs (stage client req s0 consistent n) k (\<lambda>_. stage client req s0 consistent (Suc n))"
  shows "runs (stage client req s0 consistent n) (check_shared client req joined pids k)
    (\<lambda>_. stage client req s0 consistent (Suc n))"
  by (induction pids) (auto intro!: assms runs_intros runs_read)

lemma runs_check_participation [runs_intros]:
  assumes "\<not> shouldStop (sp_rmc s0)"
    and "runs (stage client req s0 consistent n) k (\<lambda>_. stage client req s0 consistent (Suc n))"
  shows "runs (stage client req s0 consistent n) (check_participation client req gId k)
    (\<lambda>_. stage client req s0 consistent (Suc n))"
  unfolding check_participation_def by (auto intro!: assms runs_intros)

lemma runs_finish_match:
  assumes "\<not> shouldStop (sp_rmc s0)" and "sorted players" and "distinct players"
  shows "runs (stage client req s0 (\<lambda>st. consistent st \<and> g_id (heap st a) = g) n)
    (finish_match ev client req param a players sent) (\<lambda>_. stage client req s0 consistent (Suc n))"
  unfolding finish_match_def Let_def
  by ((rule assms runs_write_off runs_store_off runs_for runs_intros | assumption | (simp; fail))+)

lemma answers_auto: "answers client req (autoMatchmakeWithParam_Postpone ev client req param)"
proof (rule answersI)
  fix s0 :: Splatoon and n
  assume run: "\<not> shouldStop (sp_rmc s0)"
  let ?S = "stage client req s0 consistent n" and ?J = "\<lambda>_. stage client req s0 consistent (Suc n)"
  let ?extra = "ap_additionalParticipants param" and ?pid = "ci_pid client"
  have chosen: "runs ?S (readS (\<lambda>s. case valid_top joined param (heap (sp_state s))
      (map snd (getAllSplatoonMatchmakeSessions (sp_state s))) None of
        Inl e \<Rightarrow> if e \<in> {LogicError, InvalidArgument, OutOfRange, LengthError}
          then refuse client req CORE__INVALID_ARGUMENT else throwS e
      | Inr None \<Rightarrow> bindS (getNewGatheringId ev) (\<lambda>gId.
          let m = festival_session ev client param gId in
          bindS (new_object m) (\<lambda>a. finish_match ev client req param a (set_of_pids (?pid # ?extra)) m))
      | Inr (Some (_, si)) \<Rightarrow> with_object (si_session si) (\<lambda>m.
          finish_match ev client req param (si_session si)
            (fold insort_insert (?pid # ?extra) (si_players si)) m))) ?J" for joined
  proof (rule runs_at)
    fix s assume s: "stage client req s0 consistent n s"
    then have st: "consistent (sp_state s)" by (simp add: stage_def)
    let ?T = "stage client req s0 (\<lambda>st. st = sp_state s) n"
    let ?v = "valid_top joined param (heap (sp_state s))
      (map snd (getAllSplatoonMatchmakeSessions (sp_state s))) None"
    show "runs ?T (case ?v of
        Inl e \<Rightarrow> if e \<in> {LogicError, InvalidArgument, OutOfRange, LengthError}
          then refuse client req CORE__INVALID_ARGUMENT else throwS e
      | Inr None \<Rightarrow> bindS (getNewGatheringId ev) (\<lambda>gId.
          let m = festival_session ev client param gId in
          bindS (new_object m) (\<lambda>a. finish_match ev client req param a (set_of_pids (?pid # ?extra)) m))
      | Inr (Some (_, si)) \<Rightarrow> with_object (si_session si) (\<lambda>m.
          finish_match ev client req param (si_session si)
            (fold insort_insert (?pid # ?extra) (si_players si)) m)) ?J"
    proof (cases ?v)
      case (Inl e)
      then have e: "search_error e" by (rule valid_top_error)
      have "runs ?T (refuse client req CORE__INVALID_ARGUMENT) ?J"
        by (rule runs_last_refuse [OF run]) (simp add: st)
      with Inl e show ?thesis by (auto simp: search_error_def runs_undefined)
    next
      case (Inr best)
      show ?thesis
      proof (cases best)
        case None
        have id: "g_id (festival_session ev client param gId) = gId" for gId
          by (simp add: festival_session_def Let_def)
        have "runs ?S (bindS (getNewGatheringId ev) (\<lambda>gId.
            let m = festival_session ev client param gId in
            bindS (new_object m) (\<lambda>a. finish_match ev client req param a (set_of_pids (?pid # ?extra)) m))) ?J"
          unfolding Let_def
          by ((rule runs_getNewGatheringId runs_finish_match runs_alloc run id set_of_pids_sorted runs_bind)+)
        then show ?thesis
          unfolding Inr None sum.case option.case by (rule runs_stage_pre) (simp add: st)
      next
        case (Some b)
        obtain d si where b: "b = (d, si)" by (cases b)
        have "si \<in> snd ` set (sessions (sp_state s))"
          using valid_top_in [OF Inr [unfolded Some b]] by (simp add: getAllSplatoonMatchmakeSessions_def)
        then obtain g where "map_of (sessions (sp_state s)) g = Some si"
          using ss_invD(2) [OF st] by (auto simp: map_of_eq_Some_iff)
        then have si: "getSplatoonMatchmakeSession (sp_state s) g = Some si"
          by (simp add: getSplatoonMatchmakeSession_def)
        note facts = session_facts [OF st si]
        have "runs (stage client req s0 (\<lambda>st. consistent st \<and> g_id (heap st (si_session si)) = g) n)
            (with_object (si_session si) (\<lambda>m. finish_match ev client req param (si_session si)
              (fold insort_insert (?pid # ?extra) (si_players si)) m)) ?J"
          by (rule runs_with_object, rule runs_finish_match [OF run])
             (rule sorted_fold_insort facts)+
        then show ?thesis
          unfolding Inr Some b sum.case option.case prod.case
          by (rule runs_stage_pre) (simp add: st facts)
      qed
    qed
  qed
  show "runs ?S (autoMatchmakeWithParam_Postpone ev client req param) ?J"
    unfolding autoMatchmakeWithParam_Postpone_def Let_def
    by ((rule run chosen [unfolded Let_def] runs_read runs_intros | assumption)+)
qed

section \<open>All of them\<close>

lemma answers_splatoon_call: "answers client req (splatoon_call ev client req params)"
  unfolding splatoon_call_def
  by (cases params)
     (simp_all add: answers_nat answers_secure answers_matchmaking answers_hosts answers_extension
       answers_create answers_join answers_ranking answers_auto)

lemma runs_splatoon_onDisconnect:
  "runs (stage client req s0 consistent n) (splatoon_onDisconnect ev addr)
    (\<lambda>_. stage client req s0 consistent n)"
  unfolding splatoon_onDisconnect_def
  by ((rule runs_for runs_intros ss_inv_delete_client runs_read | assumption)+)

end
