(* ===== verification/SplatoonLeave.thy ===== *)
theory SplatoonLeave
  imports SplatoonInvariant
begin

text \<open>
  What happens to a session when a player leaves it or disconnects: who owns and hosts it then, when
  it is deleted, and that nothing of the player is left in the sessions it had joined. And what stays
  behind: the address of a client that is gone.
\<close>

section \<open>Exact runs\<close>

text \<open>\<open>leads st m st'\<close>: the routine always returns, answers nobody and takes the state to \<open>st'\<close>.\<close>

definition leads :: "LocalSharedState \<Rightarrow> (Splatoon, unit) op \<Rightarrow> LocalSharedState \<Rightarrow> bool" where
  "leads st m st' \<longleftrightarrow> (\<forall>s. sp_state s = st \<longrightarrow>
     (\<exists>s'. m s = (Inr (), s') \<and> sp_state s' = st' \<and> sp_rmc s' = sp_rmc s \<and> replies s' = replies s))"

named_theorems leads_intros \<open>rules of exact runs\<close>

lemma leadsD:
  assumes "leads st m st'" and "sp_state s = st"
  obtains s' where "m s = (Inr (), s')" "sp_state s' = st'" "sp_rmc s' = sp_rmc s" "replies s' = replies s"
  using assms by (auto simp: leads_def)

lemma leads_silent: "silent m \<Longrightarrow> leads st m st"
  by (force simp: leads_def silent_def)

lemma leads_seq [leads_intros]: "leads st m st1 \<Longrightarrow> leads st1 k st2 \<Longrightarrow> leads st (seqS m k) st2"
  unfolding leads_def by (metis seqS_Inr)

lemma leads_with_object [leads_intros]: "leads st (f (heap st a)) st' \<Longrightarrow> leads st (with_object a f) st'"
  by (simp add: leads_def with_object_def)

lemma leads_with_session [leads_intros]:
  "leads st (f (getSplatoonMatchmakeSession st g)) st' \<Longrightarrow> leads st (with_session g f) st'"
  by (simp add: leads_def with_session_def)

lemma leads_with_client [leads_intros]:
  "leads st (f (getSplatoonRegisteredClientInfo st pid)) st' \<Longrightarrow> leads st (with_client pid f) st'"
  by (simp add: leads_def with_client_def)

lemma leads_change_state [leads_intros]: "leads st (change_state f) (f st)"
  by (simp add: leads_def change_state_def replies_def)

lemma leads_change_object [leads_intros]: "leads st (change_object a f) (write_session a f st)"
  unfolding change_object_def by (rule leads_change_state)

lemma leads_store [leads_intros]:
  "leads st (bindS (set_session a ps) (\<lambda>_. returnS ())) (snd (setSplatoonMatchmakeSession (Some a) ps st))"
  by (simp add: leads_def set_session_def bindS_def replies_def split: prod.split)

lemmas leads_silents [leads_intros] =
  silent_return [THEN leads_silent] silent_notify [THEN leads_silent]
  silent_notify_player [THEN leads_silent] silent_notify_players [THEN leads_silent]

lemma leads_if: "(b \<Longrightarrow> leads st m st1) \<Longrightarrow> (\<not> b \<Longrightarrow> leads st k st2) \<Longrightarrow>
  leads st (if b then m else k) (if b then st1 else st2)"
  by simp

section \<open>Handing over\<close>

text \<open>What no step takes back: the clients that are registered and the ids of the objects in use.\<close>

definition grows :: "LocalSharedState \<Rightarrow> LocalSharedState \<Rightarrow> bool" where
  "grows st st' \<longleftrightarrow> map fst (clientInfos st') = map fst (clientInfos st) \<and> next_addr st \<le> next_addr st' \<and>
     (\<forall>b < next_addr st. g_id (heap st' b) = g_id (heap st b))"

lemma grows_refl [simp]: "grows st st"
  by (simp add: grows_def)

lemma grows_trans: "grows st st1 \<Longrightarrow> grows st1 st2 \<Longrightarrow> grows st st2"
  by (auto simp: grows_def)

lemma grows_write: "(\<And>m. g_id (f m) = g_id m) \<Longrightarrow> grows st (write_session a f st)"
  by (simp add: grows_def write_session_def)

text \<open>The session object after a player has left it.\<close>

definition left_object :: "u32 \<Rightarrow> u32 list \<Rightarrow> MatchmakeSession \<Rightarrow> MatchmakeSession" where
  "left_object pid ps m = m\<lparr>ownerPid := (if ownerPid m = pid then hd ps else ownerPid m),
     hostPid := (if hostPid m = pid then hd ps else hostPid m), participationCount := of_nat (length ps)\<rparr>"

lemma hand_over_leads:
  fixes st a pid ps
  defines "m \<equiv> heap st a"
  defines "st1 \<equiv> (if ownerPid m = pid then write_session a (\<lambda>m. m\<lparr>ownerPid := hd ps\<rparr>) st else st)"
  defines "st2 \<equiv> (if hostPid m = pid then write_session a (\<lambda>m. m\<lparr>hostPid := hd ps\<rparr>) st1 else st1)"
  shows "leads st (hand_over ev pid a ps) (snd (setSplatoonMatchmakeSession (Some a) ps st2))"
proof -
  have host: "hostPid (heap st1 a) = hostPid m" by (simp add: st1_def m_def write_session_def)
  show ?thesis
    unfolding hand_over_def
    apply (rule leads_seq [of st _ st1])
     apply (rule leads_with_object)
     apply (fold m_def)
     apply (unfold st1_def)
     apply (rule leads_if)
      apply ((rule leads_intros)+)[2]
    apply (fold st1_def)
    apply (rule leads_seq [of st1 _ st2])
     apply (rule leads_with_object)
     apply (unfold st2_def host)
     apply (rule leads_if)
      apply ((rule leads_intros)+)[2]
    apply (rule leads_store)
    done
qed

lemma set_session_result:
  assumes "setSplatoonMatchmakeSession (Some a) ps st = (r, st')"
  shows "sessions st' = AList.update (g_id (heap st a)) \<lparr>si_session = next_addr st, si_players = ps\<rparr> (sessions st)"
    "heap st' (next_addr st) = (heap st a)\<lparr>participationCount := of_nat (length ps)\<rparr>"
    "grows st st'"
  using assms by (auto simp: setSplatoonMatchmakeSession_def Let_def grows_def)

lemma hand_over_result:
  fixes st a ps pid
  defines "m \<equiv> heap st a"
  obtains st' where "leads st (hand_over ev pid a ps) st'"
    "sessions st' = AList.update (g_id m) \<lparr>si_session = next_addr st, si_players = ps\<rparr> (sessions st)"
    "heap st' (next_addr st) = left_object pid ps m" "grows st st'"
proof -
  let ?st1 = "if ownerPid m = pid then write_session a (\<lambda>m. m\<lparr>ownerPid := hd ps\<rparr>) st else st"
  let ?st2 = "if hostPid m = pid then write_session a (\<lambda>m. m\<lparr>hostPid := hd ps\<rparr>) ?st1 else ?st1"
  obtain r st' where set: "setSplatoonMatchmakeSession (Some a) ps ?st2 = (r, st')" by fastforce
  have "heap ?st2 a = m\<lparr>ownerPid := (if ownerPid m = pid then hd ps else ownerPid m),
      hostPid := (if hostPid m = pid then hd ps else hostPid m)\<rparr>"
    by (simp add: m_def write_session_def)
  moreover have "next_addr ?st2 = next_addr st" "sessions ?st2 = sessions st"
    by (simp_all add: write_session_def)
  moreover have "grows st ?st2" by (simp add: grows_def write_session_def)
  then have "grows st st'" by (rule grows_trans) (rule set_session_result(3) [OF set])
  moreover have "leads st (hand_over ev pid a ps) st'"
    using hand_over_leads [of st ev pid a ps] set by (simp add: m_def cong: if_cong)
  ultimately show ?thesis
    using set_session_result(1,2) [OF set]
    by - (rule that [of st'], simp_all only: left_object_def, simp_all)
qed

section \<open>Leaving a session\<close>

definition registered :: "LocalSharedState \<Rightarrow> u32 \<Rightarrow> bool" where
  "registered st pid \<longleftrightarrow> pid \<in> fst ` set (clientInfos st)"

lemma registered_map_of: "registered st pid \<longleftrightarrow> map_of (clientInfos st) pid \<noteq> None"
  by (simp add: registered_def map_of_eq_None_iff)

lemma registered_iff: "registered st pid \<longleftrightarrow> (\<exists>info. getSplatoonRegisteredClientInfo st pid = Some info)"
  by (auto simp: registered_map_of getSplatoonRegisteredClientInfo_def split: option.splits)

lemma registered_cong: "map fst (clientInfos st') = map fst (clientInfos st) \<Longrightarrow> registered st' = registered st"
  unfolding registered_def by (metis list.set_map)

lemma leave_with_others:
  assumes inv: "consistent st" and si: "map_of (sessions st) g = Some info" and reg: "registered st pid"
    and p: "pid \<in> set (si_players info)" and ps: "remove1 pid (si_players info) \<noteq> []" (is "?ps \<noteq> _")
  obtains st' a' where "leads st (removePlayerFromSession ev g pid msg disconnected) st'"
    "sessions st' = AList.update g \<lparr>si_session = a', si_players = ?ps\<rparr> (sessions st)"
    "heap st' a' = left_object pid ?ps (heap st (si_session info))" "grows st st'"
proof -
  let ?a = "si_session info"
  let ?st1 = "write_session ?a (\<lambda>m. m\<lparr>participationCount := of_nat (length ?ps)\<rparr>) st"
  have get: "getSplatoonMatchmakeSession st g = Some info"
    using si by (simp add: getSplatoonMatchmakeSession_def)
  obtain ci where ci: "getSplatoonRegisteredClientInfo st pid = Some ci"
    using reg by (auto simp: registered_iff)
  obtain st' where ho: "leads ?st1 (hand_over ev pid ?a ?ps) st'"
    and st': "sessions st' = AList.update (g_id (heap ?st1 ?a)) \<lparr>si_session = next_addr ?st1, si_players = ?ps\<rparr>
        (sessions ?st1)"
      "heap st' (next_addr ?st1) = left_object pid ?ps (heap ?st1 ?a)" and g1: "grows ?st1 st'"
    by (rule hand_over_result)
  have gr: "grows st st'" by (rule grows_trans [OF grows_write g1]) simp
  have "leads st (removePlayerFromSession ev g pid msg disconnected) st'"
    unfolding removePlayerFromSession_def
    apply (rule leads_with_session)
    apply (simp only: get option.case p not_True_eq_False if_False)
    apply (rule leads_with_client)
    apply (simp only: ci option.case Let_def ps if_False)
    apply (rule leads_seq [of st _ st])
     apply (simp add: leads_intros)
    apply (rule leads_seq [OF leads_change_object])
    apply (rule leads_seq)
     apply ((rule leads_intros)+)[1]
    apply (rule ho)
    done
  then show ?thesis
    using st' gr session_facts(3) [OF inv get]
    by - (rule that [of st' "next_addr st"], simp_all add: write_session_def left_object_def cong: if_cong)
qed

lemma delete_session_sessions: "sessions (deleteSplatoonMatchmakeSession g st) = AList.delete g (sessions st)"
  by (auto simp: deleteSplatoonMatchmakeSession_def Let_def split: option.split)

lemma map_fst_update_client: "map fst (clientInfos (update_client pid f st)) = map fst (clientInfos st)"
  by (auto simp: update_client_def update_keys domIff map_of_eq_None_iff split: option.splits)

lemma map_fst_delete_session:
  "map fst (clientInfos (deleteSplatoonMatchmakeSession g st)) = map fst (clientInfos st)"
proof -
  have "map fst (clientInfos (fold (erase_gathering g) ps st)) = map fst (clientInfos st)" for ps
    by (induction ps arbitrary: st) (simp_all add: erase_gathering_def map_fst_update_client)
  then show ?thesis by (simp add: deleteSplatoonMatchmakeSession_def Let_def split: option.split)
qed

lemma grows_delete: "grows st (deleteSplatoonMatchmakeSession g st)"
proof -
  have "heap (deleteSplatoonMatchmakeSession g st) = heap st"
    "next_addr (deleteSplatoonMatchmakeSession g st) = next_addr st"
    by (simp_all add: deleteSplatoonMatchmakeSession_def Let_def split: option.split)
  then show ?thesis by (simp add: grows_def map_fst_delete_session)
qed

lemma leave_alone:
  assumes inv: "consistent st" and si: "map_of (sessions st) g = Some info" and reg: "registered st pid"
    and p: "pid \<in> set (si_players info)" and ps: "remove1 pid (si_players info) = []"
  obtains st' where "leads st (removePlayerFromSession ev g pid msg disconnected) st'"
    "sessions st' = AList.delete g (sessions st)" "grows st st'"
proof -
  let ?st1 = "write_session (si_session info) (\<lambda>m. m\<lparr>participationCount := of_nat (length ([] :: u32 list))\<rparr>) st"
  have get: "getSplatoonMatchmakeSession st g = Some info" "getSplatoonMatchmakeSession ?st1 g = Some info"
    using si by (simp_all add: getSplatoonMatchmakeSession_def write_session_def)
  obtain ci where ci: "getSplatoonRegisteredClientInfo st pid = Some ci"
    using reg by (auto simp: registered_iff)
  have un: "leads ?st1 (unregisterGathering_internal ev g pid) (deleteSplatoonMatchmakeSession g ?st1)"
    unfolding unregisterGathering_internal_def
    apply (rule leads_with_session)
    apply (simp only: get(2) option.case)
    apply ((rule leads_intros)+)
    done
  have "leads st (removePlayerFromSession ev g pid msg disconnected) (deleteSplatoonMatchmakeSession g ?st1)"
    unfolding removePlayerFromSession_def
    apply (rule leads_with_session)
    apply (simp only: get(1) option.case p not_True_eq_False if_False)
    apply (rule leads_with_client)
    apply (simp only: ci option.case Let_def ps if_True)
    apply (rule leads_seq [of st _ st])
     apply (simp add: leads_intros)
    apply (rule leads_seq [OF leads_change_object])
    apply (simp only: refl if_True)
    apply (rule un)
    done
  then show ?thesis
  proof (rule that)
    show "sessions (deleteSplatoonMatchmakeSession g ?st1) = AList.delete g (sessions st)"
      by (simp add: delete_session_sessions write_session_def)
    show "grows st (deleteSplatoonMatchmakeSession g ?st1)"
      by (rule grows_trans [OF grows_write grows_delete]) simp
  qed
qed

lemma leave_nothing:
  assumes "\<not> (\<exists>info. map_of (sessions st) g = Some info \<and> pid \<in> set (si_players info)) \<or> \<not> registered st pid"
  shows "leads st (removePlayerFromSession ev g pid msg disconnected) st"
proof (cases "map_of (sessions st) g")
  case None
  then show ?thesis
    unfolding removePlayerFromSession_def
    by (intro leads_with_session) (simp add: getSplatoonMatchmakeSession_def leads_intros)
next
  case (Some info)
  show ?thesis
  proof (cases "pid \<in> set (si_players info)")
    case True
    with assms Some have "getSplatoonRegisteredClientInfo st pid = None" by (auto simp: registered_iff)
    then show ?thesis
      unfolding removePlayerFromSession_def using Some True
      by (intro leads_with_session)
         (auto simp: getSplatoonMatchmakeSession_def intro!: leads_intros)
  qed (use Some in \<open>auto simp: removePlayerFromSession_def getSplatoonMatchmakeSession_def intro!: leads_intros\<close>)
qed

lemma leads_keeps:
  assumes lead: "leads st m st'" and "C st"
    and triple: "\<And>client req s0 n. runs (stage client req s0 C n) m (\<lambda>_. stage client req s0 C' n)"
  shows "C' st'"
proof -
  define s0 :: Splatoon where "s0 = undefined\<lparr>sp_state := st\<rparr>"
  have st: "sp_state s0 = st" by (simp add: s0_def)
  obtain s' where s': "m s0 = (Inr (), s')" "sp_state s' = st'" by (rule leadsD [OF lead st])
  have "stage undefined undefined s0 C 0 s0" by (rule stage_start) (simp add: st assms(2))
  with s'(1) have "stage undefined undefined s0 C' 0 s'"
    using triple [of undefined undefined s0 0] by (auto elim: runsD)
  with s'(2) show ?thesis by (simp add: stage_def)
qed

text \<open>All three cases together.\<close>

lemma remove_effect:
  assumes inv: "consistent st"
  obtains st' where "leads st (removePlayerFromSession ev g pid msg disconnected) st'" "consistent st'"
    "grows st st'" "\<And>h. plays st' pid h \<Longrightarrow> plays st pid h" "registered st pid \<Longrightarrow> \<not> plays st' pid g"
proof -
  have keeps: "consistent st'" if "leads st (removePlayerFromSession ev g pid msg disconnected) st'" for st'
    by (rule leads_keeps [OF that inv runs_removePlayerFromSession])
  show ?thesis
  proof (cases "plays st pid g \<and> registered st pid")
    case False
    then have "leads st (removePlayerFromSession ev g pid msg disconnected) st"
      by (intro leave_nothing) (auto simp: plays_def)
    then show ?thesis by (rule that) (use inv False in auto)
  next
    case True
    then obtain info where si: "map_of (sessions st) g = Some info" and p: "pid \<in> set (si_players info)"
      by (auto simp: plays_def)
    have d: "distinct (si_players info)"
      using ss_invD(3) [OF inv si] by (simp add: session_entry_ok_def)
    show ?thesis
    proof (cases "remove1 pid (si_players info) = []")
      case empty: True
      obtain st' where l: "leads st (removePlayerFromSession ev g pid msg disconnected) st'"
        and s: "sessions st' = AList.delete g (sessions st)" and gr: "grows st st'"
        using leave_alone [OF inv si _ p empty] True by blast
      show ?thesis
        by (rule that [OF l keeps [OF l] gr]) (auto simp: plays_def s delete_conv' split: if_splits)
    next
      case more: False
      obtain st' a' where l: "leads st (removePlayerFromSession ev g pid msg disconnected) st'"
        and s: "sessions st' = AList.update g \<lparr>si_session = a', si_players = remove1 pid (si_players info)\<rparr> (sessions st)"
        and gr: "grows st st'"
        using leave_with_others [OF inv si _ p more] True by blast
      show ?thesis
        by (rule that [OF l keeps [OF l] gr])
           (use d in \<open>auto simp: plays_def s update_conv' split: if_splits\<close>)
    qed
  qed
qed

section \<open>Disconnecting\<close>

abbreviation leave_all :: "SplatoonEnv \<Rightarrow> u32 \<Rightarrow> addr list \<Rightarrow> (Splatoon, unit) op" where
  "leave_all ev pid js \<equiv>
     forS js (\<lambda>a. with_object a (\<lambda>m. removePlayerFromSession ev (g_id m) pid '''' True))"

lemma leave_all_effect:
  assumes "consistent st" and "registered st pid" and "\<And>a. a \<in> set js \<Longrightarrow> a < next_addr st"
  shows "\<exists>st'. leads st (leave_all ev pid js) st' \<and> consistent st' \<and> grows st st' \<and>
    (\<forall>h. plays st' pid h \<longrightarrow> plays st pid h) \<and> (\<forall>a \<in> set js. \<not> plays st' pid (g_id (heap st a)))"
  using assms
proof (induction js arbitrary: st)
  case Nil
  have "leads st (leave_all ev pid []) st"
    unfolding forS.simps by (rule leads_intros)
  with Nil show ?case by (intro exI [of _ st]) (simp del: forS.simps)
next
  case (Cons a js)
  obtain st1 where l1: "leads st (removePlayerFromSession ev (g_id (heap st a)) pid '''' True) st1"
    and c1: "consistent st1" and gr1: "grows st st1" and p1: "\<And>h. plays st1 pid h \<Longrightarrow> plays st pid h"
    and gone: "registered st pid \<Longrightarrow> \<not> plays st1 pid (g_id (heap st a))"
    using remove_effect [OF Cons.prems(1), of ev "g_id (heap st a)" pid "''''" True] by blast
  have reg: "registered st1 pid" using gr1 Cons.prems(2) registered_cong by (metis grows_def)
  have lt: "b < next_addr st1" if "b \<in> set js" for b
    using Cons.prems(3) [of b] gr1 that by (auto simp: grows_def)
  obtain st2 where l2: "leads st1 (leave_all ev pid js) st2"
    and c2: "consistent st2" and gr2: "grows st1 st2" and p2: "\<And>h. plays st2 pid h \<Longrightarrow> plays st1 pid h"
    and js: "\<And>b. b \<in> set js \<Longrightarrow> \<not> plays st2 pid (g_id (heap st1 b))"
    using Cons.IH [OF c1 reg lt] by blast
  have ids: "g_id (heap st1 b) = g_id (heap st b)" if "b \<in> set js" for b
    using gr1 Cons.prems(3) [of b] that by (simp add: grows_def)
  have "leads st (leave_all ev pid (a # js)) st2"
    using l1 l2 by (auto intro!: leads_intros)
  moreover have "\<forall>b \<in> set (a # js). \<not> plays st2 pid (g_id (heap st b))"
    using gone [OF Cons.prems(2)] p2 js ids by auto
  ultimately show ?case using c2 grows_trans [OF gr1 gr2] p1 p2 by blast
qed

text \<open>The addresses that \<^verbatim>\<open>getSplatoonRegisteredClientInfo\<close> hands out name the gatherings joined.\<close>

lemma client_gatherings:
  assumes inv: "consistent st" and ci: "map_of (clientInfos st) pid = Some ci"
    and info: "getSplatoonRegisteredClientInfo st pid = Some info"
  shows "map (\<lambda>a. g_id (heap st a)) (joinedGatherings info) = gathering_ids st (joinedGatherings ci)"
    and "a \<in> set (joinedGatherings info) \<Longrightarrow> a < next_addr st"
proof -
  have j: "joined_ok st pid (joinedGatherings ci)" by (rule ss_invD(4) [OF inv ci]) simp
  have cur: "g_id (heap st (current_address st b)) = g_id (heap st b)" "current_address st b < next_addr st"
    if "b < next_addr st" for b
    using that ss_invD(3) [OF inv, of "g_id (heap st b)"]
    by (auto simp: current_address_def session_entry_ok_def split: option.split)
  have js: "joinedGatherings info = map (current_address st) (joinedGatherings ci)"
    using info ci by (auto simp: getSplatoonRegisteredClientInfo_def)
  show "map (\<lambda>a. g_id (heap st a)) (joinedGatherings info) = gathering_ids st (joinedGatherings ci)"
    using j cur by (simp add: js gathering_ids_def joined_ok_def)
  show "a < next_addr st" if "a \<in> set (joinedGatherings info)"
    using that j cur by (auto simp: js joined_ok_def)
qed

lemma current_sessions_cong: "sessions st' = sessions st \<Longrightarrow> plays st' = plays st"
  by (simp add: plays_def fun_eq_iff)

lemma leave_session_plays:
  "plays (leave_session pid a st) pid h \<Longrightarrow> plays st pid h"
  by (auto simp: leave_session_def plays_def Let_def set_participationCount_def update_conv'
      dest: set_remove1_subset [THEN subsetD]
      split: option.splits if_splits)

lemma delete_client_plays:
  "plays (deleteSplatoonRegisteredClientInfo pid st) pid h \<Longrightarrow> plays st pid h"
proof -
  have fold: "plays (fold (leave_session pid) js t) pid h \<Longrightarrow> plays t pid h" for js t
    by (induction js arbitrary: t) (auto dest: leave_session_plays)
  assume "plays (deleteSplatoonRegisteredClientInfo pid st) pid h"
  then show ?thesis
    by (auto simp: deleteSplatoonRegisteredClientInfo_def Let_def plays_def [of "_\<lparr>clientInfos := _\<rparr>"]
        plays_def [symmetric] split: option.splits dest: fold)
qed

lemma delete_client_gone: "\<not> registered (deleteSplatoonRegisteredClientInfo pid st) pid"
  by (simp add: registered_map_of deleteSplatoonRegisteredClientInfo_def Let_def delete_conv')

end
