(* ===== verification/SplatoonIds.thy ===== *)
theory SplatoonIds
  imports SplatoonMatch
begin

text \<open>
  The ids the game server gives out: gathering ids, drawn at random until one is free, and connection
  ids, counted up past 0.
\<close>

section \<open>Gathering ids\<close>

definition free_id :: "LocalSharedState \<Rightarrow> u32 \<Rightarrow> bool" where
  "free_id st gId \<longleftrightarrow> getSplatoonMatchmakeSession st gId = None"

text \<open>What is returned is a draw, from the first on, and it is free.\<close>

lemma draw_result:
  "draw_gathering_id st draws n = Some gId \<Longrightarrow> free_id st gId \<and> (\<exists>k \<ge> n. gId = draws k)"
proof (rule draw_gathering_id.raw_induct [where P = "\<lambda>st draws n gId. free_id st gId \<and> (\<exists>k \<ge> n. gId = draws k)",
      rotated])
  fix f :: "LocalSharedState \<Rightarrow> (nat \<Rightarrow> u32) \<Rightarrow> nat \<Rightarrow> u32 option" and st draws n gId
  assume IH: "\<And>st draws n gId. f st draws n = Some gId \<Longrightarrow> free_id st gId \<and> (\<exists>k \<ge> n. gId = draws k)"
    and run: "(case getSplatoonMatchmakeSession st (draws n) of None \<Rightarrow> Some (draws n)
      | Some x \<Rightarrow> f st draws (Suc n)) = Some gId"
  show "free_id st gId \<and> (\<exists>k \<ge> n. gId = draws k)"
  proof (cases "getSplatoonMatchmakeSession st (draws n)")
    case None
    with run show ?thesis by (auto simp: free_id_def)
  next
    case (Some x)
    with run IH [of st draws "Suc n" gId] show ?thesis by (auto dest: Suc_leD)
  qed
qed

lemma draw_free: "draw_gathering_id st draws n = Some gId \<Longrightarrow> getSplatoonMatchmakeSession st gId = None"
  using draw_result by (simp add: free_id_def)

text \<open>It is the first free one.\<close>

definition first_free :: "LocalSharedState \<Rightarrow> (nat \<Rightarrow> u32) \<Rightarrow> nat \<Rightarrow> nat \<Rightarrow> bool" where
  "first_free st draws n j \<longleftrightarrow> n \<le> j \<and> free_id st (draws j) \<and> (\<forall>i. n \<le> i \<and> i < j \<longrightarrow> \<not> free_id st (draws i))"

lemma draw_at:
  "free_id st (draws (n + k)) \<Longrightarrow> \<forall>i < k. \<not> free_id st (draws (n + i)) \<Longrightarrow> draw_gathering_id st draws n = Some (draws (n + k))"
proof (induction k arbitrary: n)
  case 0
  then show ?case by (subst draw_gathering_id.simps) (simp add: free_id_def)
next
  case (Suc k)
  have "\<forall>i < k. \<not> free_id st (draws (Suc n + i))" using Suc.prems(2) by (metis Suc_less_eq add_Suc add_Suc_right)
  then have "draw_gathering_id st draws (Suc n) = Some (draws (n + Suc k))" using Suc.IH [of "Suc n"] Suc.prems(1) by simp
  moreover have "\<not> free_id st (draws n)" using Suc.prems(2) [rule_format, of 0] by simp
  ultimately show ?case by (subst draw_gathering_id.simps) (auto simp: free_id_def split: option.split)
qed

lemma draw_first:
  assumes "first_free st draws n j"
  shows "draw_gathering_id st draws n = Some (draws j)"
  using draw_at [of st draws n "j - n"] assms by (simp add: first_free_def)

lemma first_free_exists:
  assumes "n \<le> k" and "free_id st (draws k)"
  obtains j where "first_free st draws n j" "j \<le> k"
proof -
  define j where "j = (LEAST j. n \<le> j \<and> free_id st (draws j))"
  have "n \<le> j \<and> free_id st (draws j)" unfolding j_def by (rule LeastI [of _ k]) (use assms in simp)
  moreover have "\<not> free_id st (draws i)" if "n \<le> i" "i < j" for i
    using not_less_Least [of i "\<lambda>j. n \<le> j \<and> free_id st (draws j)"] that by (auto simp: j_def)
  moreover have "j \<le> k" unfolding j_def by (rule Least_le) (use assms in simp)
  ultimately show thesis by (intro that) (auto simp: first_free_def)
qed

lemma draw_iff:
  "draw_gathering_id st draws n = Some gId \<longleftrightarrow> (\<exists>j. first_free st draws n j \<and> gId = draws j)"
proof
  assume "draw_gathering_id st draws n = Some gId"
  moreover from draw_result [OF this] obtain k where "n \<le> k" "free_id st (draws k)" by blast
  then obtain j where "first_free st draws n j" by (rule first_free_exists)
  ultimately show "\<exists>j. first_free st draws n j \<and> gId = draws j" using draw_first by fastforce
qed (auto simp: draw_first)

text \<open>
  With more different draws than sessions it returns one of them, whatever the sessions are.
\<close>

lemma draws_enough:
  assumes "card (draws ` {n..<n + k}) > length (sessions st)"
  obtains j where "first_free st draws n j" "j < n + k"
proof -
  have "\<exists>j. n \<le> j \<and> j < n + k \<and> free_id st (draws j)"
  proof (rule ccontr)
    assume taken: "\<nexists>j. n \<le> j \<and> j < n + k \<and> free_id st (draws j)"
    have "draws ` {n..<n + k} \<subseteq> fst ` set (sessions st)"
    proof
      fix x assume "x \<in> draws ` {n..<n + k}"
      then have "map_of (sessions st) x \<noteq> None"
        using taken by (auto simp: free_id_def getSplatoonMatchmakeSession_def)
      then show "x \<in> fst ` set (sessions st)" by (simp add: map_of_eq_None_iff)
    qed
    then have "card (draws ` {n..<n + k}) \<le> card (fst ` set (sessions st))"
      by (rule card_mono [rotated]) simp
    also have "\<dots> \<le> length (sessions st)" by (rule order_trans [OF card_image_le card_length]) simp
    finally show False using assms by simp
  qed
  then obtain k' where "n \<le> k'" "k' < n + k" "free_id st (draws k')" by blast
  moreover from this(1,3) obtain j where "first_free st draws n j" "j \<le> k'" by (rule first_free_exists)
  ultimately show thesis using that by simp
qed

section \<open>Connection ids\<close>

text \<open>Counted without the 0, an id is a number below \<open>2 ^ 32 - 1\<close>.\<close>

lemma u32_bound: "unat (w :: u32) < 2 ^ 32"
  using unsigned_less [of w] by simp

lemma next_rv_id_nonzero: "next_rv_id i \<noteq> 0"
proof (cases "i + 1 = 0")
  case True
  then have "i = - 1" by (simp add: eq_neg_iff_add_eq_0)
  then show ?thesis by (simp add: next_rv_id_def)
qed (simp add: next_rv_id_def)

lemma next_rv_id_unat:
  assumes "i \<noteq> 0"
  shows "unat (next_rv_id i) = (if unat i = 2 ^ 32 - 1 then 1 else unat i + 1)"
proof (cases "i + 1 = 0")
  case True
  then have i: "i = - 1" by (simp add: eq_neg_iff_add_eq_0)
  then show ?thesis by (simp add: next_rv_id_def unsigned_minus_1_eq_mask mask_eq_exp_minus_1)
next
  case False
  then have "unat (i + 1) = unat i + 1" by (simp add: unatSuc add.commute)
  moreover have "unat i \<noteq> 2 ^ 32 - 1"
    using calculation u32_bound [of "i + 1"] by auto
  ultimately show ?thesis using False by (simp add: next_rv_id_def)
qed

lemma next_rv_id_iterate:
  assumes "i \<noteq> 0"
  shows "(next_rv_id ^^ k) i \<noteq> 0"
    and "unat ((next_rv_id ^^ k) i) = (unat i - 1 + k) mod (2 ^ 32 - 1) + 1"
proof (induction k)
  case 0
  {
    case 1
    show ?case using assms by simp
  next
    case 2
    have "unat i < 2 ^ 32" using u32_bound [of i] by simp
    moreover have "unat i \<noteq> 0" using assms by (simp add: unat_eq_0)
    ultimately have "unat i - 1 < 2 ^ 32 - 1" by linarith
    then have "(unat i - 1) mod (2 ^ 32 - 1) = unat i - 1" by (rule mod_less)
    then show ?case using \<open>unat i \<noteq> 0\<close> by simp
  }
next
  case (Suc k)
  {
    case 1
    show ?case by (simp add: next_rv_id_nonzero)
  next
    case 2
    show ?case
      using next_rv_id_unat [OF Suc(1)] Suc(2) by (simp add: mod_Suc)
  }
qed

lemma next_rv_id_distinct:
  assumes "i \<noteq> 0" and "j < k" and "k < j + (2 ^ 32 - 1)"
  shows "(next_rv_id ^^ j) i \<noteq> (next_rv_id ^^ k) i"
proof
  let ?N = "2 ^ 32 - 1 :: nat" and ?u = "unat i - 1"
  assume "(next_rv_id ^^ j) i = (next_rv_id ^^ k) i"
  then have "(?u + j) mod ?N = (?u + k) mod ?N"
    using next_rv_id_iterate(2) [OF assms(1), of j] next_rv_id_iterate(2) [OF assms(1), of k] by simp
  then have "?N dvd (?u + k) - (?u + j)"
    using assms(2) by (subst mod_eq_dvd_iff_nat [symmetric]) auto
  then have "?N dvd k - j" by simp
  with assms(2,3) show False by (auto dest: dvd_imp_le)
qed

end
