(* ===== verification/SplatoonSafety.thy ===== *)
theory SplatoonSafety
  imports SplatoonInvariant SplatoonIds
begin

text \<open>
  Who can touch a session: a request of a client that neither plays nor owns it, and that does not
  ask to join, leaves its entry and its object as they were. The triples are those of
  \<open>SplatoonInvariant\<close> again, with this session as what every step has to keep.
\<close>

section \<open>One session, kept\<close>

text \<open>The table files every session under the id of its object.\<close>

definition ids_ok :: "LocalSharedState \<Rightarrow> bool" where
  "ids_ok st \<longleftrightarrow> (\<forall>g si. map_of (sessions st) g = Some si \<longrightarrow>
     g_id (heap st (si_session si)) = g \<and> si_session si < next_addr st)"

lemma ids_okD:
  assumes "ids_ok st" and "map_of (sessions st) g = Some si"
  shows "g_id (heap st (si_session si)) = g" "si_session si < next_addr st"
  using assms by (simp_all add: ids_ok_def)

lemma consistent_ids_ok: "ss_inv X Y st \<Longrightarrow> ids_ok st"
  unfolding ids_ok_def by (metis ss_invD(3) session_entry_ok_def)

definition kept :: "u32 \<Rightarrow> SessionInfo \<Rightarrow> MatchmakeSession \<Rightarrow> LocalSharedState \<Rightarrow> bool" where
  "kept g si m st \<longleftrightarrow> ids_ok st \<and> map_of (sessions st) g = Some si \<and> heap st (si_session si) = m"

text \<open>The same, and the object at \<open>a\<close> is that of another session.\<close>

definition kept_at :: "u32 \<Rightarrow> SessionInfo \<Rightarrow> MatchmakeSession \<Rightarrow> addr \<Rightarrow> LocalSharedState \<Rightarrow> bool" where
  "kept_at g si m a st \<longleftrightarrow> kept g si m st \<and> g_id (heap st a) \<noteq> g \<and> a < next_addr st"

lemma kept_at_kept: "kept_at g si m a st \<Longrightarrow> kept g si m st"
  by (simp add: kept_at_def)

lemma kept_cong:
  assumes "kept g si m st" and "sessions st' = sessions st" and "heap st' = heap st"
    and "next_addr st \<le> next_addr st'"
  shows "kept g si m st'"
  using assms by (fastforce simp: kept_def ids_ok_def)

lemma kept_write:
  assumes k: "kept_at g si m a st" and f: "\<And>m. g_id (f m) = g_id m"
  shows "kept_at g si m a (write_session a f st)"
proof -
  have si: "map_of (sessions st) g = Some si" and ids: "ids_ok st" using k by (simp_all add: kept_at_def kept_def)
  have "si_session si \<noteq> a" using ids_okD(1) [OF ids si] k by (auto simp: kept_at_def)
  moreover have "ids_ok (write_session a f st)"
    using ids f by (auto simp: ids_ok_def write_session_def)
  ultimately show ?thesis using k f by (simp add: kept_at_def kept_def write_session_def)
qed

lemma kept_set:
  assumes k: "kept_at g si m a st" and set: "setSplatoonMatchmakeSession (Some a) ps st = (r, st')"
  shows "kept g si m st'"
proof -
  have si: "map_of (sessions st) g = Some si" and ids: "ids_ok st" using k by (simp_all add: kept_at_def kept_def)
  have lt: "si_session si < next_addr st" by (rule ids_okD(2) [OF ids si])
  have s: "sessions st' = AList.update (g_id (heap st a)) \<lparr>si_session = next_addr st, si_players = ps\<rparr> (sessions st)"
    "heap st' = (heap st)(next_addr st := (heap st a)\<lparr>participationCount := of_nat (length ps)\<rparr>)"
    "next_addr st' = next_addr st + 1"
    using set by (auto simp: setSplatoonMatchmakeSession_def Let_def)
  have "ids_ok st'"
    unfolding ids_ok_def
    using ids_okD [OF ids] by (auto simp: s update_conv' split: if_splits) fastforce+
  then show ?thesis using k lt by (auto simp: kept_def kept_at_def s update_conv')
qed

lemma kept_at_set:
  assumes k: "kept_at g si m a st" and set: "setSplatoonMatchmakeSession (Some a) ps st = (r, st')"
  shows "kept_at g si m a st'"
  using kept_set [OF k set] k set by (auto simp: kept_at_def setSplatoonMatchmakeSession_def Let_def)

lemma kept_delete:
  assumes k: "kept g si m st" and g': "g' \<noteq> g"
  shows "kept g si m (deleteSplatoonMatchmakeSession g' st)"
proof -
  have s: "sessions (deleteSplatoonMatchmakeSession g' st) = AList.delete g' (sessions st)"
    "heap (deleteSplatoonMatchmakeSession g' st) = heap st"
    "next_addr (deleteSplatoonMatchmakeSession g' st) = next_addr st"
    by (simp_all add: deleteSplatoonMatchmakeSession_def Let_def split: option.split)
  show ?thesis using k g' by (auto simp: kept_def ids_ok_def s delete_conv' split: if_splits)
qed

lemma kept_alloc:
  assumes k: "kept g si m st" and al: "alloc m' st = (a, st')" and id: "g_id m' \<noteq> g"
  shows "kept_at g si m a st'"
proof -
  have ids: "ids_ok st" using k by (simp add: kept_def)
  have st': "st' = st\<lparr>heap := (heap st)(next_addr st := m'), next_addr := next_addr st + 1\<rparr>"
    "a = next_addr st" using al by (auto simp: alloc_def)
  have "ids_ok st'" unfolding ids_ok_def using ids_okD [OF ids] by (fastforce simp: st')
  then show ?thesis using k id ids_okD(2) [OF ids, of g si] by (auto simp: kept_at_def kept_def st')
qed

section \<open>Its triples\<close>

lemma runs_kept_session:
  assumes "runs (stage client req s0 (kept g si m) n) (f None) J"
    and "gId = g \<Longrightarrow> runs (stage client req s0 (kept g si m) n) (f (Some si)) J"
    and "\<And>info. gId \<noteq> g \<Longrightarrow> runs (stage client req s0 (kept_at g si m (si_session info)) n) (f (Some info)) J"
  shows "runs (stage client req s0 (kept g si m) n) (with_session gId f) J"
  unfolding with_session_def
proof (rule runs_at)
  fix s assume "stage client req s0 (kept g si m) n s"
  then have k: "kept g si m (sp_state s)" by (simp add: stage_def)
  let ?r = "getSplatoonMatchmakeSession (sp_state s) gId"
  show "runs (stage client req s0 (\<lambda>st. st = sp_state s) n) (f ?r) J"
  proof (cases ?r)
    case None
    then show ?thesis using assms(1) k by (auto elim: runs_stage_pre)
  next
    case (Some info)
    show ?thesis
    proof (cases "gId = g")
      case True
      with Some k have "info = si" by (simp add: kept_def getSplatoonMatchmakeSession_def)
      then show ?thesis
        unfolding Some using assms(2) [OF True] k by (auto elim: runs_stage_pre)
    next
      case False
      have "kept_at g si m (si_session info) (sp_state s)"
        using k Some False ids_okD [of "sp_state s" gId info]
        by (auto simp: kept_at_def kept_def getSplatoonMatchmakeSession_def)
      then show ?thesis
        unfolding Some by (intro runs_stage_pre [OF assms(3) [OF False]]) simp
    qed
  qed
qed

lemma runs_kept_object:
  assumes "a = si_session si \<Longrightarrow> runs (stage client req s0 (kept g si m) n) (f m) J"
    and "a \<noteq> si_session si \<Longrightarrow> (\<And>m'. runs (stage client req s0 (kept g si m) n) (f m') J)"
  shows "runs (stage client req s0 (kept g si m) n) (with_object a f) J"
  unfolding with_object_def
proof (rule runs_read)
  fix s assume "stage client req s0 (kept g si m) n s"
  then have "a = si_session si \<Longrightarrow> heap (sp_state s) a = m" by (simp add: stage_def kept_def)
  then show "runs (stage client req s0 (kept g si m) n) (f (heap (sp_state s) a)) J"
    using assms by (cases "a = si_session si") auto
qed

lemma runs_kept_write:
  "(\<And>m. g_id (f m) = g_id m) \<Longrightarrow>
   runs (stage client req s0 (kept_at g si m a) n) (change_object a f) (\<lambda>_. stage client req s0 (kept_at g si m a) n)"
  by (rule runs_change_object) (rule kept_write)

lemma runs_kept_store:
  "runs (stage client req s0 (kept_at g si m a) n) (set_session a ps) (\<lambda>_. stage client req s0 (kept g si m) n)"
  by (rule runs_set_session) (rule kept_set)

lemma runs_kept_store_at:
  "runs (stage client req s0 (kept_at g si m a) n) (set_session a ps) (\<lambda>_. stage client req s0 (kept_at g si m a) n)"
  by (rule runs_set_session) (rule kept_at_set)

lemma runs_kept_clients:
  assumes "\<And>st. sessions (f st) = sessions st \<and> heap (f st) = heap st \<and> next_addr (f st) = next_addr st"
  shows "runs (stage client req s0 (kept g si m) n) (change_state f) (\<lambda>_. stage client req s0 (kept g si m) n)"
  by (rule runs_change_state) (use assms in \<open>auto elim: kept_cong\<close>)

lemma runs_kept_weaken:
  "runs (stage client req s0 (kept g si m) n) h J \<Longrightarrow> runs (stage client req s0 (kept_at g si m a) n) h J"
  by (erule runs_stage_pre) (rule kept_at_kept)

text \<open>The new id is free, so it is not the one of the session.\<close>

lemma runs_kept_new_id:
  assumes "\<And>gId. gId \<noteq> g \<Longrightarrow> runs (stage client req s0 (kept g si m) n) (f gId) J"
  shows "runs (stage client req s0 (kept g si m) n) (bindS (getNewGatheringId ev) f) J"
proof (rule runsI)
  fix s assume s: "stage client req s0 (kept g si m) n s"
  then have k: "kept g si m (sp_state s)" by (simp add: stage_def)
  show "case bindS (getNewGatheringId ev) f s of (Inl e, _) \<Rightarrow> e = UndefinedAccess | (Inr a, s') \<Rightarrow> J a s'"
  proof (cases "draw_gathering_id (sp_state s) (en_draws ev) 0")
    case None
    then show ?thesis by (simp add: getNewGatheringId_def bindS_def)
  next
    case (Some gId)
    then have "gId \<noteq> g" using draw_free [OF Some] k by (auto simp: kept_def getSplatoonMatchmakeSession_def)
    from assms [OF this] s Some show ?thesis
      by (simp add: getNewGatheringId_def bindS_def runs_def)
  qed
qed

lemma runs_kept_new:
  assumes "g_id m' \<noteq> g"
  shows "runs (stage client req s0 (kept g si m) n) (new_object m') (\<lambda>a. stage client req s0 (kept_at g si m a) n)"
  by (rule runs_new_object) (rule kept_alloc [OF _ _ assms])

lemma runs_kept_unregister:
  "gId \<noteq> g \<Longrightarrow> runs (stage client req s0 (kept g si m) n) (unregisterGathering_internal ev gId srcPid)
    (\<lambda>_. stage client req s0 (kept g si m) n)"
  unfolding unregisterGathering_internal_def
  by (rule runs_kept_session)
     (auto intro!: runs_intros runs_change_state kept_delete dest: kept_at_kept)

section \<open>The handlers\<close>

lemma kept_last:
  "\<not> shouldStop (sp_rmc s0) \<Longrightarrow>
   runs (stage client req s0 (kept_at g si m a) n) (refuse client req err) (\<lambda>_. stage client req s0 (kept g si m) (Suc n))"
  "\<not> shouldStop (sp_rmc s0) \<Longrightarrow>
   runs (stage client req s0 (kept_at g si m a) n) (reply client req ps) (\<lambda>_. stage client req s0 (kept g si m) (Suc n))"
  by (rule runs_kept_weaken, (rule runs_refuse runs_reply), assumption)+

lemma runs_kept_player:
  assumes "\<not> shouldStop (sp_rmc s0)" and out: "ci_pid client \<notin> set (si_players si)"
    and "\<And>info. gId \<noteq> g \<Longrightarrow> runs (stage client req s0 (kept_at g si m (si_session info)) n) (f info)
      (\<lambda>_. stage client req s0 (kept g si m) (Suc n))"
  shows "runs (stage client req s0 (kept g si m) n) (for_player client req gId f)
    (\<lambda>_. stage client req s0 (kept g si m) (Suc n))"
  unfolding for_player_def
  by (rule runs_kept_session) (use assms in \<open>auto intro!: runs_intros kept_last\<close>)

lemma runs_kept_owner:
  assumes "\<not> shouldStop (sp_rmc s0)" and out: "ownerPid m \<noteq> ci_pid client"
    and "\<And>info. gId \<noteq> g \<Longrightarrow> runs (stage client req s0 (kept_at g si m (si_session info)) n) (f info)
      (\<lambda>_. stage client req s0 (kept g si m) (Suc n))"
  shows "runs (stage client req s0 (kept g si m) n) (for_owner client req gId f)
    (\<lambda>_. stage client req s0 (kept g si m) (Suc n))"
  unfolding for_owner_def
proof (rule runs_kept_session, goal_cases)
  case 2
  show ?case
    unfolding option.case
    by (rule runs_kept_object) (use assms in \<open>simp_all add: runs_intros\<close>)
qed (use assms in \<open>auto intro!: runs_intros kept_last\<close>)

lemma runs_kept_leave:
  assumes "gId \<noteq> g"
  shows "runs (stage client req s0 (kept g si m) n) (removePlayerFromSession ev gId pid msg disconnected)
    (\<lambda>_. stage client req s0 (kept g si m) n)"
proof -
  have hand: "runs (stage client req s0 (kept_at g si m a) n) (hand_over ev pid a ps) (\<lambda>_. stage client req s0 (kept g si m) n)"
    for a ps
    unfolding hand_over_def
    by ((rule runs_intros runs_kept_write runs_kept_store | (simp; fail))+)
  show ?thesis
    unfolding removePlayerFromSession_def Let_def
    by (rule runs_kept_session)
       (simp add: runs_skip, use assms in simp,
        (simp only: option.case,
         (rule runs_intros runs_kept_write hand runs_kept_unregister [OF assms, THEN runs_kept_weaken]
            runs_kept_weaken [OF runs_skip] | (simp; fail))+))
qed

text \<open>\<open>spares\<close>: the handler leaves the session alone.\<close>

definition spares ::
  "u32 \<Rightarrow> SessionInfo \<Rightarrow> MatchmakeSession \<Rightarrow> ClientInfo \<Rightarrow> Request \<Rightarrow> (Splatoon, unit) op \<Rightarrow> bool" where
  "spares g si m client req h \<longleftrightarrow> (\<forall>s0 n. \<not> shouldStop (sp_rmc s0) \<longrightarrow>
     runs (stage client req s0 (kept g si m) n) h (\<lambda>_. stage client req s0 (kept g si m) (Suc n)))"

lemma sparesI:
  "(\<And>s0 n. \<not> shouldStop (sp_rmc s0) \<Longrightarrow>
     runs (stage client req s0 (kept g si m) n) h (\<lambda>_. stage client req s0 (kept g si m) (Suc n))) \<Longrightarrow>
   spares g si m client req h"
  by (simp add: spares_def)

lemma kept_client_ops [simp]:
  "sessions (setSplatoonRegisteredClientInfo info st) = sessions st"
  "heap (setSplatoonRegisteredClientInfo info st) = heap st"
  "next_addr (setSplatoonRegisteredClientInfo info st) = next_addr st"
  "heap (update_client pid f st) = heap st" "next_addr (update_client pid f st) = next_addr st"
  by (simp_all add: setSplatoonRegisteredClientInfo_def update_client_def split: option.split)

lemma runs_kept_updates [runs_intros]:
  "runs (stage client req s0 (kept g si m) n) (change_state (setSplatoonRegisteredClientInfo info))
    (\<lambda>_. stage client req s0 (kept g si m) n)"
  "runs (stage client req s0 (kept g si m) n) (change_state (updateSplatoonRegisteredClientURLs pid urls))
    (\<lambda>_. stage client req s0 (kept g si m) n)"
  "runs (stage client req s0 (kept g si m) n)
    (change_state (updateSplatoonRegisteredClientLastReportedNATProperties pid np))
    (\<lambda>_. stage client req s0 (kept g si m) n)"
  by (rule runs_kept_clients, simp add: updateSplatoonRegisteredClientURLs_def
      updateSplatoonRegisteredClientLastReportedNATProperties_def)+

lemma spares_probe:
  "\<not> shouldStop (sp_rmc s0) \<Longrightarrow>
   runs (stage client req s0 (kept g si m) n) (probe_targets ev client req targets probe)
     (\<lambda>_. stage client req s0 (kept g si m) (Suc n))"
  by (induction targets arbitrary: probe)
     (auto simp: probe_target_def intro!: runs_intros runs_read)

lemma spares_clients:
  "spares g si m client req (requestProbeInitiationExt ev client req targets probe)"
  "spares g si m client req (reportNatTraversalResult client req cid result rtt)"
  "spares g si m client req (reportNatProperties client req mapping filtering rtt)"
  "spares g si m client req (secure_register client req urls)"
  "spares g si m client req (replaceUrl client req oldUrl newUrl)"
  "spares g si m client req (sendReport client req rid report)"
  unfolding requestProbeInitiationExt_def reportNatTraversalResult_def reportNatProperties_def
    secure_register_def replaceUrl_def sendReport_def Let_def
  by (rule sparesI, (rule spares_probe | rule runs_intros runs_read | assumption | (split list.split, safe))+)+

lemma runs_kept_scores:
  "\<not> shouldStop (sp_rmc s0) \<Longrightarrow>
   runs (stage client req s0 (kept g si m) n) (ranking_scores ev client req ids scores)
     (\<lambda>_. stage client req s0 (kept g si m) (Suc n))"
  by (induction ids arbitrary: scores) (auto intro!: runs_intros runs_read)

lemma spares_reading:
  "spares g si m client req (findBySingleId client req gId)"
  "spares g si m client req (getSessionUrls client req gId)"
  "spares g si m client req (getPlayingSessions client req pids)"
  "spares g si m client req (getCompetitionRankingScore ev client req gp)"
  "spares g si m client req (uploadCompetitionRankingScore ev client req up)"
  unfolding findBySingleId_def getSessionUrls_def getPlayingSessions_def
    getCompetitionRankingScore_def uploadCompetitionRankingScore_def Let_def with_session_def
  by (rule sparesI, (rule runs_kept_scores runs_intros runs_read | assumption | (split list.split, safe))+)+

lemma spares_unregister:
  assumes "ownerPid m \<noteq> ci_pid client"
  shows "spares g si m client req (unregisterGathering ev client req gId)"
proof (rule sparesI)
  fix s0 :: Splatoon and n assume run: "\<not> shouldStop (sp_rmc s0)"
  let ?S = "stage client req s0 (kept g si m)"
  show "runs (?S n) (unregisterGathering ev client req gId) (\<lambda>_. ?S (Suc n))"
    unfolding unregisterGathering_def
  proof (rule runs_kept_session, goal_cases)
    case 2
    show ?case
      unfolding option.case
      by (rule runs_kept_object) (use assms run in \<open>simp_all add: runs_intros\<close>)
  next
    case (3 info)
    show ?case
      unfolding option.case
      by (rule runs_kept_weaken)
         ((rule run runs_intros runs_kept_unregister [OF 3] | assumption)+)
  qed (simp add: run runs_intros)
qed

lemma spares_end:
  assumes "ci_pid client \<notin> set (si_players si)"
  shows "spares g si m client req (endParticipation ev client req gId msg)"
proof (rule sparesI)
  fix s0 :: Splatoon and n assume run: "\<not> shouldStop (sp_rmc s0)"
  let ?S = "stage client req s0 (kept g si m)"
  show "runs (?S n) (endParticipation ev client req gId msg) (\<lambda>_. ?S (Suc n))"
    unfolding endParticipation_def
  proof (rule runs_kept_session, goal_cases)
    case (3 info)
    show ?case
      unfolding option.case
      by (rule runs_kept_weaken)
         ((rule run runs_intros runs_kept_leave [OF 3] | assumption)+)
  qed (use assms run in \<open>simp_all add: runs_intros\<close>)
qed

lemma spares_hosts:
  assumes "ci_pid client \<notin> set (si_players si)"
  shows "spares g si m client req (updateSessionHost ev client req gId migrateOwner)"
    "spares g si m client req (migrateGatheringOwnership ev client req gId owners only)"
  unfolding updateSessionHost_def migrateGatheringOwnership_def Let_def
  by (rule sparesI, (rule assms runs_kept_player runs_kept_write runs_kept_store runs_intros kept_last
      | assumption | (simp; fail) | (split list.split, safe))+)+

lemma spares_owner:
  assumes "ownerPid m \<noteq> ci_pid client"
  shows "spares g si m client req (closeParticipation client req gId)"
    "spares g si m client req (openParticipation_call client req gId)"
    "spares g si m client req (modifyCurrentGameAttribute client req gId i v)"
    "spares g si m client req (updateProgressScore client req gId score)"
  unfolding closeParticipation_def openParticipation_call_def modifyCurrentGameAttribute_def
    updateProgressScore_def owner_update_def
  by (rule sparesI, (rule assms runs_kept_owner runs_kept_write runs_kept_store runs_intros
      | assumption | (simp; fail))+)+

lemma runs_kept_online:
  assumes "\<not> shouldStop (sp_rmc s0)"
    and "runs (stage client req s0 (kept g si m) n) k (\<lambda>_. stage client req s0 (kept g si m) (Suc n))"
  shows "runs (stage client req s0 (kept g si m) n) (check_online client req pids k)
    (\<lambda>_. stage client req s0 (kept g si m) (Suc n))"
  by (rule runs_check_online [OF assms])

lemma spares_create: "spares g si m client req (createMatchmakeSessionWithParam ev client req param)"
proof (rule sparesI)
  fix s0 :: Splatoon and n assume run: "\<not> shouldStop (sp_rmc s0)"
  have id: "gId \<noteq> g \<Longrightarrow> g_id (created_session ev client param gId) \<noteq> g" for gId
    by (simp add: created_session_def Let_def)
  let ?S = "stage client req s0 (kept g si m)"
  show "runs (?S n) (createMatchmakeSessionWithParam ev client req param) (\<lambda>_. ?S (Suc n))"
    unfolding createMatchmakeSessionWithParam_def Let_def
    apply (rule runs_with_client)
    apply (rule runs_option, rule runs_refuse [OF run])
    apply (rule runs_if, rule runs_refuse [OF run])
    apply (rule runs_kept_online [OF run])
    apply (rule runs_kept_new_id)
    apply (rule runs_bind [OF runs_kept_new], erule id)
    apply (rule runs_bind [OF runs_kept_store_at])
    apply (rule runs_weaken [OF _ kept_at_kept])
    apply ((rule run runs_intros runs_kept_write | (simp; fail))+)
    done
qed

lemma runs_kept_join:
  assumes "\<not> shouldStop (sp_rmc s0)"
  shows "runs (stage client req s0 (kept_at g si m (si_session info)) n)
    (join_session ev client req param info) (\<lambda>_. stage client req s0 (kept g si m) (Suc n))"
  unfolding join_session_def Let_def
  by ((rule assms runs_kept_write runs_kept_store runs_for runs_intros | assumption | (simp; fail))+)

lemma spares_join:
  assumes "jp_gid param \<noteq> g"
  shows "spares g si m client req (joinMatchmakeSessionWithParam ev client req param)"
proof (rule sparesI)
  fix s0 :: Splatoon and n assume run: "\<not> shouldStop (sp_rmc s0)"
  let ?S = "stage client req s0 (kept g si m)"
  show "runs (?S n) (joinMatchmakeSessionWithParam ev client req param) (\<lambda>_. ?S (Suc n))"
    unfolding joinMatchmakeSessionWithParam_def
    apply (rule runs_with_client)
    apply (rule runs_option, rule runs_refuse [OF run])
    apply (rule runs_kept_session)
      apply (simp add: run runs_refuse)
     apply (simp add: assms)
    apply (simp only: option.case)
    apply (rule runs_with_object)
    apply (rule runs_if, rule kept_last(1) [OF run])+
    apply (rule runs_check_online [OF run runs_kept_join [OF run] kept_at_kept])
    apply assumption
    done
qed

section \<open>The property\<close>

text \<open>A request to join the session, or one that may join any.\<close>

fun may_join :: "u32 \<Rightarrow> SplatoonParams \<Rightarrow> bool" where
  "may_join g (JoinMatchmakeSessionWithParam p) = (jp_gid p = g)"
| "may_join g (AutoMatchmakeWithParam_Postpone p) = True"
| "may_join g _ = False"

lemma spares_call:
  assumes "ci_pid client \<notin> set (si_players si)" and "ownerPid m \<noteq> ci_pid client" and "\<not> may_join g params"
  shows "spares g si m client req (splatoon_call ev client req params)"
  unfolding splatoon_call_def
  using assms
  by (cases params)
     (simp_all add: spares_clients spares_reading spares_unregister spares_end spares_hosts spares_owner
       spares_create spares_join)

end
