(* ===== verification/SplatoonFacts.thy ===== *)
theory SplatoonFacts
  imports SplatoonLeave SplatoonSafety
begin

text \<open>
  What single handlers do: joining and its capacity, which session the automatic match takes, what
  a disconnection removes and what a second registration leaves behind, and the two requests that
  make the server follow a null pointer.
\<close>

section \<open>Routines that always return\<close>

definition calm :: "(Splatoon, 'a) op \<Rightarrow> bool" where
  "calm m \<longleftrightarrow> (\<forall>s. \<exists>a s'. m s = (Inr a, s'))"

named_theorems calm_intros \<open>routines that always return\<close>

lemma calmE:
  assumes "calm m" obtains a s' where "m s = (Inr a, s')"
  using assms unfolding calm_def by blast

lemma silent_calm: "silent m \<Longrightarrow> calm m"
  by (force simp: calm_def silent_def)

lemma calm_return [calm_intros]: "calm (returnS a)"
  by (simp add: calm_def)

lemma calm_modify [calm_intros]: "calm (modifyS f)"
  by (simp add: calm_def)

lemma calm_bind [calm_intros]: "calm m \<Longrightarrow> (\<And>a. calm (f a)) \<Longrightarrow> calm (bindS m f)"
  unfolding calm_def by (metis bindS_Inr)

lemma calm_seq [calm_intros]: "calm m \<Longrightarrow> calm k \<Longrightarrow> calm (seqS m k)"
  unfolding seqS_def by (rule calm_bind)

lemma calm_read [calm_intros]: "(\<And>s. calm (f s)) \<Longrightarrow> calm (readS f)"
  by (simp add: calm_def)

lemma calm_for [calm_intros]: "(\<And>x. calm (f x)) \<Longrightarrow> calm (forS xs f)"
  by (induction xs) (simp_all add: calm_intros)

lemma calm_if [calm_intros]: "calm m \<Longrightarrow> calm k \<Longrightarrow> calm (if b then m else k)"
  by simp

lemma calm_option [calm_intros]:
  "calm m \<Longrightarrow> (\<And>x. calm (f x)) \<Longrightarrow> calm (case ox of None \<Rightarrow> m | Some x \<Rightarrow> f x)"
  by (cases ox) simp_all

lemma calm_state_ops [calm_intros]:
  "(\<And>ci. calm (fc ci)) \<Longrightarrow> calm (with_client pid fc)" "(\<And>si. calm (fs si)) \<Longrightarrow> calm (with_session g fs)"
  "(\<And>m. calm (fo m)) \<Longrightarrow> calm (with_object a fo)" "calm (change_state f)" "calm (change_object a h)"
  "calm (sendMsg out)" "calm (reply client req ps)" "calm (refuse client req e)"
  unfolding with_client_def with_session_def with_object_def change_object_def change_state_def
    reply_def refuse_def sendMsg_def
  by (rule calm_intros | assumption)+

lemma calm_set_session [calm_intros]: "calm (set_session a ps)"
  by (auto simp: calm_def set_session_def split: prod.split)

lemmas calm_notify [calm_intros] = silent_notify [THEN silent_calm] silent_notify_player [THEN silent_calm]
  silent_notify_players [THEN silent_calm]

lemma calm_check_online [calm_intros]: "calm k \<Longrightarrow> calm (check_online client req pids k)"
  by (induction pids) (auto intro!: calm_intros)

lemma calm_leave [calm_intros]:
  "calm (unregisterGathering_internal ev g pid)" "calm (removePlayerFromSession ev g pid msg d)"
  unfolding unregisterGathering_internal_def removePlayerFromSession_def hand_over_def Let_def
  by ((rule calm_intros)+)

lemma calm_join: "calm (joinMatchmakeSessionWithParam ev client req param)"
  unfolding joinMatchmakeSessionWithParam_def join_session_def Let_def by ((rule calm_intros)+)

lemma calm_register: "calm (secure_register client req urls)"
  unfolding secure_register_def Let_def
  by (auto intro!: calm_intros split: list.split)

lemma calm_onDisconnect: "calm (splatoon_onDisconnect ev addr)"
  unfolding splatoon_onDisconnect_def by ((rule calm_intros)+)

section \<open>Exact stages\<close>

text \<open>While the shared state is known, reading it is evaluation.\<close>

lemma runs_known:
  "runs (stage client req s0 (\<lambda>st. st = st0) n) (fc (getSplatoonRegisteredClientInfo st0 pid)) J \<Longrightarrow>
   runs (stage client req s0 (\<lambda>st. st = st0) n) (with_client pid fc) J"
  "runs (stage client req s0 (\<lambda>st. st = st0) n) (fs (getSplatoonMatchmakeSession st0 g)) J \<Longrightarrow>
   runs (stage client req s0 (\<lambda>st. st = st0) n) (with_session g fs) J"
  "runs (stage client req s0 (\<lambda>st. st = st0) n) (fo (heap st0 a)) J \<Longrightarrow>
   runs (stage client req s0 (\<lambda>st. st = st0) n) (with_object a fo) J"
  by (simp_all add: runs_def stage_def with_client_def with_session_def with_object_def)

lemma runs_known_write:
  "runs (stage client req s0 (\<lambda>st. st = st0) n) (change_object a f)
    (\<lambda>_. stage client req s0 (\<lambda>st. st = write_session a f st0) n)"
  by (rule runs_change_object) simp

lemma runs_known_store:
  "runs (stage client req s0 (\<lambda>st. st = st0) n) (set_session a ps)
    (\<lambda>_. stage client req s0 (\<lambda>st. st = snd (setSplatoonMatchmakeSession (Some a) ps st0)) n)"
  by (rule runs_set_session) simp

lemma runs_known_online:
  assumes "list_all (\<lambda>p. getSplatoonRegisteredClientInfo st0 p \<noteq> None) pids"
    and "runs (stage client req s0 (\<lambda>st. st = st0) n) k J"
  shows "runs (stage client req s0 (\<lambda>st. st = st0) n) (check_online client req pids k) J"
  using assms(1) by (induction pids) (auto intro!: runs_known assms(2))

section \<open>Joining\<close>

text \<open>A request to join that is granted.\<close>

definition join_granted :: "LocalSharedState \<Rightarrow> u32 \<Rightarrow> JoinMatchmakeSessionParam \<Rightarrow> SessionInfo \<Rightarrow> bool" where
  "join_granted st pid p info \<longleftrightarrow>
     (let m = heap st (si_session info) in
      getSplatoonMatchmakeSession st (jp_gid p) = Some info \<and>
      list_all (\<lambda>p. getSplatoonRegisteredClientInfo st p \<noteq> None) (pid # jp_additionalParticipants p) \<and>
      unat (participationCount m) + length (jp_additionalParticipants p) \<le> unat (maxParticipants m) \<and>
      openParticipation m \<and> (userPasswordEnabled m \<longrightarrow> jp_userPassword p = userPassword m))"

lemma join_exact:
  fixes st0 client param info
  defines "a \<equiv> si_session info"
  defines "st1 \<equiv> write_session a (\<lambda>m. m\<lparr>participationCount := participationCount m +
    of_nat (length (ci_pid client # jp_additionalParticipants param))\<rparr>) st0"
  defines "all \<equiv> fold insort_insert (ci_pid client # jp_additionalParticipants param) (si_players info)"
  assumes "\<not> shouldStop (sp_rmc s0)" and g: "join_granted st0 (ci_pid client) param info"
  shows "runs (stage client req s0 (\<lambda>st. st = st0) n) (joinMatchmakeSessionWithParam ev client req param)
    (\<lambda>_. stage client req s0 (\<lambda>st. st = snd (setSplatoonMatchmakeSession (Some a) all st1)) (Suc n))"
proof -
  note g = g [unfolded join_granted_def Let_def]
  obtain ci where ci: "getSplatoonRegisteredClientInfo st0 (ci_pid client) = Some ci" using g by auto
  have ifs: "\<not> unat (maxParticipants (heap st0 (si_session info))) <
      unat (participationCount (heap st0 (si_session info))) + length (jp_additionalParticipants param)"
    "\<not> \<not> openParticipation (heap st0 (si_session info))"
    "\<not> (userPasswordEnabled (heap st0 (si_session info)) \<and> jp_userPassword param \<noteq> userPassword (heap st0 (si_session info)))"
    using g by auto
  show ?thesis
    unfolding joinMatchmakeSessionWithParam_def
    apply (rule runs_known(1))
    apply (simp only: ci option.case)
    apply (rule runs_known(2))
    apply (simp only: g [THEN conjunct1] option.case)
    apply (rule runs_known(3))
    apply (simp only: ifs if_False)
    apply (rule runs_known_online)
     apply (use g in simp)
    unfolding join_session_def Let_def a_def st1_def all_def
    apply (rule runs_seq, rule runs_known_write)
    apply (rule runs_seq)
     apply (rule runs_with_object, rule runs_reply [OF assms(4)])
    apply (rule runs_seq)
     apply (rule runs_for, rule runs_with_client, rule runs_option, rule runs_skip, rule runs_silents)
    apply (rule runs_seq)
     apply (rule runs_bind, rule runs_known_store, rule runs_skip)
    apply (rule runs_silents)
    done
qed

lemma join_result:
  assumes inv: "consistent (sp_state s)" and run: "\<not> shouldStop (sp_rmc s)"
    and g: "join_granted (sp_state s) (ci_pid client) param info"
  defines "all \<equiv> fold insort_insert (ci_pid client # jp_additionalParticipants param) (si_players info)"
  obtains s' a' where "joinMatchmakeSessionWithParam ev client req param s = (Inr (), s')"
    "map_of (sessions (sp_state s')) (jp_gid param) = Some \<lparr>si_session = a', si_players = all\<rparr>"
    "heap (sp_state s') a' = (heap (sp_state s) (si_session info))\<lparr>participationCount := of_nat (length all)\<rparr>"
proof -
  let ?st = "sp_state s" and ?a = "si_session info"
  let ?st1 = "write_session ?a (\<lambda>m. m\<lparr>participationCount := participationCount m +
    of_nat (length (ci_pid client # jp_additionalParticipants param))\<rparr>) ?st"
  obtain u s' where s': "joinMatchmakeSessionWithParam ev client req param s = (Inr u, s')"
    using calm_join by (rule calmE)
  obtain r st' where set: "setSplatoonMatchmakeSession (Some ?a) all ?st1 = (r, st')" by fastforce
  have "stage client req s (\<lambda>st. st = ?st) 0 s" by (rule stage_start) simp
  then have "sp_state s' = st'"
    by (rule runsD [OF join_exact [OF run g] _ s']) (use set in \<open>simp_all add: stage_def all_def\<close>)
  moreover have "g_id (heap ?st1 ?a) = jp_gid param"
    using session_facts(3) [OF inv, of "jp_gid param" info] g
    by (simp add: join_granted_def Let_def write_session_def)
  ultimately show ?thesis
    using set_session_result(1,2) [OF set] s'
    by (intro that [of s' "next_addr ?st1"]) (simp_all add: update_conv' write_session_def)
qed

text \<open>The additional players counted, but not the client: one more than the maximum can play.\<close>

lemma join_all_bound:
  assumes inv: "consistent st" and g: "join_granted st pid p info" and "length (si_players info) < 2 ^ 32"
  shows "length (fold insort_insert (pid # jp_additionalParticipants p) (si_players info))
    \<le> unat (maxParticipants (heap st (si_session info))) + 1"
proof -
  have len: "length (fold insort_insert xs ys) \<le> length xs + length ys" for xs ys :: "u32 list"
  proof (induction xs arbitrary: ys)
    case (Cons x xs)
    have "length (insort_insert x ys) \<le> Suc (length ys)" by (simp add: insort_insert_key_def)
    with Cons [of "insort_insert x ys"] show ?case by simp
  qed simp
  have get: "map_of (sessions st) (jp_gid p) = Some info"
    using g by (simp add: join_granted_def Let_def getSplatoonMatchmakeSession_def)
  have "participationCount (heap st (si_session info)) = of_nat (length (si_players info))"
    using ss_invD(3) [OF inv get] by (simp add: session_entry_ok_def)
  then have "unat (participationCount (heap st (si_session info))) = length (si_players info)"
    using assms(3) by (simp add: unat_of_nat)
  then show ?thesis
    using g len [of "pid # jp_additionalParticipants p" "si_players info"]
    by (simp add: join_granted_def Let_def)
qed

section \<open>The choice of the automatic match\<close>

text \<open>A session that can be chosen, with its distance.\<close>

definition candidate ::
  "u32 list \<Rightarrow> AutoMatchmakeParam \<Rightarrow> (addr \<Rightarrow> MatchmakeSession) \<Rightarrow> SessionInfo \<Rightarrow> u32 \<Rightarrow> bool" where
  "candidate joined param h si d \<longleftrightarrow> session_fits joined param (h (si_session si)) = Inr True \<and>
     exp_difference param (h (si_session si)) = Inr d"

lemma valid_top_bound:
  assumes "valid_top joined param h sis best = Inr (Some (d, si))"
  shows "(\<forall>sj \<in> set sis. \<forall>e. candidate joined param h sj e \<longrightarrow> e \<le> d) \<and>
    (best = Some (d, si) \<or> (si \<in> set sis \<and> candidate joined param h si d)) \<and>
    (\<forall>e sj. best = Some (e, sj) \<longrightarrow> e \<le> d)"
  using assms
proof (induction sis arbitrary: best)
  case (Cons x sis)
  show ?case
  proof (cases "session_fits joined param (h (si_session x))")
    case (Inl e)
    with Cons.prems show ?thesis by simp
  next
    case fits: (Inr b)
    show ?thesis
    proof (cases b)
      case False
      with Cons.prems fits have "valid_top joined param h sis best = Inr (Some (d, si))" by simp
      from Cons.IH [OF this] False fits show ?thesis by (auto simp: candidate_def)
    next
      case True
      then obtain dx where dx: "exp_difference param (h (si_session x)) = Inr dx"
        using Cons.prems fits by (cases "exp_difference param (h (si_session x))") auto
      have run: "valid_top joined param h sis (queue_push (dx, x) best) = Inr (Some (d, si))"
        using Cons.prems fits True dx by simp
      have x: "candidate joined param h x e \<longleftrightarrow> e = dx" for e
        using fits True dx by (auto simp: candidate_def)
      show ?thesis
      proof (cases "queue_push (dx, x) best = Some (dx, x)")
        case new: True
        from Cons.IH [OF run] new x show ?thesis
          by (auto simp: queue_push_def split: option.splits if_splits)
      next
        case False
        then obtain e sj where best: "best = Some (e, sj)" by (cases best) (auto simp: queue_push_def)
        with False have "\<not> e < dx" by (auto simp: queue_push_def)
        then have same: "queue_push (dx, x) (Some (e, sj)) = Some (e, sj)" and e: "dx \<le> e"
          by (simp_all add: queue_push_def)
        from Cons.IH [OF run [unfolded best same]] e show ?thesis
          unfolding best by (auto simp: x intro: order_trans)
      qed
    qed
  qed
qed simp

text \<open>The room check, when fewer fit in at all than want to come: the difference wraps.\<close>

lemma room_wraps:
  fixes param m
  defines "vacant \<equiv> length (ap_additionalParticipants param) + 1"
  assumes "unat (maxParticipants m) < vacant" and "vacant < 2 ^ 31" and "unat (participationCount m) < 2 ^ 31"
    and "g_id m \<notin> set joined" and "openParticipation m"
  shows "session_fits joined param m = any_criteria (ap_searchCriteria param) m"
proof -
  let ?v = "of_nat vacant :: u32" and ?x = "ucast (maxParticipants m) :: u32"
  have v: "unat ?v = vacant" using assms(3) by (simp add: unat_of_nat)
  have "unat (maxParticipants m) < 2 ^ LENGTH(32)"
    by (rule order_less_le_trans [OF unsigned_less]) simp
  then have x: "unat ?x = unat (maxParticipants m)"
    unfolding unsigned_ucast_eq by (rule take_bit_nat_eq_self)
  have "unat (?x - ?v) = 2 ^ 32 + unat ?x - unat ?v"
    using assms(2) v x by (subst unat_sub_if') (simp add: word_less_nat_alt not_le)
  then have "unat (participationCount m) \<le> unat (?x - ?v)"
    using assms(3,4) v by simp
  then have "\<not> ?x - ?v < participationCount m" by (simp add: word_less_nat_alt)
  then show ?thesis using assms(5,6) by (simp add: session_fits_def Let_def vacant_def)
qed

section \<open>Disconnecting\<close>

lemma onDisconnect_result:
  assumes inv: "consistent (sp_state s)" and addr: "pidMap (sp_rmc s) addr = Some pid"
  obtains s' where "splatoon_onDisconnect ev addr s = (Inr (), s')" "consistent (sp_state s')"
    "sp_rmc s' = sp_rmc s" "replies s' = replies s" "\<not> registered (sp_state s') pid"
    "\<And>ci a. map_of (clientInfos (sp_state s)) pid = Some ci \<Longrightarrow> a \<in> set (joinedGatherings ci) \<Longrightarrow>
      \<not> plays (sp_state s') pid (g_id (heap (sp_state s) a))"
    "\<And>h. plays (sp_state s') pid h \<Longrightarrow> plays (sp_state s) pid h"
proof -
  let ?st = "sp_state s"
  have run: "splatoon_onDisconnect ev addr s =
      seqS (with_client pid (\<lambda>ci. case ci of None \<Rightarrow> returnS () | Some info \<Rightarrow> leave_all ev pid (joinedGatherings info)))
        (change_state (deleteSplatoonRegisteredClientInfo pid)) s"
    by (simp add: splatoon_onDisconnect_def addr)
  obtain st1 where l1: "leads ?st (with_client pid (\<lambda>ci. case ci of None \<Rightarrow> returnS ()
        | Some info \<Rightarrow> leave_all ev pid (joinedGatherings info))) st1"
    and c1: "consistent st1" and p1: "\<And>h. plays st1 pid h \<Longrightarrow> plays ?st pid h"
    and gone: "\<And>ci a. map_of (clientInfos ?st) pid = Some ci \<Longrightarrow> a \<in> set (joinedGatherings ci) \<Longrightarrow>
      \<not> plays st1 pid (g_id (heap ?st a))"
  proof (cases "getSplatoonRegisteredClientInfo ?st pid")
    case None
    then have "map_of (clientInfos ?st) pid = None"
      by (simp add: getSplatoonRegisteredClientInfo_def split: option.splits)
    moreover have "leads ?st (with_client pid (\<lambda>ci. case ci of None \<Rightarrow> returnS ()
        | Some info \<Rightarrow> leave_all ev pid (joinedGatherings info))) ?st"
      by (rule leads_with_client) (simp only: None option.case leads_intros)
    ultimately show ?thesis using inv by (intro that [of ?st]) auto
  next
    case (Some info)
    then obtain ci where ci: "map_of (clientInfos ?st) pid = Some ci"
      by (auto simp: getSplatoonRegisteredClientInfo_def split: option.splits)
    then have reg: "registered ?st pid" by (simp add: registered_map_of)
    have ids: "(\<lambda>a. g_id (heap ?st a)) ` set (joinedGatherings info) =
        (\<lambda>a. g_id (heap ?st a)) ` set (joinedGatherings ci)"
      using arg_cong [OF client_gatherings(1) [OF inv ci Some], of set] by (simp add: gathering_ids_def)
    obtain st1 where st1: "leads ?st (leave_all ev pid (joinedGatherings info)) st1" "consistent st1"
      "\<And>h. plays st1 pid h \<Longrightarrow> plays ?st pid h"
      "\<And>a. a \<in> set (joinedGatherings info) \<Longrightarrow> \<not> plays st1 pid (g_id (heap ?st a))"
      using leave_all_effect [OF inv reg client_gatherings(2) [OF inv ci Some], of "joinedGatherings info" ev]
      by blast
    show ?thesis
    proof (rule that [of st1])
      show "leads ?st (with_client pid (\<lambda>ci. case ci of None \<Rightarrow> returnS ()
          | Some info \<Rightarrow> leave_all ev pid (joinedGatherings info))) st1"
        by (rule leads_with_client) (simp only: Some option.case st1(1))
      fix ci' a assume "map_of (clientInfos ?st) pid = Some ci'" and a: "a \<in> set (joinedGatherings ci')"
      then have "g_id (heap ?st a) \<in> (\<lambda>a. g_id (heap ?st a)) ` set (joinedGatherings ci)" using ci by simp
      then obtain b where "b \<in> set (joinedGatherings info)" "g_id (heap ?st b) = g_id (heap ?st a)"
        unfolding ids [symmetric] by force
      then show "\<not> plays st1 pid (g_id (heap ?st a))" using st1(4) by metis
    qed (rule st1(2), erule st1(3))
  qed
  let ?st2 = "deleteSplatoonRegisteredClientInfo pid st1"
  have "leads ?st (seqS (with_client pid (\<lambda>ci. case ci of None \<Rightarrow> returnS ()
      | Some info \<Rightarrow> leave_all ev pid (joinedGatherings info)))
      (change_state (deleteSplatoonRegisteredClientInfo pid))) ?st2"
    by (rule leads_seq [OF l1 leads_change_state])
  then obtain s' where s': "splatoon_onDisconnect ev addr s = (Inr (), s')"
    "sp_state s' = ?st2" "sp_rmc s' = sp_rmc s" "replies s' = replies s"
    unfolding run by (rule leadsD) (rule refl)
  show ?thesis
  proof (rule that [OF s'(1) _ s'(3,4)])
    show "consistent (sp_state s')" unfolding s'(2) by (rule ss_inv_delete_client [OF c1])
    show "\<not> registered (sp_state s') pid" unfolding s'(2) by (rule delete_client_gone)
    show "plays (sp_state s') pid h \<Longrightarrow> plays ?st pid h" for h
      unfolding s'(2) by (rule p1, erule delete_client_plays)
    show "\<not> plays (sp_state s') pid (g_id (heap ?st a))"
      if "map_of (clientInfos ?st) pid = Some ci" "a \<in> set (joinedGatherings ci)" for ci a
      unfolding s'(2) by (rule contrapos_nn [OF gone [OF that]]) (rule delete_client_plays)
  qed
qed

text \<open>Registering again starts a record with no gatherings, while the sessions keep the player.\<close>

lemma register_result:
  assumes "secure_register client req [url] s = (r, s1)"
  shows "sessions (sp_state s1) = sessions (sp_state s)" "heap (sp_state s1) = heap (sp_state s)"
    "sp_rmc s1 = sp_rmc s"
    "\<exists>ci. map_of (clientInfos (sp_state s1)) (ci_pid client) = Some ci \<and> joinedGatherings ci = [] \<and>
       sr_rvConnId ci = nextRVConnId s"
    "nextRVConnId s1 = next_rv_id (nextRVConnId s)"
  using assms
  by (auto simp: secure_register_def Let_def seqS_def bindS_def change_state_def reply_def sendMsg_def
      setSplatoonRegisteredClientInfo_def update_conv' split: if_splits)

lemma disconnect_without_gatherings:
  assumes ci: "map_of (clientInfos (sp_state s)) pid = Some ci" and js: "joinedGatherings ci = []"
    and addr: "pidMap (sp_rmc s) addr = Some pid"
    and run: "splatoon_onDisconnect ev addr s = (r, s')"
  shows "plays (sp_state s') = plays (sp_state s)" "\<not> registered (sp_state s') pid" "r = Inr ()"
proof -
  have get: "getSplatoonRegisteredClientInfo (sp_state s) pid = Some ci"
    using ci js by (simp add: getSplatoonRegisteredClientInfo_def)
  have "(r, s') = (Inr (), s\<lparr>sp_state := deleteSplatoonRegisteredClientInfo pid (sp_state s)\<rparr>)"
    using run
    by (simp add: splatoon_onDisconnect_def addr with_client_def get js seqS_def bindS_def change_state_def)
  then show "plays (sp_state s') = plays (sp_state s)" "\<not> registered (sp_state s') pid" "r = Inr ()"
    by (simp_all add: delete_client_gone,
        simp add: deleteSplatoonRegisteredClientInfo_def ci js Let_def plays_def fun_eq_iff)
qed

section \<open>Null pointers\<close>

lemma getSessionUrls_unknown:
  assumes "getSplatoonMatchmakeSession (sp_state s) gId = None" and "\<not> shouldStop (sp_rmc s)"
  shows "getSessionUrls client req gId s = (Inl UndefinedAccess, s)"
  using assms by (simp add: getSessionUrls_def with_session_def send_null_def)

lemma probe_two_targets:
  assumes run: "\<not> shouldStop (sp_rmc s)" and local: "ci_serverId client = rmc_serverId (sp_rmc s)"
    and t1: "su_PID t1 = Some p1" "getSplatoonRegisteredClientInfo (sp_state s) p1 \<noteq> None"
    and t2: "su_PID t2 = Some p2" "getSplatoonRegisteredClientInfo (sp_state s) p2 \<noteq> None"
  shows "fst (requestProbeInitiationExt ev client req (t1 # t2 # ts) probe s) = Inl UndefinedAccess"
  using assms
  by (auto simp: requestProbeInitiationExt_def with_client_def probe_target_def send_call_def seqS_def
      bindS_def sendMsg_def send_null_def)

end
