(* ===== verification/SplatoonService.thy ===== *)
theory SplatoonService
  imports SplatoonFacts RmcRuntime
begin

text \<open>
  The game server as a whole: the registered calls, the worker that runs connections, disconnections
  and calls one after the other (\<^verbatim>\<open>src/nex/rmc/server.cpp\<close> with the handlers of
  \<^verbatim>\<open>src/nex/splatoon\<close>), and what holds in every state it can reach. A call whose behaviour is
  undefined has no successor.
\<close>

section \<open>Registration\<close>

lemma registerCall_fold:
  assumes "distinct (map fst ks)" and "\<And>k. k \<in> fst ` set ks \<Longrightarrow> calls s k = None"
  shows "calls (fold (\<lambda>(k, p). registerCall k p) ks s) = calls s ++ map_of ks \<and>
    shouldStop (fold (\<lambda>(k, p). registerCall k p) ks s) = shouldStop s \<and>
    requestsQueue (fold (\<lambda>(k, p). registerCall k p) ks s) = requestsQueue s \<and>
    pidMap (fold (\<lambda>(k, p). registerCall k p) ks s) = pidMap s \<and>
    rmc_serverId (fold (\<lambda>(k, p). registerCall k p) ks s) = rmc_serverId s"
  using assms
proof (induction ks arbitrary: s)
  case (Cons kp ks)
  obtain k p where kp: "kp = (k, p)" by (cases kp)
  have s': "registerCall k p s = s\<lparr>calls := (calls s)(k \<mapsto> p)\<rparr>"
    using Cons.prems(2) [of k] by (simp add: kp registerCall_def)
  have "distinct (map fst ks)" "\<And>j. j \<in> fst ` set ks \<Longrightarrow> calls (registerCall k p s) j = None"
    using Cons.prems by (auto simp: kp s')
  note IH = Cons.IH [OF this]
  have none: "map_of ks k = None" using Cons.prems(1) by (simp add: kp map_of_eq_None_iff)
  have "calls (registerCall k p s) ++ map_of ks = calls s ++ map_of (kp # ks)"
    by (rule ext) (auto simp: kp s' map_add_def none split: option.split)
  moreover have "shouldStop (registerCall k p s) = shouldStop s" "pidMap (registerCall k p s) = pidMap s"
    "requestsQueue (registerCall k p s) = requestsQueue s" "rmc_serverId (registerCall k p s) = rmc_serverId s"
    by (simp_all add: s')
  ultimately show ?case using IH by (simp only: kp fold.simps comp_apply prod.case simp_thms)
qed simp

lemma register_splatoon_calls:
  assumes "calls s = Map.empty"
  shows "calls (register_splatoon inet s) = map_of (splatoon_calls inet)"
  unfolding register_splatoon_def
  using registerCall_fold [of "splatoon_calls inet" s] assms by (simp add: splatoon_calls_def)

section \<open>The worker\<close>

definition run_splatoon_task ::
  "SplatoonEnv \<Rightarrow> SplatoonParams Task \<Rightarrow> Splatoon \<Rightarrow> unit result \<times> Splatoon" where
  "run_splatoon_task ev t s = (case t of
       ConnectTask addr pid \<Rightarrow> (Inr (), s\<lparr>sp_rmc := rmc_onConnect (sp_rmc s) addr pid\<rparr>)
     | DisconnectTask addr \<Rightarrow> splatoon_onDisconnect ev addr s
     | CallTask r \<Rightarrow> run_call ev r s)"

definition Splatoon_init :: "inet_pton \<Rightarrow> u32 \<Rightarrow> LocalSharedState \<Rightarrow> Splatoon" where
  "Splatoon_init inet serverId st =
     \<lparr>sp_rmc = register_splatoon inet
        \<lparr>shouldStop = False, rmc_serverId = serverId, pidMap = Map.empty, calls = Map.empty, requestsQueue = []\<rparr>,
      sp_state = st, nextRVConnId = 1, nextReqCallId = 0, sp_out = [], sp_db = []\<rparr>"

text \<open>
  One step: a message or a task arrives, or the worker runs its next task, or moves the queued
  requests behind its tasks.
\<close>

inductive splatoon_step ::
  "SplatoonParams Task list \<times> Splatoon \<Rightarrow> SplatoonParams Task list \<times> Splatoon \<Rightarrow> bool" where
  receive: "rmc_onData (sp_rmc s) addr mv sub d = Inr (srv, out) \<Longrightarrow>
    splatoon_step (ts, s) (ts, s\<lparr>sp_rmc := srv\<rparr>)"
| connect: "splatoon_step (ts, s) (ts @ [ConnectTask addr pid], s)"
| disconnect: "splatoon_step (ts, s) (ts @ [DisconnectTask addr], s)"
| run: "\<not> shouldStop (sp_rmc s) \<Longrightarrow> run_splatoon_task ev t s = (r, s') \<Longrightarrow> r \<noteq> Inl UndefinedAccess \<Longrightarrow>
    splatoon_step (t # ts, s) (ts, s')"
| drain: "drain_queue (sp_rmc s) = (srv, rs) \<Longrightarrow>
    splatoon_step (ts, s) (ts @ map CallTask rs, s\<lparr>sp_rmc := srv\<rparr>)"
| stop: "splatoon_step (ts, s) ([], s\<lparr>sp_rmc := rmc_stop (sp_rmc s)\<rparr>)"

inductive_cases splatoon_stepE: "splatoon_step (ts, s) (ts', s')"

section \<open>Calls\<close>

lemma run_call_result:
  assumes run: "\<not> shouldStop (sp_rmc s)" and inv: "consistent (sp_state s)"
    and call: "run_call ev r s = (res, s')" and ok: "res \<noteq> Inl UndefinedAccess"
  obtains resp where "res = Inr ()" "consistent (sp_state s')" "sp_rmc s' = sp_rmc s"
    "replies s' = replies s @ [(ri_client r, resp)]" "answer_to (ri_request r) resp"
proof -
  obtain q t where h: "splatoon_call ev (ri_client r) (ri_request r) (ri_params r) s = (q, t)" by fastforce
  have start: "stage (ri_client r) (ri_request r) s consistent 0 s" by (rule stage_start) (rule inv)
  have "q \<noteq> Inl UndefinedAccess" using call ok by (auto simp: run_call_def h split: sum.splits)
  then obtain u where q: "q = Inr u" and st: "stage (ri_client r) (ri_request r) s consistent (Suc 0) t"
    using runsD [OF answersD [OF answers_splatoon_call run] start h] by metis
  have s': "res = Inr ()" "s' = t" using call by (simp_all add: run_call_def h q)
  obtain rs where rs: "replies t = replies s @ rs" "length rs = Suc 0"
    "\<forall>(c, a) \<in> set rs. c = ri_client r \<and> answer_to (ri_request r) a"
    using st by (auto simp: stage_def)
  then obtain resp where "rs = [(ri_client r, resp)]" "answer_to (ri_request r) resp"
    by (cases rs) auto
  with rs st s' show ?thesis by (intro that) (simp_all add: stage_def)
qed

text \<open>What the client of a reply reads on the wire.\<close>

lemma reply_on_the_wire:
  assumes "\<not> shouldStop (sp_rmc s)" and a: "answer_to req resp" and ok: "request_ok req"
    and "length (concat ps) + 12 < 2 ^ 32"
  obtains d where "out_message s (OutResponse client resp ps) = [(ci_address client, d, ci_substreamId client)]"
    "decode_Response d = Inr (seen_response resp, concat ps)" "rs_callId (seen_response resp) = rq_callId req"
    "rs_protocolId (seen_response resp) = rq_protocolId req"
proof (rule that)
  show "out_message s (OutResponse client resp ps) =
      [(ci_address client, encode_Response resp (length (concat ps)) @ concat ps, ci_substreamId client)]"
    using assms(1) by (simp add: out_message_def sendResponse_def)
  show "decode_Response (encode_Response resp (length (concat ps)) @ concat ps) = Inr (seen_response resp, concat ps)"
    by (rule decode_Response_encode) (use a ok assms(4) in \<open>auto simp: answer_to_def request_ok_def\<close>)
qed (use a in \<open>simp_all add: seen_response_def answer_to_def\<close>)

lemma replies_sent: "(c, r) \<in> set (replies s) \<Longrightarrow> \<exists>ps. OutResponse c r ps \<in> set (sp_out s)"
proof -
  assume "(c, r) \<in> set (replies s)"
  then obtain m where "m \<in> set (sp_out s)" "(c, r) \<in> set (response_of m)" by (auto simp: replies_def)
  then show ?thesis by - (cases m, auto)
qed

section \<open>Reachable states\<close>

lemma splatoon_step_consistent:
  "splatoon_step x y \<Longrightarrow> consistent (sp_state (snd x)) \<Longrightarrow> consistent (sp_state (snd y))"
proof (induction rule: splatoon_step.induct)
  case (run s ev t r s' ts)
  show ?case
  proof (cases t)
    case (ConnectTask addr pid)
    with run show ?thesis by (auto simp: run_splatoon_task_def)
  next
    case (DisconnectTask addr)
    have start: "stage undefined undefined s consistent 0 s" by (rule stage_start) (use run in simp)
    have "splatoon_onDisconnect ev addr s = (r, s')"
      using run(2) by (simp add: run_splatoon_task_def DisconnectTask)
    from runsD [OF runs_splatoon_onDisconnect start this run(3)]
    have "stage undefined undefined s consistent 0 s'" by metis
    then show ?thesis by (simp add: stage_def)
  next
    case (CallTask q)
    with run show ?thesis
      using run_call_result [of s ev q r s'] by (auto simp: run_splatoon_task_def)
  qed
qed auto

lemma splatoon_reachable:
  assumes "splatoon_step\<^sup>*\<^sup>* (ts0, s0) (ts, s)" and "consistent (sp_state s0)"
  shows "consistent (sp_state s)"
proof -
  have "consistent (sp_state (snd y))" if "splatoon_step\<^sup>*\<^sup>* (ts0, s0) y" for y
    using that by (induction rule: rtranclp_induct) (auto simp: assms(2) splatoon_step_consistent)
  from this [OF assms(1)] show ?thesis by simp
qed

end
