(* ===== verification/RmcWorker.thy ===== *)
theory RmcWorker
  imports RmcRuntime
begin

text \<open>
  The worker of an RMC server against a queue: whatever arrives between its turns, every request that
  is accepted is handled once, in the order of arrival, and what it sends goes out in that order.
\<close>

section \<open>What happens to a server\<close>

datatype WorkerEvent =
    Arrives PRUDPAddress u8 u8 bytes
  | Connects PRUDPAddress u32
  | Disconnects PRUDPAddress
  | Turn

text \<open>A message that throws on its way in (\<^verbatim>\<open>NotCompleteException\<close>) changes nothing.\<close>

definition worker_event ::
  "('p, 'w) Handler \<Rightarrow> WorkerEvent \<Rightarrow> 'p Runtime \<times> 'w \<times> sent list \<Rightarrow> ('p Runtime \<times> 'w \<times> sent list) result" where
  "worker_event handler e = (\<lambda>(rt, w, sent). case e of
       Arrives addr mv sub d \<Rightarrow>
         (case runtime_onData addr mv sub d rt of
            Inr (rt', _) \<Rightarrow> Inr (rt', w, sent)
          | Inl UndefinedAccess \<Rightarrow> Inl UndefinedAccess
          | Inl _ \<Rightarrow> Inr (rt, w, sent))
     | Connects addr pid \<Rightarrow> Inr (scheduleOnConnect addr pid rt, w, sent)
     | Disconnects addr \<Rightarrow> Inr (scheduleOnDisconnect addr rt, w, sent)
     | Turn \<Rightarrow> bindE (worker_turn handler rt w) (\<lambda>(rt', w', out). Inr (rt', w', sent @ out)))"

fun worker_events ::
  "('p, 'w) Handler \<Rightarrow> WorkerEvent list \<Rightarrow> 'p Runtime \<times> 'w \<times> sent list \<Rightarrow> ('p Runtime \<times> 'w \<times> sent list) result" where
  "worker_events handler [] x = Inr x"
| "worker_events handler (e # es) x = bindE (worker_event handler e x) (worker_events handler es)"

lemma worker_events_append:
  "worker_events handler (es @ es') x = bindE (worker_events handler es x) (worker_events handler es')"
  by (induction es arbitrary: x) (auto simp: bindE_def split: sum.splits)

section \<open>What it has to do\<close>

text \<open>The requests among the messages: registered, with parameters that parse.\<close>

type_synonym 'p arrived = "PRUDPAddress \<times> u8 \<times> u8 \<times> Request \<times> 'p"

definition accepted :: "(call_key \<rightharpoonup> (u8 \<Rightarrow> bytes \<Rightarrow> 'p result)) \<Rightarrow> WorkerEvent \<Rightarrow> 'p arrived option" where
  "accepted cs e = (case e of
       Arrives addr mv sub d \<Rightarrow>
         (if is_response d then None
          else case decode_Request d of
              Inr (req, payload) \<Rightarrow>
                (case cs (call_key req) of
                   Some parser \<Rightarrow> (case parser mv payload of Inr p \<Rightarrow> Some (addr, mv, sub, req, p) | Inl _ \<Rightarrow> None)
                 | None \<Rightarrow> None)
            | Inl _ \<Rightarrow> None)
     | _ \<Rightarrow> None)"

definition arrived_as :: "'p RequestInfo \<Rightarrow> 'p arrived" where
  "arrived_as r = (ci_address (ri_client r), ci_minorVersion (ri_client r), ci_substreamId (ri_client r),
     ri_request r, ri_params r)"

text \<open>A log of calls: of each the request, the outcome and what it sent; and what its calls do to their service.\<close>

type_synonym 'p log = "('p RequestInfo \<times> unit result \<times> sent list) list"

fun replay :: "('p, 'w) Handler \<Rightarrow> 'w \<Rightarrow> 'p log \<Rightarrow> 'w option" where
  "replay handler w [] = Some w"
| "replay handler w ((r, res, out) # log) =
     (case handler r w of (res', w', out') \<Rightarrow> if res' = res \<and> out' = out then replay handler w' log else None)"

lemma replay_append: "replay handler w (log @ log') = Option.bind (replay handler w log) (\<lambda>w. replay handler w log')"
  by (induction handler w log rule: replay.induct) (auto split: prod.split)

text \<open>What a call sends in all: an exception error behind its own messages if it threw.\<close>

fun sent_for :: "'p RequestInfo \<times> unit result \<times> sent list \<Rightarrow> sent list" where
  "sent_for (r, Inr _, out) = out"
| "sent_for (r, Inl _, out) = out @ [(ci_address (ri_client r),
     encode_Response (createError (ri_request r) CORE__EXCEPTION) 0, ci_substreamId (ri_client r))]"

fun task_calls :: "'p Task list \<Rightarrow> 'p RequestInfo list" where
  "task_calls [] = []"
| "task_calls (CallTask r # ts) = r # task_calls ts"
| "task_calls (_ # ts) = task_calls ts"

lemma task_calls_append [simp]: "task_calls (ts @ ts') = task_calls ts @ task_calls ts'"
  by (induction ts rule: task_calls.induct) simp_all

lemma task_calls_map [simp]: "task_calls (map CallTask rs) = rs"
  by (induction rs) simp_all

section \<open>The invariant\<close>

definition defined_handler :: "('p, 'w) Handler \<Rightarrow> bool" where
  "defined_handler handler \<longleftrightarrow> (\<forall>r w. fst (handler r w) \<noteq> Inl UndefinedAccess)"

definition defined_parsers :: "(call_key \<rightharpoonup> (u8 \<Rightarrow> bytes \<Rightarrow> 'p result)) \<Rightarrow> bool" where
  "defined_parsers cs \<longleftrightarrow> (\<forall>k parser mv d. cs k = Some parser \<longrightarrow> parser mv d \<noteq> Inl UndefinedAccess)"

definition works :: "(call_key \<rightharpoonup> (u8 \<Rightarrow> bytes \<Rightarrow> 'p result)) \<Rightarrow> 'p RmcServer \<Rightarrow> bool" where
  "works cs s \<longleftrightarrow> \<not> shouldStop s \<and> calls s = cs \<and> queue_ok s"

definition worker_inv ::
  "('p, 'w) Handler \<Rightarrow> 'w \<Rightarrow> (call_key \<rightharpoonup> (u8 \<Rightarrow> bytes \<Rightarrow> 'p result)) \<Rightarrow> 'p arrived list \<Rightarrow> 'p log \<Rightarrow>
    'p Runtime \<times> 'w \<times> sent list \<Rightarrow> bool" where
  "worker_inv handler w0 cs reqs log = (\<lambda>(rt, w, sent). works cs (rt_server rt) \<and> replay handler w0 log = Some w \<and>
     sent = concat (map sent_for log) \<and>
     map arrived_as (map fst log @ task_calls (rt_tasks rt) @ requestsQueue (rt_server rt)) = reqs)"

lemma run_task_logged:
  assumes "defined_handler handler" and "works cs s"
  shows "\<exists>s' w' log. run_task handler t s w = Inr (s', w', concat (map sent_for log)) \<and> replay handler w log = Some w' \<and>
    works cs s' \<and> map fst log = task_calls [t] \<and> requestsQueue s' = requestsQueue s"
proof (cases t)
  case (CallTask r)
  obtain res w' out where h: "handler r w = (res, w', out)" by (cases "handler r w") auto
  then have "res \<noteq> Inl UndefinedAccess" using assms(1) by (metis defined_handler_def fst_conv)
  then have "finish_task s (ri_client r) (ri_request r) out res = Inr (sent_for (r, res, out))"
    using assms(2) by (auto simp: finish_task_def sendResponse_def works_def split: sum.split exn.split)
  then have "run_task handler t s w = Inr (s, w', sent_for (r, res, out))"
    by (simp add: run_task_def CallTask h)
  then show ?thesis using assms(2) CallTask h by (intro exI [of _ s] exI [of _ w'] exI [of _ "[(r, res, out)]"]) simp
qed (use assms(2) in \<open>auto simp: run_task_def works_def rmc_onConnect_def rmc_onDisconnect_def queue_ok_def\<close>)

lemma run_tasks_logged:
  assumes "defined_handler handler"
  shows "works cs s \<Longrightarrow>
    \<exists>s' w' log. run_tasks handler ts s w = Inr (s', w', concat (map sent_for log)) \<and> replay handler w log = Some w' \<and>
    works cs s' \<and> map fst log = task_calls ts \<and> requestsQueue s' = requestsQueue s"
proof (induction ts arbitrary: s w)
  case (Cons t ts)
  obtain s1 w1 l1 where 1: "run_task handler t s w = Inr (s1, w1, concat (map sent_for l1))" "replay handler w l1 = Some w1"
    "works cs s1" "map fst l1 = task_calls [t]" "requestsQueue s1 = requestsQueue s"
    using run_task_logged [OF assms Cons.prems, of t w] by blast
  obtain s2 w2 l2 where 2: "run_tasks handler ts s1 w1 = Inr (s2, w2, concat (map sent_for l2))" "replay handler w1 l2 = Some w2"
    "works cs s2" "map fst l2 = task_calls ts" "requestsQueue s2 = requestsQueue s1"
    using Cons.IH [OF 1(3), of w1] by blast
  have "map fst (l1 @ l2) = task_calls (t # ts)" using 1(4) 2(4) task_calls_append [of "[t]" ts] by simp
  with 1 2 show ?case by (intro exI [of _ s2] exI [of _ w2] exI [of _ "l1 @ l2"]) (simp add: replay_append)
qed simp

lemma worker_turn_logged:
  assumes "defined_handler handler" and inv: "worker_inv handler w0 cs reqs log (rt, w, sent)"
  shows "\<exists>rt' w' log' out. worker_turn handler rt w = Inr (rt', w', out) \<and>
    worker_inv handler w0 cs reqs log' (rt', w', sent @ out) \<and> requestsQueue (rt_server rt') = [] \<and>
    rt_tasks rt' = map CallTask (requestsQueue (rt_server rt))"
proof -
  have works: "works cs (rt_server rt)" using inv by (simp add: worker_inv_def)
  obtain s' w' l where run: "run_tasks handler (rt_tasks rt) (rt_server rt) w = Inr (s', w', concat (map sent_for l))"
      "replay handler w l = Some w'"
    and s': "works cs s'" "map fst l = task_calls (rt_tasks rt)" "requestsQueue s' = requestsQueue (rt_server rt)"
    using run_tasks_logged [OF assms(1) works] by blast
  define rt' where "rt' = \<lparr>rt_server = s'\<lparr>requestsQueue := []\<rparr>, rt_tasks = map CallTask (requestsQueue (rt_server rt))\<rparr>"
  have "drain_queue s' = (s'\<lparr>requestsQueue := []\<rparr>, requestsQueue (rt_server rt))"
    using s' by (simp add: works_def drain_queue_all)
  then have "worker_turn handler rt w = Inr (rt', w', concat (map sent_for l))"
    using run(1) works by (simp add: worker_turn_def works_def rt'_def)
  moreover have "works cs (rt_server rt')" using s'(1) by (simp add: works_def queue_ok_def rt'_def)
  moreover have "map (arrived_as \<circ> fst) l = map arrived_as (task_calls (rt_tasks rt))" by (simp flip: s'(2))
  ultimately have "worker_inv handler w0 cs reqs (log @ l) (rt', w', sent @ concat (map sent_for l))"
    using run(2) inv by (simp add: worker_inv_def rt'_def replay_append)
  moreover note \<open>worker_turn handler rt w = _\<close>
  ultimately show ?thesis by (auto simp: rt'_def)
qed

lemma decode_Request_defined: "decode_Request d \<noteq> Inl UndefinedAccess"
  by (simp add: decode_Request_def Let_def)

lemma arrives_accepted:
  assumes "works cs (rt_server rt)" and "defined_parsers cs"
  shows "(case runtime_onData addr mv sub d rt of
      Inr (rt', _) \<Rightarrow> rt_tasks rt' = rt_tasks rt \<and> works cs (rt_server rt') \<and>
        map arrived_as (requestsQueue (rt_server rt')) = map arrived_as (requestsQueue (rt_server rt)) @
          (case accepted cs (Arrives addr mv sub d) of None \<Rightarrow> [] | Some a \<Rightarrow> [a])
    | Inl e \<Rightarrow> e \<noteq> UndefinedAccess \<and> accepted cs (Arrives addr mv sub d) = None)"
proof (cases "is_response d")
  case True
  then show ?thesis using assms(1) by (simp add: runtime_onData_def rmc_onData_def works_def accepted_def)
next
  case False
  note live = assms(1) [unfolded works_def]
  show ?thesis
  proof (cases "decode_Request d")
    case (Inl e)
    then show ?thesis
      using False live decode_Request_defined [of d] assms(1)
      by (cases e) (simp_all add: runtime_onData_def rmc_onData_def accepted_def)
  next
    case (Inr rp)
    obtain req payload where rp: "rp = (req, payload)" by (cases rp)
    show ?thesis
    proof (cases "cs (call_key req)")
      case None
      then show ?thesis using False Inr rp live assms(1)
        by (simp add: runtime_onData_def rmc_onData_def accepted_def handle_request_def)
    next
      case (Some parser)
      show ?thesis
      proof (cases "parser mv payload")
        case (Inl e)
        have "parser mv payload \<noteq> Inl UndefinedAccess" using assms(2) Some unfolding defined_parsers_def by metis
        with Inl False Inr rp live Some assms(1) show ?thesis
          by (cases e) (simp_all add: runtime_onData_def rmc_onData_def accepted_def handle_request_def)
      next
        case (Inr p)
        then show ?thesis using False \<open>decode_Request d = Inr rp\<close> rp live Some
          by (simp add: runtime_onData_def rmc_onData_def accepted_def handle_request_def works_def enqueue_ok)
             (simp add: enqueue_def Let_def arrived_as_def)
      qed
    qed
  qed
qed

lemma worker_event_logged:
  assumes "defined_handler handler" and "defined_parsers cs" and inv: "worker_inv handler w0 cs reqs log x"
  shows "\<exists>x' log'. worker_event handler e x = Inr x' \<and>
    worker_inv handler w0 cs (reqs @ (case accepted cs e of None \<Rightarrow> [] | Some a \<Rightarrow> [a])) log' x'"
proof -
  obtain rt w sent where x: "x = (rt, w, sent)" by (cases x)
  note inv' = inv [unfolded x]
  show ?thesis
  proof (cases e)
    case (Arrives addr mv sub d)
    have "works cs (rt_server rt)" using inv' by (simp add: worker_inv_def)
    note a = arrives_accepted [OF this assms(2), of addr mv sub d]
    show ?thesis
    proof (cases "runtime_onData addr mv sub d rt")
      case (Inl ex)
      then show ?thesis using a inv' by (cases ex) (auto simp: worker_event_def x Arrives)
    next
      case (Inr q)
      obtain rt' out where q: "q = (rt', out)" by (cases q)
      then have "worker_inv handler w0 cs (reqs @ (case accepted cs e of None \<Rightarrow> [] | Some a \<Rightarrow> [a])) log (rt', w, sent)"
        using a inv' Inr by (auto simp: worker_inv_def Arrives)
      then show ?thesis using Inr q by (auto simp: worker_event_def x Arrives)
    qed
  next
    case Turn
    obtain rt' w' log' out where "worker_turn handler rt w = Inr (rt', w', out)"
      "worker_inv handler w0 cs reqs log' (rt', w', sent @ out)"
      using worker_turn_logged [OF assms(1) inv'] by blast
    then show ?thesis by (auto simp: worker_event_def x Turn accepted_def)
  qed (use inv' in \<open>auto simp: worker_event_def x accepted_def worker_inv_def scheduleOnConnect_def
        scheduleOnDisconnect_def schedule_def intro!: exI [of _ log]\<close>)
qed

lemma worker_events_logged:
  assumes "defined_handler handler" and "defined_parsers cs"
  shows "worker_inv handler w0 cs reqs log x \<Longrightarrow> \<exists>x' log'. worker_events handler es x = Inr x' \<and>
    worker_inv handler w0 cs (reqs @ List.map_filter (accepted cs) es) log' x'"
proof (induction es arbitrary: x reqs log)
  case (Cons e es)
  obtain x1 log1 where x1: "worker_event handler e x = Inr x1"
    "worker_inv handler w0 cs (reqs @ (case accepted cs e of None \<Rightarrow> [] | Some a \<Rightarrow> [a])) log1 x1"
    using worker_event_logged [OF assms Cons.prems] by blast
  from Cons.IH [OF x1(2)] x1(1) show ?case by (cases "accepted cs e") (auto simp: List.map_filter_simps)
qed (auto simp: List.map_filter_simps)

text \<open>Two more turns, and nothing is left to do.\<close>

lemma worker_done:
  assumes "defined_handler handler" and inv: "worker_inv handler w0 cs reqs log0 x"
  shows "\<exists>rt w log. worker_events handler [Turn, Turn] x = Inr (rt, w, concat (map sent_for log)) \<and>
    replay handler w0 log = Some w \<and> rt_tasks rt = [] \<and> requestsQueue (rt_server rt) = [] \<and>
    map (arrived_as \<circ> fst) log = reqs"
proof -
  obtain rt w sent where x: "x = (rt, w, sent)" by (cases x)
  obtain rt1 w1 log1 out1 where 1: "worker_turn handler rt w = Inr (rt1, w1, out1)"
    "worker_inv handler w0 cs reqs log1 (rt1, w1, sent @ out1)" "requestsQueue (rt_server rt1) = []"
    using worker_turn_logged [OF assms(1) inv [unfolded x]] by blast
  obtain rt2 w2 log2 out2 where 2: "worker_turn handler rt1 w1 = Inr (rt2, w2, out2)"
    "worker_inv handler w0 cs reqs log2 (rt2, w2, (sent @ out1) @ out2)" "requestsQueue (rt_server rt2) = []"
    "rt_tasks rt2 = map CallTask (requestsQueue (rt_server rt1))"
    using worker_turn_logged [OF assms(1) 1(2)] by blast
  have "rt_tasks rt2 = []" using 1(3) 2(4) by simp
  then show ?thesis using 1(1) 2(1-3) by (auto simp: x worker_event_def worker_inv_def comp_def)
qed

end
