(* ===== verification/PrudpFaults.thy ===== *)
theory PrudpFaults
  imports PrudpSending
begin

text \<open>
  What the receiving half does outside its contract: fragmented messages, substreams that are not
  checked, and the end of the sequence ids.
\<close>

section \<open>A queue whose head has been counted\<close>

text \<open>
  \<open>room\<close> more packets fit the queue, and its first packet carries an id that was taken already. Such
  a queue never moves again.
\<close>

definition blocked :: "PRUDPAddress \<Rightarrow> u8 \<Rightarrow> nat \<Rightarrow> 'r PrudpServer \<Rightarrow> bool" where
  "blocked addr sub room s \<longleftrightarrow> (\<exists>c st. clients s addr = Some c \<and> pinged addr c s \<and>
     unat sub < length (substreams c) \<and> st = substreams c ! unat sub \<and> packetQueue st \<noteq> [] \<and>
     seqId (hd (packetQueue st)) \<le> recvSeqId st \<and>
     length (packetQueue st) + room \<le> MAX_PACKET_QUEUE_SIZE + 1)"

lemma length_queue_insert: "length (queue_insert p q) \<le> Suc (length q)"
  by (induction q) auto

lemma hd_queue_insert:
  "q \<noteq> [] \<Longrightarrow> seqId (hd q) < seqId p \<Longrightarrow> queue_insert p q \<noteq> [] \<and> hd (queue_insert p q) = hd q"
proof (cases q)
  case (Cons x xs)
  assume "seqId (hd q) < seqId p"
  then have "\<not> seqId p \<le> seqId x" "\<not> seqId p < seqId x" by (simp_all add: Cons)
  then show ?thesis by (simp add: Cons del: not_le not_less)
qed simp

lemma queue_loop_blocked:
  assumes "clients s addr = Some c" "unat sub < length (substreams c)"
    and "q \<noteq> []" "seqId (hd q) \<le> recvSeqId (substreams c ! unat sub)"
  shows "queue_loop ev addr sub agg q [] s = (Inr (False, []), s)"
proof -
  obtain p ps where q: "q = p # ps" using assms(3) by (cases q) auto
  have "unat (seqId p) \<noteq> unat (recvSeqId (substreams c ! unat sub)) + 1"
    using assms(4) by (simp add: q word_le_nat_alt)
  then show ?thesis
    by (simp add: q queue_loop.simps queue_step_def read_sub_apply [OF assms(1,2)])
qed

lemma processPacketQueue_blocked:
  assumes "clients s addr = Some c" "unat sub < length (substreams c)"
    and "packetQueue (substreams c ! unat sub) \<noteq> []"
    and "seqId (hd (packetQueue (substreams c ! unat sub))) \<le> recvSeqId (substreams c ! unat sub)"
  shows "processPacketQueue ev addr sub s = (Inr (), s)"
  using queue_loop_blocked [OF assms] assms(1,2)
  by (simp add: processPacketQueue_def get_sub_def Let_def)

text \<open>What follows a reliable packet: the ping is put off, and nothing else happens.\<close>

lemma blocked_ping:
  assumes "blocked addr sub room s"
  shows "\<exists>s'. resetPingTask ev addr s = (Inr (), s') \<and> blocked addr sub room s' \<and> rmc s' = rmc s
    \<and> majorVersion s' = majorVersion s"
proof -
  obtain c where c: "clients s addr = Some c" "pinged addr c s"
    and q: "unat sub < length (substreams c)" "packetQueue (substreams c ! unat sub) \<noteq> []"
      "seqId (hd (packetQueue (substreams c ! unat sub))) \<le> recvSeqId (substreams c ! unat sub)"
      "length (packetQueue (substreams c ! unat sub)) + room \<le> MAX_PACKET_QUEUE_SIZE + 1"
    using assms by (auto simp: blocked_def)
  from resetPingTask_pinged [OF c, of ev] obtain t m where
    *: "resetPingTask ev addr s = (Inr (), (set_client addr (c\<lparr>nextPing := t\<rparr>) s)\<lparr>delayedPackets := m\<rparr>)"
      "pinged addr (c\<lparr>nextPing := t\<rparr>) ((set_client addr (c\<lparr>nextPing := t\<rparr>) s)\<lparr>delayedPackets := m\<rparr>)" by blast
  then have "blocked addr sub room ((set_client addr (c\<lparr>nextPing := t\<rparr>) s)\<lparr>delayedPackets := m\<rparr>)"
    using q by (simp add: blocked_def set_client_def)
  with * show ?thesis by (simp add: set_client_def)
qed

lemma blocked_reliable:
  assumes cr: "crypto_ok (crypto ev)" and bl: "blocked addr sub (Suc room) s"
    and p: "packet_substream s p = sub"
  shows "\<exists>s'. process_reliable ev addr p s = (Inr (), s') \<and> blocked addr sub room s' \<and> rmc s' = rmc s
    \<and> majorVersion s' = majorVersion s"
proof -
  obtain c where c: "clients s addr = Some c" "pinged addr c s" and sub: "unat sub < length (substreams c)"
    and q: "packetQueue (substreams c ! unat sub) \<noteq> []"
      "seqId (hd (packetQueue (substreams c ! unat sub))) \<le> recvSeqId (substreams c ! unat sub)"
      "length (packetQueue (substreams c ! unat sub)) + Suc room \<le> MAX_PACKET_QUEUE_SIZE + 1"
    using bl by (auto simp: blocked_def)
  let ?st = "substreams c ! unat sub"
  have few: "\<not> MAX_PACKET_QUEUE_SIZE < length (packetQueue ?st)" using q(3) by simp
  show ?thesis
  proof (cases "seqId p \<le> recvSeqId ?st")
    case True
    obtain ds where ds: "send_ack ev addr p s = (Inr (), add_sent ds s)"
      using send_ack_silent [OF cr c(1)] by blast
    have "blocked addr sub room (add_sent ds s)"
      using bl by (auto simp: blocked_def pinged_def)
    from blocked_ping [OF this] ds True few p show ?thesis
      by (auto simp: process_reliable_def Let_def read_sub_apply [OF c(1) sub])
  next
    case False
    let ?q = "queue_insert p (packetQueue ?st)"
    let ?c = "upd_sub sub (\<lambda>st. st\<lparr>packetQueue := queue_insert p (packetQueue st)\<rparr>) c"
    let ?s = "set_client addr ?c s"
    have hd: "?q \<noteq> []" "hd ?q = hd (packetQueue ?st)"
      using hd_queue_insert [OF q(1), of p] q(2) False by auto
    have c': "clients ?s addr = Some ?c" by (simp add: set_client_def)
    have "processPacketQueue ev addr sub ?s = (Inr (), ?s)"
      by (rule processPacketQueue_blocked [OF c']) (use sub hd q(2) in simp_all)
    moreover have "blocked addr sub room ?s"
      using c(2) sub hd q length_queue_insert [of p "packetQueue ?st"]
      by (simp add: blocked_def set_client_def pinged_def)
    from blocked_ping [OF this] obtain s' where "resetPingTask ev addr ?s = (Inr (), s')"
      "blocked addr sub room s'" "rmc s' = rmc s" "majorVersion s' = majorVersion s"
      by (auto simp: set_client_def)
    ultimately show ?thesis
      using False few p
      by (simp add: process_reliable_def Let_def read_sub_apply [OF c(1) sub] modify_sub_apply [OF c(1)])
  qed
qed

lemma blocked_all:
  assumes "crypto_ok (crypto ev)"
  shows "blocked addr sub (length ps) s \<Longrightarrow> \<forall>p \<in> set ps. packet_substream s p = sub \<Longrightarrow>
    \<exists>s'. forS ps (process_reliable ev addr) s = (Inr (), s') \<and> rmc s' = rmc s"
proof (induction ps arbitrary: s)
  case (Cons p ps)
  from blocked_reliable [OF assms, of addr sub "length ps" s p] Cons.prems obtain s1 where
    s1: "process_reliable ev addr p s = (Inr (), s1)" "blocked addr sub (length ps) s1" "rmc s1 = rmc s"
      "majorVersion s1 = majorVersion s" by auto
  have "\<forall>p \<in> set ps. packet_substream s1 p = sub"
    using Cons.prems(2) s1(4) by (simp add: packet_substream_def)
  from Cons.IH [OF s1(2) this] s1 show ?case by auto
qed simp

section \<open>The first fragment blocks its substream\<close>

text \<open>An idle substream: nothing waits in its queue.\<close>

definition idle :: "PRUDPAddress \<Rightarrow> u8 \<Rightarrow> u16 \<Rightarrow> 'r PrudpServer \<Rightarrow> bool" where
  "idle addr sub r s \<longleftrightarrow> (\<exists>c. clients s addr = Some c \<and> pinged addr c s \<and>
     unat sub < length (substreams c) \<and> packetQueue (substreams c ! unat sub) = [] \<and>
     recvSeqId (substreams c ! unat sub) = r)"

definition first_fragment :: "u16 \<Rightarrow> Packet \<Rightarrow> bool" where
  "first_fragment r p \<longleftrightarrow> p_type p = DATA \<and> fragmentId p = 1 \<and> unat (seqId p) = unat r + 1"

lemma first_fragment_blocks:
  assumes cr: "crypto_ok (crypto ev)" and idle: "idle addr sub r s"
    and p: "first_fragment r p" "packet_substream s p = sub" and room: "room \<le> MAX_PACKET_QUEUE_SIZE"
  shows "\<exists>s'. process_reliable ev addr p s = (Inr (), s') \<and> blocked addr sub room s' \<and> rmc s' = rmc s
    \<and> majorVersion s' = majorVersion s"
proof -
  obtain c where c: "clients s addr = Some c" "pinged addr c s" and sub: "unat sub < length (substreams c)"
    and q: "packetQueue (substreams c ! unat sub) = []" "recvSeqId (substreams c ! unat sub) = r"
    using idle by (auto simp: idle_def)
  define c1 where "c1 = upd_sub sub (\<lambda>st. st\<lparr>packetQueue := queue_insert p (packetQueue st)\<rparr>) c"
  define s1 where "s1 = set_client addr c1 s"
  have c1: "clients s1 addr = Some c1" "unat sub < length (substreams c1)"
    "packetQueue (substreams c1 ! unat sub) = [p]" "recvSeqId (substreams c1 ! unat sub) = r"
    using sub q by (simp_all add: s1_def c1_def set_client_def)
  have new: "recvSeqId (substreams c1 ! unat sub) < seqId p"
    using p(1) by (simp add: c1(4) first_fragment_def word_less_nat_alt)
  define agg where "agg \<longleftrightarrow> majorVersion s1 = 1 \<and> 1 \<le> cl_minorVersion c1"
  have ty: "p_type p = DATA" using p(1) by (simp add: first_fragment_def)
  from ack_fragment_new [OF cr c1(1,2) new ty, of agg "[]"] obtain acked es where
    ack: "ack_fragment ev addr sub agg p [] s1 = (Inr acked,
      set_client addr (upd_sub sub (\<lambda>st. st\<lparr>recvSeqId := recvSeqId st + 1\<rparr>) c1) (add_sent es s1))" by blast
  define c2 where "c2 = upd_sub sub (\<lambda>st. st\<lparr>recvSeqId := recvSeqId st + 1\<rparr>) c1"
  define s2 where "s2 = set_client addr c2 (add_sent es s1)"
  have walk: "walk_fragments ev addr sub agg p [] False [] s1 = (Inr (False, False, acked), s2)"
    using ack p(1) by (subst walk_fragments.simps) (simp add: s2_def c2_def first_fragment_def)
  have step: "queue_step ev addr sub agg p [] [] s1 = (Inr (Stop False acked), s2)"
    using walk p(1) c1(4) by (simp add: queue_step_def read_sub_apply [OF c1(1,2)] first_fragment_def)
  have loop: "queue_loop ev addr sub agg [p] [] s1 = (Inr (False, acked), s2)"
    using step by (simp add: queue_loop.simps)
  have c2: "clients s2 addr = Some c2" by (simp add: s2_def set_client_def)
  obtain ds where ds: "send_aggregate ev addr sub acked s2 = (Inr (), add_sent ds s2)"
    using send_aggregate_silent [OF c2] by blast
  obtain fs where proc: "processPacketQueue ev addr sub s1 = (Inr (), add_sent fs s2)"
  proof (cases "agg \<and> acked \<noteq> []")
    case True
    then have "processPacketQueue ev addr sub s1 = (Inr (), add_sent ds s2)"
      using c1 loop ds by (simp add: processPacketQueue_def get_sub_def Let_def agg_def)
    then show ?thesis by (rule that)
  next
    case False
    then have "processPacketQueue ev addr sub s1 = (Inr (), add_sent [] s2)"
      using c1 loop by (auto simp: processPacketQueue_def get_sub_def Let_def agg_def)
    then show ?thesis by (rule that)
  qed
  have "unat (recvSeqId (substreams c2 ! unat sub)) = unat r + 1"
    using p(1) c1 unat_word_bounds(2) [of "seqId p"]
    by (simp add: c2_def first_fragment_def unat_word_ariths)
  then have "blocked addr sub room (add_sent fs s2)"
    using c(2) c1 p(1) room c2
    by (auto simp: blocked_def s2_def c2_def s1_def c1_def pinged_def first_fragment_def
        word_le_nat_alt MAX_PACKET_QUEUE_SIZE_def set_client_def)
  from blocked_ping [OF this] obtain s' where s': "resetPingTask ev addr (add_sent fs s2) = (Inr (), s')"
    "blocked addr sub room s'" "rmc s' = rmc s2" "majorVersion s' = majorVersion s2" by auto
  have "process_reliable ev addr p s = (Inr (), s')"
    using p c q proc s'(1) less_le_not_le [THEN iffD1, OF new [unfolded c1(4)]]
    by (simp add: process_reliable_def Let_def read_sub_apply [OF c(1) sub] modify_sub_apply [OF c(1)]
        MAX_PACKET_QUEUE_SIZE_def del: not_le flip: c1_def s1_def)
  then show ?thesis using s' by (auto simp: s2_def s1_def set_client_def)
qed

lemma fragments_in_order_lost:
  assumes cr: "crypto_ok (crypto ev)" and "idle addr sub r s" and "first_fragment r p"
    and sub: "\<forall>q \<in> set (p # ps). packet_substream s q = sub" and "length ps \<le> MAX_PACKET_QUEUE_SIZE"
  shows "\<exists>s'. forS (p # ps) (process_reliable ev addr) s = (Inr (), s') \<and> rmc s' = rmc s"
proof -
  from first_fragment_blocks [OF cr assms(2,3) _ assms(5)] sub obtain s1 where
    s1: "process_reliable ev addr p s = (Inr (), s1)" "blocked addr sub (length ps) s1" "rmc s1 = rmc s"
      "majorVersion s1 = majorVersion s" by auto
  have "\<forall>q \<in> set ps. packet_substream s1 q = sub"
    using sub s1(4) by (simp add: packet_substream_def)
  from blocked_all [OF cr s1(2) this] s1 show ?thesis by auto
qed

section \<open>A packet shorter than its length\<close>

text \<open>
  A SYN packet of 15 bytes is said to be 16 bytes long; what is erased from the datagram then reaches
  behind its end. With a wrong signature the packet itself does nothing.
\<close>

lemma short_syn_undefined:
  assumes "majorVersion s = 0" and d: "length d = 15" "slice d 2 2 = [0, 0]" "slice d 5 4 \<noteq> replicate 4 0"
    and sum: "last d = calculateChecksum d (sv_accessKey s)"
  shows "packets_loop ev a d s = (Inl UndefinedAccess, s)"
proof -
  define q where "q = fresh_packet s"
  define r where "r = q\<lparr>srcPort := d ! 0 AND 0xF, srcStreamType := drop_bit 4 (d ! 0), dstPort := d ! 1 AND 0xF,
    dstStreamType := drop_bit 4 (d ! 1), p_flags := 0, p_type := SYN, sessionId := d ! 4,
    p_signature := slice d 5 4, seqId := le_word (slice d 9 2), remoteSignature := slice d 11 4\<rparr>"
  have q: "isV1 q = False" "p_accessKey q = sv_accessKey s" "connectionSignature q = []"
    using assms(1) by (simp_all add: q_def fresh_packet_def new_packet_def v1_def)
  have "type_of_code (le_word (slice d 2 2) AND 0xF :: u16) = Some SYN"
    by (simp add: d(2) le_word_def type_of_code_def)
  moreover have "(le_word (slice d 2 2) :: u16) = 0" by (simp add: d(2) le_word_def)
  ultimately have "decodeV0 q d = Inr (r, 16)"
    using d sum q(2)
    by (simp add: decodeV0_def headerV0_def decode_specificV0_def decode_payloadV0_def has_flag_def r_def Let_def)
  then have dec: "decode_packet q d = Inr (r, 16)" using q(1) by (simp add: decode_packet_def)
  have "with_session ev s (prudp_address a r) r = r"
    by (simp add: with_session_def r_def Let_def split: option.split)
  moreover have "\<not> checkSignature (crypto ev) r"
    using d(3) q by (simp add: checkSignature_def checkSignatureV0_def calculateSignatureV0_def or_zeros_def r_def)
  ultimately have "processPacket ev a r s = (Inr (), s)" by (simp add: processPacket_def Let_def)
  moreover have "d \<noteq> []" using d(1) by auto
  ultimately show ?thesis using dec d(1) by (subst packets_loop.simps) (simp flip: q_def)
qed

lemma short_syn_datagram:
  assumes "majorVersion s = 0" and d: "length d = 15" "slice d 2 2 = [0, 0]" "slice d 5 4 \<noteq> replicate 4 0"
    and sum: "last d = calculateChecksum d (sv_accessKey s)"
  shows "fst (onData ev a d s) = Inl UndefinedAccess"
proof -
  have "slice d 2 2 ! 0 = d ! 2" using d(1) by (simp add: slice_def)
  then have "\<not> take 5 d ! 2 \<noteq> 0" using d(2) by simp
  then have "take (length proxy_magic) d \<noteq> proxy_magic"
  proof (rule contrapos_nn)
    assume same: "take (length proxy_magic) d = proxy_magic"
    have "take (length proxy_magic) d ! 2 = d ! 2" by (simp add: proxy_magic_def)
    then show "take 5 d ! 2 \<noteq> 0" unfolding same by (simp add: proxy_magic_def)
  qed
  then obtain s1 where r: "resolve_proxy a d s = (Inr (Some (a, d)), s1)"
    and s1: "majorVersion s1 = majorVersion s" "sv_accessKey s1 = sv_accessKey s"
    by (simp add: resolve_proxy_def)
  from short_syn_undefined [of s1 d ev a] assms s1 have "packets_loop ev a d s1 = (Inl UndefinedAccess, s1)" by simp
  with r show ?thesis by (simp add: onData_def bindS_def swallowS_def)
qed

end
