(* ===== verification/PrudpInvariant.thy ===== *)
theory PrudpInvariant
  imports PrudpSending
begin

text \<open>
  The invariant of \<^verbatim>\<open>nex::prudp::Server\<close>: the delayed packets are in the order of their time and have
  been sent again at most three times; every client has its substreams and an encoder for each, and
  the queue of a substream is ordered, free of duplicates and bounded. Every entry point keeps it.
\<close>

section \<open>The invariant\<close>

definition queue_fine :: "Packet list \<Rightarrow> bool" where
  "queue_fine q \<longleftrightarrow> sorted_wrt (<) (map seqId q) \<and> length q \<le> MAX_PACKET_QUEUE_SIZE + 1"

definition client_fine :: "u8 \<Rightarrow> PrudpClient \<Rightarrow> bool" where
  "client_fine m c \<longleftrightarrow> length (substreams c) = unat m + 1 \<and>
     length (encoders (cl_encoder c)) = unat m + 1 \<and>
     (\<forall>st \<in> set (substreams c). queue_fine (packetQueue st))"

definition delayed_fine :: "(int \<times> DelayedPacket) list \<Rightarrow> bool" where
  "delayed_fine m \<longleftrightarrow> sorted (map fst m) \<and> (\<forall>(t, d) \<in> set m. numRetries d \<le> MAX_RETRIES)"

text \<open>\<open>m\<close> is the configured maximum substream id, which never changes.\<close>

definition server_fine :: "u8 \<Rightarrow> 'r PrudpServer \<Rightarrow> bool" where
  "server_fine m s \<longleftrightarrow> sv_maxSubstreamId s = m \<and> delayed_fine (delayedPackets s) \<and>
     (\<forall>addr c. clients s addr = Some c \<longrightarrow> client_fine m c)"

lemma server_fineD:
  assumes "server_fine m s"
  shows "sv_maxSubstreamId s = m" and "delayed_fine (delayedPackets s)"
    and "clients s addr = Some c \<Longrightarrow> client_fine m c"
  using assms by (auto simp: server_fine_def)

section \<open>Queues\<close>

lemma set_queue_insert: "set (queue_insert p q) \<subseteq> insert p (set q)"
  by (induction q) auto

lemma sorted_queue_insert:
  "sorted_wrt (<) (map seqId q) \<Longrightarrow> sorted_wrt (<) (map seqId (queue_insert p q))"
proof (induction q)
  case (Cons x xs)
  then show ?case
    using set_queue_insert [of p xs] by (auto dest: less_trans)
qed simp

lemma length_queue_insert_le: "length (queue_insert p q) \<le> Suc (length q)"
  by (induction q) auto

lemma queue_fine_insert:
  "queue_fine q \<Longrightarrow> \<not> MAX_PACKET_QUEUE_SIZE < length q \<Longrightarrow> queue_fine (queue_insert p q)"
  using length_queue_insert_le [of p q] by (simp add: queue_fine_def sorted_queue_insert)

lemma queue_fine_drop: "queue_fine q \<Longrightarrow> queue_fine (drop n q)"
  by (auto simp: queue_fine_def sorted_wrt_drop simp flip: drop_map)

lemma after_run_drop: "after_run q = drop (length (run_of q)) q"
  by (cases q) (simp_all add: after_run_def run_of_def dropWhile_eq_drop)

lemma run_of_after_run: "run_of q @ after_run q = q"
  by (cases q) (simp_all add: after_run_def run_of_def)

lemma decryptData_seqId: "decryptData f p = Inr p' \<Longrightarrow> seqId p' = seqId p"
  by (auto simp: decryptData_def split: if_splits option.splits prod.splits)

lemma decrypt_run_seqIds: "decrypt_run e ps = Inr (ps', e') \<Longrightarrow> map seqId ps' = map seqId ps"
  by (induction ps arbitrary: e ps' e')
     (auto simp: bindE_eq_Inr_iff split: prod.splits dest: decryptData_seqId)

lemma queue_fine_decrypted:
  assumes "queue_fine q" and "decrypt_run e (run_of q) = Inr (run, e')"
  shows "queue_fine (run @ after_run q)"
proof -
  have "map seqId run = map seqId (run_of q)" by (rule decrypt_run_seqIds [OF assms(2)])
  then have ids: "map seqId (run @ after_run q) = map seqId q"
    using run_of_after_run [of q] by (metis map_append)
  then have "length (run @ after_run q) = length q" by (metis length_map)
  then show ?thesis using assms(1) ids by (simp only: queue_fine_def)
qed

section \<open>Steps on the state\<close>

lemma delayed_fine_insert:
  assumes "delayed_fine m" and "numRetries d \<le> MAX_RETRIES"
  shows "delayed_fine (insert_delayed t d m)"
proof -
  let ?P = "\<lambda>(u, _ :: DelayedPacket). u \<le> t"
  have s: "sorted (map fst m)" using assms(1) by (simp add: delayed_fine_def)
  have d: "sorted (map fst (takeWhile ?P m @ dropWhile ?P m))" using s by simp
  have "\<forall>x \<in> set (dropWhile ?P m). t \<le> fst x"
  proof (cases "dropWhile ?P m")
    case (Cons y ys)
    then have "\<not> ?P y" by (metis hd_dropWhile list.sel(1) list.distinct(1))
    then show ?thesis using d Cons by (auto simp: sorted_append)
  next
    case Nil
    then show ?thesis by (metis empty_iff list.set(1))
  qed
  moreover have "\<forall>x \<in> set (takeWhile ?P m). fst x \<le> t" by (auto dest: set_takeWhileD)
  moreover have "sorted (map fst (takeWhile ?P m))" "sorted (map fst (dropWhile ?P m))"
    using d by (simp_all only: map_append sorted_append)
  ultimately have "sorted (map fst (insert_delayed t d m))"
    unfolding insert_delayed_def by (simp add: sorted_append) (meson order_trans)
  moreover have "set (insert_delayed t d m) \<subseteq> insert (t, d) (set m)"
    by (auto simp: insert_delayed_def dest: set_takeWhileD set_dropWhileD)
  ultimately show ?thesis using assms by (auto simp: delayed_fine_def)
qed

lemma delayed_fine_filter: "delayed_fine m \<Longrightarrow> delayed_fine (filter P m)"
  by (auto simp: delayed_fine_def sorted_filter)

lemma delayed_fine_append:
  "delayed_fine (xs @ y # ys) \<Longrightarrow> delayed_fine (xs @ ys)"
  by (auto simp: delayed_fine_def sorted_append)

lemma client_fine_upd:
  assumes "client_fine m c" and "queue_fine (packetQueue (substreams c ! unat sub)) \<Longrightarrow>
      queue_fine (packetQueue (f (substreams c ! unat sub)))"
  shows "client_fine m (upd_sub sub f c)"
proof (cases "unat sub < length (substreams c)")
  case True
  then have "substreams c ! unat sub \<in> set (substreams c)" by simp
  then show ?thesis
    using assms set_update_subset_insert [of "substreams c" "unat sub" "f (substreams c ! unat sub)"]
    by (auto simp: client_fine_def upd_sub_def)
next
  case False
  then have "(substreams c)[unat sub := f (substreams c ! unat sub)] = substreams c"
    by (simp add: list_update_beyond not_less)
  then show ?thesis using assms(1) by (simp add: client_fine_def upd_sub_def)
qed

lemma server_fine_set_client:
  "server_fine m s \<Longrightarrow> client_fine m c \<Longrightarrow> server_fine m (set_client addr c s)"
  by (auto simp: server_fine_def set_client_def)

text \<open>A field the invariant does not look at.\<close>

lemma server_fine_others [simp]:
  "server_fine m (s\<lparr>rmc := r\<rparr>) = server_fine m s"
  "server_fine m (s\<lparr>nextSessionId := n\<rparr>) = server_fine m s"
  "server_fine m (s\<lparr>proxyMap := pm\<rparr>) = server_fine m s"
  "server_fine m (sendBytes a d s) = server_fine m s"
  "server_fine m (s\<lparr>registeredServers := rs\<rparr>) = server_fine m s"
  by (simp_all add: server_fine_def sendBytes_def)

lemma server_fine_delayed:
  "server_fine m s \<Longrightarrow> delayed_fine q \<Longrightarrow> server_fine m (s\<lparr>delayedPackets := q\<rparr>)"
  by (auto simp: server_fine_def)

lemma server_fine_delay:
  "server_fine m s \<Longrightarrow> numRetries d \<le> MAX_RETRIES \<Longrightarrow> server_fine m (delay t d s)"
  unfolding delay_def by (rule server_fine_delayed) (auto intro: delayed_fine_insert dest: server_fineD)

lemma server_fine_close: "server_fine m s \<Longrightarrow> server_fine m (closeClientConnection addr s)"
  by (auto simp: server_fine_def closeClientConnection_def Let_def delayed_fine_filter
      split: option.splits)

lemma client_fine_fields [simp]:
  "client_fine m (c\<lparr>nextPing := t\<rparr>) = client_fine m c"
  "client_fine m (c\<lparr>unreliableSeqId := q\<rparr>) = client_fine m c"
  "client_fine m (c\<lparr>cl_encoder := setReliableEncoder sub e (cl_encoder c)\<rparr>) = client_fine m c"
  by (simp_all add: client_fine_def setReliableEncoder_def)

section \<open>Every routine keeps it\<close>

lemma keeps_reading: "(\<And>s. I s \<Longrightarrow> keeps I (f s)) \<Longrightarrow> keeps I (readS f)"
  unfolding keeps_def readS_apply by blast

lemma bindS_liftS: "bindS (liftS (Inr a)) f = f a" "bindS (liftS (Inl e)) f = throwS e"
  by (simp_all add: fun_eq_iff)

lemma keeps_bind_lift: "(\<And>a. r = Inr a \<Longrightarrow> keeps I (f a)) \<Longrightarrow> keeps I (bindS (liftS r) f)"
  by (cases r) (simp_all only: bindS_liftS keeps_throw)

text \<open>Routines that read a client first.\<close>

lemma keeps_client:
  assumes "keeps (server_fine m) none"
    and "\<And>s c. server_fine m s \<Longrightarrow> client_fine m c \<Longrightarrow> keeps (server_fine m) (f s c)"
  shows "keeps (server_fine m) (readS (\<lambda>s. case clients s addr of None \<Rightarrow> none | Some c \<Rightarrow> f s c))"
  by (rule keeps_reading) (use assms in \<open>auto split: option.splits dest: server_fineD(3)\<close>)

lemma keeps_read_sub:
  assumes "\<And>c st. client_fine m c \<Longrightarrow> queue_fine (packetQueue st) \<Longrightarrow> keeps (server_fine m) (f c st)"
  shows "keeps (server_fine m) (read_sub addr sub f)"
  unfolding read_sub_def
  by (rule keeps_client [OF keeps_throw], rule keeps_bind_lift)
     (use assms in \<open>auto simp: get_sub_def client_fine_def split: if_splits\<close>)

lemma keeps_modify_sub:
  assumes "\<And>st. queue_fine (packetQueue st) \<Longrightarrow> queue_fine (packetQueue (f st))"
  shows "keeps (server_fine m) (modify_sub addr sub f)"
  unfolding modify_sub_def
  by (rule keeps_modify)
     (use assms in \<open>auto intro!: server_fine_set_client client_fine_upd dest: server_fineD(3)
        split: option.splits\<close>)

lemma keeps_remember: "keeps (server_fine m) (remember_packet ev addr p)"
  unfolding remember_packet_def Let_def
  by (rule keeps_client [OF keeps_return], rule keeps_bind_lift, rule keeps_modify)
     (auto intro!: server_fine_delay server_fine_set_client client_fine_upd)

lemma keeps_send_fragment: "keeps (server_fine m) (send_fragment ev addr e p)"
  unfolding send_fragment_def
  by (auto intro!: keeps_bind_lift keeps_seq keeps_if keeps_remember keeps_return keeps_modify
      split: prod.splits)

lemma keeps_send_fragments: "keeps (server_fine m) (send_fragments ev addr e ps)"
  by (induction ps arbitrary: e) (auto intro: keeps_return keeps_bind keeps_send_fragment)

lemma keeps_sendPacket: "keeps (server_fine m) (sendPacket ev addr p)"
  unfolding sendPacket_def by (rule keeps_send_fragments)

lemma keeps_store_encoder: "keeps (server_fine m) (store_encoder addr sub e)"
  unfolding store_encoder_def
  by (rule keeps_modify)
     (auto intro!: server_fine_set_client dest: server_fineD(3) split: option.splits)

lemma keeps_sendDataPacket: "keeps (server_fine m) (sendDataPacket ev addr d sub)"
  unfolding sendDataPacket_def Let_def
  by (rule keeps_client [OF keeps_return])
     (auto intro!: keeps_bind_lift keeps_bind keeps_seq keeps_modify keeps_sendPacket
        keeps_store_encoder server_fine_set_client client_fine_upd)

lemma keeps_deleteNonAcked: "keeps (server_fine m) (deleteNonAckedPacket addr sq sub)"
  unfolding deleteNonAckedPacket_def
  by (rule keeps_client [OF keeps_return], rule keeps_bind_lift)
     (auto intro!: keeps_option keeps_return keeps_modify server_fine_delayed server_fine_set_client
        client_fine_upd delayed_fine_filter dest: server_fineD)

lemma keeps_resetPing: "keeps (server_fine m) (resetPingTask ev addr)"
proof (rule keepsI)
  fix s r s' assume I: "server_fine m s" and run: "resetPingTask ev addr s = (r, s')"
    and ok: "r \<noteq> Inl UndefinedAccess"
  show "server_fine m s'"
  proof (cases "clients s addr")
    case None
    then show ?thesis using run I by (simp add: resetPingTask_def)
  next
    case (Some c)
    then obtain bef u d aft where
      ex: "List.extract (is_ping_task (nextPing c) addr) (delayedPackets s) = Some (bef, (u, d), aft)"
      using run ok by (auto simp: resetPingTask_def split: option.splits)
    then have "delayedPackets s = bef @ (u, d) # aft" by (auto dest: extract_SomeE)
    then have "delayed_fine (bef @ aft)" using server_fineD(2) [OF I] delayed_fine_append by metis
    then have "delayed_fine (insert_delayed (steady ev + PING_INTERVAL) (restart_ping d) (bef @ aft))"
      by (rule delayed_fine_insert) (simp add: restart_ping_def)
    then show ?thesis
      using run Some ex I server_fineD(3) [OF I Some]
      by (auto simp: resetPingTask_def Let_def intro!: server_fine_delayed server_fine_set_client)
  qed
qed

lemmas keeps_sending = keeps_sendPacket keeps_store_encoder keeps_sendDataPacket keeps_deleteNonAcked
  keeps_resetPing

lemma keeps_send_ack: "keeps (server_fine m) (send_ack ev addr p)"
  unfolding send_ack_def
  by (rule keeps_client [OF keeps_throw]) (auto intro: keeps_intros keeps_sendPacket)

lemma keeps_send_aggregate: "keeps (server_fine m) (send_aggregate ev addr sub acked)"
  unfolding send_aggregate_def
  by (rule keeps_client [OF keeps_throw]) (auto intro: keeps_intros keeps_sendPacket)

subsection \<open>Connections\<close>

lemma client_fine_new:
  assumes "PayloadEncoder_init key m = Inr pe" and "sv_maxSubstreamId s = m"
  shows "client_fine m (new_client ev s p info pe)"
proof -
  have "substream_encoders n k = Inr es \<Longrightarrow> length es = n" for n k es
    by (induction n arbitrary: k es) (auto simp: bindE_eq_Inr_iff)
  then have "length (encoders pe) = unat m + 1"
    using assms(1) by (auto simp: PayloadEncoder_init_def bindE_eq_Inr_iff split: if_splits)
  moreover have "queue_fine (packetQueue new_substream)" by (simp add: queue_fine_def new_substream_def)
  ultimately show ?thesis using assms(2) by (simp add: client_fine_def new_client_def)
qed

lemma server_fine_add_client:
  "server_fine m s \<Longrightarrow> client_fine m c \<Longrightarrow> server_fine m (add_client addr c s)"
  by (auto simp: server_fine_def add_client_def split: option.splits)

lemma keeps_mark_connected: "keeps (server_fine m) (mark_connected addr sub)"
  unfolding mark_connected_def
  by (rule keeps_client [OF keeps_throw], rule keeps_bind_lift, rule keeps_modify)
     (auto intro!: server_fine_set_client client_fine_upd)

lemma keeps_accept_client: "keeps (server_fine m) (accept_client ev addr p info)"
  unfolding accept_client_def
proof (intro keeps_seq keeps_reading keeps_bind_lift keeps_modify keeps_mark_connected keeps_sendPacket)
  show "server_fine m (drop_old_connection addr (co_pid info) s)" if "server_fine m s"
    for s :: "'r PrudpServer"
    using that by (simp add: drop_old_connection_def server_fine_close)
  show "server_fine m (add_client addr (new_client ev s p info pe) t)"
    if "server_fine m s" "PayloadEncoder_init (co_sessionKey info) (sv_maxSubstreamId s) = Inr pe"
      "server_fine m t" for s t :: "'r PrudpServer" and pe
    using that server_fineD(1) [OF that(1)] client_fine_new by (blast intro: server_fine_add_client)
  show "server_fine m (notify_connect (dstPort p) addr (co_pid info) s)" if "server_fine m s"
    for s :: "'r PrudpServer"
    using that by (simp add: notify_connect_def split: option.splits)
qed (auto intro: server_fine_delay)

lemma keeps_handle_connect: "keeps (server_fine m) (handle_connect ev addr p)"
  unfolding handle_connect_def
  by (intro keeps_reading keeps_if keeps_return keeps_bind_lift)
     (auto intro: keeps_intros keeps_accept_client split: sum.splits exn.splits)

lemma keeps_handle_ack: "keeps (server_fine m) (handle_ack addr p)"
  unfolding handle_ack_def acknowledge_def
  by (rule keeps_client [OF keeps_return])
     (auto intro!: keeps_if keeps_return keeps_seq keeps_deleteNonAcked keeps_option keeps_reading
        keeps_throw keeps_bind_lift keeps_for split: option.splits)

lemma keeps_handle_data: "keeps (server_fine m) (handle_data ev addr p)"
  unfolding handle_data_def
  by (rule keeps_client [OF keeps_throw])
     (auto intro!: keeps_return keeps_bind_lift keeps_seq keeps_modify keeps_for keeps_sendDataPacket
        split: option.splits)

lemma keeps_handlePacket: "keeps (server_fine m) (handlePacket ev addr p)"
  unfolding handlePacket_def
  by (auto intro!: keeps_handle_ack keeps_handle_connect keeps_handle_data keeps_reading keeps_seq
      keeps_sendPacket keeps_return keeps_modify keeps_send_ack server_fine_close split: ptype.splits)

subsection \<open>The queue\<close>

lemma keeps_ack_fragment: "keeps (server_fine m) (ack_fragment ev addr sub agg p acked)"
  unfolding ack_fragment_def
  by (rule keeps_read_sub)
     (intro keeps_if keeps_bind keeps_seq keeps_return keeps_repeat keeps_send_ack keeps_modify_sub, simp)

lemma keeps_walk: "keeps (server_fine m) (walk_fragments ev addr sub agg p rest multi acked)"
proof (induction rest arbitrary: p multi acked)
  case Nil
  show ?case
    by (subst walk_fragments.simps) (auto intro!: keeps_bind keeps_ack_fragment keeps_if keeps_return)
next
  case (Cons q qs)
  then show ?case
    by (subst walk_fragments.simps) (auto intro!: keeps_bind keeps_ack_fragment keeps_if keeps_return)
qed

lemma queue_fine_after: "queue_fine q \<Longrightarrow> queue_fine (after_run q)"
  by (simp add: after_run_drop queue_fine_drop)

lemma keeps_deliver_run:
  assumes "queue_fine q"
  shows "keeps (server_fine m) (deliver_run ev addr sub agg q acked)"
  unfolding deliver_run_def
  by (rule keeps_read_sub, rule keeps_bind_lift, rule keeps_bind_lift)
     (use assms in \<open>auto intro!: keeps_seq keeps_store_encoder keeps_modify_sub keeps_bind_lift
        keeps_bind keeps_rethrow keeps_return keeps_send_aggregate keeps_handlePacket queue_fine_after
        queue_fine_decrypted split: prod.splits\<close>)

lemma keeps_queue_step:
  "queue_fine (p # ps) \<Longrightarrow> keeps (server_fine m) (queue_step ev addr sub agg p ps acked)"
  unfolding queue_step_def
  by (rule keeps_read_sub)
     (auto intro!: keeps_return keeps_bind keeps_walk keeps_deliver_run split: prod.splits)

lemma keeps_queue_loop:
  "queue_fine q \<Longrightarrow>
    keeps (server_fine m :: 'r PrudpServer \<Rightarrow> bool) (queue_loop ev addr sub agg q acked)"
proof (induction q arbitrary: acked rule: length_induct)
  case (1 q)
  show ?case
  proof (cases q)
    case Nil
    then show ?thesis by (intro keepsI) (simp add: queue_loop.simps)
  next
    case (Cons p ps)
    note step = keeps_queue_step [OF "1.prems" [unfolded Cons], of m ev addr sub agg acked]
    have "length (after_run q) < length q"
      by (simp add: Cons after_run_def le_imp_less_Suc length_dropWhile_le)
    with 1 have IH: "keeps (server_fine m :: 'r PrudpServer \<Rightarrow> bool) (queue_loop ev addr sub agg (after_run q) a)" for a
      by (simp add: queue_fine_after)
    have "(queue_loop ev addr sub agg q acked :: ('r, bool \<times> u16 list) srv) = bindS (queue_step ev addr sub agg p ps acked)
        (\<lambda>x. case x of Stop d a \<Rightarrow> returnS (d, a) | More a \<Rightarrow> queue_loop ev addr sub agg (after_run q) a)"
      by (rule ext) (subst queue_loop.simps,
        auto simp: Cons bindS_def split: prod.splits sum.splits queue_outcome.splits)
    then show ?thesis
      using step IH by (auto intro!: keeps_bind keeps_return split: queue_outcome.splits)
  qed
qed

lemma keeps_processPacketQueue: "keeps (server_fine m) (processPacketQueue ev addr sub)"
  unfolding processPacketQueue_def Let_def
  by (rule keeps_client [OF keeps_return], rule keeps_bind_lift)
     (auto intro!: keeps_bind keeps_queue_loop keeps_return keeps_send_aggregate
        simp: get_sub_def client_fine_def split: prod.splits if_splits)

lemma keeps_process_reliable: "keeps (server_fine m) (process_reliable ev addr p)"
proof (rule keepsI)
  fix s r s' assume I: "server_fine m s" and run: "process_reliable ev addr p s = (r, s')"
    and ok: "r \<noteq> Inl UndefinedAccess"
  define sub where "sub = packet_substream s p"
  obtain c where c: "clients s addr = Some c" "unat sub < length (substreams c)"
    using run ok by (auto simp: process_reliable_def Let_def read_sub_def get_sub_def sub_def
        split: option.splits if_splits)
  note read = read_sub_apply [OF c]
  let ?st = "substreams c ! unat sub"
  have cf: "client_fine m c" by (rule server_fineD(3) [OF I c(1)])
  consider "MAX_PACKET_QUEUE_SIZE < length (packetQueue ?st)"
    | "\<not> MAX_PACKET_QUEUE_SIZE < length (packetQueue ?st)" "seqId p \<le> recvSeqId ?st"
    | "\<not> MAX_PACKET_QUEUE_SIZE < length (packetQueue ?st)" "\<not> seqId p \<le> recvSeqId ?st" by blast
  then show "server_fine m s'"
  proof cases
    case 1
    then show ?thesis
      using run I by (auto simp: process_reliable_def Let_def read [unfolded sub_def] sub_def server_fine_close)
  next
    case 2
    have "keeps (server_fine m) (seqS (send_ack ev addr p) (resetPingTask ev addr))"
      by (intro keeps_seq keeps_send_ack keeps_resetPing)
    then show ?thesis
      by (rule keepsD [where I = "server_fine m", OF _ I _ ok])
        (use run 2 in \<open>auto simp: process_reliable_def Let_def read [unfolded sub_def] sub_def\<close>)
  next
    case 3
    let ?c = "upd_sub sub (\<lambda>st. st\<lparr>packetQueue := queue_insert p (packetQueue st)\<rparr>) c"
    have I': "server_fine m (set_client addr ?c s)"
      using 3 by (intro server_fine_set_client I client_fine_upd cf) (simp add: queue_fine_insert)
    have "keeps (server_fine m) (seqS (processPacketQueue ev addr sub) (resetPingTask ev addr))"
      by (intro keeps_seq keeps_processPacketQueue keeps_resetPing)
    moreover have "seqS (processPacketQueue ev addr sub) (resetPingTask ev addr) (set_client addr ?c s)
        = (r, s')"
      using run 3 by (simp add: process_reliable_def Let_def read [unfolded sub_def] sub_def
          modify_sub_apply [OF c(1)])
    ultimately show ?thesis by (rule keepsD [where I = "server_fine m", OF _ I' _ ok])
  qed
qed

subsection \<open>The entry points\<close>

lemma keeps_processPacket: "keeps (server_fine m) (processPacket ev a p)"
  unfolding processPacket_def Let_def process_unreliable_def
  by (auto intro!: keeps_reading keeps_if keeps_return keeps_seq keeps_handlePacket keeps_bind
      keeps_bind_lift keeps_resetPing keeps_process_reliable split: option.splits)

lemma keeps_packets_loop: "keeps (server_fine m) (packets_loop ev a d)"
proof -
  have "server_fine m s \<Longrightarrow> packets_loop ev a d s = (r, s') \<Longrightarrow> r \<noteq> Inl UndefinedAccess \<Longrightarrow>
    server_fine m s'" for s :: "'r PrudpServer" and r s'
  proof (induction ev a d s arbitrary: r s' rule: packets_loop.induct)
    case (1 ev a d s)
    show ?case
    proof (cases "d = []")
      case False
      show ?thesis
      proof (cases "decode_packet (fresh_packet s) d")
        case (Inl e)
        then show ?thesis using "1.prems" False by (simp add: packets_loop.simps)
      next
        case (Inr pn)
        obtain p n where pn: "pn = (p, n)" by (cases pn)
        obtain r1 s1 where run: "processPacket ev a p s = (r1, s1)" by (cases "processPacket ev a p s")
        note dec = Inr [unfolded pn]
        show ?thesis
        proof (cases r1)
          case (Inl e)
          then show ?thesis
            using "1.prems" False dec run keepsD [OF keeps_processPacket "1.prems"(1) run]
            by (simp add: packets_loop.simps)
        next
          case (Inr u)
          then have "server_fine m s1" using keepsD [OF keeps_processPacket "1.prems"(1) run] by simp
          moreover have "(if length d < n then (Inl UndefinedAccess, s1) else packets_loop ev a (drop n d) s1) = (r, s')"
            using "1.prems"(2) False dec run Inr by (subst (asm) packets_loop.simps) simp
          then have *: "\<not> length d < n" "packets_loop ev a (drop n d) s1 = (r, s')"
            using "1.prems"(3) by (auto split: if_splits)
          ultimately show ?thesis
            using "1.IH" [OF False dec refl run [symmetric, unfolded Inr] refl *(1)] "1.prems"(3) by simp
        qed
      qed
    qed (use "1.prems" in \<open>simp add: packets_loop.simps\<close>)
  qed
  then show ?thesis by (rule keepsI)
qed

lemma keeps_onData: "keeps (server_fine m) (onData ev a d)"
proof -
  have "keeps (server_fine m :: 'r PrudpServer \<Rightarrow> bool) (resolve_proxy a d)"
    unfolding resolve_proxy_def
    by (auto intro!: keeps_reading keeps_return keeps_bind_lift keeps_seq keeps_modify
        split: option.splits)
  then show ?thesis
    unfolding onData_def
    by (auto intro!: keeps_bind keeps_return keeps_swallow keeps_packets_loop split: option.splits)
qed

lemma keeps_note_due: "keeps (server_fine m) (note_due addr p t)"
  unfolding note_due_def Let_def
  by (rule keeps_client [OF keeps_return])
     (auto intro!: keeps_if keeps_return keeps_modify keeps_bind_lift server_fine_set_client
        client_fine_upd)

lemma server_fine_resend_seq: "server_fine m s \<Longrightarrow> server_fine m (snd (resend_seq s d))"
  by (auto simp: resend_seq_def Let_def intro!: server_fine_set_client dest: server_fineD(3)
      split: option.splits)

lemma keeps_process_due:
  assumes "numRetries d \<le> MAX_RETRIES"
  shows "keeps (server_fine m) (process_due ev d)"
proof (cases "MAX_RETRIES \<le> numRetries d")
  case True
  then show ?thesis by (auto simp: process_due_def intro: keeps_modify server_fine_close)
next
  case False
  have "keeps (server_fine m :: 'r PrudpServer \<Rightarrow> bool) (resend ev d)"
    unfolding resend_def Let_def
  proof (rule keeps_reading)
    fix s :: "'r PrudpServer" assume I: "server_fine m s"
    obtain p s1 where rs: "resend_seq s d = (p, s1)" by (cases "resend_seq s d")
    then have "server_fine m s1" using server_fine_resend_seq [OF I, of d] by simp
    with False show "keeps (server_fine m) (case resend_seq s d of (p, s1) \<Rightarrow>
        seqS (modifyS (\<lambda>_. s1)) (bindS (liftS (encode_packet (crypto ev) p)) (\<lambda>(bs, p').
          seqS (modifyS (sendBytes (pa_address (dp_addr d)) bs))
         (seqS (modifyS (delay (steady ev + RETRY_INTERVAL) (d\<lparr>numRetries := numRetries d + 1, dp_packet := p'\<rparr>)))
               (note_due (dp_addr d) p' (steady ev + RETRY_INTERVAL))))))"
      unfolding rs prod.case
      by (auto intro!: keeps_seq keeps_modify keeps_bind_lift keeps_note_due server_fine_delay
          split: prod.splits)
  qed
  with False show ?thesis by (simp add: process_due_def)
qed

lemma process_loop_fine:
  "server_fine m s \<Longrightarrow> process_loop ev s = (r, s') \<Longrightarrow> r \<noteq> Inl UndefinedAccess \<Longrightarrow>
   server_fine m s' \<and> (r = Inr () \<longrightarrow> due ev s' = 0)"
proof (induction ev s rule: process_loop.induct)
  case (1 ev s)
  show ?case
  proof (cases "delayedPackets s")
    case Nil
    then show ?thesis using "1.prems" by (auto simp: process_loop.simps due_def)
  next
    case (Cons td rest)
    obtain t d where td: "td = (t, d)" by (cases td)
    have df: "delayed_fine ((t, d) # rest)" using server_fineD(2) [OF "1.prems"(1)] by (simp add: Cons td)
    then have d: "numRetries d \<le> MAX_RETRIES" and rest: "delayed_fine rest"
      by (simp_all add: delayed_fine_def)
    show ?thesis
    proof (cases "t < steady ev")
      case True
      let ?s = "s\<lparr>delayedPackets := rest\<rparr>"
      have I: "server_fine m ?s" using "1.prems"(1) rest by (rule server_fine_delayed)
      obtain r1 s1 where run: "process_due ev d ?s = (r1, s1)" by (cases "process_due ev d ?s")
      note fine = keepsD [OF keeps_process_due [OF d] I run]
      show ?thesis
      proof (cases r1)
        case (Inl e)
        then have "r = Inl e" "s' = s1"
          using "1.prems"(2) Cons td True run by (simp_all add: process_loop.simps)
        then show ?thesis using fine Inl "1.prems"(3) by simp
      next
        case (Inr u)
        have "process_loop ev s1 = (r, s')"
          using "1.prems"(2) Cons td True run Inr by (simp add: process_loop.simps [of ev s])
        then show ?thesis
          using "1.IH" [OF Cons td [symmetric] True run [symmetric, unfolded Inr] refl] fine Inr "1.prems"(3) by simp
      qed
    next
      case False
      then have "s' = s" using "1.prems"(2) Cons td by (simp add: process_loop.simps)
      moreover have "\<forall>x \<in> set rest. t \<le> fst x" using df by (auto simp: delayed_fine_def)
      then have "due ev s = 0" using False by (auto simp: due_def Cons td filter_empty_conv)
      ultimately show ?thesis using "1.prems"(1) by simp
    qed
  qed
qed

lemma keeps_process: "keeps (server_fine m) (process ev)"
proof -
  have "keeps (server_fine m :: 'r PrudpServer \<Rightarrow> bool) (process_loop ev)"
    by (rule keepsI) (auto dest: process_loop_fine)
  then show ?thesis unfolding process_def by (intro keeps_seq keeps_reading keeps_return)
qed

section \<open>Reachable states\<close>

text \<open>
  What happens to a server: a datagram, the timer, a message of an RMC server, registration, start
  and stop. An exception leaves the state the routine had reached; undefined behaviour ends the run.
\<close>

inductive prudp_step :: "'r PrudpServer \<Rightarrow> 'r PrudpServer \<Rightarrow> bool" where
  datagram: "onData ev a d s = (r, s') \<Longrightarrow> r \<noteq> Inl UndefinedAccess \<Longrightarrow> prudp_step s s'"
| timer: "process ev s = (r, s') \<Longrightarrow> r \<noteq> Inl UndefinedAccess \<Longrightarrow> prudp_step s s'"
| message: "sendDataPacket ev addr d sub s = (r, s') \<Longrightarrow> r \<noteq> Inl UndefinedAccess \<Longrightarrow> prudp_step s s'"
| register: "prudp_step s (registerRMCServer port info s)"
| listen: "prudp_step s (prudp_listen s)"
| stop: "prudp_step s (prudp_stop s)"

inductive_cases prudp_stepE: "prudp_step s s'"

lemma prudp_step_fine: "prudp_step s s' \<Longrightarrow> server_fine m s \<Longrightarrow> server_fine m s'"
proof (induction rule: prudp_step.induct)
  case (datagram ev a d s r s')
  then show ?case by (blast intro: keepsD [OF keeps_onData])
next
  case (timer ev s r s')
  then show ?case by (blast intro: keepsD [OF keeps_process])
next
  case (message ev addr d sub s r s')
  then show ?case by (blast intro: keepsD [OF keeps_sendDataPacket])
qed (simp_all add: registerRMCServer_def prudp_listen_def prudp_stop_def for_servers_def server_fine_def
    delayed_fine_def split: option.splits)

lemma server_fine_init:
  assumes "s = PrudpServer_init major key ath pid passwd frs minor funs maxSub initSeq proxies r"
  shows "server_fine (sv_maxSubstreamId s) s"
  using assms by (simp add: server_fine_def PrudpServer_init_def delayed_fine_def)

lemma reachable_fine:
  assumes "prudp_step\<^sup>*\<^sup>* s s'" and "server_fine m s"
  shows "server_fine m s'"
  using assms by (induction rule: rtranclp_induct) (auto intro: prudp_step_fine)

end
