(* ===== verification/PrudpMessages.thy ===== *)
theory PrudpMessages
  imports PrudpSending
begin

text \<open>
  What \<^verbatim>\<open>sendDataPacket\<close> puts on the wire: the datagrams of a message decode, at a peer that knows
  the session, to signed packets with consecutive sequence ids and numbered fragments, and their
  payloads decrypt to the message.
\<close>

section \<open>One fragment\<close>

definition sendable :: "Packet \<Rightarrow> bool" where
  "sendable p \<longleftrightarrow> p_type p = DATA \<and> fields_fit p \<and> encryptedData p = [] \<and>
     length (p_data p) \<le> MAX_PACKET_SIZE \<and>
     (isV1 p \<longrightarrow> length (connectionSignature p) \<in> {0, 16} \<and> supportedFunctions p < 2 ^ 24) \<and>
     (\<not> isV1 p \<longrightarrow> length (remoteSignature p) \<in> {0, 4})"

text \<open>The packet object the peer decodes into: it knows the keys and its own connection signature.\<close>

definition peer_of :: "Packet \<Rightarrow> Packet \<Rightarrow> bool" where
  "peer_of p q \<longleftrightarrow> isV1 q = isV1 p \<and> encryptedData q = [] \<and> p_accessKey q = p_accessKey p \<and>
     p_sessionKey q = p_sessionKey p \<and> connectionSignature q = remoteSignature p \<and>
     friends q = friends p"

definition reads :: "Crypto \<Rightarrow> Packet \<Rightarrow> bytes \<Rightarrow> Packet \<Rightarrow> bool" where
  "reads cr peer b q \<longleftrightarrow> decode_packet peer b = Inr (q, length b) \<and> checkSignature cr q"

lemma encrypt_payload_encoder:
  assumes "encryptedData p = []"
  shows "encryptedData (encrypt_payload (p\<lparr>p_encoder := Some e\<rparr>)) = snd (Encoder_encode e (p_data p))"
    and "p_encoder (encrypt_payload (p\<lparr>p_encoder := Some e\<rparr>)) = Some (fst (Encoder_encode e (p_data p)))"
  using assms
  by (auto simp: encrypt_payload_def encryptData_def Encoder_encode_def arc4_encrypt_def split: prod.splits)

lemma sendable_read:
  assumes cr: "crypto_ok cr" and p: "sendable p" and peer: "peer_of p q"
  shows "\<exists>b p' r. encode_packet cr (p\<lparr>p_encoder := Some e\<rparr>) = Inr (b, p') \<and> p_flags p' = p_flags p \<and>
    substreamId p' = substreamId p \<and> p_encoder p' = Some (fst (Encoder_encode e (p_data p))) \<and>
    reads cr q b r \<and> seqId r = seqId p \<and> fragmentId r = fragmentId p \<and>
    encryptedData r = snd (Encoder_encode e (p_data p))"
proof -
  let ?p = "p\<lparr>p_encoder := Some e\<rparr>"
  have ne: "encryptedData p = []" and ty: "p_type p = DATA" using p by (simp_all add: sendable_def)
  note enc = encrypt_payload_encoder [OF ne, of e]
  show ?thesis
  proof (cases "isV1 p")
    case True
    have ok: "sentV1_ok ?p"
      using p True by (auto simp: sendable_def sentV1_ok_def MAX_PACKET_SIZE_def fields_fit_def)
    obtain b p' where b: "encodeV1 cr ?p = Inr (b, p')"
      "p' = (encrypt_payload ?p)\<lparr>packetSpecificData := optionsV1 ?p\<rparr>"
      using encodeV1_bytes [OF ok, of cr] by blast
    from decodeV1_encodeV1 [OF cr ok b(1), of q "[]"] peer True
    have "decode_packet q b = Inr (receivedV1 cr ?p q, length b)"
      by (simp add: decode_packet_def peer_of_def)
    moreover have "checkSignatureV1 cr (receivedV1 cr ?p q)"
      by (rule checkSignatureV1_received) (use peer in \<open>simp_all add: peer_of_def\<close>)
    moreover have "isV1 (receivedV1 cr ?p q)"
      using peer True by (simp add: receivedV1_def Let_def filledV1_def peer_of_def)
    ultimately have "reads cr q b (receivedV1 cr ?p q)" by (simp add: reads_def checkSignature_def)
    with b enc ty True show ?thesis
      by (auto simp: encode_packet_def receivedV1_def Let_def filledV1_def intro!: exI)
  next
    case False
    have ok: "sentV0_ok ?p"
      using p False by (auto simp: sendable_def sentV0_ok_def MAX_PACKET_SIZE_def fields_fit_def)
    obtain b p' where b: "encodeV0 cr ?p = (b, p')" by (cases "encodeV0 cr ?p")
    have p': "p' = encrypt_payload ?p" using b by (simp add: encodeV0_def Let_def)
    from decodeV0_encodeV0 [OF cr ok, of q] peer False b
    have "decode_packet q b = Inr (receivedV0 cr ?p q, length b)"
      by (simp add: decode_packet_def peer_of_def)
    moreover have "checkSignatureV0 cr (receivedV0 cr ?p q)"
      by (rule checkSignatureV0_received) (use peer ty in \<open>simp_all add: peer_of_def\<close>)
    moreover have "\<not> isV1 (receivedV0 cr ?p q)"
      using peer False by (simp add: receivedV0_def Let_def peer_of_def)
    ultimately have "reads cr q b (receivedV0 cr ?p q)" by (simp add: reads_def checkSignature_def)
    with b p' enc ty False show ?thesis
      by (auto simp: encode_packet_def receivedV0_def Let_def intro!: exI)
  qed
qed

lemma lengths_encode_all: "map length (snd (encode_all e ds)) = map length ds"
proof (induction ds arbitrary: e)
  case (Cons d ds)
  obtain e1 x where "Encoder_encode e d = (e1, x)" by (cases "Encoder_encode e d")
  moreover from this have "length x = length d" using length_Encoder_encode [of e d] by simp
  moreover obtain e2 xs where "encode_all e1 ds = (e2, xs)" by (cases "encode_all e1 ds")
  ultimately show ?case using Cons.IH [of e1] by simp
qed simp

lemma lengths_bounded:
  "map length xs = map length ys \<Longrightarrow> \<forall>y \<in> set ys. length y \<le> k \<Longrightarrow> \<forall>x \<in> set xs. length x \<le> k"
  by (induction xs ys rule: list_induct2') auto

section \<open>A list of fragments\<close>

text \<open>What sending looks at, and what it leaves: the client, its encoder, the way to its address.\<close>

definition linked :: "PRUDPAddress \<Rightarrow> u8 \<Rightarrow> PayloadEncoder \<Rightarrow> nat \<Rightarrow> 'r PrudpServer \<Rightarrow> bool" where
  "linked addr sub pe v s \<longleftrightarrow> proxyMap s (pa_address addr) = None \<and> majorVersion s = v \<and>
     (\<exists>c. clients s addr = Some c \<and> unat sub < length (substreams c) \<and> cl_encoder c = pe)"

lemma send_fragment_reads:
  assumes cr: "crypto_ok (crypto ev)" and p: "sendable p" and peer: "peer_of p q"
    and l: "linked addr sub pe v s" and sub: "packet_substream s p = sub"
  shows "\<exists>b r s'. send_fragment ev addr (Some e) p s = (Inr (Some (fst (Encoder_encode e (p_data p)))), s') \<and>
    sent_datagrams s' = sent_datagrams s @ [(pa_address addr, b)] \<and> linked addr sub pe v s' \<and>
    reads (crypto ev) q b r \<and> seqId r = seqId p \<and> fragmentId r = fragmentId p \<and>
    encryptedData r = snd (Encoder_encode e (p_data p))"
proof -
  obtain c where c: "clients s addr = Some c" "unat sub < length (substreams c)" "cl_encoder c = pe"
    and px: "proxyMap s (pa_address addr) = None" and v: "majorVersion s = v"
    using l by (auto simp: linked_def)
  from sendable_read [OF cr p peer, of e] obtain b p' r where
    enc: "encode_packet (crypto ev) (p\<lparr>p_encoder := Some e\<rparr>) = Inr (b, p')"
      "substreamId p' = substreamId p" "p_encoder p' = Some (fst (Encoder_encode e (p_data p)))"
    and r: "reads (crypto ev) q b r \<and> seqId r = seqId p \<and> fragmentId r = fragmentId p \<and>
      encryptedData r = snd (Encoder_encode e (p_data p))" by blast
  have sub': "packet_substream s p' = sub" using sub enc(2)
    by (simp add: packet_substream_def split: if_splits)
  define s1 where "s1 = (if has_flag p' FLAG_NEED_ACK \<and> has_flag p' FLAG_RELIABLE
    then snd (remember_packet ev addr p' s) else s)"
  have s1: "(if has_flag p' FLAG_NEED_ACK \<and> has_flag p' FLAG_RELIABLE
      then remember_packet ev addr p' else returnS ()) s = (Inr (), s1)"
    and l1: "linked addr sub pe v s1" and d1: "sent_datagrams s1 = sent_datagrams s"
    and px1: "proxyMap s1 = proxyMap s"
    using c l sub'
    by (auto simp: s1_def remember_packet_def get_sub_def Let_def linked_def delay_def set_client_def)
  have run: "send_fragment ev addr (Some e) p s =
      (Inr (p_encoder p'), sendBytes (pa_address addr) b s1)"
    using enc(1) s1 by (simp add: send_fragment_def)
  have "linked addr sub pe v (sendBytes (pa_address addr) b s1)"
    using l1 by (simp add: linked_def sendBytes_def)
  moreover have "sent_datagrams (sendBytes (pa_address addr) b s1) = sent_datagrams s @ [(pa_address addr, b)]"
    using d1 px px1 by (simp add: sendBytes_def)
  ultimately show ?thesis using run enc(3) r by auto
qed

lemma send_fragments_reads:
  assumes cr: "crypto_ok (crypto ev)"
  shows "linked addr sub pe v s \<Longrightarrow>
    \<forall>p \<in> set ps. sendable p \<and> peer_of p q \<and> (if v = 1 then substreamId p else 0) = sub \<Longrightarrow>
    \<exists>bs rs s'. send_fragments ev addr (Some e) ps s = (Inr (Some (fst (encode_all e (map p_data ps)))), s') \<and>
      sent_datagrams s' = sent_datagrams s @ map (Pair (pa_address addr)) bs \<and> linked addr sub pe v s' \<and>
      list_all2 (reads (crypto ev) q) bs rs \<and> map seqId rs = map seqId ps \<and>
      map fragmentId rs = map fragmentId ps \<and>
      map encryptedData rs = snd (encode_all e (map p_data ps))"
proof (induction ps arbitrary: e s)
  case Nil
  then show ?case by (auto intro!: exI [of _ "[]"])
next
  case (Cons p ps)
  from Cons.prems(1) have "majorVersion s = v" by (simp add: linked_def)
  with Cons.prems have sub: "packet_substream s p = sub" by (simp add: packet_substream_def)
  obtain e1 x where e1: "Encoder_encode e (p_data p) = (e1, x)" by (cases "Encoder_encode e (p_data p)")
  obtain e2 xs where e2: "encode_all e1 (map p_data ps) = (e2, xs)" by (cases "encode_all e1 (map p_data ps)")
  from Cons.prems have "sendable p" "peer_of p q" by auto
  from send_fragment_reads [OF cr this Cons.prems(1) sub, of e] e1 obtain b r s1 where
    1: "send_fragment ev addr (Some e) p s = (Inr (Some e1), s1)"
      "sent_datagrams s1 = sent_datagrams s @ [(pa_address addr, b)]" "linked addr sub pe v s1"
      "reads (crypto ev) q b r" "seqId r = seqId p" "fragmentId r = fragmentId p" "encryptedData r = x"
    by auto
  from Cons.IH [OF 1(3), of e1] Cons.prems(2) e2 obtain bs rs s' where
    2: "send_fragments ev addr (Some e1) ps s1 = (Inr (Some e2), s')"
      "sent_datagrams s' = sent_datagrams s1 @ map (Pair (pa_address addr)) bs" "linked addr sub pe v s'"
      "list_all2 (reads (crypto ev) q) bs rs" "map seqId rs = map seqId ps"
      "map fragmentId rs = map fragmentId ps" "map encryptedData rs = xs"
    by auto
  show ?case
    by (rule exI [of _ "b # bs"], rule exI [of _ "r # rs"], rule exI [of _ s'])
       (use 1 2 in \<open>simp add: e1 e2\<close>)
qed

section \<open>A message\<close>

text \<open>What a piece has in common with the packet it is cut from.\<close>

definition piece :: "Packet \<Rightarrow> Packet \<Rightarrow> bool" where
  "piece p r \<longleftrightarrow> (\<exists>f sq d. r = p\<lparr>fragmentId := f, seqId := sq, p_data := d\<rparr>)"

lemma piece_trans: "piece p q \<Longrightarrow> piece q r \<Longrightarrow> piece p r"
  unfolding piece_def by (elim exE, hypsubst) (simp, blast)

lemma piece_fields:
  "piece p p" "piece p (p\<lparr>seqId := sq, p_data := d\<rparr>)" "piece p (p\<lparr>fragmentId := f, p_data := d\<rparr>)"
  unfolding piece_def
  by (rule exI [of _ "fragmentId p"], rule exI [of _ "seqId p"], rule exI [of _ "p_data p"], simp,
    rule exI [of _ "fragmentId p"], rule exI [of _ sq], rule exI [of _ d], simp,
    rule exI [of _ f], rule exI [of _ "seqId p"], rule exI [of _ d], simp)

lemma split_fragments_pieces: "\<forall>r \<in> set (split_fragments fid p). piece p r"
proof (induction fid p rule: split_fragments.induct)
  case (1 fid p)
  show ?case
  proof (cases "MAX_PACKET_SIZE < length (p_data p)")
    case True
    then show ?thesis
      using "1.IH" [OF True] piece_fields(3)
      by (subst split_fragments.simps) (auto intro: piece_trans [OF piece_fields(2)])
  next
    case False
    then show ?thesis by (subst split_fragments.simps) (simp add: piece_fields(1))
  qed
qed

lemma split_fragments_sendable:
  assumes p: "p_type p = DATA" "fields_fit p" "encryptedData p = []"
      "isV1 p \<Longrightarrow> length (connectionSignature p) \<in> {0, 16} \<and> supportedFunctions p < 2 ^ 24"
      "\<not> isV1 p \<Longrightarrow> length (remoteSignature p) \<in> {0, 4}"
    and peer: "peer_of p q" and r: "r \<in> set (split_fragments fid p)"
  shows "sendable r \<and> peer_of r q \<and> substreamId r = substreamId p"
proof -
  have "\<forall>r \<in> set (split_fragments fid p). piece p r"
    by (rule split_fragments_pieces)
  then have "piece p r" using r by blast
  with assms split_fragments_size [OF r] show ?thesis by (auto simp: sendable_def piece_def peer_of_def fields_fit_def)
qed

text \<open>The ports and stream types of an address fit the nibbles of a packet header.\<close>

definition address_fits :: "PRUDPAddress \<Rightarrow> bool" where
  "address_fits a \<longleftrightarrow> vPort a < 16 \<and> streamType a < 16 \<and> srcVPort a < 16 \<and> pa_srcStreamType a < 16"

definition client_peer :: "'r PrudpServer \<Rightarrow> PrudpClient \<Rightarrow> Packet \<Rightarrow> bool" where
  "client_peer s c q \<longleftrightarrow> isV1 q = v1 s \<and> encryptedData q = [] \<and> p_accessKey q = sv_accessKey s \<and>
     p_sessionKey q = cl_sessionKey c \<and> connectionSignature q = cl_remoteSignature c \<and> friends q"

lemma flags_fit:
  "FLAG_RELIABLE OR FLAG_NEED_ACK OR (if b then FLAG_HAS_SIZE else 0) < 2 ^ 12"
  by (simp add: FLAG_RELIABLE_def FLAG_NEED_ACK_def FLAG_HAS_SIZE_def)

lemma data_packet_split:
  assumes cr: "crypto_ok (crypto ev)" and addr: "address_fits addr" and q: "client_peer s c q"
    and sig: "majorVersion s = 0 \<Longrightarrow> length (cl_remoteSignature c) \<in> {0, 4}"
    and r: "r \<in> set (split_fragments 1 (data_packet ev s addr c sub sq e d))"
  shows "sendable r \<and> peer_of r q \<and> (majorVersion s = 1 \<longrightarrow> substreamId r = sub)"
proof -
  let ?p = "data_packet ev s addr c sub sq e d"
  have p: "p_type ?p = DATA" "encryptedData ?p = []" "isV1 ?p = v1 s" "supportedFunctions ?p = 0"
    "remoteSignature ?p = cl_remoteSignature c"
    "connectionSignature ?p = calculateConnSignature ev s (pa_address addr)"
    by (simp_all add: data_packet_def new_packet_def)
  have fit: "fields_fit ?p"
    using addr flags_fit by (simp add: fields_fit_def data_packet_def address_fits_def)
  have peer: "peer_of ?p q" using q by (simp add: peer_of_def client_peer_def data_packet_def new_packet_def)
  have "length (connectionSignature ?p) \<in> {0, 16}" if "isV1 ?p"
    using cr that by (simp add: p v1_def calculateConnSignature_def crypto_ok_def Let_def)
  moreover have "length (remoteSignature ?p) \<in> {0, 4}" if "\<not> isV1 ?p"
    using sig that by (simp add: p v1_def)
  moreover have "supportedFunctions ?p < 2 ^ 24" unfolding p by simp
  moreover have "substreamId ?p = (if v1 s then sub else 0)" by (simp add: data_packet_def new_packet_def)
  ultimately show ?thesis
    using split_fragments_sendable [OF p(1) fit p(2) _ _ peer r] by (simp add: v1_def)
qed

text \<open>A message that is not empty, on a substream of a client that is not behind a proxy.\<close>

definition ready :: "PRUDPAddress \<Rightarrow> u8 \<Rightarrow> PrudpClient \<Rightarrow> 'r PrudpServer \<Rightarrow> bool" where
  "ready addr sub c s \<longleftrightarrow> clients s addr = Some c \<and> unat sub < length (substreams c) \<and>
     unat sub < length (encoders (cl_encoder c)) \<and> proxyMap s (pa_address addr) = None \<and>
     address_fits addr \<and> majorVersion s \<le> 1 \<and>
     (majorVersion s = 0 \<longrightarrow> sub = 0 \<and> length (cl_remoteSignature c) \<in> {0, 4})"

lemma sendDataPacket_reads:
  assumes cr: "crypto_ok (crypto ev)" and rd: "ready addr sub c s" and q: "client_peer s c q"
    and d: "d \<noteq> []"
  defines "n \<equiv> (length d + MAX_PACKET_SIZE - 1) div MAX_PACKET_SIZE"
  defines "st \<equiv> substreams c ! unat sub" and "e \<equiv> encoders (cl_encoder c) ! unat sub"
  shows "\<exists>bs rs ds s'. sendDataPacket ev addr d sub s = (Inr (), s') \<and>
    sent_datagrams s' = sent_datagrams s @ map (Pair (pa_address addr)) bs \<and>
    list_all2 (reads (crypto ev) q) bs rs \<and> length bs = n \<and>
    map seqId rs = map (\<lambda>i. st_seqId st + of_nat i) [0..<n] \<and>
    map fragmentId rs = map (\<lambda>i. 1 + of_nat i) [0..<n - 1] @ [0] \<and>
    map encryptedData rs = snd (encode_all e ds) \<and> concat ds = d \<and>
    (\<forall>x \<in> set ds. length x \<le> MAX_PACKET_SIZE) \<and>
    (\<exists>c'. clients s' addr = Some c' \<and> encoders (cl_encoder c') ! unat sub = fst (encode_all e ds))"
proof -
  have c: "clients s addr = Some c" "unat sub < length (substreams c)"
      "unat sub < length (encoders (cl_encoder c))"
    and px: "proxyMap s (pa_address addr) = None" and addr: "address_fits addr"
    and v: "majorVersion s \<le> 1"
    and v0: "majorVersion s = 0 \<Longrightarrow> sub = 0 \<and> length (cl_remoteSignature c) \<in> {0, 4}"
    using rd by (auto simp: ready_def)
  have sub: "(if majorVersion s = 0 then 0 else sub) = sub" using v0 by auto
  define c1 where "c1 = upd_sub sub (\<lambda>st. st\<lparr>st_seqId := st_seqId st + of_nat n\<rparr>) c"
  define s1 where "s1 = set_client addr c1 s"
  define p where "p = data_packet ev s addr c sub (st_seqId st) e d"
  let ?ps = "split_fragments 1 p"
  define ds where "ds = map p_data ?ps"
  have pd: "p_data p = d" "seqId p = st_seqId st" "fragmentId p = 0" "p_encoder p = Some e"
    by (simp_all add: p_def data_packet_def)
  have n: "length ?ps = n" using length_split_fragments [of p 1] d by (simp add: pd n_def)
  have l: "linked addr sub (cl_encoder c) (majorVersion s) s1"
    using c px by (simp add: linked_def s1_def c1_def set_client_def)
  have "\<forall>r \<in> set ?ps. sendable r \<and> peer_of r q \<and>
      (if majorVersion s = 1 then substreamId r else 0) = sub"
    using data_packet_split [OF cr addr q] v0 v by (auto simp: p_def)
  from send_fragments_reads [OF cr l this, of e] obtain bs rs s2 where
    run: "sendPacket ev addr p s1 = (Inr (Some (fst (encode_all e ds))), s2)"
    and sent: "sent_datagrams s2 = sent_datagrams s @ map (Pair (pa_address addr)) bs"
    and l2: "linked addr sub (cl_encoder c) (majorVersion s) s2"
    and rs: "list_all2 (reads (crypto ev) q) bs rs" "map seqId rs = map seqId ?ps"
      "map fragmentId rs = map fragmentId ?ps" "map encryptedData rs = snd (encode_all e ds)"
    by (auto simp: sendPacket_def pd ds_def s1_def set_client_def)
  obtain c2 where c2: "clients s2 addr = Some c2" "cl_encoder c2 = cl_encoder c"
    using l2 by (auto simp: linked_def)
  define s3 where "s3 = set_client addr
    (c2\<lparr>cl_encoder := setReliableEncoder sub (fst (encode_all e ds)) (cl_encoder c)\<rparr>) s2"
  have "sendDataPacket ev addr d sub s = (Inr (), s3)"
    using c run c2
    by (simp add: sendDataPacket_def get_sub_def Let_def sub getReliableEncoder_def store_encoder_def
        s3_def flip: e_def st_def p_def) (simp add: s1_def c1_def n_def store_encoder_def c2)
  moreover have "sent_datagrams s3 = sent_datagrams s @ map (Pair (pa_address addr)) bs"
    using sent by (simp add: s3_def set_client_def)
  moreover have "length bs = n"
    using rs(1,2) n by (metis length_map list_all2_lengthD)
  moreover have "map seqId rs = map (\<lambda>i. st_seqId st + of_nat i) [0..<n]"
    "map fragmentId rs = map (\<lambda>i. 1 + of_nat i) [0..<n - 1] @ [0]"
    using rs(2,3) split_fragments_seqIds [of 1 p] split_fragments_ids [of 1 p] by (simp_all add: n pd)
  moreover have "concat ds = d" using concat_split_fragments [of 1 p] by (simp add: ds_def pd)
  moreover have "\<forall>x \<in> set ds. length x \<le> MAX_PACKET_SIZE"
    using split_fragments_size by (auto simp: ds_def)
  moreover have "\<exists>c'. clients s3 addr = Some c' \<and>
      encoders (cl_encoder c') ! unat sub = fst (encode_all e ds)"
    using c(3) by (simp add: s3_def set_client_def setReliableEncoder_def)
  ultimately show ?thesis using rs by blast
qed

end
