(* ===== verification/Examples.thy ===== *)
theory Examples
  imports RmcWorker PrudpFaults PrudpInvariant PrudpMessages SharedState
begin

text \<open>
  Concrete inputs for the witnesses: digests, a version 0 server with an RMC server behind it, a
  client that connects and calls it, and the packets it sends.
\<close>

section \<open>Digests\<close>

text \<open>Of the right length, and dependent on the input.\<close>

definition sum_crypto :: Crypto where
  "sum_crypto = \<lparr>MD5 = (\<lambda>d. replicate 16 (sum_list d)),
     HMAC_MD5 = (\<lambda>k d. replicate 16 (sum_list k + 3 * sum_list d))\<rparr>"

lemma sum_crypto_ok [simp]: "crypto_ok sum_crypto"
  by (simp add: crypto_ok_def sum_crypto_def)

definition ex_env :: Env where
  "ex_env = \<lparr>crypto = sum_crypto, steady = 1000, wall = 0\<rparr>"

lemma ex_env_simps [simp]: "crypto ex_env = sum_crypto" "crypto_ok (crypto ex_env)"
  by (simp_all add: ex_env_def)

section \<open>A server and its calls\<close>

definition ex_rmc :: "bytes RmcServer" where
  "ex_rmc = \<lparr>shouldStop = False, rmc_serverId = 7, pidMap = (\<lambda>_. None),
     calls = [(1, 0, 2) \<mapsto> (\<lambda>mv d. if d = [] then Inl MalformedException else Inr d)],
     requestsQueue = []\<rparr>"

definition ex_request :: "u32 \<Rightarrow> Request" where
  "ex_request n = \<lparr>rq_protocolId = 1, rq_extendedProtocolId = 0, rq_callId = n, rq_methodId = 2\<rparr>"

definition ex_calls :: "bytes Call list" where
  "ex_calls = [\<lparr>cl_request = ex_request 5, cl_params = [1], cl_parsed = [1]\<rparr>,
     \<lparr>cl_request = ex_request 6, cl_params = [2, 3], cl_parsed = [2, 3]\<rparr>]"

lemma ex_calls_ok: "\<forall>r \<in> set ex_calls. call_ok mv ex_rmc r"
  by (simp add: ex_calls_def call_ok_def ex_rmc_def ex_request_def request_ok_def call_key_def)

definition ex_server :: "bytes Runtime PrudpServer" where
  "ex_server = registerPRUDPServer 1
     (PrudpServer_init 0 [65, 66] True 0 [] True 0 0 0 1 [] \<lparr>rt_server = ex_rmc, rt_tasks = []\<rparr>)"

lemma ex_server_fields [simp]:
  "majorVersion ex_server = 0" "sv_maxSubstreamId ex_server = 0" "auth ex_server = True"
  "clients ex_server = (\<lambda>_. None)" "pidToAddr ex_server = (\<lambda>_. None)" "delayedPackets ex_server = []"
  "rmc ex_server = \<lparr>rt_server = ex_rmc, rt_tasks = []\<rparr>" "sv_accessKey ex_server = [65, 66]"
  "proxyMap ex_server = (\<lambda>_. None)" "nextSessionId ex_server = 0"
  "registeredServers ex_server 1 = Some \<lparr>startFunc = lift_server rmc_start, stopFunc = runtime_stop,
     connectFunc = scheduleOnConnect, disconnectFunc = scheduleOnDisconnect, dataFunc = runtime_onData\<rparr>"
  by (simp_all add: ex_server_def registerPRUDPServer_def registerRMCServer_def PrudpServer_init_def)

lemma ex_server_fine: "server_fine 0 ex_server"
  by (simp add: server_fine_def delayed_fine_def)

section \<open>A client\<close>

definition ex_ip :: IPv4Addr where
  "ex_ip = \<lparr>ip_a = 10, ip_b = 0, ip_c = 0, ip_d = 5, ip_port = 50000\<rparr>"

definition ex_connect :: Packet where
  "ex_connect = (new_packet False)\<lparr>p_type := CONNECT, p_flags := 6, srcPort := 15, dstPort := 1,
     seqId := 1\<rparr>"

definition ex_addr :: PRUDPAddress where
  "ex_addr = prudp_address ex_ip ex_connect"

definition ex_info :: ConnectInfo where
  "ex_info = \<lparr>co_sessionKey = default_key, co_pid = 0, co_connectionId = 0, co_checkValue = 0\<rparr>"

definition ex_encoders :: PayloadEncoder where
  "ex_encoders = (case PayloadEncoder_init default_key 0 of Inr pe \<Rightarrow> pe | Inl _ \<Rightarrow> undefined)"

definition ex_channel :: "bytes Runtime Channel" where
  "ex_channel = calls_channel ex_env ex_addr 0 1 0 (encoders ex_encoders ! 0)
     (rt_server (rmc ex_server)) ex_calls"

lemma ex_channel_fields [simp]:
  "ch_env ex_channel = ex_env" "ch_addr ex_channel = ex_addr" "ch_sub ex_channel = 0" "ch_port ex_channel = 1"
  "ch_messages ex_channel = map call_message ex_calls" "ch_start ex_channel = 1" "ch_minor ex_channel = 0"
  "ch_encoder ex_channel = encoders ex_encoders ! 0"
  by (simp_all add: ex_channel_def calls_channel_def)

lemma ex_channel_ok: "channel_ok ex_channel"
  by (simp add: channel_ok_def ex_calls_def MAX_PACKET_QUEUE_SIZE_def)

lemma ex_connect_fields [simp]:
  "p_type ex_connect = CONNECT" "\<not> has_flag ex_connect FLAG_ACK" "\<not> has_flag ex_connect FLAG_MULTI_ACK"
  "dstPort ex_connect = 1" "p_data ex_connect = []" "p_encoder ex_connect = None" "encryptedData ex_connect = []"
  by (simp_all add: ex_connect_def new_packet_def has_flag_def FLAG_ACK_def FLAG_MULTI_ACK_def)

lemma ex_connects: "connects ex_env ex_server addr ex_connect ex_info"
  by (simp add: connects_def version_refused_def authenticate_def ex_info_def room_for_def default_key_def)

lemma ex_opens: "opens ex_channel ex_server ex_connect ex_info"
proof -
  have ser: "serves ex_channel ex_server"
    unfolding ex_channel_def by (rule calls_channel_serves) (use ex_calls_ok in simp_all)
  obtain pe where "PayloadEncoder_init default_key 0 = Inr pe"
    using PayloadEncoder_init_defined [of default_key 0] by (auto simp: default_key_def)
  then have "\<exists>pe. PayloadEncoder_init (co_sessionKey ex_info) 0 = Inr pe \<and>
      ch_encoder ex_channel = encoders pe ! unat (ch_sub ex_channel)"
    by (simp add: ex_encoders_def ex_info_def)
  moreover have "ch_good ex_channel (rmc (notify_connect (dstPort ex_connect) ex_addr 0 ex_server))"
    by (simp add: ex_channel_def calls_channel_def takes_calls_def notify_connect_def
        scheduleOnConnect_def schedule_def) (simp add: ex_rmc_def)
  ultimately show ?thesis
    using ex_connects ser by (simp add: opens_def packet_substream_def) (simp add: ex_info_def)
qed

text \<open>The packet of message \<open>i\<close>, signed.\<close>

definition ex_data :: "nat \<Rightarrow> Packet" where
  "ex_data i =
     (let p = (new_packet False)\<lparr>p_type := DATA, p_flags := 6, srcPort := 15, dstPort := 1,
           seqId := of_nat (i + 2), p_accessKey := [65, 66], encryptedData := ciphertexts ex_channel ! i\<rparr>
      in p\<lparr>p_signature := calculateSignatureV0 sum_crypto p []\<rparr>)"

lemma ex_data_fields [simp]:
  "isV1 (ex_data i) = False" "p_type (ex_data i) = DATA" "p_flags (ex_data i) = 6" "srcPort (ex_data i) = 15"
  "dstPort (ex_data i) = 1" "seqId (ex_data i) = of_nat (i + 2)" "p_accessKey (ex_data i) = [65, 66]"
  "encryptedData (ex_data i) = ciphertexts ex_channel ! i" "p_data (ex_data i) = []" "friends (ex_data i) = True"
  "fragmentId (ex_data i) = 0" "substreamId (ex_data i) = 0" "srcStreamType (ex_data i) = 10"
  "dstStreamType (ex_data i) = 10"
  by (simp_all add: ex_data_def Let_def new_packet_def)

text \<open>The signature of such a packet does not depend on the session.\<close>

lemma friends_data_signature:
  "friends p \<Longrightarrow> p_type p = DATA \<Longrightarrow> calculateSignatureV0 cr p remote =
    (if encryptedData p = [] then [0x78, 0x56, 0x34, 0x12]
     else take 4 (HMAC_MD5 cr (MD5 cr (p_accessKey p)) (encryptedData p)))"
  by (simp add: calculateSignatureV0_def)

lemma ex_data_signature:
  "p_signature (ex_data i) = calculateSignatureV0 sum_crypto (ex_data i) remote"
  by (simp add: friends_data_signature) (simp add: ex_data_def Let_def friends_data_signature new_packet_def)

lemma ex_data_flags [simp]:
  "has_flag (ex_data i) FLAG_RELIABLE" "\<not> has_flag (ex_data i) FLAG_ACK" "\<not> has_flag (ex_data i) FLAG_MULTI_ACK"
  by (simp_all add: has_flag_def FLAG_ACK_def FLAG_MULTI_ACK_def FLAG_RELIABLE_def)

lemma ex_data_carries: "i < 2 \<Longrightarrow> carries ex_channel i (ex_data i)"
  by (auto simp: carries_def ex_calls_def less_2_cases_iff)

lemma ex_data_carries_only: "carries ex_channel j (ex_data i) \<Longrightarrow> i < 2 \<Longrightarrow> j = i"
  by (auto simp: carries_def less_2_cases_iff)

lemma ex_data_admitted:
  assumes "majorVersion s = 0"
  shows "admitted ex_channel ex_ip s (ex_data i)"
proof -
  let ?p = "with_session ex_env s ex_addr (ex_data i)"
  have "isV1 ?p = False" "friends ?p = True" "p_type ?p = DATA" "encryptedData ?p = encryptedData (ex_data i)"
    "p_accessKey ?p = p_accessKey (ex_data i)" "p_signature ?p = p_signature (ex_data i)"
    by (simp_all add: with_session_def Let_def split: option.splits)
  then have "checkSignature sum_crypto ?p"
    using ex_data_signature [of i "[]"]
    by (simp add: checkSignature_def checkSignatureV0_def friends_data_signature)
  moreover have "prudp_address ex_ip (ex_data i) = ex_addr"
    by (simp add: ex_addr_def prudp_address_def) (simp add: ex_connect_def new_packet_def)
  ultimately show ?thesis
    using assms by (simp add: admitted_def bad_substream_def packet_substream_def)
qed

text \<open>The server once the client has connected.\<close>

definition ex_connected :: "bytes Runtime PrudpServer" where
  "ex_connected = snd (handlePacket ex_env ex_addr ex_connect ex_server)"

lemma ex_connected_run: "handlePacket ex_env ex_addr ex_connect ex_server = (Inr True, ex_connected)"
  and ex_connected_receiver: "receiver ex_channel (rmc ex_connected) 0 [] ex_connected"
  and ex_connected_version [simp]: "majorVersion ex_connected = 0"
proof -
  obtain s' where s': "handle_connect (ch_env ex_channel) (ch_addr ex_channel) ex_connect ex_server = (Inr True, s')"
    "receiver ex_channel (rmc s') 0 [] s'" "majorVersion s' = majorVersion ex_server"
    using connect_opens_channel [OF _ ex_opens] by auto
  have "handlePacket ex_env ex_addr ex_connect ex_server = (Inr True, s')"
    using s'(1) by (simp add: handlePacket_def)
  then show "handlePacket ex_env ex_addr ex_connect ex_server = (Inr True, ex_connected)"
    "receiver ex_channel (rmc ex_connected) 0 [] ex_connected" "majorVersion ex_connected = 0"
    using s'(2,3) by (simp_all add: ex_connected_def)
qed

lemma ex_packets: "\<forall>q \<in> set [ex_data 1, ex_data 0]. admitted ex_channel ex_ip ex_connected q \<and>
    (\<exists>i. carries ex_channel i q)"
  using ex_data_carries [of 0] ex_data_carries [of 1] by (auto intro: ex_data_admitted)

text \<open>The datagram of the connect packet, signed with what the server has answered to its SYN packet.\<close>

definition ex_connect_sent :: Packet where
  "ex_connect_sent = ex_connect\<lparr>remoteSignature := calculateConnSignature ex_env ex_server ex_ip,
     connectionSignature := [0, 0, 0, 0], p_accessKey := [65, 66]\<rparr>"

definition ex_connect_bytes :: bytes where
  "ex_connect_bytes = fst (encodeV0 sum_crypto ex_connect_sent)"

lemma ex_connect_arrives:
  "\<exists>s. onData ex_env ex_ip ex_connect_bytes ex_server = (Inr (), s) \<and> clients s ex_addr \<noteq> None \<and> delayedPackets s \<noteq> []"
proof -
  let ?q = "fresh_packet ex_server" and ?sig = "calculateConnSignature ex_env ex_server ex_ip"
  define r where "r = receivedV0 sum_crypto ex_connect_sent ?q"
  define p where "p = r\<lparr>connectionSignature := ?sig\<rparr>"
  have sent: "p_type ex_connect_sent = CONNECT" "p_data ex_connect_sent = []" "encryptedData ex_connect_sent = []"
    "friends ex_connect_sent" "p_flags ex_connect_sent = 6" "srcPort ex_connect_sent = 15" "dstPort ex_connect_sent = 1"
    "srcStreamType ex_connect_sent = 10" "dstStreamType ex_connect_sent = 10" "remoteSignature ex_connect_sent = ?sig"
    "connectionSignature ex_connect_sent = [0, 0, 0, 0]" "p_accessKey ex_connect_sent = [65, 66]"
    by (simp_all add: ex_connect_sent_def ex_connect_def new_packet_def)
  have sig: "length ?sig = 4" "?sig \<noteq> []" by (simp_all add: calculateConnSignature_def Let_def)
  have ok: "sentV0_ok ex_connect_sent" using sig(1) by (simp add: sentV0_ok_def fields_fit_def sent)
  have dec: "decode_packet ?q ex_connect_bytes = Inr (r, length ex_connect_bytes)"
    using decodeV0_encodeV0 [OF sum_crypto_ok ok, of ?q]
    by (simp add: decode_packet_def ex_connect_bytes_def r_def v1_def sent)
  have fields: "p_type p = CONNECT" "isV1 p = False" "p_data p = []" "p_encoder p = None" "friends p"
    "connectionSignature p = ?sig" "p_flags p = 6" "dstPort p = 1" "p_signature p = ?sig"
    using sig(2)
    by (simp_all add: p_def r_def receivedV0_def Let_def sent v1_def fresh_packet_def new_packet_def encrypt_payload_def
        calculateSignatureV0_def or_zeros_def ex_server_def registerPRUDPServer_def registerRMCServer_def PrudpServer_init_def)
  have addr: "prudp_address ex_ip r = ex_addr"
    by (simp add: prudp_address_def r_def receivedV0_def Let_def sent ex_addr_def) (simp add: ex_connect_def new_packet_def)
  have session: "with_session ex_env ex_server ex_addr r = p"
    using fields(1) by (simp add: with_session_def p_def ex_addr_def prudp_address_def)
  have signed: "checkSignature (crypto ex_env) p"
    using sig(2) fields by (simp add: checkSignature_def checkSignatureV0_def calculateSignatureV0_def or_zeros_def)
  have "connects ex_env ex_server ex_addr p ex_info"
    using fields by (simp add: connects_def version_refused_def authenticate_def ex_info_def room_for_def default_key_def)
  from handle_connect_accepts [OF _ this] obtain pe s where s: "handle_connect ex_env ex_addr p ex_server = (Inr True, s)"
    "clients s ex_addr \<noteq> None" "delayedPackets s \<noteq> []"
    by (auto simp: packet_substream_def pinged_def dest: length_pos_if_in_set)
  have "handlePacket ex_env ex_addr p ex_server = (Inr True, s)"
    using s(1) fields by (simp add: handlePacket_def has_flag_def FLAG_ACK_def FLAG_MULTI_ACK_def)
  then have "processPacket ex_env ex_ip r ex_server = (Inr (), s)"
    using signed fields(1) by (simp add: processPacket_def Let_def addr session)
  moreover obtain d where d: "ex_connect_bytes = 0xAF # d"
    by (simp add: ex_connect_bytes_def encodeV0_def Let_def encrypt_payload_def sent)
  ultimately have "packets_loop ex_env ex_ip ex_connect_bytes ex_server = (Inr (), s)"
    using dec by (subst packets_loop.simps) (auto simp: packets_loop.simps [of _ _ "[]"])
  moreover have "resolve_proxy ex_ip ex_connect_bytes ex_server = (Inr (Some (ex_ip, ex_connect_bytes)), ex_server)"
    by (simp add: resolve_proxy_def proxy_magic_def fun_upd_idem d)
  ultimately show ?thesis using s(2,3) by (simp add: onData_def bindS_def swallowS_def)
qed

text \<open>The client as it is right after its registration, and the object its own end decodes into.\<close>

definition ex_client :: PrudpClient where
  "ex_client = new_client ex_env ex_server ex_connect ex_info ex_encoders"

definition ex_linked :: "bytes Runtime PrudpServer" where
  "ex_linked = set_client ex_addr ex_client ex_server"

definition ex_peer :: Packet where
  "ex_peer = (new_packet False)\<lparr>p_accessKey := [65, 66]\<rparr>"

lemma ex_encoders_fields:
  "length (encoders ex_encoders) = 1" "synced (encoders ex_encoders ! 0) (encoders ex_encoders ! 0)"
proof -
  obtain pe where "PayloadEncoder_init default_key 0 = Inr pe" "length (encoders pe) = 1"
    "\<forall>e \<in> set (encoders pe). synced e e"
    using PayloadEncoder_init_defined [of default_key 0] by (auto simp: default_key_def)
  then show "length (encoders ex_encoders) = 1" "synced (encoders ex_encoders ! 0) (encoders ex_encoders ! 0)"
    by (simp_all add: ex_encoders_def)
qed

lemma ex_encoders_not_Nil: "encoders ex_encoders \<noteq> []"
  using ex_encoders_fields(1) by auto

lemma ex_linked_ready:
  "ready ex_addr 0 ex_client ex_linked" "client_peer ex_linked ex_client ex_peer"
  "cl_encoder ex_client = ex_encoders"
  using ex_encoders_not_Nil
  by (simp_all add: ready_def ex_linked_def set_client_def ex_client_def address_fits_def ex_addr_def
      prudp_address_def ex_connect_def new_packet_def client_peer_def ex_peer_def v1_def)
    (simp_all add: new_client_def ex_connect_def new_packet_def)

section \<open>Data\<close>

text \<open>A concrete \<^verbatim>\<open>inet_pton\<close>: the parser of dotted quads the server has for its own configuration.\<close>

definition ex_inet :: inet_pton where
  "ex_inet str =
     (case stringToIPv4 str of Inr a \<Rightarrow> Some (ip_a a, ip_b a, ip_c a, ip_d a) | Inl _ \<Rightarrow> None)"

lemma while_upto:
  "c \<notin> set xs \<Longrightarrow> takeWhile (\<lambda>x. x \<noteq> c) (xs @ c # ys) = xs \<and> dropWhile (\<lambda>x. x \<noteq> c) (xs @ c # ys) = c # ys"
  "c \<notin> set xs \<Longrightarrow> takeWhile (\<lambda>x. x \<noteq> c) xs = xs \<and> dropWhile (\<lambda>x. x \<noteq> c) xs = []"
  by (induction xs) auto

lemma split_at_Cons:
  "c \<notin> set xs \<Longrightarrow> xs \<noteq> [] \<Longrightarrow> split_at c (xs @ c # ys) = xs # split_at c ys"
  by (subst split_at.simps) (simp add: while_upto Let_def)

lemma split_at_last:
  assumes "c \<notin> set xs" and "xs \<noteq> []"
  shows "split_at c xs = [xs]"
  using while_upto(2) [OF assms(1)] assms(2)
  by (subst split_at.simps) (simp add: Let_def del: takeWhile_eq_all_conv dropWhile_eq_Nil_conv)

lemma ex_inet_inverse: "inet_inverse ex_inet"
proof -
  have dot: "CHR ''.'' \<notin> set (to_string n)" for n
    by (rule printed_chars) (simp add: is_digit_def)
  have "stoi (to_string (unat a)) = Inr (int (unat a))" for a :: u8
    using order_less_trans [OF unat_word_bounds(1) [of a], of "2 ^ 31"] by (simp add: stoi_to_string)
  then have "stringToIPv4 (ipv4ToString (a, b, c, d)) =
      Inr \<lparr>ip_a = a, ip_b = b, ip_c = c, ip_d = d, ip_port = 0\<rparr>" for a b c d
    by (simp add: stringToIPv4_def ipv4ToString_def split_at_Cons [OF dot] split_at_last [OF dot])
  then show ?thesis by (simp add: inet_inverse_def ex_inet_def)
qed

text \<open>A ticket, and the request that is made out of it.\<close>

lemma ex_date: "datetime_ok 0"
  unfolding datetime_ok_def by code_simp

lemma ex_ticket:
  obtains internal ticket where
    "internalTicket sum_crypto 0 [5, 6] 1800 (generateUserKey sum_crypto [1, 2] 2) = Inr internal"
    "connect_request sum_crypto [5, 6] internal 1800 3 4 = Inr ticket"
proof -
  have k: "generateUserKey sum_crypto [1, 2] 2 \<noteq> []"
    using length_generateUserKey [OF sum_crypto_ok, of "[1, 2]" 2] by auto
  obtain internal where i: "internalTicket sum_crypto 0 [5, 6] 1800 (generateUserKey sum_crypto [1, 2] 2) = Inr internal"
    using k by (auto simp: internalTicket_def arc4_once_def arc4_init_def)
  obtain ticket where "connect_request sum_crypto [5, 6] internal 1800 3 4 = Inr ticket"
    by (auto simp: connect_request_def arc4_once_def arc4_init_def Let_def)
  with i show thesis by (rule that)
qed

lemma ex_ticket_accepted:
  obtains d where "decryptConnectRequest sum_crypto 0 d [1, 2] 2 =
    Inr \<lparr>co_sessionKey = [5, 6], co_pid = 1800, co_connectionId = 3, co_checkValue = 4\<rparr>"
proof -
  obtain internal ticket where
    "internalTicket sum_crypto 0 [5, 6] 1800 (generateUserKey sum_crypto [1, 2] 2) = Inr internal"
    "connect_request sum_crypto [5, 6] internal 1800 3 4 = Inr ticket"
    by (rule ex_ticket)
  from connect_request_accepted [OF sum_crypto_ok ex_date _ _ _ this, of 0] show thesis
    by (intro that) (simp add: two_minutes_def)
qed

definition ex_url :: StationURL where
  "ex_url = (empty_url PRUDP)\<lparr>su_ip := Some (10, 0, 0, 1), su_port := Some 50000, su_PID := Some 1800000000,
     su_natm := Some 1, su_upnp := Some True\<rparr>"

definition ex_session :: MatchmakeSession where
  "ex_session = \<lparr>minorVersion = 3, g_id = 9, ownerPid = 10, hostPid = 10, minParticipants = 1,
     maxParticipants = 8, participationPolicy = 98, policyArgument = 0, g_flags = 512, g_state = 0,
     description = ''ink'', gameMode = 12, attributes = [0, 100, 0], openParticipation = True,
     matchmakeSystemType = 1, appBuffer = [1, 2], participationCount = 0, progressScore = 100,
     sessionKey = [7, 8, 9], option0 = 0, matchmakeParam = \<lparr>mp_minorVersion = 3, mp_params = []\<rparr>,
     startedTime = 0, userPassword = '''', referGid = 0, userPasswordEnabled = False,
     systemPasswordEnabled = False\<rparr>"

lemma ex_url_ok: "url_ok ex_url"
proof -
  have len: "length (to_string n) \<le> 10" if "n < 10 ^ 10" for n
    using length_to_string [of n 9] that by simp
  have "length (encodeString ex_url) \<le> 200"
    using len [of 10] len [of 0] len [of 1] len [of 50000] len [of 1800000000]
    by (simp add: encodeString_def ex_url_def empty_url_def url_segments_def seg_def ipv4ToString_def
        show_num_def show_bool_def)
  then show ?thesis
    by (simp add: url_ok_def ex_url_def empty_url_def url_segments_def seg_def num_ok_def string_ok_def)
qed

end
