(* ===== verification/SplatoonExamples.thy ===== *)
theory SplatoonExamples
  imports SplatoonService Examples
begin

text \<open>
  A small game server for the witnesses: users 10 and 20 are connected and registered, and user 10
  is alone in a session for one player.
\<close>

definition ex_player_addr :: "u32 \<Rightarrow> PRUDPAddress" where
  "ex_player_addr pid = ex_addr\<lparr>pa_address := ex_ip\<lparr>ip_port := ucast pid\<rparr>\<rparr>"

definition ex_player :: "u32 \<Rightarrow> ClientInfo" where
  "ex_player pid = \<lparr>ci_address = ex_player_addr pid, ci_minorVersion = 0, ci_substreamId = 0,
     ci_serverId = 7, ci_pid = pid\<rparr>"

definition ex_member :: "u32 \<Rightarrow> addr list \<Rightarrow> SplatoonRegisteredClientInfo" where
  "ex_member pid js = \<lparr>sr_client = ex_player pid, sr_urls = [], sr_publicUrl = empty_url PRUDP,
     sr_rvConnId = pid, joinedGatherings = js,
     lastReportedNATProperties = \<lparr>np_mapping = 0, np_filtering = 0, np_rtt = 0\<rparr>\<rparr>"

definition ex_lobby :: MatchmakeSession where
  "ex_lobby = ex_session\<lparr>g_id := 9, ownerPid := 10, hostPid := 10, minParticipants := 1,
     maxParticipants := 1, openParticipation := True, participationCount := 1,
     userPasswordEnabled := False\<rparr>"

definition ex_lobby_state :: "u32 list \<Rightarrow> LocalSharedState" where
  "ex_lobby_state players =
     \<lparr>ss_serverId = 7, publicFacingRPCAddress = '''', friendsInfos = [],
      clientInfos = [(10, ex_member 10 [0]), (20, ex_member 20 (if 20 \<in> set players then [0] else []))],
      sessions = [(9, \<lparr>si_session = 0, si_players = players\<rparr>)],
      heap = (\<lambda>_. ex_lobby\<lparr>participationCount := of_nat (length players)\<rparr>), next_addr = 1\<rparr>"

lemma ex_lobby_consistent: "consistent (ex_lobby_state [10])" "consistent (ex_lobby_state [10, 20])"
  by (simp_all add: ss_inv_def session_entry_ok_def joined_ok_def gathering_ids_def plays_def
      ex_lobby_state_def ex_member_def ex_lobby_def)

definition ex_game :: "u32 list \<Rightarrow> Splatoon" where
  "ex_game players = (Splatoon_init ex_inet 7 (ex_lobby_state players))
     \<lparr>sp_rmc := (sp_rmc (Splatoon_init ex_inet 7 (ex_lobby_state players)))
        \<lparr>pidMap := [ex_player_addr 10 \<mapsto> 10, ex_player_addr 20 \<mapsto> 20]\<rparr>\<rparr>"

lemma ex_game_fields [simp]:
  "sp_state (ex_game players) = ex_lobby_state players" "shouldStop (sp_rmc (ex_game players)) = False"
  "rmc_serverId (sp_rmc (ex_game players)) = 7" "replies (ex_game players) = []"
  "pidMap (sp_rmc (ex_game players)) (ex_player_addr 20) = Some 20" "nextRVConnId (ex_game players) = 1"
  using registerCall_fold [of "splatoon_calls ex_inet" "\<lparr>shouldStop = False, rmc_serverId = 7,
    pidMap = Map.empty, calls = Map.empty, requestsQueue = []\<rparr>"]
  by (simp_all add: ex_game_def Splatoon_init_def register_splatoon_def splatoon_calls_def replies_def)

definition ex_game_env :: SplatoonEnv where
  "ex_game_env = \<lparr>en_now = 0, en_draws = (\<lambda>n. of_nat (9 + n)), en_key = [1, 2], en_db = None,
     en_grpc_notify = (\<lambda>_ _ _. True), en_grpc_probe = (\<lambda>_ _ _. True)\<rparr>"

definition ex_join :: JoinMatchmakeSessionParam where
  "ex_join = \<lparr>jp_gid = 9, jp_additionalParticipants = [], jp_gidForParticipationCheck = 0,
     jp_joinMatchmakeSessionOption = 0, jp_joinMathcmakeSessionBehavior = 0, jp_userPassword = '''',
     jp_systemPassword = '''', jp_joinMessage = '''', jp_participationCount = 1\<rparr>"

definition ex_join_request :: "SplatoonParams RequestInfo" where
  "ex_join_request = \<lparr>ri_client = ex_player 20,
     ri_request = \<lparr>rq_protocolId = 109, rq_extendedProtocolId = 0, rq_callId = 3, rq_methodId = 39\<rparr>,
     ri_params = JoinMatchmakeSessionWithParam ex_join\<rparr>"

lemma ex_join_granted: "join_granted (ex_lobby_state [10]) 20 ex_join \<lparr>si_session = 0, si_players = [10]\<rparr>"
  by (simp add: join_granted_def ex_lobby_state_def ex_lobby_def ex_join_def getSplatoonMatchmakeSession_def
      getSplatoonRegisteredClientInfo_def Let_def)

lemma ex_join_runs: "\<exists>s'. run_call ex_game_env ex_join_request (ex_game players) = (Inr (), s')"
proof -
  obtain u s' where "joinMatchmakeSessionWithParam ex_game_env (ex_player 20) (ri_request ex_join_request)
      ex_join (ex_game players) = (Inr u, s')"
    by (rule calmE [OF calm_join])
  then show ?thesis by (simp add: run_call_def ex_join_request_def splatoon_call_def)
qed

end
