(* ===== verification/AuthFacts.thy ===== *)
theory AuthFacts
  imports Auth
begin

text \<open>
  What the authentication server promises: who gets a ticket, that the secure server takes it, and
  where it answers a request twice.
\<close>

section \<open>Names that are numbers\<close>

lemma char_digit_of_digit: "is_digit c \<Longrightarrow> char_digit c = digit_value c \<and> char_digit c < 10"
  by (auto simp: char_digit_def digit_value_def is_digit_def Let_def)

lemma read_base_digits: "list_all is_digit ds \<Longrightarrow> read_base 10 ds = read_digits ds"
proof -
  assume d: "list_all is_digit ds"
  have "foldl (\<lambda>n c. 10 * n + char_digit c) k ds = foldl (\<lambda>n c. 10 * n + digit_value c) k ds" for k
    using d by (induction ds arbitrary: k) (simp_all add: char_digit_of_digit)
  then show ?thesis by (simp add: read_base_def read_digits_def)
qed

lemma stoul_digits:
  assumes d: "list_all is_digit s" and "s \<noteq> []"
  shows "stoul 10 s = (if 2 ^ 64 \<le> read_digits s then Inl OutOfRange else Inr (read_digits s))"
proof -
  have hd: "is_digit (hd s)" using assms by (cases s) simp_all
  then have "\<not> is_space (hd s)" "hd s \<noteq> CHR ''-''" "hd s \<noteq> CHR ''+''"
    by (auto simp: is_digit_def is_space_def)
  note facts = this
  have drop: "dropWhile is_space s = s" using assms(2) facts(1) by (cases s) simp_all
  have take: "takeWhile (\<lambda>c. char_digit c < 10) s = s"
    using d by (auto simp: takeWhile_eq_all_conv list_all_iff dest: char_digit_of_digit)
  show ?thesis
    using assms(2) by (simp add: stoul_def drop_prefix_def read_base_digits [OF d] Let_def drop take facts)
qed

lemma stoi_digits:
  assumes d: "list_all is_digit s" and "s \<noteq> []"
  shows "stoi s = (if read_digits s < 2 ^ 31 then Inr (int (read_digits s)) else Inl OutOfRange)"
proof -
  have hd: "is_digit (hd s)" using assms by (cases s) simp_all
  then have "\<not> is_space (hd s)" "hd s \<noteq> CHR ''-''" "hd s \<noteq> CHR ''+''"
    by (auto simp: is_digit_def is_space_def)
  note facts = this
  have drop: "dropWhile is_space s = s" using assms(2) facts(1) by (cases s) simp_all
  have take: "takeWhile is_digit s = s" using d by (simp add: takeWhile_eq_all_conv list_all_iff)
  show ?thesis
    using assms(2) by (auto simp: stoi_def Let_def int_min_def int_max_def drop take facts)
qed

lemma login_number_cases:
  "login_number s = (if \<not> list_all is_digit s then Inr None else if s = [] then Inl InvalidArgument
     else if 2 ^ 64 \<le> read_digits s then Inr None else Inr (Some (of_nat (read_digits s))))"
  by (simp add: login_number_def stoul_digits) (simp add: stoul_def drop_prefix_def)

lemma claimed_pid_cases:
  "claimed_pid client s = (if \<not> list_all is_digit s then Inr (ci_pid client) else if s = [] then Inl InvalidArgument
     else if read_digits s < 2 ^ 31 then Inr (of_nat (read_digits s)) else Inr (ci_pid client))"
  by (simp add: claimed_pid_def stoi_digits) (simp add: stoi_def)

text \<open>A name as the account service prints it.\<close>

lemma printed_pid:
  assumes "unat pid < 2 ^ 31"
  shows "login_number (to_string (unat pid)) = Inr (Some pid)" "claimed_pid client (to_string (unat pid)) = Inr pid"
proof -
  show "login_number (to_string (unat pid)) = Inr (Some pid)" "claimed_pid client (to_string (unat pid)) = Inr pid"
    using assms by (simp_all add: login_number_cases claimed_pid_cases to_string_digits read_digits_to_string)
qed

section \<open>Logging in\<close>

lemma send_ticket_result:
  assumes "\<not> shouldStop (au_rmc s)" and "crypto_ok (ae_crypto ev)"
  shows "\<exists>ticket. new_ticket ev (au_config s) pid passwd = Inr ticket \<and>
    send_ticket ev client req pid passwd s = (Inr (), s\<lparr>au_out := au_out s @
      [(client, auth_ok req, login_accepted (au_config s) (ci_minorVersion client) pid ticket)]\<rparr>)"
proof -
  obtain ticket where "new_ticket ev (au_config s) pid passwd = Inr ticket"
    using generateTicket_total [OF assms(2)] unfolding new_ticket_def by blast
  then show ?thesis using assms(1) by (simp add: send_ticket_def auth_send_def)
qed

lemma db_access_result:
  "db_access ev pid s = (Inr (ae_access ev (au_db s) pid), s\<lparr>au_db := au_db s @ [GetGameServerAccess pid]\<rparr>)"
  by (simp add: db_access_def)

lemma login_pid_accepted:
  assumes run: "\<not> shouldStop (au_rmc s)" and cr: "crypto_ok (ae_crypto ev)"
    and acc: "ae_access ev (au_db s) pid = AccessPassword p" and "p \<noteq> []"
  shows "\<exists>ticket s'. new_ticket ev (au_config s) pid p = Inr ticket \<and>
    login_pid ev client req pid s = (Inr (), s') \<and> au_out s' = au_out s @
      [(client, auth_ok req, login_accepted (au_config s) (ci_minorVersion client) pid ticket)]"
proof -
  let ?s = "s\<lparr>au_db := au_db s @ [GetGameServerAccess pid]\<rparr>"
  obtain ticket where "new_ticket ev (au_config ?s) pid p = Inr ticket"
    "send_ticket ev client req pid p ?s = (Inr (), ?s\<lparr>au_out := au_out ?s @
      [(client, auth_ok req, login_accepted (au_config ?s) (ci_minorVersion client) pid ticket)]\<rparr>)"
    using send_ticket_result [of ?s ev pid p client req] run cr by auto
  then show ?thesis
    using assms(3,4) by (simp add: login_pid_def bindS_Inr [OF db_access_result] password_of_def)
qed

text \<open>Without an account the answer is a refusal.\<close>

lemma login_pid_refused:
  assumes "\<not> shouldStop (au_rmc s)" and "password_of (ae_access ev (au_db s) pid) = []"
    and "ae_access ev (au_db s) pid \<noteq> AccessFailed"
  shows "\<exists>s'. login_pid ev client req pid s = (Inr (), s') \<and> au_out s' = au_out s @
      [(client, auth_ok req, login_refused (ci_minorVersion client) RENDEZ_VOUS__INVALID_USERNAME)]"
  using assms by (simp add: login_pid_def bindS_Inr [OF db_access_result] auth_send_def)

section \<open>The token\<close>

lemma checkJWT_accepts:
  assumes tc: "base64_ok (ae_tokens ev)" and sign: "signJWT (ae_tokens ev) (ac_jwtKey cf) payload = Inr token"
    and json: "ae_json ev (bytes_of_string payload) = Inr \<lparr>jw_exp = Inr e, jw_iss = Inr ''account'',
      jw_game_server_id = Inr (ac_serverId cf), jw_sub = Inr pid, jw_username = Inr name\<rparr>"
    and "ae_time ev \<le> e"
  shows "checkJWT ev (ac_jwtKey cf) (ac_serverId cf) pid token = Inr (Some name)"
  using assms(4) by (simp add: checkJWT_def signed_token [OF tc sign] json)

text \<open>What it checks.\<close>

definition good_token :: "AuthEnv \<Rightarrow> AuthConfig \<Rightarrow> u32 \<Rightarrow> string \<Rightarrow> bool" where
  "good_token ev cf pid token \<longleftrightarrow> verifyJWT (ae_tokens ev) (ac_jwtKey cf) token = Inr True \<and>
     (\<exists>d j e. jwt_payload (ae_tokens ev) token = Inr d \<and> ae_json ev d = Inr j \<and> jw_exp j = Inr e \<and> ae_time ev \<le> e \<and>
       jw_iss j = Inr ''account'' \<and> jw_game_server_id j = Inr (ac_serverId cf) \<and> jw_sub j = Inr pid)"

lemma checkJWT_good: "checkJWT ev (ac_jwtKey cf) (ac_serverId cf) pid token = Inr (Some name) \<Longrightarrow> good_token ev cf pid token"
  by (auto simp: checkJWT_def good_token_def bindE_eq_Inr_iff split: if_splits)

lemma loginEx_accepted:
  assumes cr: "crypto_ok (ae_crypto ev)" and run: "\<not> shouldStop (au_rmc s)"
    and good: "checkJWT ev (ac_jwtKey (au_config s)) (ac_serverId (au_config s)) pid (authToken info) = Inr (Some name)"
    and str: "string_ok (authToken info)" and pid: "unat pid < 2 ^ 31"
    and acc: "ae_access ev (au_db s) pid = AccessPassword p" "p \<noteq> []"
  shows "\<exists>ticket s'. new_ticket ev (au_config s) pid p = Inr ticket \<and>
    loginEx ev client req (to_string (unat pid)) \<lparr>adh_type = ''AuthenticationInfo'',
      adh_data = encode_AuthenticationInfo (ci_minorVersion client) info\<rparr> s = (Inr (), s') \<and>
    au_out s' = au_out s @ [(client\<lparr>ci_pid := pid\<rparr>, auth_ok req,
      login_accepted (au_config s) (ci_minorVersion client) pid ticket)]"
proof -
  have dec: "\<exists>n. decode_AuthenticationInfo mv (encode_AuthenticationInfo mv info) = Inr (info, n)" for mv
    using AuthenticationInfo_decode_encode [OF str, of mv "[]"] by simp
  obtain ticket s' where t: "new_ticket ev (au_config s) pid p = Inr ticket"
    "login_pid ev (client\<lparr>ci_pid := pid\<rparr>) req pid s = (Inr (), s')" "au_out s' = au_out s @
      [(client\<lparr>ci_pid := pid\<rparr>, auth_ok req, login_accepted (au_config s) (ci_minorVersion client) pid ticket)]"
    using login_pid_accepted [OF run cr acc, of "client\<lparr>ci_pid := pid\<rparr>" req] by auto
  have "to_string (unat pid) \<noteq> ''guest''"
    using to_string_digits [of "unat pid"] by (auto simp: is_digit_def)
  then have "auth_login ev (client\<lparr>ci_pid := pid\<rparr>) req (to_string (unat pid)) s = (Inr (), s')"
    using t(2) by (simp add: auth_login_def printed_pid [OF pid])
  then show ?thesis
    using t dec [of "ci_minorVersion client"]
    by (auto simp: loginEx_def printed_pid [OF pid] Let_def good)
qed

section \<open>Who gets a ticket\<close>

text \<open>With no user on the connection, the account that is asked for is that of the token.\<close>

lemma own_account:
  assumes "claimed_pid client username = Inr own" and "ci_pid client = 0" and "own \<noteq> 0"
    and "login_number username = Inr (Some pid) \<or> login_number username = Inr None \<and> pid = 0"
  shows "pid = own"
  using assms by (auto simp: claimed_pid_cases login_number_cases split: if_splits)

section \<open>Two answers\<close>

lemma unknown_name_twice:
  fixes client req
  assumes run: "\<not> shouldStop (au_rmc s)" and name: "login_number username = Inr None"
    "\<not> (ac_friends (au_config s) \<and> username = ''guest'')"
    and acc: "ae_access ev (au_db s) 0 = NoAccess"
  defines "no \<equiv> (client :: ClientInfo, auth_ok req, login_refused (ci_minorVersion client) RENDEZ_VOUS__INVALID_USERNAME)"
  shows "\<exists>s'. auth_login ev client req username s = (Inr (), s') \<and> au_out s' = au_out s @ [no, no]"
proof -
  let ?s = "s\<lparr>au_out := au_out s @ [no]\<rparr>"
  obtain s' where "login_pid ev client req 0 ?s = (Inr (), s')" "au_out s' = au_out ?s @ [no]"
    using login_pid_refused [of ?s ev 0 client req] run acc by (auto simp: password_of_def no_def)
  moreover have "auth_send client (auth_ok req)
      (login_refused (ci_minorVersion client) RENDEZ_VOUS__INVALID_USERNAME) s = (Inr (), ?s)"
    using run by (simp add: auth_send_def no_def)
  moreover have "\<not> (ac_friends (au_config s) \<and> username = ''guest'')" by (rule name(2))
  ultimately show ?thesis using name by (auto simp: auth_login_def)
qed

section \<open>Tickets sold\<close>

lemma le_bytes_inject: "le_bytes 4 (v :: u32) = le_bytes 4 w \<longleftrightarrow> v = w"
  by (metis le_word_le_bytes_word(4))

lemma answers_differ:
  "login_accepted cf mv pid t \<noteq> login_refused mv' RENDEZ_VOUS__INVALID_USERNAME"
  "login_accepted cf mv pid t \<noteq> login_refused mv' CORE__ACCESS_DENIED"
  "login_accepted cf mv pid t \<noteq> []"
  by (simp_all add: login_accepted_def login_refused_def encode_Result_def CORE__UNKNOWN_def
      RENDEZ_VOUS__INVALID_USERNAME_def CORE__ACCESS_DENIED_def le_bytes_inject)

lemma login_accepted_pid: "login_accepted cf mv pid t = login_accepted cf' mv' pid' t' \<Longrightarrow> pid = pid'"
  by (simp add: login_accepted_def encode_int_def le_bytes_inject)

lemma login_pid_sells:
  assumes run: "login_pid ev client req pid s = (r, s')"
    and new: "(c, q, login_accepted cf mv p t) \<in> set (au_out s')" "(c, q, login_accepted cf mv p t) \<notin> set (au_out s)"
  shows "p = pid \<and> au_db s' = au_db s @ [GetGameServerAccess pid]"
  using assms
  by (auto simp: login_pid_def bindS_Inr [OF db_access_result] auth_send_def send_ticket_def bindS_def answers_differ
      split: if_splits sum.splits dest: login_accepted_pid)

lemma auth_login_sells:
  assumes run: "auth_login ev client req username s = (r, s')" and "\<not> ac_friends (au_config s)"
    and new: "(c, q, login_accepted cf mv p t) \<in> set (au_out s')" "(c, q, login_accepted cf mv p t) \<notin> set (au_out s)"
  shows "login_number username = Inr (Some p) \<or> login_number username = Inr None \<and> p = 0"
proof -
  obtain num where num: "login_number username = Inr num"
    using assms by (cases "login_number username") (auto simp: auth_login_def)
  then show ?thesis
    using assms
    by (cases num) (auto simp: auth_login_def auth_send_def answers_differ dest!: login_pid_sells split: if_splits)
qed

lemma loginEx_sells:
  assumes run: "loginEx ev client req username a s = (r, s')" and fr: "\<not> ac_friends (au_config s)"
    and new: "(c, q, login_accepted cf mv p t) \<in> set (au_out s')" "(c, q, login_accepted cf mv p t) \<notin> set (au_out s)"
  shows "\<exists>info n own. decode_AuthenticationInfo (ci_minorVersion client) (adh_data a) = Inr (info, n) \<and>
    claimed_pid client username = Inr own \<and> good_token ev (au_config s) own (authToken info) \<and>
    (login_number username = Inr (Some p) \<or> login_number username = Inr None \<and> p = 0)"
proof -
  have ty: "adh_type a = ''AuthenticationInfo''"
    using run new by (auto simp: loginEx_def auth_send_def answers_differ split: if_splits)
  obtain info n where dec: "decode_AuthenticationInfo (ci_minorVersion client) (adh_data a) = Inr (info, n)"
    using run new ty
    by (cases "decode_AuthenticationInfo (ci_minorVersion client) (adh_data a)")
       (auto simp: loginEx_def auth_send_def answers_differ split: if_splits)
  obtain own where own: "claimed_pid client username = Inr own"
    using run new ty dec by (cases "claimed_pid client username") (auto simp: loginEx_def)
  obtain name where name: "checkJWT ev (ac_jwtKey (au_config s)) (ac_serverId (au_config s)) own (authToken info) = Inr (Some name)"
    using run new ty dec own
    by (cases "checkJWT ev (ac_jwtKey (au_config s)) (ac_serverId (au_config s)) own (authToken info)")
       (auto simp: loginEx_def Let_def auth_send_def answers_differ split: option.splits if_splits)
  have "auth_login ev (client\<lparr>ci_pid := own\<rparr>) req username s = (r, s')"
    using run ty dec own name by (simp add: loginEx_def Let_def)
  from auth_login_sells [OF this fr new] show ?thesis
    using dec own checkJWT_good [OF name] by blast
qed

end
