(* ===== verification/AuthExamples.thy ===== *)
theory AuthExamples
  imports AuthFacts Examples
begin

text \<open>
  A small authentication server for the witnesses: a byte encoding that has the laws of base64, user
  10 with a password, and a token for it.
\<close>

definition ex_code :: "byte \<Rightarrow> string" where
  "ex_code b = [char_of (64 + unat b div 16), char_of (64 + unat b mod 16), CHR ''A'', CHR ''A'']"

fun ex_decode :: "string \<Rightarrow> bytes" where
  "ex_decode (a # b # c # d # s) = of_nat (16 * (of_char a - 64) + (of_char b - 64)) # ex_decode s"
| "ex_decode _ = []"

definition ex_tokens :: TokenCrypto where
  "ex_tokens = \<lparr>HMAC_SHA256 = (\<lambda>k d. replicate 32 (sum_list k + 5 * sum_list d)),
     base64Encode = (\<lambda>d. concat (map ex_code d)), base64Decode = (\<lambda>s. Inr (ex_decode s)), jwt_header = ''h''\<rparr>"

lemma ex_code_chars: "set (ex_code b) \<inter> {CHR ''='', CHR ''-'', CHR ''_'', CHR ''.''} = {}"
proof -
  have "unat b < 256" using unsigned_less [of b, where ?'a = nat] by simp
  then have "unat b div 16 < 16" "unat b mod 16 < 16" by (simp_all add: less_mult_imp_div_less)
  then have "(of_char c :: nat) \<in> {64..<80}" if "c \<in> set (ex_code b)" for c
    using that by (auto simp: ex_code_def)
  moreover have "(of_char c :: nat) \<notin> {64..<80}" if "c \<in> {CHR ''='', CHR ''-'', CHR ''_'', CHR ''.''}" for c
    using that by auto
  ultimately show ?thesis by blast
qed

lemma ex_decode_code: "ex_decode (concat (map ex_code d)) = d"
proof (induction d)
  case (Cons b d)
  have "unat b < 256" using unsigned_less [of b, where ?'a = nat] by simp
  then have small: "unat b div 16 < 16" "unat b mod 16 < 16" by (simp_all add: less_mult_imp_div_less)
  have code: "(of_char (char_of (64 + x) :: char) :: nat) - 64 = x" if "x < 16" for x :: nat
    using that by simp
  have "ex_decode (ex_code b @ concat (map ex_code d)) =
      of_nat (16 * (unat b div 16) + unat b mod 16) # ex_decode (concat (map ex_code d))"
    unfolding ex_code_def append.simps ex_decode.simps code [OF small(1)] code [OF small(2)] by simp
  also have "16 * (unat b div 16) + unat b mod 16 = unat b" by simp
  finally show ?case using Cons by simp
qed simp

lemma ex_tokens_ok: "base64_ok ex_tokens"
proof -
  have len: "length (concat (map ex_code d)) mod 4 = 0" for d :: bytes
    by (induction d) (simp_all add: ex_code_def)
  have "\<exists>body k. concat (map ex_code d) = body @ replicate k (CHR ''='') \<and> k < 4 \<and> (length body + k) mod 4 = 0 \<and>
      set body \<inter> {CHR ''='', CHR ''-'', CHR ''_'', CHR ''.''} = {}" for d :: bytes
    by (rule exI [of _ "concat (map ex_code d)"], rule exI [of _ 0]) (use len ex_code_chars in auto)
  then show ?thesis by (simp add: base64_ok_def ex_tokens_def ex_decode_code)
qed

definition ex_auth :: "bool \<Rightarrow> Auth" where
  "ex_auth fr = Auth_init 1 \<lparr>ac_secureAddr = \<lparr>ip_a = 127, ip_b = 0, ip_c = 0, ip_d = 1, ip_port = 60000\<rparr>,
     ac_serverId = ''10162B00'', ac_secureServerKey = [1, 2, 3], ac_build = ''b'', ac_jwtKey = '''', ac_friends = fr\<rparr>"

definition ex_auth_env :: AuthEnv where
  "ex_auth_env = \<lparr>ae_crypto = sum_crypto, ae_tokens = ex_tokens,
     ae_json = (\<lambda>d. Inr \<lparr>jw_exp = Inr 100, jw_iss = Inr ''account'', jw_game_server_id = Inr ''10162B00'',
       jw_sub = Inr 10, jw_username = Inr ''a''\<rparr>),
     ae_now = 0, ae_time = 50, ae_genKey = (\<lambda>n. replicate n 7), ae_draw = (\<lambda>i. i),
     ae_access = (\<lambda>q pid. if pid = 10 then AccessPassword ''pw'' else NoAccess), ae_update = (\<lambda>q c. True)\<rparr>"

definition ex_token :: string where
  "ex_token = projr (signJWT ex_tokens '''' ''p'')"

definition ex_auth_info :: AuthenticationInfo where
  "ex_auth_info = \<lparr>authToken = ex_token, ai_version = 3, tokenType = 1, serverVersion = 2\<rparr>"

lemma ex_token_signed: "signJWT ex_tokens '''' ''p'' = Inr ex_token"
  by (simp add: ex_token_def signJWT_def ex_tokens_def)

lemma ex_auth_simps [simp]:
  "\<not> shouldStop (au_rmc (ex_auth fr))" "ac_friends (au_config (ex_auth fr)) = fr"
  "au_out (ex_auth fr) = []" "au_db (ex_auth fr) = []" "ac_jwtKey (au_config (ex_auth fr)) = ''''"
  "ac_serverId (au_config (ex_auth fr)) = ''10162B00''"
  by (simp_all add: ex_auth_def Auth_init_def auth_calls_def registerCall_def)

lemma ex_url_length: "length (base64UrlEncode ex_tokens d) \<le> 4 * length d"
proof -
  have "length (concat (map ex_code d)) = 4 * length d" by (induction d) (simp_all add: ex_code_def)
  then show ?thesis
    using length_takeWhile_le [of "\<lambda>c. c \<noteq> CHR ''=''" "concat (map ex_code d)"]
    by (simp add: base64UrlEncode_def ex_tokens_def)
qed

lemma ex_token_short: "length ex_token < 65535"
proof -
  obtain a b c where t: "ex_token = base64UrlEncode ex_tokens a @ ''.'' @ base64UrlEncode ex_tokens b @ ''.'' @
      base64UrlEncode ex_tokens c" and "length a = 1" "length b = 1" "length c = 32"
    by (rule that [of "bytes_of_string ''h''" "bytes_of_string ''p''"
        "HMAC_SHA256 ex_tokens [] (bytes_of_string (base64UrlEncode ex_tokens (bytes_of_string ''h'') @ ''.'' @
           base64UrlEncode ex_tokens (bytes_of_string ''p'')))"])
       (simp_all add: ex_token_def signJWT_def bytes_of_string_def ex_tokens_def)
  then show ?thesis using ex_url_length [of a] ex_url_length [of b] ex_url_length [of c] by (simp add: t)
qed

end
