(* ===== verification/FriendsExamples.thy ===== *)
theory FriendsExamples
  imports FriendsAccept SplatoonExamples AuthExamples
begin

text \<open>
  A small friends server for the witnesses: user 10 is connected and registered, user 20 has an account,
  and may have asked user 10 to be a friend.
\<close>

definition ex_account :: "u32 \<Rightarrow> UserInfo" where
  "ex_account p = \<lparr>ui_pid = p, ui_username = (if p = 10 then ''a'' else ''b''), ui_showPresence = True,
     ui_showPlaying = True, ui_blockRequests = False, ui_nnaInfo = encode_NNAInfo 0 (new_NNAInfo 0),
     ui_presence = encode_NintendoPresenceV2 0 new_NintendoPresenceV2,
     ui_comment = encode_Comment 0 (new_Comment 0), ui_lastOnline = 0\<rparr>"

definition ex_asked :: "bytes \<Rightarrow> RequestRow" where
  "ex_asked d = \<lparr>rqr_id = 5, rqr_fromPid = 20, rqr_toPid = 10, rqr_expiresAt = 0, rqr_createdAt = 0, rqr_data = d\<rparr>"

definition ex_message :: bytes where
  "ex_message = encode_FriendRequestMsg 0 (new_FriendRequestMsg 0)"

definition ex_tables :: "RequestRow list \<Rightarrow> BlockRow list \<Rightarrow> Friendship list \<Rightarrow> Tables" where
  "ex_tables rs bs fs = \<lparr>tb_users = [ex_account 10, ex_account 20], tb_friendships = fs, tb_requests = rs,
     tb_blocks = bs, tb_notifications = [], tb_nextRequest = 80000000, tb_nextNotification = 1\<rparr>"

definition ex_friend_state :: "u32 list \<Rightarrow> LocalSharedState" where
  "ex_friend_state fs = (ex_lobby_state [])\<lparr>friendsInfos :=
     [(10, \<lparr>fr_client = ex_player 10, fr_pid = 10,
        fr_preference = \<lparr>showOnline = True, showPlaying = True, blockFriendRequest = False\<rparr>, fr_friends = fs\<rparr>)]\<rparr>"

definition ex_friends :: "u32 list \<Rightarrow> Tables \<Rightarrow> Friends" where
  "ex_friends fs t = Friends_init ex_inet 7 (ex_friend_state fs) t"

definition ex_friends_env :: "(nat \<Rightarrow> bool) \<Rightarrow> FriendsEnv" where
  "ex_friends_env fails = \<lparr>fe_auth = ex_auth_env, fe_jwtKey = '''', fe_fails = fails,
     fe_grpc_notify = (\<lambda>_ _ _ _ _. True)\<rparr>"

definition ex_friends_request :: Request where
  "ex_friends_request = new_request\<lparr>rq_protocolId := 102, rq_callId := 3\<rparr>"

lemma ex_friends_fields [simp]:
  "fd_tables (ex_friends fs t) = t" "fd_state (ex_friends fs t) = ex_friend_state fs"
  "shouldStop (fd_rmc (ex_friends fs t)) = False" "fd_session (ex_friends fs t) = None"
  "fd_out (ex_friends fs t) = []" "fd_commands (ex_friends fs t) = 0"
  using registerCall_fold [of "friends_calls ex_inet" "\<lparr>shouldStop = False, rmc_serverId = 7,
    pidMap = Map.empty, calls = Map.empty, requestsQueue = []\<rparr>"]
  by (simp_all add: ex_friends_def Friends_init_def friends_calls_def)

lemma ex_friends_env_simps [simp]:
  "db_works (ex_friends_env (\<lambda>_. False))" "fe_fails (ex_friends_env fails) = fails"
  "fd_now (ex_friends_env fails) = 0" "now_seconds (ex_friends_env fails) = 0"
  by (simp_all add: db_works_def ex_friends_env_def fd_now_def now_seconds_def seconds_of_def ex_auth_env_def)

lemma ex_registered [simp]:
  "getFriendsRegisteredClientInfo (ex_friend_state fs) 20 = None"
  "getFriendsRegisteredClientInfo (ex_friend_state fs) 10 = Some \<lparr>fr_client = ex_player 10, fr_pid = 10,
        fr_preference = \<lparr>showOnline = True, showPlaying = True, blockFriendRequest = False\<rparr>, fr_friends = fs\<rparr>"
  by (simp_all add: ex_friend_state_def getFriendsRegisteredClientInfo_def)

lemma ex_asked_simps [simp]:
  "rqr_fromPid (ex_asked d) = 20" "rqr_toPid (ex_asked d) = 10" "rqr_id (ex_asked d) = 5"
  "rqr_expiresAt (ex_asked d) = 0" "rqr_data (ex_asked d) = d"
  by (simp_all add: ex_asked_def)

lemma ex_tables_simps [simp]:
  "tb_users (ex_tables rs bs fs) = [ex_account 10, ex_account 20]" "tb_friendships (ex_tables rs bs fs) = fs"
  "tb_requests (ex_tables rs bs fs) = rs" "tb_blocks (ex_tables rs bs fs) = bs"
  "tb_notifications (ex_tables rs bs fs) = []" "ui_pid (ex_account p) = p" "ui_blockRequests (ex_account p) = False"
  by (simp_all add: ex_tables_def ex_account_def)

lemma ex_player_simps [simp]: "ci_pid (ex_player p) = p" "ci_minorVersion (ex_player p) = 0"
  by (simp_all add: ex_player_def)

lemma ex_tables_ok: "tables_ok (ex_tables [ex_asked d] [] [])" "tables_ok (ex_tables [] [] [])"
  by (simp_all add: tables_ok_def ex_tables_def requests_fit_def has_user_def) (simp_all add: ex_account_def)

lemma ex_not_expired: "\<not> expired (ex_friends_env fails) (ex_asked d)"
  by (simp add: expired_def of_seconds_def)

lemma ex_stored:
  "stored (decode_FriendRequestMsg 0) ex_message = Inr (new_FriendRequestMsg 0)"
  "friend_info 0 (ex_account p) 0 = Inr (new_FriendInfo 0)"
  "stored (decode_NNAInfo 0) (ui_nnaInfo (ex_account p)) = Inr (new_NNAInfo 0)"
proof -
  have whole: "whole_seconds 0" by code_simp
  have "friendRequestMsg_ok 0 (new_FriendRequestMsg 0)"
    by (simp add: friendRequestMsg_ok_def new_FriendRequestMsg_def gameKey_ok_def whole string_ok_def)
  from friendRequestMsg_codec.roundtrip_exact [OF this]
  show "stored (decode_FriendRequestMsg 0) ex_message = Inr (new_FriendRequestMsg 0)"
    by (simp add: stored_def ex_message_def)
  have nna: "nNAInfo_ok 0 (new_NNAInfo 0)"
    by (simp add: nNAInfo_ok_def principalBasicInfo_ok_def miiV2_ok_def new_NNAInfo_def new_PrincipalBasicInfo_def
        new_MiiV2_def whole string_ok_def)
  have presence: "nintendoPresenceV2_ok 0 new_NintendoPresenceV2"
    by (simp add: nintendoPresenceV2_ok_def new_NintendoPresenceV2_def gameKey_ok_def string_ok_def)
  have comment: "comment_ok 0 (new_Comment 0)"
    by (simp add: comment_ok_def new_Comment_def whole string_ok_def)
  show "friend_info 0 (ex_account p) 0 = Inr (new_FriendInfo 0)"
    using nNAInfo_codec.roundtrip_exact [OF nna] nintendoPresenceV2_codec.roundtrip_exact [OF presence]
      comment_codec.roundtrip_exact [OF comment]
    by (simp add: friend_info_def stored_def ex_account_def new_FriendInfo_def of_seconds_def)
  show "stored (decode_NNAInfo 0) (ui_nnaInfo (ex_account p)) = Inr (new_NNAInfo 0)"
    using nNAInfo_codec.roundtrip_exact [OF nna] by (simp add: stored_def ex_account_def)
qed

text \<open>User 10 accepts; or asks user 20, who blocks.\<close>

definition ex_accept :: "(Friends, unit) op" where
  "ex_accept = friends_call (ex_friends_env (\<lambda>_. False)) (ex_player 10) ex_friends_request (AcceptFriendRequest 5)"

definition ex_ask :: "(Friends, unit) op" where
  "ex_ask = friends_call (ex_friends_env (\<lambda>_. False)) (ex_player 10) ex_friends_request (AddFriend 20)"

definition ex_blocked :: BlockRow where
  "ex_blocked = \<lparr>bkr_pid = 20, bkr_blockedPid = 10, bkr_createdAt = 0, bkr_gameKey = []\<rparr>"

lemma ex_accept_runs:
  "fd_tables (snd (ex_accept (ex_friends [] (ex_tables [ex_asked ex_message] [] [])))) =
     noticed 20 10 (noticed 10 20 (befriended (ex_asked ex_message) 0 (ex_tables [ex_asked ex_message] [] []))) \<and>
   fst (ex_accept (ex_friends [] (ex_tables [ex_asked ex_message] [] []))) \<noteq> Inl UndefinedAccess"
  using accept_befriends [of "ex_friends_env (\<lambda>_. False)" "ex_friends [] (ex_tables [ex_asked ex_message] [] [])"
      "ex_player 10" _ "ex_asked ex_message" 5 "new_FriendRequestMsg 0" "ex_account 20" "new_FriendInfo 0" ex_friends_request]
    ex_stored ex_tables_ok ex_not_expired
  by (simp add: ex_accept_def friends_call_def REJECTED_def new_FriendRequestMsg_def)

lemmas ex_call_eval = registered_caller_def not_guest_def with_registered_def readS_def cleaned_def bindS_def with_rows_def
  query_def db_command_def in_transaction_def startTransaction_def commitTransaction_def with_session_rows_def Let_def
  session_command_def working_tables_def given_def committed_def seqS_def fd_reply_def fd_send_def
  cleanupExpiredFriendRequests_def cleanup_statements_def GET_SENT_FRIEND_REQUESTS_def GET_RECEIVED_FRIEND_REQUESTS_def
  requests_with_def

lemma ex_ask_runs:
  "\<exists>s. ex_ask (ex_friends [] (ex_tables [] [ex_blocked] [])) = (Inr (), s)"
  by (simp add: ex_ask_def friends_call_def addFriend_def addFriendInternal_def GET_BLOCKED_FRIENDS_def ex_blocked_def
      add_checked_def GET_USER_INFO_BY_PID_def add_requested_def INSERT_OR_UPDATE_FRIEND_REQUEST_def requests_fit_def
      has_user_def basic_info_of_def ex_stored friend_has_room_def ex_call_eval)

text \<open>The transaction of the cleanup does not begin.\<close>

lemma ex_failing_accept:
  "\<exists>s. friends_call (ex_friends_env (\<lambda>n. n = 3)) (ex_player 10) ex_friends_request (AcceptFriendRequest 5)
     (ex_friends [] (ex_tables [ex_asked ex_message] [] [])) = (Inr (), s)"
  by (simp add: friends_call_def acceptFriendRequest_def with_received_def db_unavailable_def fd_refuse_def ex_call_eval)

end
