(* ===== verification/Byaml.thy ===== *)
theory Byaml
  imports Codec
begin

text \<open>
  The BYAML files of \<^verbatim>\<open>src/boss/byaml/byaml.cpp\<close>, in which the server publishes festivals and battle
  settings: a tree of nodes, and its serialisation with tables for keys and strings. A \<^verbatim>\<open>std::set\<close> of
  strings is an ascending list, a \<^verbatim>\<open>std::map\<close> an association list in ascending order of its keys.
  Offsets are 32 bits and counts are cut to 24, as in the sources.
\<close>

datatype node =
    StringNode string
  | ArrayNode "node list"
  | DictionaryNode "(string \<times> node) list"
  | BoolNode bool
  | IntegerNode u32

definition node_type :: "node \<Rightarrow> byte" where
  "node_type n = (case n of StringNode _ \<Rightarrow> 0xA0 | ArrayNode _ \<Rightarrow> 0xC0 | DictionaryNode _ \<Rightarrow> 0xC1
     | BoolNode _ \<Rightarrow> 0xD0 | IntegerNode _ \<Rightarrow> 0xD1)"

section \<open>Keys and strings\<close>

text \<open>Inserting a whole set into another.\<close>

definition insert_all :: "string list \<Rightarrow> string list \<Rightarrow> string list" where
  "insert_all new old = fold insort_insert new old"

fun getKeys :: "node \<Rightarrow> string list" where
  "getKeys (ArrayNode ns) = fold (\<lambda>n keys. insert_all (getKeys n) keys) ns []"
| "getKeys (DictionaryNode kvs) =
     fold (\<lambda>(k, n) keys. insert_all (getKeys n) (insort_insert k keys)) kvs []"
| "getKeys _ = []"

fun getStrings :: "node \<Rightarrow> string list" where
  "getStrings (StringNode s) = [s]"
| "getStrings (ArrayNode ns) = fold (\<lambda>n ss. insert_all (getStrings n) ss) ns []"
| "getStrings (DictionaryNode kvs) = fold (\<lambda>(k, n) ss. insert_all (getStrings n) ss) kvs []"
| "getStrings _ = []"

section \<open>Serialisation\<close>

definition be_bytes :: "u32 \<Rightarrow> bytes" where
  "be_bytes w = rev (le_bytes 4 w)"

text \<open>The three low bytes.\<close>

definition be24 :: "u32 \<Rightarrow> bytes" where
  "be24 w = tl (be_bytes w)"

text \<open>\<^verbatim>\<open>std::distance(table.begin(), table.find(s))\<close>: the size of the table if it is not there.\<close>

definition table_index :: "string list \<Rightarrow> string \<Rightarrow> u32" where
  "table_index table s = of_nat (length (takeWhile (\<lambda>t. t \<noteq> s) table))"

definition align4 :: "nat \<Rightarrow> nat" where
  "align4 n = (n + 3) div 4 * 4"

definition pad4 :: "bytes \<Rightarrow> bytes" where
  "pad4 d = d @ replicate (align4 (length d) - length d) 0"

text \<open>
  A node gives four bytes, its value, and appends what does not fit to \<open>extra\<close>, whose end will be at
  \<open>extraOffset\<close> of the file. The nodes in an array or a dictionary go, one after the other, to a new
  vector that is put behind it at \<open>base\<close>.
\<close>

fun node_serialize :: "string list \<Rightarrow> string list \<Rightarrow> node \<Rightarrow> u32 \<Rightarrow> bytes \<Rightarrow> bytes \<times> bytes"
  and nodes_serialize :: "string list \<Rightarrow> string list \<Rightarrow> node list \<Rightarrow> u32 \<Rightarrow> bytes \<Rightarrow> bytes list \<times> bytes"
  and entries_serialize :: "string list \<Rightarrow> string list \<Rightarrow> (string \<times> node) list \<Rightarrow> u32 \<Rightarrow> bytes \<Rightarrow> bytes list \<times> bytes"
where
  "node_serialize keyTable stringTable (StringNode s) extraOffset extra =
     (be_bytes (table_index stringTable s), extra)"
| "node_serialize keyTable stringTable (BoolNode b) extraOffset extra =
     (if b then [0, 0, 0, 1] else [0, 0, 0, 0], extra)"
| "node_serialize keyTable stringTable (IntegerNode v) extraOffset extra = (be_bytes v, extra)"
| "node_serialize keyTable stringTable (ArrayNode ns) extraOffset extra =
     (let size = 4 + align4 (length ns) + length ns * 4;
          (values, newExtra) = nodes_serialize keyTable stringTable ns (extraOffset + of_nat size) [];
          data = [0xC0] @ be24 (of_nat (length ns)) @ pad4 (map node_type ns) @ concat values
      in (be_bytes extraOffset, extra @ data @ newExtra))"
| "node_serialize keyTable stringTable (DictionaryNode kvs) extraOffset extra =
     (let size = 4 + length kvs * 8;
          (entries, newExtra) = entries_serialize keyTable stringTable kvs (extraOffset + of_nat size) [];
          data = [0xC1] @ be24 (of_nat (length kvs)) @ concat entries
      in (be_bytes extraOffset, extra @ data @ newExtra))"
| "nodes_serialize keyTable stringTable [] base extra = ([], extra)"
| "nodes_serialize keyTable stringTable (n # ns) base extra =
     (let (v, extra) = node_serialize keyTable stringTable n (base + of_nat (length extra)) extra;
          (vs, extra) = nodes_serialize keyTable stringTable ns base extra
      in (v # vs, extra))"
| "entries_serialize keyTable stringTable [] base extra = ([], extra)"
| "entries_serialize keyTable stringTable ((k, n) # kvs) base extra =
     (let (v, extra) = node_serialize keyTable stringTable n (base + of_nat (length extra)) extra;
          (vs, extra) = entries_serialize keyTable stringTable kvs base extra
      in ((be24 (table_index keyTable k) @ [node_type n] @ v) # vs, extra))"

text \<open>The table: the offset of each string and of the end, then the strings with their terminators.\<close>

fun string_offsets :: "nat \<Rightarrow> string list \<Rightarrow> nat list" where
  "string_offsets pos [] = [pos]"
| "string_offsets pos (s # ss) = pos # string_offsets (pos + length s + 1) ss"

definition serializeStringTable :: "string list \<Rightarrow> bytes" where
  "serializeStringTable table =
     [0xC2] @ be24 (of_nat (length table)) @
     concat (map (\<lambda>p. be_bytes (of_nat p)) (string_offsets (4 + (length table + 1) * 4) table)) @
     concat (map (\<lambda>s. map byte_of_char s @ [0]) table)"

definition byaml_serialize :: "node \<Rightarrow> bytes result" where
  "byaml_serialize root =
     (let keyTable = getKeys root; stringTable = getStrings root;
          keys = pad4 (serializeStringTable keyTable);
          strings = pad4 (serializeStringTable stringTable);
          stringTableOffset = 16 + length keys;
          currentOffset = stringTableOffset + length strings
      in if node_type root \<noteq> 0xC1 \<and> node_type root \<noteq> 0xC0 then Inl RuntimeError
         else let (v, extra) = node_serialize keyTable stringTable root (of_nat currentOffset) []
              in Inr (pad4 ([0x42, 0x59, 0, 1] @ be_bytes 16 @ be_bytes (of_nat stringTableOffset) @ v @
                   keys @ strings @ extra)))"

end
