(* ===== verification/ByamlRead.thy ===== *)
theory ByamlRead
  imports Byaml
begin

text \<open>
  What a BYAML file means, as the console reads it: a reader of the format's first version, written
  without the serialiser at hand, and the proof that it reads from each file that the server writes
  the tree that it was made of.
\<close>

section \<open>The reader\<close>

definition be_word :: "bytes \<Rightarrow> u32" where
  "be_word bs = le_word (rev bs)"

definition read_be :: "bytes \<Rightarrow> nat \<Rightarrow> nat \<Rightarrow> nat option" where
  "read_be file pos n =
     (if pos + n \<le> length file then Some (unat (be_word (take n (drop pos file)))) else None)"

definition read_byte :: "bytes \<Rightarrow> nat \<Rightarrow> byte option" where
  "read_byte file pos = (if pos < length file then Some (file ! pos) else None)"

definition read_cstring :: "bytes \<Rightarrow> nat \<Rightarrow> string" where
  "read_cstring file pos = map char_of_byte (takeWhile (\<lambda>b. b \<noteq> 0) (drop pos file))"

definition read_table :: "bytes \<Rightarrow> nat \<Rightarrow> string list option" where
  "read_table file pos =
     (if read_byte file pos \<noteq> Some 0xC2 then None
      else Option.bind (read_be file (pos + 1) 3) (\<lambda>n.
           Option.bind (those (map (\<lambda>i. read_be file (pos + 4 + i * 4) 4) [0..<n])) (\<lambda>offsets.
           Some (map (\<lambda>p. read_cstring file (pos + p)) offsets))))"

definition read_leaf :: "string list \<Rightarrow> byte \<Rightarrow> nat \<Rightarrow> node option" where
  "read_leaf strings tag v =
     (if tag = 0xA0 then if v < length strings then Some (StringNode (strings ! v)) else None
      else if tag = 0xD0 then Some (BoolNode (v \<noteq> 0))
      else if tag = 0xD1 then Some (IntegerNode (of_nat v))
      else None)"

definition read_key :: "string list \<Rightarrow> nat \<Rightarrow> string option" where
  "read_key keys k = (if k < length keys then Some (keys ! k) else None)"

text \<open>Nodes lie within nodes, so a tree is no deeper than its file is long.\<close>

primrec read_node :: "nat \<Rightarrow> bytes \<Rightarrow> string list \<Rightarrow> string list \<Rightarrow> byte \<Rightarrow> nat \<Rightarrow> node option" where
  "read_node 0 file keys strings tag v = read_leaf strings tag v"
| "read_node (Suc depth) file keys strings tag v =
     (if tag = 0xC0 then
        if read_byte file v \<noteq> Some 0xC0 then None
        else Option.bind (read_be file (v + 1) 3) (\<lambda>n.
             map_option ArrayNode (those (map (\<lambda>i.
               Option.bind (read_byte file (v + 4 + i)) (\<lambda>tag.
               Option.bind (read_be file (v + 4 + align4 n + i * 4) 4) (\<lambda>w.
               read_node depth file keys strings tag w))) [0..<n])))
      else if tag = 0xC1 then
        if read_byte file v \<noteq> Some 0xC1 then None
        else Option.bind (read_be file (v + 1) 3) (\<lambda>n.
             map_option DictionaryNode (those (map (\<lambda>i.
               Option.bind (read_be file (v + 4 + i * 8) 3) (\<lambda>k.
               Option.bind (read_key keys k) (\<lambda>key.
               Option.bind (read_byte file (v + 4 + i * 8 + 3)) (\<lambda>tag.
               Option.bind (read_be file (v + 4 + i * 8 + 4) 4) (\<lambda>w.
               map_option (Pair key) (read_node depth file keys strings tag w)))))) [0..<n])))
      else read_leaf strings tag v)"

definition read_byaml :: "bytes \<Rightarrow> node option" where
  "read_byaml file =
     (if take 4 file \<noteq> [0x42, 0x59, 0, 1] then None
      else Option.bind (Option.bind (read_be file 4 4) (read_table file)) (\<lambda>keys.
           Option.bind (Option.bind (read_be file 8 4) (read_table file)) (\<lambda>strings.
           Option.bind (read_be file 12 4) (\<lambda>root.
           Option.bind (read_byte file root) (\<lambda>tag.
           if tag = 0xC0 \<or> tag = 0xC1 then read_node (length file) file keys strings tag root
           else None)))))"

section \<open>Numbers and pieces of a file\<close>

lemma le_word_le_bytes_3: "le_word (le_bytes 3 w) = (take_bit 24 w :: u32)"
proof (rule bit_word_eqI)
  fix i assume "i < LENGTH(32)"
  then show "bit (le_word (le_bytes 3 w) :: u32) i = bit (take_bit 24 w :: u32) i"
    by (auto simp: bit_le_word bit_nth_le_bytes bit_simps)
qed

lemma be_word_be_bytes [simp]: "be_word (be_bytes w) = w"
  by (simp add: be_word_def be_bytes_def)

lemma length_be_bytes [simp]: "length (be_bytes w) = 4"
  by (simp add: be_bytes_def)

lemma length_be24 [simp]: "length (be24 w) = 3"
  by (simp add: be24_def)

lemma rev_be24: "rev (be24 w) = le_bytes 3 w"
  by (simp add: be24_def be_bytes_def le_bytes_def upt_rec)

lemma be_word_be24: "unat w < 2 ^ 24 \<Longrightarrow> unat (be_word (be24 w)) = unat w"
  by (simp add: be_word_def rev_be24 le_word_le_bytes_3 unsigned_take_bit_eq take_bit_nat_eq_self)

lemma unat_of_nat_u32: "n < 2 ^ 32 \<Longrightarrow> unat (of_nat n :: u32) = n"
  by (simp add: unat_of_nat take_bit_nat_eq_self)

text \<open>A piece of a file.\<close>

definition file_piece :: "bytes \<Rightarrow> nat \<Rightarrow> bytes \<Rightarrow> bool" where
  "file_piece file pos bs \<longleftrightarrow> pos + length bs \<le> length file \<and> take (length bs) (drop pos file) = bs"

lemma file_piece_whole: "file_piece file 0 file"
  by (simp add: file_piece_def)

lemma file_piece_append: "file_piece file pos (a @ b) \<longleftrightarrow> file_piece file pos a \<and> file_piece file (pos + length a) b"
  by (auto simp: file_piece_def take_add add.commute add.left_commute)

lemma file_piece_Cons: "file_piece file pos (a # b) \<longleftrightarrow> file_piece file pos [a] \<and> file_piece file (pos + 1) b"
  using file_piece_append [of "file" pos "[a]" b] by simp

lemma file_piece_length: "file_piece file pos bs \<Longrightarrow> pos + length bs \<le> length file"
  by (simp add: file_piece_def)

lemma file_piece_byte: "file_piece file pos [b] \<Longrightarrow> read_byte file pos = Some b"
  by (auto simp: file_piece_def read_byte_def take_Suc_conv_app_nth hd_drop_conv_nth take_Suc drop_Suc
      split: list.splits)

lemma file_piece_be: "file_piece file pos bs \<Longrightarrow> n = length bs \<Longrightarrow> read_be file pos n = Some (unat (be_word bs))"
  by (simp add: file_piece_def read_be_def)

lemma file_piece_word: "file_piece file pos (be_bytes w) \<Longrightarrow> read_be file pos 4 = Some (unat w)"
  using file_piece_be [of "file" pos "be_bytes w" 4] by simp

lemma file_piece_count:
  assumes "file_piece file pos (be24 (of_nat n))" "n < 2 ^ 24"
  shows "read_be file pos 3 = Some n"
proof -
  have "unat (of_nat n :: u32) = n" using assms(2) by (simp add: unat_of_nat_u32)
  then show ?thesis
    using file_piece_be [OF assms(1), of 3] be_word_be24 [of "of_nat n"] assms(2) by simp
qed

lemma file_piece_concat:
  assumes "file_piece file pos (concat xs)" "\<And>x. x \<in> set xs \<Longrightarrow> length x = k" "i < length xs"
  shows "file_piece file (pos + i * k) (xs ! i)"
  using assms
proof (induction xs arbitrary: pos i)
  case (Cons x xs)
  then have rest: "\<And>j. j < length xs \<Longrightarrow> file_piece file (pos + length x + j * k) (xs ! j)"
    by (auto simp: file_piece_append)
  show ?case
  proof (cases i)
    case (Suc j)
    then show ?thesis using rest [of j] Cons.prems by (simp add: add.assoc)
  qed (use Cons.prems in \<open>auto simp: file_piece_append\<close>)
qed simp

lemma file_piece_nth: "file_piece file pos bs \<Longrightarrow> i < length bs \<Longrightarrow> read_byte file (pos + i) = Some (bs ! i)"
  by (auto simp: file_piece_def read_byte_def) (metis nth_drop nth_take le_trans add_leD1)

lemma those_Some: "those (map f xs) = Some (map g xs)" if "\<And>x. x \<in> set xs \<Longrightarrow> f x = Some (g x)"
  using that by (induction xs) auto

lemma those_nth: "those (map f [0..<length ys]) = Some ys" if "\<And>i. i < length ys \<Longrightarrow> f i = Some (ys ! i)"
  using those_Some [of "[0..<length ys]" f "(!) ys"] that by (simp add: map_nth)

section \<open>Tables\<close>

lemma table_index_found: "s \<in> set table \<Longrightarrow> length table < 2 ^ 32 \<Longrightarrow>
    unat (table_index table s) < length table \<and> table ! unat (table_index table s) = s"
proof -
  assume s: "s \<in> set table" and l: "length table < 2 ^ 32"
  have i: "length (takeWhile (\<lambda>t. t \<noteq> s) table) < length table"
    using s by (induction table) auto
  moreover have "unat (table_index table s) = length (takeWhile (\<lambda>t. t \<noteq> s) table)"
    using i l by (simp add: table_index_def unat_of_nat_u32)
  ultimately show ?thesis using nth_length_takeWhile [OF i] by simp
qed

lemma length_string_offsets [simp]: "length (string_offsets pos table) = Suc (length table)"
  by (induction table arbitrary: pos) auto

lemma byte_of_char_zero: "byte_of_char c = 0 \<longleftrightarrow> c = CHR 0x00"
proof -
  have "char_of_byte 0 = CHR 0x00" by (simp add: char_of_byte_def char_of_def)
  moreover have "byte_of_char (CHR 0x00) = 0" by (simp add: byte_of_char_def)
  ultimately show ?thesis by (metis char_of_byte_of_char)
qed

lemma read_cstring_piece:
  assumes "file_piece file pos (map byte_of_char s @ [0])" "CHR 0x00 \<notin> set s"
  shows "read_cstring file pos = s"
proof -
  have "take (length s + 1) (drop pos file) = map byte_of_char s @ [0]"
    using assms(1) by (simp add: file_piece_def)
  then obtain rest where "drop pos file = (map byte_of_char s @ [0]) @ rest"
    by (metis append_take_drop_id)
  moreover have "takeWhile (\<lambda>b. b \<noteq> 0) ((map byte_of_char s @ [0]) @ rest) = map byte_of_char s"
    using assms(2) by (induction s) (auto simp: byte_of_char_zero)
  ultimately show ?thesis by (simp add: read_cstring_def)
qed

text \<open>The strings lie where the offsets before them say.\<close>

lemma string_offsets_read:
  assumes "file_piece file (pos + start) (concat (map (\<lambda>s. map byte_of_char s @ [0]) table))"
    "\<forall>s \<in> set table. CHR 0x00 \<notin> set s"
  shows "map (\<lambda>p. read_cstring file (pos + p)) (butlast (string_offsets start table)) = table"
    and "\<forall>p \<in> set (butlast (string_offsets start table)). pos + p \<le> length file"
  using assms
proof (induction table arbitrary: start)
  case (Cons s table)
  {
    case 1
    then show ?case
      using Cons.IH(1) [of "start + length s + 1"] read_cstring_piece [of "file" "pos + start" s]
      by (auto simp: file_piece_append file_piece_Cons [of _ _ 0 "concat _"] add.assoc)
  next
    case 2
    then show ?case
      using Cons.IH(2) [of "start + length s + 1"] file_piece_length [of "file" "pos + start"]
      by (auto simp: file_piece_append file_piece_Cons [of _ _ 0 "concat _"] add.assoc dest: file_piece_length)
  }
qed auto

lemma length_table: "4 + (length table + 1) * 4 \<le> length (serializeStringTable table)"
  by (simp add: serializeStringTable_def length_concat comp_def sum_list_triv)

lemma read_table_piece:
  assumes p: "file_piece file pos (serializeStringTable table)" and nul: "\<forall>s \<in> set table. CHR 0x00 \<notin> set s"
    and small: "length file \<le> 2 ^ 26"
  shows "read_table file pos = Some table"
proof -
  let ?start = "4 + (length table + 1) * 4"
  let ?offs = "string_offsets ?start table"
  let ?words = "map (\<lambda>p. be_bytes (of_nat p)) ?offs"
  have "?start \<le> 2 ^ 26"
    using file_piece_length [OF p] length_table [of table] small by linarith
  then have n: "length table < 2 ^ 24" by simp
  have pieces: "file_piece file pos [0xC2]" "file_piece file (pos + 1) (be24 (of_nat (length table)))"
      "file_piece file (pos + 4) (concat ?words)"
      "file_piece file (pos + ?start) (concat (map (\<lambda>s. map byte_of_char s @ [0]) table))"
    using p by (auto simp: serializeStringTable_def file_piece_append file_piece_Cons [of _ _ "0xC2" "_ @ _"]
        length_concat comp_def sum_list_triv algebra_simps)
  have within: "\<forall>p \<in> set (butlast ?offs). p < 2 ^ 32"
    using string_offsets_read(2) [OF pieces(4) nul] small by fastforce
  have word: "read_be file (pos + 4 + i * 4) 4 = Some (butlast ?offs ! i)" if "i < length (butlast ?offs)" for i
  proof -
    have "file_piece file (pos + 4 + i * 4) (?words ! i)"
      using that by (intro file_piece_concat [OF pieces(3)]) auto
    moreover have "?words ! i = be_bytes (of_nat (butlast ?offs ! i))"
      using that by (simp add: nth_butlast)
    moreover have "butlast ?offs ! i < 2 ^ 32" using within nth_mem [OF that] by blast
    ultimately show ?thesis using file_piece_word by (metis unat_of_nat_u32)
  qed
  have "those (map (\<lambda>i. read_be file (pos + 4 + i * 4) 4) [0..<length table]) = Some (butlast ?offs)"
    using those_nth [of "butlast ?offs"] word by simp
  then show ?thesis
    using file_piece_byte [OF pieces(1)] file_piece_count [OF pieces(2) n] string_offsets_read(1) [OF pieces(4) nul]
    by (simp add: read_table_def)
qed

section \<open>Nodes\<close>

lemma align4_ge: "n \<le> align4 n"
  by (simp add: align4_def)

lemma length_pad4 [simp]: "length (pad4 d) = align4 (length d)"
  using align4_ge [of "length d"] by (simp add: pad4_def)

text \<open>That the value \<open>v\<close> stands for the node, in a file with these tables.\<close>

definition reads_as :: "nat \<Rightarrow> bytes \<Rightarrow> string list \<Rightarrow> string list \<Rightarrow> bytes \<Rightarrow> node \<Rightarrow> bool" where
  "reads_as depth file keys strings v n \<longleftrightarrow>
     read_node depth file keys strings (node_type n) (unat (be_word v)) = Some n"

lemma those_list:
  "list_all2 P values ys \<Longrightarrow> (\<And>i. i < length ys \<Longrightarrow> P (values ! i) (ys ! i) \<Longrightarrow> f i = Some (ys ! i)) \<Longrightarrow>
    those (map f [0..<length ys]) = Some ys"
  by (rule those_nth) (auto dest: list_all2_nthD2)

lemma length_concat_const: "\<forall>x \<in> set xs. length x = k \<Longrightarrow> length (concat xs) = length xs * k"
  by (induction xs) auto

lemma read_array:
  assumes p: "file_piece file pos ([0xC0] @ be24 (of_nat (length ns)) @ pad4 (map node_type ns) @ concat values)"
    and four: "\<forall>v \<in> set values. length v = 4"
    and "values": "list_all2 (reads_as depth file keys strings) values ns"
    and small: "length file \<le> 2 ^ 26"
  shows "read_node (Suc depth) file keys strings 0xC0 pos = Some (ArrayNode ns)"
proof -
  let ?n = "length ns"
  have len: "length values = ?n" using "values" by (rule list_all2_lengthD)
  have "length (concat values) = ?n * 4"
    using length_concat_const [OF four] len by simp
  then have n: "?n < 2 ^ 24" using file_piece_length [OF p] small align4_ge [of ?n] by simp
  have pieces: "file_piece file pos [0xC0]" "file_piece file (pos + 1) (be24 (of_nat ?n))"
      "file_piece file (pos + 4) (pad4 (map node_type ns))" "file_piece file (pos + 4 + align4 ?n) (concat values)"
    using p by (auto simp: file_piece_append file_piece_Cons [of _ _ "0xC0" "_ @ _"] algebra_simps)
  have types: "file_piece file (pos + 4) (map node_type ns)"
    using pieces(3) unfolding pad4_def file_piece_append by blast
  have "those (map (\<lambda>i. Option.bind (read_byte file (pos + 4 + i)) (\<lambda>tag.
      Option.bind (read_be file (pos + 4 + align4 ?n + i * 4) 4) (\<lambda>w.
      read_node depth file keys strings tag w))) [0..<?n]) = Some ns"
  proof (rule those_list [OF "values"])
    fix i assume i: "i < ?n" and r: "reads_as depth file keys strings (values ! i) (ns ! i)"
    have "read_byte file (pos + 4 + i) = Some (node_type (ns ! i))"
      using file_piece_nth [OF types, of i] i by simp
    moreover have "read_be file (pos + 4 + align4 ?n + i * 4) 4 = Some (unat (be_word (values ! i)))"
      using file_piece_concat [OF pieces(4), of 4 i] four i len by (intro file_piece_be) auto
    ultimately show "Option.bind (read_byte file (pos + 4 + i)) (\<lambda>tag.
      Option.bind (read_be file (pos + 4 + align4 ?n + i * 4) 4) (\<lambda>w.
      read_node depth file keys strings tag w)) = Some (ns ! i)"
      using r by (simp add: reads_as_def)
  qed
  then show ?thesis
    using file_piece_byte [OF pieces(1)] file_piece_count [OF pieces(2) n] by simp
qed

text \<open>An entry of a dictionary.\<close>

definition entry_reads :: "nat \<Rightarrow> bytes \<Rightarrow> string list \<Rightarrow> string list \<Rightarrow> bytes \<Rightarrow> string \<times> node \<Rightarrow> bool" where
  "entry_reads depth file keys strings e kv \<longleftrightarrow>
     (\<exists>v. e = be24 (table_index keys (fst kv)) @ [node_type (snd kv)] @ v \<and> length v = 4 \<and>
       fst kv \<in> set keys \<and> reads_as depth file keys strings v (snd kv))"

lemma read_dictionary:
  assumes p: "file_piece file pos ([0xC1] @ be24 (of_nat (length kvs)) @ concat entries)"
    and eight: "\<forall>e \<in> set entries. length e = 8"
    and entries: "list_all2 (entry_reads depth file keys strings) entries kvs"
    and small: "length file \<le> 2 ^ 26" and keys: "length keys < 2 ^ 24"
  shows "read_node (Suc depth) file keys strings 0xC1 pos = Some (DictionaryNode kvs)"
proof -
  let ?n = "length kvs"
  have len: "length entries = ?n" using entries by (rule list_all2_lengthD)
  have "length (concat entries) = ?n * 8"
    using length_concat_const [OF eight] len by simp
  then have n: "?n < 2 ^ 24" using file_piece_length [OF p] small by simp
  have pieces: "file_piece file pos [0xC1]" "file_piece file (pos + 1) (be24 (of_nat ?n))"
      "file_piece file (pos + 4) (concat entries)"
    using p by (auto simp: file_piece_append file_piece_Cons [of _ _ "0xC1" "_ @ _"] algebra_simps)
  have "those (map (\<lambda>i. Option.bind (read_be file (pos + 4 + i * 8) 3) (\<lambda>k.
      Option.bind (read_key keys k) (\<lambda>key.
      Option.bind (read_byte file (pos + 4 + i * 8 + 3)) (\<lambda>tag.
      Option.bind (read_be file (pos + 4 + i * 8 + 4) 4) (\<lambda>w.
      map_option (Pair key) (read_node depth file keys strings tag w)))))) [0..<?n]) = Some kvs"
  proof (rule those_list [OF entries])
    fix i assume i: "i < ?n" and "entry_reads depth file keys strings (entries ! i) (kvs ! i)"
    then obtain v where e: "entries ! i = be24 (table_index keys (fst (kvs ! i))) @ [node_type (snd (kvs ! i))] @ v"
      and v: "length v = 4" "fst (kvs ! i) \<in> set keys" and r: "reads_as depth file keys strings v (snd (kvs ! i))"
      by (auto simp: entry_reads_def)
    note idx = table_index_found [OF v(2)]
    have "file_piece file (pos + 4 + i * 8) (entries ! i)"
      using file_piece_concat [OF pieces(3), of 8 i] eight i len by auto
    then have "file_piece file (pos + 4 + i * 8) (be24 (table_index keys (fst (kvs ! i))))"
        "file_piece file (pos + 4 + i * 8 + 3) [node_type (snd (kvs ! i))]" "file_piece file (pos + 4 + i * 8 + 4) v"
      unfolding e by (auto simp: file_piece_append file_piece_Cons [of _ _ "node_type _" v] algebra_simps)
    moreover have "unat (table_index keys (fst (kvs ! i))) < 2 ^ 24" using idx keys by simp
    ultimately have "read_be file (pos + 4 + i * 8) 3 = Some (unat (table_index keys (fst (kvs ! i))))"
        "read_byte file (pos + 4 + i * 8 + 3) = Some (node_type (snd (kvs ! i)))"
        "read_be file (pos + 4 + i * 8 + 4) 4 = Some (unat (be_word v))"
      using v(1) by (auto simp: file_piece_byte file_piece_be be_word_be24 simp del: be_word_be_bytes)
    then show "Option.bind (read_be file (pos + 4 + i * 8) 3) (\<lambda>k.
      Option.bind (read_key keys k) (\<lambda>key.
      Option.bind (read_byte file (pos + 4 + i * 8 + 3)) (\<lambda>tag.
      Option.bind (read_be file (pos + 4 + i * 8 + 4) 4) (\<lambda>w.
      map_option (Pair key) (read_node depth file keys strings tag w))))) = Some (kvs ! i)"
      using r idx keys by (simp add: reads_as_def read_key_def)
  qed
  then show ?thesis
    using file_piece_byte [OF pieces(1)] file_piece_count [OF pieces(2) n] by simp
qed

text \<open>What the serialiser returns is independent of what is in \<open>extra\<close>, and reads as the node.\<close>

definition tables_hold :: "string list \<Rightarrow> string list \<Rightarrow> node \<Rightarrow> bool" where
  "tables_hold keys strings n \<longleftrightarrow> set (getKeys n) \<subseteq> set keys \<and> set (getStrings n) \<subseteq> set strings \<and>
     length keys < 2 ^ 24 \<and> length strings < 2 ^ 24"

definition node_written :: "string list \<Rightarrow> string list \<Rightarrow> node \<Rightarrow> u32 \<Rightarrow> bytes \<Rightarrow> bytes \<Rightarrow> bool" where
  "node_written keys strings n off v blob \<longleftrightarrow> length v = 4 \<and>
     (\<forall>file depth. tables_hold keys strings n \<longrightarrow> length file \<le> 2 ^ 26 \<longrightarrow> file_piece file (unat off) blob \<longrightarrow>
        length blob \<le> depth \<longrightarrow> reads_as depth file keys strings v n)"

definition nodes_written :: "string list \<Rightarrow> string list \<Rightarrow> node list \<Rightarrow> u32 \<Rightarrow> bytes list \<Rightarrow> bytes \<Rightarrow> bytes \<Rightarrow> bool" where
  "nodes_written keys strings ns base vs extra blob \<longleftrightarrow> length vs = length ns \<and> (\<forall>v \<in> set vs. length v = 4) \<and>
     (\<forall>file depth. (\<forall>n \<in> set ns. tables_hold keys strings n) \<longrightarrow> length file \<le> 2 ^ 26 \<longrightarrow>
        file_piece file (unat base) (extra @ blob) \<longrightarrow> length blob \<le> depth \<longrightarrow>
        list_all2 (reads_as depth file keys strings) vs ns)"

definition entries_written ::
    "string list \<Rightarrow> string list \<Rightarrow> (string \<times> node) list \<Rightarrow> u32 \<Rightarrow> bytes list \<Rightarrow> bytes \<Rightarrow> bytes \<Rightarrow> bool" where
  "entries_written keys strings kvs base es extra blob \<longleftrightarrow> length es = length kvs \<and> (\<forall>e \<in> set es. length e = 8) \<and>
     (\<forall>file depth. (\<forall>(k, n) \<in> set kvs. k \<in> set keys \<and> tables_hold keys strings n) \<longrightarrow>
        length file \<le> 2 ^ 26 \<longrightarrow> file_piece file (unat base) (extra @ blob) \<longrightarrow> length blob \<le> depth \<longrightarrow>
        list_all2 (entry_reads depth file keys strings) es kvs)"

lemma set_insert_all [simp]: "set (insert_all new old) = set new \<union> set old"
proof -
  have "set (fold insort_insert new old) = set new \<union> set old"
    by (induction new arbitrary: old) (auto simp: set_insort_insert)
  then show ?thesis by (simp add: insert_all_def)
qed

lemma set_fold_insert_all:
  "set (fold (\<lambda>n keys. insert_all (f n) keys) ns keys) = set keys \<union> (\<Union>n \<in> set ns. set (f n))"
  by (induction ns arbitrary: keys) auto

lemma set_getKeys_array: "set (getKeys (ArrayNode ns)) = (\<Union>n \<in> set ns. set (getKeys n))"
  by (simp add: set_fold_insert_all)

lemma set_getKeys_dictionary:
  "set (getKeys (DictionaryNode kvs)) = (\<Union>(k, n) \<in> set kvs. insert k (set (getKeys n)))"
proof -
  have "set (fold (\<lambda>(k, n) keys. insert_all (getKeys n) (insort_insert k keys)) kvs keys) =
      set keys \<union> (\<Union>(k, n) \<in> set kvs. insert k (set (getKeys n)))" for keys
    by (induction kvs arbitrary: keys) (auto simp: set_insort_insert)
  then show ?thesis by simp
qed

lemma set_getStrings_array: "set (getStrings (ArrayNode ns)) = (\<Union>n \<in> set ns. set (getStrings n))"
  by (simp add: set_fold_insert_all)

lemma set_getStrings_dictionary:
  "set (getStrings (DictionaryNode kvs)) = (\<Union>(k, n) \<in> set kvs. set (getStrings n))"
  using set_fold_insert_all [of "\<lambda>(k, n). getStrings n" kvs "[]"]
  by (simp add: case_prod_unfold)

lemma tables_hold_array: "tables_hold keys strings (ArrayNode ns) \<Longrightarrow> n \<in> set ns \<Longrightarrow> tables_hold keys strings n"
  unfolding tables_hold_def set_getKeys_array set_getStrings_array by blast

lemma tables_hold_dictionary:
  "tables_hold keys strings (DictionaryNode kvs) \<Longrightarrow> (k, n) \<in> set kvs \<Longrightarrow>
    k \<in> set keys \<and> tables_hold keys strings n"
  unfolding tables_hold_def set_getKeys_dictionary set_getStrings_dictionary by blast

text \<open>Offsets do not wrap in a file of that size.\<close>

lemma unat_offset: "unat off + n \<le> 2 ^ 26 \<Longrightarrow> unat (off + of_nat n :: u32) = unat off + n"
proof -
  assume le: "unat off + n \<le> 2 ^ 26"
  then have n: "unat (of_nat n :: u32) = n" by (intro unat_of_nat_u32) simp
  show ?thesis using le by (subst unat_add_lem [THEN iffD1]) (simp_all add: n)
qed

lemma reads_as_leaf: "node_written keys strings n off v []"
  if "length v = 4" "set (getStrings n) \<subseteq> set strings \<Longrightarrow> length strings < 2 ^ 24 \<Longrightarrow>
     read_leaf strings (node_type n) (unat (be_word v)) = Some n"
    "node_type n \<noteq> 0xC0" "node_type n \<noteq> 0xC1"
proof -
  have "read_node depth file keys strings (node_type n) w =
      read_leaf strings (node_type n) w" for depth "file" w
    using that(3,4) by (cases depth) auto
  then show ?thesis using that(1,2) by (simp add: node_written_def reads_as_def tables_hold_def)
qed

lemma written_array:
  assumes "nodes_written keys strings ns (off + of_nat (4 + align4 (length ns) + length ns * 4)) vs [] blob"
  shows "node_written keys strings (ArrayNode ns) off (be_bytes off)
    ([0xC0] @ be24 (of_nat (length ns)) @ pad4 (map node_type ns) @ concat vs @ blob)"
  unfolding node_written_def
proof (intro conjI allI impI)
  let ?size = "4 + align4 (length ns) + length ns * 4"
  let ?data = "[0xC0] @ be24 (of_nat (length ns)) @ pad4 (map node_type ns) @ concat vs"
  fix "file" depth
  assume hold: "tables_hold keys strings (ArrayNode ns)" and small: "length file \<le> 2 ^ 26"
    and p: "file_piece file (unat off) ([0xC0] @ be24 (of_nat (length ns)) @ pad4 (map node_type ns) @ concat vs @ blob)"
    and d: "length ([0xC0] @ be24 (of_nat (length ns)) @ pad4 (map node_type ns) @ concat vs @ blob) \<le> depth"
  have vs: "length vs = length ns" "\<forall>v \<in> set vs. length v = 4" using assms by (auto simp: nodes_written_def)
  have size: "length ?data = ?size" using vs length_concat_const [OF vs(2)] by simp
  have p: "file_piece file (unat off) (?data @ blob)" using p by simp
  have off: "unat (off + of_nat ?size) = unat off + ?size"
    using file_piece_length [OF p] size small by (intro unat_offset) simp
  obtain depth' where depth: "depth = Suc depth'" "length blob \<le> depth'"
    using d by (cases depth) auto
  have "file_piece file (unat (off + of_nat ?size)) ([] @ blob)"
    using p unfolding off file_piece_append [of _ _ ?data] size by simp
  then have "list_all2 (reads_as depth' file keys strings) vs ns"
    using assms tables_hold_array [OF hold] small depth(2) unfolding nodes_written_def by blast
  then have "read_node (Suc depth') file keys strings 0xC0 (unat off) = Some (ArrayNode ns)"
    using p vs(2) small file_piece_append by (intro read_array) blast+
  then show "reads_as depth file keys strings (be_bytes off) (ArrayNode ns)"
    by (simp add: reads_as_def depth node_type_def)
qed simp

lemma written_dictionary:
  assumes "entries_written keys strings kvs (off + of_nat (4 + length kvs * 8)) es [] blob"
  shows "node_written keys strings (DictionaryNode kvs) off (be_bytes off)
    ([0xC1] @ be24 (of_nat (length kvs)) @ concat es @ blob)"
  unfolding node_written_def
proof (intro conjI allI impI)
  let ?size = "4 + length kvs * 8"
  let ?data = "[0xC1] @ be24 (of_nat (length kvs)) @ concat es"
  fix "file" depth
  assume hold: "tables_hold keys strings (DictionaryNode kvs)" and small: "length file \<le> 2 ^ 26"
    and p: "file_piece file (unat off) ([0xC1] @ be24 (of_nat (length kvs)) @ concat es @ blob)"
    and d: "length ([0xC1] @ be24 (of_nat (length kvs)) @ concat es @ blob) \<le> depth"
  have es: "length es = length kvs" "\<forall>e \<in> set es. length e = 8" using assms by (auto simp: entries_written_def)
  have size: "length ?data = ?size" using es length_concat_const [OF es(2)] by simp
  have p: "file_piece file (unat off) (?data @ blob)" using p by simp
  have off: "unat (off + of_nat ?size) = unat off + ?size"
    using file_piece_length [OF p] size small by (intro unat_offset) simp
  obtain depth' where depth: "depth = Suc depth'" "length blob \<le> depth'"
    using d by (cases depth) auto
  have "file_piece file (unat (off + of_nat ?size)) ([] @ blob)"
    using p unfolding off file_piece_append [of _ _ ?data] size by simp
  then have "list_all2 (entry_reads depth' file keys strings) es kvs"
    using assms tables_hold_dictionary [OF hold] small depth(2) unfolding entries_written_def by blast
  moreover have "length keys < 2 ^ 24" using hold by (simp add: tables_hold_def)
  ultimately have "read_node (Suc depth') file keys strings 0xC1 (unat off) = Some (DictionaryNode kvs)"
    using p es(2) small file_piece_append by (intro read_dictionary) blast+
  then show "reads_as depth file keys strings (be_bytes off) (DictionaryNode kvs)"
    by (simp add: reads_as_def depth node_type_def)
qed simp

text \<open>The next child is put behind what the ones before it have added.\<close>

lemma file_piece_of_child:
  assumes "file_piece file (unat base) (extra @ b1 @ b2)" "length file \<le> 2 ^ 26"
  shows "file_piece file (unat (base + of_nat (length extra) :: u32)) b1"
    and "file_piece file (unat base) ((extra @ b1) @ b2)"
proof -
  have "unat (base + of_nat (length extra) :: u32) = unat base + length extra"
    using file_piece_length [OF assms(1)] assms(2) by (intro unat_offset) simp
  then show "file_piece file (unat (base + of_nat (length extra) :: u32)) b1"
    using assms(1) by (simp add: file_piece_append)
qed (use assms(1) in simp)

lemma written_nodes_Cons:
  assumes "node_written keys strings n (base + of_nat (length extra)) v b1"
    and "nodes_written keys strings ns base vs (extra @ b1) b2"
  shows "nodes_written keys strings (n # ns) base (v # vs) extra (b1 @ b2)"
  unfolding nodes_written_def
proof (intro conjI allI impI)
  fix "file" depth
  assume hold: "\<forall>n \<in> set (n # ns). tables_hold keys strings n" and small: "length file \<le> 2 ^ 26"
    and p: "file_piece file (unat base) (extra @ b1 @ b2)" and d: "length (b1 @ b2) \<le> depth"
  have "reads_as depth file keys strings v n"
    using assms(1) hold small file_piece_of_child(1) [OF p small] d unfolding node_written_def by auto
  moreover have "list_all2 (reads_as depth file keys strings) vs ns"
    using assms(2) hold small file_piece_of_child(2) [OF p small] d unfolding nodes_written_def by auto
  ultimately show "list_all2 (reads_as depth file keys strings) (v # vs) (n # ns)" by simp
qed (use assms in \<open>auto simp: node_written_def nodes_written_def\<close>)

lemma written_entries_Cons:
  assumes "node_written keys strings n (base + of_nat (length extra)) v b1"
    and "entries_written keys strings kvs base es (extra @ b1) b2"
  shows "entries_written keys strings ((k, n) # kvs) base
    ((be24 (table_index keys k) @ [node_type n] @ v) # es) extra (b1 @ b2)"
  unfolding entries_written_def
proof (intro conjI allI impI)
  fix "file" depth
  assume hold: "\<forall>(k', n') \<in> set ((k, n) # kvs). k' \<in> set keys \<and> tables_hold keys strings n'"
    and small: "length file \<le> 2 ^ 26"
    and p: "file_piece file (unat base) (extra @ b1 @ b2)" and d: "length (b1 @ b2) \<le> depth"
  have "reads_as depth file keys strings v n"
    using assms(1) hold small file_piece_of_child(1) [OF p small] d unfolding node_written_def by auto
  then have "entry_reads depth file keys strings (be24 (table_index keys k) @ [node_type n] @ v) (k, n)"
    using assms(1) hold by (auto simp: entry_reads_def node_written_def)
  moreover have "list_all2 (entry_reads depth file keys strings) es kvs"
    using assms(2) hold small file_piece_of_child(2) [OF p small] d unfolding entries_written_def by auto
  ultimately show "list_all2 (entry_reads depth file keys strings)
      ((be24 (table_index keys k) @ [node_type n] @ v) # es) ((k, n) # kvs)" by simp
qed (use assms in \<open>auto simp: node_written_def entries_written_def\<close>)

lemma serialize_written:
  "node_serialize keys strings n off extra = (v, extra') \<Longrightarrow>
     \<exists>blob. extra' = extra @ blob \<and> node_written keys strings n off v blob"
  "nodes_serialize keys strings ns off extra = (vs, extra') \<Longrightarrow>
     \<exists>blob. extra' = extra @ blob \<and> nodes_written keys strings ns off vs extra blob"
  "entries_serialize keys strings kvs off extra = (es, extra') \<Longrightarrow>
     \<exists>blob. extra' = extra @ blob \<and> entries_written keys strings kvs off es extra blob"
proof (induction keys strings n off extra and keys strings ns off extra and keys strings kvs off extra
    arbitrary: v extra' and vs extra' and es extra'
    rule: node_serialize_nodes_serialize_entries_serialize.induct)
  case (1 keys strings s off extra)
  then show ?case
    by (auto intro!: reads_as_leaf simp: node_type_def read_leaf_def table_index_found)
next
  case (2 keys strings b off extra)
  then show ?case
    by (auto intro!: reads_as_leaf simp: node_type_def read_leaf_def be_word_def le_word.simps split: if_splits)
next
  case (3 keys strings w off extra)
  then show ?case
    by (auto intro!: reads_as_leaf simp: node_type_def read_leaf_def)
next
  case (4 keys strings ns off extra)
  let ?base = "off + of_nat (4 + align4 (length ns) + length ns * 4)"
  obtain vs new where run: "nodes_serialize keys strings ns ?base [] = (vs, new)" by fastforce
  from 4(1) [OF refl run] obtain blob
    where "new = [] @ blob" and blob: "nodes_written keys strings ns ?base vs [] blob" by blast
  then show ?case using 4(2) run written_array [OF blob] by (auto simp: Let_def)
next
  case (5 keys strings kvs off extra)
  let ?base = "off + of_nat (4 + length kvs * 8)"
  obtain es new where run: "entries_serialize keys strings kvs ?base [] = (es, new)" by fastforce
  from 5(1) [OF refl run] obtain blob
    where "new = [] @ blob" and blob: "entries_written keys strings kvs ?base es [] blob" by blast
  then show ?case using 5(2) run written_dictionary [OF blob] by (auto simp: Let_def)
next
  case (6 keys strings base extra)
  then show ?case by (simp add: nodes_written_def)
next
  case (7 keys strings n ns base extra)
  obtain v1 extra1 where run1: "node_serialize keys strings n (base + of_nat (length extra)) extra = (v1, extra1)"
    by fastforce
  obtain vs2 extra2 where run2: "nodes_serialize keys strings ns base extra1 = (vs2, extra2)" by fastforce
  from 7(1) [OF run1] obtain b1
    where b1: "extra1 = extra @ b1" "node_written keys strings n (base + of_nat (length extra)) v1 b1" by blast
  from 7(2) [OF run1 [symmetric] refl run2] obtain b2
    where b2: "extra2 = extra1 @ b2" "nodes_written keys strings ns base vs2 extra1 b2" by blast
  show ?case
    using 7(3) run1 run2 b1(1) b2(1) written_nodes_Cons [OF b1(2) b2(2) [unfolded b1(1)]] by (auto simp: Let_def)
next
  case (8 keys strings base extra)
  then show ?case by (simp add: entries_written_def)
next
  case (9 keys strings k n kvs base extra)
  obtain v1 extra1 where run1: "node_serialize keys strings n (base + of_nat (length extra)) extra = (v1, extra1)"
    by fastforce
  obtain es2 extra2 where run2: "entries_serialize keys strings kvs base extra1 = (es2, extra2)" by fastforce
  from 9(1) [OF run1] obtain b1
    where b1: "extra1 = extra @ b1" "node_written keys strings n (base + of_nat (length extra)) v1 b1" by blast
  from 9(2) [OF run1 [symmetric] refl run2] obtain b2
    where b2: "extra2 = extra1 @ b2" "entries_written keys strings kvs base es2 extra1 b2" by blast
  show ?case
    using 9(3) run1 run2 b1(1) b2(1) written_entries_Cons [OF b1(2) b2(2) [unfolded b1(1)]] by (auto simp: Let_def)
qed

section \<open>Files\<close>

text \<open>Strings end with a zero in the file, so they must not hold one.\<close>

definition no_nul :: "node \<Rightarrow> bool" where
  "no_nul n \<longleftrightarrow> list_all (\<lambda>s. list_all (\<lambda>c. c \<noteq> CHR 0x00) s) (getKeys n @ getStrings n)"

lemma no_nulD:
  "no_nul n \<Longrightarrow> \<forall>s \<in> set (getKeys n). CHR 0x00 \<notin> set s"
  "no_nul n \<Longrightarrow> \<forall>s \<in> set (getStrings n). CHR 0x00 \<notin> set s"
  by (auto simp: no_nul_def list_all_iff)

lemma pad4_piece: "file_piece file pos (pad4 bs) \<Longrightarrow> file_piece file pos bs"
  by (simp add: pad4_def file_piece_append)

lemma table_small:
  assumes "file_piece file pos (serializeStringTable table)" "length file \<le> 2 ^ 26"
  shows "length table < 2 ^ 24"
  using file_piece_length [OF assms(1)] length_table [of table] assms(2) by simp

lemma node_root:
  assumes "node_serialize keys strings n off [] = (v, extra)" "node_type n = 0xC0 \<or> node_type n = 0xC1"
  shows "v = be_bytes off \<and> (\<exists>rest. extra = node_type n # rest)"
  using assms by (cases n) (auto simp: Let_def node_type_def split: prod.splits)

lemma file_pieces:
  assumes "file_piece file 0 (a @ b @ c @ v @ keys @ strings @ extra)"
    "length a = 4" "length b = 4" "length c = 4" "length v = 4"
  shows "file_piece file 0 a" "file_piece file 4 b" "file_piece file 8 c" "file_piece file 12 v" "file_piece file 16 keys"
    "file_piece file (16 + length keys) strings" "file_piece file (16 + length keys + length strings) extra"
  using assms by (auto simp: file_piece_append add.assoc)

text \<open>What the console reads is what was published.\<close>

lemma read_serialized:
  assumes d: "byaml_serialize n = Inr d" and nul: "no_nul n" and small: "length d \<le> 2 ^ 26"
  shows "read_byaml d = Some n"
proof -
  let ?keys = "getKeys n" and ?strings = "getStrings n"
  let ?kt = "pad4 (serializeStringTable ?keys)" and ?st = "pad4 (serializeStringTable ?strings)"
  let ?so = "16 + length ?kt"
  let ?off = "?so + length ?st"
  obtain v extra where run: "node_serialize ?keys ?strings n (of_nat ?off) [] = (v, extra)" by fastforce
  have root: "node_type n = 0xC0 \<or> node_type n = 0xC1"
    and file_eq: "d = pad4 ([0x42, 0x59, 0, 1] @ be_bytes 16 @ be_bytes (of_nat ?so) @ v @ ?kt @ ?st @ extra)"
    using d run by (auto simp: byaml_serialize_def Let_def split: if_splits)
  obtain blob where blob: "extra = blob" and w: "node_written ?keys ?strings n (of_nat ?off) v blob"
    using serialize_written(1) [OF run] by auto
  obtain rest where v: "v = be_bytes (of_nat ?off)" and rest: "extra = node_type n # rest"
    using node_root [OF run root] by auto
  have head: "length [0x42, 0x59, 0, 1 :: byte] = 4" and len: "length v = 4" by (simp_all add: v)
  have "file_piece d 0 ([0x42, 0x59, 0, 1] @ be_bytes 16 @ be_bytes (of_nat ?so) @ v @ ?kt @ ?st @ extra)"
    using pad4_piece file_piece_whole file_eq by metis
  note p = file_pieces [OF this head length_be_bytes length_be_bytes len]
  note keys = pad4_piece [OF p(5)] and strings = pad4_piece [OF p(6)]
  have wraps: "unat (of_nat ?so :: u32) = ?so" "unat (of_nat ?off :: u32) = ?off"
    by (rule unat_of_nat_u32, use file_piece_length [OF p(6)] file_piece_length [OF p(7)] small in simp)+
  have value_of: "unat (be_word v) = ?off" unfolding v be_word_be_bytes by (rule wraps(2))
  have "tables_hold ?keys ?strings n"
    using table_small [OF keys small] table_small [OF strings small] by (simp add: tables_hold_def)
  then have reads: "reads_as (length d) d ?keys ?strings v n"
    using w small p(7) file_piece_length [OF p(7)] unfolding node_written_def wraps(2) blob by simp
  have "read_table d 16 = Some ?keys" "read_table d ?so = Some ?strings"
    using read_table_piece [OF keys _ small] read_table_piece [OF strings _ small] no_nulD [OF nul] by auto
  moreover have "read_be d 4 4 = Some 16" "read_be d 8 4 = Some ?so" "read_be d 12 4 = Some ?off"
    using file_piece_word [OF p(2)] file_piece_word [OF p(3), unfolded wraps] file_piece_word [OF p(4) [unfolded v], unfolded wraps]
    by simp_all
  moreover have "read_byte d ?off = Some (node_type n)"
    using p(7) unfolding rest file_piece_Cons [of _ _ "node_type n" rest] by (auto intro: file_piece_byte)
  moreover have "take 4 d = [0x42, 0x59, 0, 1]" using p(1) head by (simp add: file_piece_def numeral_eq_Suc)
  ultimately show ?thesis
    using reads root by (simp add: read_byaml_def reads_as_def value_of)
qed

text \<open>A tree whose root holds nothing is refused, every other is written.\<close>

lemma byaml_serialize_fails:
  "byaml_serialize n = Inl e \<longleftrightarrow> e = RuntimeError \<and> \<not> (\<exists>ns. n = ArrayNode ns) \<and> \<not> (\<exists>kvs. n = DictionaryNode kvs)"
  by (cases n) (auto simp: byaml_serialize_def Let_def node_type_def split: prod.splits)

lemma dictionary_written: "node_type n = 0xC1 \<Longrightarrow> \<exists>d. byaml_serialize n = Inr d"
  using byaml_serialize_fails [of n] by (cases "byaml_serialize n"; cases n) (auto simp: node_type_def)

text \<open>Every file is made of words.\<close>

lemma align4_dvd: "4 dvd align4 n"
  by (simp add: align4_def)

lemma byaml_aligned: "byaml_serialize n = Inr d \<Longrightarrow> 4 dvd length d"
  by (auto simp: byaml_serialize_def Let_def align4_dvd split: if_splits prod.splits simp del: align4_def)

definition sample_node :: node where
  "sample_node = DictionaryNode
     [(''Rule'', StringNode ''Turf''), (''Stages'', ArrayNode [IntegerNode 7, BoolNode True])]"

end
