(* ===== verification/Festival.thy ===== *)
theory Festival
  imports ByamlRead Params Strings
begin

text \<open>
  The file of a festival, \<^verbatim>\<open>boss/byaml/FestivalGenerator.cpp\<close>: the tree with the teams, the stages, the
  times and the news in every language. A \<^verbatim>\<open>std::map\<close> by language is a partial function; the maps of
  nodes are ascending lists, built by insertion. A node keeps the 32 bits of a signed number.
\<close>

section \<open>Names of the game\<close>

datatype Language = EUROPEAN_GERMAN | EUROPEAN_ENGLISH | EUROPEAN_SPANISH | EUROPEAN_FRENCH
  | EUROPEAN_ITALIAN | JAPANESE | AMERICAN_ENGLISH | AMERICAN_SPANISH | AMERICAN_FRENCH

definition LANGUAGES :: "Language list" where
  "LANGUAGES = [EUROPEAN_GERMAN, EUROPEAN_ENGLISH, EUROPEAN_SPANISH, EUROPEAN_FRENCH, EUROPEAN_ITALIAN,
     JAPANESE, AMERICAN_ENGLISH, AMERICAN_SPANISH, AMERICAN_FRENCH]"

primrec getLanguageString :: "Language \<Rightarrow> string" where
  "getLanguageString EUROPEAN_GERMAN = ''EUde''"
| "getLanguageString EUROPEAN_ENGLISH = ''EUen''"
| "getLanguageString EUROPEAN_SPANISH = ''EUes''"
| "getLanguageString EUROPEAN_FRENCH = ''EUfr''"
| "getLanguageString EUROPEAN_ITALIAN = ''EUit''"
| "getLanguageString JAPANESE = ''JPja''"
| "getLanguageString AMERICAN_ENGLISH = ''USen''"
| "getLanguageString AMERICAN_SPANISH = ''USes''"
| "getLanguageString AMERICAN_FRENCH = ''USfr''"

datatype Speaker = IDOL_LEFT | IDOL_RIGHT | IDOL_ALL

primrec getSpeakerString :: "Speaker \<Rightarrow> string" where
  "getSpeakerString IDOL_LEFT = ''cIdolLeft''"
| "getSpeakerString IDOL_RIGHT = ''cIdolRight''"
| "getSpeakerString IDOL_ALL = ''cIdolAll''"

datatype Command = SPEAK_RAW_TEXT

primrec getCommandString :: "Command \<Rightarrow> string" where
  "getCommandString SPEAK_RAW_TEXT = ''SpeakRawText''"

datatype Emotion = NORMAL_TALK | GREETING | HAPPY | ANGRY | SURPRISED | BORED | FEED

primrec getEmotionString :: "Emotion \<Rightarrow> string" where
  "getEmotionString NORMAL_TALK = ''cNormalTalk''"
| "getEmotionString GREETING = ''cGreeting''"
| "getEmotionString HAPPY = ''cHappy''"
| "getEmotionString ANGRY = ''cAngry''"
| "getEmotionString SURPRISED = ''cSurprised''"
| "getEmotionString BORED = ''cBored''"
| "getEmotionString FEED = ''cFeed''"

datatype Gamemode = TURF_WAR | SPLAT_ZONES | TOWER_CONTROL | RAINMAKER

primrec getGamemodeString :: "Gamemode \<Rightarrow> string" where
  "getGamemodeString TURF_WAR = ''cPnt''"
| "getGamemodeString SPLAT_ZONES = ''cVar''"
| "getGamemodeString TOWER_CONTROL = ''cVlf''"
| "getGamemodeString RAINMAKER = ''cVgl''"

datatype Stage = URCHIN_UNDERPASS | WALLEYE_WAREHOUSE | SALTSPRAY_RIG | AROWANA_MALL
  | BLACKBELLY_SKATEPARK | PORT_MACKEREL | KELP_DOME | BLUEFIN_DEPOT | MORAY_TOWERS | CAMP_TRIGGERFISH
  | FLOUNDER_HEIGHTS | HAMMERHEAD_BRIDGE | MUSEUM_D_ALFONSINO | MAHIMAHI_RESORT | PIRANHA_PIT | ANCHO_V_GAMES

primrec stage_id :: "Stage \<Rightarrow> u32" where
  "stage_id URCHIN_UNDERPASS = 0"
| "stage_id WALLEYE_WAREHOUSE = 1"
| "stage_id SALTSPRAY_RIG = 2"
| "stage_id AROWANA_MALL = 3"
| "stage_id BLACKBELLY_SKATEPARK = 4"
| "stage_id PORT_MACKEREL = 6"
| "stage_id KELP_DOME = 7"
| "stage_id BLUEFIN_DEPOT = 9"
| "stage_id MORAY_TOWERS = 8"
| "stage_id CAMP_TRIGGERFISH = 5"
| "stage_id FLOUNDER_HEIGHTS = 11"
| "stage_id HAMMERHEAD_BRIDGE = 10"
| "stage_id MUSEUM_D_ALFONSINO = 12"
| "stage_id MAHIMAHI_RESORT = 15"
| "stage_id PIRANHA_PIT = 14"
| "stage_id ANCHO_V_GAMES = 13"

section \<open>Colours and times\<close>

record Color =
  co_r :: byte
  co_g :: byte
  co_b :: byte
  co_a :: byte

text \<open>
  \<^verbatim>\<open>(float) c / 255\<close> with two or one decimals. No multiple of \<open>1 / 255\<close> lies as near to the middle of
  two such decimals as the rounding error of a \<^verbatim>\<open>float\<close>, so the nearest one is found on the integers.
\<close>

definition two_decimals :: "byte \<Rightarrow> string" where
  "two_decimals c =
     (let h = (unat c * 200 + 255) div 510
      in to_string (h div 100) @ ''.'' @ to_string (h div 10 mod 10) @ to_string (h mod 10))"

definition one_decimal :: "byte \<Rightarrow> string" where
  "one_decimal c =
     (let t = (unat c * 20 + 255) div 510 in to_string (t div 10) @ ''.'' @ to_string (t mod 10))"

definition getColorString :: "Color \<Rightarrow> string" where
  "getColorString c =
     two_decimals (co_r c) @ '','' @ two_decimals (co_g c) @ '','' @ two_decimals (co_b c) @ '','' @
     one_decimal (co_a c)"

text \<open>
  \<^verbatim>\<open>util::formatTime\<close> and \<^verbatim>\<open>util::formatDate\<close>: the fields of \<^verbatim>\<open>gmtime\<close> with leading zeros. The
  nanoseconds of a time point are cut towards zero; its 64 bits keep the year between 1677 and 2262.
\<close>

definition two_digits :: "int \<Rightarrow> string" where
  "two_digits n = to_string (nat (n div 10)) @ to_string (nat (n mod 10))"

definition to_time_t :: "time_point \<Rightarrow> int" where
  "to_time_t t = (if t < 0 then - (- t div ns_per_sec) else t div ns_per_sec)"

definition format_day :: "int \<Rightarrow> string" where
  "format_day days =
     (let (y, m, d) = civil_from_days days
      in to_string (nat y) @ ''-'' @ two_digits m @ ''-'' @ two_digits d)"

definition formatDate :: "time_point \<Rightarrow> string" where
  "formatDate t = format_day (to_time_t t div 86400)"

definition formatTime :: "time_point \<Rightarrow> string" where
  "formatTime t =
     (let s = to_time_t t mod 86400
      in formatDate t @ ''T'' @ two_digits (s div 3600) @ '':'' @ two_digits (s div 60 mod 60) @ '':'' @
         two_digits (s mod 60) @ ''+00:00'')"

section \<open>The festival\<close>

record DialogueLine =
  dl_command :: Command
  dl_emotion :: Emotion
  dl_speaker :: Speaker
  dl_text :: string
  dl_waitButton :: bool

type_synonym Dialogue = "Language \<rightharpoonup> DialogueLine list"

record TeamInfo =
  te_color :: Color
  te_names :: "Language \<rightharpoonup> string"
  te_shortNames :: "Language \<rightharpoonup> string"

record FestivalInfo =
  fi_id :: u32
  fi_battleResultRate :: u32
  fi_lowPopulationNotJP :: bool
  fi_separateMatchingJP :: bool
  fi_announceNews :: Dialogue
  fi_startNews :: Dialogue
  fi_resultANews :: Dialogue
  fi_resultBNews :: Dialogue
  fi_gamemode :: Gamemode
  fi_stages :: "Stage list"
  fi_teamA :: TeamInfo
  fi_teamB :: TeamInfo
  fi_neutralColor :: Color
  fi_announceTime :: time_point
  fi_startTime :: time_point
  fi_endTime :: time_point
  fi_resultTime :: time_point
  fi_afterFesBonusStart :: time_point
  fi_backupLanguage :: Language

section \<open>The trees\<close>

text \<open>A \<^verbatim>\<open>std::map\<close> of the entries, of which the first of a key stays.\<close>

definition dict :: "(string \<times> node) list \<Rightarrow> node" where
  "dict kvs = DictionaryNode (fold (\<lambda>(k, n) m. map_insert k n m) kvs [])"

definition line_node :: "DialogueLine \<Rightarrow> node" where
  "line_node l = dict
     [(''Command'', StringNode (getCommandString (dl_command l))),
      (''Emotion'', StringNode (getEmotionString (dl_emotion l))),
      (''Speaker'', StringNode (getSpeakerString (dl_speaker l))),
      (''Text'', StringNode (dl_text l)),
      (''WaitButton'', BoolNode (dl_waitButton l))]"

text \<open>The entry of a language, or the one of the backup language: \<^verbatim>\<open>at\<close> throws if that is not there.\<close>

definition backed :: "(Language \<rightharpoonup> 'a) \<Rightarrow> Language \<Rightarrow> Language \<Rightarrow> 'a result" where
  "backed m backupLanguage l =
     (case m l of Some x \<Rightarrow> Inr x
      | None \<Rightarrow> (case m backupLanguage of Some x \<Rightarrow> Inr x | None \<Rightarrow> Inl OutOfRange))"

primrec by_language :: "(Language \<rightharpoonup> 'a) \<Rightarrow> Language \<Rightarrow> ('a \<Rightarrow> node) \<Rightarrow> Language list
    \<Rightarrow> (string \<times> node) list result" where
  "by_language m backupLanguage f [] = Inr []"
| "by_language m backupLanguage f (l # ls) =
     bindE (backed m backupLanguage l) (\<lambda>x.
     bindE (by_language m backupLanguage f ls) (\<lambda>kvs. Inr ((getLanguageString l, f x) # kvs)))"

definition generateNewsDict :: "Dialogue \<Rightarrow> Language \<Rightarrow> string \<Rightarrow> node result" where
  "generateNewsDict dialogue backupLanguage newsType =
     (if dialogue backupLanguage = None then Inl RuntimeError
      else bindE (by_language dialogue backupLanguage (\<lambda>ls. ArrayNode (map line_node ls)) LANGUAGES) (\<lambda>kvs.
           Inr (dict ((''NewsType'', StringNode newsType) # kvs))))"

definition generateTeamDict :: "TeamInfo \<Rightarrow> Language \<Rightarrow> node result" where
  "generateTeamDict teamInfo backupLanguage =
     (if te_names teamInfo backupLanguage = None then Inl RuntimeError
      else bindE (by_language (te_names teamInfo) backupLanguage StringNode LANGUAGES) (\<lambda>long.
           bindE (by_language (te_shortNames teamInfo) backupLanguage StringNode LANGUAGES) (\<lambda>short.
           Inr (dict
             [(''Color'', StringNode (getColorString (te_color teamInfo))),
              (''Name'', dict long),
              (''ShortName'', dict short)]))))"

definition generateFestivalByaml :: "FestivalInfo \<Rightarrow> node result" where
  "generateFestivalByaml info =
     (if fi_id info <s 1000 then Inl RuntimeError
      else let stages = map (\<lambda>s. dict [(''MapID'', IntegerNode (stage_id s))]) (fi_stages info);
               times = dict
                 [(''Announce'', StringNode (formatTime (fi_announceTime info))),
                  (''End'', StringNode (formatTime (fi_endTime info))),
                  (''Result'', StringNode (formatTime (fi_resultTime info))),
                  (''Start'', StringNode (formatTime (fi_startTime info)))];
               neutral = dict [(''Color'', StringNode (getColorString (fi_neutralColor info)))]
           in bindE (generateTeamDict (fi_teamA info) (fi_backupLanguage info)) (\<lambda>teamA.
              bindE (generateTeamDict (fi_teamB info) (fi_backupLanguage info)) (\<lambda>teamB.
              bindE (generateNewsDict (fi_announceNews info) (fi_backupLanguage info) ''Announce'') (\<lambda>announce.
              bindE (generateNewsDict (fi_startNews info) (fi_backupLanguage info) ''Start'') (\<lambda>start.
              bindE (generateNewsDict (fi_resultANews info) (fi_backupLanguage info) ''ResultA'') (\<lambda>resultA.
              bindE (generateNewsDict (fi_resultBNews info) (fi_backupLanguage info) ''ResultB'') (\<lambda>resultB.
              Inr (dict
                [(''BattleResultRate'', IntegerNode (fi_battleResultRate info)),
                 (''FestivalId'', IntegerNode (fi_id info)),
                 (''LowPopulationNotJP'', BoolNode (fi_lowPopulationNotJP info)),
                 (''News'', ArrayNode [announce, start, resultA, resultB]),
                 (''Rule'', StringNode (getGamemodeString (fi_gamemode info))),
                 (''SeparateMatchingJP'', BoolNode (fi_separateMatchingJP info)),
                 (''Stages'', ArrayNode stages),
                 (''Teams'', ArrayNode [teamA, teamB, neutral]),
                 (''Time'', times),
                 (''Version'', IntegerNode 0)]))))))))"

end
