(* ===== verification/FestivalFacts.thy ===== *)
theory FestivalFacts
  imports Festival
begin

text \<open>
  What a festival's tree holds: its dictionaries are ordered, so that the console can search them, and
  each of the nine languages has its news. When a festival is refused.
\<close>

section \<open>Ordered dictionaries\<close>

fun ordered_keys :: "node \<Rightarrow> bool" where
  "ordered_keys (DictionaryNode kvs) \<longleftrightarrow>
     sorted_wrt (<) (map fst kvs) \<and> list_all (\<lambda>kv. ordered_keys (snd kv)) kvs"
| "ordered_keys (ArrayNode ns) \<longleftrightarrow> list_all ordered_keys ns"
| "ordered_keys _ \<longleftrightarrow> True"

definition node_at :: "node \<Rightarrow> string \<Rightarrow> node option" where
  "node_at n k = (case n of DictionaryNode kvs \<Rightarrow> map_of kvs k | _ \<Rightarrow> None)"

lemma set_map_insert: "set (map_insert k v m) \<subseteq> insert (k, v) (set m)"
  by (induction k v m rule: map_insert.induct) auto

lemma map_of_map_insert:
  "sorted_wrt (<) (map fst m) \<Longrightarrow> map_of (map_insert k v m) = [k \<mapsto> v] ++ map_of m"
proof (induction k v m rule: map_insert.induct)
  case (2 k v k' v' m)
  have "map_of m k = None" if "k < k'" 
    using that 2(2) by (auto simp: map_of_eq_None_iff dest: order.asym)
  with 2 show ?case by (auto simp: fun_eq_iff map_add_def split: option.splits)
qed simp

lemma entries_sorted:
  "sorted_wrt (<) (map fst m) \<Longrightarrow> sorted_wrt (<) (map fst (fold (\<lambda>(k, n) m. map_insert k n m) kvs m))"
  by (induction kvs arbitrary: m) (auto simp: map_insert_sorted)

lemma entries_of:
  "sorted_wrt (<) (map fst m) \<Longrightarrow>
    map_of (fold (\<lambda>(k, n) m. map_insert k n m) kvs m) = map_of kvs ++ map_of m"
proof (induction kvs arbitrary: m)
  case (Cons kv kvs)
  then show ?case
    by (cases kv) (auto simp: map_insert_sorted map_of_map_insert fun_eq_iff map_add_def split: option.splits)
qed simp

lemma entries_subset: "set (fold (\<lambda>(k, n) m. map_insert k n m) kvs m) \<subseteq> set kvs \<union> set m"
proof (induction kvs arbitrary: m)
  case (Cons kv kvs)
  obtain k n where "kv = (k, n)" by fastforce
  then show ?case using Cons [of "map_insert k n m"] set_map_insert [of k n m] by auto
qed simp

lemma ordered_dict: "list_all (\<lambda>kv. ordered_keys (snd kv)) kvs \<Longrightarrow> ordered_keys (dict kvs)"
  using entries_subset [of kvs "[]"] entries_sorted [of "[]" kvs]
  by (auto simp: dict_def list_all_iff)

lemma node_at_dict [simp]: "node_at (dict kvs) k = map_of kvs k"
  using entries_of [of "[]" kvs] by (simp add: node_at_def dict_def)

lemma node_type_dict [simp]: "node_type (dict kvs) = 0xC1"
  by (simp add: dict_def node_type_def)

lemma ordered_line: "ordered_keys (line_node l)"
  unfolding line_node_def by (rule ordered_dict) simp

section \<open>Languages\<close>

lemma getLanguageString_inject: "getLanguageString l = getLanguageString l' \<longleftrightarrow> l = l'"
  by (cases l; cases l') simp_all

lemma set_LANGUAGES: "set LANGUAGES = UNIV"
  by (auto simp: LANGUAGES_def) (metis Language.exhaust)

text \<open>What is used for a language.\<close>

definition chosen :: "(Language \<rightharpoonup> 'a) \<Rightarrow> Language \<Rightarrow> Language \<Rightarrow> 'a option" where
  "chosen m backupLanguage l = (case m l of Some x \<Rightarrow> Some x | None \<Rightarrow> m backupLanguage)"

lemma by_language_entries:
  "by_language m b f ls = Inr kvs \<Longrightarrow>
    (l \<in> set ls \<longrightarrow> map_of kvs (getLanguageString l) = map_option f (chosen m b l)) \<and>
    set kvs \<subseteq> range (\<lambda>l. (getLanguageString l, f (case chosen m b l of Some x \<Rightarrow> x)))"
proof (induction ls arbitrary: kvs)
  case (Cons l' ls)
  obtain x kvs' where x: "backed m b l' = Inr x" and kvs': "by_language m b f ls = Inr kvs'"
    and kvs: "kvs = (getLanguageString l', f x) # kvs'"
    using Cons.prems by (auto simp: bindE_eq_Inr_iff)
  have "chosen m b l' = Some x" using x by (auto simp: backed_def chosen_def split: option.splits)
  then show ?case
    using Cons.IH [OF kvs'] by (auto simp: kvs getLanguageString_inject image_iff intro: exI [of _ l'])
qed simp

lemma by_language_returns: "m b \<noteq> None \<Longrightarrow> \<exists>kvs. by_language m b f ls = Inr kvs"
  by (induction ls) (auto simp: backed_def bindE_eq_Inr_iff split: option.splits)

lemma by_language_fails: "m b = None \<Longrightarrow> b \<in> set ls \<Longrightarrow> by_language m b f ls = Inl OutOfRange"
proof (induction ls)
  case (Cons l ls)
  then show ?case by (cases "m l") (auto simp: backed_def)
qed simp

lemma ordered_by_language:
  assumes "by_language m b f ls = Inr kvs" "\<And>x. ordered_keys (f x)"
  shows "list_all (\<lambda>kv. ordered_keys (snd kv)) kvs"
  using assms by (induction ls arbitrary: kvs) (auto simp: bindE_eq_Inr_iff)

lemma news_dict:
  assumes "generateNewsDict dialogue b newsType = Inr n"
  shows "node_at n (getLanguageString l) = map_option (\<lambda>ls. ArrayNode (map line_node ls)) (chosen dialogue b l)"
    and "ordered_keys n"
proof -
  obtain kvs where kvs: "by_language dialogue b (\<lambda>ls. ArrayNode (map line_node ls)) LANGUAGES = Inr kvs"
    and n: "n = dict ((''NewsType'', StringNode newsType) # kvs)"
    using assms by (auto simp: generateNewsDict_def bindE_eq_Inr_iff split: if_splits)
  have "getLanguageString l \<noteq> ''NewsType''" by (cases l) simp_all
  then show "node_at n (getLanguageString l) =
      map_option (\<lambda>ls. ArrayNode (map line_node ls)) (chosen dialogue b l)"
    using by_language_entries [OF kvs, of l] by (simp add: n set_LANGUAGES)
  show "ordered_keys n"
    unfolding n by (rule ordered_dict) (use ordered_by_language [OF kvs] in \<open>simp add: list_all_iff ordered_line\<close>)
qed

lemma team_dict:
  assumes "generateTeamDict team b = Inr n"
  shows "ordered_keys n"
proof -
  obtain long short where long: "by_language (te_names team) b StringNode LANGUAGES = Inr long"
    and short: "by_language (te_shortNames team) b StringNode LANGUAGES = Inr short"
    and n: "n = dict [(''Color'', StringNode (getColorString (te_color team))),
      (''Name'', dict long), (''ShortName'', dict short)]"
    using assms by (auto simp: generateTeamDict_def bindE_eq_Inr_iff split: if_splits)
  have "ordered_keys (dict long)" "ordered_keys (dict short)"
    using ordered_by_language [OF long] ordered_by_language [OF short] by (auto intro: ordered_dict)
  then show ?thesis unfolding n by (intro ordered_dict) simp
qed

section \<open>When a festival is generated\<close>

lemma returns_bindE: "(\<exists>y. bindE m f = Inr y) \<longleftrightarrow> (\<exists>x. m = Inr x \<and> (\<exists>y. f x = Inr y))"
  by (auto simp: bindE_eq_Inr_iff)

lemma generateNewsDict_returns: "(\<exists>n. generateNewsDict dialogue b t = Inr n) \<longleftrightarrow> dialogue b \<noteq> None"
  using by_language_returns [of dialogue b "\<lambda>ls. ArrayNode (map line_node ls)" LANGUAGES]
  by (auto simp: generateNewsDict_def bindE_eq_Inr_iff)

lemma generateTeamDict_returns:
  "(\<exists>n. generateTeamDict team b = Inr n) \<longleftrightarrow> te_names team b \<noteq> None \<and> te_shortNames team b \<noteq> None"
proof (cases "te_shortNames team b")
  case None
  then show ?thesis
    by (simp add: generateTeamDict_def bindE_eq_Inr_iff by_language_fails set_LANGUAGES)
next
  case (Some short)
  then show ?thesis
    using by_language_returns [of "te_names team" b StringNode LANGUAGES]
      by_language_returns [of "te_shortNames team" b StringNode LANGUAGES]
    by (auto simp: generateTeamDict_def bindE_eq_Inr_iff)
qed

text \<open>Short names are not looked at before they are used: the error is another one.\<close>

lemma short_name_unchecked:
  "te_names team b \<noteq> None \<Longrightarrow> te_shortNames team b = None \<Longrightarrow> generateTeamDict team b = Inl OutOfRange"
  using by_language_returns [of "te_names team" b StringNode LANGUAGES]
    by_language_fails [of "te_shortNames team" b LANGUAGES StringNode]
  by (auto simp: generateTeamDict_def set_LANGUAGES)

definition dialogues :: "FestivalInfo \<Rightarrow> Dialogue list" where
  "dialogues info = [fi_announceNews info, fi_startNews info, fi_resultANews info, fi_resultBNews info]"

text \<open>The backup language has all names and all news.\<close>

definition backup_complete :: "FestivalInfo \<Rightarrow> bool" where
  "backup_complete info \<longleftrightarrow>
     list_all (\<lambda>t. te_names t (fi_backupLanguage info) \<noteq> None \<and> te_shortNames t (fi_backupLanguage info) \<noteq> None)
       [fi_teamA info, fi_teamB info] \<and>
     list_all (\<lambda>d. d (fi_backupLanguage info) \<noteq> None) (dialogues info)"

lemma festival_returns:
  "(\<exists>root. generateFestivalByaml info = Inr root) \<longleftrightarrow> \<not> fi_id info <s 1000 \<and> backup_complete info"
  by (simp add: generateFestivalByaml_def Let_def returns_bindE backup_complete_def dialogues_def
      generateNewsDict_returns generateTeamDict_returns conj_ac)

section \<open>What a festival says\<close>

text \<open>The entry of a language in the news of a given number.\<close>

definition news_of :: "node \<Rightarrow> nat \<Rightarrow> Language \<Rightarrow> node option" where
  "news_of root i l =
     (case node_at root ''News'' of
        Some (ArrayNode ns) \<Rightarrow> if i < length ns then node_at (ns ! i) (getLanguageString l) else None
      | _ \<Rightarrow> None)"

definition festival_lines :: "FestivalInfo \<Rightarrow> nat \<Rightarrow> Language \<Rightarrow> DialogueLine list" where
  "festival_lines info i l =
     (case chosen (dialogues info ! i) (fi_backupLanguage info) l of Some ls \<Rightarrow> ls | None \<Rightarrow> [])"

lemma festival_parts:
  assumes "generateFestivalByaml info = Inr root"
  obtains teamA teamB news stages times neutral where
    "generateTeamDict (fi_teamA info) (fi_backupLanguage info) = Inr teamA"
    "generateTeamDict (fi_teamB info) (fi_backupLanguage info) = Inr teamB"
    "length news = 4" "\<And>i. i < 4 \<Longrightarrow> \<exists>t. generateNewsDict (dialogues info ! i) (fi_backupLanguage info) t = Inr (news ! i)"
    "root = dict
       [(''BattleResultRate'', IntegerNode (fi_battleResultRate info)),
        (''FestivalId'', IntegerNode (fi_id info)),
        (''LowPopulationNotJP'', BoolNode (fi_lowPopulationNotJP info)),
        (''News'', ArrayNode news),
        (''Rule'', StringNode (getGamemodeString (fi_gamemode info))),
        (''SeparateMatchingJP'', BoolNode (fi_separateMatchingJP info)),
        (''Stages'', ArrayNode stages),
        (''Teams'', ArrayNode [teamA, teamB, neutral]),
        (''Time'', times),
        (''Version'', IntegerNode 0)]"
    "list_all ordered_keys stages" "ordered_keys times" "ordered_keys neutral"
proof -
  obtain teamA teamB n0 n1 n2 n3 where t: "generateTeamDict (fi_teamA info) (fi_backupLanguage info) = Inr teamA"
      "generateTeamDict (fi_teamB info) (fi_backupLanguage info) = Inr teamB"
    and n: "generateNewsDict (fi_announceNews info) (fi_backupLanguage info) ''Announce'' = Inr n0"
      "generateNewsDict (fi_startNews info) (fi_backupLanguage info) ''Start'' = Inr n1"
      "generateNewsDict (fi_resultANews info) (fi_backupLanguage info) ''ResultA'' = Inr n2"
      "generateNewsDict (fi_resultBNews info) (fi_backupLanguage info) ''ResultB'' = Inr n3"
    using assms by (auto simp: generateFestivalByaml_def Let_def bindE_eq_Inr_iff split: if_splits)
  have "\<exists>t. generateNewsDict (dialogues info ! i) (fi_backupLanguage info) t = Inr ([n0, n1, n2, n3] ! i)"
    if "i < 4" for i
    using n that by (auto simp: dialogues_def numeral_eq_Suc less_Suc_eq)
  with t n assms show thesis
    by (intro that [of teamA teamB "[n0, n1, n2, n3]"])
      (auto simp: generateFestivalByaml_def Let_def list_all_iff ordered_dict split: if_splits)
qed

lemma festival_news:
  assumes "generateFestivalByaml info = Inr root" "i < 4"
  shows "news_of root i l = Some (ArrayNode (map line_node (festival_lines info i l)))"
proof -
  obtain news where news: "node_at root ''News'' = Some (ArrayNode news)" "length news = 4"
    and n: "\<exists>t. generateNewsDict (dialogues info ! i) (fi_backupLanguage info) t = Inr (news ! i)"
    by (rule festival_parts [OF assms(1)]) (use assms(2) in \<open>simp add: that\<close>)
  then obtain t where t: "generateNewsDict (dialogues info ! i) (fi_backupLanguage info) t = Inr (news ! i)" by blast
  then have "(dialogues info ! i) (fi_backupLanguage info) \<noteq> None"
    using generateNewsDict_returns by metis
  then obtain ls where "chosen (dialogues info ! i) (fi_backupLanguage info) l = Some ls"
    by (cases "(dialogues info ! i) l") (auto simp: chosen_def)
  then show ?thesis
    using news news_dict(1) [OF t, of l] assms(2) by (simp add: news_of_def festival_lines_def)
qed

section \<open>A small festival\<close>

definition hello :: Dialogue where
  "hello l = (if l = AMERICAN_ENGLISH then Some [\<lparr>dl_command = SPEAK_RAW_TEXT, dl_emotion = HAPPY,
     dl_speaker = IDOL_LEFT, dl_text = ''Hi'', dl_waitButton = True\<rparr>] else None)"

definition sample_team :: TeamInfo where
  "sample_team = \<lparr>te_color = \<lparr>co_r = 12, co_g = 24, co_b = 48, co_a = 255\<rparr>,
     te_names = [AMERICAN_ENGLISH \<mapsto> ''Cats''], te_shortNames = [AMERICAN_ENGLISH \<mapsto> ''Cats'']\<rparr>"

definition sample_festival :: FestivalInfo where
  "sample_festival = \<lparr>fi_id = 7393, fi_battleResultRate = 2, fi_lowPopulationNotJP = True,
     fi_separateMatchingJP = False, fi_announceNews = hello, fi_startNews = hello, fi_resultANews = hello,
     fi_resultBNews = hello, fi_gamemode = SPLAT_ZONES,
     fi_stages = [AROWANA_MALL, FLOUNDER_HEIGHTS, MAHIMAHI_RESORT], fi_teamA = sample_team, fi_teamB = sample_team,
     fi_neutralColor = \<lparr>co_r = 100, co_g = 100, co_b = 100, co_a = 255\<rparr>,
     fi_announceTime = 0, fi_startTime = 0, fi_endTime = 0, fi_resultTime = 0, fi_afterFesBonusStart = 0,
     fi_backupLanguage = AMERICAN_ENGLISH\<rparr>"


end
