(* ===== verification/VsSetting.thy ===== *)
theory VsSetting
  imports FestivalFacts
begin

text \<open>
  The battle settings, \<^verbatim>\<open>boss/byaml/VSSettingGenerator.cpp\<close>: the rotation of stages and rules that a
  console follows, drawn at random or given by a configuration. The random engine is a state and two
  distributions over it, which give an index into the maps and into the rules.
\<close>

section \<open>The settings\<close>

definition ADD_FIRST_MATCHING_TIME :: u32 where "ADD_FIRST_MATCHING_TIME = 30"
definition ADD_MATCHING_TIME :: u32 where "ADD_MATCHING_TIME = 0"
definition BOTTLENECK_THRESHOLD_TIME :: u32 where "BOTTLENECK_THRESHOLD_TIME = 480"
definition DISCONNECT_BY_MEMORY_HASH :: bool where "DISCONNECT_BY_MEMORY_HASH = True"
definition MAPS_FIRST_APPEARANCE :: string where "MAPS_FIRST_APPEARANCE = ''2015-04-17''"
definition RULE_FIRST_APPEARANCE :: string where "RULE_FIRST_APPEARANCE = ''2015-04-17''"
definition WEAPON_UNLOCK :: string where "WEAPON_UNLOCK = ''2015-04-17''"
definition TIMEOUT_AFTER_JOIN :: u32 where "TIMEOUT_AFTER_JOIN = 120"
definition VERSION :: u32 where "VERSION = 3"
definition WAIT_MATCHING_TIME :: u32 where "WAIT_MATCHING_TIME = 25"
definition WEB_POST :: bool where "WEB_POST = True"
definition PHASE_COUNT :: nat where "PHASE_COUNT = 180"
definition PHASE_DURATION :: u32 where "PHASE_DURATION = 4"

definition MAPS :: "u32 list" where
  "MAPS = [0, 1, 2, 3, 4, 5, 6, 7, 8, 9, 10, 11, 12, 13, 14, 15]"

definition RULES :: "string list" where
  "RULES = [''cVar'', ''cVlf'', ''cVgl'']"

definition WEAPON_SETS :: "u32 list" where
  "WEAPON_SETS =
    [1000, 1001, 1002, 1020, 1021, 1032, 1042, 1060, 1061, 1062, 1072, 1081, 1091, 1110, 1111, 1130,
     1131, 1132, 1150, 1151, 1160, 1161, 1170, 1171, 1172, 2000, 2001, 2012, 2022, 2030, 2031, 2032,
     2040, 2041, 3000, 3001, 3002, 3010, 3011, 3020, 3021, 4002, 4012, 4022, 4031, 4040, 4041, 4050,
     4051, 4052, 5000, 5001, 5002, 5010, 5011, 5012, 5020, 5021]"

record PhaseConfig =
  ph_gachiRule :: Gamemode
  ph_regularRule :: Gamemode
  ph_gachiStages :: "u32 list"
  ph_regularStages :: "u32 list"
  ph_duration :: u32

record VSSettingFullConfig =
  vs_addFirstMatchingTime :: u32
  vs_addMatchingTime :: u32
  vs_afterFesBonusStart :: time_point
  vs_bottleneckThresholdFrame :: u32
  vs_disconnectByMemoryHash :: bool
  vs_datetime :: time_point
  vs_mapFirstAppear :: "(u32 \<times> time_point) list"
  vs_phases :: "PhaseConfig list"
  vs_ruleFirstAppear :: "(Gamemode \<times> time_point) list"
  vs_timeoutAfterJoin :: u32
  vs_version :: u32
  vs_waitMatchingTime :: u32
  vs_weaponUnlock :: "(u32 \<times> time_point) list"
  vs_webPost :: bool

definition gamemodeToGameString :: "Gamemode \<Rightarrow> string" where
  "gamemodeToGameString m = getGamemodeString m"

section \<open>Nodes of both generators\<close>

definition map_appear_node :: "u32 \<Rightarrow> string \<Rightarrow> node" where
  "map_appear_node m date = dict [(''Date'', StringNode date), (''MapID'', IntegerNode m)]"

definition rule_appear_node :: "string \<Rightarrow> string \<Rightarrow> node" where
  "rule_appear_node rule date = dict [(''Date'', StringNode date), (''GachiRule'', StringNode rule)]"

definition weapon_node :: "u32 \<Rightarrow> string \<Rightarrow> node" where
  "weapon_node i date = dict [(''Date'', StringNode date), (''WeaponSetID'', IntegerNode i)]"

definition stages_node :: "u32 list \<Rightarrow> node" where
  "stages_node stages = ArrayNode (map (\<lambda>s. dict [(''MapID'', IntegerNode s)]) stages)"

definition phase_node :: "string \<Rightarrow> u32 list \<Rightarrow> string \<Rightarrow> u32 list \<Rightarrow> u32 \<Rightarrow> node" where
  "phase_node gachiRule gachiStages regularRule regularStages duration = dict
     [(''GachiRule'', StringNode gachiRule),
      (''GachiStages'', stages_node gachiStages),
      (''RegularRule'', StringNode regularRule),
      (''RegularStages'', stages_node regularStages),
      (''Time'', IntegerNode duration)]"

section \<open>Drawing a rotation\<close>

text \<open>\<^verbatim>\<open>vec[dist(gen)]\<close>. An index behind the vector's end is \<open>None\<close>; so is a loop that does not end.\<close>

definition pick :: "'a list \<Rightarrow> ('g \<Rightarrow> nat \<times> 'g) \<Rightarrow> 'g \<Rightarrow> ('a \<times> 'g) option" where
  "pick xs dist g = (let (i, g) = dist g in if i < length xs then Some (xs ! i, g) else None)"

text \<open>\<^verbatim>\<open>while (stage2 == stage1) stage2 = maps[mapDist(gen)]\<close>, from its first draw on.\<close>

partial_function (option) pick_other :: "('g \<Rightarrow> nat \<times> 'g) \<Rightarrow> u32 \<Rightarrow> 'g \<Rightarrow> (u32 \<times> 'g) option" where
  "pick_other dist stage1 g =
     (case pick MAPS dist g of
        None \<Rightarrow> None
      | Some (stage2, g) \<Rightarrow> if stage2 = stage1 then pick_other dist stage1 g else Some (stage2, g))"

definition draw_phase :: "('g \<Rightarrow> nat \<times> 'g) \<Rightarrow> ('g \<Rightarrow> nat \<times> 'g) \<Rightarrow> u32 \<Rightarrow> 'g \<Rightarrow> (node \<times> 'g) option" where
  "draw_phase mapDist ruleDist duration g =
     Option.bind (pick RULES ruleDist g) (\<lambda>(gachiRule, g).
     Option.bind (pick MAPS mapDist g) (\<lambda>(gachiStage1, g).
     Option.bind (pick_other mapDist gachiStage1 g) (\<lambda>(gachiStage2, g).
     Option.bind (pick MAPS mapDist g) (\<lambda>(regularStage1, g).
     Option.bind (pick_other mapDist regularStage1 g) (\<lambda>(regularStage2, g).
     Some (phase_node gachiRule [gachiStage1, gachiStage2] ''cPnt'' [regularStage1, regularStage2] duration, g))))))"

text \<open>The last phase has a duration of ten years. \<open>n\<close> phases are left to draw.\<close>

primrec draw_phases :: "('g \<Rightarrow> nat \<times> 'g) \<Rightarrow> ('g \<Rightarrow> nat \<times> 'g) \<Rightarrow> nat \<Rightarrow> 'g \<Rightarrow> node list option" where
  "draw_phases mapDist ruleDist 0 g = Some []"
| "draw_phases mapDist ruleDist (Suc n) g =
     Option.bind (draw_phase mapDist ruleDist (if n = 0 then 87600 else PHASE_DURATION) g) (\<lambda>(phase, g).
     Option.bind (draw_phases mapDist ruleDist n g) (\<lambda>phases. Some (phase # phases)))"

definition generateVSSettingByaml ::
    "('g \<Rightarrow> nat \<times> 'g) \<Rightarrow> ('g \<Rightarrow> nat \<times> 'g) \<Rightarrow> 'g \<Rightarrow> time_point \<Rightarrow> time_point \<Rightarrow> node option" where
  "generateVSSettingByaml mapDist ruleDist g now afterFesBonusStartTime =
     Option.bind (draw_phases mapDist ruleDist PHASE_COUNT g) (\<lambda>phases.
     Some (dict
       [(''AddFirstMatchingTime'', IntegerNode ADD_FIRST_MATCHING_TIME),
        (''AddMatchingTime'', IntegerNode ADD_MATCHING_TIME),
        (''AfterFesBonusStart'', StringNode (formatTime afterFesBonusStartTime)),
        (''BottleneckThreasholdFrame'', IntegerNode BOTTLENECK_THRESHOLD_TIME),
        (''DateTime'', StringNode (formatTime now)),
        (''DisconnectByMemoryHash'', BoolNode DISCONNECT_BY_MEMORY_HASH),
        (''MapFirstAppear'', ArrayNode (map (\<lambda>m. map_appear_node m MAPS_FIRST_APPEARANCE) MAPS)),
        (''Phases'', ArrayNode phases),
        (''RuleFirstAppear'', ArrayNode (map (\<lambda>r. rule_appear_node r RULE_FIRST_APPEARANCE) RULES)),
        (''TimeoutAfterJoin'', IntegerNode TIMEOUT_AFTER_JOIN),
        (''Version'', IntegerNode VERSION),
        (''WaitMatchingTime'', IntegerNode WAIT_MATCHING_TIME),
        (''WeaponUnlock'', ArrayNode (map (\<lambda>i. weapon_node i WEAPON_UNLOCK) WEAPON_SETS)),
        (''WebPost'', BoolNode WEB_POST)]))"

definition generateVSSettingByamlFromConfig :: "VSSettingFullConfig \<Rightarrow> node" where
  "generateVSSettingByamlFromConfig config = dict
     [(''AddFirstMatchingTime'', IntegerNode (vs_addFirstMatchingTime config)),
      (''AddMatchingTime'', IntegerNode (vs_addMatchingTime config)),
      (''AfterFesBonusStart'', StringNode (formatTime (vs_afterFesBonusStart config))),
      (''BottleneckThreasholdFrame'', IntegerNode (vs_bottleneckThresholdFrame config)),
      (''DateTime'', StringNode (formatTime (vs_datetime config))),
      (''DisconnectByMemoryHash'', BoolNode (vs_disconnectByMemoryHash config)),
      (''MapFirstAppear'', ArrayNode (map (\<lambda>(m, t). map_appear_node m (formatDate t)) (vs_mapFirstAppear config))),
      (''Phases'', ArrayNode (map (\<lambda>p. phase_node (gamemodeToGameString (ph_gachiRule p)) (ph_gachiStages p)
         (gamemodeToGameString (ph_regularRule p)) (ph_regularStages p) (ph_duration p)) (vs_phases config))),
      (''RuleFirstAppear'', ArrayNode (map (\<lambda>(r, t). rule_appear_node (gamemodeToGameString r) (formatDate t))
         (vs_ruleFirstAppear config))),
      (''TimeoutAfterJoin'', IntegerNode (vs_timeoutAfterJoin config)),
      (''Version'', IntegerNode (vs_version config)),
      (''WaitMatchingTime'', IntegerNode (vs_waitMatchingTime config)),
      (''WeaponUnlock'', ArrayNode (map (\<lambda>(i, t). weapon_node i (formatDate t)) (vs_weaponUnlock config))),
      (''WebPost'', BoolNode (vs_webPost config))]"

section \<open>The rotation\<close>

definition varies :: "('g \<Rightarrow> nat \<times> 'g) \<Rightarrow> bool" where
  "varies dist \<longleftrightarrow> (\<forall>g. fst (dist g) < length MAPS) \<and>
     (\<forall>g i. \<exists>n. fst (dist (((snd \<circ> dist) ^^ n) g)) \<noteq> i)"

definition in_rules :: "('g \<Rightarrow> nat \<times> 'g) \<Rightarrow> bool" where
  "in_rules dist \<longleftrightarrow> (\<forall>g. fst (dist g) < length RULES)"

lemma distinct_MAPS: "distinct MAPS" by (simp add: MAPS_def)

lemma pick_in_range: "fst (dist g) < length xs \<Longrightarrow> pick xs dist g = Some (xs ! fst (dist g), snd (dist g))"
  by (simp add: pick_def case_prod_unfold Let_def)

text \<open>The loop ends once the distribution gives another index.\<close>

lemma pick_other_returns_after:
  assumes "\<forall>g. fst (dist g) < length MAPS" "k < length MAPS"
    "fst (dist (((snd \<circ> dist) ^^ n) g)) \<noteq> k"
  shows "\<exists>s g'. pick_other dist (MAPS ! k) g = Some (s, g') \<and> s \<noteq> MAPS ! k"
  using assms(3)
proof (induction n arbitrary: g)
  case 0
  then have "MAPS ! fst (dist g) \<noteq> MAPS ! k"
    using assms(1,2) distinct_MAPS by (simp add: nth_eq_iff_index_eq)
  then show ?case using assms(1) by (simp add: pick_other.simps pick_in_range)
next
  case (Suc n)
  have "\<exists>s g'. pick_other dist (MAPS ! k) (snd (dist g)) = Some (s, g') \<and> s \<noteq> MAPS ! k"
    using Suc.IH [of "snd (dist g)"] Suc.prems by (simp add: funpow_swap1 [of "\<lambda>a. snd (dist a)"] comp_def)
  then show ?case using assms(1) by (subst pick_other.simps) (simp add: pick_in_range)
qed

lemma pick_other_returns:
  assumes "varies dist" "pick MAPS dist g0 = Some (stage, g)"
  shows "\<exists>s g'. pick_other dist stage g = Some (s, g') \<and> s \<noteq> stage"
proof -
  have bound: "\<forall>g. fst (dist g) < length MAPS" using assms(1) by (simp add: varies_def)
  then have stage: "stage = MAPS ! fst (dist g0)" using assms(2) by (simp add: pick_in_range)
  obtain n where "fst (dist (((snd \<circ> dist) ^^ n) g)) \<noteq> fst (dist g0)"
    using assms(1) unfolding varies_def by blast
  from pick_other_returns_after [OF bound bound [rule_format] this] show ?thesis by (simp add: stage)
qed

definition phases_of :: "node \<Rightarrow> node list" where
  "phases_of root = (case node_at root ''Phases'' of Some (ArrayNode ps) \<Rightarrow> ps | _ \<Rightarrow> [])"

definition integer_at :: "node \<Rightarrow> string \<Rightarrow> u32 option" where
  "integer_at n k = (case node_at n k of Some (IntegerNode w) \<Rightarrow> Some w | _ \<Rightarrow> None)"

definition stages_of :: "node \<Rightarrow> string \<Rightarrow> u32 option list" where
  "stages_of phase k =
     (case node_at phase k of Some (ArrayNode ns) \<Rightarrow> map (\<lambda>n. integer_at n ''MapID'') ns | _ \<Rightarrow> [])"

definition two_stages :: "node \<Rightarrow> string \<Rightarrow> bool" where
  "two_stages phase k \<longleftrightarrow> length (stages_of phase k) = 2 \<and> distinct (stages_of phase k) \<and> None \<notin> set (stages_of phase k)"

definition good_phase :: "u32 \<Rightarrow> node \<Rightarrow> bool" where
  "good_phase duration phase \<longleftrightarrow> two_stages phase ''GachiStages'' \<and> two_stages phase ''RegularStages'' \<and>
     integer_at phase ''Time'' = Some duration \<and> ordered_keys phase"

lemma good_phase_node:
  "a \<noteq> b \<Longrightarrow> c \<noteq> d \<Longrightarrow> good_phase t (phase_node gachi [a, b] regular [c, d] t)"
  by (auto simp: good_phase_def two_stages_def stages_of_def integer_at_def phase_node_def stages_node_def
      intro!: ordered_dict)

lemma draw_phase_good:
  assumes "varies mapDist" "in_rules ruleDist"
  shows "\<exists>p g'. draw_phase mapDist ruleDist duration g = Some (p, g') \<and> good_phase duration p"
proof -
  obtain rule g1 where 1: "pick RULES ruleDist g = Some (rule, g1)"
    using assms(2) by (simp add: in_rules_def pick_in_range)
  obtain a g2 where 2: "pick MAPS mapDist g1 = Some (a, g2)"
    using assms(1) by (simp add: varies_def pick_in_range)
  obtain b g3 where 3: "pick_other mapDist a g2 = Some (b, g3)" "b \<noteq> a"
    using pick_other_returns [OF assms(1) 2] by blast
  obtain c g4 where 4: "pick MAPS mapDist g3 = Some (c, g4)"
    using assms(1) by (simp add: varies_def pick_in_range)
  obtain d g5 where 5: "pick_other mapDist c g4 = Some (d, g5)" "d \<noteq> c"
    using pick_other_returns [OF assms(1) 4] by blast
  show ?thesis using 1 2 3 4 5 by (simp add: draw_phase_def good_phase_node)
qed

text \<open>How long the phases last.\<close>

definition rotation :: "nat \<Rightarrow> u32 list" where
  "rotation n = (if n = 0 then [] else replicate (n - 1) PHASE_DURATION @ [87600])"

lemma draw_phases_good:
  assumes "varies mapDist" "in_rules ruleDist"
  shows "\<exists>ps. draw_phases mapDist ruleDist n g = Some ps \<and> list_all2 good_phase (rotation n) ps"
proof (induction n arbitrary: g)
  case 0
  then show ?case by (simp add: rotation_def)
next
  case (Suc n)
  let ?t = "if n = 0 then 87600 else PHASE_DURATION"
  obtain p g' where p: "draw_phase mapDist ruleDist ?t g = Some (p, g')" "good_phase ?t p"
    using draw_phase_good [OF assms] by blast
  obtain ps where ps: "draw_phases mapDist ruleDist n g' = Some ps" "list_all2 good_phase (rotation n) ps"
    using Suc.IH by blast
  have "rotation (Suc n) = ?t # rotation n"
    by (cases n) (simp_all add: rotation_def)
  then show ?case using p ps by simp
qed

lemma vs_setting_returns:
  assumes "varies mapDist" "in_rules ruleDist"
  shows "\<exists>root. generateVSSettingByaml mapDist ruleDist g now t = Some root \<and>
    list_all2 good_phase (rotation PHASE_COUNT) (phases_of root) \<and> ordered_keys root \<and>
    (\<exists>d. byaml_serialize root = Inr d)"
proof -
  obtain ps where ps: "draw_phases mapDist ruleDist PHASE_COUNT g = Some ps"
      "list_all2 good_phase (rotation PHASE_COUNT) ps"
    using draw_phases_good [OF assms] by blast
  then have "list_all ordered_keys ps"
    by (auto simp: list_all_length list_all2_conv_all_nth good_phase_def)
  then have "\<exists>root. generateVSSettingByaml mapDist ruleDist g now t = Some root \<and> phases_of root = ps \<and>
      ordered_keys root \<and> node_type root = 0xC1"
    using ps(1)
    by (auto simp: generateVSSettingByaml_def phases_of_def list_all_iff map_appear_node_def
        rule_appear_node_def weapon_node_def intro!: ordered_dict)
  then obtain root where root: "generateVSSettingByaml mapDist ruleDist g now t = Some root"
      "phases_of root = ps" "ordered_keys root" "node_type root = 0xC1" by blast
  obtain d where "byaml_serialize root = Inr d" using dictionary_written root(4) by blast
  then show ?thesis using root ps(2) by blast
qed

text \<open>A distribution that goes round the maps.\<close>

definition round_robin :: "nat \<Rightarrow> nat \<Rightarrow> nat \<times> nat" where
  "round_robin n g = (g mod n, Suc g)"

lemma round_robin_varies: "varies (round_robin 16)" "in_rules (round_robin 3)"
proof -
  have step: "((snd \<circ> round_robin 16) ^^ n) g = g + n" for n g
    by (induction n) (simp_all add: round_robin_def)
  have "\<exists>n. (g + n) mod 16 \<noteq> i" for g i :: nat
  proof (cases "g mod 16 = i")
    case True
    then have "Suc g mod 16 \<noteq> i" by (cases "Suc (g mod 16) = 16") (auto simp: mod_Suc)
    then show ?thesis by (intro exI [of _ 1]) simp
  qed (auto intro: exI [of _ 0])
  moreover have "fst (round_robin 16 g) < length MAPS" for g by (simp add: round_robin_def MAPS_def)
  ultimately show "varies (round_robin 16)"
    unfolding varies_def step by (simp add: round_robin_def)
  have "fst (round_robin 3 g) < length RULES" for g by (simp add: round_robin_def RULES_def)
  then show "in_rules (round_robin 3)" by (simp add: in_rules_def)
qed

end
