(* ===== verification/HttpParser.thy ===== *)
theory HttpParser
  imports Strings
begin

text \<open>
  The HTTP parser, \<^verbatim>\<open>http/parser/common.cpp\<close>: where a message ends, and the parts that requests and
  responses share. A buffer of bytes, which the sources read through a \<^verbatim>\<open>std::string_view\<close>, is a
  \<open>string\<close> here, and so are bodies; \<^verbatim>\<open>char\<close> is signed, as on the platforms the program is built for. An
  \<^verbatim>\<open>unordered_map\<close> is an association list with new keys behind the others; nothing depends on the
  order in which it is iterated. A read behind a view's end is \<open>UndefinedAccess\<close>.
\<close>

section \<open>Views\<close>

definition crlf :: string where "crlf = [CHR 0x0D, CHR 0x0A]"

fun starts_with :: "string \<Rightarrow> string \<Rightarrow> bool" where
  "starts_with [] s \<longleftrightarrow> True"
| "starts_with (c # cs) [] \<longleftrightarrow> False"
| "starts_with (c # cs) (d # ds) \<longleftrightarrow> c = d \<and> starts_with cs ds"

text \<open>\<^verbatim>\<open>find\<close> and \<^verbatim>\<open>std::search\<close>; \<open>None\<close> is \<^verbatim>\<open>npos\<close>, or the end.\<close>

fun find_sub :: "string \<Rightarrow> string \<Rightarrow> nat option" where
  "find_sub pat [] = (if pat = [] then Some 0 else None)"
| "find_sub pat (c # cs) = (if starts_with pat (c # cs) then Some 0 else map_option Suc (find_sub pat cs))"

text \<open>\<^verbatim>\<open>s.substr(0, s.find(pat))\<close>, and for a single character; \<^verbatim>\<open>s.substr(s.find(c) + 1)\<close>.\<close>

definition before_sub :: "string \<Rightarrow> string \<Rightarrow> string" where
  "before_sub pat s = (case find_sub pat s of None \<Rightarrow> s | Some i \<Rightarrow> take i s)"

definition before_char :: "char \<Rightarrow> string \<Rightarrow> string" where
  "before_char c s = takeWhile (\<lambda>d. d \<noteq> c) s"

definition after_char :: "char \<Rightarrow> string \<Rightarrow> string" where
  "after_char c s = (if c \<in> set s then tl (dropWhile (\<lambda>d. d \<noteq> c) s) else s)"

definition char_code :: "char \<Rightarrow> nat" where
  "char_code c = of_char c"

section \<open>Percent encoding\<close>

text \<open>
  The number of two digits is cut to a signed character, so that everything from 128 on is below the
  blank as well.
\<close>

fun percentDecode :: "string \<Rightarrow> string result" where
  "percentDecode [] = Inr []"
| "percentDecode (c # cs) =
     (if c = CHR ''%'' then
        case cs of
          a # b # rest \<Rightarrow>
            (case stoul 16 [a, b] of
               Inl _ \<Rightarrow> Inl MalformedException
             | Inr v \<Rightarrow>
                 let n = v mod 256
                 in if 128 \<le> n \<or> n < 0x20 \<or> n = 0x7F then Inl MalformedException
                    else bindE (percentDecode rest) (\<lambda>s. Inr (char_of n # s)))
        | _ \<Rightarrow> Inl MalformedException
      else bindE (percentDecode cs) (\<lambda>s. Inr (c # s)))"

definition reserved :: string where
  "reserved = '' !'' @ [CHR 0x22] @ ''#$%&'' @ [CHR 0x27] @ ''()*+,/:;=?@[]''"

definition hex_char :: "nat \<Rightarrow> char" where
  "hex_char n = (if n < 10 then char_of (48 + n) else char_of (87 + n))"

text \<open>A signed character is never above \<^verbatim>\<open>0x7F\<close>; the reserved ones have two hexadecimal digits.\<close>

definition percentEncode :: "string \<Rightarrow> bool \<Rightarrow> string" where
  "percentEncode str allowSlash =
     concat (map (\<lambda>c.
       if c = CHR ''/'' \<and> allowSlash then [c]
       else if c \<in> set reserved then [CHR ''%'', hex_char (char_code c div 16), hex_char (char_code c mod 16)]
       else [c]) str)"

section \<open>Queries and headers\<close>

type_synonym headers = "(string \<times> string list) list"

text \<open>\<^verbatim>\<open>std::unordered_map::insert\<close> keeps an entry that is there.\<close>

definition insert_new :: "'k \<Rightarrow> 'v \<Rightarrow> ('k \<times> 'v) list \<Rightarrow> ('k \<times> 'v) list" where
  "insert_new k v m = (if k \<in> fst ` set m then m else m @ [(k, v)])"

definition update_at :: "'k \<Rightarrow> ('v \<Rightarrow> 'v) \<Rightarrow> ('k \<times> 'v) list \<Rightarrow> ('k \<times> 'v) list" where
  "update_at k f m = map (\<lambda>(k', v). (k', if k' = k then f v else v)) m"

lemma length_after_char: "c \<in> set s \<Longrightarrow> length (after_char c s) < length s"
proof -
  assume "c \<in> set s"
  moreover from this have "dropWhile (\<lambda>d. d \<noteq> c) s \<noteq> []" by (simp add: dropWhile_eq_Nil_conv)
  ultimately show ?thesis
    using length_dropWhile_le [of "\<lambda>d. d \<noteq> c" s]
    by (cases "dropWhile (\<lambda>d. d \<noteq> c) s") (auto simp: after_char_def)
qed

function parseQuery :: "string \<Rightarrow> (string \<times> string) list \<Rightarrow> (string \<times> string) list result" where
  "parseQuery queryStr queries =
     (if queryStr = [] then Inr queries
      else let param = before_char (CHR ''&'') queryStr;
               paramStr = map (\<lambda>c. if c = CHR ''+'' then CHR '' '' else c) param;
               key = before_char (CHR ''='') paramStr;
               val = (if CHR ''='' \<in> set paramStr then after_char (CHR ''='') paramStr else [])
           in if key = [] then Inl MalformedException
              else bindE (percentDecode key) (\<lambda>k.
                   bindE (percentDecode val) (\<lambda>v.
                   if CHR ''&'' \<in> set queryStr
                   then parseQuery (after_char (CHR ''&'') queryStr) (insert_new k v queries)
                   else Inr (insert_new k v queries))))"
  by pat_completeness auto
termination
  by (relation "measure (\<lambda>(q, _). length q)") (auto intro: length_after_char)

declare parseQuery.simps [simp del]

definition to_lower :: "char \<Rightarrow> char" where
  "to_lower c = (if 65 \<le> char_code c \<and> char_code c \<le> 90 then char_of (char_code c + 32) else c)"

definition not_in_trailers :: "string list" where
  "not_in_trailers = [''transfer-encoding'', ''content-length'', ''host'', ''cache-control'', ''max-forwards'',
     ''te'', ''authorization'', ''set-cookie'', ''content-encoding'', ''content-type'', ''content-range'',
     ''trailer'']"

text \<open>The value's first and last characters are read before its length is looked at.\<close>

definition trim_value :: "string \<Rightarrow> string result" where
  "trim_value value =
     (if value = [] then Inl UndefinedAccess
      else let value = (if hd value = CHR '' '' then tl value else value)
           in if value = [] then Inl UndefinedAccess
              else Inr (if last value = CHR '' '' then butlast value else value))"

definition parseHeader :: "string \<Rightarrow> headers \<Rightarrow> bool \<Rightarrow> headers result" where
  "parseHeader header hs fromChunked =
     (if CHR '':'' \<notin> set header then Inl MalformedException
      else let key = map to_lower (before_char (CHR '':'') header)
           in if fromChunked \<and> key \<in> set not_in_trailers then Inl MalformedException
              else bindE (trim_value (after_char (CHR '':'') header)) (\<lambda>value.
                   Inr (update_at key (\<lambda>vs. vs @ [value]) (insert_new key [] hs))))"

section \<open>The end of a message\<close>

definition isHTTPHeaderComplete :: "string \<Rightarrow> nat option" where
  "isHTTPHeaderComplete data = map_option (\<lambda>pos. pos + 4) (find_sub (crlf @ crlf) data)"

text \<open>
  The length of a chunked body, if it is there in full. The sizes are 64 bits: their sums wrap, and
  \<^verbatim>\<open>substr\<close> throws for a position behind the end.
\<close>

definition chunk_step :: "string \<Rightarrow> nat option result" where
  "chunk_step view =
     (let chunkHeader = before_sub crlf view; n = length chunkHeader
      in if chunkHeader = [] then Inr None
         else case stoul 16 (before_char (CHR '';'') chunkHeader) of
                Inl _ \<Rightarrow> Inl MalformedException
              | Inr chunkSize \<Rightarrow>
                  if chunkSize = 0 then Inr (Some 0)
                  else if length view < (n + 2 + chunkSize + 2) mod 2 ^ 64 then Inr None
                  else let at_end = (n + 2 + chunkSize) mod 2 ^ 64
                       in if length view < at_end then Inl MalformedException
                          else if take 2 (drop at_end view) \<noteq> crlf then Inl MalformedException
                          else if length view < n + 2 + (chunkSize + 2) mod 2 ^ 64 then Inl UndefinedAccess
                          else Inr (Some (n + 2 + (chunkSize + 2) mod 2 ^ 64)))"

function chunked_length :: "string \<Rightarrow> nat \<Rightarrow> nat option result" where
  "chunked_length view pos =
     (if view = [] then Inr None
      else case chunk_step view of
             Inl e \<Rightarrow> Inl e
           | Inr None \<Rightarrow> Inr None
           | Inr (Some n) \<Rightarrow>
               if n = 0 then Inr (map_option (\<lambda>p. (pos + p + 4) mod 2 ^ 64) (find_sub (crlf @ crlf) view))
               else chunked_length (drop n view) ((pos + n) mod 2 ^ 64))"
  by pat_completeness auto
termination
  by (relation "measure (\<lambda>(view, _). length view)") auto

declare chunked_length.simps [simp del]

definition isChunkedComplete :: "string \<Rightarrow> nat \<Rightarrow> nat option result" where
  "isChunkedComplete data headerLength = chunked_length (drop headerLength data) 0"

definition getFinalTransferEncoding :: "string \<Rightarrow> string" where
  "getFinalTransferEncoding transferEncoding =
     (let final = rev (takeWhile (\<lambda>c. c \<noteq> CHR '','') (rev transferEncoding))
      in if final \<noteq> [] \<and> hd final = CHR '' '' then tl final else final)"

definition first_value :: "headers \<Rightarrow> string \<Rightarrow> string option" where
  "first_value hs k = (case map_of hs k of Some (v # _) \<Rightarrow> Some v | _ \<Rightarrow> None)"

definition isHTTPBodyComplete ::
    "string \<Rightarrow> nat \<Rightarrow> headers \<Rightarrow> bool \<Rightarrow> int \<Rightarrow> bool \<Rightarrow> bool \<Rightarrow> nat option result" where
  "isHTTPBodyComplete data headerLength hs isResponse status reqWasHead connectionClose =
     (if isResponse \<and> (reqWasHead \<or> status = 204 \<or> status = 304 \<or> (100 \<le> status \<and> status < 200)) then Inr (Some 0)
      else case (first_value hs ''content-length'', first_value hs ''transfer-encoding'') of
        (None, None) \<Rightarrow> Inr (Some 0)
      | (_, Some te) \<Rightarrow>
          if getFinalTransferEncoding te \<noteq> ''chunked'' then
            if \<not> isResponse then Inl LengthUnknownException
            else Inr (if connectionClose then Some (length data - headerLength) else None)
          else if te = ''chunked'' then isChunkedComplete data headerLength
          else Inr None
      | (Some cl, None) \<Rightarrow>
          if \<not> list_all is_digit cl then Inl MalformedException
          else case stoul 10 cl of
                 Inl OutOfRange \<Rightarrow> Inl MalformedException
               | Inl e \<Rightarrow> Inl e
               | Inr contentLength \<Rightarrow>
                   Inr (if (headerLength + contentLength) mod 2 ^ 64 \<le> length data then Some contentLength else None))"

section \<open>Bodies\<close>

text \<open>
  \<^verbatim>\<open>body.insert(begin, data.begin() + headerLength, data.begin() + headerLength + length)\<close>, with the
  length read as a signed number.
\<close>

definition plain_body :: "string \<Rightarrow> nat \<Rightarrow> nat \<Rightarrow> string result" where
  "plain_body data headerLength len =
     (if len < 2 ^ 63 \<and> headerLength + len \<le> length data then Inr (take len (drop headerLength data))
      else Inl UndefinedAccess)"

definition is_hex_digit :: "char \<Rightarrow> bool" where
  "is_hex_digit c \<longleftrightarrow> char_digit c < 16"

text \<open>
  The trailers behind the last chunk. Each is removed with two bytes more, which the last one does
  not have behind it in the view.
\<close>

function parse_trailers :: "string \<Rightarrow> headers \<Rightarrow> headers result" where
  "parse_trailers view hs =
     (let trailer = before_sub crlf view
      in if view = [] \<or> trailer = [] then Inr hs
         else if \<not> list_all (\<lambda>c. char_code c < 128) trailer then Inl MalformedException
         else case parseHeader trailer hs True of
                Inl e \<Rightarrow> Inl e
              | Inr hs \<Rightarrow>
                  if length view < length trailer + 2 then Inl UndefinedAccess
                  else parse_trailers (drop (length trailer + 2) view) hs)"
  by pat_completeness auto
termination
  by (relation "measure (\<lambda>(view, _). length view)") auto

declare parse_trailers.simps [simp del]

text \<open>The chunks of \<open>view\<close>, the rest of the body, up to its known end.\<close>

function parse_chunks :: "string \<Rightarrow> headers \<Rightarrow> string \<Rightarrow> (headers \<times> string) result" where
  "parse_chunks view hs body =
     (if view = [] then Inr (hs, body)
      else case find_sub crlf view of
        None \<Rightarrow> Inl MalformedException
      | Some headerEnd \<Rightarrow>
          let sizeStr = before_char (CHR '';'') (take headerEnd view)
          in if \<not> list_all is_hex_digit sizeStr then Inl MalformedException
             else case stoul 16 sizeStr of
               Inl OutOfRange \<Rightarrow> Inl MalformedException
             | Inl e \<Rightarrow> Inl e
             | Inr chunkSize \<Rightarrow>
                 if chunkSize = 0 then
                   case find_sub (crlf @ crlf) (drop (headerEnd + 2) view) of
                     None \<Rightarrow> Inr (hs, body)
                   | Some trailerEnd \<Rightarrow>
                       bindE (parse_trailers (take trailerEnd (drop (headerEnd + 2) view)) hs) (\<lambda>hs. Inr (hs, body))
                 else
                   let start = int headerEnd + 2 + (if chunkSize < 2 ^ 63 then int chunkSize else int chunkSize - 2 ^ 64)
                   in if start < 0 \<or> int (length view) < start then Inl UndefinedAccess
                      else case find_sub crlf (drop (nat start) view) of
                        None \<Rightarrow> Inl MalformedException
                      | Some p \<Rightarrow>
                          if p \<noteq> 0 then Inl MalformedException
                          else if start < int headerEnd + 2 then Inl UndefinedAccess
                          else parse_chunks (drop (nat start + 2) view) hs
                                 (body @ take chunkSize (drop (headerEnd + 2) view)))"
  by pat_completeness auto
termination
  by (relation "measure (\<lambda>(view, _, _). length view)") auto

declare parse_chunks.simps [simp del]

definition parseChunked :: "string \<Rightarrow> headers \<Rightarrow> nat \<Rightarrow> nat \<Rightarrow> string \<Rightarrow> (headers \<times> string) result" where
  "parseChunked data hs len headerLength body =
     (if headerLength + len \<le> length data
      then parse_chunks (take len (drop headerLength data)) hs body else Inl UndefinedAccess)"

end
