(* ===== verification/HttpMessages.thy ===== *)
theory HttpMessages
  imports HttpParser
begin

text \<open>
  Requests and responses: \<^verbatim>\<open>http/parser/request.cpp\<close> and \<^verbatim>\<open>response.cpp\<close>. Each is parsed from the front
  of a buffer, with the number of bytes it took, and serialised with a content length.
\<close>

datatype Version = HTTP_1_0 | HTTP_1_1

datatype Method = M_GET | M_POST | M_PUT | M_DELETE | M_HEAD | M_PATCH | M_OPTIONS

section \<open>Requests\<close>

record HttpRequest =
  hq_method :: Method
  hq_version :: Version
  hq_path :: string
  hq_query :: "(string \<times> string) list"
  hq_headers :: headers
  hq_body :: string

definition empty_request :: "string \<Rightarrow> Method \<Rightarrow> Version \<Rightarrow> HttpRequest" where
  "empty_request path m v =
     \<lparr>hq_method = m, hq_version = v, hq_path = path, hq_query = [], hq_headers = [], hq_body = []\<rparr>"

definition hq_hasQuery :: "HttpRequest \<Rightarrow> string \<Rightarrow> bool" where
  "hq_hasQuery r k \<longleftrightarrow> map_of (hq_query r) k \<noteq> None"

definition hq_getQuery :: "HttpRequest \<Rightarrow> string \<Rightarrow> string result" where
  "hq_getQuery r k = (case map_of (hq_query r) k of Some v \<Rightarrow> Inr v | None \<Rightarrow> Inl OutOfRange)"

definition hq_setQuery :: "string \<Rightarrow> string \<Rightarrow> HttpRequest \<Rightarrow> HttpRequest" where
  "hq_setQuery k v r = r\<lparr>hq_query := update_at k (\<lambda>_. v) (insert_new k [] (hq_query r))\<rparr>"

text \<open>\<^verbatim>\<open>hasHeader\<close>, \<^verbatim>\<open>getHeader\<close>, \<^verbatim>\<open>setHeader\<close> and \<^verbatim>\<open>addHeader\<close> of both classes, on their headers.\<close>

definition hasHeader :: "headers \<Rightarrow> string \<Rightarrow> bool" where
  "hasHeader hs k \<longleftrightarrow> map_of hs k \<noteq> None"

definition getHeader :: "headers \<Rightarrow> string \<Rightarrow> string list result" where
  "getHeader hs k = (case map_of hs k of Some vs \<Rightarrow> Inr vs | None \<Rightarrow> Inl OutOfRange)"

definition setHeader :: "string \<Rightarrow> string \<Rightarrow> headers \<Rightarrow> headers" where
  "setHeader k v hs = update_at k (\<lambda>_. [v]) (insert_new k [] hs)"

definition addHeader :: "string \<Rightarrow> string \<Rightarrow> headers \<Rightarrow> headers" where
  "addHeader k v hs = update_at k (\<lambda>vs. vs @ [v]) (insert_new k [] hs)"

fun read_method :: "string \<Rightarrow> Method result" where
  "read_method s =
     (if s = ''GET'' then Inr M_GET else if s = ''POST'' then Inr M_POST else if s = ''PUT'' then Inr M_PUT
      else if s = ''DELETE'' then Inr M_DELETE else if s = ''HEAD'' then Inr M_HEAD
      else if s = ''OPTIONS'' then Inr M_OPTIONS else Inl MethodNotSupportedException)"

definition read_version :: "string \<Rightarrow> Version result" where
  "read_version s =
     (if s = ''HTTP/1.0'' then Inr HTTP_1_0 else if s = ''HTTP/1.1'' then Inr HTTP_1_1
      else Inl VersionNotSupportedException)"

text \<open>Printable characters and line ends only.\<close>

definition header_char :: "char \<Rightarrow> bool" where
  "header_char c \<longleftrightarrow> (0x20 \<le> char_code c \<and> char_code c < 0x7F) \<or> char_code c = 0x0A \<or> char_code c = 0x0D"

text \<open>The header lines, up to an empty one.\<close>

function parse_header_lines :: "string \<Rightarrow> headers \<Rightarrow> headers result" where
  "parse_header_lines view hs =
     (let header = before_sub crlf view
      in if view = [] \<or> header = [] then Inr hs
         else case parseHeader header hs False of
                Inl e \<Rightarrow> Inl e
              | Inr hs \<Rightarrow>
                  if length view < length header + 2 then Inl UndefinedAccess
                  else parse_header_lines (drop (length header + 2) view) hs)"
  by pat_completeness auto
termination
  by (relation "measure (\<lambda>(view, _). length view)") auto

declare parse_header_lines.simps [simp del]

text \<open>A trailing slash is removed from the decoded path.\<close>

definition read_path :: "string \<Rightarrow> string result" where
  "read_path raw =
     bindE (percentDecode raw) (\<lambda>path.
       if path = [] then Inl MalformedException
       else if hd path \<noteq> CHR ''/'' then Inl MalformedException
       else Inr (if length path \<noteq> 1 \<and> last path = CHR ''/'' then butlast path else path))"

definition hq_parseHTTPHeader :: "string \<Rightarrow> nat \<Rightarrow> HttpRequest result" where
  "hq_parseHTTPHeader data len =
     (let view = take len data;
          firstLineEnd = (case find_sub crlf view of Some i \<Rightarrow> i | None \<Rightarrow> length view);
          firstLine = take firstLineEnd view
      in if \<not> list_all header_char view then Inl MalformedException
         else bindE (read_method (before_char (CHR '' '') firstLine)) (\<lambda>m.
              let params = after_char (CHR '' '') firstLine;
                  pathStr = before_char (CHR '' '') params;
                  noFragment = before_char (CHR ''#'') pathStr
              in bindE (read_path (before_char (CHR ''?'') noFragment)) (\<lambda>path.
                 bindE (if CHR ''?'' \<in> set noFragment then parseQuery (after_char (CHR ''?'') noFragment) []
                        else Inr []) (\<lambda>query.
                 bindE (read_version (after_char (CHR '' '') params)) (\<lambda>v.
                 case find_sub (crlf @ crlf) view of
                   None \<Rightarrow> Inl UndefinedAccess
                 | Some headerEnd \<Rightarrow>
                     bindE (parse_header_lines (take (headerEnd - firstLineEnd) (drop (firstLineEnd + 2) view)) []) (\<lambda>hs.
                     Inr \<lparr>hq_method = m, hq_version = v, hq_path = path, hq_query = query, hq_headers = hs,
                       hq_body = []\<rparr>))))))"

definition hq_parseHTTPBody :: "string \<Rightarrow> nat \<Rightarrow> nat \<Rightarrow> HttpRequest \<Rightarrow> HttpRequest result" where
  "hq_parseHTTPBody data headerLength len r =
     (case (first_value (hq_headers r) ''content-length'', first_value (hq_headers r) ''transfer-encoding'') of
        (_, Some te) \<Rightarrow>
          if getFinalTransferEncoding te = ''chunked''
          then bindE (parseChunked data (hq_headers r) len headerLength (hq_body r)) (\<lambda>(hs, body).
               Inr (r\<lparr>hq_headers := hs, hq_body := body\<rparr>))
          else Inr r
      | (Some _, None) \<Rightarrow> bindE (plain_body data headerLength len) (\<lambda>body. Inr (r\<lparr>hq_body := hq_body r @ body\<rparr>))
      | (None, None) \<Rightarrow> Inr r)"

definition request_parse :: "string \<Rightarrow> (HttpRequest \<times> nat) result" where
  "request_parse data =
     (case isHTTPHeaderComplete data of
        None \<Rightarrow> Inl NotCompleteException
      | Some headerLength \<Rightarrow>
          bindE (hq_parseHTTPHeader data headerLength) (\<lambda>r.
          bindE (isHTTPBodyComplete data headerLength (hq_headers r) False 0 False False) (\<lambda>complete.
          case complete of
            None \<Rightarrow> Inl NotCompleteException
          | Some contentLength \<Rightarrow>
              bindE (hq_parseHTTPBody data headerLength contentLength r) (\<lambda>r.
              Inr (r, (headerLength + contentLength) mod 2 ^ 64)))))"

text \<open>Serialisation: the headers that say a length are left out, and the body's own one is put last.\<close>

definition kept_headers :: "headers \<Rightarrow> headers" where
  "kept_headers hs = filter (\<lambda>(k, vs). k \<noteq> ''content-length'' \<and>
     \<not> (k = ''transfer-encoding'' \<and> vs \<noteq> [] \<and> getFinalTransferEncoding (hd vs) = ''chunked'')) hs"

definition header_lines :: "headers \<Rightarrow> string" where
  "header_lines hs = concat (map (\<lambda>(k, vs). concat (map (\<lambda>v. k @ '': '' @ v @ crlf) vs)) hs)"

definition length_line :: "string \<Rightarrow> string" where
  "length_line body = ''Content-Length: '' @ to_string (length body) @ crlf"

primrec method_string :: "Method \<Rightarrow> string" where
  "method_string M_GET = ''GET''"
| "method_string M_POST = ''POST''"
| "method_string M_PUT = ''PUT''"
| "method_string M_DELETE = ''DELETE''"
| "method_string M_HEAD = ''HEAD''"
| "method_string M_PATCH = ''PATCH''"
| "method_string M_OPTIONS = ''OPTIONS''"

primrec version_string :: "Version \<Rightarrow> string" where
  "version_string HTTP_1_0 = ''HTTP/1.0''"
| "version_string HTTP_1_1 = ''HTTP/1.1''"

definition query_param :: "string \<times> string \<Rightarrow> string" where
  "query_param kv = percentEncode (fst kv) False @ ''='' @ percentEncode (snd kv) False"

fun query_string :: "(string \<times> string) list \<Rightarrow> string" where
  "query_string [] = []"
| "query_string (kv # kvs) = ''?'' @ query_param kv @ concat (map (\<lambda>kv. ''&'' @ query_param kv) kvs)"

definition request_head :: "HttpRequest \<Rightarrow> string" where
  "request_head r =
     method_string (hq_method r) @ '' '' @ percentEncode (hq_path r) True @ query_string (hq_query r) @ '' '' @
     version_string (hq_version r) @ crlf @ header_lines (kept_headers (hq_headers r)) @ length_line (hq_body r) @ crlf"

definition request_serialize :: "HttpRequest \<Rightarrow> string" where
  "request_serialize r = request_head r @ hq_body r"

section \<open>Responses\<close>

definition STATUS_CODE_MSG :: "(int \<times> string) list" where
  "STATUS_CODE_MSG =
    [(100, ''Continue''), (101, ''Switching Protocols''), (102, ''Processing''), (103, ''Early
     Hints''), (200, ''OK''), (201, ''Created''), (202, ''Accepted''), (203, ''Non-Authoritative
     Information''), (204, ''No Content''), (205, ''Reset Content''), (206, ''Partial
     Content''), (207, ''Multi-Status''), (208, ''Already Reported''), (226, ''IM Used''), (300,
     ''Multiple Choices''), (301, ''Moved Permanently''), (302, ''Found''), (303, ''See
     Other''), (304, ''Not Modified''), (307, ''Temporary Redirect''), (308, ''Permanent
     Redirect''), (400, ''Bad Request''), (401, ''Unauthorized''), (402, ''Payment Required''),
     (403, ''Forbidden''), (404, ''Not Found''), (405, ''Method Not Allowed''), (406, ''Not
     Acceptable''), (407, ''Proxy Authentication Required''), (408, ''Request Timeout''), (409,
     ''Conflict''), (410, ''Gone''), (411, ''Length Required''), (412, ''Precondition Failed''),
     (413, ''Payload Too Large''), (414, ''URI Too Long''), (415, ''Unsupported Media Type''),
     (416, ''Range Not Satisfiable''), (417, ''Expectation Failed''), (418, ''I'' @ [CHR 0x27] @
     ''m a teapot''), (421, ''Misdirected Request''), (422, ''Unprocessable Content''), (423,
     ''Locked''), (424, ''Failed Dependency''), (425, ''Too Early''), (426, ''Upgrade
     Required''), (428, ''Precondition Required''), (429, ''Too Many Requests''), (431,
     ''Request Header Fields Too Large''), (451, ''Unavailable For Legal Reasons''), (500,
     ''Internal Server Error''), (501, ''Not Implemented''), (502, ''Bad Gateway''), (503,
     ''Service Unavailable''), (504, ''Gateway Timeout''), (505, ''HTTP Version Not
     Supported''), (506, ''Variant Also Negotiates''), (507, ''Insufficient Storage''), (508,
     ''Loop Detected''), (510, ''Not Extended''), (511, ''Network Authentication Required'')]"

record HttpResponse =
  hp_version :: Version
  hp_status :: int
  hp_headers :: headers
  hp_body :: string

definition empty_response :: "Version \<Rightarrow> int \<Rightarrow> HttpResponse" where
  "empty_response v status = \<lparr>hp_version = v, hp_status = status, hp_headers = [], hp_body = []\<rparr>"

text \<open>A status that does not fit an \<^verbatim>\<open>int\<close> leaves the parser as \<^verbatim>\<open>out_of_range\<close>.\<close>

definition hp_parseHTTPHeader :: "string \<Rightarrow> nat \<Rightarrow> HttpResponse result" where
  "hp_parseHTTPHeader data len =
     (let view = take len data;
          statusLine = before_sub crlf view;
          statusStr = after_char (CHR '' '') statusLine
      in bindE (read_version (before_char (CHR '' '') statusLine)) (\<lambda>v.
         case stoi (before_char (CHR '' '') statusStr) of
           Inl InvalidArgument \<Rightarrow> Inl MalformedException
         | Inl e \<Rightarrow> Inl e
         | Inr status \<Rightarrow>
             if CHR '' '' \<notin> set statusStr then Inl MalformedException
             else if map_of STATUS_CODE_MSG status = None then Inl MalformedException
             else case find_sub crlf view of
               None \<Rightarrow> Inl UndefinedAccess
             | Some i \<Rightarrow>
                 bindE (parse_header_lines (drop (i + 2) view) []) (\<lambda>hs.
                 Inr \<lparr>hp_version = v, hp_status = status, hp_headers = hs, hp_body = []\<rparr>)))"

definition hp_parseHTTPBody :: "string \<Rightarrow> nat \<Rightarrow> nat \<Rightarrow> HttpResponse \<Rightarrow> HttpResponse result" where
  "hp_parseHTTPBody data headerLength len r =
     (case first_value (hp_headers r) ''transfer-encoding'' of
        Some te \<Rightarrow>
          if getFinalTransferEncoding te = ''chunked''
          then bindE (parseChunked data (hp_headers r) len headerLength (hp_body r)) (\<lambda>(hs, body).
               Inr (r\<lparr>hp_headers := hs, hp_body := body\<rparr>))
          else bindE (plain_body data headerLength len) (\<lambda>body. Inr (r\<lparr>hp_body := hp_body r @ body\<rparr>))
      | None \<Rightarrow> bindE (plain_body data headerLength len) (\<lambda>body. Inr (r\<lparr>hp_body := hp_body r @ body\<rparr>)))"

definition response_parse :: "string \<Rightarrow> bool \<Rightarrow> bool \<Rightarrow> (HttpResponse \<times> nat) result" where
  "response_parse data connectionClose reqWasHead =
     (case isHTTPHeaderComplete data of
        None \<Rightarrow> Inl NotCompleteException
      | Some headerLength \<Rightarrow>
          bindE (hp_parseHTTPHeader data headerLength) (\<lambda>r.
          bindE (isHTTPBodyComplete data headerLength (hp_headers r) True (hp_status r) reqWasHead connectionClose) (\<lambda>complete.
          case complete of
            None \<Rightarrow> Inl NotCompleteException
          | Some contentLength \<Rightarrow>
              bindE (hp_parseHTTPBody data headerLength contentLength r) (\<lambda>r.
              Inr (r, (headerLength + contentLength) mod 2 ^ 64)))))"

text \<open>A status without a message makes \<^verbatim>\<open>at\<close> throw.\<close>

definition response_head :: "HttpResponse \<Rightarrow> string \<Rightarrow> string" where
  "response_head r msg =
     version_string (hp_version r) @ '' '' @ to_string (nat (hp_status r)) @ '' '' @ msg @ crlf @
     header_lines (kept_headers (hp_headers r)) @ length_line (hp_body r) @ crlf"

definition response_serialize :: "HttpResponse \<Rightarrow> string result" where
  "response_serialize r =
     (case map_of STATUS_CODE_MSG (hp_status r) of
        None \<Rightarrow> Inl OutOfRange
      | Some msg \<Rightarrow> Inr (response_head r msg @ hp_body r))"

end
