(* ===== verification/HttpFacts.thy ===== *)
theory HttpFacts
  imports HttpMessages
begin

text \<open>
  What the HTTP parser makes of a stream of bytes. A message that is complete stays the same message
  when more bytes follow it; what the serialiser writes is read back, and nothing shorter than it is
  taken for a message.
\<close>

section \<open>Finding\<close>

lemma starts_with_append: "starts_with p s \<Longrightarrow> starts_with p (s @ t)"
  by (induction p s rule: starts_with.induct) auto

lemma starts_with_length: "starts_with p s \<Longrightarrow> length p \<le> length s"
  by (induction p s rule: starts_with.induct) auto

lemma starts_with_iff: "starts_with p s \<longleftrightarrow> take (length p) s = p"
  by (induction p s rule: starts_with.induct) auto

lemma starts_with_within: "starts_with p (s @ t) \<Longrightarrow> length p \<le> length s \<Longrightarrow> starts_with p s"
  by (simp add: starts_with_iff)

lemma find_sub_found: "find_sub p s = Some i \<Longrightarrow> take (length p) (drop i s) = p \<and> i + length p \<le> length s"
proof (induction p s arbitrary: i rule: find_sub.induct)
  case (2 p c cs)
  then show ?case
    using starts_with_length [of p "c # cs"] by (fastforce simp: starts_with_iff split: if_splits)
qed (auto split: if_splits)

lemma find_sub_append: "find_sub p s = Some i \<Longrightarrow> find_sub p (s @ t) = Some i"
proof (induction p s arbitrary: i rule: find_sub.induct)
  case (1 p)
  then show ?case by (cases t) (auto split: if_splits)
next
  case (2 p c cs)
  show ?case
  proof (cases "starts_with p (c # cs)")
    case True
    then show ?thesis using 2 starts_with_append [of p "c # cs" t] by simp
  next
    case False
    then obtain j where j: "find_sub p cs = Some j" "i = Suc j" using 2 by auto
    then have "length p \<le> length (c # cs)" using find_sub_found [of p cs j] by simp
    then have "\<not> starts_with p (c # cs @ t)"
      using False by (metis append_Cons starts_with_within)
    then show ?thesis using 2(1) [OF False] j False by simp
  qed
qed

lemma find_sub_exists: "take (length p) (drop i s) = p \<Longrightarrow> \<exists>j \<le> i. find_sub p s = Some j"
proof (induction p s arbitrary: i rule: find_sub.induct)
  case (2 p c cs)
  then show ?case
  proof (cases "starts_with p (c # cs)")
    case False
    then obtain k where "i = Suc k" using 2(2) by (cases i) (auto simp: starts_with_iff)
    then obtain j where "find_sub p cs = Some j" "j \<le> k" using 2 False by auto
    then show ?thesis using False by (intro exI [of _ "Suc j"]) (simp add: \<open>i = Suc k\<close>)
  qed auto
qed auto

text \<open>A character that the pattern does not start with is skipped.\<close>

lemma find_sub_skip:
  assumes "p \<noteq> []" "hd p \<notin> set l"
  shows "find_sub p (l @ s) = map_option (\<lambda>i. length l + i) (find_sub p s)"
  using assms
proof (induction l)
  case Nil
  then show ?case by (simp add: option.map_ident)
next
  case (Cons c l)
  then have "\<not> starts_with p ((c # l) @ s)" by (cases p) auto
  then show ?case using Cons by (cases "find_sub p s") auto
qed

definition line_ok :: "string \<Rightarrow> bool" where
  "line_ok l \<longleftrightarrow> l \<noteq> [] \<and> CHR 0x0D \<notin> set l"

lemma find_crlf_line: "line_ok l \<Longrightarrow> find_sub crlf (l @ crlf @ s) = Some (length l)"
proof -
  assume "line_ok l"
  then have "find_sub crlf (l @ crlf @ s) = map_option (\<lambda>i. length l + i) (find_sub crlf (crlf @ s))"
    by (intro find_sub_skip) (auto simp: line_ok_def crlf_def)
  moreover have "find_sub crlf (crlf @ s) = Some 0" by (simp add: crlf_def)
  ultimately show ?thesis by simp
qed

text \<open>Lines, each with its end; the empty line behind them is the first one.\<close>

definition text_lines :: "string list \<Rightarrow> string" where
  "text_lines ls = concat (map (\<lambda>l. l @ crlf) ls)"

lemma text_lines_simps [simp]:
  "text_lines [] = []" "text_lines (l # ls) = l @ crlf @ text_lines ls"
  "text_lines (ls @ ls') = text_lines ls @ text_lines ls'"
  by (simp_all add: text_lines_def)

lemma find_empty_line:
  assumes "ls \<noteq> []" "list_all line_ok ls"
  shows "find_sub (crlf @ crlf) (text_lines ls @ crlf @ rest) = Some (length (text_lines ls) - 2)"
  using assms
proof (induction ls)
  case (Cons l ls)
  let ?s = "text_lines ls @ crlf @ rest"
  have l: "CHR 0x0D \<notin> set l" using Cons.prems by (simp add: line_ok_def)
  have skip: "find_sub (crlf @ crlf) (text_lines (l # ls) @ crlf @ rest) =
      map_option (\<lambda>i. length l + i) (find_sub (crlf @ crlf) (crlf @ ?s))"
    using find_sub_skip [of "crlf @ crlf" l "crlf @ ?s"] l by (simp add: crlf_def)
  show ?case
  proof (cases ls)
    case Nil
    then show ?thesis unfolding skip by (simp add: crlf_def)
  next
    case (Cons l2 ls2)
    then obtain c cs where l2: "l2 = c # cs" "c \<noteq> CHR 0x0D"
      using Cons.prems by (cases l2) (auto simp: line_ok_def)
    have "find_sub (crlf @ crlf) ?s = Some (length (text_lines ls) - 2)"
      using Cons.IH Cons.prems Cons by simp
    then have "find_sub (crlf @ crlf) (crlf @ ?s) = Some (length (text_lines ls))"
      using l2 Cons by (simp add: crlf_def)
    then show ?thesis unfolding skip by (simp add: crlf_def)
  qed
qed simp

section \<open>Complete messages stay complete\<close>

lemma find_crlf_crlf: "find_sub (crlf @ crlf) s = Some i \<Longrightarrow> \<exists>j. find_sub crlf s = Some j"
proof -
  assume "find_sub (crlf @ crlf) s = Some i"
  from find_sub_found [OF this] have "take (length crlf) (drop i s) = crlf"
    by (metis append_eq_conv_conj min.absorb1 length_append le_add1 take_take)
  then show ?thesis using find_sub_exists by blast
qed

lemma before_sub_append: "find_sub p s = Some i \<Longrightarrow> before_sub p (s @ t) = before_sub p s"
  using find_sub_append [of p s i t] find_sub_found [of p s i] by (simp add: before_sub_def)

lemma crlf_at_append: "take 2 (drop k view) = crlf \<Longrightarrow> take 2 (drop k (view @ t)) = crlf"
proof -
  assume crlf: "take 2 (drop k view) = crlf"
  then have "length (take 2 (drop k view)) = 2" by (simp add: crlf_def)
  then have "k + 2 \<le> length view" by simp
  with crlf show ?thesis by simp
qed

text \<open>How a chunk of the view has been read.\<close>

lemma chunk_step_iff:
  "chunk_step view = Inr (Some n) \<longleftrightarrow> before_sub crlf view \<noteq> [] \<and>
     (\<exists>size. stoul 16 (before_char (CHR '';'') (before_sub crlf view)) = Inr size \<and>
       (if size = 0 then n = 0
        else (length (before_sub crlf view) + 2 + size + 2) mod 2 ^ 64 \<le> length view \<and>
          (length (before_sub crlf view) + 2 + size) mod 2 ^ 64 \<le> length view \<and>
          take 2 (drop ((length (before_sub crlf view) + 2 + size) mod 2 ^ 64) view) = crlf \<and>
          n = length (before_sub crlf view) + 2 + (size + 2) mod 2 ^ 64 \<and> n \<le> length view))"
proof -
  define M :: nat where "M = 2 ^ 64"
  show ?thesis
    unfolding chunk_step_def Let_def M_def [symmetric]
    by (cases "stoul 16 (before_char (CHR '';'') (before_sub crlf view))") (auto simp: not_less)
qed

lemma chunk_step_append:
  assumes "chunk_step view = Inr (Some n)" "find_sub crlf view \<noteq> None"
  shows "chunk_step (view @ t) = Inr (Some n)"
proof -
  have hd: "before_sub crlf (view @ t) = before_sub crlf view" using assms(2) before_sub_append by auto
  obtain size where size: "stoul 16 (before_char (CHR '';'') (before_sub crlf view)) = Inr size"
    "if size = 0 then n = 0
        else (length (before_sub crlf view) + 2 + size + 2) mod 2 ^ 64 \<le> length view \<and>
          (length (before_sub crlf view) + 2 + size) mod 2 ^ 64 \<le> length view \<and>
          take 2 (drop ((length (before_sub crlf view) + 2 + size) mod 2 ^ 64) view) = crlf \<and>
          n = length (before_sub crlf view) + 2 + (size + 2) mod 2 ^ 64 \<and> n \<le> length view"
    using assms(1) unfolding chunk_step_iff by blast
  have "if size = 0 then n = 0
        else (length (before_sub crlf view) + 2 + size + 2) mod 2 ^ 64 \<le> length (view @ t) \<and>
          (length (before_sub crlf view) + 2 + size) mod 2 ^ 64 \<le> length (view @ t) \<and>
          take 2 (drop ((length (before_sub crlf view) + 2 + size) mod 2 ^ 64) (view @ t)) = crlf \<and>
          n = length (before_sub crlf view) + 2 + (size + 2) mod 2 ^ 64 \<and> n \<le> length (view @ t)"
  proof (cases "size = 0")
    case False
    then show ?thesis
      using size(2) crlf_at_append [of _ view t] by (simp only: if_False length_append) (meson trans_le_add1)
  qed (use size(2) in simp)
  with size(1) assms(1) show ?thesis unfolding chunk_step_iff hd by blast
qed

lemma chunk_step_crlf:
  "chunk_step view = Inr (Some n) \<Longrightarrow> n \<noteq> 0 \<Longrightarrow> find_sub crlf view \<noteq> None"
proof -
  assume "chunk_step view = Inr (Some n)" "n \<noteq> 0"
  then obtain k where "take 2 (drop k view) = crlf"
    unfolding chunk_step_iff by (auto split: if_splits)
  then show ?thesis using find_sub_exists [of crlf k view] by (auto simp: crlf_def numeral_eq_Suc)
qed

lemma chunked_length_append:
  "chunked_length view pos = Inr (Some n) \<Longrightarrow> chunked_length (view @ t) pos = Inr (Some n)"
proof (induction view pos arbitrary: n rule: chunked_length.induct)
  case (1 view pos)
  from 1(2) obtain k where k: "view \<noteq> []" "chunk_step view = Inr (Some k)"
    by (auto simp: chunked_length.simps [of view] split: if_splits sum.splits option.splits)
  show ?case
  proof (cases "k = 0")
    case True
    then obtain p where p: "find_sub (crlf @ crlf) view = Some p" "n = (pos + p + 4) mod 2 ^ 64"
      using 1(2) k by (auto simp: chunked_length.simps [of view])
    then show ?thesis
      using k True chunk_step_append [OF k(2)] find_crlf_crlf [OF p(1)] find_sub_append [OF p(1), of t]
      by (auto simp: chunked_length.simps [of "view @ t"])
  next
    case False
    have len: "k \<le> length view"
      using k(2) False unfolding chunk_step_iff by (auto split: if_splits)
    have "chunked_length (drop k view) ((pos + k) mod 2 ^ 64) = Inr (Some n)"
      using 1(2) k False by (simp add: chunked_length.simps [of view])
    from 1(1) [OF k refl False this] show ?thesis
      using k False chunk_step_append [OF k(2) chunk_step_crlf [OF k(2) False]] len
      by (simp add: chunked_length.simps [of "view @ t"])
  qed
qed

lemma isHTTPBodyComplete_append:
  assumes "isHTTPBodyComplete data hl hs False 0 False False = Inr (Some n)" "hl \<le> length data"
  shows "isHTTPBodyComplete (data @ t) hl hs False 0 False False = Inr (Some n)"
  using assms chunked_length_append [of "drop hl data" 0 n t]
  by (auto simp: isHTTPBodyComplete_def isChunkedComplete_def Let_def split: option.splits if_splits sum.splits exn.splits)

lemma hq_parseHTTPHeader_append: "hl \<le> length data \<Longrightarrow> hq_parseHTTPHeader (data @ t) hl = hq_parseHTTPHeader data hl"
  by (simp add: hq_parseHTTPHeader_def)

lemma plain_body_append: "plain_body data hl n = Inr b \<Longrightarrow> plain_body (data @ t) hl n = Inr b \<and> hl + n \<le> length data"
  by (auto simp: plain_body_def split: if_splits)

lemma parseChunked_append:
  "parseChunked data hs n hl b = Inr r \<Longrightarrow> parseChunked (data @ t) hs n hl b = Inr r \<and> hl + n \<le> length data"
  by (auto simp: parseChunked_def split: if_splits)

lemma hq_parseHTTPBody_append:
  assumes "hq_parseHTTPBody data hl n r = Inr r'"
    "isHTTPBodyComplete data hl (hq_headers r) False 0 False False = Inr (Some n)" "hl \<le> length data"
  shows "hq_parseHTTPBody (data @ t) hl n r = Inr r' \<and> hl + n \<le> length data"
  using assms plain_body_append [of data hl n _ t] parseChunked_append [of data "hq_headers r" n hl "hq_body r" _ t]
  by (fastforce simp: hq_parseHTTPBody_def isHTTPBodyComplete_def bindE_eq_Inr_iff split: option.splits if_splits)

lemma header_complete:
  "isHTTPHeaderComplete data = Some hl \<Longrightarrow> isHTTPHeaderComplete (data @ t) = Some hl \<and> 4 \<le> hl \<and> hl \<le> length data"
  using find_sub_append [of "crlf @ crlf" data _ t] find_sub_found [of "crlf @ crlf" data]
  by (auto simp: isHTTPHeaderComplete_def crlf_def)

lemma request_parse_append:
  assumes "request_parse data = Inr (r, n)" "length data < 2 ^ 64"
  shows "4 \<le> n \<and> n \<le> length data \<and> request_parse (data @ t) = Inr (r, n)"
proof -
  obtain hl r0 cl where hl: "isHTTPHeaderComplete data = Some hl" and r0: "hq_parseHTTPHeader data hl = Inr r0"
    and cl: "isHTTPBodyComplete data hl (hq_headers r0) False 0 False False = Inr (Some cl)"
    and r: "hq_parseHTTPBody data hl cl r0 = Inr r" and n: "n = (hl + cl) mod 2 ^ 64"
    using assms(1) by (auto simp: request_parse_def bindE_eq_Inr_iff split: option.splits)
  note hl' = header_complete [OF hl, of t]
  have body: "hq_parseHTTPBody (data @ t) hl cl r0 = Inr r" "hl + cl \<le> length data"
    using hq_parseHTTPBody_append [OF r cl] hl' by auto
  then have "n = hl + cl" using n assms(2) by simp
  then show ?thesis
    using hl' r0 hq_parseHTTPHeader_append isHTTPBodyComplete_append [OF cl] body assms(2)
    by (simp add: request_parse_def)
qed

end
