(* ===== verification/HttpRoundtrip.thy ===== *)
theory HttpRoundtrip
  imports HttpFacts
begin

text \<open>
  A request that is serialised is read back as it was, with its content length, whatever follows it;
  and a part of it alone is never taken for a request.
\<close>

section \<open>Numbers\<close>

lemma digit_code: "is_digit c \<Longrightarrow> char_digit c = digit_value c \<and> digit_value c < 10"
  by (auto simp: is_digit_def char_digit_def digit_value_def Let_def)

lemma read_base_10: "list_all is_digit ds \<Longrightarrow> read_base 10 ds = read_digits ds"
proof -
  have "list_all is_digit ds \<Longrightarrow>
      foldl (\<lambda>n c. 10 * n + char_digit c) a ds = foldl (\<lambda>n c. 10 * n + digit_value c) a ds" for a
    by (induction ds arbitrary: a) (auto simp: digit_code)
  then show "list_all is_digit ds \<Longrightarrow> read_base 10 ds = read_digits ds"
    by (simp add: read_base_def read_digits_def)
qed

lemma stoul_to_string: "n < 2 ^ 64 \<Longrightarrow> stoul 10 (to_string n) = Inr n"
proof -
  assume n: "n < 2 ^ 64"
  have sp: "dropWhile is_space (to_string n) = to_string n"
    using to_string_hd by (metis dropWhile_eq_self_iff)
  have "takeWhile (\<lambda>c. char_digit c < 10) (to_string n) = to_string n"
    using to_string_digits [of n] by (auto simp: list_all_iff takeWhile_eq_all_conv digit_code)
  then show ?thesis
    using n sp to_string_hd [of n] read_base_10 [OF to_string_digits [of n]]
    by (simp add: stoul_def drop_prefix_def read_digits_to_string del: takeWhile_eq_all_conv)
qed

section \<open>Percent encoding\<close>

definition printable :: "char \<Rightarrow> bool" where
  "printable c \<longleftrightarrow> 0x20 \<le> char_code c \<and> char_code c < 0x7F"

lemma hex_char_code: "n < 16 \<Longrightarrow> char_code (hex_char n) = (if n < 10 then 48 + n else 87 + n)"
  by (simp add: hex_char_def char_code_def)

lemma reserved_codes: "char_code ` set reserved =
    {32, 33, 34, 35, 36, 37, 38, 39, 40, 41, 42, 43, 44, 47, 58, 59, 61, 63, 64, 91, 93}"
  by (auto simp: reserved_def char_code_def)

lemma hex_char_facts:
  assumes "n < 16"
  shows "char_digit (hex_char n) = n" "\<not> is_space (hex_char n)" "hex_char n \<noteq> CHR ''-''" "hex_char n \<noteq> CHR ''+''"
    "hex_char n \<notin> set reserved" "printable (hex_char n)"
proof -
  note code = hex_char_code [OF assms, unfolded char_code_def]
  show "char_digit (hex_char n) = n" "\<not> is_space (hex_char n)" "printable (hex_char n)"
    using assms by (auto simp: char_digit_def is_space_def printable_def char_code_def code Let_def)
  show "hex_char n \<noteq> CHR ''-''" "hex_char n \<noteq> CHR ''+''"
    using code assms by (auto dest: arg_cong [of _ _ of_char] split: if_splits)
  have "char_code (hex_char n) \<notin> char_code ` set reserved"
    unfolding reserved_codes hex_char_code [OF assms] using assms by auto
  then show "hex_char n \<notin> set reserved" by blast
qed

lemma hex_pair: "printable c \<Longrightarrow>
    stoul 16 [hex_char (char_code c div 16), hex_char (char_code c mod 16)] = Inr (char_code c)"
proof -
  assume c: "printable c"
  have "char_code c div 16 < 16" using c by (auto simp: printable_def)
  then show ?thesis
    using hex_char_facts [of "char_code c div 16"] hex_char_facts [of "char_code c mod 16"] c
    by (simp add: stoul_def drop_prefix_def read_base_def printable_def)
qed

lemma char_of_code [simp]: "char_of (char_code c) = c"
  by (simp add: char_code_def)

lemma percent_reserved: "CHR ''%'' \<in> set reserved" "CHR '' '' \<in> set reserved" "CHR ''?'' \<in> set reserved"
  "CHR ''#'' \<in> set reserved" "CHR ''&'' \<in> set reserved" "CHR ''='' \<in> set reserved" "CHR ''+'' \<in> set reserved"
  "CHR ''/'' \<in> set reserved" "CHR '':'' \<in> set reserved"
  by (simp_all add: reserved_def)

lemma percentEncode_Cons:
  "percentEncode (c # s) b =
     (if c = CHR ''/'' \<and> b then [c]
      else if c \<in> set reserved then [CHR ''%'', hex_char (char_code c div 16), hex_char (char_code c mod 16)]
      else [c]) @ percentEncode s b"
  by (simp add: percentEncode_def)

lemma percentEncode_Nil [simp]: "percentEncode [] b = []"
  by (simp add: percentEncode_def)

lemma percentDecode_Encode: "list_all printable s \<Longrightarrow> percentDecode (percentEncode s b) = Inr s"
proof (induction s)
  case (Cons c s)
  then have c: "printable c" and IH: "percentDecode (percentEncode s b) = Inr s" by simp_all
  have "char_code c < 256" using c by (simp add: printable_def)
  then show ?case
    using c IH percent_reserved(1) hex_pair [OF c]
    by (auto simp: percentEncode_Cons printable_def Let_def)
qed simp

lemma percentEncode_chars:
  "list_all printable s \<Longrightarrow> d \<in> set (percentEncode s b) \<Longrightarrow>
    printable d \<and> (d \<in> set reserved \<longrightarrow> d = CHR ''%'' \<or> (d = CHR ''/'' \<and> b))"
proof (induction s)
  case (Cons c s)
  have hex: "char_code c div 16 < 16" "char_code c mod 16 < 16"
    using Cons.prems by (auto simp: printable_def)
  have "printable (CHR ''%'')" by (simp add: printable_def char_code_def)
  then show ?case
    using Cons hex_char_facts(5,6) [OF hex(1)] hex_char_facts(5,6) [OF hex(2)]
    by (auto simp: percentEncode_Cons split: if_splits)
qed simp

lemma percentEncode_free:
  "list_all printable s \<Longrightarrow> c \<in> set reserved \<Longrightarrow> c \<noteq> CHR ''%'' \<Longrightarrow> c \<noteq> CHR ''/'' \<or> \<not> b \<Longrightarrow> c \<notin> set (percentEncode s b)"
  using percentEncode_chars by blast

lemma percentEncode_eq_Nil [simp]: "percentEncode s b = [] \<longleftrightarrow> s = []"
  by (cases s) (auto simp: percentEncode_Cons)

section \<open>Queries\<close>

lemma before_char_append: "c \<notin> set a \<Longrightarrow> before_char c (a @ c # b) = a"
  unfolding before_char_def by (induction a) auto

lemma before_char_none: "c \<notin> set a \<Longrightarrow> before_char c a = a"
  by (auto simp: before_char_def takeWhile_eq_all_conv)

lemma after_char_append: "c \<notin> set a \<Longrightarrow> after_char c (a @ c # b) = b"
proof -
  assume "c \<notin> set a"
  then have "dropWhile (\<lambda>d. d \<noteq> c) (a @ c # b) = c # b" by (induction a) auto
  then show ?thesis by (simp add: after_char_def)
qed

lemma after_char_none: "c \<notin> set a \<Longrightarrow> after_char c a = a"
  by (simp add: after_char_def)

definition query_ok :: "(string \<times> string) list \<Rightarrow> bool" where
  "query_ok q \<longleftrightarrow> distinct (map fst q) \<and>
     list_all (\<lambda>(k, v). k \<noteq> [] \<and> list_all printable k \<and> list_all printable v) q"

lemma query_param_chars:
  assumes "list_all printable k" "list_all printable v"
  shows "CHR ''&'' \<notin> set (query_param (k, v))" "CHR ''+'' \<notin> set (query_param (k, v))"
    "CHR '' '' \<notin> set (query_param (k, v))" "CHR ''#'' \<notin> set (query_param (k, v))"
    "list_all printable (query_param (k, v))"
  using percentEncode_chars [OF assms(1)] percentEncode_chars [OF assms(2)] percent_reserved
  by (auto simp: query_param_def list_all_iff printable_def char_code_def)

lemma parse_param:
  assumes "k \<noteq> []" "list_all printable k" "list_all printable v"
    and s: "s = query_param (k, v) \<and> tail = [] \<or> s = query_param (k, v) @ CHR ''&'' # tail \<and> tail \<noteq> []"
    and new: "k \<notin> fst ` set acc"
  shows "parseQuery s acc = parseQuery tail (acc @ [(k, v)])"
proof -
  let ?p = "query_param (k, v)"
  note free = query_param_chars [OF assms(2,3)]
  have plain: "map (\<lambda>c. if c = CHR ''+'' then CHR '' '' else c) ?p = ?p"
    using free(2) by (intro map_idI) auto
  have eq: "CHR ''='' \<notin> set (percentEncode k False)"
    using percentEncode_free [OF assms(2) percent_reserved(6)] by simp
  have parts: "before_char (CHR ''='') ?p = percentEncode k False" "after_char (CHR ''='') ?p = percentEncode v False"
      "CHR ''='' \<in> set ?p"
    using eq before_char_append after_char_append by (auto simp: query_param_def)
  have "s \<noteq> []" using s by (auto simp: query_param_def)
  moreover have "before_char (CHR ''&'') s = ?p"
    using s free(1) before_char_append before_char_none by metis
  moreover have "CHR ''&'' \<in> set s \<longleftrightarrow> tail \<noteq> []" "tail \<noteq> [] \<Longrightarrow> after_char (CHR ''&'') s = tail"
    using s free(1) after_char_append by auto
  ultimately show ?thesis
    using plain parts percentDecode_Encode assms(1-3) new
    by (subst parseQuery.simps) (auto simp: Let_def insert_new_def parseQuery.simps [of "[]"])
qed

lemma parseQuery_params:
  assumes "list_all (\<lambda>(k, v). k \<noteq> [] \<and> list_all printable k \<and> list_all printable v) (kv # q)"
    "distinct (map fst (acc @ kv # q))"
  shows "parseQuery (query_param kv @ concat (map (\<lambda>kv. ''&'' @ query_param kv) q)) acc = Inr (acc @ kv # q)"
  using assms
proof (induction q arbitrary: kv acc)
  case Nil
  obtain k v where kv: "kv = (k, v)" by fastforce
  show ?case
    using parse_param [of k v "query_param (k, v)" "[]" acc] Nil by (auto simp: kv parseQuery.simps [of "[]"])
next
  case (Cons kv2 q)
  obtain k v where kv: "kv = (k, v)" by fastforce
  let ?tail = "query_param kv2 @ concat (map (\<lambda>kv. ''&'' @ query_param kv) q)"
  have "?tail \<noteq> []" by (simp add: query_param_def)
  then have "parseQuery (query_param (k, v) @ CHR ''&'' # ?tail) acc = parseQuery ?tail (acc @ [(k, v)])"
    using Cons.prems by (intro parse_param) (auto simp: kv)
  also have "\<dots> = Inr ((acc @ [(k, v)]) @ kv2 # q)"
    using Cons.prems by (intro Cons.IH) (auto simp: kv)
  finally show ?case by (simp add: kv)
qed

section \<open>Header lines\<close>

text \<open>A header that the serialiser writes and the parser takes: a lower-case name, values that do not end with a blank.\<close>

definition value_ok :: "string \<Rightarrow> bool" where
  "value_ok v \<longleftrightarrow> v \<noteq> [] \<and> last v \<noteq> CHR '' '' \<and> list_all printable v"

definition header_ok :: "string \<times> string list \<Rightarrow> bool" where
  "header_ok h \<longleftrightarrow> map to_lower (fst h) = fst h \<and> CHR '':'' \<notin> set (fst h) \<and> list_all printable (fst h) \<and>
     snd h \<noteq> [] \<and> list_all value_ok (snd h)"

lemma trim_value_written: "value_ok v \<Longrightarrow> trim_value (CHR '' '' # v) = Inr v"
  by (auto simp: trim_value_def value_ok_def)

lemma parseHeader_written:
  assumes "value_ok v" "CHR '':'' \<notin> set k"
  shows "parseHeader (k @ CHR '':'' # CHR '' '' # v) hs False =
    Inr (update_at (map to_lower k) (\<lambda>vs. vs @ [v]) (insert_new (map to_lower k) [] hs))"
  using assms before_char_append [of "CHR '':''" k "CHR '' '' # v"] after_char_append [of "CHR '':''" k "CHR '' '' # v"]
  by (simp add: parseHeader_def trim_value_written Let_def)

lemma printable_no_cr: "list_all printable s \<Longrightarrow> CHR 0x0D \<notin> set s"
  by (auto simp: list_all_iff printable_def char_code_def)

lemma line_ok_header: "value_ok v \<Longrightarrow> list_all printable k \<Longrightarrow> line_ok (k @ CHR '':'' # CHR '' '' # v)"
  using printable_no_cr [of v] printable_no_cr [of k] by (auto simp: line_ok_def value_ok_def)

lemma parse_line:
  assumes "line_ok l"
  shows "parse_header_lines (l @ crlf @ s) hs = bindE (parseHeader l hs False) (\<lambda>hs. parse_header_lines s hs)"
proof -
  have l: "before_sub crlf (l @ crlf @ s) = l" "l \<noteq> []"
    using find_crlf_line [OF assms, of s] assms by (auto simp: before_sub_def line_ok_def)
  have "length crlf = 2" by (simp add: crlf_def)
  then show ?thesis
    using l by (subst parse_header_lines.simps) (simp add: bindE_def Let_def split: sum.split)
qed

lemma update_insert_new: "k \<notin> fst ` set hs \<Longrightarrow> update_at k f (insert_new k v hs) = hs @ [(k, f v)]"
  by (induction hs) (auto simp: update_at_def insert_new_def)

lemma update_insert_last: "k \<notin> fst ` set hs \<Longrightarrow> update_at k f (insert_new k v (hs @ [(k, w)])) = hs @ [(k, f w)]"
  by (induction hs) (auto simp: update_at_def insert_new_def)

lemma parse_values:
  assumes "k \<notin> fst ` set acc" "map to_lower k = k" "CHR '':'' \<notin> set k" "list_all printable k" "list_all value_ok vs"
  shows "parse_header_lines (concat (map (\<lambda>v. k @ '': '' @ v @ crlf) vs) @ s) (acc @ [(k, ws)]) =
    parse_header_lines s (acc @ [(k, ws @ vs)])"
  using assms(5)
proof (induction vs arbitrary: ws)
  case (Cons v vs)
  let ?s = "concat (map (\<lambda>v. k @ '': '' @ v @ crlf) vs) @ s"
  have "parse_header_lines ((k @ '': '' @ v) @ crlf @ ?s) (acc @ [(k, ws)]) =
      parse_header_lines ?s (acc @ [(k, ws @ [v])])"
    using Cons.prems assms(1-4)
    by (subst parse_line) (simp_all add: line_ok_header parseHeader_written update_insert_last)
  then show ?case using Cons by simp
qed simp

lemma parse_header:
  assumes "k \<notin> fst ` set acc" "header_ok (k, vs)"
  shows "parse_header_lines (concat (map (\<lambda>v. k @ '': '' @ v @ crlf) vs) @ s) acc =
    parse_header_lines s (acc @ [(k, vs)])"
proof -
  obtain v ws where vs: "vs = v # ws" using assms(2) by (cases vs) (auto simp: header_ok_def)
  let ?s = "concat (map (\<lambda>v. k @ '': '' @ v @ crlf) ws) @ s"
  have "parse_header_lines ((k @ '': '' @ v) @ crlf @ ?s) acc = parse_header_lines ?s (acc @ [(k, [v])])"
    using assms vs
    by (subst parse_line) (simp_all add: line_ok_header parseHeader_written update_insert_new header_ok_def)
  then show ?thesis using parse_values [of k acc ws s "[v]"] assms vs by (simp add: header_ok_def)
qed

lemma parse_headers:
  assumes "list_all header_ok hs" "distinct (map fst (acc @ hs))"
  shows "parse_header_lines (header_lines hs @ s) acc = parse_header_lines s (acc @ hs)"
  using assms
proof (induction hs arbitrary: acc)
  case (Cons h hs)
  obtain k vs where h: "h = (k, vs)" by fastforce
  have "parse_header_lines (header_lines (h # hs) @ s) acc = parse_header_lines (header_lines hs @ s) (acc @ [h])"
    using Cons.prems parse_header [of k acc vs "header_lines hs @ s"] by (simp add: h header_lines_def)
  then show ?case using Cons by simp
qed (simp add: header_lines_def)

text \<open>The serialised lines, as lines.\<close>

definition header_texts :: "headers \<Rightarrow> string list" where
  "header_texts hs = concat (map (\<lambda>(k, vs). map (\<lambda>v. k @ '': '' @ v) vs) hs)"

lemma header_lines_text: "header_lines hs = text_lines (header_texts hs)"
proof (induction hs)
  case (Cons h hs)
  obtain k vs where h: "h = (k, vs)" by fastforce
  have "concat (map (\<lambda>v. k @ '': '' @ v @ crlf) vs) = text_lines (map (\<lambda>v. k @ '': '' @ v) vs)"
    by (induction vs) simp_all
  with Cons show ?case by (simp add: h header_lines_def header_texts_def)
qed (simp add: header_lines_def header_texts_def)

lemma header_texts_ok: "list_all header_ok hs \<Longrightarrow> list_all line_ok (header_texts hs)"
  by (auto simp: header_texts_def header_ok_def list_all_iff line_ok_header)

lemma header_texts_printable: "list_all header_ok hs \<Longrightarrow> list_all (list_all printable) (header_texts hs)"
  by (fastforce simp: header_texts_def header_ok_def value_ok_def list_all_iff printable_def char_code_def)

lemma is_digit_printable: "is_digit c \<Longrightarrow> printable c"
  by (simp add: is_digit_def printable_def char_code_def)

definition length_text :: "string \<Rightarrow> string" where
  "length_text body = ''Content-Length'' @ '': '' @ to_string (length body)"

lemma length_line_text: "length_line body = length_text body @ crlf"
  by (simp add: length_line_def length_text_def)

lemma length_value_ok: "value_ok (to_string n)"
proof -
  have "is_digit (last (to_string n))" using to_string_digits [of n] by (simp add: list_all_iff)
  then have "last (to_string n) \<noteq> CHR '' ''" by (auto simp: is_digit_def)
  then show ?thesis
    using to_string_digits [of n] by (auto simp: value_ok_def list_all_iff is_digit_printable)
qed

lemma length_text_ok: "line_ok (length_text body)" "list_all printable (length_text body)"
proof -
  have "list_all printable ''Content-Length''" by (simp add: printable_def char_code_def)
  then show "line_ok (length_text body)"
    using line_ok_header [OF length_value_ok [of "length body"], of "''Content-Length''"] by (simp add: length_text_def)
  show "list_all printable (length_text body)"
    using length_value_ok [of "length body"] by (simp add: length_text_def value_ok_def printable_def char_code_def)
qed

lemma parse_length:
  assumes "''content-length'' \<notin> fst ` set hs"
  shows "parse_header_lines (length_line body) hs = Inr (hs @ [(''content-length'', [to_string (length body)])])"
proof -
  have low: "map to_lower ''Content-Length'' = ''content-length''"
    by (simp add: to_lower_def char_code_def char_of_eq_iff)
  have "parse_header_lines (length_line body) hs = bindE (parseHeader (length_text body) hs False) (parse_header_lines [])"
    using parse_line [OF length_text_ok(1), of body "[]" hs] by (simp add: length_line_text)
  also have "\<dots> = Inr (hs @ [(''content-length'', [to_string (length body)])])"
    using parseHeader_written [OF length_value_ok, of "''Content-Length''" "length body" hs] assms
    unfolding length_text_def low by (simp add: update_insert_new parse_header_lines.simps [of "[]"])
  finally show ?thesis .
qed

section \<open>Requests\<close>

definition path_ok :: "string \<Rightarrow> bool" where
  "path_ok p \<longleftrightarrow> p \<noteq> [] \<and> hd p = CHR ''/'' \<and> list_all printable p \<and> (length p = 1 \<or> last p \<noteq> CHR ''/'')"

definition http_request_ok :: "HttpRequest \<Rightarrow> bool" where
  "http_request_ok r \<longleftrightarrow> hq_method r \<noteq> M_PATCH \<and> path_ok (hq_path r) \<and> query_ok (hq_query r) \<and>
     list_all header_ok (hq_headers r) \<and> distinct (map fst (hq_headers r)) \<and>
     ''content-length'' \<notin> fst ` set (hq_headers r) \<and> ''transfer-encoding'' \<notin> fst ` set (hq_headers r) \<and>
     length (hq_body r) < 2 ^ 63 \<and> length (request_serialize r) < 2 ^ 64"

definition request_target :: "HttpRequest \<Rightarrow> string" where
  "request_target r = percentEncode (hq_path r) True @ query_string (hq_query r)"

definition request_line :: "HttpRequest \<Rightarrow> string" where
  "request_line r = method_string (hq_method r) @ '' '' @ request_target r @ '' '' @ version_string (hq_version r)"

definition request_lines :: "HttpRequest \<Rightarrow> string list" where
  "request_lines r = request_line r # header_texts (hq_headers r) @ [length_text (hq_body r)]"

lemma query_string_chars:
  assumes "query_ok q"
  shows "CHR '' '' \<notin> set (query_string q)" "CHR ''#'' \<notin> set (query_string q)" "list_all printable (query_string q)"
proof -
  have "CHR '' '' \<notin> set (query_param kv) \<and> CHR ''#'' \<notin> set (query_param kv) \<and> list_all printable (query_param kv)"
    if "kv \<in> set q" for kv
  proof -
    have "list_all printable (fst kv) \<and> list_all printable (snd kv)"
      using assms that unfolding query_ok_def list_all_iff [of _ q] by fastforce
    then show ?thesis using query_param_chars [of "fst kv" "snd kv"] by simp
  qed
  note param = this
  have sub: "set (query_string q) \<subseteq> {CHR ''?'', CHR ''&''} \<union> (\<Union>kv \<in> set q. set (query_param kv))"
    by (cases q) (simp_all, blast)
  have each: "c \<noteq> CHR '' '' \<and> c \<noteq> CHR ''#'' \<and> printable c" if c: "c \<in> set (query_string q)" for c
  proof (cases "c \<in> {CHR ''?'', CHR ''&''}")
    case True
    then show ?thesis by (auto simp: printable_def char_code_def)
  next
    case False
    then obtain kv where "kv \<in> set q" "c \<in> set (query_param kv)" using c False sub by blast
    then show ?thesis using param [of kv] by (auto simp: list_all_iff)
  qed
  then show "CHR '' '' \<notin> set (query_string q)" "CHR ''#'' \<notin> set (query_string q)" by blast+
  show "list_all printable (query_string q)" using each by (simp add: list_all_iff)
qed

lemma target_chars:
  assumes "http_request_ok r"
  shows "CHR '' '' \<notin> set (request_target r)" "CHR ''#'' \<notin> set (request_target r)" "list_all printable (request_target r)"
    "CHR ''?'' \<notin> set (percentEncode (hq_path r) True)"
proof -
  have p: "list_all printable (hq_path r)" and q: "query_ok (hq_query r)" using assms by (auto simp: http_request_ok_def path_ok_def)
  note free = percentEncode_free [OF p, where b = True] and chars = percentEncode_chars [OF p, where b = True]
  show "CHR '' '' \<notin> set (request_target r)" "CHR ''#'' \<notin> set (request_target r)" "list_all printable (request_target r)"
    "CHR ''?'' \<notin> set (percentEncode (hq_path r) True)"
    using query_string_chars [OF q] free percent_reserved chars by (auto simp: request_target_def list_all_iff)
qed

lemma method_read: "m \<noteq> M_PATCH \<Longrightarrow> read_method (method_string m) = Inr m"
  by (cases m) simp_all

lemma method_chars: "CHR '' '' \<notin> set (method_string m)" "list_all printable (method_string m)" "method_string m \<noteq> []"
  by (cases m; simp add: printable_def char_code_def)+

lemma version_read: "read_version (version_string v) = Inr v" "list_all printable (version_string v)"
  by (cases v; simp add: read_version_def printable_def char_code_def)+

lemma request_line_parts:
  assumes "http_request_ok r"
  shows "before_char (CHR '' '') (request_line r) = method_string (hq_method r)"
    "after_char (CHR '' '') (request_line r) = request_target r @ '' '' @ version_string (hq_version r)"
    "before_char (CHR '' '') (request_target r @ '' '' @ version_string (hq_version r)) = request_target r"
    "after_char (CHR '' '') (request_target r @ '' '' @ version_string (hq_version r)) = version_string (hq_version r)"
  using before_char_append [OF method_chars(1)] after_char_append [OF method_chars(1)]
    before_char_append [OF target_chars(1) [OF assms]] after_char_append [OF target_chars(1) [OF assms]]
  by (simp_all add: request_line_def)

lemma request_line_ok:
  assumes "http_request_ok r"
  shows "line_ok (request_line r)" "list_all printable (request_line r)"
proof -
  show "list_all printable (request_line r)"
    using target_chars(3) [OF assms] method_chars(2) [of "hq_method r"] version_read(2) [of "hq_version r"]
    by (simp add: request_line_def printable_def char_code_def)
  from printable_no_cr [OF this] show "line_ok (request_line r)"
    using method_chars(3) [of "hq_method r"] by (simp add: line_ok_def request_line_def)
qed

lemma kept_all:
  assumes "http_request_ok r"
  shows "kept_headers (hq_headers r) = hq_headers r"
  unfolding kept_headers_def by (rule filter_True) (use assms in \<open>force simp: http_request_ok_def\<close>)

lemma request_head_lines:
  assumes "http_request_ok r"
  shows "request_head r = text_lines (request_lines r) @ crlf"
  using kept_all [OF assms]
  by (simp add: request_head_def request_lines_def request_line_def request_target_def header_lines_text length_line_text)

lemma request_lines_ok:
  assumes "http_request_ok r"
  shows "list_all line_ok (request_lines r)" "list_all (list_all printable) (request_lines r)"
proof -
  have "list_all header_ok (hq_headers r)" using assms by (simp add: http_request_ok_def)
  then show "list_all line_ok (request_lines r)" "list_all (list_all printable) (request_lines r)"
    using request_line_ok [OF assms] header_texts_ok header_texts_printable length_text_ok
    by (auto simp: request_lines_def)
qed

lemma lines_header_chars: "list_all (list_all printable) ls \<Longrightarrow> list_all header_char (text_lines ls @ crlf)"
  by (induction ls) (auto simp: list_all_iff header_char_def printable_def crlf_def char_code_def)

lemma read_target:
  assumes "http_request_ok r"
  shows "read_path (before_char (CHR ''?'') (request_target r)) = Inr (hq_path r)"
    "(if CHR ''?'' \<in> set (request_target r) then parseQuery (after_char (CHR ''?'') (request_target r)) [] else Inr []) =
       Inr (hq_query r)"
proof -
  have p: "path_ok (hq_path r)" and q: "query_ok (hq_query r)" using assms by (auto simp: http_request_ok_def)
  note free = target_chars(4) [OF assms]
  have path: "read_path (percentEncode (hq_path r) True) = Inr (hq_path r)"
    using p percentDecode_Encode [of "hq_path r" True] by (auto simp: read_path_def path_ok_def)
  show "read_path (before_char (CHR ''?'') (request_target r)) = Inr (hq_path r)"
    "(if CHR ''?'' \<in> set (request_target r) then parseQuery (after_char (CHR ''?'') (request_target r)) [] else Inr []) =
       Inr (hq_query r)"
  proof (atomize (full), cases "hq_query r")
    case Nil
    then show "read_path (before_char (CHR ''?'') (request_target r)) = Inr (hq_path r) \<and>
      (if CHR ''?'' \<in> set (request_target r) then parseQuery (after_char (CHR ''?'') (request_target r)) [] else Inr []) =
       Inr (hq_query r)"
      using path free by (simp add: request_target_def before_char_none)
  next
    case (Cons kv kvs)
    let ?q = "query_param kv @ concat (map (\<lambda>kv. ''&'' @ query_param kv) kvs)"
    have t: "request_target r = percentEncode (hq_path r) True @ CHR ''?'' # ?q"
      by (simp add: request_target_def Cons)
    have "parseQuery ?q [] = Inr ([] @ kv # kvs)"
      using q Cons by (intro parseQuery_params) (auto simp: query_ok_def)
    then show "read_path (before_char (CHR ''?'') (request_target r)) = Inr (hq_path r) \<and>
      (if CHR ''?'' \<in> set (request_target r) then parseQuery (after_char (CHR ''?'') (request_target r)) [] else Inr []) =
       Inr (hq_query r)"
      using path before_char_append [OF free] after_char_append [OF free] Cons by (simp add: t)
  qed
qed

text \<open>What comes back: the request, and how long its body is.\<close>

definition with_length :: "HttpRequest \<Rightarrow> HttpRequest" where
  "with_length r = r\<lparr>hq_headers := hq_headers r @ [(''content-length'', [to_string (length (hq_body r))])]\<rparr>"

lemma head_parsed:
  assumes "http_request_ok r"
  shows "hq_parseHTTPHeader (request_head r @ s) (length (request_head r)) = Inr ((with_length r)\<lparr>hq_body := []\<rparr>)"
proof -
  let ?view = "request_head r"
  let ?rest = "header_texts (hq_headers r) @ [length_text (hq_body r)]"
  note head = request_head_lines [OF assms] and lines = request_lines_ok [OF assms]
  have first: "find_sub crlf ?view = Some (length (request_line r))"
    using find_crlf_line [OF request_line_ok(1) [OF assms]] by (simp add: head request_lines_def)
  have "find_sub (crlf @ crlf) ?view = Some (length (text_lines (request_lines r)) - 2)"
    using find_empty_line [OF _ lines(1), of "[]"] by (simp add: head request_lines_def)
  moreover have "length crlf = 2" by (simp add: crlf_def)
  ultimately have last: "find_sub (crlf @ crlf) ?view = Some (length (request_line r) + length (text_lines ?rest))"
    by (simp add: request_lines_def)
  have body: "take (length (text_lines ?rest)) (drop (length (request_line r) + 2) ?view) = text_lines ?rest"
    by (simp add: head request_lines_def crlf_def)
  have "parse_header_lines (text_lines ?rest) [] = parse_header_lines (length_line (hq_body r)) (hq_headers r)"
    using parse_headers [of "hq_headers r" "[]" "length_line (hq_body r)"] assms
    by (simp add: header_lines_text length_line_text http_request_ok_def)
  also have "\<dots> = Inr (hq_headers (with_length r))"
    using parse_length [of "hq_headers r" "hq_body r"] assms by (simp add: http_request_ok_def with_length_def)
  finally have headers: "parse_header_lines (text_lines ?rest) [] = Inr (hq_headers (with_length r))" .
  have chars: "list_all header_char ?view" using lines_header_chars [OF lines(2)] by (simp add: head)
  have firstLine: "take (length (request_line r)) ?view = request_line r" by (simp add: head request_lines_def)
  have frag: "before_char (CHR ''#'') (request_target r) = request_target r"
    by (rule before_char_none) (rule target_chars(2) [OF assms])
  have m: "read_method (method_string (hq_method r)) = Inr (hq_method r)"
    using assms by (intro method_read) (simp add: http_request_ok_def)
  have rec: "\<lparr>hq_method = hq_method r, hq_version = hq_version r, hq_path = hq_path r, hq_query = hq_query r,
      hq_headers = hq_headers (with_length r), hq_body = []\<rparr> = (with_length r)\<lparr>hq_body := []\<rparr>"
    by (cases r) (simp add: with_length_def)
  have view: "take (length ?view) (?view @ s) = ?view" by simp
  show ?thesis
    unfolding hq_parseHTTPHeader_def Let_def view first last option.case firstLine request_line_parts [OF assms] frag
      read_target [OF assms] m version_read(1) bindE_simps add_diff_cancel_left' body headers rec
    using chars by simp
qed

lemma head_complete:
  assumes "http_request_ok r"
  shows "isHTTPHeaderComplete (request_head r @ s) = Some (length (request_head r))"
proof -
  have "find_sub (crlf @ crlf) (request_head r @ s) = Some (length (text_lines (request_lines r)) - 2)"
    using find_empty_line [OF _ request_lines_ok(1) [OF assms], of s]
    by (simp add: request_head_lines [OF assms] request_lines_def)
  moreover have "2 \<le> length (text_lines (request_lines r))" "length crlf = 2"
    by (simp_all add: request_lines_def crlf_def)
  ultimately show ?thesis by (simp add: isHTTPHeaderComplete_def request_head_lines [OF assms])
qed

lemma first_value_with_length:
  assumes "http_request_ok r"
  shows "first_value (hq_headers (with_length r)) ''content-length'' = Some (to_string (length (hq_body r)))"
    "first_value (hq_headers (with_length r)) ''transfer-encoding'' = None"
proof -
  have "map_of (hq_headers r) ''content-length'' = None" "map_of (hq_headers r) ''transfer-encoding'' = None"
    using assms by (auto simp: http_request_ok_def map_of_eq_None_iff)
  then show "first_value (hq_headers (with_length r)) ''content-length'' = Some (to_string (length (hq_body r)))"
    "first_value (hq_headers (with_length r)) ''transfer-encoding'' = None"
    by (simp_all add: first_value_def with_length_def map_add_def)
qed

lemma body_complete:
  assumes "http_request_ok r"
  shows "isHTTPBodyComplete data (length (request_head r)) (hq_headers (with_length r)) False 0 False False =
    Inr (if length (request_serialize r) \<le> length data then Some (length (hq_body r)) else None)"
proof -
  have "length (hq_body r) < 2 ^ 64" "length (request_head r) + length (hq_body r) < 2 ^ 64"
    using assms by (auto simp: http_request_ok_def request_serialize_def)
  then show ?thesis
    using first_value_with_length [OF assms] to_string_digits [of "length (hq_body r)"] stoul_to_string [of "length (hq_body r)"]
    by (simp add: isHTTPBodyComplete_def request_serialize_def)
qed

text \<open>The round trip.\<close>

lemma request_roundtrip:
  assumes "http_request_ok r"
  shows "request_parse (request_serialize r @ s) = Inr (with_length r, length (request_serialize r))"
proof -
  have "length (hq_body r) < 2 ^ 63" "length (request_head r) + length (hq_body r) < 2 ^ 64"
    using assms by (auto simp: http_request_ok_def request_serialize_def)
  then have "hq_parseHTTPBody (request_head r @ hq_body r @ s) (length (request_head r)) (length (hq_body r))
      ((with_length r)\<lparr>hq_body := []\<rparr>) = Inr (with_length r)"
    using first_value_with_length [OF assms]
    by (simp add: hq_parseHTTPBody_def plain_body_def with_length_def)
  then show ?thesis
    using head_complete [OF assms] head_parsed [OF assms] body_complete [OF assms, of "request_serialize r @ s"] assms
    by (simp add: request_parse_def request_serialize_def http_request_ok_def)
qed

text \<open>A part of a request is not complete, wherever it is cut.\<close>

lemma request_cut:
  assumes "http_request_ok r" "k < length (request_serialize r)"
  shows "request_parse (take k (request_serialize r)) = Inl NotCompleteException"
proof (cases "isHTTPHeaderComplete (take k (request_serialize r))")
  case (Some hl)
  have "isHTTPHeaderComplete (request_serialize r) = Some hl" and le: "hl \<le> k"
    using header_complete [OF Some, of "drop k (request_serialize r)"] assms(2) by simp_all
  then have hl: "hl = length (request_head r)"
    using head_complete [OF assms(1), of "hq_body r"] by (simp add: request_serialize_def)
  then obtain s where s: "take k (request_serialize r) = request_head r @ s"
    using le by (auto simp: request_serialize_def take_append)
  have "length (take k (request_serialize r)) < length (request_serialize r)" using assms(2) by simp
  then show ?thesis
    using Some hl head_parsed [OF assms(1), of s] body_complete [OF assms(1), of "take k (request_serialize r)"]
    by (simp add: request_parse_def s)
qed (simp add: request_parse_def)

end
