(* ===== verification/HttpServer.thy ===== *)
theory HttpServer
  imports HttpRoundtrip
begin

text \<open>
  The web server, \<^verbatim>\<open>http/server.cpp\<close>: it collects what a connection sends, takes the requests from the
  front of it into a queue, and hands each to the handler of its route. A handler is a value that is
  scheduled with its context, a regular expression something that \<open>rx_match\<close> decides; the socket manager
  reports by \<open>rx_closes\<close> whether it closes a connection at once or after what is left to send. Threads are
  left out: each routine of the sources is one step.
\<close>

section \<open>State\<close>

record 'a Context =
  cx_client :: 'a
  cx_sock :: u32
  cx_request :: HttpRequest
  cx_status :: int

record ('a, 'h, 'r) HttpServer =
  hs_buffers :: "u32 \<rightharpoonup> string"
  hs_clients :: "u32 \<rightharpoonup> 'a"
  hs_queue :: "(u32 \<times> HttpRequest) list"
  hs_routes :: "string \<rightharpoonup> (string \<rightharpoonup> 'h)"
  hs_regexRoutes :: "string \<rightharpoonup> ('r \<times> 'h) list"
  hs_errorPages :: "string \<rightharpoonup> 'h"
  hs_tasks :: "('h \<times> 'a Context) list"
  hs_sent :: "(u32 \<times> string) list"
  hs_closing :: "u32 list"

record ('a, 'r) HttpEnv =
  rx_match :: "'r \<Rightarrow> string \<Rightarrow> bool"
  rx_closes :: "u32 \<Rightarrow> bool"
  rx_noClient :: 'a

definition MAX_PAYLOAD_SIZE :: nat where "MAX_PAYLOAD_SIZE = 104857600"

definition http_server :: "('a, 'h, 'r) HttpServer" where
  "http_server = \<lparr>hs_buffers = Map.empty, hs_clients = Map.empty, hs_queue = [], hs_routes = Map.empty,
     hs_regexRoutes = Map.empty, hs_errorPages = Map.empty, hs_tasks = [], hs_sent = [], hs_closing = []\<rparr>"

section \<open>Routes\<close>

definition registerRoute :: "string \<Rightarrow> string \<Rightarrow> 'h \<Rightarrow> ('a, 'h, 'r) HttpServer \<Rightarrow> ('a, 'h, 'r) HttpServer" where
  "registerRoute host path func s =
     s\<lparr>hs_routes := (hs_routes s)(host \<mapsto>
       (case hs_routes s host of None \<Rightarrow> Map.empty | Some m \<Rightarrow> m)(path \<mapsto> func))\<rparr>"

definition registerRegexRoute :: "string \<Rightarrow> 'r \<Rightarrow> 'h \<Rightarrow> ('a, 'h, 'r) HttpServer \<Rightarrow> ('a, 'h, 'r) HttpServer" where
  "registerRegexRoute host regex func s =
     s\<lparr>hs_regexRoutes := (hs_regexRoutes s)(host \<mapsto>
       (case hs_regexRoutes s host of None \<Rightarrow> [] | Some l \<Rightarrow> l) @ [(regex, func)])\<rparr>"

definition unregisterHost :: "string \<Rightarrow> ('a, 'h, 'r) HttpServer \<Rightarrow> ('a, 'h, 'r) HttpServer" where
  "unregisterHost host s = s\<lparr>hs_routes := (hs_routes s)(host := None)\<rparr>"

definition registerErrorPage :: "string \<Rightarrow> 'h \<Rightarrow> ('a, 'h, 'r) HttpServer \<Rightarrow> ('a, 'h, 'r) HttpServer" where
  "registerErrorPage host func s = s\<lparr>hs_errorPages := (hs_errorPages s)(host \<mapsto> func)\<rparr>"

section \<open>Connections\<close>

definition onAccept :: "u32 \<Rightarrow> 'a \<Rightarrow> ('a, 'h, 'r) HttpServer \<Rightarrow> ('a, 'h, 'r) HttpServer" where
  "onAccept i dir s = s\<lparr>hs_buffers := (hs_buffers s)(i \<mapsto> []), hs_clients := (hs_clients s)(i \<mapsto> dir)\<rparr>"

definition onClose :: "u32 \<Rightarrow> ('a, 'h, 'r) HttpServer \<Rightarrow> ('a, 'h, 'r) HttpServer" where
  "onClose i s = s\<lparr>hs_buffers := (hs_buffers s)(i := None), hs_clients := (hs_clients s)(i := None)\<rparr>"

definition close_socket :: "('a, 'r) HttpEnv \<Rightarrow> u32 \<Rightarrow> ('a, 'h, 'r) HttpServer \<Rightarrow> ('a, 'h, 'r) HttpServer" where
  "close_socket ev i s =
     (let s = s\<lparr>hs_closing := hs_closing s @ [i]\<rparr> in if rx_closes ev i then onClose i s else s)"

definition send_to :: "u32 \<Rightarrow> string \<Rightarrow> ('a, 'h, 'r) HttpServer \<Rightarrow> ('a, 'h, 'r) HttpServer" where
  "send_to i d s = s\<lparr>hs_sent := hs_sent s @ [(i, d)]\<rparr>"

section \<open>Errors\<close>

definition error_page :: "string \<Rightarrow> string" where
  "error_page status = ''<!DOCTYPE html><html><head><title>'' @ status @ ''</title></head><body><h1>'' @ status @
     ''</h1></body></html>''"

definition getError :: "Version \<Rightarrow> int \<Rightarrow> HttpResponse result" where
  "getError version status =
     (case map_of STATUS_CODE_MSG status of
        None \<Rightarrow> Inl OutOfRange
      | Some msg \<Rightarrow>
          let r = empty_response version status;
              hs = setHeader ''Content-Type'' ''text/html'' (hp_headers r);
              hs = (if version = HTTP_1_1 then setHeader ''Connection'' ''close'' hs else hs)
          in Inr (r\<lparr>hp_headers := hs, hp_body := error_page (to_string (nat status) @ '' '' @ msg)\<rparr>))"

text \<open>The error page of the host, else the one of \<open>*\<close>, else a plain one and the end of the connection.\<close>

definition sendError_request :: "('a, 'r) HttpEnv \<Rightarrow> u32 \<Rightarrow> int \<Rightarrow> HttpRequest \<Rightarrow> 'a
    \<Rightarrow> ('a, 'h, 'r) HttpServer \<Rightarrow> unit result \<times> ('a, 'h, 'r) HttpServer" where
  "sendError_request ev i status r client s =
     (let task = (\<lambda>h. s\<lparr>hs_tasks := hs_tasks s @ [(h, \<lparr>cx_client = client, cx_sock = i, cx_request = r,
            cx_status = status\<rparr>)]\<rparr>);
          page = (case first_value (hq_headers r) ''host'' of None \<Rightarrow> None | Some host \<Rightarrow> hs_errorPages s host)
      in case page of
           Some h \<Rightarrow> (Inr (), task h)
         | None \<Rightarrow>
             (case hs_errorPages s ''*'' of
                Some h \<Rightarrow> (Inr (), task h)
              | None \<Rightarrow>
                  (case bindE (getError (hq_version r) status) response_serialize of
                     Inl e \<Rightarrow> (Inl e, s)
                   | Inr d \<Rightarrow> (Inr (), close_socket ev i (send_to i d s)))))"

text \<open>For data that is not a request.\<close>

definition sendError :: "('a, 'r) HttpEnv \<Rightarrow> u32 \<Rightarrow> int \<Rightarrow> ('a, 'h, 'r) HttpServer
    \<Rightarrow> unit result \<times> ('a, 'h, 'r) HttpServer" where
  "sendError ev i status s = sendError_request ev i status (empty_request [] M_GET HTTP_1_1) (rx_noClient ev) s"

section \<open>Receiving\<close>

definition error_status :: "exn \<Rightarrow> int option" where
  "error_status e = (case e of LengthUnknownException \<Rightarrow> Some 400 | VersionNotSupportedException \<Rightarrow> Some 505
     | MethodNotSupportedException \<Rightarrow> Some 405 | MalformedException \<Rightarrow> Some 400 | _ \<Rightarrow> None)"

text \<open>
  The loop over the buffer. After an error it asks again whether the buffer is empty, by a reference that
  the closing of the connection has made invalid. \<open>None\<close> is a loop that does not end.
\<close>

partial_function (option) receive_loop :: "('a, 'r) HttpEnv \<Rightarrow> u32 \<Rightarrow> ('a, 'h, 'r) HttpServer
    \<Rightarrow> (unit result \<times> ('a, 'h, 'r) HttpServer) option" where
  "receive_loop ev i s =
     (case hs_buffers s i of
        None \<Rightarrow> Some (Inl UndefinedAccess, s)
      | Some buffer \<Rightarrow>
          if buffer = [] then Some (Inr (), s)
          else case request_parse buffer of
            Inr (r, n) \<Rightarrow>
              if hs_clients s i = None then Some (Inl UndefinedAccess, s)
              else receive_loop ev i (s\<lparr>hs_queue := hs_queue s @ [(i, r)], hs_buffers := (hs_buffers s)(i \<mapsto> drop n buffer)\<rparr>)
          | Inl e \<Rightarrow>
              if e = NotCompleteException then Some (Inr (), s)
              else case error_status e of
                None \<Rightarrow> Some (Inl e, s)
              | Some status \<Rightarrow>
                  (case sendError ev i status s of
                     (Inl e, s) \<Rightarrow> Some (Inl e, s)
                   | (Inr _, s) \<Rightarrow> Some (if hs_buffers s i = None then Inl UndefinedAccess else Inr (), s)))"

definition onDataReceived :: "('a, 'r) HttpEnv \<Rightarrow> u32 \<Rightarrow> string \<Rightarrow> ('a, 'h, 'r) HttpServer
    \<Rightarrow> (unit result \<times> ('a, 'h, 'r) HttpServer) option" where
  "onDataReceived ev i data s =
     (if data = [] then Some (Inr (), s)
      else case hs_buffers s i of
        None \<Rightarrow> Some (Inl UndefinedAccess, s)
      | Some buffer \<Rightarrow>
          if MAX_PAYLOAD_SIZE < length buffer + length data then Some (sendError ev i 413 s)
          else receive_loop ev i (s\<lparr>hs_buffers := (hs_buffers s)(i \<mapsto> buffer @ data)\<rparr>))"

section \<open>Handling\<close>

definition regex_handler :: "('a, 'r) HttpEnv \<Rightarrow> ('r \<times> 'h) list \<Rightarrow> string \<Rightarrow> 'h option" where
  "regex_handler ev l path = map_option snd (find (\<lambda>(r, h). rx_match ev r path) l)"

definition host_handler :: "('a, 'r) HttpEnv \<Rightarrow> string \<Rightarrow> string \<Rightarrow> ('a, 'h, 'r) HttpServer \<Rightarrow> 'h option" where
  "host_handler ev host path s =
     (case (case hs_routes s host of None \<Rightarrow> None | Some m \<Rightarrow> m path) of
        Some h \<Rightarrow> Some h
      | None \<Rightarrow> (case hs_regexRoutes s host of None \<Rightarrow> None | Some l \<Rightarrow> regex_handler ev l path))"

definition route :: "('a, 'r) HttpEnv \<Rightarrow> HttpRequest \<Rightarrow> ('a, 'h, 'r) HttpServer \<Rightarrow> 'h option" where
  "route ev r s =
     (case (case first_value (hq_headers r) ''host'' of None \<Rightarrow> None | Some host \<Rightarrow> host_handler ev host (hq_path r) s) of
        Some h \<Rightarrow> Some h
      | None \<Rightarrow> host_handler ev ''*'' (hq_path r) s)"

text \<open>
  The front of the queue, as a worker takes it. A client that is gone gets the address of a new entry of
  the map.
\<close>

definition handle_front :: "('a, 'r) HttpEnv \<Rightarrow> ('a, 'h, 'r) HttpServer \<Rightarrow> unit result \<times> ('a, 'h, 'r) HttpServer" where
  "handle_front ev s =
     (case hs_queue s of
        [] \<Rightarrow> (Inr (), s)
      | (i, r) # rest \<Rightarrow>
          let s = s\<lparr>hs_queue := rest\<rparr>;
              client = (case hs_clients s i of Some a \<Rightarrow> a | None \<Rightarrow> rx_noClient ev);
              s = s\<lparr>hs_clients := (hs_clients s)(i \<mapsto> client)\<rparr>
          in case route ev r s of
               None \<Rightarrow> sendError_request ev i 404 r client s
             | Some h \<Rightarrow> (Inr (), s\<lparr>hs_tasks := hs_tasks s @ [(h, \<lparr>cx_client = client, cx_sock = i, cx_request = r,
                 cx_status = 0\<rparr>)]\<rparr>))"

definition sendHttpResponse :: "('a, 'r) HttpEnv \<Rightarrow> u32 \<Rightarrow> HttpResponse \<Rightarrow> bool \<Rightarrow> ('a, 'h, 'r) HttpServer
    \<Rightarrow> unit result \<times> ('a, 'h, 'r) HttpServer" where
  "sendHttpResponse ev i r keepAlive s =
     (case response_serialize r of
        Inl e \<Rightarrow> (Inl e, s)
      | Inr d \<Rightarrow> let s = send_to i d s in (Inr (), if keepAlive then s else close_socket ev i s))"

end
