(* ===== verification/HttpServing.thy ===== *)
theory HttpServing
  imports HttpServer
begin

text \<open>
  What the web server makes of its input. However the network cuts a stream of requests, the queue gets
  each of them once and in order. And what requests bring it down.
\<close>

section \<open>Streams\<close>

definition stream_of :: "HttpRequest list \<Rightarrow> string" where
  "stream_of rs = concat (map request_serialize rs)"

lemma stream_of_simps [simp]:
  "stream_of [] = []" "stream_of (r # rs) = request_serialize r @ stream_of rs"
  by (simp_all add: stream_of_def)

lemma serialize_not_Nil: "request_serialize r \<noteq> []"
  by (simp add: request_serialize_def request_head_def crlf_def)

text \<open>A part that is less than a request.\<close>

definition partial_request :: "string \<Rightarrow> HttpRequest list \<Rightarrow> bool" where
  "partial_request part rs \<longleftrightarrow> part = [] \<or>
     (\<exists>r rs' k. rs = r # rs' \<and> k < length (request_serialize r) \<and> part = take k (request_serialize r))"

text \<open>Every prefix of a stream is some requests and a part.\<close>

lemma stream_prefix:
  assumes "b @ c = stream_of rs"
  shows "\<exists>rs1 rs2 part. rs = rs1 @ rs2 \<and> b = stream_of rs1 @ part \<and> partial_request part rs2 \<and>
    part @ c = stream_of rs2"
  using assms
proof (induction rs arbitrary: b)
  case Nil
  then show ?case by (intro exI [of _ "[]"]) (simp add: partial_request_def)
next
  case (Cons r rs)
  show ?case
  proof (cases "length b < length (request_serialize r)")
    case True
    then have "b = take (length b) (request_serialize r)"
      using Cons.prems by (metis append_eq_append_conv_if nless_le stream_of_simps(2))
    then have "partial_request b (r # rs)" using True by (auto simp: partial_request_def)
    then show ?thesis using Cons.prems by (intro exI [of _ "[]"] exI [of _ "r # rs"] exI [of _ b]) simp
  next
    case False
    then obtain b' where b: "b = request_serialize r @ b'"
      using Cons.prems by (metis append_eq_append_conv_if append_take_drop_id linorder_not_less stream_of_simps(2))
    then have "b' @ c = stream_of rs" using Cons.prems by simp
    from Cons.IH [OF this] obtain rs1 rs2 part where "rs = rs1 @ rs2" "b' = stream_of rs1 @ part"
      "partial_request part rs2" "part @ c = stream_of rs2" by blast
    then show ?thesis using b by (intro exI [of _ "r # rs1"] exI [of _ rs2] exI [of _ part]) simp
  qed
qed

section \<open>The loop\<close>

definition queued_requests :: "u32 \<Rightarrow> HttpRequest list \<Rightarrow> (u32 \<times> HttpRequest) list" where
  "queued_requests i rs = map (\<lambda>r. (i, with_length r)) rs"

definition after_requests :: "u32 \<Rightarrow> HttpRequest list \<Rightarrow> string \<Rightarrow> ('a, 'h, 'r) HttpServer \<Rightarrow> ('a, 'h, 'r) HttpServer" where
  "after_requests i rs part s = s\<lparr>hs_queue := hs_queue s @ queued_requests i rs, hs_buffers := (hs_buffers s)(i \<mapsto> part)\<rparr>"

lemma loop_ends_in_part:
  assumes "partial_request part rs" "list_all http_request_ok rs" "hs_buffers s i = Some part"
  shows "receive_loop ev i s = Some (Inr (), s)"
  using assms request_cut
  by (subst receive_loop.simps) (auto simp: partial_request_def)

lemma loop_takes_requests:
  assumes "list_all http_request_ok rs1" "list_all http_request_ok rs2" "partial_request part rs2" "hs_clients s i \<noteq> None"
    "hs_buffers s i = Some (stream_of rs1 @ part)"
  shows "receive_loop ev i s = Some (Inr (), after_requests i rs1 part s)"
  using assms(1,4,5)
proof (induction rs1 arbitrary: s)
  case Nil
  then have "after_requests i [] part s = s"
    by (cases s) (simp add: after_requests_def queued_requests_def fun_upd_idem)
  then show ?case using loop_ends_in_part [OF assms(3,2), of s i ev] Nil by simp
next
  case (Cons r rs1)
  let ?rest = "stream_of rs1 @ part"
  let ?s = "s\<lparr>hs_queue := hs_queue s @ [(i, with_length r)], hs_buffers := (hs_buffers s)(i \<mapsto> ?rest)\<rparr>"
  have parse: "request_parse (request_serialize r @ ?rest) = Inr (with_length r, length (request_serialize r))"
    using Cons.prems(1) by (intro request_roundtrip) simp
  have "receive_loop ev i s = receive_loop ev i ?s"
    using Cons.prems parse serialize_not_Nil [of r] by (subst receive_loop.simps) auto
  also have "\<dots> = Some (Inr (), after_requests i rs1 part ?s)"
    using Cons.prems by (intro Cons.IH) auto
  also have "after_requests i rs1 part ?s = after_requests i (r # rs1) part s"
    by (simp add: after_requests_def queued_requests_def)
  finally show ?case .
qed

section \<open>Fragments\<close>

text \<open>The pieces of a stream, in the order of their arrival; \<open>None\<close> if a step throws or does not return.\<close>

primrec receive_all :: "('a, 'r) HttpEnv \<Rightarrow> u32 \<Rightarrow> string list \<Rightarrow> ('a, 'h, 'r) HttpServer
    \<Rightarrow> ('a, 'h, 'r) HttpServer option" where
  "receive_all ev i [] s = Some s"
| "receive_all ev i (d # ds) s =
     (case onDataReceived ev i d s of Some (Inr _, s) \<Rightarrow> receive_all ev i ds s | _ \<Rightarrow> None)"

lemma receive_piece:
  assumes "list_all http_request_ok rs" "part @ d @ c = stream_of rs" "hs_clients s i \<noteq> None"
    "hs_buffers s i = Some part" "length (stream_of rs) \<le> MAX_PAYLOAD_SIZE" "partial_request part rs"
  shows "\<exists>rs1 rs2 part'. rs = rs1 @ rs2 \<and> partial_request part' rs2 \<and> part' @ c = stream_of rs2 \<and>
    onDataReceived ev i d s = Some (Inr (), after_requests i rs1 part' s)"
proof (cases "d = []")
  case True
  moreover have "after_requests i [] part s = s"
    using assms(4) by (cases s) (simp add: after_requests_def queued_requests_def fun_upd_idem)
  ultimately show ?thesis
    using assms(2,6) by (intro exI [of _ "[]"] exI [of _ rs] exI [of _ part]) (simp add: onDataReceived_def)
next
  case False
  have "(part @ d) @ c = stream_of rs" using assms(2) by simp
  from stream_prefix [OF this] obtain rs1 rs2 part' where split: "rs = rs1 @ rs2" "part @ d = stream_of rs1 @ part'"
    "partial_request part' rs2" "part' @ c = stream_of rs2" by blast
  have "length part + length d \<le> MAX_PAYLOAD_SIZE"
    using assms(5) arg_cong [OF assms(2), of length] by simp
  moreover have "receive_loop ev i (s\<lparr>hs_buffers := (hs_buffers s)(i \<mapsto> part @ d)\<rparr>) =
      Some (Inr (), after_requests i rs1 part' (s\<lparr>hs_buffers := (hs_buffers s)(i \<mapsto> part @ d)\<rparr>))"
    using split assms(1,3) by (intro loop_takes_requests [of _ rs2]) auto
  ultimately have "onDataReceived ev i d s = Some (Inr (), after_requests i rs1 part' s)"
    using False assms(4) by (simp add: onDataReceived_def after_requests_def)
  then show ?thesis using split by blast
qed

lemma receive_stream:
  assumes "list_all http_request_ok rs" "part @ concat ds = stream_of rs" "hs_clients s i \<noteq> None"
    "hs_buffers s i = Some part" "length (stream_of rs) \<le> MAX_PAYLOAD_SIZE" "partial_request part rs"
  shows "receive_all ev i ds s = Some (after_requests i rs [] s)"
  using assms
proof (induction ds arbitrary: rs part s)
  case Nil
  have "rs = [] \<and> part = []"
  proof (cases rs)
    case (Cons r rs')
    then show ?thesis
      using Nil.prems(2,6) serialize_not_Nil [of r] by (auto simp: partial_request_def) (metis append_eq_conv_conj length_take min.absorb2 nless_le append.right_neutral take_all_iff le_eq_less_or_eq linorder_not_less length_append le_add1)
  qed (use Nil.prems(2) in simp)
  moreover have "after_requests i [] [] s = s" if "hs_buffers s i = Some []"
    using that by (cases s) (simp add: after_requests_def queued_requests_def fun_upd_idem)
  ultimately show ?case using Nil.prems(4) by simp
next
  case (Cons d ds)
  obtain rs1 rs2 part' where step: "rs = rs1 @ rs2" "partial_request part' rs2" "part' @ concat ds = stream_of rs2"
      "onDataReceived ev i d s = Some (Inr (), after_requests i rs1 part' s)"
    using receive_piece [of rs part d "concat ds" s i ev] Cons.prems by auto
  have "receive_all ev i ds (after_requests i rs1 part' s) = Some (after_requests i rs2 [] (after_requests i rs1 part' s))"
    using step Cons.prems by (intro Cons.IH) (auto simp: after_requests_def stream_of_def)
  moreover have "after_requests i rs2 [] (after_requests i rs1 part' s) = after_requests i rs [] s"
    by (simp add: after_requests_def step(1) queued_requests_def)
  ultimately show ?case using step(4) by simp
qed

section \<open>Requests that bring the server down\<close>

lemmas http_eval = request_parse_def isHTTPHeaderComplete_def hq_parseHTTPHeader_def header_char_def char_code_def
  before_char_def after_char_def read_path_def read_version_def parse_header_lines.simps before_sub_def
  parseHeader_def trim_value_def to_lower_def update_at_def insert_new_def isHTTPBodyComplete_def first_value_def
  hq_parseHTTPBody_def plain_body_def Let_def

lemmas number_eval = stoul_def drop_prefix_def read_base_def char_digit_def is_space_def is_digit_def

text \<open>
  A blank content length has no digit that is not one, and no number; a content length that wraps with
  the header's reaches the end of the data; a chunk's size of \<^verbatim>\<open>-2\<close> gives a chunk that ends before it
  begins; and a trailer is removed with two bytes more than there are.
\<close>

definition blank_length :: string where
  "blank_length = ''GET / HTTP/1.1'' @ crlf @ ''content-length:  '' @ crlf @ crlf"

definition wrapping_length :: string where
  "wrapping_length = ''GET / HTTP/1.1'' @ crlf @ ''content-length: 18446744073709551560'' @ crlf @ crlf"

definition chunked_head :: string where
  "chunked_head = ''GET / HTTP/1.1'' @ crlf @ ''transfer-encoding: chunked'' @ crlf @ crlf"

definition backward_chunk :: string where
  "backward_chunk = chunked_head @ ''fffffffffffffffe'' @ crlf @ ''0'' @ crlf @ crlf"

definition with_trailer :: string where
  "with_trailer = chunked_head @ ''0'' @ crlf @ ''a: b'' @ crlf @ crlf"

lemma blank_length_parsed: "request_parse blank_length = Inl InvalidArgument"
  by (simp add: blank_length_def crlf_def http_eval number_eval)

lemma wrapping_length_parsed: "request_parse wrapping_length = Inl UndefinedAccess"
  by (simp add: wrapping_length_def crlf_def http_eval number_eval)

lemma backward_chunk_parsed: "request_parse backward_chunk = Inl UndefinedAccess"
  by (simp add: backward_chunk_def chunked_head_def crlf_def http_eval number_eval getFinalTransferEncoding_def
      isChunkedComplete_def chunked_length.simps chunk_step_def parseChunked_def parse_chunks.simps is_hex_digit_def)

lemma with_trailer_parsed: "request_parse with_trailer = Inl UndefinedAccess"
  by (simp add: with_trailer_def chunked_head_def crlf_def http_eval number_eval getFinalTransferEncoding_def
      isChunkedComplete_def chunked_length.simps chunk_step_def parseChunked_def parse_chunks.simps is_hex_digit_def
      parse_trailers.simps not_in_trailers_def)

text \<open>An exception that the loop does not know leaves it, and the thread of the sockets with it.\<close>

lemma uncaught:
  assumes "request_parse d = Inl e" "e \<noteq> NotCompleteException" "error_status e = None"
    "hs_buffers s i = Some []" "d \<noteq> []" "length d \<le> MAX_PAYLOAD_SIZE"
  shows "onDataReceived ev i d s = Some (Inl e, s\<lparr>hs_buffers := (hs_buffers s)(i \<mapsto> d)\<rparr>)"
  using assms by (simp add: onDataReceived_def receive_loop.simps [of ev i "_\<lparr>hs_buffers := _\<rparr>"])

text \<open>The answer to data that is not a request.\<close>

definition plain_error :: "int \<Rightarrow> string \<Rightarrow> HttpResponse" where
  "plain_error status msg = \<lparr>hp_version = HTTP_1_1, hp_status = status,
     hp_headers = [(''Content-Type'', [''text/html'']), (''Connection'', [''close''])],
     hp_body = error_page (to_string (nat status) @ '' '' @ msg)\<rparr>"

lemma getError_plain: "map_of STATUS_CODE_MSG status = Some msg \<Longrightarrow> getError HTTP_1_1 status = Inr (plain_error status msg)"
  by (simp add: getError_def plain_error_def empty_response_def setHeader_def update_at_def insert_new_def Let_def)

lemma error_status_known: "error_status e = Some status \<Longrightarrow> \<exists>msg. map_of STATUS_CODE_MSG status = Some msg"
  by (auto simp: error_status_def STATUS_CODE_MSG_def split: exn.splits)

definition answered_error :: "('a, 'r) HttpEnv \<Rightarrow> u32 \<Rightarrow> int \<Rightarrow> ('a, 'h, 'r) HttpServer \<Rightarrow> ('a, 'h, 'r) HttpServer" where
  "answered_error ev i status s =
     (let msg = (case map_of STATUS_CODE_MSG status of Some m \<Rightarrow> m | None \<Rightarrow> []);
          r = plain_error status msg
      in close_socket ev i (send_to i (response_head r msg @ hp_body r) s))"

lemma sendError_answers:
  assumes "error_status e = Some status" "hs_errorPages s ''*'' = None"
  shows "sendError ev i status s = (Inr (), answered_error ev i status s)"
proof -
  obtain msg where msg: "map_of STATUS_CODE_MSG status = Some msg" using error_status_known [OF assms(1)] by blast
  have "response_serialize (plain_error status msg) = Inr (response_head (plain_error status msg) msg @ hp_body (plain_error status msg))"
    using msg by (simp add: response_serialize_def plain_error_def)
  then show ?thesis
    using msg assms(2) getError_plain [OF msg]
    by (simp add: sendError_def sendError_request_def empty_request_def first_value_def answered_error_def Let_def)
qed

text \<open>
  The answer to a malformed request is sent, the connection is closed; and if it closes at once, the loop
  looks into the buffer that is no longer there.
\<close>

lemma malformed_answered:
  assumes "request_parse (b @ d) = Inl e" "error_status e = Some status" "hs_errorPages s ''*'' = None"
    "hs_buffers s i = Some b" "d \<noteq> []" "length b + length d \<le> MAX_PAYLOAD_SIZE"
  shows "onDataReceived ev i d s =
    Some (if rx_closes ev i then Inl UndefinedAccess else Inr (),
      answered_error ev i status (s\<lparr>hs_buffers := (hs_buffers s)(i \<mapsto> b @ d)\<rparr>))"
proof -
  let ?s = "s\<lparr>hs_buffers := (hs_buffers s)(i \<mapsto> b @ d)\<rparr>"
  have "e \<noteq> NotCompleteException" using assms(2) by (auto simp: error_status_def)
  moreover have "hs_buffers (answered_error ev i status ?s) i = None \<longleftrightarrow> rx_closes ev i"
    by (simp add: answered_error_def close_socket_def send_to_def onClose_def Let_def)
  ultimately have "receive_loop ev i ?s =
      Some (if rx_closes ev i then Inl UndefinedAccess else Inr (), answered_error ev i status ?s)"
    using assms sendError_answers [OF assms(2), of ?s ev i] by (subst receive_loop.simps) simp
  then show ?thesis using assms(4-6) by (simp add: onDataReceived_def)
qed

section \<open>Routes\<close>

text \<open>A path that is registered for the host is preferred to its expressions, and those to the general routes.\<close>

lemma route_exact:
  "first_value (hq_headers r) ''host'' = Some host \<Longrightarrow>
    route ev r (registerRoute host (hq_path r) h s) = Some h"
  by (simp add: route_def host_handler_def registerRoute_def)

lemma not_found:
  assumes "hs_queue s = (i, r) # rest" "hs_clients s i = Some a" "route ev r s = None"
    "hs_errorPages s = Map.empty"
  shows "\<exists>d s'. handle_front ev s = (Inr (), s') \<and> hs_sent s' = hs_sent s @ [(i, d)] \<and> hs_queue s' = rest \<and>
    hs_closing s' = hs_closing s @ [i]"
proof -
  have same: "(hs_clients s)(i \<mapsto> a) = hs_clients s" using assms(2) by (simp add: fun_upd_idem)
  have "host_handler ev host path (s\<lparr>hs_queue := rest\<rparr>) = host_handler ev host path s" for host path
    by (simp add: host_handler_def cong: option.case_cong)
  then have r: "route ev r (s\<lparr>hs_queue := rest\<rparr>) = None" using assms(3) by (simp add: route_def cong: option.case_cong)
  have msg: "map_of STATUS_CODE_MSG 404 = Some ''Not Found''" by (simp add: STATUS_CODE_MSG_def)
  then obtain d where "bindE (getError (hq_version r) 404) response_serialize = Inr d"
    by (cases "hq_version r") (auto simp: getError_def response_serialize_def empty_response_def Let_def)
  then show ?thesis
    using assms r same
    by (auto simp: handle_front_def Let_def sendError_request_def send_to_def close_socket_def onClose_def split: option.splits)
qed

section \<open>A server with a connection\<close>

definition ex_http_env :: "(nat, nat) HttpEnv" where
  "ex_http_env = \<lparr>rx_match = (\<lambda>_ _. False), rx_closes = (\<lambda>_. True), rx_noClient = 0\<rparr>"

definition ex_http_server :: "(nat, nat, nat) HttpServer" where
  "ex_http_server = onAccept 1 7 http_server"

definition ex_http_request :: HttpRequest where
  "ex_http_request = \<lparr>hq_method = M_POST, hq_version = HTTP_1_1, hq_path = ''/v1/a b'', hq_query = [(''k'', ''1+1'')],
     hq_headers = [(''host'', [''h''])], hq_body = ''xyz''\<rparr>"

lemma ex_http_request_short: "length (request_serialize ex_http_request) \<le> 200"
  by (simp add: ex_http_request_def request_serialize_def request_head_def percentEncode_def reserved_def
      query_param_def kept_headers_def header_lines_def length_line_def crlf_def to_string.simps)

lemma ex_http_request_ok: "http_request_ok ex_http_request"
proof -
  have "length (request_serialize ex_http_request) < 2 ^ 64" using ex_http_request_short by simp
  then show ?thesis
    by (simp add: http_request_ok_def) (simp add: ex_http_request_def path_ok_def query_ok_def header_ok_def value_ok_def
        printable_def char_code_def to_lower_def)
qed

end
