(* ===== verification/Bfres.thy ===== *)
theory Bfres
  imports Byaml
begin

text \<open>
  The archives of \<^verbatim>\<open>src/boss/bfres/bfres.cpp\<close>: subfiles of twelve types, filed under their names, with an
  index per type that is a radix tree over the bits of the names. A subfile is the object of functions
  that the abstract class \<^verbatim>\<open>Subfile\<close> asks for. \<^verbatim>\<open>std::optional::value\<close> without a value throws, which is
  \<open>LogicError\<close> here.
\<close>

section \<open>Nodes\<close>

record 'f Node =
  searchValue :: u32
  leftIdx :: u16
  rightIdx :: u16
  node_key :: "string option"
  node_file :: "'f option"

definition Node_init :: "'f Node" where
  "Node_init = \<lparr>searchValue = 0, leftIdx = 0, rightIdx = 0, node_key = None, node_file = None\<rparr>"

definition read_at :: "'a list \<Rightarrow> nat \<Rightarrow> 'a result" where
  "read_at xs i = (if i < length xs then Inr (xs ! i) else Inl UndefinedAccess)"

definition optional_value :: "'a option \<Rightarrow> 'a result" where
  "optional_value x = (case x of None \<Rightarrow> Inl LogicError | Some a \<Rightarrow> Inr a)"

section \<open>The radix tree\<close>

text \<open>A bit of the name; the bits behind its end are zero.\<close>

definition getRadixTreeDirection :: "string \<Rightarrow> u32 \<Rightarrow> nat" where
  "getRadixTreeDirection key sv =
     (if length key \<le> unat (drop_bit 3 sv) then 0
      else if bit (byte_of_char (key ! unat (drop_bit 3 sv))) (unat (sv AND 7)) then 1 else 0)"

definition next_index :: "string \<Rightarrow> 'f Node \<Rightarrow> nat" where
  "next_index key n = unat (if getRadixTreeDirection key (searchValue n) = 0 then leftIdx n else rightIdx n)"

text \<open>Down the tree, until a link leads up again. The search values fall on the way.\<close>

function descend :: "'f Node list \<Rightarrow> string \<Rightarrow> nat \<Rightarrow> nat \<Rightarrow> nat result" where
  "descend ns key parent child =
     bindE (read_at ns parent) (\<lambda>p. bindE (read_at ns child) (\<lambda>c.
       if searchValue c < searchValue p then descend ns key child (next_index key c) else Inr child))"
  by pat_completeness auto
termination
  by (relation "measure (\<lambda>(ns, key, parent, child). unat (searchValue (ns ! parent)))")
     (auto simp: read_at_def word_less_nat_alt split: if_splits)

text \<open>The highest bit, from \<open>sv\<close> down, in which two names differ.\<close>

function differing :: "string \<Rightarrow> string \<Rightarrow> u32 \<Rightarrow> u32 result" where
  "differing a b sv =
     (if getRadixTreeDirection a sv = getRadixTreeDirection b sv
      then if sv = 0 then Inl RuntimeError else differing a b (sv - 1)
      else Inr sv)"
  by pat_completeness auto
termination
  by (relation "measure (\<lambda>(a, b, sv). unat sv)") (auto simp: unat_minus_one unat_gt_0)

text \<open>The edge under which a node with the search value \<open>sv\<close> belongs.\<close>

function descend_to :: "'f Node list \<Rightarrow> string \<Rightarrow> u32 \<Rightarrow> nat \<Rightarrow> nat \<Rightarrow> (nat \<times> nat) result" where
  "descend_to ns key sv parent child =
     bindE (read_at ns parent) (\<lambda>p. bindE (read_at ns child) (\<lambda>c.
       if searchValue c < searchValue p \<and> sv < searchValue c
       then descend_to ns key sv child (next_index key c) else Inr (parent, child)))"
  by pat_completeness auto
termination
  by (relation "measure (\<lambda>(ns, key, sv, parent, child). unat (searchValue (ns ! parent)))")
     (auto simp: read_at_def word_less_nat_alt split: if_splits)

definition link_new :: "string \<Rightarrow> u32 \<Rightarrow> nat \<Rightarrow> nat \<Rightarrow> 'f Node \<Rightarrow> 'f Node" where
  "link_new key sv i child n =
     (if getRadixTreeDirection key sv = 0 then n\<lparr>leftIdx := of_nat i, rightIdx := of_nat child\<rparr>
      else n\<lparr>leftIdx := of_nat child, rightIdx := of_nat i\<rparr>)"

definition relink :: "string \<Rightarrow> nat \<Rightarrow> 'f Node \<Rightarrow> 'f Node" where
  "relink key i p =
     (if getRadixTreeDirection key (searchValue p) = 0 then p\<lparr>leftIdx := of_nat i\<rparr> else p\<lparr>rightIdx := of_nat i\<rparr>)"

definition insert_node :: "nat \<Rightarrow> 'f Node list \<Rightarrow> 'f Node list result" where
  "insert_node i ns =
     bindE (read_at ns i) (\<lambda>current. bindE (optional_value (node_key current)) (\<lambda>key.
     bindE (read_at ns 0) (\<lambda>root. bindE (descend ns key 0 (unat (leftIdx root))) (\<lambda>closest.
     bindE (read_at ns closest) (\<lambda>c. bindE (optional_value (node_key c)) (\<lambda>other.
     bindE (differing other key (of_nat (max (length key) (length other)) * 8)) (\<lambda>sv.
     let ns = ns[i := current\<lparr>searchValue := sv\<rparr>] in
     bindE (read_at ns 0) (\<lambda>root. bindE (descend_to ns key sv 0 (unat (leftIdx root))) (\<lambda>(parent, child).
     let ns = ns[i := link_new key sv i child (ns ! i)] in
     bindE (read_at ns parent) (\<lambda>p. Inr (ns[parent := relink key i p])))))))))))"

primrec insert_nodes :: "nat list \<Rightarrow> 'f Node list \<Rightarrow> 'f Node list result" where
  "insert_nodes [] ns = Inr ns"
| "insert_nodes (i # is) ns = bindE (insert_node i ns) (insert_nodes is)"

definition buildRadixTree :: "'f Node list \<Rightarrow> 'f Node list result" where
  "buildRadixTree ns =
     bindE (read_at ns 0) (\<lambda>_.
     bindE (insert_nodes [1..<length ns] (ns[0 := Node_init\<lparr>searchValue := 0xFFFFFFFF, node_key := Some ''''\<rparr>])) (\<lambda>ns.
     Inr (ns[0 := (ns ! 0)\<lparr>node_key := None\<rparr>])))"

end
