(* ===== verification/BfresTree.thy ===== *)
theory BfresTree
  imports Bfres
begin

text \<open>
  The index of an archive finds its files: the links form a tree whose forks test one bit each, with
  falling positions, and whose leaves are links up to the nodes themselves; looking a name up ends at
  its node. The tree is made explicit, and inserting a node is followed on it.
\<close>

declare descend.simps [simp del] differing.simps [simp del] descend_to.simps [simp del]

section \<open>Bits of names\<close>

definition key_bit :: "string \<Rightarrow> nat \<Rightarrow> bool" where
  "key_bit key n \<longleftrightarrow> n div 8 < length key \<and> bit (byte_of_char (key ! (n div 8))) (n mod 8)"

lemma direction: "getRadixTreeDirection key sv = (if key_bit key (unat sv) then 1 else 0)"
proof -
  have "unat (drop_bit 3 sv) = unat sv div 8" unfolding unat_drop_bit_eq by (simp add: drop_bit_eq_div)
  moreover have "sv AND 7 = take_bit 3 sv" by (simp add: take_bit_eq_mask mask_eq_exp_minus_1)
  then have "unat (sv AND 7) = unat sv mod 8" by (simp only: unsigned_take_bit_eq) (simp add: take_bit_eq_mod)
  ultimately show ?thesis by (auto simp: getRadixTreeDirection_def key_bit_def)
qed

lemma key_bit_end:
  assumes "8 * length key \<le> n"
  shows "\<not> key_bit key n"
proof -
  have "length key \<le> n div 8" using assms by linarith
  then show ?thesis by (simp add: key_bit_def)
qed

lemma highest_difference:
  assumes "n \<le> unat sv" and "key_bit a n \<noteq> key_bit b n"
  obtains s where "differing a b sv = Inr s" "unat s \<le> unat sv" "key_bit a (unat s) \<noteq> key_bit b (unat s)"
    "\<forall>m. unat s < m \<and> m \<le> unat sv \<longrightarrow> key_bit a m = key_bit b m"
proof -
  have "\<exists>s. differing a b sv = Inr s \<and> unat s \<le> unat sv \<and> key_bit a (unat s) \<noteq> key_bit b (unat s) \<and>
      (\<forall>m. unat s < m \<and> m \<le> unat sv \<longrightarrow> key_bit a m = key_bit b m)"
    using assms
  proof (induction a b sv rule: differing.induct)
    case (1 a b sv)
    show ?case
    proof (cases "key_bit a (unat sv) = key_bit b (unat sv)")
      case False
      then show ?thesis by (subst differing.simps) (auto simp: direction)
    next
      case True
      then have "n \<noteq> unat sv" using "1.prems"(2) by auto
      with "1.prems"(1) have pos: "sv \<noteq> 0" and less: "n < unat sv" by auto
      then have minus: "unat (sv - 1) = unat sv - 1" by (simp add: unat_minus_one)
      have "differing a b sv = differing a b (sv - 1)" using True pos by (subst differing.simps) (simp add: direction)
      moreover have dir: "getRadixTreeDirection a sv = getRadixTreeDirection b sv" using True by (simp add: direction)
      have "n \<le> unat (sv - 1)" using less minus by simp
      from "1.IH" [OF dir pos this "1.prems"(2)]
      obtain s where s: "differing a b (sv - 1) = Inr s" "unat s \<le> unat (sv - 1)"
        "key_bit a (unat s) \<noteq> key_bit b (unat s)" "\<forall>m. unat s < m \<and> m \<le> unat (sv - 1) \<longrightarrow> key_bit a m = key_bit b m"
        by blast
      moreover have "key_bit a m = key_bit b m" if "unat s < m" "m \<le> unat sv" for m
        using that s(4) True minus by (cases "m = unat sv") auto
      ultimately show ?thesis using s minus by (intro exI [of _ s]) auto
    qed
  qed
  then show thesis using that by blast
qed

text \<open>Names without the null character differ in a bit.\<close>

lemma key_bits_differ:
  assumes "a \<noteq> b" and "CHR 0x00 \<notin> set a" "CHR 0x00 \<notin> set b"
  obtains n where "key_bit a n \<noteq> key_bit b n"
proof -
  have "\<exists>n. key_bit a n \<noteq> key_bit b n"
  proof (rule ccontr)
    assume "\<nexists>n. key_bit a n \<noteq> key_bit b n"
    then have same: "key_bit a n = key_bit b n" for n by blast
    have byte: "(i < length x \<and> bit (byte_of_char (x ! i)) j) = key_bit x (8 * i + j)" if "j < 8" for x i j
      using that by (simp add: key_bit_def)
    have "byte_of_char (CHR 0x00) = 0" by (simp add: byte_of_char_def)
    then have byte_zero: "byte_of_char c = 0 \<Longrightarrow> c = CHR 0x00" for c by (metis char_of_byte_of_char)
    have longer: "i < length y" if "i < length x" "CHR 0x00 \<notin> set x" "\<And>n. key_bit x n = key_bit y n" for x y i
    proof -
      have "byte_of_char (x ! i) \<noteq> 0" using that(1,2) nth_mem byte_zero by metis
      then obtain j where j: "bit (byte_of_char (x ! i)) j" by (metis bit_eq_iff bit_0_eq bot_apply bot_bool_def)
      then have "j < 8" using bit_imp_le_length by fastforce
      then show ?thesis using byte [of j i x] byte [of j i y] that(1,3) j by metis
    qed
    have "length a = length b"
      using longer [of _ a b] longer [of _ b a] assms(2,3) same by (metis linorder_neqE_nat nat_less_le)
    moreover have "a ! i = b ! i" if "i < length a" for i
    proof -
      have "bit (byte_of_char (a ! i)) j = bit (byte_of_char (b ! i)) j" for j
      proof (cases "j < 8")
        case True
        then show ?thesis using byte [OF True, of i a] byte [OF True, of i b] same that \<open>length a = length b\<close> by metis
      next
        case False
        then show ?thesis using bit_imp_le_length by fastforce
      qed
      then have "byte_of_char (a ! i) = byte_of_char (b ! i)" by (simp add: bit_eq_iff)
      then show ?thesis by (metis char_of_byte_of_char)
    qed
    ultimately show False using assms(1) by (simp add: list_eq_iff_nth_eq)
  qed
  then show thesis using that by blast
qed

section \<open>The tree\<close>

datatype radix = Up nat | Fork nat radix radix

definition sv_of :: "'f Node list \<Rightarrow> nat \<Rightarrow> nat" where
  "sv_of ns i = unat (searchValue (ns ! i))"

definition name_of :: "'f Node list \<Rightarrow> nat \<Rightarrow> string" where
  "name_of ns i = (case node_key (ns ! i) of None \<Rightarrow> [] | Some k \<Rightarrow> k)"

text \<open>The link that a name takes.\<close>

definition link :: "'f Node list \<Rightarrow> nat \<Rightarrow> bool \<Rightarrow> nat" where
  "link ns i b = unat (if b then rightIdx (ns ! i) else leftIdx (ns ! i))"

primrec ups :: "radix \<Rightarrow> nat set" where
  "ups (Up k) = {k}"
| "ups (Fork k l r) = ups l \<union> ups r"

primrec forks :: "radix \<Rightarrow> nat set" where
  "forks (Up k) = {}"
| "forks (Fork k l r) = insert k (forks l \<union> forks r)"

primrec linear :: "radix \<Rightarrow> bool" where
  "linear (Up k) \<longleftrightarrow> True"
| "linear (Fork k l r) \<longleftrightarrow> k \<notin> forks l \<union> forks r \<and> forks l \<inter> forks r = {} \<and> linear l \<and> linear r"

primrec shape :: "'f Node list \<Rightarrow> nat \<Rightarrow> nat \<Rightarrow> radix \<Rightarrow> bool" where
  "shape ns p c (Up k) \<longleftrightarrow> k = c \<and> c < length ns \<and> sv_of ns p \<le> sv_of ns c"
| "shape ns p c (Fork k l r) \<longleftrightarrow> k = c \<and> c < length ns \<and> sv_of ns c < sv_of ns p \<and>
     shape ns c (link ns c False) l \<and> shape ns c (link ns c True) r"

definition agree :: "'f Node list \<Rightarrow> nat \<Rightarrow> nat set \<Rightarrow> bool" where
  "agree ns n A \<longleftrightarrow> (\<forall>a \<in> A. \<forall>b \<in> A. \<forall>m > n. key_bit (name_of ns a) m = key_bit (name_of ns b) m)"

primrec radix_ok :: "'f Node list \<Rightarrow> radix \<Rightarrow> bool" where
  "radix_ok ns (Up k) \<longleftrightarrow> True"
| "radix_ok ns (Fork k l r) \<longleftrightarrow> (\<forall>j \<in> ups l. \<not> key_bit (name_of ns j) (sv_of ns k)) \<and>
     (\<forall>j \<in> ups r. key_bit (name_of ns j) (sv_of ns k)) \<and> agree ns (sv_of ns k) (ups l \<union> ups r) \<and>
     radix_ok ns l \<and> radix_ok ns r"

primrec walk :: "'f Node list \<Rightarrow> string \<Rightarrow> radix \<Rightarrow> nat" where
  "walk ns key (Up k) = k"
| "walk ns key (Fork k l r) = (if key_bit key (sv_of ns k) then walk ns key r else walk ns key l)"

primrec edge :: "'f Node list \<Rightarrow> string \<Rightarrow> nat \<Rightarrow> nat \<Rightarrow> radix \<Rightarrow> nat \<times> nat" where
  "edge ns key s p (Up k) = (p, k)"
| "edge ns key s p (Fork k l r) =
     (if s < sv_of ns k then (if key_bit key (sv_of ns k) then edge ns key s k r else edge ns key s k l)
      else (p, k))"

definition new_fork :: "string \<Rightarrow> nat \<Rightarrow> nat \<Rightarrow> radix \<Rightarrow> radix" where
  "new_fork key s i t = (if key_bit key s then Fork i t (Up i) else Fork i (Up i) t)"

primrec insert_at :: "'f Node list \<Rightarrow> string \<Rightarrow> nat \<Rightarrow> nat \<Rightarrow> radix \<Rightarrow> radix" where
  "insert_at ns key s i (Up k) = new_fork key s i (Up k)"
| "insert_at ns key s i (Fork k l r) =
     (if s < sv_of ns k
      then if key_bit key (sv_of ns k) then Fork k l (insert_at ns key s i r) else Fork k (insert_at ns key s i l) r
      else new_fork key s i (Fork k l r))"

lemma walk_up: "walk ns key t \<in> ups t"
  by (induction t) auto

lemma walk_self: "radix_ok ns t \<Longrightarrow> j \<in> ups t \<Longrightarrow> walk ns (name_of ns j) t = j"
  by (induction t) auto

lemma ups_insert: "ups (insert_at ns key s i t) = insert i (ups t)"
  by (induction t) (auto simp: new_fork_def)

lemma forks_insert: "forks (insert_at ns key s i t) = insert i (forks t)"
  by (induction t) (auto simp: new_fork_def)

lemma linear_insert: "linear t \<Longrightarrow> i \<notin> forks t \<Longrightarrow> linear (insert_at ns key s i t)"
  by (induction t) (auto simp: new_fork_def forks_insert)

lemma next_link: "next_index key (ns ! k) = link ns k (key_bit key (sv_of ns k))"
  by (simp add: next_index_def link_def direction sv_of_def)

lemma shape_length: "shape ns p c t \<Longrightarrow> c < length ns"
  by (cases t) auto

lemma ups_length: "shape ns p c t \<Longrightarrow> ups t \<subseteq> {..<length ns}"
  by (induction t arbitrary: p c) (simp, simp, blast)

text \<open>The loops of the code follow the tree.\<close>

lemma descend_walk: "shape ns p c t \<Longrightarrow> p < length ns \<Longrightarrow> descend ns key p c = Inr (walk ns key t)"
proof (induction t arbitrary: p c)
  case (Up k)
  then show ?case by (subst descend.simps) (simp add: read_at_def sv_of_def word_less_nat_alt)
next
  case (Fork k l r)
  then have "descend ns key p c = descend ns key k (link ns k (key_bit key (sv_of ns k)))"
    by (subst descend.simps) (simp add: read_at_def next_link [unfolded sv_of_def] sv_of_def word_less_nat_alt)
  with Fork show ?case by (cases "key_bit key (sv_of ns k)") auto
qed

lemma descend_to_edge:
  "shape ns p c t \<Longrightarrow> p < length ns \<Longrightarrow> descend_to ns key sv p c = Inr (edge ns key (unat sv) p t)"
proof (induction t arbitrary: p c)
  case (Up k)
  then show ?case by (subst descend_to.simps) (simp add: read_at_def sv_of_def word_less_nat_alt)
next
  case (Fork k l r)
  show ?case
  proof (cases "unat sv < sv_of ns k")
    case True
    with Fork have "descend_to ns key sv p c = descend_to ns key sv k (link ns k (key_bit key (sv_of ns k)))"
      by (subst descend_to.simps) (simp add: read_at_def next_link [unfolded sv_of_def] sv_of_def word_less_nat_alt)
    with Fork True show ?thesis by (cases "key_bit key (sv_of ns k)") auto
  next
    case False
    with Fork show ?thesis
      by (subst descend_to.simps) (simp add: read_at_def sv_of_def word_less_nat_alt)
  qed
qed

lemma edge_parent: "fst (edge ns key s p t) \<in> insert p (forks t)"
  by (induction t arbitrary: p) auto

section \<open>Inserting\<close>

text \<open>Nothing that the tree depends on changes.\<close>

lemma shape_same:
  assumes "shape ns p c t" and "length ns' = length ns"
    and "\<forall>j \<in> insert p (forks t \<union> ups t). sv_of ns' j = sv_of ns j"
    and "\<forall>j \<in> forks t. \<forall>b. link ns' j b = link ns j b"
  shows "shape ns' p c t"
  using assms
proof (induction t arbitrary: p c)
  case (Fork k l r)
  have "shape ns' k (link ns k False) l" by (rule Fork.IH(1)) (use Fork.prems in auto)
  moreover have "shape ns' k (link ns k True) r" by (rule Fork.IH(2)) (use Fork.prems in auto)
  ultimately show ?case using Fork.prems by simp
qed auto

text \<open>What an insertion changes in the nodes: the new one, and one link of the parent.\<close>

definition inserted :: "'f Node list \<Rightarrow> 'f Node list \<Rightarrow> string \<Rightarrow> nat \<Rightarrow> nat \<Rightarrow> nat \<Rightarrow> nat \<Rightarrow> bool" where
  "inserted ns ns' key s i P C \<longleftrightarrow> length ns' = length ns \<and> P \<noteq> i \<and> sv_of ns' i = s \<and>
     (\<forall>j. j \<noteq> i \<longrightarrow> sv_of ns' j = sv_of ns j) \<and>
     (\<forall>b. link ns' i b = (if b = key_bit key s then i else C)) \<and>
     (\<forall>b. link ns' P b = (if b = key_bit key (sv_of ns P) then i else link ns P b)) \<and>
     (\<forall>j b. j \<noteq> i \<and> j \<noteq> P \<longrightarrow> link ns' j b = link ns j b)"

lemma insert_shape:
  assumes "shape ns p c t" and "linear t" and "radix_ok ns t" and "i \<notin> forks t \<union> ups t" and "p \<notin> forks t" and "p \<noteq> i"
    and "s < sv_of ns p" and "i < length ns" and "edge ns key s p t = (P, C)" and "inserted ns ns' key s i P C"
    and "key_bit key s \<noteq> key_bit (name_of ns (walk ns key t)) s"
  shows "shape ns' p (if P = p then i else c) (insert_at ns key s i t)"
  using assms
proof (induction t arbitrary: p c)
  case (Up k)
  then show ?case by (auto simp: new_fork_def inserted_def)
next
  case (Fork k l r)
  note ins = Fork.prems(10) [unfolded inserted_def]
  have k: "k \<noteq> i" "k \<noteq> p" "k = c" "c < length ns" "sv_of ns c < sv_of ns p" using Fork.prems by auto
  show ?case
  proof (cases "s < sv_of ns k")
    case True
    let ?sub = "if key_bit key (sv_of ns k) then r else l" and ?other = "if key_bit key (sv_of ns k) then l else r"
    let ?b = "key_bit key (sv_of ns k)"
    have e: "edge ns key s k ?sub = (P, C)" using Fork.prems(9) True by auto
    then have P: "P \<in> insert k (forks ?sub)" using edge_parent [of ns key s k ?sub] by simp
    have lin: "P \<notin> forks ?other" "P \<noteq> p" using P Fork.prems(2,5) by (auto split: if_splits)
    have sub: "shape ns' k (if P = k then i else link ns k ?b) (insert_at ns key s i ?sub)"
      using Fork.IH(1) [of k "link ns k False"] Fork.IH(2) [of k "link ns k True"] Fork.prems True e k by auto
    have "shape ns' k (link ns k (\<not> ?b)) ?other"
    proof (rule shape_same)
      show "shape ns k (link ns k (\<not> ?b)) ?other" using Fork.prems(1) by auto
      show "length ns' = length ns" using ins by simp
      have "i \<notin> insert k (forks ?other \<union> ups ?other)" using Fork.prems(4) by auto
      then show "\<forall>j \<in> insert k (forks ?other \<union> ups ?other). sv_of ns' j = sv_of ns j" using ins by metis
      have "i \<notin> forks ?other" using Fork.prems(4) by auto
      then show "\<forall>j \<in> forks ?other. \<forall>b. link ns' j b = link ns j b" using ins lin(1) by metis
    qed
    moreover have "link ns' k ?b = (if P = k then i else link ns k ?b)" "link ns' k (\<not> ?b) = link ns k (\<not> ?b)"
      using ins k(1) by (cases "P = k"; auto)+
    ultimately show ?thesis using sub True lin(2) ins k Fork.prems(6) by (cases ?b) auto
  next
    case False
    have "walk ns key (Fork k l r) \<in> ups (if key_bit key (sv_of ns k) then r else l)" using walk_up by auto
    then have "sv_of ns k \<noteq> s" using Fork.prems(3,11) by (auto split: if_splits)
    then have less: "sv_of ns k < s" using False by simp
    have P: "P = p" "C = k" using Fork.prems(9) False by auto
    have "shape ns' i k (Fork k l r)"
    proof -
      have away: "\<forall>j \<in> insert k (forks u \<union> ups u). sv_of ns' j = sv_of ns j" "\<forall>j \<in> forks u. \<forall>b. link ns' j b = link ns j b"
        if "u = l \<or> u = r" for u
      proof -
        have "i \<notin> insert k (forks u \<union> ups u)" "P \<notin> forks u" using that Fork.prems(4,5) P k by auto
        then show "\<forall>j \<in> insert k (forks u \<union> ups u). sv_of ns' j = sv_of ns j" "\<forall>j \<in> forks u. \<forall>b. link ns' j b = link ns j b"
          using ins by (metis, metis Un_iff insertCI)
      qed
      have "shape ns k (link ns k False) l" "shape ns k (link ns k True) r" using Fork.prems(1) by simp_all
      then have "shape ns' k (link ns k False) l" "shape ns' k (link ns k True) r"
        using away ins by (blast intro: shape_same)+
      moreover have "link ns' k b = link ns k b" for b using ins P k by auto
      ultimately show ?thesis using less ins k by simp
    qed
    moreover have "shape ns' i i (Up i)" using ins Fork.prems(8) by simp
    ultimately show ?thesis using False P ins Fork.prems(7,8) k by (auto simp: new_fork_def)
  qed
qed

lemma insert_ok:
  assumes "radix_ok ns t" and "sv_of ns' i = s" and "\<forall>j. j \<noteq> i \<longrightarrow> sv_of ns' j = sv_of ns j"
    and "\<forall>j. name_of ns' j = name_of ns j" and "name_of ns i = key" and "i \<notin> forks t"
    and "key_bit key s \<noteq> key_bit (name_of ns (walk ns key t)) s"
    and "\<forall>m > s. key_bit key m = key_bit (name_of ns (walk ns key t)) m"
  shows "radix_ok ns' (insert_at ns key s i t)"
proof -
  have same: "radix_ok ns' u" if "radix_ok ns u" "i \<notin> forks u" for u
    using that
  proof (induction u)
    case (Fork k l r)
    have "name_of ns' = name_of ns" using assms(4) by (simp add: fun_eq_iff)
    moreover from this have "agree ns' n A = agree ns n A" for n A by (simp add: agree_def)
    moreover have "sv_of ns' k = sv_of ns k" using assms(3) Fork.prems(2) by simp
    ultimately show ?case using Fork by simp
  qed simp
  show ?thesis
    using assms
  proof (induction t)
    case (Up k)
    then show ?case by (auto simp: new_fork_def agree_def)
  next
    case (Fork k l r)
    let ?w = "walk ns key (Fork k l r)"
    have w: "?w \<in> ups (Fork k l r)" by (rule walk_up)
    have all: "agree ns (sv_of ns k) (ups l \<union> ups r)" using Fork.prems(1) by simp
    show ?case
    proof (cases "s < sv_of ns k")
      case True
      have "agree ns' (sv_of ns k) (insert i (ups l \<union> ups r))"
      proof -
        have "key_bit (name_of ns' a) m = key_bit (name_of ns ?w) m"
          if "a \<in> insert i (ups l \<union> ups r)" "sv_of ns k < m" for a m
        proof (cases "a = i")
          case True
          then show ?thesis using that \<open>s < sv_of ns k\<close> Fork.prems(4,5,8) by (metis less_trans)
        next
          case False
          then show ?thesis using that all w Fork.prems(4) unfolding agree_def by (metis insertE ups.simps(2))
        qed
        then show ?thesis by (simp add: agree_def)
      qed
      moreover have "sv_of ns' k = sv_of ns k" using Fork.prems(3,6) by auto
      ultimately show ?thesis
        using Fork True same by (cases "key_bit key (sv_of ns k)") (auto simp: ups_insert)
    next
      case False
      have "?w \<in> ups (if key_bit key (sv_of ns k) then r else l)" using walk_up by auto
      then have "sv_of ns k \<noteq> s" using Fork.prems(1,7) by (auto split: if_splits)
      then have less: "sv_of ns k < s" using False by simp
      have bits: "key_bit (name_of ns j) m = key_bit (name_of ns ?w) m" if "j \<in> ups (Fork k l r)" "s \<le> m" for j m
        using all w that less unfolding agree_def by (metis less_le_trans ups.simps(2))
      have "key_bit (name_of ns' a) m = key_bit (name_of ns ?w) m" if "a \<in> insert i (ups (Fork k l r))" "s < m" for a m
        using that bits [of a m] Fork.prems(4,5,8) by (metis insertE less_imp_le)
      then have "agree ns' s (insert i (ups (Fork k l r)))" by (simp add: agree_def)
      then show ?thesis
        using same [OF Fork.prems(1,6)] bits [of _ s] Fork.prems(2,4,5,7) False
        by (auto simp: new_fork_def simp del: walk.simps)
    qed
  qed
qed

section \<open>Building\<close>

definition tree_inv :: "nat \<Rightarrow> 'f Node list \<Rightarrow> radix \<Rightarrow> bool" where
  "tree_inv m ns t \<longleftrightarrow> shape ns 0 (link ns 0 False) t \<and> linear t \<and> radix_ok ns t \<and> ups t = {..<m} \<and>
     forks t \<subseteq> {1..<m} \<and> 0 < m \<and> m \<le> length ns \<and> sv_of ns 0 = 2 ^ 32 - 1 \<and> node_key (ns ! 0) = Some []"

text \<open>Names that an archive can hold: no two are equal, none is empty or has a null character in it.\<close>

definition names_ok :: "'f Node list \<Rightarrow> bool" where
  "names_ok ns \<longleftrightarrow> length ns \<le> 2 ^ 16 \<and> distinct (map node_key (tl ns)) \<and>
     list_all (\<lambda>n. case node_key n of None \<Rightarrow> False
       | Some k \<Rightarrow> k \<noteq> [] \<and> CHR 0x00 \<notin> set k \<and> length k < 2 ^ 28) (tl ns)"

definition same_names :: "'f Node list \<Rightarrow> 'f Node list \<Rightarrow> bool" where
  "same_names ns ns' \<longleftrightarrow> length ns' = length ns \<and> (\<forall>j < length ns. node_key (ns' ! j) = node_key (ns ! j) \<and>
     node_file (ns' ! j) = node_file (ns ! j))"

lemma names_okD:
  assumes "names_ok ns" and "0 < i" "i < length ns"
  obtains k where "node_key (ns ! i) = Some k" "k \<noteq> []" "CHR 0x00 \<notin> set k" "length k < 2 ^ 28"
    "\<forall>j. 0 < j \<and> j < length ns \<and> j \<noteq> i \<longrightarrow> node_key (ns ! j) \<noteq> Some k"
proof -
  obtain i' where i': "i = Suc i'" using assms(2) by (cases i) auto
  have nth: "tl ns ! j = ns ! Suc j" if "Suc j < length ns" for j using that by (simp add: nth_tl)
  have "tl ns ! i' \<in> set (tl ns)" using assms(3) i' by (intro nth_mem) simp
  with assms(1) obtain k where k: "node_key (ns ! i) = Some k" "k \<noteq> []" "CHR 0x00 \<notin> set k" "length k < 2 ^ 28"
    using nth [of i'] assms(3) i' by (auto simp: names_ok_def list_all_iff split: option.splits)
  have "node_key (ns ! j) \<noteq> Some k" if j: "0 < j" "j < length ns" "j \<noteq> i" for j
  proof -
    obtain j' where j': "j = Suc j'" using j(1) by (cases j) auto
    have "node_key (tl ns ! j') \<noteq> node_key (tl ns ! i')"
      using assms(1,3) j i' j' by (auto simp: names_ok_def distinct_conv_nth)
    then show ?thesis using k(1) nth [of j'] nth [of i'] j assms(3) i' j' by simp
  qed
  with k show thesis by (intro that) auto
qed

lemma edge_child: "shape ns p c t \<Longrightarrow> snd (edge ns key s p t) \<in> ups t \<union> forks t"
  by (induction t arbitrary: p c) auto

lemma insert_node_tree:
  assumes inv: "tree_inv i ns t" and i: "i < length ns" and names: "names_ok ns"
  obtains ns' t' where "insert_node i ns = Inr ns'" "tree_inv (Suc i) ns' t'" "same_names ns ns'"
proof -
  note inv' = inv [unfolded tree_inv_def]
  obtain key where key: "node_key (ns ! i) = Some key" "key \<noteq> []" "CHR 0x00 \<notin> set key" "length key < 2 ^ 28"
    "\<forall>j. 0 < j \<and> j < length ns \<and> j \<noteq> i \<longrightarrow> node_key (ns ! j) \<noteq> Some key"
    using names_okD [OF names] inv' i by auto
  define w where "w = walk ns key t"
  have "w < i" using walk_up [of ns key t] inv' by (simp add: w_def)
  obtain other where other: "node_key (ns ! w) = Some other" "CHR 0x00 \<notin> set other" "other \<noteq> key" "length other < 2 ^ 28"
  proof (cases "w = 0")
    case True
    then show thesis using that [of "[]"] inv' key(2) by simp
  next
    case False
    then have pos: "0 < w" "w < length ns" "w \<noteq> i" using \<open>w < i\<close> i by auto
    obtain k where k: "node_key (ns ! w) = Some k" "CHR 0x00 \<notin> set k" "length k < 2 ^ 28"
      by (rule names_okD [OF names pos(1,2)]) blast
    then have "k \<noteq> key" using key(5) pos by auto
    with k show thesis by (intro that) auto
  qed
  define sv0 where "sv0 = (of_nat (max (length key) (length other)) * 8 :: u32)"
  have sv0: "unat sv0 = 8 * max (length key) (length other)"
    using key(4) other(4) by (simp add: sv0_def unat_word_ariths unat_of_nat max_def)
  obtain n where n: "key_bit other n \<noteq> key_bit key n" using key_bits_differ [OF other(3,2) key(3)] by metis
  have "n < 8 * length other \<or> n < 8 * length key" using n key_bit_end [of other n] key_bit_end [of key n] by linarith
  then have "n \<le> unat sv0" by (simp add: sv0 max_def) linarith
  from this n obtain sv where sv: "differing other key sv0 = Inr sv" "unat sv \<le> unat sv0"
    "key_bit other (unat sv) \<noteq> key_bit key (unat sv)"
    "\<forall>m. unat sv < m \<and> m \<le> unat sv0 \<longrightarrow> key_bit other m = key_bit key m"
    by (rule highest_difference)
  define s where "s = unat sv"
  have above: "key_bit key m = key_bit other m" if "s < m" for m
    using sv(4) that key_bit_end [of other m] key_bit_end [of key m] sv0 s_def by (cases "m \<le> unat sv0") auto
  have s_less: "s < sv_of ns 0" using sv(2) sv0 key(4) other(4) inv' by (simp add: s_def)
  have i0: "0 < i" using inv' by simp
  define ns1 where "ns1 = ns[i := (ns ! i)\<lparr>searchValue := sv\<rparr>]"
  have keep1: "length ns1 = length ns" "\<And>j. j \<noteq> i \<Longrightarrow> sv_of ns1 j = sv_of ns j" "sv_of ns1 i = s"
    "\<And>j b. link ns1 j b = link ns j b" "\<And>j. name_of ns1 j = name_of ns j" "\<And>j. node_key (ns1 ! j) = node_key (ns ! j)"
    "\<And>j. node_file (ns1 ! j) = node_file (ns ! j)"
  proof -
    have at: "ns1 ! j = (if j = i then (ns ! j)\<lparr>searchValue := sv\<rparr> else ns ! j)" for j using i by (simp add: ns1_def)
    show "length ns1 = length ns" by (simp add: ns1_def)
    show "sv_of ns1 j = sv_of ns j" if "j \<noteq> i" for j using that by (simp add: sv_of_def at)
    show "sv_of ns1 i = s" by (simp add: sv_of_def at s_def)
    show "link ns1 j b = link ns j b" "name_of ns1 j = name_of ns j" "node_key (ns1 ! j) = node_key (ns ! j)"
      "node_file (ns1 ! j) = node_file (ns ! j)" for j b
      by (simp_all add: link_def name_of_def at)
  qed
  have out: "i \<notin> forks t \<union> ups t" "0 \<notin> forks t" using inv' by auto
  have shape1: "shape ns1 0 (link ns1 0 False) t"
    using inv' out i0 keep1 by (intro shape_same [of ns 0 "link ns1 0 False" t ns1]) auto
  have walk1: "walk ns1 key u = walk ns key u" if "i \<notin> forks u" for u
    using that keep1(2) by (induction u) auto
  obtain P C where e: "edge ns1 key s 0 t = (P, C)" by fastforce
  have P: "P < i" using edge_parent [of ns1 key s 0 t] e inv' i0 by auto
  have C: "C < i" using edge_child [OF shape1, of key s] e inv' by auto
  define ns2 where "ns2 = ns1[i := link_new key sv i C (ns1 ! i)]"
  define ns3 where "ns3 = ns2[P := relink key i (ns2 ! P)]"
  have small: "i < 2 ^ 16" "C < 2 ^ 16" using names i C by (auto simp: names_ok_def)
  have at: "ns3 ! i = link_new key sv i C (ns1 ! i)" "ns3 ! P = relink key i (ns1 ! P)"
    "\<And>j. j \<noteq> i \<Longrightarrow> j \<noteq> P \<Longrightarrow> ns3 ! j = ns1 ! j" "length ns3 = length ns1"
    using P i keep1(1) by (simp_all add: ns3_def ns2_def)
  have fields: "searchValue (link_new key sv i C x) = searchValue x" "node_key (link_new key sv i C x) = node_key x"
    "node_file (link_new key sv i C x) = node_file x" "searchValue (relink key i x) = searchValue x"
    "node_key (relink key i x) = node_key x" "node_file (relink key i x) = node_file x" for x :: "'a Node"
    by (simp_all add: link_new_def relink_def)
  have all: "searchValue (ns3 ! j) = searchValue (ns1 ! j)" "node_key (ns3 ! j) = node_key (ns1 ! j)"
    "node_file (ns3 ! j) = node_file (ns1 ! j)" for j
    by (cases "j = i"; cases "j = P"; simp add: at fields)+
  have ins: "inserted ns1 ns3 key s i P C"
    using P at(3,4) all(1) keep1(3) small
    by (auto simp: inserted_def sv_of_def link_def at(1,2) link_new_def relink_def direction s_def unat_of_nat)
  have name: "name_of ns1 i = key" "name_of ns1 w = other" using key(1) other(1) by (simp_all add: keep1(5)) (simp_all add: name_of_def)
  have w1: "walk ns1 key t = w" using walk1 out by (simp add: w_def)
  have radix1: "radix_ok ns1 t"
  proof -
    have "agree ns1 n A = agree ns n A" for n A by (simp add: agree_def keep1(5))
    then have "radix_ok ns1 u = radix_ok ns u" if "i \<notin> forks u" for u
      using that keep1(2,5) by (induction u) auto
    then show ?thesis using inv' out by simp
  qed
  have shape3: "shape ns3 0 (if P = 0 then i else link ns1 0 False) (insert_at ns1 key s i t)"
  proof (rule insert_shape [OF shape1 _ radix1 out(1) out(2) _ _ _ e ins])
    show "linear t" "0 \<noteq> i" "i < length ns1" "s < sv_of ns1 0"
      using inv' i0 i keep1(1) keep1(2) [of 0] s_less by auto
    show "key_bit key s \<noteq> key_bit (name_of ns1 (walk ns1 key t)) s"
      using sv(3) by (simp add: w1 name s_def)
  qed
  have "\<not> key_bit key (sv_of ns1 0)" using key(4) inv' i0 keep1(2) [of 0] by (intro key_bit_end) simp
  then have root: "link ns3 0 False = (if P = 0 then i else link ns1 0 False)"
    using ins i0 by (auto simp: inserted_def)
  have "radix_ok ns3 (insert_at ns1 key s i t)"
  proof (rule insert_ok [OF radix1])
    show "sv_of ns3 i = s" "\<forall>j. j \<noteq> i \<longrightarrow> sv_of ns3 j = sv_of ns1 j" using ins by (simp_all add: inserted_def)
    show "\<forall>j. name_of ns3 j = name_of ns1 j" by (simp add: name_of_def all)
    show "name_of ns1 i = key" "i \<notin> forks t" using name out by auto
    show "key_bit key s \<noteq> key_bit (name_of ns1 (walk ns1 key t)) s" using sv(3) by (simp add: w1 name s_def)
    show "\<forall>m > s. key_bit key m = key_bit (name_of ns1 (walk ns1 key t)) m" using above by (simp add: w1 name)
  qed
  then have "tree_inv (Suc i) ns3 (insert_at ns1 key s i t)"
    using inv' shape3 root out i i0 keep1 all at(4) linear_insert [of t i ns1 key s]
    by (auto simp: tree_inv_def ups_insert forks_insert sv_of_def)
  moreover have "same_names ns ns3" using at(4) keep1 all by (simp add: same_names_def)
  moreover have "insert_node i ns = Inr ns3"
  proof -
    have "ns \<noteq> []" using i by auto
    then have "descend ns key 0 (unat (leftIdx (ns ! 0))) = Inr w"
      using descend_walk [of ns 0 "link ns 0 False" t key] inv' by (simp add: link_def w_def)
    moreover have "descend_to ns1 key sv 0 (unat (leftIdx (ns1 ! 0))) = Inr (P, C)"
      using descend_to_edge [OF shape1, of key sv] \<open>ns \<noteq> []\<close> keep1(1) e by (simp add: link_def s_def)
    moreover have "0 < length ns" "w < length ns" "P < length ns" using i i0 \<open>w < i\<close> P by auto
    ultimately show ?thesis
      using i key(1) other(1) sv(1)
      by (simp add: insert_node_def read_at_def optional_value_def sv0_def [symmetric] Let_def ns1_def [symmetric]
          ns2_def [symmetric] ns3_def [symmetric] keep1(1)) (simp add: ns3_def ns2_def ns1_def)
  qed
  ultimately show thesis by (intro that)
qed

lemma names_ok_same:
  assumes "names_ok ns" and "same_names ns ns'"
  shows "names_ok ns'"
proof -
  have keys: "map node_key (tl ns') = map node_key (tl ns)"
    using assms(2) by (intro nth_equalityI) (auto simp: same_names_def nth_tl)
  have "list_all Q (tl ns) = list_all (\<lambda>k. P k) (map node_key (tl ns))"
    if "\<And>n. Q n = P (node_key n)" for ns :: "'a Node list" and P Q
    using that by (simp add: list_all_iff)
  from this [of _ "case_option False (\<lambda>k. k \<noteq> [] \<and> CHR 0x00 \<notin> set k \<and> length k < 2 ^ 28)", OF refl]
  show ?thesis using assms keys unfolding names_ok_def same_names_def by simp
qed

lemma same_names_trans: "same_names a b \<Longrightarrow> same_names b c \<Longrightarrow> same_names a c"
  by (simp add: same_names_def)

lemma insert_nodes_tree:
  "tree_inv i ns t \<Longrightarrow> i + k = length ns \<Longrightarrow> names_ok ns \<Longrightarrow>
    \<exists>ns' t'. insert_nodes [i..<length ns] ns = Inr ns' \<and> tree_inv (length ns) ns' t' \<and> same_names ns ns'"
proof (induction k arbitrary: i ns t)
  case 0
  then show ?case by (auto simp: same_names_def)
next
  case (Suc k)
  then have "i < length ns" by simp
  then obtain ns1 t1 where one: "insert_node i ns = Inr ns1" "tree_inv (Suc i) ns1 t1" "same_names ns ns1"
    using insert_node_tree Suc.prems by metis
  then have len: "length ns1 = length ns" by (simp add: same_names_def)
  with Suc.IH [of "Suc i" ns1 t1] Suc.prems(2,3) one names_ok_same
  obtain ns2 t2 where two: "insert_nodes [Suc i..<length ns] ns1 = Inr ns2" "tree_inv (length ns) ns2 t2" "same_names ns1 ns2"
    by (metis add_Suc add_Suc_right)
  have "insert_nodes [i..<length ns] ns = Inr ns2"
    using one(1) two(1) \<open>i < length ns\<close> by (simp add: upt_rec)
  with two(2) same_names_trans [OF one(3) two(3)] show ?case by blast
qed

text \<open>Building the index succeeds, leaves names and files alone, and the search ends at every name's node.\<close>

lemma built_tree:
  assumes names: "names_ok ns" and "ns \<noteq> []"
  shows "\<exists>ns'. buildRadixTree ns = Inr ns' \<and> length ns' = length ns \<and>
    (\<forall>i k. 0 < i \<and> i < length ns \<and> node_key (ns ! i) = Some k \<longrightarrow>
      node_key (ns' ! i) = Some k \<and> node_file (ns' ! i) = node_file (ns ! i) \<and>
      descend ns' k 0 (unat (leftIdx (ns' ! 0))) = Inr i)"
proof -
  define ns0 where "ns0 = ns[0 := Node_init\<lparr>searchValue := 0xFFFFFFFF, node_key := Some ''''\<rparr>]"
  have len0: "length ns0 = length ns" by (simp add: ns0_def)
  have root: "ns0 ! 0 = Node_init\<lparr>searchValue := 0xFFFFFFFF, node_key := Some ''''\<rparr>" using assms(2) by (simp add: ns0_def)
  have rest: "ns0 ! j = ns ! j" if "j \<noteq> 0" for j using that by (simp add: ns0_def)
  have "tl ns0 = tl ns" by (cases ns) (simp_all add: ns0_def)
  then have names0: "names_ok ns0" using names len0 by (simp add: names_ok_def)
  have pos: "0 < length ns0" using len0 assms(2) by simp
  have link0: "link ns0 0 False = 0" by (simp add: link_def root Node_init_def)
  have "tree_inv 1 ns0 (Up 0)" using pos link0 by (auto simp: tree_inv_def root sv_of_def Suc_le_eq)
  from insert_nodes_tree [OF this _ names0, of "length ns0 - 1"] pos len0
  obtain ns1 t where built: "insert_nodes [1..<length ns] ns0 = Inr ns1" and inv: "tree_inv (length ns) ns1 t"
    and same: "same_names ns0 ns1" by auto
  define ns2 where "ns2 = ns1[0 := (ns1 ! 0)\<lparr>node_key := None\<rparr>]"
  have len1: "length ns1 = length ns" using same len0 by (simp add: same_names_def)
  have at: "searchValue (ns2 ! j) = searchValue (ns1 ! j)" "leftIdx (ns2 ! j) = leftIdx (ns1 ! j)"
    "rightIdx (ns2 ! j) = rightIdx (ns1 ! j)" for j
    using len1 assms(2) by (cases "j = 0"; simp add: ns2_def)+
  have shape: "shape ns2 0 (link ns2 0 False) t"
  proof -
    have "link ns2 j b = link ns1 j b" "sv_of ns2 j = sv_of ns1 j" for j b by (simp_all add: link_def sv_of_def at)
    moreover have "length ns2 = length ns1" by (simp add: ns2_def)
    moreover have "shape ns1 0 (link ns1 0 False) t" using inv by (simp add: tree_inv_def)
    ultimately show ?thesis using shape_same [of ns1 0 "link ns1 0 False" t ns2] by simp
  qed
  have walks: "walk ns2 key u = walk ns1 key u" for key u by (induction u) (simp_all add: sv_of_def at)
  have "buildRadixTree ns = Inr ns2"
    using built assms(2) by (simp add: buildRadixTree_def read_at_def ns0_def [symmetric] ns2_def [symmetric])
  moreover have "length ns2 = length ns" using len1 by (simp add: ns2_def)
  moreover have "node_key (ns2 ! i) = Some k \<and> node_file (ns2 ! i) = node_file (ns ! i) \<and>
      descend ns2 k 0 (unat (leftIdx (ns2 ! 0))) = Inr i"
    if i: "0 < i" "i < length ns" "node_key (ns ! i) = Some k" for i k
  proof -
    have k: "node_key (ns1 ! i) = Some k" "node_file (ns1 ! i) = node_file (ns ! i)"
      using same i rest [of i] len0 by (auto simp: same_names_def)
    have "walk ns1 (name_of ns1 i) t = i" using walk_self inv i by (auto simp: tree_inv_def)
    then have "walk ns2 k t = i" using k by (simp add: walks name_of_def)
    moreover have "0 < length ns2" using len1 assms(2) by (simp add: ns2_def)
    ultimately have "descend ns2 k 0 (unat (leftIdx (ns2 ! 0))) = Inr i"
      using descend_walk [OF shape, of k] by (simp add: link_def)
    moreover have "ns2 ! i = ns1 ! i" using i by (simp add: ns2_def)
    ultimately show ?thesis using k by simp
  qed
  ultimately show ?thesis by blast
qed

end
