(* ===== verification/Faults.thy ===== *)
theory Faults
  imports FriendsExamples VsSetting HttpServing BfresTree
begin

text \<open>
  Where the code does not do what it means to: small inputs and short runs of the packets, the
  connections and the services that lead out of the defined behaviour, or to an answer that nobody
  means. Each is a theorem about the model's definitions with the input it needs.
\<close>

text \<open>
  Finding. A version 0 SYN packet of 15 bytes, without a size and with the checksum of all of
  them, is said to be 16 bytes long, and the server erases 16 bytes of the 15 of the datagram.
  It needs no connection and no signature: the packet itself is dropped.
\<close>

theorem short_syn_erases_past_end:
  assumes "majorVersion s = 0" and "length d = 15" and "slice d 2 2 = [0, 0]" and "slice d 5 4 \<noteq> replicate 4 0"
    and "last d = calculateChecksum d (sv_accessKey s)"
  shows "fst (onData ev a d s) = Inl UndefinedAccess"
  using assms by (rule short_syn_datagram)

theorem short_syn_erases_past_end_witness:
  "fst (onData ex_env ex_ip [0xAF, 0xA1, 0, 0, 0, 1, 0, 0, 0, 0, 0, 0, 0x2C, 0, 0] ex_server) = Inl UndefinedAccess"
proof -
  have "calculateChecksum [0xAF, 0xA1, 0, 0, 0, 1, 0, 0, 0, 0, 0, 0, 0x2C, 0, 0] [65, 66] = 0" by code_simp
  then show ?thesis by (intro short_syn_erases_past_end) (simp_all add: slice_def numeral_eq_Suc)
qed

text \<open>
  Finding. A connect packet that is otherwise in order and carries a substream id above the
  server's maximum indexes the new client's substreams past their end: only its maximum is
  compared.
\<close>

theorem connect_substream_unchecked_access:
  assumes "connects ev s addr p info" and "unat (sv_maxSubstreamId s) < unat (packet_substream s p)"
  shows "fst (handle_connect ev addr p s) = Inl UndefinedAccess"
  using assms by (rule connect_substream_unchecked)

definition ex_server1 :: "bytes list PrudpServer" where
  "ex_server1 = PrudpServer_init 1 [65] True 0 [] False 3 0 2 1 [] []"

theorem connect_substream_unchecked_access_witness:
  "fst (handle_connect ex_env ex_addr
     ((new_packet True)\<lparr>p_type := CONNECT, p_minorVersion := 3, p_maxSubstreamId := 2, substreamId := 3\<rparr>)
     ex_server1) = Inl UndefinedAccess"
  by (rule connect_substream_unchecked_access [where info = ex_info])
     (simp_all add: connects_def version_refused_def new_packet_def ex_server1_def PrudpServer_init_def
       authenticate_def ex_info_def room_for_def default_key_def packet_substream_def)

text \<open>
  Finding. The user of a connection is noted by a scheduled task, while its requests are queued
  at once: requests that arrive before a worker has run that task are queued with user id 0,
  whoever has connected.
\<close>

theorem first_requests_have_no_user:
  assumes "shouldStop s = False" and "pidMap s addr = None" and "call_ok mv s r"
    and "rt = scheduleOnConnect addr pid \<lparr>rt_server = s, rt_tasks = []\<rparr>"
  shows "\<exists>rt'. runtime_onData addr mv sub (call_message r) rt = Inr (rt', []) \<and>
    (\<exists>q. requestsQueue (rt_server rt') = requestsQueue s @ [q] \<and> ri_request q = cl_request r \<and>
       ci_pid (ri_client q) = 0) \<and>
    (\<exists>rt1. worker_turn handler rt w = Inr (rt1, w, []) \<and> pidMap (rt_server rt1) addr = Some pid)"
proof -
  have tc: "takes_calls mv addr s rt"
    using assms(1,4) by (simp add: takes_calls_def scheduleOnConnect_def schedule_def)
  have "\<exists>rt1. worker_turn handler rt w = Inr (rt1, w, []) \<and> pidMap (rt_server rt1) addr = Some pid"
    using worker_notes_pid [of rt addr pid handler w] assms(1,4) by (auto simp: scheduleOnConnect_def schedule_def)
  moreover have "rt_server rt = s" using assms(4) by (simp add: scheduleOnConnect_def schedule_def)
  ultimately show ?thesis
    using runtime_onData_call(1) [OF tc assms(3), of sub] assms(2) by (simp add: request_info_def)
qed

theorem first_requests_have_no_user_witness:
  "\<exists>rt'. runtime_onData ex_addr 0 0 (call_message (hd ex_calls))
      (scheduleOnConnect ex_addr 1800 \<lparr>rt_server = ex_rmc, rt_tasks = []\<rparr>) = Inr (rt', []) \<and>
    map (ci_pid \<circ> ri_client) (requestsQueue (rt_server rt')) = [0]"
proof -
  have s: "shouldStop ex_rmc = False" "pidMap ex_rmc ex_addr = None" "requestsQueue ex_rmc = []"
    by (simp_all add: ex_rmc_def)
  have c: "call_ok 0 ex_rmc (hd ex_calls)" using ex_calls_ok by (simp add: ex_calls_def)
  from first_requests_have_no_user [OF s(1,2) c refl, where pid = 1800 and sub = 0
      and handler = "\<lambda>_ w. (Inr (), w, [])" and w = "0 :: nat"] s(3) show ?thesis by auto
qed

text \<open>
  A name that is no number is refused, but the handler goes on after the refusal, with user 0:
  it asks the database for that account and answers a second time.
\<close>

theorem invalid_name_answered_twice:
  fixes client req
  assumes "\<not> shouldStop (au_rmc s)" and "\<not> list_all is_digit username" and "username \<noteq> ''guest''"
    and "ae_access ev (au_db s) 0 = NoAccess"
  defines "refusal \<equiv> (client :: ClientInfo, auth_ok req, login_refused (ci_minorVersion client) RENDEZ_VOUS__INVALID_USERNAME)"
  shows "\<exists>s'. auth_login ev client req username s = (Inr (), s') \<and> au_out s' = au_out s @ [refusal, refusal]"
  using unknown_name_twice [of s username ev client req] assms by (simp add: login_number_def)

theorem invalid_name_answered_twice_witness:
  "length (au_out (snd (auth_login ex_auth_env (ex_player 0) (ri_request ex_join_request) ''me'' (ex_auth True)))) = 2"
proof -
  have "\<not> list_all is_digit ''me''" by code_simp
  from invalid_name_answered_twice [of "ex_auth True" "''me''" ex_auth_env "ex_player 0" "ri_request ex_join_request"] this
  show ?thesis by (auto simp: ex_auth_env_def)
qed

text \<open>
  Finding. A connect request of four bytes that claims a ticket of 0xFFFFFFFC bytes passes both
  length checks of \<open>decryptConnectRequest\<close>, because the sums wrap around in 32
  bits, and the copy of the ticket then reads far past the end of the request.
\<close>

theorem kerberos_length_wraps:
  "decryptConnectRequest cr now [0xFC, 0xFF, 0xFF, 0xFF] passwd pid = Inl UndefinedAccess"
  using split_request_wraps by (simp add: decryptConnectRequest_def)

text \<open>
  Finding. A map is sent with a count of zero whatever it holds, so that it is always read back
  as empty with its entries left over, and the decoder reads the first key from the count
  itself: four bytes are decoded to a map of one entry that claims eight.
\<close>

theorem map_entries_never_arrive:
  "decode_map deck decv (encode_map enck encv m @ rest) = Inr ([], 4) \<and>
   decode_map decode_string decode_Variant [1, 0, 0, 0] = Inr ([('''', VNone)], 8)"
  using decode_map_encode_map decode_map_counts_twice by blast

text \<open>
  Finding. A version 1 packet whose option part is one byte long makes the decoder read the
  length of that option from behind the end of the options.
\<close>

theorem lone_option_reads_past_end:
  assumes "length d = 31" and "d ! 0 = 0xEA" and "d ! 1 = 0xD0" and "d ! 2 = 1" and "d ! 3 = 1"
    and "slice d 4 2 = [0, 0]" and "type_of_code (le_word (slice d 8 2) AND 0xF) = Some ty"
  shows "decodeV1 q d = Inl UndefinedAccess"
proof -
  have "length (slice d 30 1) = 1" using assms(1) by (simp add: slice_def)
  then obtain b where "slice d 30 1 = [b]" by (metis One_nat_def length_0_conv length_Suc_conv)
  then show ?thesis using assms by (simp add: decodeV1_def Let_def)
qed

theorem lone_option_reads_past_end_witness:
  "decodeV1 (new_packet True) ([0xEA, 0xD0, 1, 1] @ replicate 27 0) = Inl UndefinedAccess"
  by (rule lone_option_reads_past_end [where ty = SYN])
     (simp_all add: slice_def type_of_code_def numeral_eq_Suc)

text \<open>
  A festival is generated exactly if its number is at least 1000 and the backup language has the
  names and the short names of both teams and all four dialogues; otherwise an exception is
  thrown. An absent short name is not looked for before it is used: the exception is
  out_of_range, where the ones that are looked for give runtime_error.
\<close>

theorem festival_generated_exactly:
  "(\<exists>root. generateFestivalByaml info = Inr root) \<longleftrightarrow> \<not> fi_id info <s 1000 \<and> backup_complete info"
  by (rule festival_returns)

text \<open>
  A client that registers a second time while it plays in a session loses the list of its
  gatherings and stays a player of the session. When it disconnects, nothing takes it off the
  session: the session keeps a player that is not registered any more.
\<close>

theorem reregistered_player_stays:
  assumes "plays (sp_state s) (ci_pid client) g" and "pidMap (sp_rmc s) addr = Some (ci_pid client)"
    and reg: "secure_register client req [url] s = (r, s1)" and dis: "splatoon_onDisconnect ev addr s1 = (r', s2)"
  shows "plays (sp_state s2) (ci_pid client) g \<and> \<not> registered (sp_state s2) (ci_pid client)"
proof -
  note f = register_result [OF reg]
  obtain ci where "map_of (clientInfos (sp_state s1)) (ci_pid client) = Some ci" "joinedGatherings ci = []"
    using f(4) by blast
  from disconnect_without_gatherings [OF this _ dis] assms(2) f(3)
  have "plays (sp_state s2) = plays (sp_state s1)" "\<not> registered (sp_state s2) (ci_pid client)" by simp_all
  then show ?thesis using assms(1) f(1) by (simp add: plays_def)
qed

theorem reregistered_player_stays_witness:
  "plays (sp_state (snd (splatoon_onDisconnect ex_game_env (ex_player_addr 20)
     (snd (secure_register (ex_player 20) (ri_request ex_join_request) [ex_url] (ex_game [10, 20])))))) 20 9"
proof -
  obtain r s1 where s1: "secure_register (ex_player 20) (ri_request ex_join_request) [ex_url] (ex_game [10, 20]) = (r, s1)"
    by fastforce
  obtain r' s2 where s2: "splatoon_onDisconnect ex_game_env (ex_player_addr 20) s1 = (r', s2)" by fastforce
  have pid: "ci_pid (ex_player 20) = 20" by (simp add: ex_player_def)
  have "plays (sp_state (ex_game [10, 20])) 20 9" by (simp add: plays_def ex_lobby_state_def)
  with reregistered_player_stays [OF _ _ s1 s2, of 9] show ?thesis by (simp add: pid s1 s2)
qed

text \<open>
  Finding. The date of a ticket only excludes tickets from the future: a request that is
  accepted once is accepted at every later time.
\<close>

theorem ticket_never_expires:
  assumes "decryptConnectRequest cr now d passwd pid = Inr info" and "now \<le> later"
  shows "decryptConnectRequest cr later d passwd pid = Inr info"
  using assms by (rule decryptConnectRequest_never_expires)

theorem ticket_never_expires_witness:
  "\<exists>d info. \<forall>later \<ge> 0. decryptConnectRequest sum_crypto later d [1, 2] 2 = Inr info"
proof -
  obtain d where "decryptConnectRequest sum_crypto 0 d [1, 2] 2 =
      Inr \<lparr>co_sessionKey = [5, 6], co_pid = 1800, co_connectionId = 3, co_checkValue = 4\<rparr>"
    by (rule ex_ticket_accepted)
  from ticket_never_expires [OF this] show ?thesis by blast
qed

text \<open>
  Two requests make the server follow a null pointer. One asks for the addresses of a session
  that does not exist: the handler sends its own parameter vector, whose one element it has not
  set. The other asks for a probe of two registered targets: the probe is moved into the message
  for the first one.
\<close>

theorem null_parameters_crash:
  assumes "\<not> shouldStop (sp_rmc s)" and "getSplatoonMatchmakeSession (sp_state s) gId = None"
    and "ci_serverId client = rmc_serverId (sp_rmc s)"
    and "su_PID t1 = Some p1" "registered (sp_state s) p1" and "su_PID t2 = Some p2" "registered (sp_state s) p2"
  shows "fst (getSessionUrls client req gId s) = Inl UndefinedAccess \<and>
    fst (requestProbeInitiationExt ev client req (t1 # t2 # ts) probe s) = Inl UndefinedAccess"
proof -
  have reg: "getSplatoonRegisteredClientInfo (sp_state s) p1 \<noteq> None" "getSplatoonRegisteredClientInfo (sp_state s) p2 \<noteq> None"
    using assms(5,7) by (auto simp: registered_iff)
  show ?thesis
    using getSessionUrls_unknown [OF assms(2,1), of client req]
      probe_two_targets [OF assms(1,3,4) reg(1) assms(6) reg(2)] by simp
qed

theorem null_parameters_crash_witness:
  "fst (getSessionUrls (ex_player 20) (ri_request ex_join_request) 5 (ex_game [10])) = Inl UndefinedAccess"
  using null_parameters_crash [of "ex_game [10]" 5 "ex_player 20" "ex_url\<lparr>su_PID := Some 10\<rparr>" 10
      "ex_url\<lparr>su_PID := Some 20\<rparr>" 20]
  by (auto simp: getSplatoonMatchmakeSession_def registered_def ex_lobby_state_def ex_player_def)

text \<open>
  The automatic match picks among the sessions that fit the criteria, but the one whose
  experience differs most from the client's: its priority queue keeps the largest difference on
  top.
\<close>

theorem auto_match_takes_farthest:
  assumes "valid_top joined param h sis None = Inr (Some (d, si))"
  shows "si \<in> set sis \<and> candidate joined param h si d \<and>
    (\<forall>sj \<in> set sis. \<forall>e. candidate joined param h sj e \<longrightarrow> e \<le> d)"
  using valid_top_bound [OF assms] by simp

theorem auto_match_takes_farthest_witness:
  "\<exists>param h. candidate [] param h \<lparr>si_session = 0, si_players = []\<rparr> 1 \<and>
     valid_top [] param h [\<lparr>si_session = 0, si_players = []\<rparr>, \<lparr>si_session = 1, si_players = []\<rparr>] None =
       Inr (Some (50, \<lparr>si_session = 1, si_players = []\<rparr>))"
proof -
  let ?h = "\<lambda>a. ex_lobby\<lparr>maxParticipants := 8, attributes := [0, if a = 0 then 101 else 150]\<rparr>"
  let ?c = "\<lparr>sc_attributes = [''0'', ''0''], sc_gameMode = ''12'', sc_minParticipants = ''1,8'',
    sc_maxParticipants = ''1,8'', sc_matchmakeSystemType = ''1'', sc_vacantOnly = True, sc_excludeLocked = True,
    sc_excludeNonHostPid = False, sc_selectionMethod = 0, sc_vacantParticipants = 1,
    sc_matchmakeParam = \<lparr>mp_minorVersion = 0, mp_params = []\<rparr>, sc_excludeUserPasswordSet = True,
    sc_excludeSystemPasswordSet = True, sc_referGid = 0\<rparr>"
  let ?p = "\<lparr>ap_srcMatchmakeSession = ex_session, ap_additionalParticipants = [], ap_gidForParitipationCheck = 0,
    ap_autoMatchmakeOption = 0, ap_joinMessage = '''', ap_participationCount = 1, ap_searchCriteria = [?c],
    ap_targetGids = []\<rparr>"
  let ?si = "\<lambda>a. \<lparr>si_session = a, si_players = []\<rparr>"
  have digits: "stoi ''0'' = Inr 0" "stoi ''12'' = Inr 12" "stoi ''1'' = Inr 1" "stoi ''8'' = Inr 8"
    by code_simp+
  have fits: "session_fits [] ?p (ex_lobby\<lparr>maxParticipants := 8, attributes := [0, x]\<rparr>) = Inr True" for x
    by (simp add: session_fits_def ex_lobby_def ex_session_def criteria_match_def parse_bounds_def digits
        params_match_def)
  have diff: "exp_difference ?p (ex_lobby\<lparr>maxParticipants := 8, attributes := [0, 101]\<rparr>) = Inr 1"
    "exp_difference ?p (ex_lobby\<lparr>maxParticipants := 8, attributes := [0, 150]\<rparr>) = Inr 50"
    by (simp_all add: exp_difference_def ex_session_def)
  have run: "valid_top [] ?p ?h [?si 0, ?si 1] None = Inr (Some (50, ?si 1))"
    by (simp add: fits diff queue_push_def del: MatchmakeSession.update_convs)
  have "candidate [] ?p ?h (?si 0) 1" using fits [of 101] diff by (simp add: candidate_def)
  with run auto_match_takes_farthest [OF run] show ?thesis by blast
qed

text \<open>
  Data that is no request (malformed, of unknown length, method or version) is answered, where
  there is no error page, with the status that belongs to the error, and the connection is
  closed. Finding: if it closes at once, the loop then looks into the buffer that the closing
  has destroyed.
\<close>

theorem malformed_request_is_answered:
  assumes "request_parse (b @ d) = Inl e" and "error_status e = Some status" and "hs_errorPages s ''*'' = None"
    and "hs_buffers s i = Some b" and "d \<noteq> []" and "length b + length d \<le> MAX_PAYLOAD_SIZE"
  shows "onDataReceived ev i d s =
    Some (if rx_closes ev i then Inl UndefinedAccess else Inr (),
      answered_error ev i status (s\<lparr>hs_buffers := (hs_buffers s)(i \<mapsto> b @ d)\<rparr>))"
  using assms by (rule malformed_answered)

theorem malformed_request_is_answered_witness:
  "\<exists>s. onDataReceived ex_http_env 1 (crlf @ crlf) ex_http_server = Some (Inl UndefinedAccess, s) \<and>
    hs_closing s = [1] \<and> hs_buffers s 1 = None"
proof -
  have "request_parse ([] @ crlf @ crlf) = Inl MethodNotSupportedException"
    by (simp add: crlf_def http_eval)
  from malformed_request_is_answered [OF this, of 405 ex_http_server 1 ex_http_env] show ?thesis
    by (simp add: error_status_def ex_http_server_def ex_http_env_def onAccept_def http_server_def crlf_def
        MAX_PAYLOAD_SIZE_def answered_error_def close_socket_def send_to_def onClose_def Let_def)
qed

text \<open>
  Framing: once the parser takes a request from the front of a buffer, it has taken at least
  four bytes and no more than there are, and takes the same request with the same length
  whatever bytes arrive behind it, whether its body has a content length, chunks or neither.
\<close>

theorem complete_request_is_final:
  assumes "request_parse data = Inr (r, n)" and "length data < 2 ^ 64"
  shows "4 \<le> n \<and> n \<le> length data \<and> request_parse (data @ behind) = Inr (r, n)"
  using assms by (rule request_parse_append)

theorem complete_request_is_final_witness:
  "request_parse (request_serialize ex_http_request @ ''GET'') =
     Inr (with_length ex_http_request, length (request_serialize ex_http_request))"
  using complete_request_is_final [of "request_serialize ex_http_request" "with_length ex_http_request"
      "length (request_serialize ex_http_request)" "''GET''"]
    request_roundtrip [OF ex_http_request_ok, of "[]"] ex_http_request_short
  by (simp add: MAX_PAYLOAD_SIZE_def)

text \<open>
  Finding. A friend is removed on the main connection, although a transaction is open: when the
  transaction then fails, the caller reads that the database is unavailable, and the friendship
  is gone from the tables, while the friend stays in the caller's list.
\<close>

theorem removal_not_atomic:
  "\<exists>ev s s'. removeFriend ev (ex_player 10) ex_friends_request 20 s = (Inr (), s') \<and>
    tb_friendships (fd_tables s) = [\<lparr>fsh_pid = 10, fsh_friendPid = 20, fsh_becameFriends = 0\<rparr>] \<and>
    tb_friendships (fd_tables s') = [] \<and> fd_state s' = fd_state s \<and>
    fd_out s' = [OutResponse (ex_player 10)
      (createError ex_friends_request RENDEZ_VOUS__DATABASE_TEMPORARILY_UNAVAILABLE) []]"
  by (rule exI [of _ "ex_friends_env (\<lambda>n. n = 10)"], rule exI [of _ "ex_friends [20] (ex_tables [] [] [\<lparr>fsh_pid = 10,
        fsh_friendPid = 20, fsh_becameFriends = 0\<rparr>])"])
     (simp add: removeFriend_def remove_friendship_def DELETE_FRIEND_def GET_PERSISTENT_NOTIFICATIONS_def
       rollbackTransaction_def give_up_def db_unavailable_def fd_refuse_def commitTransaction_def ex_call_eval)

text \<open>
  Finding. A handler that reads what the database stores after it has answered answers twice
  when that does not decode: the caller who takes a request back reads that it is gone, and then
  that there was an exception.
\<close>

theorem cancelled_request_answered_twice:
  "map (\<lambda>(c, a). (ci_pid c, rs_success a)) (fd_replies (snd (run_friends_call (ex_friends_env (\<lambda>_. False))
      \<lparr>ri_client = ex_player 10, ri_request = ex_friends_request, ri_params = CancelFriendRequest 5\<rparr>
      (ex_friends [] (ex_tables [(ex_asked [])\<lparr>rqr_fromPid := 10, rqr_toPid := 20\<rparr>] [] []))))) =
    [(10, True), (10, False)]"
proof -
  have "stored (decode_FriendRequestMsg 0) [] = Inl MalformedException"
    by (simp add: stored_def decode_FriendRequestMsg_def decode_Data_def subspan_def decodeHeader_def dec_at_def decode_int_def)
  then show ?thesis
    by (simp add: run_friends_call_def friends_call_def close_session_def cancelFriendRequest_def request_of_def
        DELETE_FRIEND_REQUEST_def fd_replies_def fd_refuse_def reply_to_def createError_def expired_def of_seconds_def
        ex_call_eval)
qed

text \<open>
  Finding. Who shows that he is online but not what he plays is announced to his friends like
  everybody: the handler prepares the presence without the game and sends the other one.
\<close>

theorem hidden_game_is_sent:
  "presence_events mv pid (pref\<lparr>showPlaying := False\<rparr>) presence =
   presence_events mv pid (pref\<lparr>showPlaying := True\<rparr>) presence"
  by (simp add: presence_events_def Let_def)

end
