(* ===== verification/Spec2Isabelle.thy ===== *)
theory Spec2Isabelle
  imports Faults
begin

text \<open>
  A verification library for SplatIt, a replacement for the online services of Splatoon (Wii U). The
  program is written in C++ under \<^verbatim>\<open>src/src\<close>; path names below are relative to that directory.

  \<^bold>\<open>The program.\<close> A console talks to the servers over UDP. \<^verbatim>\<open>nex/prudp\<close> gives it connections, reliable
  and encrypted streams and retransmission; \<^verbatim>\<open>nex/rmc\<close> reads remote calls from the streams and hands
  them to the service of the port: \<^verbatim>\<open>nex/auth\<close> sells tickets, \<^verbatim>\<open>nex/splatoon\<close> and \<^verbatim>\<open>nex/friends\<close> are
  the services behind them. The messages are made of the types of \<^verbatim>\<open>nex/types\<close>. The services keep
  their users and sessions in \<^verbatim>\<open>sharedState\<close> (local, or in Redis) and their accounts in \<^verbatim>\<open>db\<close>. Beside
  them stand web servers (\<^verbatim>\<open>http\<close>), generators of game files (\<^verbatim>\<open>boss\<close>), and gRPC services for the
  management of the whole.

  \<^bold>\<open>The theories and the code.\<close>
  \<^item> \<open>Prelude\<close>: widths of integers, exceptions as the datatype \<open>exn\<close>, the error monad \<open>bindE\<close>, reads
    that check their bounds, little-endian bytes. \<open>Strings\<close>: \<^verbatim>\<open>std::to_string\<close> and \<^verbatim>\<open>std::stoi\<close>.
    \<open>Effects\<close>: routines with a state, which can throw and leave what they have written, and the
    triples \<open>runs\<close> that the services are verified with.
  \<^item> \<open>Arc4\<close>: RC4 (\<^verbatim>\<open>crypto/arc4.cpp\<close>) and its use as a packet encoder.
  \<^item> \<open>Codec\<close>, \<open>Structures\<close>, \<open>Datetime\<close>, \<open>StationUrl\<close>, \<open>Params\<close>, \<open>MatchTypes\<close>: the types of
    \<^verbatim>\<open>nex/types\<close>, each with its encoder and decoder. \<open>wire_codec\<close> and \<open>safe_codec\<close> are the contracts of
    a pair of them; lists and structures are built on the contract, and every type interprets it.
  \<^item> \<open>Kerberos\<close>: tickets and connect requests (\<^verbatim>\<open>nex/prudp/kerberos.cpp\<close>). \<open>Packet\<close>: both versions of
    the PRUDP packet (\<^verbatim>\<open>nex/prudp/packet.cpp\<close>).
  \<^item> \<open>Prudp\<close> and \<open>PrudpServer\<close>: the state and every routine of \<^verbatim>\<open>nex/prudp/server.cpp\<close>.
    \<open>PrudpInvariant\<close>: its invariant and that every entry point keeps it. \<open>PrudpDelivery\<close>: packets in
    any order and number are delivered in order, once. \<open>PrudpConnect\<close>: what an accepted connection
    starts from. \<open>PrudpSending\<close> and \<open>PrudpMessages\<close>: fragments, signatures and encryption of what is
    sent. \<open>PrudpFaults\<close>: what happens outside of these contracts.
  \<^item> \<open>Rmc\<close>: requests, responses and the server object of \<^verbatim>\<open>nex/rmc\<close>; \<open>RmcRuntime\<close>: its task queue and
    worker thread behind a PRUDP server. \<open>RmcWorker\<close>: the worker against a queue of the accepted
    requests, whatever arrives between its turns; the handlers are functions over a state of their
    own that may send and then throw.
  \<^item> \<open>SharedState\<close>: \<^verbatim>\<open>sharedState/localSharedState.cpp\<close>, with its invariant \<open>ss_inv\<close> and the locale of
    a session store that the code refines.
  \<^item> \<open>Splatoon\<close>, \<open>SplatoonCalls\<close>, \<open>SplatoonMatch\<close>: state, notifications and all handlers of
    \<^verbatim>\<open>nex/splatoon/splatoonSecure.cpp\<close>. \<open>SplatoonRuns\<close> and \<open>SplatoonInvariant\<close>: each handler answers
    once and keeps the shared state consistent. \<open>SplatoonSafety\<close>: who can touch a session.
    \<open>SplatoonLeave\<close>: players that go. \<open>SplatoonIds\<close>: the ids it gives out. \<open>SplatoonFacts\<close>: single
    handlers, and requests that crash the server. \<open>SplatoonService\<close>: the worker, and the states that
    can be reached.
  \<^item> \<open>Tokens\<close>: base64 for URLs, account tokens and web tokens (\<^verbatim>\<open>crypto/tools.cpp\<close>). \<open>Auth\<close>: every call
    of the server that sells tickets (\<^verbatim>\<open>nex/auth\<close>), with the check of the tokens; \<open>AuthFacts\<close>: who gets
    a ticket, and that it opens a connection to the service it was sold for.
  \<^item> \<open>FriendTypes\<close>: the structures of the friends service. \<open>FriendsDb\<close>: its tables, with their keys,
    indexes and references (\<^verbatim>\<open>db/migrations/initial.cpp\<close>), and the statements that run on them
    (\<^verbatim>\<open>db/sqlDatabase.cpp\<close>). \<open>Friends\<close>, \<open>FriendsCalls\<close>, \<open>FriendsService\<close>: transactions, notifications,
    all handlers of \<^verbatim>\<open>nex/friends/friendsSecure.cpp\<close>, and the worker. \<open>FriendsFacts\<close>: every call is
    answered. \<open>FriendsInvariant\<close>: the locale \<open>kept_by_calls\<close>, of the properties of the tables that a
    call keeps; \<open>FriendsLists\<close>: the friend lists in the shared state; \<open>FriendsSafety\<close>: the schema, the
    consent of both friends and the silence of the blocked. \<open>FriendsAccept\<close>: how a friendship is made.
  \<^item> \<open>Byaml\<close>: the game files of \<^verbatim>\<open>boss/byaml/byaml.cpp\<close>. \<open>ByamlRead\<close>: a reader of them, and that it gives
    back what was written. \<open>Festival\<close> and \<open>VsSetting\<close>: the generators of festivals and rotations;
    \<open>FestivalFacts\<close>: which festivals are generated, and what is in their files.
  \<^item> \<open>Bfres\<close>: the index of the archives of \<^verbatim>\<open>boss/bfres/bfres.cpp\<close>, a radix tree in an array of nodes;
    \<open>BfresTree\<close>: the array represents a tree that grows with every node and sends each name to its
    own node.
  \<^item> \<open>HttpParser\<close> and \<open>HttpMessages\<close>: \<^verbatim>\<open>http/parser\<close>. \<open>HttpFacts\<close>: a message that was read is not read
    otherwise when more data follows. \<open>HttpRoundtrip\<close>: what is serialised is read. \<open>HttpServer\<close>:
    \<^verbatim>\<open>http/server.cpp\<close>; \<open>HttpServing\<close>: streams cut into pieces, routes, and requests that stop the server.
  \<^item> \<open>Examples\<close>, \<open>SplatoonExamples\<close>, \<open>AuthExamples\<close> and \<open>FriendsExamples\<close>: concrete servers, packets and requests for the
    witnesses. \<open>Faults\<close>: more of what the code does against its own intention.

  \<^bold>\<open>How the code is read.\<close> Bytes are \<open>8 word\<close>, integers keep their width and wrap. An exception is a
  value of \<open>exn\<close>; undefined behaviour (an index out of range, a null pointer) is the value
  \<open>UndefinedAccess\<close>, which no handler of the program catches; the invariants are about the states before
  it happens, and the findings name the inputs that lead to it (a datagram whose packet claims more
  bytes than there are is one). A \<^verbatim>\<open>std::map\<close> or \<^verbatim>\<open>std::set\<close> is an ascending
  list, an \<^verbatim>\<open>unordered_map\<close> an association list or a function. A \<^verbatim>\<open>shared_ptr\<close> to a session is an
  address in an explicit heap, since the code writes through such pointers while others hold them.
  Clock readings, random draws, MD5, HMAC, \<^verbatim>\<open>inet_pton\<close>, answers of the database and outcomes of gRPC
  calls are arguments; the theorems hold for all of them, or name what they need. An entry point
  reads the clock once. A table of the database is the list of its rows in the order of insertion,
  which is the order of a query without \<^verbatim>\<open>ORDER BY\<close>, and a transaction works on a copy of the tables
  that its first command takes and its commit puts in their place; ids are drawn as SQLite draws
  them. Any operation of the database may fail, and a failed one changes nothing. The mutexes make the entry points of the PRUDP server and the operations of
  the shared state atomic steps.

  \<^bold>\<open>Bounds.\<close> Loops over data are structural or have a measure. The other loops are partial functions,
  and that they end is proved: the timer loop and the packet queue, the loop over a connection's
  buffer, the draw of a gathering id at the first free one, and the draw of a second stage
  as soon as the distribution gives another one. A handler in a draw that never ends counts as
  undefined. No fuel is used.

  \<^bold>\<open>What the properties show.\<close> The first ones compose the layers: what a client sends is what the
  service gets (C1), a call is answered exactly once (C2), a ticket that was sold opens a connection
  (C3), a server object and the packets on the way refine a buffer of messages, messages and web
  requests that are sent in pieces can be read by the peer. Then the invariants of the PRUDP server,
  the game server and the friends server with its tables, who becomes a friend and how, the shared
  state, what leaving, joining and disconnecting do, the tickets, the
  round trips of packets, structures and files, and bounds. The last group states what the code does
  against its own intention; those theorems, and the ones of \<open>Faults\<close>, are named by findings of the
  manifest.

  \<^bold>\<open>Not modelled.\<close> A handler of the game server or the friends server is one step: the code can run
  another handler while it waits for a task or the database, and such interleavings are outside of
  the theorems. Logging is left out. Of the archives the serialisation, the string table and the
  textures are left out.
  \<^verbatim>\<open>abs\<close> in the automatic match is taken on 64 bits. Of the web server the threads, the start and the
  stop are left out, and of \<^verbatim>\<open>crypto\<close> everything that OpenSSL does. The services behind the web server
  (\<^verbatim>\<open>http/account\<close>, \<^verbatim>\<open>http/boss\<close>, \<^verbatim>\<open>http/management\<close>) are mostly statements for the
  database; of \<^verbatim>\<open>db\<close> the tables of the accounts and of the game files, and the two drivers, are left
  out; the Redis state is a set of scripts for its server; \<^verbatim>\<open>grpc\<close> and \<^verbatim>\<open>socket\<close> call libraries, and
  so do start-up and settings. They are listed in the manifest.
\<close>

section \<open>Properties\<close>

text \<open>
  C1. A client that is not connected yet to a running server sends a connect packet that the
  server accepts, on a substream that the server has. At most 100 calls follow, all on that
  substream, each in one unfragmented reliable packet, each of a method that is registered, with
  parameters that parse; they are encrypted in their order with the key of the connection,
  numbered from 2 on, and signed. Whichever packets of these arrive, in any order, some of them
  never and some of them many times, the RMC server then has in its queue, behind what was
  there, the parsed requests of the longest prefix of the calls that has arrived, once each and
  in order. The connection itself is only a task of the scheduler: requests carry the user that
  was noted before.
\<close>

theorem calls_reach_server:
  fixes rs :: "'p Call list" and s :: "'p Runtime PrudpServer"
  assumes "C = calls_channel ev addr sub port mv e (rt_server (rmc s)) rs" and "channel_ok C"
    and "opens C s p info" and "\<forall>r \<in> set rs. call_ok mv (rt_server (rmc s)) r"
    and "p_type p = CONNECT" "\<not> has_flag p FLAG_ACK" "\<not> has_flag p FLAG_MULTI_ACK" "dstPort p = port"
    and "registeredServers s port = Some \<lparr>startFunc = st, stopFunc = sp,
      connectFunc = scheduleOnConnect, disconnectFunc = df, dataFunc = runtime_onData\<rparr>"
    and "handlePacket ev addr p s = (r, s1)"
    and "\<forall>q \<in> set ps. admitted C a s1 q \<and> (\<exists>i. carries C i q)"
  shows "\<exists>n s'. run_session C a p ps s = (Inr (), s') \<and>
    requestsQueue (rt_server (rmc s')) = requestsQueue (rt_server (rmc s)) @
      map (request_info (rt_server (rmc s)) addr mv sub) (take n rs) \<and>
    rt_tasks (rmc s') = rt_tasks (rmc s) @ [ConnectTask addr (co_pid info)] \<and>
    (\<forall>i < n. \<exists>q \<in> set ps. carries C i q) \<and> (\<forall>q \<in> set ps. \<not> carries C n q)"
  using assms(2-) unfolding assms(1) by (rule session_requests)

theorem calls_reach_server_witness:
  "\<exists>s'. run_session ex_channel ex_ip ex_connect [ex_data 1, ex_data 0] ex_server = (Inr (), s') \<and>
    map ri_params (requestsQueue (rt_server (rmc s'))) = [[1], [2, 3]]"
proof -
  have "requestsQueue (rt_server (rmc ex_server)) = []" by (simp add: ex_rmc_def)
  moreover have "\<forall>r \<in> set ex_calls. call_ok 0 (rt_server (rmc ex_server)) r" using ex_calls_ok by simp
  ultimately obtain n s' where
    run: "run_session ex_channel ex_ip ex_connect [ex_data 1, ex_data 0] ex_server = (Inr (), s')"
    and q: "requestsQueue (rt_server (rmc s')) =
      map (request_info (rt_server (rmc ex_server)) ex_addr 0 0) (take n ex_calls)"
    and n: "\<forall>i < n. \<exists>q \<in> set [ex_data 1, ex_data 0]. carries ex_channel i q"
      "\<forall>q \<in> set [ex_data 1, ex_data 0]. \<not> carries ex_channel n q"
    using calls_reach_server [OF ex_channel_def ex_channel_ok ex_opens _ _ _ _ _ _ ex_connected_run ex_packets]
    by auto
  have "n \<noteq> 0" by (rule notI) (use n(2) ex_data_carries [of 0] in simp)
  moreover have "n \<noteq> 1" by (rule notI) (use n(2) ex_data_carries [of 1] in simp)
  ultimately have "take n ex_calls = ex_calls" by (simp add: ex_calls_def)
  with run q show ?thesis by (simp add: ex_calls_def request_info_def)
qed

text \<open>
  C2. Every call of the game server that does not leave the defined behaviour ends, without an
  exception, with exactly one response. It goes to the caller, and what the caller reads on the
  wire carries the protocol and the call id of its request; and the call keeps the shared state
  consistent.
\<close>

theorem call_answered_once:
  assumes run: "\<not> shouldStop (sp_rmc s)" and inv: "ss_inv {} {} (sp_state s)"
    and call: "run_call ev r s = (res, s')" and ok: "res \<noteq> Inl UndefinedAccess"
  shows "res = Inr () \<and> ss_inv {} {} (sp_state s') \<and>
    (\<exists>resp ps. replies s' = replies s @ [(ri_client r, resp)] \<and>
       OutResponse (ri_client r) resp ps \<in> set (sp_out s') \<and>
       (request_ok (ri_request r) \<and> length (concat ps) + 12 < 2 ^ 32 \<longrightarrow>
          (\<exists>d. out_message s' (OutResponse (ri_client r) resp ps) =
                 [(ci_address (ri_client r), d, ci_substreamId (ri_client r))] \<and>
               decode_Response d = Inr (seen_response resp, concat ps) \<and>
               rs_callId (seen_response resp) = rq_callId (ri_request r) \<and>
               rs_protocolId (seen_response resp) = rq_protocolId (ri_request r))))"
proof -
  obtain resp where r: "res = Inr ()" "ss_inv {} {} (sp_state s')" "sp_rmc s' = sp_rmc s"
    "replies s' = replies s @ [(ri_client r, resp)]" "answer_to (ri_request r) resp"
    by (rule run_call_result [OF run inv call ok])
  then obtain ps where ps: "OutResponse (ri_client r) resp ps \<in> set (sp_out s')"
    using replies_sent [of "ri_client r" resp s'] by auto
  have "\<exists>d. out_message s' (OutResponse (ri_client r) resp ps) =
        [(ci_address (ri_client r), d, ci_substreamId (ri_client r))] \<and>
      decode_Response d = Inr (seen_response resp, concat ps) \<and>
      rs_callId (seen_response resp) = rq_callId (ri_request r) \<and>
      rs_protocolId (seen_response resp) = rq_protocolId (ri_request r)"
    if "request_ok (ri_request r)" "length (concat ps) + 12 < 2 ^ 32"
    by (rule reply_on_the_wire [of s' "ri_request r" resp ps "ri_client r"]) (use r run that in auto)
  with r(1,2,4) ps show ?thesis by blast
qed

theorem call_answered_once_witness:
  "\<exists>resp. replies (snd (run_call ex_game_env ex_join_request (ex_game [10]))) = [(ex_player 20, resp)]"
proof -
  obtain s' where s': "run_call ex_game_env ex_join_request (ex_game [10]) = (Inr (), s')"
    using ex_join_runs by blast
  have "ri_client ex_join_request = ex_player 20" by (simp add: ex_join_request_def)
  then show ?thesis
    using call_answered_once [OF _ _ s'] ex_lobby_consistent by (simp add: s') blast
qed

text \<open>
  C3. From the account service to the game server. The conditions: a user id below 2 ^ 31, a
  password on record that is not empty, a web token signed with the shared key by the issuer
  'account' for that user and this game server, which has not expired and fits a string, a
  running server, a session key that is drawn not empty and shorter than 1024 bytes, a date
  whose year fits the wire, and a connection made no more than two minutes before the date of
  the ticket; decoding base64 inverts encoding, and the hashes have their lengths. Then the
  login is answered exactly once, with a ticket. The user opens the ticket with the key of its
  password and finds the session key; and every connect request made from it is accepted by the
  secure server, for that user and with that session key.
\<close>

theorem token_buys_connection:
  fixes client s
  defines "cf \<equiv> au_config s" and "mv \<equiv> ci_minorVersion client"
  assumes cr: "crypto_ok (ae_crypto ev)" and tc: "base64_ok (ae_tokens ev)" and run: "\<not> shouldStop (au_rmc s)"
    and sign: "signJWT (ae_tokens ev) (ac_jwtKey cf) payload = Inr (authToken info)" "string_ok (authToken info)"
    and json: "ae_json ev (bytes_of_string payload) = Inr \<lparr>jw_exp = Inr e, jw_iss = Inr ''account'',
      jw_game_server_id = Inr (ac_serverId cf), jw_sub = Inr pid, jw_username = Inr name\<rparr>"
    and "ae_time ev \<le> e" and pid: "unat pid < 2 ^ 31" and acc: "ae_access ev (au_db s) pid = AccessPassword p" "p \<noteq> []"
    and key: "key = ae_genKey ev (if ac_friends cf then 16 else 32)" "key \<noteq> []" "length key < 1024"
    and date: "datetime_ok (ae_now ev)" "ae_now ev div ns_per_sec * ns_per_sec \<le> later + two_minutes"
  shows "\<exists>ticket internal s'. loginEx ev client req (to_string (unat pid))
        \<lparr>adh_type = ''AuthenticationInfo'', adh_data = encode_AuthenticationInfo mv info\<rparr> s = (Inr (), s') \<and>
      au_out s' = au_out s @ [(client\<lparr>ci_pid := pid\<rparr>, auth_ok req, login_accepted cf mv pid ticket)] \<and>
      open_mac (ae_crypto ev) (generateUserKey (ae_crypto ev) (bytes_of_string p) pid) ticket =
        Inr (key @ encode_int (2 :: u32) @ encode_buffer TYPE(32) internal) \<and>
      (\<forall>cid chk d. connect_request (ae_crypto ev) key internal pid cid chk = Inr d \<longrightarrow>
         decryptConnectRequest (ae_crypto ev) later d (ac_secureServerKey cf) 2 =
           Inr \<lparr>co_sessionKey = key, co_pid = pid, co_connectionId = cid, co_checkValue = chk\<rparr>)"
proof -
  have "checkJWT ev (ac_jwtKey cf) (ac_serverId cf) pid (authToken info) = Inr (Some name)"
    by (rule checkJWT_accepts [OF tc sign(1) json]) fact
  then obtain ticket s' where t: "new_ticket ev cf pid p = Inr ticket"
    "loginEx ev client req (to_string (unat pid)) \<lparr>adh_type = ''AuthenticationInfo'',
       adh_data = encode_AuthenticationInfo mv info\<rparr> s = (Inr (), s')"
    "au_out s' = au_out s @ [(client\<lparr>ci_pid := pid\<rparr>, auth_ok req, login_accepted cf mv pid ticket)]"
    using loginEx_accepted [OF cr run _ sign(2) pid acc] unfolding cf_def mv_def by blast
  obtain internal where i: "internalTicket (ae_crypto ev) (ae_now ev) key pid
      (generateUserKey (ae_crypto ev) (ac_secureServerKey cf) 2) = Inr internal"
    "open_mac (ae_crypto ev) (generateUserKey (ae_crypto ev) (bytes_of_string p) pid) ticket =
       Inr (key @ encode_int (2 :: u32) @ encode_buffer TYPE(32) internal)"
    using generateTicket_opens [OF cr t(1) [unfolded new_ticket_def]] unfolding key(1) by blast
  show ?thesis
    using t(2,3) i(2) connect_request_accepted [OF cr date(1) key(2,3) date(2) i(1)] by blast
qed

theorem token_buys_connection_witness:
  "\<exists>ticket s'. loginEx ex_auth_env (ex_player 0) (ri_request ex_join_request) (to_string (unat (10 :: u32)))
      \<lparr>adh_type = ''AuthenticationInfo'', adh_data = encode_AuthenticationInfo 0 ex_auth_info\<rparr> (ex_auth False) = (Inr (), s') \<and>
    au_out s' = [((ex_player 0)\<lparr>ci_pid := 10\<rparr>, auth_ok (ri_request ex_join_request),
      login_accepted (au_config (ex_auth False)) 0 10 ticket)]"
proof -
  have tok: "length ex_token < 65535" by (simp add: ex_token_short)
  have date: "datetime_ok 0" by code_simp
  from token_buys_connection [where ev = ex_auth_env and s = "ex_auth False" and client = "ex_player 0"
      and info = ex_auth_info and payload = "''p''" and e = 100 and pid = 10 and name = "''a''" and p = "''pw''"
      and key = "replicate 32 7" and later = 0 and req = "ri_request ex_join_request"]
  show ?thesis
    using ex_tokens_ok ex_token_signed tok date
    by (simp add: ex_auth_env_def ex_auth_info_def string_ok_def ex_player_def two_minutes_def) blast
qed

text \<open>
  C4. A reliable substream implements a reordering buffer: whichever packet of the channel is
  processed, the new state of the server represents what the abstract buffer makes of its
  number. A number that was taken changes nothing, any other is put in its place, and the run
  that is complete is decrypted and handed over.
\<close>

theorem stream_refines_buffer:
  assumes "channel_ok C" and "receiver C r0 n js s" and "sorted_wrt (<) js"
    and "carries C i p" and "packet_substream s p = ch_sub C"
  shows "\<exists>s'. process_reliable (ch_env C) (ch_addr C) p s = (Inr (), s') \<and>
    receiver C r0 (fst (buffer_arrive i (n, js))) (snd (buffer_arrive i (n, js))) s'"
  using process_reliable_delivers [OF assms(1) refl assms(2,4,5,3)] by blast

theorem stream_refines_buffer_witness:
  "\<exists>s'. process_reliable ex_env ex_addr (ex_data 1) ex_connected = (Inr (), s') \<and>
    receiver ex_channel (rmc ex_connected) 0 [1] s'"
  using stream_refines_buffer [OF ex_channel_ok ex_connected_receiver _ ex_data_carries [of 1]]
  by (simp add: packet_substream_def buffer_arrive_def)

text \<open>
  C5. As long as no step reads or erases outside its buffers (the findings name datagrams that
  make the server do so), whatever datagrams arrive, timers fire and messages are sent, a PRUDP
  server keeps its delayed packets in the order of their times, none of them sent again more
  than three times, and every client keeps one substream and one encoder for each substream id,
  with queues that are strictly ascending and hold at most 101 packets.
\<close>

theorem prudp_server_invariant:
  assumes "s0 = PrudpServer_init major key ath pid passwd frs minor funs maxSub initSeq proxies r"
    and "prudp_step\<^sup>*\<^sup>* s0 s"
  shows "sorted (map fst (delayedPackets s)) \<and> (\<forall>(t, d) \<in> set (delayedPackets s). numRetries d \<le> 3) \<and>
    (\<forall>addr c. clients s addr = Some c \<longrightarrow>
       length (substreams c) = unat (sv_maxSubstreamId s0) + 1 \<and>
       length (encoders (cl_encoder c)) = unat (sv_maxSubstreamId s0) + 1 \<and>
       (\<forall>st \<in> set (substreams c). sorted_wrt (<) (map seqId (packetQueue st)) \<and>
          length (packetQueue st) \<le> 101))"
proof -
  have "server_fine (sv_maxSubstreamId s0) s"
    using reachable_fine [OF assms(2) server_fine_init [OF assms(1)]] .
  then show ?thesis
    by (auto simp: server_fine_def delayed_fine_def client_fine_def queue_fine_def MAX_RETRIES_def
        MAX_PACKET_QUEUE_SIZE_def)
qed

theorem prudp_server_invariant_witness:
  "\<exists>(s :: bytes Runtime PrudpServer) c. clients s ex_addr = Some c \<and> delayedPackets s \<noteq> [] \<and> length (substreams c) = 1 \<and>
    (\<forall>(t, d) \<in> set (delayedPackets s). numRetries d \<le> 3)"
proof -
  let ?s0 = "PrudpServer_init 0 [65, 66] True 0 [] True 0 0 0 1 [] \<lparr>rt_server = ex_rmc, rt_tasks = []\<rparr>"
  obtain s c where arrives: "onData ex_env ex_ip ex_connect_bytes ex_server = (Inr (), s)"
    and c: "clients s ex_addr = Some c" and d: "delayedPackets s \<noteq> []"
    using ex_connect_arrives by blast
  have "prudp_step ?s0 ex_server"
    unfolding ex_server_def registerPRUDPServer_def by (rule prudp_step.register)
  moreover have "prudp_step ex_server s" by (rule prudp_step.datagram [OF arrives]) simp
  ultimately have "prudp_step\<^sup>*\<^sup>* ?s0 s" by (rule rtranclp.rtrancl_into_rtrancl [OF r_into_rtranclp])
  from prudp_server_invariant [OF refl this] c d show ?thesis
    by (intro exI [of _ s] exI [of _ c]) (simp add: PrudpServer_init_def)
qed

text \<open>
  C6. A message handed to \<open>sendDataPacket\<close> goes out as datagrams that the client
  decodes to signed packets: their sequence ids continue the substream's, the fragments are
  numbered from 1 with 0 for the last, none is longer than 962 bytes, and a client whose decoder
  stands where the server's encoder stood decrypts them to the message.
\<close>

theorem message_fragments_reassemble:
  assumes "crypto_ok (crypto ev)" and "ready addr sub c s" and "client_peer s c q" and "d \<noteq> []"
    and "n = (length d + MAX_PACKET_SIZE - 1) div MAX_PACKET_SIZE"
    and "synced (encoders (cl_encoder c) ! unat sub) e"
  shows "\<exists>bs rs s'. sendDataPacket ev addr d sub s = (Inr (), s') \<and>
    sent_datagrams s' = sent_datagrams s @ map (Pair (pa_address addr)) bs \<and>
    list_all2 (\<lambda>b r. decode_packet q b = Inr (r, length b) \<and> checkSignature (crypto ev) r) bs rs \<and>
    length rs = n \<and> map seqId rs = map (\<lambda>i. st_seqId (substreams c ! unat sub) + of_nat i) [0..<n] \<and>
    map fragmentId rs = map (\<lambda>i. 1 + of_nat i) [0..<n - 1] @ [0] \<and>
    (\<forall>r \<in> set rs. length (encryptedData r) \<le> 962) \<and>
    concat (snd (decode_all e (map encryptedData rs))) = d"
proof -
  from sendDataPacket_reads [OF assms(1-4)] obtain bs rs ds s' where
    run: "sendDataPacket ev addr d sub s = (Inr (), s')"
      "sent_datagrams s' = sent_datagrams s @ map (Pair (pa_address addr)) bs"
    and rs: "list_all2 (reads (crypto ev) q) bs rs" "length bs = n"
      "map seqId rs = map (\<lambda>i. st_seqId (substreams c ! unat sub) + of_nat i) [0..<n]"
      "map fragmentId rs = map (\<lambda>i. 1 + of_nat i) [0..<n - 1] @ [0]"
    and enc: "map encryptedData rs = snd (encode_all (encoders (cl_encoder c) ! unat sub) ds)"
    and ds: "concat ds = d" "\<forall>x \<in> set ds. length x \<le> MAX_PACKET_SIZE"
    unfolding assms(5) by blast
  have "concat (snd (decode_all e (map encryptedData rs))) = d"
    using decode_all_encode_all [OF assms(6), of ds] by (simp only: enc ds(1))
  moreover have "map length (map encryptedData rs) = map length ds"
    unfolding enc by (rule lengths_encode_all)
  then have "\<forall>r \<in> set rs. length (encryptedData r) \<le> 962"
    using ds(2) lengths_bounded [of "map encryptedData rs" ds 962] by (simp add: MAX_PACKET_SIZE_def)
  moreover have "length rs = n" using rs(1,2) by (auto dest: list_all2_lengthD)
  ultimately show ?thesis using run rs by (auto simp: reads_def [abs_def])
qed

theorem message_fragments_reassemble_witness:
  "\<exists>bs rs s'. sendDataPacket ex_env ex_addr (replicate 1000 7) 0 ex_linked = (Inr (), s') \<and>
    length rs = 2 \<and> map fragmentId rs = [1, 0] \<and>
    list_all2 (\<lambda>b r. decode_packet ex_peer b = Inr (r, length b) \<and> checkSignature sum_crypto r) bs rs"
proof -
  have n: "(2 :: nat) = (length (replicate 1000 (7 :: u8)) + MAX_PACKET_SIZE - 1) div MAX_PACKET_SIZE"
    by (simp add: MAX_PACKET_SIZE_def)
  have sync: "synced (encoders (cl_encoder ex_client) ! unat (0 :: u8)) (encoders ex_encoders ! 0)"
    using ex_encoders_fields(2) by (simp add: ex_linked_ready(3))
  have "replicate 1000 (7 :: u8) \<noteq> []" by simp
  from message_fragments_reassemble [OF ex_env_simps(2) ex_linked_ready(1,2) this n sync] obtain bs rs s' where
    "sendDataPacket ex_env ex_addr (replicate 1000 7) 0 ex_linked = (Inr (), s')"
    "list_all2 (\<lambda>b r. decode_packet ex_peer b = Inr (r, length b) \<and> checkSignature sum_crypto r) bs rs"
    "length rs = 2" "map fragmentId rs = map (\<lambda>i. 1 + of_nat i) [0..<2 - 1] @ [0]"
    unfolding ex_env_simps(1) by blast
  then show ?thesis by (intro exI [of _ bs] exI [of _ rs] exI [of _ s']) simp
qed

text \<open>
  C7. However the network cuts a stream of requests, the web server queues each of them once and
  in order. The requests are those that the serialiser writes and the parser takes: the method
  is not PATCH; the path begins with a slash, ends with none unless it is the root, and is
  printable ASCII; the query's keys are distinct and not empty, and printable like its values;
  header names are distinct, lower case, printable, without a colon, and none of them
  content-length or transfer-encoding; each has a value at least, and the values are printable,
  not empty and without a blank at the end. Bodies are arbitrary. The whole stream has at most
  MAX_PAYLOAD_SIZE (104857600) bytes, and the connection is known, with an empty buffer. Then,
  for every way to cut the stream into pieces, empty ones included, the loop returns after each
  piece; in the end the queue has grown by the requests, each with its path, query, headers and
  body and its content length, and the connection's buffer is empty.
\<close>

theorem requests_survive_fragmentation:
  assumes "list_all http_request_ok rs" and "concat pieces = stream_of rs" and "length (stream_of rs) \<le> MAX_PAYLOAD_SIZE"
    and "hs_clients s i \<noteq> None" and "hs_buffers s i = Some []"
  shows "receive_all ev i pieces s = Some (s\<lparr>hs_queue := hs_queue s @ map (\<lambda>r. (i, with_length r)) rs,
    hs_buffers := (hs_buffers s)(i \<mapsto> [])\<rparr>)"
  using receive_stream [OF assms(1) _ assms(4,5,3), of pieces ev] assms(2)
  by (simp add: partial_request_def after_requests_def queued_requests_def)

theorem requests_survive_fragmentation_witness:
  "receive_all ex_http_env 1 (map (\<lambda>c. [c]) (stream_of [ex_http_request, ex_http_request])) ex_http_server =
    Some (ex_http_server\<lparr>hs_queue := [(1, with_length ex_http_request), (1, with_length ex_http_request)],
      hs_buffers := (hs_buffers ex_http_server)(1 \<mapsto> [])\<rparr>)"
  using requests_survive_fragmentation [of "[ex_http_request, ex_http_request]"
      "map (\<lambda>c. [c]) (stream_of [ex_http_request, ex_http_request])" ex_http_server 1 ex_http_env]
    ex_http_request_ok ex_http_request_short
  by (simp add: ex_http_server_def onAccept_def http_server_def MAX_PAYLOAD_SIZE_def)

text \<open>
  C8. In every state the game server can reach from its start, with messages, connections and
  disconnections arriving in any order, the sessions and the clients agree: a session is filed
  under its id and counts its players, and a gathering that a client has joined is a session it
  plays in.
\<close>

theorem splatoon_server_invariant:
  assumes "splatoon_step\<^sup>*\<^sup>* ([], Splatoon_init inet serverId (LocalSharedState_init serverId rpc h)) (ts, s)"
  shows "(\<forall>g si. map_of (sessions (sp_state s)) g = Some si \<longrightarrow>
      g_id (heap (sp_state s) (si_session si)) = g \<and> distinct (si_players si) \<and>
      participationCount (heap (sp_state s) (si_session si)) = of_nat (length (si_players si))) \<and>
    (\<forall>pid ci a. map_of (clientInfos (sp_state s)) pid = Some ci \<longrightarrow> a \<in> set (joinedGatherings ci) \<longrightarrow>
      plays (sp_state s) pid (g_id (heap (sp_state s) a)))"
proof -
  have "ss_inv {} {} (sp_state s)"
    by (rule splatoon_reachable [OF assms]) (simp add: Splatoon_init_def ss_inv_init)
  from ss_invD [OF this] show ?thesis
    by (fastforce simp: session_entry_ok_def joined_ok_def)
qed

theorem splatoon_server_invariant_witness:
  "map_of (sessions (sp_state (Splatoon_init ex_inet 7 (LocalSharedState_init 7 '''' (\<lambda>_. ex_lobby))))) 9 \<noteq>
    Some \<lparr>si_session = 0, si_players = [10, 10]\<rparr>"
proof -
  have "splatoon_step\<^sup>*\<^sup>* ([], Splatoon_init ex_inet 7 (LocalSharedState_init 7 '''' (\<lambda>_. ex_lobby)))
      ([ConnectTask ex_addr 5], Splatoon_init ex_inet 7 (LocalSharedState_init 7 '''' (\<lambda>_. ex_lobby)))"
    by (rule r_into_rtranclp) (use splatoon_step.connect [of "[]"] in simp)
  from splatoon_server_invariant [OF this] show ?thesis by fastforce
qed

text \<open>
  C9. A session belongs to its players and its owner: a request of anybody else that is not one
  to join it, or to be matched, leaves the entry of the session and its object exactly as they
  were, whatever the request says.
\<close>

theorem outsiders_change_nothing:
  assumes run: "\<not> shouldStop (sp_rmc s)" and inv: "ss_inv {} {} (sp_state s)"
    and si: "map_of (sessions (sp_state s)) g = Some si"
    and out: "ci_pid client \<notin> set (si_players si)"
      "ownerPid (heap (sp_state s) (si_session si)) \<noteq> ci_pid client" "\<not> may_join g params"
    and call: "splatoon_call ev client req params s = (r, s')" and ok: "r \<noteq> Inl UndefinedAccess"
  shows "map_of (sessions (sp_state s')) g = Some si \<and>
    heap (sp_state s') (si_session si) = heap (sp_state s) (si_session si)"
proof -
  let ?m = "heap (sp_state s) (si_session si)"
  have start: "stage client req s (kept g si ?m) 0 s"
    by (rule stage_start) (simp add: kept_def si consistent_ids_ok [OF inv])
  from spares_call [OF out] run
  have "runs (stage client req s (kept g si ?m) 0) (splatoon_call ev client req params)
      (\<lambda>_. stage client req s (kept g si ?m) (Suc 0))"
    by (simp add: spares_def)
  from runsD [OF this start call ok] have "stage client req s (kept g si ?m) (Suc 0) s'" by metis
  then show ?thesis by (simp add: stage_def kept_def)
qed

theorem outsiders_change_nothing_witness:
  "map_of (sessions (sp_state (snd (splatoon_call ex_game_env (ex_player 20) (ri_request ex_join_request)
     (EndParticipation 9 '''') (ex_game [10]))))) 9 = Some \<lparr>si_session = 0, si_players = [10]\<rparr>"
proof -
  obtain u s' where s': "splatoon_call ex_game_env (ex_player 20) (ri_request ex_join_request)
      (EndParticipation 9 '''') (ex_game [10]) = (Inr u, s')"
    by (rule calmE [of "splatoon_call ex_game_env (ex_player 20) (ri_request ex_join_request) (EndParticipation 9 '''')"])
       (simp add: splatoon_call_def endParticipation_def, (rule calm_intros)+)
  from outsiders_change_nothing [OF _ _ _ _ _ _ s', of 9 "\<lparr>si_session = 0, si_players = [10]\<rparr>"]
  show ?thesis
    using ex_lobby_consistent(1)
    by (simp add: s') (simp add: ex_player_def ex_lobby_state_def ex_lobby_def)
qed

text \<open>
  C10. A player that leaves a session, by itself or by losing its connection, is taken off it;
  if it owned or hosted the session, the smallest remaining user id takes its place, and
  everything else of the session stays. When nobody is left, the session is deleted.
\<close>

theorem leaving_hands_over:
  assumes inv: "ss_inv {} {} (sp_state s)" and si: "map_of (sessions (sp_state s)) g = Some info"
    and p: "pid \<in> set (si_players info)" and reg: "registered (sp_state s) pid"
  shows "\<exists>s'. removePlayerFromSession ev g pid msg disconnected s = (Inr (), s') \<and>
    ss_inv {} {} (sp_state s') \<and> replies s' = replies s \<and>
    (let ps = remove1 pid (si_players info) in
     if ps = [] then map_of (sessions (sp_state s')) g = None
     else \<exists>a'. map_of (sessions (sp_state s')) g = Some \<lparr>si_session = a', si_players = ps\<rparr> \<and>
       heap (sp_state s') a' = left_object pid ps (heap (sp_state s) (si_session info)))"
proof -
  let ?st = "sp_state s" and ?ps = "remove1 pid (si_players info)"
  have "\<exists>st'. leads ?st (removePlayerFromSession ev g pid msg disconnected) st' \<and>
      (if ?ps = [] then map_of (sessions st') g = None
       else \<exists>a'. map_of (sessions st') g = Some \<lparr>si_session = a', si_players = ?ps\<rparr> \<and>
         heap st' a' = left_object pid ?ps (heap ?st (si_session info)))"
  proof (cases "?ps = []")
    case True
    from leave_alone [OF inv si reg p True] show ?thesis using True by (metis delete_conv' fun_upd_same)
  next
    case False
    obtain st' a' where "leads ?st (removePlayerFromSession ev g pid msg disconnected) st'"
      "sessions st' = AList.update g \<lparr>si_session = a', si_players = ?ps\<rparr> (sessions ?st)"
      "heap st' a' = left_object pid ?ps (heap ?st (si_session info))"
      by (rule leave_with_others [OF inv si reg p False])
    then show ?thesis using False by (auto simp: update_conv')
  qed
  then obtain st' where st': "leads ?st (removePlayerFromSession ev g pid msg disconnected) st'"
    and res: "if ?ps = [] then map_of (sessions st') g = None
       else \<exists>a'. map_of (sessions st') g = Some \<lparr>si_session = a', si_players = ?ps\<rparr> \<and>
         heap st' a' = left_object pid ?ps (heap ?st (si_session info))" by blast
  have "ss_inv {} {} st'" by (rule leads_keeps [OF st' inv runs_removePlayerFromSession])
  moreover obtain s' where "removePlayerFromSession ev g pid msg disconnected s = (Inr (), s')"
    "sp_state s' = st'" "replies s' = replies s"
    by (rule leadsD [OF st' refl])
  ultimately show ?thesis using res by (auto simp: Let_def)
qed

theorem leaving_hands_over_witness:
  "\<exists>s' a'. removePlayerFromSession ex_game_env 9 10 '''' True (ex_game [10, 20]) = (Inr (), s') \<and>
     map_of (sessions (sp_state s')) 9 = Some \<lparr>si_session = a', si_players = [20]\<rparr> \<and>
     ownerPid (heap (sp_state s') a') = 20 \<and> hostPid (heap (sp_state s') a') = 20"
proof -
  have si: "map_of (sessions (sp_state (ex_game [10, 20]))) 9 = Some \<lparr>si_session = 0, si_players = [10, 20]\<rparr>"
    by (simp add: ex_lobby_state_def)
  have reg: "registered (sp_state (ex_game [10, 20])) 10" by (simp add: registered_def ex_lobby_state_def)
  have owner: "ownerPid (heap (ex_lobby_state [10, 20]) 0) = 10" "hostPid (heap (ex_lobby_state [10, 20]) 0) = 10"
    by (simp_all add: ex_lobby_state_def ex_lobby_def)
  from leaving_hands_over [OF _ si _ reg, of ex_game_env "''''" True] show ?thesis
    using ex_lobby_consistent(2) by (fastforce simp: left_object_def owner Let_def)
qed

text \<open>
  C11. After the disconnection of an address the user it was recorded for is no longer
  registered and plays in none of the gatherings it had joined, nobody is answered, and the
  shared state is consistent. The record of the address itself stays: the handler of the base
  class is called, but its task is never awaited, so the map of users keeps the address for
  ever.
\<close>

theorem disconnect_clears_player:
  assumes inv: "ss_inv {} {} (sp_state s)" and addr: "pidMap (sp_rmc s) addr = Some pid"
  shows "\<exists>s'. splatoon_onDisconnect ev addr s = (Inr (), s') \<and> ss_inv {} {} (sp_state s') \<and>
    replies s' = replies s \<and> \<not> registered (sp_state s') pid \<and>
    (\<forall>ci a. map_of (clientInfos (sp_state s)) pid = Some ci \<longrightarrow> a \<in> set (joinedGatherings ci) \<longrightarrow>
       \<not> plays (sp_state s') pid (g_id (heap (sp_state s) a))) \<and>
    pidMap (sp_rmc s') addr = Some pid"
proof -
  obtain s' where "splatoon_onDisconnect ev addr s = (Inr (), s')" "ss_inv {} {} (sp_state s')"
    "sp_rmc s' = sp_rmc s" "replies s' = replies s" "\<not> registered (sp_state s') pid"
    "\<And>ci a. map_of (clientInfos (sp_state s)) pid = Some ci \<Longrightarrow> a \<in> set (joinedGatherings ci) \<Longrightarrow>
      \<not> plays (sp_state s') pid (g_id (heap (sp_state s) a))"
    by (rule onDisconnect_result [OF inv addr]) blast
  then show ?thesis using addr by auto
qed

theorem disconnect_clears_player_witness:
  "\<exists>s'. splatoon_onDisconnect ex_game_env (ex_player_addr 20) (ex_game [10, 20]) = (Inr (), s') \<and>
     \<not> plays (sp_state s') 20 9 \<and> pidMap (sp_rmc s') (ex_player_addr 20) = Some 20"
proof -
  have "map_of (clientInfos (ex_lobby_state [10, 20])) 20 = Some (ex_member 20 [0])"
    "g_id (heap (ex_lobby_state [10, 20]) 0) = 9"
    by (simp_all add: ex_lobby_state_def ex_lobby_def)
  moreover from disconnect_clears_player [of "ex_game [10, 20]" "ex_player_addr 20" 20 ex_game_env]
  obtain s' where "splatoon_onDisconnect ex_game_env (ex_player_addr 20) (ex_game [10, 20]) = (Inr (), s')"
    "\<And>ci a. map_of (clientInfos (ex_lobby_state [10, 20])) 20 = Some ci \<Longrightarrow> a \<in> set (joinedGatherings ci) \<Longrightarrow>
      \<not> plays (sp_state s') 20 (g_id (heap (ex_lobby_state [10, 20]) a))"
    "pidMap (sp_rmc s') (ex_player_addr 20) = Some 20"
    using ex_lobby_consistent(2) by auto
  ultimately show ?thesis by (fastforce simp: ex_member_def)
qed

text \<open>
  C12. A request to join that the checks grant adds the client and its additional players to the
  session and counts them. The capacity check counts the additional players but not the client,
  so the session can end with one player more than its maximum; never with two.
\<close>

theorem join_adds_players:
  assumes inv: "ss_inv {} {} (sp_state s)" and run: "\<not> shouldStop (sp_rmc s)"
    and g: "join_granted (sp_state s) (ci_pid client) param info" and small: "length (si_players info) < 2 ^ 32"
  defines "all \<equiv> fold insort_insert (ci_pid client # jp_additionalParticipants param) (si_players info)"
  shows "\<exists>s' a'. joinMatchmakeSessionWithParam ev client req param s = (Inr (), s') \<and>
    map_of (sessions (sp_state s')) (jp_gid param) = Some \<lparr>si_session = a', si_players = all\<rparr> \<and>
    heap (sp_state s') a' = (heap (sp_state s) (si_session info))\<lparr>participationCount := of_nat (length all)\<rparr> \<and>
    set all = insert (ci_pid client) (set (jp_additionalParticipants param) \<union> set (si_players info)) \<and>
    length all \<le> unat (maxParticipants (heap (sp_state s) (si_session info))) + 1"
proof -
  have "getSplatoonMatchmakeSession (sp_state s) (jp_gid param) = Some info"
    using g by (simp add: join_granted_def Let_def)
  from sorted_fold_insort(3) [OF session_facts(1,2) [OF inv this]]
  have "set all = insert (ci_pid client) (set (jp_additionalParticipants param) \<union> set (si_players info))"
    by (simp add: all_def del: fold_Cons)
  moreover have "length all \<le> unat (maxParticipants (heap (sp_state s) (si_session info))) + 1"
    unfolding all_def by (rule join_all_bound [OF inv g small])
  moreover obtain s' a' where "joinMatchmakeSessionWithParam ev client req param s = (Inr (), s')"
    "map_of (sessions (sp_state s')) (jp_gid param) = Some \<lparr>si_session = a', si_players = all\<rparr>"
    "heap (sp_state s') a' = (heap (sp_state s) (si_session info))\<lparr>participationCount := of_nat (length all)\<rparr>"
    unfolding all_def by (rule join_result [OF inv run g])
  ultimately show ?thesis by blast
qed

theorem join_adds_players_witness:
  "\<exists>s' a'. joinMatchmakeSessionWithParam ex_game_env (ex_player 20) (ri_request ex_join_request) ex_join (ex_game [10]) = (Inr (), s') \<and>
     map_of (sessions (sp_state s')) 9 = Some \<lparr>si_session = a', si_players = [10, 20]\<rparr> \<and>
     unat (maxParticipants (heap (sp_state s') a')) = 1"
proof -
  have pid: "ci_pid (ex_player 20) = 20" by (simp add: ex_player_def)
  have all: "fold insort_insert (20 # jp_additionalParticipants ex_join) [10] = [10, 20 :: u32]" "jp_gid ex_join = 9"
    by (simp_all add: ex_join_def insort_insert_key_def)
  have m: "maxParticipants (heap (ex_lobby_state [10]) 0) = 1"
    by (simp add: ex_lobby_state_def ex_lobby_def)
  from join_adds_players [of "ex_game [10]" "ex_player 20" ex_join "\<lparr>si_session = 0, si_players = [10]\<rparr>" ex_game_env "ri_request ex_join_request"]
  show ?thesis using ex_lobby_consistent(1) ex_join_granted by (auto simp: pid all m simp del: fold_Cons)
qed

text \<open>
  C13. In every state that the friends server can reach, with messages, connections,
  disconnections and deleted accounts arriving in any order and the database failing at any
  command, the tables are what their schema says: names and ids are unique, there is one
  friendship and one request at most between two users, one block in each direction, and every
  row refers to users that exist. The registered clients are filed under their own ids, none is
  the guest, and their friend lists are ascending and without repetitions.
\<close>

theorem friends_server_invariant:
  assumes "friends_step\<^sup>*\<^sup>* ([], Friends_init inet serverId (LocalSharedState_init serverId rpc h) t) (ts, s)"
    and "tables_ok t"
  shows "tables_ok (fd_tables s) \<and>
    (\<forall>k i. getFriendsRegisteredClientInfo (fd_state s) k = Some i \<longrightarrow> k \<noteq> 100 \<and> fr_pid i = k \<and>
       ci_pid (fr_client i) = k \<and> sorted (fr_friends i) \<and> distinct (fr_friends i))"
proof -
  have "friends_ok (Friends_init inet serverId (LocalSharedState_init serverId rpc h) t)"
    using assms(2) by (simp add: friends_ok_def database_ok_def friend_lists_ok_def Friends_init_def
        LocalSharedState_init_def getFriendsRegisteredClientInfo_def)
  from reachable_friends_ok [OF assms(1) this] show ?thesis
    by (simp add: friends_ok_def database_ok_def friend_lists_ok_def friend_entry_ok_def)
qed

theorem friends_server_invariant_witness:
  "distinct (map friendship_uidx (tb_friendships (fd_tables
      (Friends_init ex_inet 7 (LocalSharedState_init 7 '''' (\<lambda>_. ex_lobby)) (ex_tables [ex_asked []] [] [])))))"
proof -
  let ?s = "Friends_init ex_inet 7 (LocalSharedState_init 7 '''' (\<lambda>_. ex_lobby)) (ex_tables [ex_asked []] [] [])"
  have "friends_step\<^sup>*\<^sup>* ([], ?s) ([ConnectTask ex_addr 5], ?s)"
    by (rule r_into_rtranclp) (use friends_step.connect [of "[]"] in simp)
  from friends_server_invariant [OF this ex_tables_ok(1)] show ?thesis by (simp add: tables_ok_def)
qed

text \<open>
  C14. Nobody becomes a friend without having asked. Whatever call a client makes, and whatever
  the database does, every friendship that is new in the tables afterwards is between the caller
  and a user whose request to the caller was there before; and no call makes a request to its
  own caller appear.
\<close>

theorem friendship_needs_request:
  assumes "fd_session s = None" and "friends_call ev client req params s = (r, s')" and "r \<noteq> Inl UndefinedAccess"
  shows "(\<forall>f \<in> set (tb_friendships (fd_tables s')). f \<in> set (tb_friendships (fd_tables s)) \<or>
      fsh_pid f = ci_pid client \<and> asked (fd_tables s) (fsh_friendPid f) (ci_pid client)) \<and>
    (\<forall>q. asked (fd_tables s') q (ci_pid client) \<longrightarrow> asked (fd_tables s) q (ci_pid client))"
  using call_consent [OF assms] by (auto simp: consent_def asked_def)

theorem friendship_needs_request_witness:
  "asked (fd_tables (ex_friends [] (ex_tables [ex_asked ex_message] [] []))) 20 10 \<and>
   tb_friendships (fd_tables (snd (ex_accept (ex_friends [] (ex_tables [ex_asked ex_message] [] []))))) =
     [\<lparr>fsh_pid = 10, fsh_friendPid = 20, fsh_becameFriends = 0\<rparr>]"
proof -
  let ?s = "ex_friends [] (ex_tables [ex_asked ex_message] [] [])"
  obtain r s' where run: "ex_accept ?s = (r, s')" by fastforce
  have fs: "tb_friendships (fd_tables s') = [\<lparr>fsh_pid = 10, fsh_friendPid = 20, fsh_becameFriends = 0\<rparr>]"
    and r: "r \<noteq> Inl UndefinedAccess"
    using ex_accept_runs by (simp_all add: run noticed_def befriended_def)
  from friendship_needs_request [OF _ run [unfolded ex_accept_def] r] fs show ?thesis by (simp add: run)
qed

text \<open>
  C15. Every call of the friends server, of the 23 it registers, that stays within the defined
  behaviour is answered, whatever the database does: the worker ends normally, what it has sent
  in answer goes to the address of the caller with the protocol, the method and the call id of
  its request, and it is one answer if the handler has not thrown, and never more than two.
\<close>

theorem friends_call_answered:
  assumes "\<not> shouldStop (fd_rmc s)" and "run_friends_call ev r s = (res, s')" and "res \<noteq> Inl UndefinedAccess"
  shows "res = Inr () \<and> fd_rmc s' = fd_rmc s \<and>
    (\<exists>rs. fd_replies s' = fd_replies s @ rs \<and> length rs \<in> {1, 2} \<and>
       (\<forall>(c, a) \<in> set rs. ci_address c = ci_address (ri_client r) \<and> answer_to (ri_request r) a) \<and>
       (fst (friends_call ev (ri_client r) (ri_request r) (ri_params r) s) = Inr () \<longrightarrow> length rs = 1))"
  using run_call_answers [OF assms] .

theorem friends_call_answered_witness:
  "\<exists>c a. fd_replies (snd (run_friends_call (ex_friends_env (\<lambda>n. n = 3))
      \<lparr>ri_client = ex_player 10, ri_request = ex_friends_request, ri_params = AcceptFriendRequest 5\<rparr>
      (ex_friends [] (ex_tables [ex_asked ex_message] [] [])))) = [(c, a)] \<and> rs_callId a = 3"
proof -
  let ?r = "\<lparr>ri_client = ex_player 10, ri_request = ex_friends_request, ri_params = AcceptFriendRequest 5\<rparr>"
  let ?s = "ex_friends [] (ex_tables [ex_asked ex_message] [] [])"
  obtain s' where call: "friends_call (ex_friends_env (\<lambda>n. n = 3)) (ex_player 10) ex_friends_request
      (AcceptFriendRequest 5) ?s = (Inr (), s')"
    using ex_failing_accept by blast
  then obtain t where run: "run_friends_call (ex_friends_env (\<lambda>n. n = 3)) ?r ?s = (Inr (), t)"
    by (simp add: run_friends_call_def close_session_def)
  have "fd_replies ?s = []" by (simp add: fd_replies_def)
  with friends_call_answered [OF _ run] call run obtain rs where rs: "fd_replies t = rs" "length rs = 1"
    "\<forall>(c, a) \<in> set rs. answer_to ex_friends_request a"
    by auto
  then obtain c a where "rs = [(c, a)]" by (cases rs) auto
  with rs run show ?thesis by (auto simp: answer_to_def ex_friends_request_def)
qed

text \<open>
  C16. A user who is blocked stays unheard. When the client asks somebody who blocks it, in any
  of the three ways (by id, by id with a message, by a name that the table of users has), nobody
  is called, no friendship comes about, not even when the other had asked before, and a request
  that is stored has a message marked as rejected: it is not among the requests that a receiver
  whose connection has the same minor version is shown when it asks for them.
\<close>

theorem blocked_user_unheard:
  assumes "fd_session s = None" and "blocks (fd_tables s) q (ci_pid client)" and "asks (fd_tables s) params q"
    and "friends_call ev client req params s = (r, s')" and "r \<noteq> Inl UndefinedAccess"
  shows "sent_calls s' = sent_calls s \<and> set (tb_friendships (fd_tables s')) \<subseteq> set (tb_friendships (fd_tables s)) \<and>
    (\<forall>r \<in> set (tb_requests (fd_tables s')). r \<in> set (tb_requests (fd_tables s)) \<or>
       (\<exists>msg. frm_id msg = REJECTED \<and> rqr_data r = encode_FriendRequestMsg (ci_minorVersion client) msg) \<and>
       (\<forall>nna shown. received_request (ci_minorVersion client) (r, nna) = Inr shown \<longrightarrow> shown = []))"
  using blocked_sender [OF assms] rejected_not_shown by (fastforce simp: kept_out_def)

theorem blocked_user_unheard_witness:
  "\<exists>s. ex_ask (ex_friends [] (ex_tables [] [ex_blocked] [])) = (Inr (), s) \<and> sent_calls s = [] \<and>
    tb_friendships (fd_tables s) = []"
proof -
  obtain s where run: "ex_ask (ex_friends [] (ex_tables [] [ex_blocked] [])) = (Inr (), s)"
    using ex_ask_runs by blast
  have "blocks (ex_tables [] [ex_blocked] []) 20 10" by (simp add: blocks_def ex_blocked_def)
  moreover have "asks T (AddFriend 20) 20" for T by (simp add: asks_def)
  ultimately show ?thesis
    using blocked_user_unheard [of _ 20 "ex_player 10", OF _ _ _ run [unfolded ex_ask_def]] run
    by (simp add: sent_calls_def)
qed

text \<open>
  C17. Accepting works. With a running server, a database that answers and whose tables are what
  their schema says, a registered caller that is not the guest, no request from or to the caller
  that has expired, no friendship between the two yet, and an account of the other whose data
  decodes, accepting a request the caller has received, which decodes and is not rejected,
  leaves the tables without the request, with the friendship, made at this time, and with two
  notifications that have the next two ids, one for the caller with the other's id and one for
  the other with the caller's; nothing else in the tables is changed. The first thing sent is
  the answer with the data of the new friend.
\<close>

theorem accepted_request_befriends:
  assumes "db_works ev" and "\<not> shouldStop (fd_rmc s)" and "tables_ok (fd_tables s)"
    and "ci_pid client \<noteq> 100" and "getFriendsRegisteredClientInfo (fd_state s) (ci_pid client) = Some info"
    and "r \<in> set (tb_requests (fd_tables s))" and "rqr_toPid r = ci_pid client" and "rqr_id r = sint i"
    and "stored (decode_FriendRequestMsg (ci_minorVersion client)) (rqr_data r) = Inr msg" and "frm_id msg \<noteq> REJECTED"
    and "\<forall>r' \<in> set (tb_requests (fd_tables s)).
      rqr_fromPid r' = ci_pid client \<or> rqr_toPid r' = ci_pid client \<longrightarrow> \<not> expired ev r'"
    and "uidx (rqr_toPid r) (rqr_fromPid r) \<notin> friendship_uidx ` set (tb_friendships (fd_tables s))"
    and "find (\<lambda>u. ui_pid u = rqr_fromPid r) (tb_users (fd_tables s)) = Some u"
    and "friend_info (ci_minorVersion client) u (now_seconds ev) = Inr fi"
  shows "let t = fd_tables s; s' = snd (friends_call ev client req (AcceptFriendRequest i) s);
      me = ci_pid client; other = rqr_fromPid r; n = tb_nextNotification t in
    fd_tables s' = t\<lparr>
      tb_requests := filter (\<lambda>r'. rqr_id r' \<noteq> rqr_id r) (tb_requests t),
      tb_friendships := tb_friendships t @
        [\<lparr>fsh_pid = me, fsh_friendPid = other, fsh_becameFriends = now_seconds ev\<rparr>],
      tb_notifications := tb_notifications t @
        [\<lparr>ntr_id = n, ntr_for = me, ntr_value1 = n, ntr_value2 = other, ntr_value3 = me, ntr_value4 = 30, ntr_text = ''''\<rparr>,
         \<lparr>ntr_id = n + 1, ntr_for = other, ntr_value1 = n + 1, ntr_value2 = me, ntr_value3 = other, ntr_value4 = 30,
          ntr_text = ''''\<rparr>],
      tb_nextNotification := n + 2\<rparr> \<and>
    (\<exists>ms. fd_out s' = fd_out s @
      [OutResponse client (reply_to req) [encode_FriendInfo (ci_minorVersion client) fi]] @ ms)"
  using accept_befriends [OF assms, of req] assms(7)
  by (simp add: Let_def friends_call_def noticed_def befriended_def)

theorem accepted_request_befriends_witness:
  "let t = fd_tables (snd (friends_call (ex_friends_env (\<lambda>_. False)) (ex_player 10) ex_friends_request
      (AcceptFriendRequest 5) (ex_friends [] (ex_tables [ex_asked ex_message] [] []))))
   in tb_requests t = [] \<and> tb_friendships t = [\<lparr>fsh_pid = 10, fsh_friendPid = 20, fsh_becameFriends = 0\<rparr>] \<and>
     map ntr_for (tb_notifications t) = [10, 20] \<and> map ntr_value2 (tb_notifications t) = [20, 10]"
  using accepted_request_befriends [of "ex_friends_env (\<lambda>_. False)"
      "ex_friends [] (ex_tables [ex_asked ex_message] [] [])" "ex_player 10" _ "ex_asked ex_message" 5
      "new_FriendRequestMsg 0" "ex_account 20" "new_FriendInfo 0" ex_friends_request]
    ex_stored ex_tables_ok ex_not_expired
  by (simp add: REJECTED_def new_FriendRequestMsg_def Let_def)

text \<open>
  C18. In every reachable local shared state a session is filed under its own id, its player
  list is ascending without duplicates and as long as its participation count, and a client is a
  player of every session among its gatherings, none of which it has twice.
\<close>

theorem shared_state_consistent:
  assumes "ss_step\<^sup>*\<^sup>* (LocalSharedState_init sid rpc h) s"
  shows "(\<forall>g si. map_of (sessions s) g = Some si \<longrightarrow> g_id (heap s (si_session si)) = g \<and>
      sorted (si_players si) \<and> distinct (si_players si) \<and>
      participationCount (heap s (si_session si)) = of_nat (length (si_players si))) \<and>
    (\<forall>pid ci. map_of (clientInfos s) pid = Some ci \<longrightarrow>
      distinct (map (\<lambda>a. g_id (heap s a)) (joinedGatherings ci)) \<and>
      (\<forall>a \<in> set (joinedGatherings ci). \<exists>si. map_of (sessions s) (g_id (heap s a)) = Some si \<and>
         pid \<in> set (si_players si)))"
proof -
  note inv = ss_reachable_inv [OF assms]
  have "session_entry_ok {} s g si" if "map_of (sessions s) g = Some si" for g si
    using ss_invD(3) [OF inv that] .
  moreover have "joined_ok s pid (joinedGatherings ci)" if "map_of (clientInfos s) pid = Some ci" for pid ci
    using ss_invD(4) [OF inv that] by simp
  ultimately show ?thesis
    by (auto simp: session_entry_ok_def joined_ok_def gathering_ids_def plays_def)
qed

definition ex_store :: LocalSharedState where
  "ex_store = snd (setSplatoonMatchmakeSession (Some 0) [10, 20] (LocalSharedState_init 1 ''host'' (\<lambda>_. ex_session)))"

lemma ex_store_reachable: "ss_step\<^sup>*\<^sup>* (LocalSharedState_init 1 ''host'' (\<lambda>_. ex_session)) ex_store"
  by (rule r_into_rtranclp, rule ss_step.set_session [of "Some 0" "[10, 20]"])
     (simp_all add: ex_store_def setSplatoonMatchmakeSession_def Let_def)

theorem shared_state_consistent_witness:
  "\<exists>si. map_of (sessions ex_store) 9 = Some si \<and> si_players si = [10, 20] \<and>
    participationCount (heap ex_store (si_session si)) = 2"
proof -
  obtain si where si: "map_of (sessions ex_store) 9 = Some si" "si_players si = [10, 20]"
    by (simp add: ex_store_def setSplatoonMatchmakeSession_def LocalSharedState_init_def ex_session_def Let_def)
  with shared_state_consistent [OF ex_store_reachable] show ?thesis by auto
qed

text \<open>
  C19. The local shared state implements a table from session ids to sets of players: in a
  reachable state, adding, removing and deleting change that table as they should and nothing
  else in it, and for a session that does not exist they change nothing.
\<close>

theorem session_store_refines:
  assumes "ss_step\<^sup>*\<^sup>* (LocalSharedState_init sid rpc h) s"
  shows "membership (snd (addPlayersToSplatoonMatchmakeSession g pids s)) =
      (case membership s g of None \<Rightarrow> membership s | Some P \<Rightarrow> (membership s)(g \<mapsto> P \<union> set pids)) \<and>
    membership (snd (removePlayerFromSplatoonMatchmakeSession g pid s)) =
      (case membership s g of None \<Rightarrow> membership s | Some P \<Rightarrow> (membership s)(g \<mapsto> P - {pid})) \<and>
    membership (deleteSplatoonMatchmakeSession g s) = (membership s)(g := None) \<and>
    (\<forall>a ps. membership (snd (setSplatoonMatchmakeSession (Some a) ps s)) =
      (membership s)(g_id (heap s a) \<mapsto> set ps))"
proof -
  note inv = ss_reachable_inv [OF assms]
  have "membership (snd (setSplatoonMatchmakeSession (Some a) ps s)) = (membership s)(g_id (heap s a) \<mapsto> set ps)" for a ps
    by (rule membership_set) (rule surjective_pairing)
  then show ?thesis
    by (intro conjI allI local_store.add_law [OF inv] local_store.remove_law [OF inv]
        local_store.delete_law [OF inv]) assumption
qed

theorem session_store_refines_witness:
  "membership (snd (removePlayerFromSplatoonMatchmakeSession 9 10 ex_store)) 9 = Some {20}"
proof -
  have m: "membership ex_store 9 = Some {10, 20}"
    by (simp add: membership_def ex_store_def setSplatoonMatchmakeSession_def LocalSharedState_init_def
        ex_session_def Let_def)
  from session_store_refines [OF ex_store_reachable] have
    "membership (snd (removePlayerFromSplatoonMatchmakeSession 9 10 ex_store)) =
      (case membership ex_store 9 of None \<Rightarrow> membership ex_store | Some P \<Rightarrow> (membership ex_store)(9 \<mapsto> P - {10}))"
    by blast
  then show ?thesis by (simp add: m)
qed

text \<open>
  C20. The timer returns, and when it returns without an exception nothing is due any more: the
  time it says to wait is not negative. Its loop ends because whatever is sent again is due
  later.
\<close>

theorem timer_leaves_nothing_due:
  assumes "server_fine m s" and "process ev s = (Inr wait, s')"
  shows "due ev s' = 0 \<and> 0 \<le> wait \<and> server_fine m s'"
proof -
  obtain s1 where loop: "process_loop ev s = (Inr (), s1)" and s': "s' = s1"
    and wait: "wait = (case delayedPackets s1 of [] \<Rightarrow> 2 ^ 64 - 1 | (t, _) # _ \<Rightarrow> t - steady ev)"
    using assms(2) by (auto simp: process_def seqS_eq_Inr)
  have "server_fine m s1 \<and> due ev s1 = 0" using process_loop_fine [OF assms(1) loop] by simp
  then show ?thesis by (auto simp: s' wait due_def filter_empty_conv split: list.split)
qed

theorem timer_leaves_nothing_due_witness:
  "\<exists>wait s'. process ex_env ex_server = (Inr wait, s') \<and> due ex_env s' = 0 \<and> 0 \<le> wait"
proof -
  have "process ex_env ex_server = (Inr (2 ^ 64 - 1), ex_server)"
    by (simp add: process_def process_loop.simps)
  with timer_leaves_nothing_due [OF ex_server_fine this] show ?thesis by blast
qed

text \<open>
  C21. The connect request a user makes out of its Kerberos ticket, with a session key, a user
  id, a connection id and a check value, is accepted by the server whose password the ticket is
  for, and yields exactly these four, as long as the ticket is dated at most two minutes ahead.
\<close>

theorem ticket_accepted:
  assumes "crypto_ok cr" and "datetime_ok t0" and "skey \<noteq> []" and "length skey < 1024"
    and "t0 div ns_per_sec * ns_per_sec \<le> now + two_minutes"
    and "internalTicket cr t0 skey pid (generateUserKey cr passwd server_pid) = Inr internal"
    and "connect_request cr skey internal pid cid chk = Inr ticket"
  shows "decryptConnectRequest cr now ticket passwd server_pid =
    Inr \<lparr>co_sessionKey = skey, co_pid = pid, co_connectionId = cid, co_checkValue = chk\<rparr>"
  using assms by (rule connect_request_accepted)

theorem ticket_accepted_witness:
  "\<exists>ticket. decryptConnectRequest sum_crypto 0 ticket [1, 2] 2 =
    Inr \<lparr>co_sessionKey = [5, 6], co_pid = 1800, co_connectionId = 3, co_checkValue = 4\<rparr>"
proof -
  obtain internal ticket where
    "internalTicket sum_crypto 0 [5, 6] 1800 (generateUserKey sum_crypto [1, 2] 2) = Inr internal"
    "connect_request sum_crypto [5, 6] internal 1800 3 4 = Inr ticket"
    by (rule ex_ticket)
  from ticket_accepted [OF sum_crypto_ok ex_date _ _ _ this, where now = 0]
  show ?thesis by (intro exI [of _ ticket]) (simp add: two_minutes_def)
qed

text \<open>
  C22. A connect request is accepted only with both seals: the ticket carries the HMAC of its
  contents under the key of the server's password, and the request data the HMAC under the
  session key that the ticket holds; the user id the server then believes is the one inside the
  ticket.
\<close>

theorem ticket_is_authenticated:
  assumes "decryptConnectRequest cr now d passwd pid = Inr info"
  shows "\<exists>tic req t1 t2 inner outer. split_request d = Inr (tic, req) \<and>
    tic = t1 @ HMAC_MD5 cr (generateUserKey cr passwd pid) t1 \<and>
    arc4_once (generateUserKey cr passwd pid) t1 = Inr inner \<and>
    le_word (slice inner 8 4) = co_pid info \<and> drop 12 inner = co_sessionKey info \<and>
    req = t2 @ HMAC_MD5 cr (co_sessionKey info) t2 \<and>
    arc4_once (co_sessionKey info) t2 = Inr outer"
  by (rule accepted_request_sealed [OF assms])

theorem ticket_is_authenticated_witness:
  "\<exists>d tic req t1. split_request d = Inr (tic, req) \<and>
    tic = t1 @ HMAC_MD5 sum_crypto (generateUserKey sum_crypto [1, 2] 2) t1"
proof -
  obtain d where "decryptConnectRequest sum_crypto 0 d [1, 2] 2 =
      Inr \<lparr>co_sessionKey = [5, 6], co_pid = 1800, co_connectionId = 3, co_checkValue = 4\<rparr>"
    by (rule ex_ticket_accepted)
  from ticket_is_authenticated [OF this] show ?thesis by blast
qed

text \<open>
  C23. Where tokens are asked for, and the connection carries no user, a login is answered with
  a ticket for a user only if the token in the request is verified with the key of the account
  service, has not expired, was issued for this game server, and names that user (or user 0).
\<close>

theorem own_ticket_only:
  assumes run: "loginEx ev client req username a s = (r, s')" and fr: "\<not> ac_friends (au_config s)" and "ci_pid client = 0"
    and sold: "(c, q, login_accepted cf mv pid ticket) \<in> set (au_out s')" "(c, q, login_accepted cf mv pid ticket) \<notin> set (au_out s)"
  shows "\<exists>info n own. decode_AuthenticationInfo (ci_minorVersion client) (adh_data a) = Inr (info, n) \<and>
    good_token ev (au_config s) own (authToken info) \<and> (own = pid \<or> own = 0)"
  using loginEx_sells [OF run fr sold] own_account [OF _ \<open>ci_pid client = 0\<close>] by blast

theorem own_ticket_only_witness:
  "\<exists>own. good_token ex_auth_env (au_config (ex_auth False)) own ex_token \<and> (own = 10 \<or> own = 0)"
proof -
  have tok: "string_ok ex_token" by (simp add: ex_token_short string_ok_def)
  have jwt: "checkJWT ex_auth_env (ac_jwtKey (au_config (ex_auth False))) (ac_serverId (au_config (ex_auth False))) 10 (authToken ex_auth_info) = Inr (Some ''a'')"
    by (rule checkJWT_accepts [where payload = "''p''" and e = 100])
       (use ex_tokens_ok ex_token_signed in \<open>simp_all add: ex_auth_env_def ex_auth_info_def\<close>)
  obtain t s' where l: "loginEx ex_auth_env (ex_player 0) (ri_request ex_join_request) (to_string (unat (10 :: u32)))
      \<lparr>adh_type = ''AuthenticationInfo'', adh_data = encode_AuthenticationInfo 0 ex_auth_info\<rparr> (ex_auth False) = (Inr (), s')"
    "au_out s' = [((ex_player 0)\<lparr>ci_pid := 10\<rparr>, auth_ok (ri_request ex_join_request),
      login_accepted (au_config (ex_auth False)) 0 10 t)]"
    using loginEx_accepted [OF _ _ jwt, where p = "''pw''" and client = "ex_player 0" and req = "ri_request ex_join_request"] tok
    by (auto simp: ex_auth_env_def ex_auth_info_def ex_player_def)
  obtain n where n: "decode_AuthenticationInfo 0 (encode_AuthenticationInfo 0 ex_auth_info) = Inr (ex_auth_info, n)"
    using AuthenticationInfo_decode_encode [of ex_auth_info 0 "[]"] tok by (auto simp: ex_auth_info_def)
  from own_ticket_only [OF l(1)] l(2) n show ?thesis
    by (fastforce simp: ex_player_def ex_auth_info_def)
qed

text \<open>
  C24. A version 1 packet that fits its fields (port numbers and stream types of four bits,
  flags of twelve, supported functions of 24, fewer than 65536 bytes of payload, no connection
  signature or one of 16 bytes) and is not encrypted yet is encoded and decoded again with every
  field that is on the wire: type, flags, numbers, ports and stream types, the payload as it was
  encrypted, the fragment number of a data packet, for a SYN or CONNECT packet the functions,
  the minor version, the highest substream and the connection signature (zeros if there is
  none), for a CONNECT packet also the first unreliable number. What follows it in the datagram
  does not matter, exactly its own bytes are consumed, and a receiver that knows the access key,
  the session key and the connection signature accepts its signature.
\<close>

theorem packet_v1_roundtrip:
  assumes "crypto_ok cr" and "sentV1_ok p" and "encodeV1 cr p = Inr (bs, e)"
    and "p_accessKey q = p_accessKey p" and "p_sessionKey q = p_sessionKey p"
    and "connectionSignature q = remoteSignature p"
  shows "\<exists>r. decodeV1 q (bs @ rest) = Inr (r, length bs) \<and> checkSignatureV1 cr r \<and>
    p_type r = p_type p \<and> p_flags r = p_flags p \<and> seqId r = seqId p \<and>
    sessionId r = sessionId p \<and> substreamId r = substreamId p \<and>
    srcPort r = srcPort p \<and> srcStreamType r = srcStreamType p \<and>
    dstPort r = dstPort p \<and> dstStreamType r = dstStreamType p \<and>
    fragmentId r = (if p_type p = DATA then fragmentId p else fragmentId q) \<and>
    (if p_type p \<in> {SYN, CONNECT}
     then supportedFunctions r = supportedFunctions p \<and> p_minorVersion r = p_minorVersion p \<and>
       p_maxSubstreamId r = p_maxSubstreamId p \<and> remoteSignature r = connection_option p
     else remoteSignature r = remoteSignature q) \<and>
    (p_type p = CONNECT \<longrightarrow> initSeqIdUnreliable r = initSeqIdUnreliable p) \<and>
    encryptedData r = encryptedData (encrypt_payload p)"
  using decodeV1_encodeV1 [OF assms(1-3), of q rest] checkSignatureV1_received [OF assms(4-6)]
  by (auto simp: receivedV1_def filledV1_def Let_def)

definition ex_packet :: Packet where
  "ex_packet = (new_packet True)\<lparr>p_type := DATA, p_flags := 0xE, seqId := 7, sessionId := 3,
     srcPort := 1, dstPort := 15, fragmentId := 3, p_data := [1, 2, 3], p_accessKey := [65, 66], remoteSignature := [9]\<rparr>"

theorem packet_v1_roundtrip_witness:
  "\<exists>bs e r. encodeV1 sum_crypto ex_packet = Inr (bs, e) \<and>
    decodeV1 ((new_packet True)\<lparr>p_accessKey := [65, 66], connectionSignature := [9]\<rparr>) bs = Inr (r, length bs) \<and>
    checkSignatureV1 sum_crypto r \<and> seqId r = 7 \<and> srcPort r = 1 \<and> dstPort r = 15 \<and> fragmentId r = 3"
proof -
  have ok: "sentV1_ok ex_packet" by (simp add: sentV1_ok_def fields_fit_def ex_packet_def new_packet_def)
  then obtain bs e where e: "encodeV1 sum_crypto ex_packet = Inr (bs, e)"
    using encodeV1_bytes by blast
  show ?thesis
    using packet_v1_roundtrip [OF sum_crypto_ok ok e,
        of "(new_packet True)\<lparr>p_accessKey := [65, 66], connectionSignature := [9]\<rparr>" "[]"] e
    by (auto simp: ex_packet_def new_packet_def)
qed

text \<open>
  C25. A version 0 packet that fits its fields (port numbers and stream types of four bits,
  flags of twelve, fewer than 65536 bytes of payload, signatures of four bytes, the remote one
  perhaps absent) and is not encrypted yet is encoded and decoded again with every field that is
  on the wire: type, flags, numbers, ports and stream types, the payload as it was encrypted,
  the fragment number of a data packet and the connection signature of a SYN or CONNECT packet.
  A packet of another type has no fragment number on the wire, and the packet object it is
  decoded into must have the same one. The datagram holds the packet alone; the decoder consumes
  exactly its bytes and finds its checksum right, and a receiver that knows the keys and the
  connection signature accepts its signature.
\<close>

theorem packet_v0_roundtrip:
  assumes "crypto_ok cr" and "sentV0_ok p" and "encryptedData q = []"
    and "p_accessKey q = p_accessKey p" and "p_sessionKey q = p_sessionKey p" and "friends q = friends p"
    and "connectionSignature q = remoteSignature p" and "p_type p \<noteq> DATA \<longrightarrow> fragmentId q = fragmentId p"
  shows "\<exists>r. decodeV0 q (fst (encodeV0 cr p)) = Inr (r, length (fst (encodeV0 cr p))) \<and>
    checkSignatureV0 cr r \<and> p_type r = p_type p \<and> p_flags r = p_flags p \<and> seqId r = seqId p \<and>
    sessionId r = sessionId p \<and> srcPort r = srcPort p \<and> dstPort r = dstPort p \<and>
    srcStreamType r = srcStreamType p \<and> dstStreamType r = dstStreamType p \<and>
    fragmentId r = (if p_type p = DATA then fragmentId p else fragmentId q) \<and>
    remoteSignature r = (if p_type p \<in> {SYN, CONNECT} then connectionSignature p else remoteSignature q) \<and>
    encryptedData r = encryptedData (encrypt_payload p)"
  using decodeV0_encodeV0 [OF assms(1-4)] checkSignatureV0_received [OF assms(6,4,5,7), of cr] assms(8)
  by (auto simp: receivedV0_def Let_def)

definition ex_packet0 :: Packet where
  "ex_packet0 = (new_packet False)\<lparr>p_type := DATA, p_flags := 6, seqId := 7, srcPort := 1, dstPort := 15,
     p_data := [1, 2, 3], p_accessKey := [65, 66]\<rparr>"

theorem packet_v0_roundtrip_witness:
  "\<exists>r. decodeV0 ex_peer (fst (encodeV0 sum_crypto ex_packet0)) =
      Inr (r, length (fst (encodeV0 sum_crypto ex_packet0))) \<and> checkSignatureV0 sum_crypto r \<and>
    p_type r = DATA \<and> seqId r = 7 \<and> encryptedData r = [1, 2, 3]"
proof -
  have ok: "sentV0_ok ex_packet0"
    by (simp add: sentV0_ok_def fields_fit_def ex_packet0_def new_packet_def)
  have "encryptedData (encrypt_payload ex_packet0) = [1, 2, 3]" and p: "p_type ex_packet0 = DATA"
    "seqId ex_packet0 = 7" "p_accessKey ex_packet0 = [65, 66]" "p_sessionKey ex_packet0 = []"
    "friends ex_packet0 = True" "remoteSignature ex_packet0 = []"
    by (simp_all add: encrypt_payload_def encryptData_def ex_packet0_def new_packet_def)
  moreover have "encryptedData ex_peer = []" "p_accessKey ex_peer = [65, 66]" "p_sessionKey ex_peer = []"
    "friends ex_peer = True" "connectionSignature ex_peer = []"
    by (simp_all add: ex_peer_def new_packet_def)
  ultimately show ?thesis using packet_v0_roundtrip [OF sum_crypto_ok ok, of ex_peer] by auto
qed

text \<open>
  C26. A running RMC server that is handed an encoded request queues it with its parsed
  parameters and answers nothing, or leaves its state alone and answers one error: not
  implemented for an unknown method, invalid argument for parameters that are malformed, and an
  exception otherwise. The client decodes the answer to its own call id with the failure bit
  set.
\<close>

theorem rmc_request_answered:
  assumes "\<not> shouldStop s" and "request_ok req" and "length params + 11 < 2 ^ 32"
    and "\<And>parser. calls s (call_key req) = Some parser \<Longrightarrow> parser mv params \<noteq> Inl UndefinedAccess"
  shows "\<exists>s' out. rmc_onData s addr mv sub (encode_Request req (length params) @ params) = Inr (s', out) \<and>
    ((\<exists>parser ps. calls s (call_key req) = Some parser \<and> parser mv params = Inr ps \<and>
        s' = enqueue s addr mv sub req ps \<and> out = []) \<or>
     (\<exists>err d. s' = s \<and> out = [(addr, d, sub)] \<and>
        err = (case calls s (call_key req) of None \<Rightarrow> CORE__NOT_IMPLEMENTED
               | Some parser \<Rightarrow> if parser mv params = Inl MalformedException then CORE__INVALID_ARGUMENT
                                else CORE__EXCEPTION) \<and>
        decode_Response d = Inr (\<lparr>rs_protocolId = rq_protocolId req,
          rs_extendedProtocolId = rq_extendedProtocolId req, rs_success = False,
          rs_callId = rq_callId req, rs_methodId = 0, rs_error = err OR 0x80000000\<rparr>, [])))"
proof -
  note run = rmc_onData_request [OF assms(1-3), of addr mv sub]
  have answer: "\<exists>d. sendResponse s (error_client s addr mv sub) (createError req err) [] = [(addr, d, sub)] \<and>
      decode_Response d = Inr (\<lparr>rs_protocolId = rq_protocolId req,
        rs_extendedProtocolId = rq_extendedProtocolId req, rs_success = False,
        rs_callId = rq_callId req, rs_methodId = 0, rs_error = err OR 0x80000000\<rparr>, [])" for err
    using error_response_decodes [OF assms(2,1) refl, of addr mv sub err]
    by (simp add: seen_response_def createError_def)
  show ?thesis
  proof (cases "calls s (call_key req)")
    case None
    with answer [of CORE__NOT_IMPLEMENTED] show ?thesis
      unfolding run by (simp add: handle_request_def Let_def)
  next
    case (Some parser)
    show ?thesis
    proof (cases "parser mv params")
      case (Inr ps)
      with Some show ?thesis unfolding run by (simp add: handle_request_def Let_def)
    next
      case (Inl e)
      then have "e \<noteq> UndefinedAccess" using assms(4) [OF Some] by auto
      with Some Inl answer [of CORE__INVALID_ARGUMENT] answer [of CORE__EXCEPTION] show ?thesis
        unfolding run by (cases e) (simp_all add: handle_request_def Let_def)
    qed
  qed
qed

theorem rmc_request_answered_witness:
  "\<exists>out. rmc_onData ex_rmc ex_addr 0 0 (encode_Request (ex_request 5) 0) = Inr (ex_rmc, out) \<and> length out = 1"
proof -
  have ok: "\<not> shouldStop ex_rmc" "request_ok (ex_request 5)"
    and call: "calls ex_rmc (call_key (ex_request 5)) =
      Some (\<lambda>mv d. if d = [] then Inl MalformedException else Inr d)"
    by (simp_all add: ex_rmc_def ex_request_def request_ok_def call_key_def)
  from rmc_request_answered [OF ok, of "[]" 0 ex_addr 0] call show ?thesis by auto
qed

text \<open>
  C27. The worker of a running RMC server handles every request that is accepted, once and in
  the order of arrival. Messages, connections, disconnections and turns of the worker come in
  any order. A handler is any function over a state of its own, run as one step, without waiting
  for another task: it changes its state, sends messages, and ends normally or by an exception,
  possibly after some of its messages; neither handlers nor parsers leave the defined behaviour.
  After two turns more, the handlers have been run, one after the other, exactly on the requests
  that were registered and parsed (the others are refused as they arrive, and no business of the
  worker); what the worker sent is, in this order, what each of them sent, followed by one
  exception error if it threw; and neither a task nor a request is left.
\<close>

theorem rmc_queue_runs_everything:
  fixes rt :: "'p Runtime" and w :: 'w
  assumes "\<not> shouldStop (rt_server rt)" and "rt_tasks rt = []" and "requestsQueue (rt_server rt) = []"
    and "defined_handler handler" and "defined_parsers (calls (rt_server rt))"
  shows "\<exists>rt' w' log. worker_events handler (es @ [Turn, Turn]) (rt, w, []) = Inr (rt', w', concat (map sent_for log)) \<and>
    replay handler w log = Some w' \<and>
    map (arrived_as \<circ> fst) log = List.map_filter (accepted (calls (rt_server rt))) es \<and>
    rt_tasks rt' = [] \<and> requestsQueue (rt_server rt') = []"
proof -
  have "worker_inv handler w (calls (rt_server rt)) [] [] (rt, w, [])"
    using assms(1-3) by (simp add: worker_inv_def works_def queue_ok_def)
  from worker_events_logged [OF assms(4,5) this, of es] obtain x log where x: "worker_events handler es (rt, w, []) = Inr x"
    "worker_inv handler w (calls (rt_server rt)) (List.map_filter (accepted (calls (rt_server rt))) es) log x"
    by auto
  from worker_done [OF assms(4) x(2)] obtain rt' w' log' where
    "worker_events handler [Turn, Turn] x = Inr (rt', w', concat (map sent_for log'))" "replay handler w log' = Some w'"
    "rt_tasks rt' = []" "requestsQueue (rt_server rt') = []"
    "map (arrived_as \<circ> fst) log' = List.map_filter (accepted (calls (rt_server rt))) es"
    by blast
  with x(1) show ?thesis by (auto simp: worker_events_append)
qed

text \<open>Calls that count, answer with a byte and then throw; two of them, and a message that is none.\<close>

definition ex_throwing :: "(bytes, nat) Handler" where
  "ex_throwing r w = (Inl RuntimeError, w + 1, [(ci_address (ri_client r), [7], 0)])"

definition ex_events :: "WorkerEvent list" where
  "ex_events = [Connects ex_addr 1800, Arrives ex_addr 0 0 (call_message (ex_calls ! 0)), Turn,
     Arrives ex_addr 0 0 [1], Arrives ex_addr 0 0 (call_message (ex_calls ! 1))]"

lemma ex_events_accepted:
  "List.map_filter (accepted (calls ex_rmc)) ex_events = [(ex_addr, 0, 0, ex_request 5, [1]), (ex_addr, 0, 0, ex_request 6, [2, 3])]"
  by code_simp

theorem rmc_queue_runs_everything_witness:
  "\<exists>rt (log :: bytes log). worker_events ex_throwing (ex_events @ [Turn, Turn]) (\<lparr>rt_server = ex_rmc, rt_tasks = []\<rparr>, 0, []) =
      Inr (rt, 2, concat (map sent_for log)) \<and>
    map (rq_callId \<circ> ri_request \<circ> fst) log = [5, 6] \<and> length (concat (map sent_for log)) = 4"
proof -
  let ?rt = "\<lparr>rt_server = ex_rmc, rt_tasks = []\<rparr>"
  have ok: "\<not> shouldStop (rt_server ?rt)" "rt_tasks ?rt = []" "requestsQueue (rt_server ?rt) = []"
    "defined_handler ex_throwing" "defined_parsers (calls (rt_server ?rt))"
    by (auto simp: defined_handler_def defined_parsers_def ex_throwing_def ex_rmc_def split: if_splits)
  have accepted: "List.map_filter (accepted (calls (rt_server ?rt))) ex_events =
      [(ex_addr, 0, 0, ex_request 5, [1]), (ex_addr, 0, 0, ex_request 6, [2, 3])]"
    using ex_events_accepted by simp
  from rmc_queue_runs_everything [OF ok, of ex_events 0] obtain rt w log where
    run: "worker_events ex_throwing (ex_events @ [Turn, Turn]) (?rt, 0, []) = Inr (rt, w, concat (map sent_for log))"
    and log: "replay ex_throwing 0 (log :: bytes log) = Some w"
    "map (arrived_as \<circ> fst) log = [(ex_addr, 0, 0, ex_request 5, [1]), (ex_addr, 0, 0, ex_request 6, [2, 3])]"
    unfolding accepted by (elim exE conjE) (rule that; assumption)
  from log(2) obtain r1 o1 s1 r2 o2 s2 where l: "log = [(r1, o1, s1), (r2, o2, s2)]"
    "ri_request r1 = ex_request 5" "ri_request r2 = ex_request 6"
    by (auto simp: map_eq_Cons_conv arrived_as_def)
  then have "w = 2" "o1 = Inl RuntimeError" "o2 = Inl RuntimeError" "length s1 = 1" "length s2 = 1"
    using log(1) by (auto simp: ex_throwing_def split: if_splits)
  with run l show ?thesis by (intro exI [of _ rt] exI [of _ log]) (simp add: ex_request_def)
qed

text \<open>
  C28. Two ends that start from the same session key stay in step: whatever messages one
  encrypts, one after the other, the other decrypts, and cutting the messages differently makes
  no difference to the bytes, which are those of one encryption of the whole text.
\<close>

theorem cipher_streams_agree:
  assumes "Encoder_init key = Inr e"
  shows "snd (decode_all e (snd (encode_all e ds))) = ds \<and>
    concat (snd (encode_all e ds)) = snd (encDec (encCtx e) (concat ds)) \<and>
    length (arc4_state (encCtx (fst (encode_all e ds)))) = 256 \<and>
    distinct (arc4_state (encCtx (fst (encode_all e ds))))"
proof -
  have "encoder_ok (fst (encode_all e ds))"
    by (rule encode_all_ok [OF Encoder_init_ok [OF assms]])
  then show ?thesis
    using decode_all_encode_all [OF synced_init [OF assms]] concat_encode_all [of e ds]
    by (simp add: encoder_ok_def arc4_ok_def)
qed

theorem cipher_streams_agree_witness:
  "\<exists>e. Encoder_init [1, 2, 3] = Inr e \<and> snd (decode_all e (snd (encode_all e [[1], [2, 3], []]))) = [[1], [2, 3], []]"
proof -
  obtain e where e: "Encoder_init [1, 2, 3] = Inr e" by (simp add: Encoder_init_def arc4_init_def)
  with cipher_streams_agree [OF e] show ?thesis by blast
qed

text \<open>
  C29. A matchmake session with an empty parameter map, a start time of whole seconds and
  strings and buffers of sendable length is decoded to the same session, for the minor version
  it was made with, whatever follows it; two such sessions never share a prefix.
\<close>

theorem matchmake_session_roundtrip:
  assumes "matchmakeSession_ok mv x"
  shows "decode_MatchmakeSession mv (encode_MatchmakeSession x @ rest) = Inr (x, length (encode_MatchmakeSession x)) \<and>
    (\<forall>y r. matchmakeSession_ok mv y \<longrightarrow> encode_MatchmakeSession x @ rest = encode_MatchmakeSession y @ r \<longrightarrow> x = y)"
  using matchmakeSession_codec.roundtrip [OF assms] matchmakeSession_codec.prefix_free [OF assms] by blast

theorem matchmake_session_roundtrip_witness:
  "decode_MatchmakeSession 3 (encode_MatchmakeSession ex_session @ [1, 2]) =
    Inr (ex_session, length (encode_MatchmakeSession ex_session))"
proof -
  have "matchmakeSession_ok 3 ex_session"
    using ex_date by (simp add: matchmakeSession_ok_def ex_session_def gathering_ok_def string_ok_def list_ok_def
      Gathering.defs matchmakeParam_ok_def whole_seconds_def)
  from matchmake_session_roundtrip [OF this, of "[1, 2]"] show ?thesis by blast
qed

text \<open>
  C30. A station URL with at least one parameter, numbers below 2^31 and a text of sendable
  length is printed and parsed back to itself, provided that
  \<^verbatim>\<open>inet_pton\<close> reads a dotted quad as its numbers.
\<close>

theorem station_url_roundtrip:
  assumes "inet_inverse inet" and "url_ok u"
  shows "decode_StationURL inet (encode_StationURL u @ rest) = Inr (u, length (encode_StationURL u))"
  using assms by (rule decode_StationURL_encode)

theorem station_url_roundtrip_witness:
  "decode_StationURL ex_inet (encode_StationURL ex_url @ [9]) = Inr (ex_url, length (encode_StationURL ex_url))"
  by (rule station_url_roundtrip [OF ex_inet_inverse ex_url_ok])

text \<open>
  C31. A time whose year fits the wire is encoded in 8 bytes and comes back as the same second:
  the calendar computation is inverted exactly, over four-hundred-year eras and leap days.
\<close>

theorem datetime_roundtrip:
  assumes "datetime_ok t"
  shows "decode_Datetime (encode_Datetime t @ rest) = Inr (t div ns_per_sec * ns_per_sec, 8)"
  using assms by (rule decode_encode_Datetime)

theorem datetime_roundtrip_witness:
  "decode_Datetime (encode_Datetime 0 @ [1]) = Inr (0, 8)"
  using datetime_roundtrip [OF ex_date, of "[1]"] by simp

text \<open>
  C32. What the console reads is what the server published: the reader of the format, which
  follows the offsets, the tables of keys and strings and the tags, gets from every file that
  the serialiser writes the tree that it was made of, provided no key and no string holds a zero
  byte and the file has at most 64 megabytes, within which no offset and no count wraps.
\<close>

theorem byaml_roundtrip:
  assumes "byaml_serialize root = Inr d" and "no_nul root" and "length d \<le> 2 ^ 26"
  shows "read_byaml d = Some root"
  using assms by (rule read_serialized)

theorem byaml_roundtrip_witness:
  "\<exists>d. byaml_serialize sample_node = Inr d \<and> length d = 100 \<and> read_byaml d = Some sample_node"
proof -
  have "case byaml_serialize sample_node of Inl _ \<Rightarrow> False | Inr d \<Rightarrow> length d = 100" by code_simp
  then obtain d where d: "byaml_serialize sample_node = Inr d" "length d = 100"
    by (auto split: sum.splits)
  have "no_nul sample_node" by code_simp
  from byaml_roundtrip [OF d(1) this] d show ?thesis by simp
qed

text \<open>
  C33. The index of an archive finds its files. For at most 65535 files with different names,
  none of them empty, of 2 ^ 28 bytes or more, or with a zero byte in it, building the radix
  tree ends without an exception, keeps each file under its name and in its place, and the
  search by a name, from the root down until a link leads up again, ends at the node of that
  name.
\<close>

theorem archive_index_finds_files:
  fixes ns :: "'f Node list"
  assumes "names_ok ns" and "ns \<noteq> []"
  shows "\<exists>ns'. buildRadixTree ns = Inr ns' \<and> length ns' = length ns \<and>
    (\<forall>i k. 0 < i \<and> i < length ns \<and> node_key (ns ! i) = Some k \<longrightarrow>
      node_key (ns' ! i) = Some k \<and> node_file (ns' ! i) = node_file (ns ! i) \<and>
      descend ns' k 0 (unat (leftIdx (ns' ! 0))) = Inr i)"
  using assms by (rule built_tree)

definition ex_files :: "nat Node list" where
  "ex_files = [Node_init, Node_init\<lparr>node_key := Some ''VSSetting.byaml'', node_file := Some 1\<rparr>,
     Node_init\<lparr>node_key := Some ''Festival.byaml'', node_file := Some 2\<rparr>,
     Node_init\<lparr>node_key := Some ''PanelTexture.bfres'', node_file := Some 3\<rparr>]"

theorem archive_index_finds_files_witness:
  "\<exists>ns. buildRadixTree ex_files = Inr ns \<and> descend ns ''Festival.byaml'' 0 (unat (leftIdx (ns ! 0))) = Inr 2 \<and>
    node_file (ns ! 2) = Some 2"
proof -
  have "names_ok ex_files" "ex_files \<noteq> []"
    by (simp_all add: names_ok_def ex_files_def)
  from archive_index_finds_files [OF this] obtain ns where ns: "buildRadixTree ex_files = Inr ns"
    "\<forall>i k. 0 < i \<and> i < length ex_files \<and> node_key (ex_files ! i) = Some k \<longrightarrow>
      node_key (ns ! i) = Some k \<and> node_file (ns ! i) = node_file (ex_files ! i) \<and>
      descend ns k 0 (unat (leftIdx (ns ! 0))) = Inr i"
    by blast
  from ns(2) [rule_format, of 2 "''Festival.byaml''"] ns(1) show ?thesis by (auto simp: ex_files_def)
qed

text \<open>
  C34. The news of a festival in every language: for each of the four dialogues and each of the
  nine languages, the generated tree has the lines of that language, in their order, or those of
  the backup language if it has none.
\<close>

theorem festival_in_every_language:
  assumes "generateFestivalByaml info = Inr root" and "i < 4"
  shows "news_of root i l = Some (ArrayNode (map line_node (festival_lines info i l)))"
  using assms by (rule festival_news)

theorem festival_in_every_language_witness:
  "\<exists>root. generateFestivalByaml sample_festival = Inr root \<and>
    news_of root 3 JAPANESE = Some (ArrayNode (map line_node (case hello AMERICAN_ENGLISH of Some ls \<Rightarrow> ls)))"
proof -
  obtain root where root: "generateFestivalByaml sample_festival = Inr root"
    using festival_returns [of sample_festival]
    by (auto simp: sample_festival_def sample_team_def hello_def backup_complete_def dialogues_def
        word_sless_alt)
  have "festival_lines sample_festival 3 JAPANESE = (case hello AMERICAN_ENGLISH of Some ls \<Rightarrow> ls)"
    by (simp add: festival_lines_def sample_festival_def dialogues_def chosen_def hello_def)
  with festival_in_every_language [OF root, of 3 JAPANESE] root show ?thesis by auto
qed

text \<open>
  C35. The drawn rotation: if the distribution over the maps stays in its range and, from every
  state of the random engine, gives another index in the end, the generator returns; its file
  has 180 phases, of which the last lasts ten years and the others four hours; and each phase
  has two different stages for ranked and two for regular battles.
\<close>

theorem rotation_never_repeats_a_stage:
  assumes "varies mapDist" and "in_rules ruleDist"
  shows "\<exists>root. generateVSSettingByaml mapDist ruleDist g now t = Some root \<and>
    list_all2 good_phase (replicate 179 PHASE_DURATION @ [87600]) (phases_of root) \<and> ordered_keys root \<and>
    (\<exists>d. byaml_serialize root = Inr d)"
  using vs_setting_returns [OF assms] by (simp add: rotation_def PHASE_COUNT_def)

theorem rotation_never_repeats_a_stage_witness:
  "\<exists>root. generateVSSettingByaml (round_robin 16) (round_robin 3) 5 0 0 = Some root \<and>
    length (phases_of root) = 180"
  using rotation_never_repeats_a_stage [OF round_robin_varies, of 5 0 0] by (auto dest: list_all2_lengthD)

text \<open>
  C36. The loop that draws the id of a new gathering returns the first number drawn that no
  session has, and nothing else: it returns an id exactly if some draw is free, and then the
  first such. So it ends whenever among the next k draws there are more different numbers than
  there are sessions, and then within these k draws.
\<close>

theorem gathering_id_found:
  "(draw_gathering_id st draws n = Some gId \<longleftrightarrow>
     (\<exists>j \<ge> n. gId = draws j \<and> getSplatoonMatchmakeSession st (draws j) = None \<and>
       (\<forall>i. n \<le> i \<and> i < j \<longrightarrow> getSplatoonMatchmakeSession st (draws i) \<noteq> None))) \<and>
   (length (sessions st) < card (draws ` {n..<n + k}) \<longrightarrow>
     (\<exists>j. n \<le> j \<and> j < n + k \<and> draw_gathering_id st draws n = Some (draws j) \<and>
       getSplatoonMatchmakeSession st (draws j) = None \<and>
       (\<forall>i. n \<le> i \<and> i < j \<longrightarrow> getSplatoonMatchmakeSession st (draws i) \<noteq> None)))"
proof -
  have "\<exists>j. first_free st draws n j \<and> j < n + k \<and> draw_gathering_id st draws n = Some (draws j)"
    if "length (sessions st) < card (draws ` {n..<n + k})"
    using draws_enough [OF that] draw_first by metis
  moreover have "draw_gathering_id st draws n = Some gId \<longleftrightarrow> (\<exists>j. first_free st draws n j \<and> gId = draws j)"
    by (rule draw_iff)
  ultimately show ?thesis by (auto simp: first_free_def free_id_def)
qed

theorem gathering_id_found_witness:
  "draw_gathering_id (ex_lobby_state [10]) (\<lambda>n. of_nat (9 + n)) 0 = Some 10"
proof -
  have "(\<lambda>n. of_nat (9 + n) :: u32) ` {0..<0 + 2} = {9, 10}" by (auto simp: numeral_2_eq_2 atLeast0_lessThan_Suc)
  then have "length (sessions (ex_lobby_state [10])) < card ((\<lambda>n. of_nat (9 + n) :: u32) ` {0..<0 + 2})"
    by (simp add: ex_lobby_state_def)
  with conjunct2 [OF gathering_id_found] obtain j where j: "j < 0 + 2"
    "draw_gathering_id (ex_lobby_state [10]) (\<lambda>n. of_nat (9 + n)) 0 = Some (of_nat (9 + j))"
    "getSplatoonMatchmakeSession (ex_lobby_state [10]) (of_nat (9 + j)) = None"
    by blast
  moreover have "j \<noteq> 0"
  proof
    assume "j = 0"
    with j(3) show False by (simp add: getSplatoonMatchmakeSession_def ex_lobby_state_def)
  qed
  ultimately have "j = 1" by simp
  with j(2) show ?thesis by simp
qed

text \<open>
  C37. Every registration gets its own connection id: the id is that of the counter, which then
  goes to the next one; the counter is never 0, and it comes back to an earlier value only after
  2 ^ 32 - 1 registrations.
\<close>

theorem connection_ids_distinct:
  assumes "nextRVConnId s \<noteq> 0" and "secure_register client req [url] s = (r, s')"
  shows "(\<exists>ci. map_of (clientInfos (sp_state s')) (ci_pid client) = Some ci \<and> sr_rvConnId ci = nextRVConnId s) \<and>
    nextRVConnId s' = next_rv_id (nextRVConnId s) \<and> nextRVConnId s' \<noteq> 0 \<and>
    (\<forall>j k. j < k \<longrightarrow> k < j + (2 ^ 32 - 1) \<longrightarrow>
       (next_rv_id ^^ j) (nextRVConnId s) \<noteq> (next_rv_id ^^ k) (nextRVConnId s))"
  using register_result(4,5) [OF assms(2)] next_rv_id_nonzero next_rv_id_distinct [OF assms(1)] by auto

theorem connection_ids_distinct_witness:
  "nextRVConnId (snd (secure_register (ex_player 20) (ri_request ex_join_request) [ex_url] (ex_game [10]))) = 2"
proof -
  obtain r s' where s': "secure_register (ex_player 20) (ri_request ex_join_request) [ex_url] (ex_game [10]) = (r, s')"
    by fastforce
  from connection_ids_distinct [OF _ s'] show ?thesis by (simp add: s' next_rv_id_def)
qed

text \<open>
  C38. The decoders of what a client sends as the parameters of a join, a ranking request and a
  score upload, and those of gatherings and strings, never read outside their input and never
  claim to have consumed more than there is, whatever the bytes are. The decoder of version 0
  packets never reads outside its input either, and claims more than there is in one case alone:
  a SYN or CONNECT packet of 15 bytes, for which it claims 16.
\<close>

theorem client_decoders_stay_in_bounds:
  "never_undefined (decode_JoinMatchmakeSessionParam mv) \<and> consumes_within (decode_JoinMatchmakeSessionParam mv) \<and>
   never_undefined (decode_CompetitionRankingGetParam mv) \<and> consumes_within (decode_CompetitionRankingGetParam mv) \<and>
   never_undefined (decode_CompetitionRankingUploadScoreParam mv) \<and>
   consumes_within (decode_CompetitionRankingUploadScoreParam mv) \<and>
   never_undefined (decode_Gathering mv) \<and> consumes_within (decode_Gathering mv) \<and>
   never_undefined decode_string \<and> consumes_within decode_string \<and>
   (case decodeV0 q d of
      Inl e \<Rightarrow> e \<noteq> UndefinedAccess
    | Inr (p, n) \<Rightarrow> n \<le> length d \<or> n = 16 \<and> length d = 15 \<and> (p_type p = SYN \<or> p_type p = CONNECT))"
  by (intro conjI allI joinMatchmakeSessionParam_codec.defined joinMatchmakeSessionParam_codec.within
      competitionRankingGetParam_codec.defined competitionRankingGetParam_codec.within
      competitionRankingUploadScoreParam_codec.defined competitionRankingUploadScoreParam_codec.within
      gathering_codec.defined gathering_codec.within string_codec.defined string_codec.within decodeV0_within)

text \<open>
  C39. Finding. On an idle substream the first fragment of a message, when it comes in order, is
  counted and acknowledged but stays in the queue; from then on nothing is handed over: neither
  that message nor anything after it, for the hundred reliable packets that still fit the queue.
\<close>

theorem fragmented_message_is_lost:
  assumes "crypto_ok (crypto ev)" and "idle addr sub r s" and "first_fragment r p"
    and "\<forall>q \<in> set (p # ps). packet_substream s q = sub" and "length ps \<le> 100"
  shows "\<exists>s'. forS (p # ps) (process_reliable ev addr) s = (Inr (), s') \<and> rmc s' = rmc s"
  using fragments_in_order_lost [OF assms(1-4)] assms(5) by (simp add: MAX_PACKET_QUEUE_SIZE_def)

theorem fragmented_message_is_lost_witness:
  "\<exists>s'. forS [(ex_data 0)\<lparr>fragmentId := 1\<rparr>, ex_data 1] (process_reliable ex_env ex_addr) ex_connected = (Inr (), s') \<and>
    rmc s' = rmc ex_connected"
proof -
  obtain c where c: "clients ex_connected ex_addr = Some c" "pinged ex_addr c ex_connected"
      "stream_at ex_channel 0 0 c" "packetQueue (substreams c ! 0) = []"
    using ex_connected_receiver by (auto simp: receiver_def rx_def queued_def)
  then have "unat (recvSeqId (substreams c ! 0)) = 1" by (simp add: stream_at_def)
  then have r: "recvSeqId (substreams c ! 0) = 1" by (simp add: word_unat_eq_iff)
  have idle: "idle ex_addr 0 1 ex_connected"
    using c r by (simp add: idle_def stream_at_def)
  have f: "first_fragment 1 ((ex_data 0)\<lparr>fragmentId := 1\<rparr>)"
    by (simp add: first_fragment_def ex_data_def Let_def)
  have "\<forall>q \<in> set [(ex_data 0)\<lparr>fragmentId := 1\<rparr>, ex_data 1]. packet_substream ex_connected q = 0"
    by (simp add: packet_substream_def)
  from fragmented_message_is_lost [OF ex_env_simps(2) idle f this] show ?thesis by simp
qed

text \<open>
  C40. Finding. Four short requests take the web server down. A content length of blanks reaches
  stoul as an empty text, and the exception is none that the loop knows: it leaves the thread of
  the sockets. A content length that wraps with the header's length passes for complete and
  makes the body a range that ends before it begins; so does a chunk of size 2^64 - 2; and any
  trailer behind the last chunk is removed with two bytes more than the view has.
\<close>

theorem hostile_requests_stop_the_server:
  assumes "hs_buffers s i = Some []" and "(d, e) \<in> {(blank_length, InvalidArgument),
    (wrapping_length, UndefinedAccess), (backward_chunk, UndefinedAccess), (with_trailer, UndefinedAccess)}"
  shows "onDataReceived ev i d s = Some (Inl e, s\<lparr>hs_buffers := (hs_buffers s)(i \<mapsto> d)\<rparr>)"
proof (rule uncaught)
  show "request_parse d = Inl e"
    using assms(2) blank_length_parsed wrapping_length_parsed backward_chunk_parsed with_trailer_parsed by auto
  show "e \<noteq> NotCompleteException" "error_status e = None" "d \<noteq> []" "length d \<le> MAX_PAYLOAD_SIZE"
    using assms(2) by (auto simp: error_status_def blank_length_def wrapping_length_def backward_chunk_def
        with_trailer_def chunked_head_def crlf_def MAX_PAYLOAD_SIZE_def)
  show "hs_buffers s i = Some []" by fact
qed

theorem hostile_requests_stop_the_server_witness:
  "onDataReceived ex_http_env 1 blank_length ex_http_server =
    Some (Inl InvalidArgument, ex_http_server\<lparr>hs_buffers := (hs_buffers ex_http_server)(1 \<mapsto> blank_length)\<rparr>)"
  by (rule hostile_requests_stop_the_server) (simp_all add: ex_http_server_def onAccept_def http_server_def)

end
